(* ===== verification/Prelude.thy ===== *)
theory Prelude
  imports Main "HOL-Library.Word" "HOL-Library.Char_ord" "HOL-Library.List_Lexorder"
begin

text \<open>
  Shared ground of the development: the named collections of rewrite rules and
  the facts on lists and options that several components use.  Nothing in this
  theory is specific to one source file.

  \<^item> \<open>wf_simps\<close> collects the preservation lemmas of the components' well-formedness
    predicates;
  \<^item> \<open>frame_simps\<close> collects the facts that an operation leaves a field alone;
  \<^item> \<open>cpp_simps\<close> collects the characterisations of the C++ standard-library
    operations (strings, maps, numbers) that proofs use instead of their
    definitions.
\<close>

named_theorems wf_simps
named_theorems frame_simps
named_theorems cpp_simps

subsection \<open>Machine integers\<close>

type_synonym u64 = "64 word"

text \<open>Numbers closer than \<open>2 ^ 64\<close> have different images.\<close>
lemma u64_of_nat_inj:
  assumes "(of_nat x :: u64) = of_nat y" "\<bar>int x - int y\<bar> < 2 ^ 64"
  shows "x = y"
proof -
  have "x mod 2 ^ 64 = y mod 2 ^ 64"
    using assms(1) by (simp add: word_of_nat_eq_iff take_bit_eq_mod)
  then have "int (x mod 2 ^ 64) = int (y mod 2 ^ 64)" by simp
  then have "int x mod 2 ^ 64 = int y mod 2 ^ 64" by (simp add: zmod_int)
  then have "(2 ^ 64 :: int) dvd int x - int y" by (simp add: mod_eq_dvd_iff)
  with assms(2) have "int x - int y = 0"
    using dvd_imp_le_int [of "int x - int y" "2 ^ 64"] by fastforce
  then show ?thesis by simp
qed

text \<open>A timestamp is a \<open>system_clock::time_point\<close>: nanoseconds since the epoch.\<close>
type_synonym timestamp = int

text \<open>Division and remainder of C++ (truncating towards zero).\<close>
definition tdiv :: "int \<Rightarrow> int \<Rightarrow> int" where
  "tdiv a b = sgn a * sgn b * (\<bar>a\<bar> div \<bar>b\<bar>)"

definition tmod :: "int \<Rightarrow> int \<Rightarrow> int" where
  "tmod a b = a - b * tdiv a b"

lemma tdiv_nonneg [cpp_simps]: "0 \<le> a \<Longrightarrow> 0 < b \<Longrightarrow> tdiv a b = a div b"
  by (cases "a = 0") (auto simp: tdiv_def)

lemma tmod_nonneg [cpp_simps]: "0 \<le> a \<Longrightarrow> 0 < b \<Longrightarrow> tmod a b = a mod b"
  by (simp add: tmod_def tdiv_nonneg minus_mult_div_eq_mod)

lemma tdiv_mono:
  assumes "a \<le> b" "0 < c"
  shows "tdiv a c \<le> tdiv b c"
proof (cases "0 \<le> a")
  case True
  with assms show ?thesis by (simp add: tdiv_nonneg zdiv_mono1)
next
  case na: False
  show ?thesis
  proof (cases "0 \<le> b")
    case True
    have "tdiv a c \<le> 0"
      using na assms(2) by (simp add: tdiv_def sgn_if pos_imp_zdiv_nonneg_iff)
    moreover have "0 \<le> tdiv b c"
      using True assms(2) by (simp add: tdiv_nonneg pos_imp_zdiv_nonneg_iff)
    ultimately show ?thesis by simp
  next
    case False
    have "(- b) div c \<le> (- a) div c"
      using assms by (intro zdiv_mono1) auto
    with na False assms(2) show ?thesis
      by (simp add: tdiv_def sgn_if)
  qed
qed

subsection \<open>Lists\<close>

text \<open>The last \<open>n\<close> elements: what a log of capacity \<open>n\<close> keeps.\<close>
definition take_last :: "nat \<Rightarrow> 'a list \<Rightarrow> 'a list" where
  "take_last n xs = drop (length xs - n) xs"

lemma length_take_last [simp]: "length (take_last n xs) = min n (length xs)"
  by (auto simp: take_last_def)

lemma take_last_all [simp]: "length xs \<le> n \<Longrightarrow> take_last n xs = xs"
  by (simp add: take_last_def)

lemma take_last_suffix: "\<exists>ys. xs = ys @ take_last n xs"
  by (metis append_take_drop_id take_last_def)

lemma set_take_last: "set (take_last n xs) \<subseteq> set xs"
  by (simp add: take_last_def set_drop_subset)

lemma take_last_snoc: "take_last n (take_last n xs @ ys) = take_last n (xs @ ys)"
proof -
  define d where "d = length xs - n"
  have "drop (length (drop d xs @ ys) - n) (drop d xs @ ys) = drop (length (xs @ ys) - n) (xs @ ys)"
    by (auto simp: d_def drop_append intro!: arg_cong2 [where f = append] arg_cong2 [where f = drop])
  then show ?thesis
    by (simp add: take_last_def d_def)
qed

lemma take_last_nonempty: "0 < n \<Longrightarrow> xs \<noteq> [] \<Longrightarrow> take_last n xs \<noteq> []"
  by (cases xs) (auto simp: take_last_def)

lemma last_take_last: "0 < n \<Longrightarrow> xs \<noteq> [] \<Longrightarrow> last (take_last n xs) = last xs"
  by (cases xs) (auto simp: take_last_def)

lemma take_last_append_long: "n \<le> length ys \<Longrightarrow> take_last n (xs @ ys) = take_last n ys"
  by (simp add: take_last_def)

lemma sorted_wrt_filter: "sorted_wrt R xs \<Longrightarrow> sorted_wrt R (filter P xs)"
  by (induction xs) auto

lemma distinct_map_filter_fst: "distinct (map f xs) \<Longrightarrow> distinct (map f (filter P xs))"
  by (induction xs) auto

text \<open>\<open>std::find_if\<close> on a list.\<close>
lemma find_Some_filter: "find P xs = Some x \<longleftrightarrow> (\<exists>ys. filter P xs = x # ys)"
  by (induction xs) auto

lemma find_None_filter: "find P xs = None \<longleftrightarrow> filter P xs = []"
  by (induction xs) auto

text \<open>Splitting a Boolean fold over a list of counters.\<close>
lemma sum_list_filter_partition:
  "sum_list (map f xs) = sum_list (map f (filter P xs)) + sum_list (map f (filter (\<lambda>x. \<not> P x) xs))"
  for f :: "'a \<Rightarrow> 'b::comm_monoid_add"
  by (induction xs) (auto simp: ac_simps)

end
