(* ===== verification/Cpp_Map.thy ===== *)
theory Cpp_Map
  imports Prelude
begin

text \<open>
  \<open>std::map\<close>: an association list kept in strictly ascending key order, so that
  iterating the list is iterating the map.  The lookup is \<^const>\<open>map_of\<close>.  The
  locale \<open>map_ops\<close> is the interface the clients rely on; the ordered association
  lists are its provider.
\<close>

type_synonym ('k, 'v) omap = "('k \<times> 'v) list"

text \<open>\<open>m[k] = v\<close>\<close>
fun omap_update :: "'k::linorder \<Rightarrow> 'v \<Rightarrow> ('k, 'v) omap \<Rightarrow> ('k, 'v) omap" where
  "omap_update k v [] = [(k, v)]"
| "omap_update k v ((k', v') # m) =
     (if k < k' then (k, v) # (k', v') # m
      else if k = k' then (k, v) # m
      else (k', v') # omap_update k v m)"

text \<open>\<open>m.erase(k)\<close>\<close>
definition omap_erase :: "'k::linorder \<Rightarrow> ('k, 'v) omap \<Rightarrow> ('k, 'v) omap" where
  "omap_erase k m = filter (\<lambda>p. fst p \<noteq> k) m"

text \<open>The value \<open>m[k]\<close> reads, with the default the value type has.\<close>
definition omap_get :: "'v \<Rightarrow> ('k, 'v) omap \<Rightarrow> 'k \<Rightarrow> 'v" where
  "omap_get d m k = (case map_of m k of Some v \<Rightarrow> v | None \<Rightarrow> d)"

definition omap_sorted :: "('k::linorder, 'v) omap \<Rightarrow> bool" where
  "omap_sorted m = sorted_wrt (<) (map fst m)"

text \<open>A map built by assigning the pairs of a list in order.\<close>
definition omap_of :: "('k::linorder \<times> 'v) list \<Rightarrow> ('k, 'v) omap" where
  "omap_of ps = fold (\<lambda>(k, v). omap_update k v) ps []"

subsection \<open>The interface\<close>

locale map_ops =
  fixes empty_map :: "'m"
    and update :: "'k \<Rightarrow> 'v \<Rightarrow> 'm \<Rightarrow> 'm"
    and erase :: "'k \<Rightarrow> 'm \<Rightarrow> 'm"
    and lookup :: "'m \<Rightarrow> 'k \<rightharpoonup> 'v"
    and ok :: "'m \<Rightarrow> bool"
  assumes lookup_empty: "lookup empty_map = Map.empty"
    and lookup_update: "lookup (update k v m) = (lookup m)(k \<mapsto> v)"
    and lookup_erase: "lookup (erase k m) = (lookup m)(k := None)"
    and ok_empty: "ok empty_map"
    and ok_update: "ok m \<Longrightarrow> ok (update k v m)"
    and ok_erase: "ok m \<Longrightarrow> ok (erase k m)"
    and ok_ext: "ok m \<Longrightarrow> ok m' \<Longrightarrow> lookup m = lookup m' \<Longrightarrow> m = m'"
begin

lemma update_idem:
  assumes "ok m"
  shows "update k v (update k w m) = update k v m"
  by (rule ok_ext) (simp_all add: assms ok_update lookup_update)

lemma update_commute:
  assumes "ok m" "k \<noteq> k'"
  shows "update k v (update k' v' m) = update k' v' (update k v m)"
  using assms by (intro ok_ext) (auto simp: ok_update lookup_update fun_upd_twist)

lemma update_same:
  assumes "ok m" "lookup m k = Some v"
  shows "update k v m = m"
  using assms by (intro ok_ext) (auto simp: ok_update lookup_update)

lemma erase_update:
  assumes "ok m"
  shows "erase k (update k v m) = erase k m"
  using assms by (intro ok_ext) (auto simp: ok_update ok_erase lookup_update lookup_erase)

lemma ok_fold: "ok m \<Longrightarrow> ok (fold (\<lambda>(k, v). update k v) ps m)"
  by (induction ps arbitrary: m) (auto simp: ok_update)

lemma lookup_fold:
  "lookup (fold (\<lambda>(k, v). update k v) ps m) = lookup m ++ map_of (rev ps)"
  by (induction ps arbitrary: m) (auto simp: lookup_update fun_eq_iff map_add_def split: option.splits)

end

subsection \<open>The provider\<close>

lemma map_of_omap_update [simp]: "map_of (omap_update k v m) = (map_of m)(k \<mapsto> v)"
  by (induction k v m rule: omap_update.induct) (auto simp: fun_eq_iff)

lemma map_of_omap_erase [simp]: "map_of (omap_erase k m) = (map_of m)(k := None)"
  by (induction m) (auto simp: omap_erase_def fun_eq_iff)

lemma set_keys_omap_update [simp]: "fst ` set (omap_update k v m) = insert k (fst ` set m)"
  by (induction k v m rule: omap_update.induct) auto

lemma omap_sorted_Nil [simp]: "omap_sorted []"
  by (simp add: omap_sorted_def)

lemma omap_sorted_Cons:
  "omap_sorted ((k, v) # m) \<longleftrightarrow> (\<forall>k' \<in> fst ` set m. k < k') \<and> omap_sorted m"
  by (auto simp: omap_sorted_def)

lemma omap_sorted_update [simp, wf_simps]: "omap_sorted m \<Longrightarrow> omap_sorted (omap_update k v m)"
  by (induction k v m rule: omap_update.induct) (auto simp: omap_sorted_Cons)

lemma omap_sorted_erase [simp, wf_simps]: "omap_sorted m \<Longrightarrow> omap_sorted (omap_erase k m)"
  unfolding omap_erase_def omap_sorted_def
  by (induction m) auto

lemma omap_sorted_filter [simp, wf_simps]: "omap_sorted m \<Longrightarrow> omap_sorted (filter P m)"
  unfolding omap_sorted_def by (induction m) auto

lemma omap_sorted_distinct: "omap_sorted m \<Longrightarrow> distinct (map fst m)"
  by (simp add: omap_sorted_def strict_sorted_iff)

lemma omap_ext:
  assumes "omap_sorted m" "omap_sorted m'" "map_of m = map_of m'"
  shows "m = m'"
  using assms
proof (induction m arbitrary: m')
  case Nil
  then show ?case by (cases m') (auto simp: fun_eq_iff split: if_splits)
next
  case (Cons p m)
  obtain k v where p: "p = (k, v)" by force
  have "map_of m' k = Some v"
    using Cons.prems(3) p by (metis fun_upd_same map_of.simps(2) prod.sel)
  then obtain k' v' m'' where m': "m' = (k', v') # m''"
    by (cases m') auto
  have none: "map_of m k = None" "map_of m'' k' = None"
    using Cons.prems(1,2) p m' by (force simp: omap_sorted_Cons map_of_eq_None_iff)+
  have kk: "k = k'"
  proof (rule antisym)
    have "map_of (p # m) k' = Some v'"
      using fun_cong [OF Cons.prems(3), of k'] m' by (simp del: map_of.simps add: map_of.simps(2) [of "(k', v')"])
    then show "k \<le> k'"
      using Cons.prems(1) p by (auto simp: omap_sorted_Cons split: if_splits dest!: map_of_SomeD)
    show "k' \<le> k"
      using \<open>map_of m' k = Some v\<close> Cons.prems(2) m'
      by (auto simp: omap_sorted_Cons split: if_splits dest!: map_of_SomeD)
  qed
  have vv: "v = v'"
    using \<open>map_of m' k = Some v\<close> kk m' by simp
  have "map_of m x = map_of m'' x" for x
    using fun_cong [OF Cons.prems(3), of x] none p m' kk by (cases "x = k") auto
  then have "m = m''"
    using Cons.IH [of m''] Cons.prems(1,2) p m' by (auto simp: omap_sorted_Cons fun_eq_iff)
  with p m' kk vv show ?case by simp
qed

interpretation omap: map_ops "[]" omap_update omap_erase map_of omap_sorted
  by unfold_locales (auto intro: omap_ext)

lemma omap_sorted_of [simp, wf_simps]: "omap_sorted (omap_of ps)"
  by (simp add: omap_of_def omap.ok_fold)

lemma map_of_rev_distinct: "distinct (map fst m) \<Longrightarrow> map_of (rev m) = map_of m"
  by (simp add: map_of_inject_set rev_map [symmetric])

lemma map_of_omap_of: "map_of (omap_of ps) = map_of (rev ps)"
  by (simp add: omap_of_def omap.lookup_fold)

lemma omap_of_sorted:
  assumes "omap_sorted m"
  shows "omap_of m = m"
  by (rule omap_ext)
     (use assms in \<open>simp_all add: map_of_omap_of map_of_rev_distinct omap_sorted_distinct\<close>)

lemma omap_get_update [simp]:
  "omap_get d (omap_update k v m) k' = (if k = k' then v else omap_get d m k')"
  by (simp add: omap_get_def)

lemma omap_get_Nil [simp]: "omap_get d [] k = d"
  by (simp add: omap_get_def)

text \<open>The sum of a numeric map after one entry is changed.\<close>
definition omap_total :: "('k \<times> 'v::comm_monoid_add) list \<Rightarrow> 'v" where
  "omap_total m = sum_list (map snd m)"

lemma omap_total_simps [simp]:
  "omap_total [] = 0" "omap_total ((k, v) # m) = v + omap_total m"
  by (auto simp: omap_total_def)

lemma omap_total_incr:
  fixes m :: "('k::linorder, 'v::comm_monoid_add) omap"
  assumes "omap_sorted m"
  shows "omap_total (omap_update k (omap_get 0 m k + d) m) = omap_total m + d"
  using assms
proof (induction m)
  case Nil
  then show ?case by simp
next
  case (Cons p m)
  obtain k' v' where p: "p = (k', v')" by force
  show ?case
  proof (cases "k < k'")
    case True
    then have "map_of (p # m) k = None"
      using Cons.prems p by (force simp: omap_sorted_Cons map_of_eq_None_iff)
    with True p show ?thesis
      by (simp add: omap_get_def ac_simps)
  next
    case False
    with Cons p show ?thesis
      by (auto simp: omap_sorted_Cons omap_get_def ac_simps)
  qed
qed

end
