(* ===== verification/Cpp_String.thy ===== *)
theory Cpp_String
  imports Prelude
begin

text \<open>
  \<open>std::string\<close> as a list of bytes: the searching, replacing, splitting and
  case-folding operations of the standard library that the program calls, and
  the decimal conversions \<open>std::to_string\<close>, \<open>std::stoi\<close> and \<open>std::stoll\<close>.
  A conversion that throws returns \<^const>\<open>None\<close>.
\<close>

abbreviation nl :: char where "nl \<equiv> CHR 0x0A"
abbreviation tab :: char where "tab \<equiv> CHR 0x09"
abbreviation cr :: char where "cr \<equiv> CHR 0x0D"
abbreviation dquote :: char where "dquote \<equiv> CHR 0x22"
abbreviation backslash :: char where "backslash \<equiv> CHR 0x5C"

subsection \<open>Searching\<close>

definition starts_with :: "string \<Rightarrow> string \<Rightarrow> bool" where
  "starts_with s p = (take (length p) s = p)"

definition ends_with :: "string \<Rightarrow> string \<Rightarrow> bool" where
  "ends_with s p = (length p \<le> length s \<and> drop (length s - length p) s = p)"

text \<open>\<open>s.find(p)\<close>: the first position at which \<open>p\<close> occurs.\<close>
fun find_str :: "string \<Rightarrow> string \<Rightarrow> nat option" where
  "find_str p [] = (if p = [] then Some 0 else None)"
| "find_str p (c # s) =
     (if starts_with (c # s) p then Some 0 else map_option Suc (find_str p s))"

text \<open>\<open>s.find(p, pos)\<close>\<close>
definition find_from :: "string \<Rightarrow> string \<Rightarrow> nat \<Rightarrow> nat option" where
  "find_from p s pos =
     (if pos \<le> length s then map_option (\<lambda>i. pos + i) (find_str p (drop pos s)) else None)"

definition contains :: "string \<Rightarrow> string \<Rightarrow> bool" where
  "contains s p = (find_str p s \<noteq> None)"

text \<open>\<open>s.replace(pos, len, r)\<close> with \<open>pos\<close> inside the string.\<close>
definition replace_at :: "string \<Rightarrow> nat \<Rightarrow> nat \<Rightarrow> string \<Rightarrow> string" where
  "replace_at s pos len r = take pos s @ r @ drop (pos + len) s"

lemma starts_with_iff: "starts_with s p \<longleftrightarrow> (\<exists>t. s = p @ t)"
  unfolding starts_with_def by (metis append_eq_conv_conj append_take_drop_id)

lemma starts_with_Nil [simp]: "starts_with s []"
  by (simp add: starts_with_def)

lemma starts_with_append [simp]: "starts_with (p @ s) p"
  by (simp add: starts_with_def)

lemma starts_with_length: "starts_with s p \<Longrightarrow> length p \<le> length s"
  by (auto simp: starts_with_iff)

lemma ends_with_iff: "ends_with s p \<longleftrightarrow> (\<exists>t. s = t @ p)"
  unfolding ends_with_def
  by (metis append_take_drop_id append_eq_conv_conj diff_add_inverse2 le_add2 length_append)

lemma find_str_Some:
  "find_str p s = Some i \<Longrightarrow> i + length p \<le> length s \<and> take (length p) (drop i s) = p"
proof (induction p s arbitrary: i rule: find_str.induct)
  case (1 p)
  then show ?case by (auto split: if_splits)
next
  case (2 p c s)
  then show ?case
    by (auto split: if_splits simp: starts_with_def dest: starts_with_length)
       (metis length_Cons length_take min.absorb4 min_def nat_le_linear not_less_eq_eq)
qed

lemma find_str_least:
  "find_str p s = Some i \<Longrightarrow> j < i \<Longrightarrow> \<not> starts_with (drop j s) p"
proof (induction p s arbitrary: i j rule: find_str.induct)
  case (2 p c s)
  then show ?case by (cases j) (auto split: if_splits)
qed (auto split: if_splits)

lemma find_str_None:
  "find_str p s = None \<Longrightarrow> \<not> starts_with (drop j s) p"
proof (induction p s arbitrary: j rule: find_str.induct)
  case (2 p c s)
  then show ?case by (cases j) (auto split: if_splits)
qed (auto split: if_splits simp: starts_with_def)

lemma find_str_split:
  assumes "find_str p s = Some i"
  shows "s = take i s @ p @ drop (i + length p) s"
  using find_str_Some [OF assms]
  by (metis add.commute append_take_drop_id drop_drop)

lemma contains_iff: "contains s p \<longleftrightarrow> (\<exists>a b. s = a @ p @ b)"
proof
  assume "contains s p"
  then obtain i where "find_str p s = Some i" by (auto simp: contains_def)
  then show "\<exists>a b. s = a @ p @ b" using find_str_split by blast
next
  assume "\<exists>a b. s = a @ p @ b"
  then obtain a b where "s = a @ p @ b" by blast
  then have "starts_with (drop (length a) s) p" by simp
  then show "contains s p" unfolding contains_def using find_str_None by blast
qed

lemma find_from_Some:
  assumes "find_from p s pos = Some i"
  shows "pos \<le> i" "i + length p \<le> length s"
  using assms find_str_Some by (fastforce simp: find_from_def split: if_splits)+

subsection \<open>Case folding and trimming\<close>

text \<open>\<open>std::tolower\<close> in the C locale.\<close>
definition tolower :: "char \<Rightarrow> char" where
  "tolower c = (if CHR ''A'' \<le> c \<and> c \<le> CHR ''Z'' then char_of (of_char c + 32 :: nat) else c)"

definition to_lower :: "string \<Rightarrow> string" where
  "to_lower s = map tolower s"

definition isspace :: "char \<Rightarrow> bool" where
  "isspace c = (c = CHR 0x20 \<or> (CHR 0x09 \<le> c \<and> c \<le> CHR 0x0D))"

subsection \<open>Lines and fields\<close>

text \<open>The pieces a \<open>while (std::getline(in, piece, d))\<close> loop reads.\<close>
fun getline_split :: "char \<Rightarrow> string \<Rightarrow> string list" where
  "getline_split d [] = []"
| "getline_split d (c # s) =
     (if c = d then [] # getline_split d s
      else (case getline_split d s of [] \<Rightarrow> [[c]] | l # ls \<Rightarrow> (c # l) # ls))"

abbreviation getlines :: "string \<Rightarrow> string list" where
  "getlines \<equiv> getline_split nl"

text \<open>All the fields between the separators, the empty last one included.\<close>
fun split_keep :: "char \<Rightarrow> string \<Rightarrow> string list" where
  "split_keep d [] = [[]]"
| "split_keep d (c # s) =
     (if c = d then [] # split_keep d s
      else (case split_keep d s of [] \<Rightarrow> [[c]] | l # ls \<Rightarrow> (c # l) # ls))"

text \<open>The tokens that \<open>stream >> token\<close> reads one after another.\<close>
fun split_space :: "string \<Rightarrow> string list" where
  "split_space [] = [[]]"
| "split_space (c # s) =
     (if isspace c then [] # split_space s
      else (case split_space s of [] \<Rightarrow> [[c]] | t # ts \<Rightarrow> (c # t) # ts))"

definition ws_tokens :: "string \<Rightarrow> string list" where
  "ws_tokens s = filter (\<lambda>t. t \<noteq> []) (split_space s)"

definition nth_token :: "nat \<Rightarrow> string list \<Rightarrow> string" where
  "nth_token i ts = (if i < length ts then ts ! i else [])"

lemma split_keep_append:
  "d \<notin> set l \<Longrightarrow> split_keep d (l @ d # s) = l # split_keep d s"
  by (induction l) auto

lemma split_keep_last: "d \<notin> set l \<Longrightarrow> split_keep d l = [l]"
  by (induction l) auto

lemma split_keep_nonempty [simp]: "split_keep d s \<noteq> []"
  by (induction d s rule: split_keep.induct) (auto split: list.splits)

text \<open>What a program that ends every line writes.\<close>
definition unlines :: "string list \<Rightarrow> string" where
  "unlines ls = concat (map (\<lambda>l. l @ [nl]) ls)"

lemma unlines_simps [simp]:
  "unlines [] = []" "unlines (l # ls) = l @ nl # unlines ls"
  "unlines (xs @ ys) = unlines xs @ unlines ys"
  by (auto simp: unlines_def)

lemma getline_split_append:
  "d \<notin> set l \<Longrightarrow> getline_split d (l @ d # s) = l # getline_split d s"
  by (induction l) auto

lemma getlines_unlines [simp]:
  "\<forall>l \<in> set ls. nl \<notin> set l \<Longrightarrow> getlines (unlines ls) = ls"
  by (induction ls) (auto simp: getline_split_append)

lemma getlines_append_unlines:
  "\<forall>l \<in> set ls. nl \<notin> set l \<Longrightarrow> getlines (unlines ls @ s) = ls @ getlines s"
  by (induction ls) (auto simp: getline_split_append)

lemma getline_split_no_delim: "l \<in> set (getline_split d s) \<Longrightarrow> d \<notin> set l"
  by (induction d s arbitrary: l rule: getline_split.induct) (auto split: if_splits list.splits)

lemma getline_split_last: "d \<notin> set l \<Longrightarrow> getline_split d l = (if l = [] then [] else [l])"
  by (induction l) auto

text \<open>Joining with a separator.\<close>
fun join_with :: "string \<Rightarrow> string list \<Rightarrow> string" where
  "join_with d [] = []"
| "join_with d [x] = x"
| "join_with d (x # y # ys) = x @ d @ join_with d (y # ys)"

lemma getline_split_join:
  assumes "\<forall>x \<in> set xs. d \<notin> set x" "xs \<noteq> []" "last xs \<noteq> []"
  shows "getline_split d (join_with [d] xs) = xs"
  using assms
proof (induction "[d]" xs rule: join_with.induct)
  case (2 x)
  then show ?case by (simp add: getline_split_last)
next
  case (3 x y ys)
  then show ?case by (simp add: getline_split_append)
qed simp

subsection \<open>Decimal numbers\<close>

definition digit_char :: "nat \<Rightarrow> char" where
  "digit_char n = ''0123456789'' ! n"

definition isdigit :: "char \<Rightarrow> bool" where
  "isdigit c = (CHR ''0'' \<le> c \<and> c \<le> CHR ''9'')"

definition digit_val :: "char \<Rightarrow> nat" where
  "digit_val c = of_char c - 48"

text \<open>\<open>std::to_string\<close> of an unsigned value, and of a signed one.\<close>
fun nat_str :: "nat \<Rightarrow> string" where
  "nat_str n = (if n < 10 then [digit_char n] else nat_str (n div 10) @ [digit_char (n mod 10)])"

declare nat_str.simps [simp del]

definition int_str :: "int \<Rightarrow> string" where
  "int_str i = (if i < 0 then CHR ''-'' # nat_str (nat (- i)) else nat_str (nat i))"

definition word_str :: "'a::len word \<Rightarrow> string" where
  "word_str w = nat_str (unat w)"

definition digits_val :: "nat \<Rightarrow> string \<Rightarrow> nat" where
  "digits_val acc s = foldl (\<lambda>n c. 10 * n + digit_val c) acc s"

text \<open>The longest numeric prefix after white space and a sign, with the rest.\<close>
definition strtol_prefix :: "string \<Rightarrow> (int \<times> string) option" where
  "strtol_prefix s =
     (let s1 = dropWhile isspace s;
          neg = (s1 \<noteq> [] \<and> hd s1 = CHR ''-'');
          s2 = (if s1 \<noteq> [] \<and> (hd s1 = CHR ''-'' \<or> hd s1 = CHR ''+'') then tl s1 else s1);
          ds = takeWhile isdigit s2;
          v = int (digits_val 0 ds)
      in if ds = [] then None else Some (if neg then - v else v, drop (length ds) s2))"

definition in_int32 :: "int \<Rightarrow> bool" where
  "in_int32 i = (- 2147483648 \<le> i \<and> i \<le> 2147483647)"

definition in_int64 :: "int \<Rightarrow> bool" where
  "in_int64 i = (- 9223372036854775808 \<le> i \<and> i \<le> 9223372036854775807)"

definition stoi :: "string \<Rightarrow> int option" where
  "stoi s = (case strtol_prefix s of
               None \<Rightarrow> None
             | Some (v, _) \<Rightarrow> (if in_int32 v then Some v else None))"

definition stoll :: "string \<Rightarrow> int option" where
  "stoll s = (case strtol_prefix s of
                None \<Rightarrow> None
              | Some (v, _) \<Rightarrow> (if in_int64 v then Some v else None))"

text \<open>\<open>std::stoull\<close>: a minus sign negates in the unsigned type.\<close>
definition stoull :: "string \<Rightarrow> u64 option" where
  "stoull s = (case strtol_prefix s of
                 None \<Rightarrow> None
               | Some (v, _) \<Rightarrow> (if \<bar>v\<bar> < 2 ^ 64 then Some (word_of_int v) else None))"

lemma digit_char_props:
  assumes "n < 10"
  shows "isdigit (digit_char n)" "digit_val (digit_char n) = n"
proof -
  have "n \<in> {0, 1, 2, 3, 4, 5, 6, 7, 8, 9}" using assms by auto
  then show "isdigit (digit_char n)" "digit_val (digit_char n) = n"
    by (auto simp: isdigit_def digit_char_def digit_val_def)
qed

lemma nat_str_digits: "c \<in> set (nat_str n) \<Longrightarrow> isdigit c"
proof (induction n rule: nat_str.induct)
  case (1 n)
  then show ?case
    by (subst (asm) (2) nat_str.simps) (auto simp: digit_char_props split: if_splits)
qed

lemma nat_str_nonempty [simp]: "nat_str n \<noteq> []"
  by (subst nat_str.simps) simp

lemma digits_val_append: "digits_val a (s @ t) = digits_val (digits_val a s) t"
  by (simp add: digits_val_def)

lemma digits_val_nat_str [simp]: "digits_val 0 (nat_str n) = n"
proof (induction n rule: nat_str.induct)
  case (1 n)
  show ?case
    by (subst nat_str.simps)
       (use 1 in \<open>auto simp: digits_val_append, auto simp: digits_val_def digit_char_props\<close>)
qed

lemma isdigit_not:
  "\<not> isdigit (CHR ''-'')" "\<not> isdigit (CHR ''+'')" "\<not> isdigit nl" "\<not> isdigit tab" "\<not> isdigit (CHR 0x20)"
  "\<not> isdigit dquote" "\<not> isdigit backslash" "\<not> isdigit (CHR '':'')" "\<not> isdigit (CHR '','')"
  by (auto simp: isdigit_def)

lemma isdigit_not_space: "isdigit c \<Longrightarrow> \<not> isspace c"
  unfolding isdigit_def isspace_def less_eq_char_def by auto

lemma strtol_prefix_nat:
  assumes "t = [] \<or> \<not> isdigit (hd t)"
  shows "strtol_prefix (nat_str n @ t) = Some (int n, t)"
proof -
  obtain c s where cs: "nat_str n = c # s" by (cases "nat_str n") auto
  have c: "isdigit c" and all: "\<forall>x \<in> set (nat_str n). isdigit x"
    using cs nat_str_digits [of _ n] by auto
  have "takeWhile isdigit (nat_str n @ t) = nat_str n"
    using all assms by (cases t) (auto simp: takeWhile_append)
  moreover have "c \<noteq> CHR ''-''" "c \<noteq> CHR ''+''" using c isdigit_not by auto
  moreover have "dropWhile isspace (nat_str n @ t) = nat_str n @ t"
    using c cs isdigit_not_space by simp
  moreover have "hd (nat_str n @ t) = c" using cs by simp
  ultimately show ?thesis by (simp add: strtol_prefix_def Let_def)
qed

lemma strtol_prefix_int:
  assumes "t = [] \<or> \<not> isdigit (hd t)"
  shows "strtol_prefix (int_str i @ t) = Some (i, t)"
proof (cases "0 \<le> i")
  case True
  then show ?thesis using strtol_prefix_nat [OF assms] by (simp add: int_str_def)
next
  case False
  define n where "n = nat (- i)"
  have "takeWhile isdigit (nat_str n @ t) = nat_str n"
    using nat_str_digits [of _ n] assms by (cases t) (auto simp: takeWhile_append)
  then show ?thesis
    using False
    by (simp add: int_str_def n_def [symmetric] strtol_prefix_def Let_def isspace_def)
       (simp add: n_def)
qed

lemma stoll_int_str: "in_int64 i \<Longrightarrow> stoll (int_str i) = Some i"
  using strtol_prefix_int [of "[]" i] by (simp add: stoll_def)

lemma stoi_int_str: "in_int32 i \<Longrightarrow> stoi (int_str i) = Some i"
  using strtol_prefix_int [of "[]" i] by (simp add: stoi_def)

lemma stoull_word_str: "stoull (word_str w) = Some w" for w :: u64
proof -
  have "uint w < 2 ^ LENGTH(64)" by (rule unsigned_less)
  then have "int (unat w) < 2 ^ 64" by simp
  then show ?thesis
    using strtol_prefix_nat [of "[]" "unat w"] by (simp add: stoull_def word_str_def)
qed

lemma int_str_chars: "c \<in> set (int_str i) \<Longrightarrow> c = CHR ''-'' \<or> isdigit c"
  by (auto simp: int_str_def nat_str_digits split: if_splits)

lemma int_str_nonempty [simp]: "int_str i \<noteq> []"
  by (simp add: int_str_def)

lemma int_str_inj: "int_str i = int_str j \<Longrightarrow> i = j"
  using strtol_prefix_int [of "[]" i] strtol_prefix_int [of "[]" j] by simp

lemma word_str_inj: "word_str v = word_str w \<Longrightarrow> v = w"
  unfolding word_str_def by (metis digits_val_nat_str word_unat_eq_iff)

lemma word_str_chars: "c \<in> set (word_str w) \<Longrightarrow> isdigit c"
  by (auto simp: word_str_def nat_str_digits)

end
