(* ===== verification/Core_Event.thy ===== *)
theory Core_Event
  imports Cpp_Map Cpp_String
begin

text \<open>
  \<open>core/event.h\<close> and \<open>core/event.cpp\<close>: the event record every component
  exchanges, its two enumerations, their names and the reverse lookups.  Both
  enumerations have an enumerator \<open>Unknown\<close>; the constructors are
  \<open>UnknownCategory\<close> and \<open>UnknownType\<close> here.  The enumerators are ordered as
  declared, because the program uses them as keys of \<open>std::map\<close>.
\<close>

datatype EventCategory =
    Filesystem
  | Process
  | Network
  | SystemConfig
  | Hardware
  | System
  | UnknownCategory

datatype EventType =
    FileCreated
  | FileModified
  | FileDeleted
  | FileMoved
  | FilePermissionChanged
  | ProcessStarted
  | ProcessStopped
  | ProcessCpuSpike
  | ProcessMemorySpike
  | NetworkConnectionOpened
  | NetworkConnectionClosed
  | NetworkBandwidthSpike
  | NetworkDnsQuery
  | ConfigValueChanged
  | ServiceStateChanged
  | UserLoggedIn
  | UserLoggedOut
  | UsbDeviceInserted
  | UsbDeviceRemoved
  | DiskSpaceWarning
  | DiskSpaceCritical
  | DiskSpaceChanged
  | SystemLoadHigh
  | SystemLoadNormal
  | LogPatternMatched
  | LogAnomalyDetected
  | UnknownType

text \<open>The position of an enumerator in its declaration (the integer it has in C++).\<close>
fun category_index :: "EventCategory \<Rightarrow> nat" where
  "category_index Filesystem = 0"
| "category_index Process = 1"
| "category_index Network = 2"
| "category_index SystemConfig = 3"
| "category_index Hardware = 4"
| "category_index System = 5"
| "category_index UnknownCategory = 6"

fun type_index :: "EventType \<Rightarrow> nat" where
  "type_index FileCreated = 0"
| "type_index FileModified = 1"
| "type_index FileDeleted = 2"
| "type_index FileMoved = 3"
| "type_index FilePermissionChanged = 4"
| "type_index ProcessStarted = 5"
| "type_index ProcessStopped = 6"
| "type_index ProcessCpuSpike = 7"
| "type_index ProcessMemorySpike = 8"
| "type_index NetworkConnectionOpened = 9"
| "type_index NetworkConnectionClosed = 10"
| "type_index NetworkBandwidthSpike = 11"
| "type_index NetworkDnsQuery = 12"
| "type_index ConfigValueChanged = 13"
| "type_index ServiceStateChanged = 14"
| "type_index UserLoggedIn = 15"
| "type_index UserLoggedOut = 16"
| "type_index UsbDeviceInserted = 17"
| "type_index UsbDeviceRemoved = 18"
| "type_index DiskSpaceWarning = 19"
| "type_index DiskSpaceCritical = 20"
| "type_index DiskSpaceChanged = 21"
| "type_index SystemLoadHigh = 22"
| "type_index SystemLoadNormal = 23"
| "type_index LogPatternMatched = 24"
| "type_index LogAnomalyDetected = 25"
| "type_index UnknownType = 26"

lemma category_index_inj [simp]: "category_index c = category_index d \<longleftrightarrow> c = d"
  by (cases c; cases d) simp_all

lemma type_index_inj [simp]: "type_index s = type_index t \<longleftrightarrow> s = t"
proof
  assume "type_index s = type_index t"
  then show "s = t" by (cases s) (cases t; simp)+
qed simp

instantiation EventCategory :: linorder
begin

definition less_eq_EventCategory :: "EventCategory \<Rightarrow> EventCategory \<Rightarrow> bool" where
  "less_eq_EventCategory c d = (category_index c \<le> category_index d)"

definition less_EventCategory :: "EventCategory \<Rightarrow> EventCategory \<Rightarrow> bool" where
  "less_EventCategory c d = (category_index c < category_index d)"

instance
  by standard (auto simp: less_eq_EventCategory_def less_EventCategory_def)

end

instantiation EventType :: linorder
begin

definition less_eq_EventType :: "EventType \<Rightarrow> EventType \<Rightarrow> bool" where
  "less_eq_EventType s t = (type_index s \<le> type_index t)"

definition less_EventType :: "EventType \<Rightarrow> EventType \<Rightarrow> bool" where
  "less_EventType s t = (type_index s < type_index t)"

instance
  by standard (auto simp: less_eq_EventType_def less_EventType_def)

end

lemmas enum_order = less_eq_EventCategory_def less_EventCategory_def
  less_eq_EventType_def less_EventType_def

subsection \<open>Names\<close>

fun category_name :: "EventCategory \<Rightarrow> string" where
  "category_name Filesystem = ''filesystem''"
| "category_name Process = ''process''"
| "category_name Network = ''network''"
| "category_name SystemConfig = ''system_config''"
| "category_name Hardware = ''hardware''"
| "category_name System = ''system''"
| "category_name UnknownCategory = ''unknown''"

fun type_name :: "EventType \<Rightarrow> string" where
  "type_name FileCreated = ''file_created''"
| "type_name FileModified = ''file_modified''"
| "type_name FileDeleted = ''file_deleted''"
| "type_name FileMoved = ''file_moved''"
| "type_name FilePermissionChanged = ''file_permission_changed''"
| "type_name ProcessStarted = ''process_started''"
| "type_name ProcessStopped = ''process_stopped''"
| "type_name ProcessCpuSpike = ''process_cpu_spike''"
| "type_name ProcessMemorySpike = ''process_memory_spike''"
| "type_name NetworkConnectionOpened = ''network_connection_opened''"
| "type_name NetworkConnectionClosed = ''network_connection_closed''"
| "type_name NetworkBandwidthSpike = ''network_bandwidth_spike''"
| "type_name NetworkDnsQuery = ''network_dns_query''"
| "type_name ConfigValueChanged = ''config_value_changed''"
| "type_name ServiceStateChanged = ''service_state_changed''"
| "type_name UserLoggedIn = ''user_logged_in''"
| "type_name UserLoggedOut = ''user_logged_out''"
| "type_name UsbDeviceInserted = ''usb_device_inserted''"
| "type_name UsbDeviceRemoved = ''usb_device_removed''"
| "type_name DiskSpaceWarning = ''disk_space_warning''"
| "type_name DiskSpaceCritical = ''disk_space_critical''"
| "type_name DiskSpaceChanged = ''disk_space_changed''"
| "type_name SystemLoadHigh = ''system_load_high''"
| "type_name SystemLoadNormal = ''system_load_normal''"
| "type_name LogPatternMatched = ''log_pattern_matched''"
| "type_name LogAnomalyDetected = ''log_anomaly_detected''"
| "type_name UnknownType = ''unknown''"

fun category_of :: "EventType \<Rightarrow> EventCategory" where
  "category_of FileCreated = Filesystem"
| "category_of FileModified = Filesystem"
| "category_of FileDeleted = Filesystem"
| "category_of FileMoved = Filesystem"
| "category_of FilePermissionChanged = Filesystem"
| "category_of ProcessStarted = Process"
| "category_of ProcessStopped = Process"
| "category_of ProcessCpuSpike = Process"
| "category_of ProcessMemorySpike = Process"
| "category_of NetworkConnectionOpened = Network"
| "category_of NetworkConnectionClosed = Network"
| "category_of NetworkBandwidthSpike = Network"
| "category_of NetworkDnsQuery = Network"
| "category_of ConfigValueChanged = SystemConfig"
| "category_of ServiceStateChanged = SystemConfig"
| "category_of UserLoggedIn = SystemConfig"
| "category_of UserLoggedOut = SystemConfig"
| "category_of UsbDeviceInserted = Hardware"
| "category_of UsbDeviceRemoved = Hardware"
| "category_of DiskSpaceWarning = System"
| "category_of DiskSpaceCritical = System"
| "category_of DiskSpaceChanged = System"
| "category_of SystemLoadHigh = System"
| "category_of SystemLoadNormal = System"
| "category_of LogPatternMatched = System"
| "category_of LogAnomalyDetected = System"
| "category_of UnknownType = UnknownCategory"

definition category_from_name :: "string \<Rightarrow> EventCategory" where
  "category_from_name name =
     (if name = ''filesystem'' then Filesystem
      else if name = ''process'' then Process
      else if name = ''network'' then Network
      else if name = ''system_config'' then SystemConfig
      else if name = ''hardware'' then Hardware
      else if name = ''system'' then System
      else UnknownCategory)"

definition type_from_name :: "string \<Rightarrow> EventType" where
  "type_from_name name =
     (if name = ''file_created'' then FileCreated
      else if name = ''file_modified'' then FileModified
      else if name = ''file_deleted'' then FileDeleted
      else if name = ''file_moved'' then FileMoved
      else if name = ''file_permission_changed'' then FilePermissionChanged
      else if name = ''process_started'' then ProcessStarted
      else if name = ''process_stopped'' then ProcessStopped
      else if name = ''process_cpu_spike'' then ProcessCpuSpike
      else if name = ''process_memory_spike'' then ProcessMemorySpike
      else if name = ''network_connection_opened'' then NetworkConnectionOpened
      else if name = ''network_connection_closed'' then NetworkConnectionClosed
      else if name = ''network_bandwidth_spike'' then NetworkBandwidthSpike
      else if name = ''network_dns_query'' then NetworkDnsQuery
      else if name = ''config_value_changed'' then ConfigValueChanged
      else if name = ''service_state_changed'' then ServiceStateChanged
      else if name = ''user_logged_in'' then UserLoggedIn
      else if name = ''user_logged_out'' then UserLoggedOut
      else if name = ''usb_device_inserted'' then UsbDeviceInserted
      else if name = ''usb_device_removed'' then UsbDeviceRemoved
      else if name = ''disk_space_warning'' then DiskSpaceWarning
      else if name = ''disk_space_critical'' then DiskSpaceCritical
      else if name = ''disk_space_changed'' then DiskSpaceChanged
      else if name = ''system_load_high'' then SystemLoadHigh
      else if name = ''system_load_normal'' then SystemLoadNormal
      else if name = ''log_pattern_matched'' then LogPatternMatched
      else if name = ''log_anomaly_detected'' then LogAnomalyDetected
      else UnknownType)"

subsection \<open>The event record\<close>

record Event =
  ev_id :: u64
  ev_timestamp :: timestamp
  ev_category :: EventCategory
  ev_type :: EventType
  ev_source :: string
  ev_target :: string
  ev_attributes :: "(string, string) omap"
  ev_summary :: string
  ev_host :: string
  ev_platform :: string

text \<open>A default-constructed \<open>Event\<close>: the clock is read for the time stamp.\<close>
definition event_default :: "timestamp \<Rightarrow> Event" where
  "event_default now =
     \<lparr> ev_id = 0, ev_timestamp = now, ev_category = UnknownCategory, ev_type = UnknownType,
       ev_source = [], ev_target = [], ev_attributes = [], ev_summary = [],
       ev_host = [], ev_platform = [] \<rparr>"

text \<open>\<open>duration_cast\<close> from nanoseconds to milliseconds truncates towards zero.\<close>
definition to_unix_ms :: "timestamp \<Rightarrow> int" where
  "to_unix_ms t = tdiv t 1000000"

text \<open>\<open>time_point(milliseconds(ms))\<close>\<close>
definition from_unix_ms :: "int \<Rightarrow> timestamp" where
  "from_unix_ms ms = ms * 1000000"

lemma to_unix_ms_from [simp, cpp_simps]: "to_unix_ms (from_unix_ms ms) = ms"
  by (simp add: to_unix_ms_def from_unix_ms_def tdiv_def sgn_if abs_mult)

lemma to_unix_ms_mono: "s \<le> t \<Longrightarrow> to_unix_ms s \<le> to_unix_ms t"
  by (simp add: to_unix_ms_def tdiv_mono)

text \<open>The invariant of an event: its attribute map is a map.\<close>
definition event_ok :: "Event \<Rightarrow> bool" where
  "event_ok e = omap_sorted (ev_attributes e)"

lemma category_round_trip [simp]: "category_from_name (category_name c) = c"
  by (cases c) (simp_all add: category_from_name_def)

lemma type_round_trip [simp]: "type_from_name (type_name t) = t"
  by (cases t) (simp_all add: type_from_name_def)

lemma category_name_inj: "category_name c = category_name d \<longleftrightarrow> c = d"
  by (metis category_round_trip)

lemma type_name_inj: "type_name s = type_name t \<longleftrightarrow> s = t"
  by (metis type_round_trip)

lemma category_name_chars:
  "x \<in> set (category_name c) \<Longrightarrow> x \<notin> {nl, tab, dquote, backslash}"
  by (cases c) auto

lemma type_name_chars:
  "x \<in> set (type_name c) \<Longrightarrow> x \<notin> {nl, tab, dquote, backslash}"
  by (cases c) auto

text \<open>Every type belongs to a known category, except the unknown type.\<close>
lemma category_of_known: "category_of t = UnknownCategory \<longleftrightarrow> t = UnknownType"
  by (cases t) simp_all

end
