(* ===== verification/File_System.thy ===== *)
theory File_System
  imports Cpp_String
begin

text \<open>
  The part of the file system and of \<open>std::ofstream\<close> the program relies on.  A
  file system maps paths to contents; three predicates say which operations the
  environment permits, so that every error branch of the program is reachable.
  A stream remembers the path it is attached to and its failure bit.
\<close>

record file_system =
  fs_files :: "string \<rightharpoonup> string"
  fs_can_write :: "string \<Rightarrow> bool"
  fs_can_rename :: "string \<Rightarrow> string \<Rightarrow> bool"
  fs_can_remove :: "string \<Rightarrow> bool"

record ofstream =
  st_path :: "string option"
  st_fail :: bool

definition closed_stream :: ofstream where
  "closed_stream = \<lparr> st_path = None, st_fail = False \<rparr>"

definition stream_is_open :: "ofstream \<Rightarrow> bool" where
  "stream_is_open f = (st_path f \<noteq> None)"

definition set_file :: "string \<Rightarrow> string option \<Rightarrow> file_system \<Rightarrow> file_system" where
  "set_file p c fs = fs\<lparr>fs_files := (fs_files fs)(p := c)\<rparr>"

text \<open>\<open>f.open(p, std::ios::app)\<close>: fails on a stream that is open already.\<close>
definition open_append :: "string \<Rightarrow> file_system \<Rightarrow> ofstream \<Rightarrow> file_system \<times> ofstream" where
  "open_append p fs f =
     (if stream_is_open f \<or> \<not> fs_can_write fs p then (fs, f\<lparr>st_fail := True\<rparr>)
      else ((if fs_files fs p = None then set_file p (Some []) fs else fs),
            \<lparr> st_path = Some p, st_fail = False \<rparr>))"

text \<open>\<open>std::ofstream out(p, std::ios::trunc)\<close>\<close>
definition open_trunc :: "string \<Rightarrow> file_system \<Rightarrow> file_system \<times> ofstream" where
  "open_trunc p fs =
     (if fs_can_write fs p then (set_file p (Some []) fs, \<lparr> st_path = Some p, st_fail = False \<rparr>)
      else (fs, \<lparr> st_path = None, st_fail = True \<rparr>))"

definition close_stream :: "ofstream \<Rightarrow> ofstream" where
  "close_stream f = f\<lparr>st_path := None\<rparr>"

text \<open>\<open>f << s\<close>, at the end of the file; nothing is written once the failure bit is set.\<close>
definition stream_write :: "string \<Rightarrow> file_system \<Rightarrow> ofstream \<Rightarrow> file_system" where
  "stream_write s fs f =
     (case st_path f of
        None \<Rightarrow> fs
      | Some p \<Rightarrow> (if st_fail f then fs
                   else (case fs_files fs p of None \<Rightarrow> fs | Some c \<Rightarrow> set_file p (Some (c @ s)) fs)))"

text \<open>\<open>std::filesystem::rename\<close>; the flag is the absence of an error code.\<close>
definition fs_rename :: "string \<Rightarrow> string \<Rightarrow> file_system \<Rightarrow> file_system \<times> bool" where
  "fs_rename src dst fs =
     (case fs_files fs src of
        None \<Rightarrow> (fs, False)
      | Some c \<Rightarrow>
          (if fs_can_rename fs src dst then
             (if src = dst then (fs, True) else (set_file src None (set_file dst (Some c) fs), True))
           else (fs, False)))"

definition fs_remove :: "string \<Rightarrow> file_system \<Rightarrow> file_system" where
  "fs_remove p fs = (if fs_can_remove fs p then set_file p None fs else fs)"

lemma set_file_simps [simp]:
  "fs_files (set_file p c fs) = (fs_files fs)(p := c)"
  "fs_can_write (set_file p c fs) = fs_can_write fs"
  "fs_can_rename (set_file p c fs) = fs_can_rename fs"
  "fs_can_remove (set_file p c fs) = fs_can_remove fs"
  by (simp_all add: set_file_def)

lemma stream_is_open_simps [simp]:
  "\<not> stream_is_open (close_stream f)" "\<not> stream_is_open closed_stream"
  "stream_is_open \<lparr>st_path = Some p, st_fail = b\<rparr>"
  by (simp_all add: stream_is_open_def close_stream_def closed_stream_def)

lemma close_stream_fail [simp]: "st_fail (close_stream f) = st_fail f"
  by (simp add: close_stream_def)

text \<open>The permissions are the environment's: no operation changes them.\<close>
lemma permissions_frame [frame_simps, simp]:
  "fs_can_write (stream_write s fs f) = fs_can_write fs"
  "fs_can_rename (stream_write s fs f) = fs_can_rename fs"
  "fs_can_remove (stream_write s fs f) = fs_can_remove fs"
  "fs_can_write (fst (open_append p fs f)) = fs_can_write fs"
  "fs_can_rename (fst (open_append p fs f)) = fs_can_rename fs"
  "fs_can_remove (fst (open_append p fs f)) = fs_can_remove fs"
  "fs_can_write (fst (fs_rename a b fs)) = fs_can_write fs"
  "fs_can_rename (fst (fs_rename a b fs)) = fs_can_rename fs"
  "fs_can_remove (fst (fs_rename a b fs)) = fs_can_remove fs"
  "fs_can_write (fs_remove p fs) = fs_can_write fs"
  "fs_can_rename (fs_remove p fs) = fs_can_rename fs"
  "fs_can_remove (fs_remove p fs) = fs_can_remove fs"
  by (auto simp: stream_write_def open_append_def fs_rename_def fs_remove_def split: option.splits)

lemma open_append_closed:
  "\<not> stream_is_open f \<Longrightarrow> fs_can_write fs p \<Longrightarrow>
   open_append p fs f = ((if fs_files fs p = None then set_file p (Some []) fs else fs),
                         \<lparr> st_path = Some p, st_fail = False \<rparr>)"
  by (simp add: open_append_def)

lemma stream_write_attached [simp]:
  "fs_files fs p = Some c \<Longrightarrow>
   stream_write s fs \<lparr> st_path = Some p, st_fail = False \<rparr> = set_file p (Some (c @ s)) fs"
  by (simp add: stream_write_def)

end
