(* ===== verification/Storage.thy ===== *)
theory Storage
  imports Core_Event File_System
begin

text \<open>
  \<open>storage/storage.h\<close> and \<open>storage/storage.cpp\<close>: the text format of an event (one
  tab-separated line), the scan of that format, and the file-backed store
  \<open>FileStorage\<close> with its in-memory counters, pruning and rotation.  The mutex of
  the class only serialises the calls, each of which is one function here.  A
  scan reads the clock for a line that carries no time stamp: \<open>clk i\<close> is the
  reading for line \<open>i\<close>.
\<close>

subsection \<open>The format\<close>

definition attr_text :: "string \<times> string \<Rightarrow> string" where
  "attr_text kv = fst kv @ ''='' @ snd kv"

text \<open>The loop that builds \<open>attrs_line\<close>: the separator is written once something was.\<close>
definition attrs_line :: "(string, string) omap \<Rightarrow> string" where
  "attrs_line m = foldl (\<lambda>acc kv. (if acc = [] then acc else acc @ ''||'') @ attr_text kv) [] m"

definition blank_newlines :: "string \<Rightarrow> string" where
  "blank_newlines s = map (\<lambda>c. if c = nl then CHR 0x20 else c) s"

definition serialize_event :: "Event \<Rightarrow> string" where
  "serialize_event e =
     int_str (to_unix_ms (ev_timestamp e)) @ [tab]
     @ category_name (ev_category e) @ [tab]
     @ type_name (ev_type e) @ [tab]
     @ ev_source e @ [tab]
     @ ev_target e @ [tab]
     @ ev_host e @ [tab]
     @ ev_platform e @ [tab]
     @ blank_newlines (attrs_line (ev_attributes e)) @ [tab]
     @ blank_newlines (ev_summary e)"

text \<open>The scan of the attribute field: \<open>cur\<close>, \<open>key\<close> and the map are the loop's variables.\<close>
fun parse_attrs :: "string \<Rightarrow> string \<Rightarrow> string \<Rightarrow> (string, string) omap \<Rightarrow> (string, string) omap" where
  "parse_attrs [] cur key m = (if key \<noteq> [] then omap_update key cur m else m)"
| "parse_attrs [c] cur key m =
     (if key = [] \<and> c = CHR ''='' then parse_attrs [] [] cur m
      else parse_attrs [] (cur @ [c]) key m)"
| "parse_attrs (c # d # s) cur key m =
     (if c = CHR ''|'' \<and> d = CHR ''|'' then
        (if key \<noteq> [] then parse_attrs s [] [] (omap_update key cur m)
         else parse_attrs s cur key m)
      else if key = [] \<and> c = CHR ''='' then parse_attrs (d # s) [] cur m
      else parse_attrs (d # s) (cur @ [c]) key m)"

definition parse_event :: "timestamp \<Rightarrow> string \<Rightarrow> Event" where
  "parse_event now line =
     (let tokens = split_keep tab line in
      if length tokens < 9 then event_default now
      else (event_default now)
             \<lparr> ev_timestamp := (case stoll (tokens ! 0) of Some ms \<Rightarrow> from_unix_ms ms | None \<Rightarrow> now),
               ev_category := category_from_name (tokens ! 1),
               ev_type := type_from_name (tokens ! 2),
               ev_source := tokens ! 3,
               ev_target := tokens ! 4,
               ev_host := tokens ! 5,
               ev_platform := tokens ! 6,
               ev_attributes := parse_attrs (tokens ! 7) [] [] [],
               ev_summary := tokens ! 8 \<rparr>)"

subsection \<open>The store\<close>

record QueryFilter =
  qf_from_unix_ms :: int
  qf_to_unix_ms :: int
  qf_category :: string
  qf_source :: string
  qf_keyword :: string
  qf_limit :: int
  qf_offset :: int

record FileStorage =
  sto_path :: string
  sto_file :: ofstream
  sto_bytes_written :: int
  sto_event_count :: int
  sto_rotate_max_bytes :: int
  sto_rotate_max_files :: int

definition new_storage :: FileStorage where
  "new_storage =
     \<lparr> sto_path = [], sto_file = closed_stream, sto_bytes_written = 0, sto_event_count = 0,
       sto_rotate_max_bytes = 0, sto_rotate_max_files = 0 \<rparr>"

text \<open>The non-empty lines of the file at \<open>p\<close>: what every scan of the class looks at.\<close>
definition stored_lines :: "file_system \<Rightarrow> string \<Rightarrow> string list" where
  "stored_lines fs p =
     (case fs_files fs p of None \<Rightarrow> [] | Some c \<Rightarrow> filter (\<lambda>l. l \<noteq> []) (getlines c))"

definition storage_open ::
    "string \<Rightarrow> file_system \<Rightarrow> FileStorage \<Rightarrow> file_system \<times> FileStorage \<times> bool" where
  "storage_open conn fs s =
     (let (fs1, f) = open_append conn fs (sto_file s);
          s1 = s\<lparr>sto_path := conn, sto_file := f\<rparr>;
          s2 = (if stream_is_open f then
                  s1\<lparr>sto_bytes_written :=
                        (case fs_files fs1 conn of None \<Rightarrow> 0 | Some c \<Rightarrow> int (length c)),
                     sto_event_count := int (length (stored_lines fs1 conn))\<rparr>
                else s1)
      in (fs1, s2, stream_is_open f))"

definition storage_close :: "FileStorage \<Rightarrow> FileStorage" where
  "storage_close s = s\<lparr>sto_file := close_stream (sto_file s)\<rparr>"

definition storage_is_open :: "FileStorage \<Rightarrow> bool" where
  "storage_is_open s = stream_is_open (sto_file s)"

definition configure_rotation :: "int \<Rightarrow> int \<Rightarrow> FileStorage \<Rightarrow> FileStorage" where
  "configure_rotation max_bytes max_files s =
     s\<lparr>sto_rotate_max_bytes := (if max_bytes > 0 then max_bytes else 0),
       sto_rotate_max_files := (if max_files > 0 then max_files else 0)\<rparr>"

definition storage_count :: "FileStorage \<Rightarrow> int" where
  "storage_count s = sto_event_count s"

definition backup_path :: "string \<Rightarrow> nat \<Rightarrow> string" where
  "backup_path p i = p @ ''.'' @ nat_str i"

text \<open>The loop \<open>for (i = n; i >= 1; --i)\<close> that moves backup \<open>i\<close> to \<open>i + 1\<close>.\<close>
primrec shift_backups :: "string \<Rightarrow> nat \<Rightarrow> file_system \<Rightarrow> file_system" where
  "shift_backups p 0 fs = fs"
| "shift_backups p (Suc i) fs =
     shift_backups p i
       (if fs_files fs (backup_path p (Suc i)) \<noteq> None
        then fst (fs_rename (backup_path p (Suc i)) (backup_path p (Suc (Suc i))) fs) else fs)"

definition maybe_rotate_locked :: "file_system \<Rightarrow> FileStorage \<Rightarrow> file_system \<times> FileStorage" where
  "maybe_rotate_locked fs s =
     (if sto_rotate_max_bytes s \<le> 0 \<or> sto_rotate_max_files s \<le> 0 then (fs, s)
      else if sto_bytes_written s < sto_rotate_max_bytes s then (fs, s)
      else if sto_path s = [] then (fs, s)
      else
        (let p = sto_path s;
             n = nat (sto_rotate_max_files s);
             fs1 = fs_remove (backup_path p n) fs;
             fs2 = shift_backups p (n - 1) fs1;
             fs3 = fst (fs_rename p (backup_path p 1) fs2);
             (fs4, f) = open_append p fs3 (close_stream (sto_file s))
         in (fs4, s\<lparr>sto_file := f, sto_bytes_written := 0, sto_event_count := 0\<rparr>)))"

definition storage_insert ::
    "Event \<Rightarrow> file_system \<times> FileStorage \<Rightarrow> file_system \<times> FileStorage" where
  "storage_insert e = (\<lambda>(fs, s).
     if \<not> stream_is_open (sto_file s) then (fs, s)
     else
       (let line = serialize_event e;
            fs1 = stream_write (line @ [nl]) fs (sto_file s);
            s1 = s\<lparr>sto_bytes_written := sto_bytes_written s + int (length line) + 1,
                   sto_event_count := sto_event_count s + 1\<rparr>
        in maybe_rotate_locked fs1 s1))"

definition insert_batch ::
    "Event list \<Rightarrow> file_system \<times> FileStorage \<Rightarrow> file_system \<times> FileStorage" where
  "insert_batch es st = fold storage_insert es st"

text \<open>The guards of the scan in \<open>query\<close>; the fields \<open>category\<close> and \<open>source\<close> are not read.\<close>
definition query_match :: "QueryFilter \<Rightarrow> Event \<Rightarrow> bool" where
  "query_match f ev =
     (let ms = to_unix_ms (ev_timestamp ev) in
      \<not> (qf_from_unix_ms f > 0 \<and> ms < qf_from_unix_ms f) \<and>
      \<not> (qf_to_unix_ms f > 0 \<and> ms > qf_to_unix_ms f) \<and>
      \<not> (qf_keyword f \<noteq> [] \<and> \<not> contains (ev_summary ev) (qf_keyword f)
                            \<and> \<not> contains (ev_target ev) (qf_keyword f)))"

fun query_loop :: "QueryFilter \<Rightarrow> (nat \<Rightarrow> timestamp) \<Rightarrow> nat \<Rightarrow> string list \<Rightarrow> int \<Rightarrow> Event list \<Rightarrow> Event list" where
  "query_loop f clk i [] seen result = result"
| "query_loop f clk i (line # ls) seen result =
     (if line = [] then query_loop f clk (Suc i) ls seen result
      else
        (let ev = parse_event (clk i) line in
         if \<not> query_match f ev then query_loop f clk (Suc i) ls seen result
         else if seen < qf_offset f then query_loop f clk (Suc i) ls (seen + 1) result
         else
           (let result1 = result @ [ev] in
            if int (length result1) \<ge> qf_limit f then result1
            else query_loop f clk (Suc i) ls (seen + 1) result1)))"

definition storage_query :: "QueryFilter \<Rightarrow> (nat \<Rightarrow> timestamp) \<Rightarrow> file_system \<Rightarrow> FileStorage \<Rightarrow> Event list" where
  "storage_query f clk fs s =
     (case fs_files fs (sto_path s) of
        None \<Rightarrow> []
      | Some c \<Rightarrow> query_loop f clk 0 (getlines c) 0 [])"

text \<open>The events \<open>iterate\<close> passes to its callback, in order.\<close>
fun iterate_lines :: "(nat \<Rightarrow> timestamp) \<Rightarrow> nat \<Rightarrow> string list \<Rightarrow> Event list" where
  "iterate_lines clk i [] = []"
| "iterate_lines clk i (line # ls) =
     (if line = [] then iterate_lines clk (Suc i) ls
      else parse_event (clk i) line # iterate_lines clk (Suc i) ls)"

definition storage_iterate :: "(nat \<Rightarrow> timestamp) \<Rightarrow> file_system \<Rightarrow> FileStorage \<Rightarrow> Event list" where
  "storage_iterate clk fs s =
     (case fs_files fs (sto_path s) of
        None \<Rightarrow> []
      | Some c \<Rightarrow> iterate_lines clk 0 (getlines c))"

definition storage_prune :: "int \<Rightarrow> file_system \<Rightarrow> FileStorage \<Rightarrow> file_system \<times> FileStorage" where
  "storage_prune max_events fs s =
     (if sto_event_count s \<le> max_events then (fs, s)
      else
        (let skip = sto_event_count s - max_events;
             p = sto_path s;
             tmp = p @ ''.prune.tmp''
         in case fs_files fs p of
              None \<Rightarrow> (fs, s)
            | Some c \<Rightarrow>
                (let (fs1, out) = open_trunc tmp fs in
                 if st_fail out then (fs1, s)
                 else
                   (let kept = drop (nat skip) (filter (\<lambda>l. l \<noteq> []) (getlines c));
                        fs2 = stream_write (unlines kept) fs1 out;
                        new_bytes = int (length (unlines kept));
                        f = close_stream (sto_file s);
                        (fs3, ok) = fs_rename tmp p fs2
                    in if \<not> ok then
                         (let (fs4, f') = open_append p (fs_remove tmp fs3) f
                          in (fs4, s\<lparr>sto_file := f'\<rparr>))
                       else
                         (let (fs4, f') = open_append p fs3 f
                          in (fs4, s\<lparr>sto_file := f', sto_bytes_written := new_bytes,
                                     sto_event_count := max_events\<rparr>))))))"

subsection \<open>The format round trip\<close>

text \<open>A text in which every bar is followed by another character.\<close>
fun bar_ok :: "string \<Rightarrow> bool" where
  "bar_ok [] = True"
| "bar_ok [c] = (c \<noteq> CHR ''|'')"
| "bar_ok (c # d # s) = (\<not> (c = CHR ''|'' \<and> d = CHR ''|'') \<and> bar_ok (d # s))"

definition attr_storable :: "string \<times> string \<Rightarrow> bool" where
  "attr_storable kv =
     (fst kv \<noteq> [] \<and> CHR ''='' \<notin> set (fst kv) \<and> bar_ok (fst kv @ ''='') \<and> bar_ok (snd kv) \<and>
      nl \<notin> set (fst kv) \<and> tab \<notin> set (fst kv) \<and> tab \<notin> set (snd kv))"

text \<open>The events the format can carry: no tab anywhere, no \<open>||\<close> in the attributes.\<close>
definition storable :: "Event \<Rightarrow> bool" where
  "storable e =
     (in_int64 (to_unix_ms (ev_timestamp e)) \<and>
      tab \<notin> set (ev_source e) \<and> tab \<notin> set (ev_target e) \<and> tab \<notin> set (ev_host e) \<and>
      tab \<notin> set (ev_platform e) \<and> tab \<notin> set (ev_summary e) \<and>
      omap_sorted (ev_attributes e) \<and> list_all attr_storable (ev_attributes e))"

text \<open>The fields a line break would split: they are written unescaped.\<close>
definition one_line :: "Event \<Rightarrow> bool" where
  "one_line e = (nl \<notin> set (ev_source e) \<and> nl \<notin> set (ev_target e) \<and> nl \<notin> set (ev_host e) \<and>
                 nl \<notin> set (ev_platform e))"

text \<open>What is left of an event after a trip through the file: no id, milliseconds, no line breaks.\<close>
definition persisted :: "Event \<Rightarrow> Event" where
  "persisted e =
     e\<lparr>ev_id := 0,
       ev_timestamp := from_unix_ms (to_unix_ms (ev_timestamp e)),
       ev_attributes := map (\<lambda>(k, v). (k, blank_newlines v)) (ev_attributes e),
       ev_summary := blank_newlines (ev_summary e)\<rparr>"

lemma blank_newlines_simps [simp]:
  "blank_newlines [] = []"
  "blank_newlines (s @ t) = blank_newlines s @ blank_newlines t"
  "blank_newlines (c # s) = (if c = nl then CHR 0x20 else c) # blank_newlines s"
  by (simp_all add: blank_newlines_def)

lemma blank_newlines_id: "nl \<notin> set s \<Longrightarrow> blank_newlines s = s"
  by (induction s) auto

lemma blank_newlines_chars:
  "nl \<notin> set (blank_newlines s)" "tab \<notin> set s \<Longrightarrow> tab \<notin> set (blank_newlines s)"
  by (induction s) auto

lemma bar_ok_blank: "bar_ok s \<Longrightarrow> bar_ok (blank_newlines s)"
  by (induction s rule: bar_ok.induct) auto

lemma attr_text_nonempty [simp]: "attr_text kv \<noteq> []"
  by (simp add: attr_text_def)

lemma foldl_attrs_nonempty:
  "acc \<noteq> [] \<Longrightarrow>
   foldl (\<lambda>acc kv. (if acc = [] then acc else acc @ ''||'') @ attr_text kv) acc m =
   acc @ concat (map (\<lambda>kv. ''||'' @ attr_text kv) m)"
  by (induction m arbitrary: acc) (auto simp: attr_text_def)

lemma attrs_line_Nil [simp]: "attrs_line [] = []"
  by (simp add: attrs_line_def)

lemma attrs_line_Cons:
  "attrs_line (kv # m) = attr_text kv @ concat (map (\<lambda>kv. ''||'' @ attr_text kv) m)"
  by (simp add: attrs_line_def foldl_attrs_nonempty)

lemma parse_attrs_key:
  assumes "CHR ''='' \<notin> set k" "bar_ok (k @ ''='')"
  shows "parse_attrs (k @ CHR ''='' # s) cur [] m = parse_attrs s [] (cur @ k) m"
  using assms
proof (induction k arbitrary: cur)
  case Nil
  then show ?case by (cases s) auto
next
  case (Cons c k)
  then show ?case by (cases k) auto
qed

lemma parse_attrs_value_sep:
  assumes "key \<noteq> []" "bar_ok v"
  shows "parse_attrs (v @ CHR ''|'' # CHR ''|'' # s) cur key m =
         parse_attrs s [] [] (omap_update key (cur @ v) m)"
  using assms
proof (induction v arbitrary: cur)
  case Nil
  then show ?case by simp
next
  case (Cons c v)
  then show ?case by (cases v) auto
qed

lemma parse_attrs_value_end:
  assumes "key \<noteq> []" "bar_ok v"
  shows "parse_attrs v cur key m = omap_update key (cur @ v) m"
  using assms
proof (induction v arbitrary: cur)
  case Nil
  then show ?case by simp
next
  case (Cons c v)
  then show ?case by (cases v) auto
qed

lemma parse_attrs_pairs:
  assumes "attr_storable kv" "list_all attr_storable m"
  shows "parse_attrs (attr_text kv @ concat (map (\<lambda>kv. ''||'' @ attr_text kv) m)) [] [] acc =
         fold (\<lambda>(k, v). omap_update k v) (kv # m) acc"
  using assms
proof (induction m arbitrary: kv acc)
  case Nil
  then show ?case
    by (auto simp: attr_text_def attr_storable_def parse_attrs_key parse_attrs_value_end split: prod.splits)
next
  case (Cons kv' m)
  have "parse_attrs (attr_text kv @ concat (map (\<lambda>kv. ''||'' @ attr_text kv) (kv' # m))) [] [] acc =
        parse_attrs (attr_text kv' @ concat (map (\<lambda>kv. ''||'' @ attr_text kv) m)) [] []
          (omap_update (fst kv) (snd kv) acc)"
    using Cons.prems(1)
    by (simp add: attr_text_def [of kv] attr_storable_def parse_attrs_key parse_attrs_value_sep)
  then show ?case
    using Cons.IH [of kv'] Cons.prems by (simp add: case_prod_beta)
qed

lemma parse_attrs_line:
  assumes "list_all attr_storable m" "omap_sorted m"
  shows "parse_attrs (attrs_line m) [] [] [] = m"
proof (cases m)
  case (Cons kv m')
  have "parse_attrs (attrs_line m) [] [] [] = omap_of m"
    using assms(1) parse_attrs_pairs [of kv m' "[]"]
    by (simp add: Cons attrs_line_Cons omap_of_def)
  then show ?thesis using assms(2) by (simp add: omap_of_sorted)
qed simp

lemma blank_attr_text:
  "attr_storable kv \<Longrightarrow> blank_newlines (attr_text kv) = attr_text (fst kv, blank_newlines (snd kv))"
  by (auto simp: attr_text_def attr_storable_def blank_newlines_id)

lemma blank_attrs_line:
  "list_all attr_storable m \<Longrightarrow>
   blank_newlines (attrs_line m) = attrs_line (map (\<lambda>(k, v). (k, blank_newlines v)) m)"
proof (cases m)
  case (Cons kv m')
  assume *: "list_all attr_storable m"
  have "list_all attr_storable m' \<Longrightarrow>
        blank_newlines (concat (map (\<lambda>kv. ''||'' @ attr_text kv) m')) =
        concat (map (\<lambda>kv. ''||'' @ attr_text kv) (map (\<lambda>(k, v). (k, blank_newlines v)) m'))"
    by (induction m') (auto simp: blank_attr_text)
  then show ?thesis
    using * by (simp add: Cons attrs_line_Cons blank_attr_text case_prod_beta)
qed simp

lemma attr_storable_blank:
  "attr_storable (k, v) \<Longrightarrow> attr_storable (k, blank_newlines v)"
  by (simp add: attr_storable_def bar_ok_blank blank_newlines_chars)

lemma attrs_round_trip:
  assumes "list_all attr_storable m" "omap_sorted m"
  shows "parse_attrs (blank_newlines (attrs_line m)) [] [] [] =
         map (\<lambda>(k, v). (k, blank_newlines v)) m"
proof -
  let ?m = "map (\<lambda>(k, v). (k, blank_newlines v)) m"
  have "list_all attr_storable ?m"
    using assms(1) by (induction m) (auto simp: attr_storable_blank)
  moreover have "omap_sorted ?m"
    using assms(2) by (simp add: omap_sorted_def case_prod_beta comp_def)
  ultimately show ?thesis
    by (simp add: blank_attrs_line [OF assms(1)] parse_attrs_line)
qed

lemma attrs_line_no_tab: "list_all attr_storable m \<Longrightarrow> tab \<notin> set (attrs_line m)"
proof (cases m)
  case (Cons kv m')
  assume *: "list_all attr_storable m"
  then have "list_all attr_storable m'" by (simp add: Cons)
  then have "tab \<notin> set (concat (map (\<lambda>kv. ''||'' @ attr_text kv) m'))"
    by (induction m') (auto simp: attr_text_def attr_storable_def)
  then show ?thesis
    using * by (auto simp: Cons attrs_line_Cons attr_text_def attr_storable_def)
qed simp

lemma serialize_tokens:
  assumes "storable e"
  shows "split_keep tab (serialize_event e) =
    [int_str (to_unix_ms (ev_timestamp e)), category_name (ev_category e), type_name (ev_type e),
     ev_source e, ev_target e, ev_host e, ev_platform e,
     blank_newlines (attrs_line (ev_attributes e)), blank_newlines (ev_summary e)]"
proof -
  have "tab \<notin> set (int_str (to_unix_ms (ev_timestamp e)))"
    using int_str_chars isdigit_not by fastforce
  moreover have "tab \<notin> set (category_name (ev_category e))" "tab \<notin> set (type_name (ev_type e))"
    using category_name_chars type_name_chars by auto
  moreover have "tab \<notin> set (blank_newlines (attrs_line (ev_attributes e)))"
      "tab \<notin> set (blank_newlines (ev_summary e))"
    using assms by (auto simp: storable_def attrs_line_no_tab blank_newlines_chars)
  ultimately show ?thesis
    using assms by (simp add: serialize_event_def storable_def split_keep_append split_keep_last)
qed

lemma parse_serialize:
  assumes "storable e"
  shows "parse_event now (serialize_event e) = persisted e"
proof -
  have "stoll (int_str (to_unix_ms (ev_timestamp e))) = Some (to_unix_ms (ev_timestamp e))"
    using assms by (simp add: storable_def stoll_int_str)
  moreover have "parse_attrs (blank_newlines (attrs_line (ev_attributes e))) [] [] [] =
      map (\<lambda>(k, v). (k, blank_newlines v)) (ev_attributes e)"
    using assms by (simp add: storable_def attrs_round_trip)
  ultimately show ?thesis
    by (simp add: parse_event_def serialize_tokens [OF assms] persisted_def event_default_def nth_Cons' eval_nat_numeral)
qed

lemma serialize_nonempty: "serialize_event e \<noteq> []"
  by (simp add: serialize_event_def)

lemma serialize_one_line:
  assumes "one_line e"
  shows "nl \<notin> set (serialize_event e)"
proof -
  have "nl \<notin> set (int_str (to_unix_ms (ev_timestamp e)))"
    using int_str_chars isdigit_not by fastforce
  moreover have "nl \<notin> set (category_name (ev_category e))" "nl \<notin> set (type_name (ev_type e))"
    using category_name_chars type_name_chars by auto
  ultimately show ?thesis
    using assms blank_newlines_chars by (auto simp: serialize_event_def one_line_def)
qed

subsection \<open>Scanning\<close>

lemma iterate_lines_append:
  "iterate_lines clk i (xs @ ys) = iterate_lines clk i xs @ iterate_lines clk (i + length xs) ys"
  by (induction xs arbitrary: i) auto

lemma length_iterate_lines: "length (iterate_lines clk i ls) = length (filter (\<lambda>l. l \<noteq> []) ls)"
  by (induction ls arbitrary: i) auto

lemma query_loop_spec:
  assumes "length r < lim" "lim = max 1 (nat (qf_limit f))"
  shows "query_loop f clk i ls seen r =
         r @ take (lim - length r)
               (drop (nat (qf_offset f - seen)) (filter (query_match f) (iterate_lines clk i ls)))"
  using assms
proof (induction ls arbitrary: i seen r)
  case (Cons line ls)
  let ?ev = "parse_event (clk i) line"
  consider "line = []" | "line \<noteq> []" "\<not> query_match f ?ev"
    | "line \<noteq> []" "query_match f ?ev" "seen < qf_offset f"
    | "line \<noteq> []" "query_match f ?ev" "\<not> seen < qf_offset f" by blast
  then show ?case
  proof cases
    case 3
    then have "nat (qf_offset f - seen) = Suc (nat (qf_offset f - (seen + 1)))" by simp
    with 3 Cons show ?thesis by simp
  next
    case 4
    then have z: "nat (qf_offset f - seen) = 0" "nat (qf_offset f - (seen + 1)) = 0" by simp_all
    show ?thesis
    proof (cases "int (length r + 1) \<ge> qf_limit f")
      case True
      then have "lim - length r = 1" using Cons.prems by auto
      with 4 True z show ?thesis by simp
    next
      case False
      then have "length r + 1 < lim" "lim - length r = Suc (lim - length (r @ [?ev]))"
        using Cons.prems by auto
      with 4 False z Cons.IH [of "r @ [?ev]"] Cons.prems(2) show ?thesis by simp
    qed
  qed (use Cons in simp_all)
qed simp

subsection \<open>The state of an open store\<close>

text \<open>A stream open for appending on \<open>p\<close>, and a file whose last line is complete.\<close>
definition attached :: "string \<Rightarrow> ofstream" where
  "attached p = \<lparr> st_path = Some p, st_fail = False \<rparr>"

definition complete_text :: "string \<Rightarrow> bool" where
  "complete_text c = (c = [] \<or> last c = nl)"

definition storage_ready :: "file_system \<Rightarrow> FileStorage \<Rightarrow> bool" where
  "storage_ready fs s =
     (sto_file s = attached (sto_path s) \<and>
      (case fs_files fs (sto_path s) of None \<Rightarrow> False | Some c \<Rightarrow> complete_text c))"

text \<open>The counters describe the file.\<close>
definition storage_inv :: "file_system \<Rightarrow> FileStorage \<Rightarrow> bool" where
  "storage_inv fs s =
     (storage_ready fs s \<and>
      sto_event_count s = int (length (stored_lines fs (sto_path s))) \<and>
      sto_bytes_written s = int (length (the (fs_files fs (sto_path s)))))"

text \<open>The environment refuses nothing.\<close>
definition fs_permits :: "file_system \<Rightarrow> bool" where
  "fs_permits fs =
     (fs_can_write fs = (\<lambda>_. True) \<and> fs_can_rename fs = (\<lambda>_ _. True) \<and> fs_can_remove fs = (\<lambda>_. True))"

lemma complete_text_append:
  "complete_text c \<Longrightarrow> nl \<notin> set l \<Longrightarrow> getlines (c @ l @ [nl]) = getlines c @ [l]"
proof (induction c rule: length_induct)
  case (1 c)
  show ?case
  proof (cases c)
    case Nil
    then show ?thesis using 1(3) by (simp add: getline_split_append)
  next
    case (Cons x c')
    show ?thesis
    proof (cases "c' = []")
      case True
      then show ?thesis using 1(2,3) Cons by (simp add: complete_text_def getline_split_append)
    next
      case False
      then have c': "complete_text c'" using 1(2) Cons by (simp add: complete_text_def)
      then have IH: "getlines (c' @ l @ [nl]) = getlines c' @ [l]"
        using 1 Cons by auto
      have "getlines c' \<noteq> []" using False by (cases c') (auto split: list.splits)
      then show ?thesis using Cons IH by (auto split: list.splits simp: append_eq_Cons_conv)
    qed
  qed
qed

lemma complete_text_unlines [simp]: "complete_text (unlines ls)"
  by (induction ls rule: rev_induct) (auto simp: complete_text_def)

lemma complete_text_line [simp]: "complete_text (c @ l @ [nl])"
  by (simp add: complete_text_def)

lemma stored_lines_Some: "fs_files fs p = Some c \<Longrightarrow> stored_lines fs p = filter (\<lambda>l. l \<noteq> []) (getlines c)"
  by (simp add: stored_lines_def)

lemma stored_lines_no_nl: "l \<in> set (stored_lines fs p) \<Longrightarrow> nl \<notin> set l \<and> l \<noteq> []"
  by (auto simp: stored_lines_def dest: getline_split_no_delim split: option.splits)

lemma storage_iterate_length:
  "length (storage_iterate clk fs s) = length (stored_lines fs (sto_path s))"
  by (simp add: storage_iterate_def stored_lines_def length_iterate_lines split: option.splits)

text \<open>The state before rotation is considered: the line is in the file, the counters moved.\<close>
definition appended :: "string \<Rightarrow> file_system \<Rightarrow> string \<Rightarrow> file_system" where
  "appended line fs p = set_file p (Some (the (fs_files fs p) @ line @ [nl])) fs"

lemma storage_insert_ready:
  assumes "storage_ready fs s"
  shows "storage_insert e (fs, s) =
         maybe_rotate_locked (appended (serialize_event e) fs (sto_path s))
           (s\<lparr>sto_bytes_written := sto_bytes_written s + int (length (serialize_event e)) + 1,
              sto_event_count := sto_event_count s + 1\<rparr>)"
proof -
  obtain c where c: "fs_files fs (sto_path s) = Some c" "sto_file s = attached (sto_path s)"
    using assms by (auto simp: storage_ready_def split: option.splits)
  then show ?thesis
    by (simp add: storage_insert_def appended_def attached_def Let_def)
qed

definition rotation_due :: "int \<Rightarrow> FileStorage \<Rightarrow> bool" where
  "rotation_due extra s =
     (0 < sto_rotate_max_bytes s \<and> 0 < sto_rotate_max_files s \<and> sto_path s \<noteq> [] \<and>
      sto_rotate_max_bytes s \<le> sto_bytes_written s + extra)"

lemma maybe_rotate_not_due:
  "\<not> rotation_due 0 s \<Longrightarrow> maybe_rotate_locked fs s = (fs, s)"
  by (auto simp: maybe_rotate_locked_def rotation_due_def)

lemma storage_inv_ready: "storage_inv fs s \<Longrightarrow> storage_ready fs s"
  by (simp add: storage_inv_def)

lemma insert_not_due:
  assumes inv: "storage_inv fs s" and one: "one_line e"
    and due: "\<not> rotation_due (int (length (serialize_event e)) + 1) s"
    and ins: "storage_insert e (fs, s) = (fs', s')"
  shows "storage_inv fs' s'" "sto_path s' = sto_path s"
    "the (fs_files fs' (sto_path s)) = the (fs_files fs (sto_path s)) @ serialize_event e @ [nl]"
    "getlines (the (fs_files fs' (sto_path s))) =
       getlines (the (fs_files fs (sto_path s))) @ [serialize_event e]"
proof -
  note ready = storage_inv_ready [OF inv]
  obtain c where c: "fs_files fs (sto_path s) = Some c" "sto_file s = attached (sto_path s)"
      "complete_text c"
    using ready by (auto simp: storage_ready_def split: option.splits)
  have eq: "fs' = appended (serialize_event e) fs (sto_path s)"
       "s' = s\<lparr>sto_bytes_written := sto_bytes_written s + int (length (serialize_event e)) + 1,
              sto_event_count := sto_event_count s + 1\<rparr>"
    using ins due unfolding storage_insert_ready [OF ready]
    by (subst (asm) maybe_rotate_not_due; auto simp: rotation_due_def)+
  have lines: "getlines (c @ serialize_event e @ [nl]) = getlines c @ [serialize_event e]"
    using c(3) serialize_one_line [OF one] by (rule complete_text_append)
  show "sto_path s' = sto_path s" by (simp add: eq)
  show "the (fs_files fs' (sto_path s)) = the (fs_files fs (sto_path s)) @ serialize_event e @ [nl]"
    by (simp add: eq appended_def)
  show "getlines (the (fs_files fs' (sto_path s))) =
       getlines (the (fs_files fs (sto_path s))) @ [serialize_event e]"
    using lines c by (simp add: eq appended_def)
  show "storage_inv fs' s'"
    using inv c lines serialize_nonempty [of e]
    by (simp add: storage_inv_def storage_ready_def eq appended_def stored_lines_def)
qed

lemma iterate_insert_not_due:
  assumes "storage_inv fs s" "one_line e" "storable e"
    and "\<not> rotation_due (int (length (serialize_event e)) + 1) s"
    and "storage_insert e (fs, s) = (fs', s')"
  shows "storage_iterate clk fs' s' = storage_iterate clk fs s @ [persisted e]"
proof -
  obtain c where c: "fs_files fs (sto_path s) = Some c"
    using assms(1) by (auto simp: storage_inv_def storage_ready_def split: option.splits)
  obtain c' where c': "fs_files fs' (sto_path s) = Some c'"
    using insert_not_due [OF assms(1,2,4,5)]
    by (auto simp: storage_inv_def storage_ready_def split: option.splits)
  show ?thesis
    using insert_not_due [OF assms(1,2,4,5)] c c' serialize_nonempty [of e]
    by (simp add: storage_iterate_def iterate_lines_append parse_serialize [OF assms(3)])
qed

subsection \<open>Rotation\<close>

lemma nat_str_inj [simp]: "nat_str i = nat_str j \<longleftrightarrow> i = j"
  by (metis digits_val_nat_str)

lemma backup_path_inj [simp]: "backup_path p i = backup_path p j \<longleftrightarrow> i = j"
  by (simp add: backup_path_def)

lemma backup_path_neq [simp]: "backup_path p i \<noteq> p" "p \<noteq> backup_path p i"
  by (auto simp: backup_path_def)

lemma fs_rename_permits:
  assumes "fs_permits fs" "fs_files fs a = Some c" "a \<noteq> b"
  shows "fs_rename a b fs = (set_file a None (set_file b (Some c) fs), True)"
  using assms by (simp add: fs_rename_def fs_permits_def)

lemma fs_permits_set_file [simp]: "fs_permits (set_file p c fs) = fs_permits fs"
  by (simp add: fs_permits_def)

lemma fs_permits_rename [simp]: "fs_permits (fst (fs_rename a b fs)) = fs_permits fs"
  by (simp add: fs_permits_def)

lemma fs_permits_remove [simp]: "fs_permits (fs_remove a fs) = fs_permits fs"
  by (simp add: fs_permits_def)

text \<open>Backup \<open>i\<close> becomes backup \<open>i + 1\<close>; nothing else moves.\<close>
lemma shift_backups_files:
  assumes "fs_permits fs" "fs_files fs (backup_path p (Suc n)) = None"
  shows "fs_files (shift_backups p n fs) q =
         (if \<exists>i \<in> {1..n}. q = backup_path p (Suc i) then fs_files fs (backup_path p (THE i. q = backup_path p (Suc i)))
          else if 1 \<le> n \<and> q = backup_path p 1 then None
          else fs_files fs q) \<and> fs_permits (shift_backups p n fs)"
  using assms
proof (induction n arbitrary: fs)
  case 0
  then show ?case by simp
next
  case (Suc n)
  define fs1 where "fs1 = (if fs_files fs (backup_path p (Suc n)) \<noteq> None
        then fst (fs_rename (backup_path p (Suc n)) (backup_path p (Suc (Suc n))) fs) else fs)"
  have p1: "fs_permits fs1" using Suc.prems by (simp add: fs1_def)
  have files1: "fs_files fs1 = (fs_files fs)(backup_path p (Suc (Suc n)) := fs_files fs (backup_path p (Suc n)),
                                  backup_path p (Suc n) := None)"
  proof (cases "fs_files fs (backup_path p (Suc n))")
    case None
    then show ?thesis using Suc.prems(2) by (auto simp: fs1_def fun_eq_iff)
  next
    case (Some c)
    then show ?thesis using Suc.prems(1) by (simp add: fs1_def fs_rename_permits)
  qed
  have step: "shift_backups p (Suc n) fs = shift_backups p n fs1" by (simp add: fs1_def)
  have IH: "fs_files (shift_backups p n fs1) q =
         (if \<exists>i \<in> {1..n}. q = backup_path p (Suc i) then fs_files fs1 (backup_path p (THE i. q = backup_path p (Suc i)))
          else if 1 \<le> n \<and> q = backup_path p 1 then None
          else fs_files fs1 q) \<and> fs_permits (shift_backups p n fs1)"
    using Suc.IH [of fs1] p1 files1 by simp
  show ?case
  proof (cases "\<exists>i. q = backup_path p (Suc i)")
    case True
    then obtain i where q: "q = backup_path p (Suc i)" by blast
    then have the: "(THE i. q = backup_path p (Suc i)) = i" by simp
    show ?thesis
      using IH unfolding step
      by (cases "i = 0"; cases "i \<le> n"; cases "i = Suc n") (auto simp: the q files1)
  next
    case False
    then show ?thesis using IH unfolding step by (auto simp: files1)
  qed
qed

text \<open>The state a rotation leaves when the environment refuses nothing.\<close>
lemma rotation_files:
  assumes perm: "fs_permits fs" and due: "rotation_due 0 s"
    and content: "fs_files fs (sto_path s) = Some c"
    and rot: "maybe_rotate_locked fs s = (fs', s')"
  shows "s' = s\<lparr>sto_file := attached (sto_path s), sto_bytes_written := 0, sto_event_count := 0\<rparr>"
    "fs_files fs' (sto_path s) = Some []"
    "fs_files fs' (backup_path (sto_path s) 1) = Some c"
    "\<And>i. 1 \<le> i \<Longrightarrow> i < nat (sto_rotate_max_files s) \<Longrightarrow>
          fs_files fs' (backup_path (sto_path s) (Suc i)) = fs_files fs (backup_path (sto_path s) i)"
    "\<And>i. nat (sto_rotate_max_files s) < i \<Longrightarrow>
          fs_files fs' (backup_path (sto_path s) i) = fs_files fs (backup_path (sto_path s) i)"
    "fs_permits fs'"
proof -
  define p where "p = sto_path s"
  define n where "n = nat (sto_rotate_max_files s)"
  have n1: "1 \<le> n" using due by (auto simp: rotation_due_def n_def)
  define fs1 where "fs1 = fs_remove (backup_path p n) fs"
  define fs2 where "fs2 = shift_backups p (n - 1) fs1"
  have files1: "fs_files fs1 = (fs_files fs)(backup_path p n := None)" "fs_permits fs1"
    using perm by (simp_all add: fs1_def fs_remove_def fs_permits_def)
  have files2: "fs_files fs2 q =
         (if \<exists>i \<in> {1..n - 1}. q = backup_path p (Suc i) then fs_files fs1 (backup_path p (THE i. q = backup_path p (Suc i)))
          else if 1 \<le> n - 1 \<and> q = backup_path p 1 then None
          else fs_files fs1 q) \<and> fs_permits fs2" for q
    using n1 files1 unfolding fs2_def by (intro shift_backups_files) auto
  have fp: "fs_files fs2 p = Some c"
    using files2 [of p] content by (simp add: files1 p_def)
  define fs3 where "fs3 = set_file p None (set_file (backup_path p 1) (Some c) fs2)"
  have ren: "fs_rename p (backup_path p 1) fs2 = (fs3, True)"
    using files2 fp by (simp add: fs3_def fs_rename_permits)
  have perm3: "fs_permits fs3" using files2 [of p] by (simp add: fs3_def)
  then have op: "open_append p fs3 (close_stream (sto_file s)) = (set_file p (Some []) fs3, attached p)"
    by (simp add: open_append_closed fs_permits_def fs3_def attached_def)
  have res: "fs' = set_file p (Some []) fs3"
      "s' = s\<lparr>sto_file := attached p, sto_bytes_written := 0, sto_event_count := 0\<rparr>"
    using rot due op ren
    by (auto simp: maybe_rotate_locked_def rotation_due_def Let_def fs1_def fs2_def n_def p_def)
  show "s' = s\<lparr>sto_file := attached (sto_path s), sto_bytes_written := 0, sto_event_count := 0\<rparr>"
    by (simp add: res p_def)
  show "fs_permits fs'" using perm3 by (simp add: res)
  show "fs_files fs' (sto_path s) = Some []" by (simp add: res p_def)
  show "fs_files fs' (backup_path (sto_path s) 1) = Some c"
    by (simp add: res p_def [symmetric] fs3_def)
  show "fs_files fs' (backup_path (sto_path s) (Suc i)) = fs_files fs (backup_path (sto_path s) i)"
    if "1 \<le> i" "i < nat (sto_rotate_max_files s)" for i
    using that files2 [of "backup_path p (Suc i)"]
    by (auto simp: res p_def [symmetric] n_def [symmetric] fs3_def files1)
  show "fs_files fs' (backup_path (sto_path s) i) = fs_files fs (backup_path (sto_path s) i)"
    if "nat (sto_rotate_max_files s) < i" for i
    using that n1 files2 [of "backup_path p i"]
    by (auto simp: res p_def [symmetric] n_def [symmetric] fs3_def files1 split: if_splits)
qed

lemma insert_due:
  assumes inv: "storage_inv fs s" and perm: "fs_permits fs"
    and due: "rotation_due (int (length (serialize_event e)) + 1) s"
    and ins: "storage_insert e (fs, s) = (fs', s')"
  shows "storage_inv fs' s'" "fs_permits fs'" "sto_path s' = sto_path s" "sto_bytes_written s' = 0"
    "fs_files fs' (sto_path s) = Some []"
    "fs_files fs' (backup_path (sto_path s) 1) =
       Some (the (fs_files fs (sto_path s)) @ serialize_event e @ [nl])"
    "\<And>i. 1 \<le> i \<Longrightarrow> i < nat (sto_rotate_max_files s) \<Longrightarrow>
          fs_files fs' (backup_path (sto_path s) (Suc i)) = fs_files fs (backup_path (sto_path s) i)"
    "\<And>i. nat (sto_rotate_max_files s) < i \<Longrightarrow>
          fs_files fs' (backup_path (sto_path s) i) = fs_files fs (backup_path (sto_path s) i)"
    "sto_rotate_max_bytes s' = sto_rotate_max_bytes s"
    "sto_rotate_max_files s' = sto_rotate_max_files s"
proof -
  let ?fs = "appended (serialize_event e) fs (sto_path s)"
  let ?s = "s\<lparr>sto_bytes_written := sto_bytes_written s + int (length (serialize_event e)) + 1,
              sto_event_count := sto_event_count s + 1\<rparr>"
  have rot: "maybe_rotate_locked ?fs ?s = (fs', s')"
    using ins storage_insert_ready [OF storage_inv_ready [OF inv], of e] by simp
  have "fs_permits ?fs" "rotation_due 0 ?s"
      "fs_files ?fs (sto_path ?s) = Some (the (fs_files fs (sto_path s)) @ serialize_event e @ [nl])"
    using perm due by (simp_all add: appended_def rotation_due_def)
  note R = rotation_files [OF this rot]
  show "storage_inv fs' s'"
    using R(1,2) by (simp add: storage_inv_def storage_ready_def stored_lines_def complete_text_def)
  show "fs_permits fs'" by (rule R(6))
  show "sto_path s' = sto_path s" "sto_bytes_written s' = 0"
       "sto_rotate_max_bytes s' = sto_rotate_max_bytes s"
       "sto_rotate_max_files s' = sto_rotate_max_files s"
    by (simp_all add: R(1))
  show "fs_files fs' (sto_path s) = Some []"
    "fs_files fs' (backup_path (sto_path s) 1) =
       Some (the (fs_files fs (sto_path s)) @ serialize_event e @ [nl])"
    using R(2,3) by simp_all
  show "1 \<le> i \<Longrightarrow> i < nat (sto_rotate_max_files s) \<Longrightarrow>
          fs_files fs' (backup_path (sto_path s) (Suc i)) = fs_files fs (backup_path (sto_path s) i)" for i
    using R(4) [of i] by (simp add: appended_def)
  show "nat (sto_rotate_max_files s) < i \<Longrightarrow>
          fs_files fs' (backup_path (sto_path s) i) = fs_files fs (backup_path (sto_path s) i)" for i
    using R(5) [of i] by (simp add: appended_def)
qed

subsection \<open>Pruning\<close>

lemma prune_result:
  assumes inv: "storage_inv fs s" and perm: "fs_permits fs"
    and n: "0 \<le> n" "n < sto_event_count s"
    and pr: "storage_prune n fs s = (fs', s')"
  shows "stored_lines fs' (sto_path s) = take_last (nat n) (stored_lines fs (sto_path s))"
    "storage_inv fs' s'" "fs_permits fs'" "sto_event_count s' = n" "sto_path s' = sto_path s"
proof -
  define p where "p = sto_path s"
  define tmp where "tmp = p @ ''.prune.tmp''"
  have tp: "tmp \<noteq> p" "p \<noteq> tmp" by (auto simp: tmp_def)
  obtain c where c: "fs_files fs p = Some c"
    using inv by (auto simp: storage_inv_def storage_ready_def p_def split: option.splits)
  have cnt: "sto_event_count s = int (length (stored_lines fs p))"
    using inv by (simp add: storage_inv_def p_def)
  define kept where "kept = drop (nat (sto_event_count s - n)) (stored_lines fs p)"
  have kept: "kept = take_last (nat n) (stored_lines fs p)"
    using n cnt by (simp add: kept_def take_last_def nat_diff_distrib)
  have kl: "drop (nat (sto_event_count s - n)) (filter (\<lambda>l. l \<noteq> []) (getlines c)) = kept"
    by (simp add: kept_def stored_lines_Some [OF c])
  define fs3 where "fs3 = set_file tmp None (set_file p (Some (unlines kept)) (set_file tmp (Some (unlines kept)) (set_file tmp (Some []) fs)))"
  have op1: "open_trunc tmp fs = (set_file tmp (Some []) fs, attached tmp)"
    using perm by (simp add: open_trunc_def fs_permits_def attached_def)
  have wr: "stream_write (unlines kept) (set_file tmp (Some []) fs) (attached tmp) =
            set_file tmp (Some (unlines kept)) (set_file tmp (Some []) fs)"
    by (simp add: attached_def)
  have ren: "fs_rename tmp p (set_file tmp (Some (unlines kept)) (set_file tmp (Some []) fs)) = (fs3, True)"
    using perm tp by (simp add: fs_rename_permits fs3_def)
  have p3: "fs_permits fs3" using perm by (simp add: fs3_def)
  have f3: "fs_files fs3 p = Some (unlines kept)" using tp by (simp add: fs3_def)
  have op2: "open_append p fs3 (close_stream (sto_file s)) = (fs3, attached p)"
    using p3 f3 by (simp add: open_append_closed fs_permits_def attached_def)
  have attf: "\<not> st_fail (attached tmp)" by (simp add: attached_def)
  have res: "fs' = fs3" "s' = s\<lparr>sto_file := attached p, sto_bytes_written := int (length (unlines kept)),
                                sto_event_count := n\<rparr>"
    using pr n c op1 wr ren op2 attf
    unfolding storage_prune_def Let_def p_def [symmetric] tmp_def [symmetric]
    by (auto simp: kl)
  have lines: "getlines (unlines kept) = kept" "filter (\<lambda>l. l \<noteq> []) kept = kept"
    using stored_lines_no_nl [of _ fs p] set_take_last [of "nat n" "stored_lines fs p"]
    by (auto simp: kept filter_id_conv intro!: getlines_unlines)
  show sl: "stored_lines fs' (sto_path s) = take_last (nat n) (stored_lines fs (sto_path s))"
    using lines by (simp add: res p_def [symmetric] stored_lines_Some [OF f3] kept)
  show "fs_permits fs'" by (simp add: res p3)
  show "sto_event_count s' = n" "sto_path s' = sto_path s" by (simp_all add: res)
  show "storage_inv fs' s'"
    using sl f3 n cnt by (simp add: storage_inv_def storage_ready_def res p_def [symmetric])
qed

lemma prune_small: "sto_event_count s \<le> n \<Longrightarrow> storage_prune n fs s = (fs, s)"
  by (simp add: storage_prune_def)

subsection \<open>Opening\<close>

lemma open_inv:
  assumes perm: "fs_permits fs" and closed: "\<not> stream_is_open (sto_file s)"
    and content: "case fs_files fs p of None \<Rightarrow> True | Some c \<Rightarrow> complete_text c"
    and op: "storage_open p fs s = (fs', s', ok)"
  shows "ok" "storage_inv fs' s'" "fs_permits fs'" "sto_path s' = p"
    "stored_lines fs' p = stored_lines fs p"
proof -
  have *: "open_append p fs (sto_file s) =
        ((if fs_files fs p = None then set_file p (Some []) fs else fs), attached p)"
    using perm closed by (simp add: open_append_closed attached_def fs_permits_def)
  have at: "stream_is_open (attached p)" by (simp add: attached_def)
  show "ok" "fs_permits fs'" "sto_path s' = p"
    using op perm by (auto simp: storage_open_def * at Let_def split: if_splits)
  show "stored_lines fs' p = stored_lines fs p"
    using op by (auto simp: storage_open_def * at Let_def stored_lines_def split: if_splits option.splits)
  show "storage_inv fs' s'"
    using op content
    by (auto simp: storage_open_def * at Let_def storage_inv_def storage_ready_def complete_text_def
             split: if_splits option.splits)
qed

subsection \<open>The interface the writers use\<close>

text \<open>
  A store whose scan grows by exactly the events inserted.  The reporter and the
  engine rely on nothing else of the store.
\<close>
locale event_store =
  fixes store_ok :: "'s \<Rightarrow> bool"
    and store_events :: "'s \<Rightarrow> Event list"
    and store_insert :: "Event \<Rightarrow> 's \<Rightarrow> 's"
    and accepts :: "Event \<Rightarrow> bool"
  assumes store_ok_insert: "store_ok s \<Longrightarrow> accepts e \<Longrightarrow> store_ok (store_insert e s)"
    and store_events_insert:
      "store_ok s \<Longrightarrow> accepts e \<Longrightarrow> store_events (store_insert e s) = store_events s @ [persisted e]"
begin

lemma ok_fold:
  "store_ok s \<Longrightarrow> list_all accepts es \<Longrightarrow> store_ok (fold store_insert es s)"
  by (induction es arbitrary: s) (auto simp: store_ok_insert)

lemma events_fold:
  "store_ok s \<Longrightarrow> list_all accepts es \<Longrightarrow>
   store_events (fold store_insert es s) = store_events s @ map persisted es"
  by (induction es arbitrary: s) (auto simp: store_ok_insert store_events_insert)

end

text \<open>A file store whose counters are right and that never rotates.\<close>
definition keeping_store :: "file_system \<times> FileStorage \<Rightarrow> bool" where
  "keeping_store st = (storage_inv (fst st) (snd st) \<and> sto_rotate_max_bytes (snd st) \<le> 0)"

definition storable_line :: "Event \<Rightarrow> bool" where
  "storable_line e = (storable e \<and> one_line e)"

lemma not_due_off: "sto_rotate_max_bytes s \<le> 0 \<Longrightarrow> \<not> rotation_due extra s"
  by (simp add: rotation_due_def)

lemma insert_rotation_frame:
  assumes "storage_inv fs s" "storage_insert e (fs, s) = (fs', s')"
  shows "sto_rotate_max_bytes s' = sto_rotate_max_bytes s"
    "sto_rotate_max_files s' = sto_rotate_max_files s" "sto_path s' = sto_path s"
  using assms
  by (auto simp: storage_insert_ready storage_inv_ready maybe_rotate_locked_def Let_def
           split: if_splits prod.splits)

interpretation file_store: event_store keeping_store
  "\<lambda>st. storage_iterate clk (fst st) (snd st)" storage_insert storable_line
proof unfold_locales
  fix st :: "file_system \<times> FileStorage" and e :: Event
  obtain fs s where st: "st = (fs, s)" by force
  obtain fs' s' where ins: "storage_insert e (fs, s) = (fs', s')" by force
  assume "keeping_store st" "storable_line e"
  then have *: "storage_inv fs s" "sto_rotate_max_bytes s \<le> 0" "one_line e" "storable e"
    by (auto simp: keeping_store_def storable_line_def st)
  note due = not_due_off [OF *(2)]
  show "keeping_store (storage_insert e st)"
    using insert_not_due [OF *(1,3) due ins] insert_rotation_frame [OF *(1) ins] *
    by (simp add: keeping_store_def st ins)
  show "storage_iterate clk (fst (storage_insert e st)) (snd (storage_insert e st)) =
        storage_iterate clk (fst st) (snd st) @ [persisted e]"
    using iterate_insert_not_due [OF *(1,3,4) due ins] by (simp add: st ins)
qed

subsection \<open>Sequences of operations\<close>

datatype storage_op = OpInsert Event | OpPrune int | OpRotation int int

fun storage_step :: "storage_op \<Rightarrow> file_system \<times> FileStorage \<Rightarrow> file_system \<times> FileStorage" where
  "storage_step (OpInsert e) st = storage_insert e st"
| "storage_step (OpPrune n) st = storage_prune n (fst st) (snd st)"
| "storage_step (OpRotation b n) st = (fst st, configure_rotation b n (snd st))"

text \<open>Events without raw line breaks, and pruning to a non-negative number.\<close>
fun op_ok :: "storage_op \<Rightarrow> bool" where
  "op_ok (OpInsert e) = one_line e"
| "op_ok (OpPrune n) = (0 \<le> n)"
| "op_ok (OpRotation b n) = True"

definition store_state_ok :: "file_system \<times> FileStorage \<Rightarrow> bool" where
  "store_state_ok st = (storage_inv (fst st) (snd st) \<and> fs_permits (fst st))"

lemma storage_step_ok [wf_simps]:
  assumes "store_state_ok st" "op_ok opn"
  shows "store_state_ok (storage_step opn st)"
proof -
  obtain fs s where st: "st = (fs, s)" by force
  obtain fs' s' where st': "storage_step opn st = (fs', s')" by force
  have inv: "storage_inv fs s" "fs_permits fs" using assms(1) by (auto simp: store_state_ok_def st)
  show ?thesis
  proof (cases opn)
    case (OpInsert e)
    then have ins: "storage_insert e (fs, s) = (fs', s')" and one: "one_line e"
      using st st' assms(2) by auto
    show ?thesis
    proof (cases "rotation_due (int (length (serialize_event e)) + 1) s")
      case True
      then show ?thesis
        using insert_due [OF inv True ins] by (simp add: store_state_ok_def st')
    next
      case False
      have "fs' = appended (serialize_event e) fs (sto_path s)"
        using ins False unfolding storage_insert_ready [OF storage_inv_ready [OF inv(1)]]
        by (subst (asm) maybe_rotate_not_due) (auto simp: rotation_due_def)
      then have "fs_permits fs'" using inv(2) by (simp add: appended_def)
      then show ?thesis
        using insert_not_due [OF inv(1) one False ins] by (simp add: store_state_ok_def st')
    qed
  next
    case (OpPrune n)
    then have pr: "storage_prune n fs s = (fs', s')" "0 \<le> n" using st st' assms(2) by auto
    show ?thesis
      using prune_result [OF inv pr(2) _ pr(1)] prune_small [of s n fs] pr(1) inv
      by (cases "n < sto_event_count s") (auto simp: store_state_ok_def st')
  next
    case (OpRotation b n)
    then show ?thesis
      using inv st by (simp add: store_state_ok_def configure_rotation_def storage_inv_def storage_ready_def)
  qed
qed

lemma storage_steps_ok:
  "store_state_ok st \<Longrightarrow> list_all op_ok ops \<Longrightarrow> store_state_ok (fold storage_step ops st)"
  by (induction ops arbitrary: st) (auto simp: storage_step_ok)

subsection \<open>Properties\<close>

text \<open>C5: an event whose texts hold no tab, and whose attributes hold no double bar, survives the
  trip through its stored line: reading the line gives the event back, less its id, with the
  time cut to milliseconds and line breaks of values and summary turned into blanks, whatever
  the clock says.\<close>
theorem serialize_round_trip:
  assumes "storable e"
  shows "parse_event now (serialize_event e) = persisted e"
  by (rule parse_serialize [OF assms])

definition sample_event :: Event where
  "sample_event =
     (event_default 1700000000123456789)
       \<lparr> ev_id := 7, ev_category := Network, ev_type := NetworkConnectionOpened,
         ev_source := ''network'', ev_target := ''10.0.0.1:443'',
         ev_attributes := [(''pid'', ''42''), (''state'', ''A|B'')],
         ev_summary := ''open'' @ [nl] @ ''twice'', ev_host := ''h'', ev_platform := ''linux'' \<rparr>"

lemma storable_sample [simp]: "storable sample_event"
  by (simp add: sample_event_def event_default_def storable_def attr_storable_def in_int64_def
      to_unix_ms_def tdiv_def omap_sorted_def)

lemma one_line_sample [simp]: "one_line sample_event"
  by (simp add: sample_event_def event_default_def one_line_def)

lemma serialize_round_trip_witness:
  "parse_event 0 (serialize_event sample_event) = persisted sample_event \<and>
   ev_summary (persisted sample_event) = ''open twice'' \<and>
   ev_timestamp (persisted sample_event) = 1700000000123000000"
  using serialize_round_trip [of sample_event 0]
  by (simp add: persisted_def) (simp add: sample_event_def event_default_def to_unix_ms_def tdiv_def from_unix_ms_def)


definition open_fs :: file_system where
  "open_fs = \<lparr> fs_files = Map.empty, fs_can_write = (\<lambda>_. True), fs_can_rename = (\<lambda>_ _. True),
               fs_can_remove = (\<lambda>_. True) \<rparr>"

definition opened :: "file_system \<times> FileStorage" where
  "opened = (let (fs, s, ok) = storage_open ''e.log'' open_fs new_storage in (fs, s))"

lemma fs_permits_open_fs [simp]: "fs_permits open_fs"
  by (simp add: fs_permits_def open_fs_def)

lemma opened_eq:
  "opened = (set_file ''e.log'' (Some []) open_fs,
     \<lparr> sto_path = ''e.log'', sto_file = attached ''e.log'', sto_bytes_written = 0, sto_event_count = 0,
       sto_rotate_max_bytes = 0, sto_rotate_max_files = 0 \<rparr>)"
  by (simp add: opened_def storage_open_def new_storage_def open_append_def open_fs_def
      attached_def stored_lines_def stream_is_open_def closed_stream_def)

lemma opened_ok [simp]: "keeping_store opened" "store_state_ok opened"
  by (simp_all add: opened_eq keeping_store_def store_state_ok_def storage_inv_def storage_ready_def
      complete_text_def stored_lines_def)


text \<open>whatever sequence of insertions, prunings and rotation settings an open store goes
  through, its in-memory counters stay right: the event count is the number of non-empty lines
  of the file and the byte count is the size of the file.\<close>
theorem storage_counters_exact:
  assumes "store_state_ok st" "list_all op_ok ops"
    and "fold storage_step ops st = (fs, s)"
  shows "storage_count s = int (length (storage_iterate clk fs s)) \<and>
         (\<exists>c. fs_files fs (sto_path s) = Some c \<and> sto_bytes_written s = int (length c))"
proof -
  have "storage_inv fs s"
    using storage_steps_ok [OF assms(1,2)] assms(3) by (simp add: store_state_ok_def)
  then show ?thesis
    by (auto simp: storage_count_def storage_inv_def storage_ready_def storage_iterate_length
             split: option.splits)
qed

lemma storage_counters_exact_witness:
  "\<exists>fs s. fold storage_step [OpRotation 100 2, OpInsert sample_event, OpPrune 0] opened = (fs, s) \<and>
     storage_count s = int (length (storage_iterate (\<lambda>_. 0) fs s))"
proof -
  obtain fs s where st: "fold storage_step [OpRotation 100 2, OpInsert sample_event, OpPrune 0] opened = (fs, s)"
    by (rule prod.exhaust)
  have "list_all op_ok [OpRotation 100 2, OpInsert sample_event, OpPrune 0]" by simp
  from storage_counters_exact [OF opened_ok(2) this st] st show ?thesis by blast
qed

text \<open>C19: after every insertion into a store with rotation on, the active file is smaller than the
  configured size: the line that reaches the limit triggers the rotation.\<close>
theorem rotation_bounds_active_file:
  assumes "store_state_ok (fs, s)" "one_line e" "storage_insert e (fs, s) = (fs', s')"
    and "0 < sto_rotate_max_bytes s" "0 < sto_rotate_max_files s" "sto_path s \<noteq> []"
  shows "\<exists>c. fs_files fs' (sto_path s) = Some c \<and> int (length c) < sto_rotate_max_bytes s"
proof -
  have inv: "storage_inv fs s" "fs_permits fs" using assms(1) by (auto simp: store_state_ok_def)
  show ?thesis
  proof (cases "rotation_due (int (length (serialize_event e)) + 1) s")
    case True
    then show ?thesis using insert_due(5) [OF inv True assms(3)] assms(4) by simp
  next
    case False
    note I = insert_not_due [OF inv(1) assms(2) False assms(3)]
    have "int (length (the (fs_files fs' (sto_path s)))) < sto_rotate_max_bytes s"
      using False assms(4-6) inv(1) I(3) by (auto simp: rotation_due_def storage_inv_def)
    then show ?thesis
      using I(1,2) by (auto simp: storage_inv_def storage_ready_def split: option.splits)
  qed
qed

lemma rotation_bounds_active_file_witness:
  "\<exists>fs' s' c. storage_insert sample_event (fst opened, configure_rotation 60 2 (snd opened)) = (fs', s') \<and>
     fs_files fs' ''e.log'' = Some c \<and> int (length c) < 60"
proof -
  let ?s = "configure_rotation 60 2 (snd opened)"
  obtain fs' s' where ins: "storage_insert sample_event (fst opened, ?s) = (fs', s')"
    by (rule prod.exhaust)
  have "store_state_ok (fst opened, ?s)"
    using storage_step_ok [of opened "OpRotation 60 2"] by simp
  from rotation_bounds_active_file [OF this one_line_sample ins] ins show ?thesis
    by (auto simp: configure_rotation_def opened_eq)
qed

text \<open>C18: a rotation loses only the oldest backup: the full file becomes backup 1, each backup moves
  up by one, files beyond the configured number are untouched and the new active file is empty.\<close>
theorem rotation_shifts_backups:
  assumes "store_state_ok (fs, s)" "storage_insert e (fs, s) = (fs', s')"
    and "rotation_due (int (length (serialize_event e)) + 1) s"
  shows "fs_files fs' (sto_path s) = Some [] \<and>
     fs_files fs' (backup_path (sto_path s) 1) =
       Some (the (fs_files fs (sto_path s)) @ serialize_event e @ [nl]) \<and>
     (\<forall>i \<ge> 1. int i < sto_rotate_max_files s \<longrightarrow>
        fs_files fs' (backup_path (sto_path s) (Suc i)) = fs_files fs (backup_path (sto_path s) i)) \<and>
     (\<forall>i. sto_rotate_max_files s < int i \<longrightarrow>
        fs_files fs' (backup_path (sto_path s) i) = fs_files fs (backup_path (sto_path s) i))"
proof -
  have inv: "storage_inv fs s" "fs_permits fs" using assms(1) by (auto simp: store_state_ok_def)
  note D = insert_due [OF inv assms(3,2)]
  show ?thesis using D(5,6) assms(3) by (auto intro!: D(7,8) simp: rotation_due_def nat_less_iff)
qed

lemma length_serialize_sample: "60 \<le> length (serialize_event sample_event)"
  by (simp add: serialize_event_def sample_event_def event_default_def attrs_line_Cons attr_text_def)

lemma rotation_shifts_backups_witness:
  "\<exists>fs' s'. storage_insert sample_event (fst opened, configure_rotation 60 2 (snd opened)) = (fs', s') \<and>
     fs_files fs' ''e.log'' = Some [] \<and>
     fs_files fs' (backup_path ''e.log'' 1) = Some (serialize_event sample_event @ [nl])"
proof -
  let ?s = "configure_rotation 60 2 (snd opened)"
  obtain fs' s' where ins: "storage_insert sample_event (fst opened, ?s) = (fs', s')"
    by (rule prod.exhaust)
  have due: "rotation_due (int (length (serialize_event sample_event)) + 1) ?s"
    using length_serialize_sample
    by (simp add: rotation_due_def configure_rotation_def opened_eq)
  have "store_state_ok (fst opened, ?s)"
    using storage_step_ok [of opened "OpRotation 60 2"] by simp
  from rotation_shifts_backups [OF this ins due] ins show ?thesis
    by (simp add: configure_rotation_def opened_eq)
qed

text \<open>C20: pruning to \<open>n\<close> events keeps exactly the newest \<open>n\<close> lines, in order, and leaves the store
  open with right counters.\<close>
theorem prune_keeps_newest:
  assumes "store_state_ok (fs, s)" "0 \<le> n" "storage_prune n fs s = (fs', s')"
  shows "stored_lines fs' (sto_path s) = take_last (nat n) (stored_lines fs (sto_path s)) \<and>
         store_state_ok (fs', s') \<and> storage_count s' = min n (storage_count s)"
proof (cases "n < sto_event_count s")
  case True
  have inv: "storage_inv fs s" "fs_permits fs" using assms(1) by (auto simp: store_state_ok_def)
  show ?thesis
    using prune_result [OF inv assms(2) True assms(3)] True
    by (simp add: store_state_ok_def storage_count_def)
next
  case False
  then have "fs' = fs" "s' = s" using assms(3) by (auto simp: prune_small)
  with False assms(1) show ?thesis
    by (auto simp: store_state_ok_def storage_inv_def storage_count_def)
qed

lemma prune_keeps_newest_witness:
  "\<exists>fs s fs' s'. storage_step (OpInsert sample_event) opened = (fs, s) \<and>
     storage_prune 0 fs s = (fs', s') \<and> stored_lines fs' (sto_path s) = [] \<and> storage_count s' = min 0 (storage_count s)"
proof -
  obtain fs s where st: "storage_step (OpInsert sample_event) opened = (fs, s)"
    by (rule prod.exhaust)
  obtain fs' s' where pr: "storage_prune 0 fs s = (fs', s')"
    by (rule prod.exhaust)
  have "store_state_ok (fs, s)"
    using storage_step_ok [of opened "OpInsert sample_event"] st by simp
  from prune_keeps_newest [OF this _ pr] st pr show ?thesis by (fastforce simp: take_last_def)
qed

text \<open>C21: a query returns the matching events of the scan, in file order, without the first
  \<open>offset\<close> and at most \<open>limit\<close> of them; a limit of zero or less is treated as one.\<close>
theorem query_selects:
  "storage_query f clk fs s =
   take (max 1 (nat (qf_limit f)))
     (drop (nat (qf_offset f)) (filter (query_match f) (storage_iterate clk fs s)))"
  by (simp add: storage_query_def storage_iterate_def query_loop_spec [OF _ refl] split: option.splits)

text \<open>A line break in the source, target, host or platform splits the record in two lines, none of
  which is the event.\<close>
lemma line_break_splits_record:
  "stored_lines (fst (storage_insert (sample_event\<lparr>ev_target := ''a'' @ [nl] @ ''b''\<rparr>) opened)) ''e.log'' =
     [int_str 1700000000123 @ tab # ''network'' @ tab # ''network_connection_opened'' @ tab #
        ''network'' @ tab # ''a'',
      ''b'' @ tab # ''h'' @ tab # ''linux'' @ tab # ''pid=42||state=A|B'' @ tab # ''open twice'']"
proof -
  have n: "nl \<notin> set (int_str 1700000000123)"
    using int_str_chars isdigit_not by fastforce
  have "getlines (int_str 1700000000123 @ tab # ''network'' @ tab # ''network_connection_opened'' @ tab #
        ''network'' @ tab # ''a'' @ nl # ''b'' @ tab # ''h'' @ tab # ''linux'' @ tab # ''pid=42||state=A|B'' @ tab # ''open twice'' @ [nl]) =
     [int_str 1700000000123 @ tab # ''network'' @ tab # ''network_connection_opened'' @ tab #
        ''network'' @ tab # ''a'',
      ''b'' @ tab # ''h'' @ tab # ''linux'' @ tab # ''pid=42||state=A|B'' @ tab # ''open twice'']"
    using n getline_split_append [of nl "int_str 1700000000123 @ tab # ''network'' @ tab # ''network_connection_opened'' @ tab #
        ''network'' @ tab # ''a''"] by simp
  then show ?thesis
    by (simp add: storage_insert_ready opened_eq storage_ready_def complete_text_def maybe_rotate_locked_def
        appended_def stored_lines_def serialize_event_def sample_event_def event_default_def
        to_unix_ms_def tdiv_def attrs_line_Cons attr_text_def)
qed

text \<open>The filter's \<open>category\<close> and \<open>source\<close> are ignored by the query.\<close>
lemma query_ignores_category_and_source:
  "storage_query (f\<lparr>qf_category := c, qf_source := src\<rparr>) clk fs s = storage_query f clk fs s"
proof -
  have "query_match (f\<lparr>qf_category := c, qf_source := src\<rparr>) = query_match f"
    by (simp add: fun_eq_iff query_match_def)
  then show ?thesis
    unfolding storage_query_def by (simp add: query_loop_spec [OF _ refl] split: option.splits)
qed
end
