(* ===== verification/Interfaces.thy ===== *)
theory Interfaces
  imports Cpp_String
begin

text \<open>
  The contracts several components share, as locales: a registry of named rules
  (alert rules, filter rules, security rules, webhooks), a log of bounded length
  (alerts, security events, delivery results, recent events), and the regular
  expression engine the program is compiled against.  Each component interprets
  the locales on its own operations.
\<close>

subsection \<open>Regular expressions\<close>

text \<open>
  \<open>std::regex(pattern, ECMAScript | icase)\<close> and \<open>std::regex_search\<close>.  A pattern
  that raises \<open>std::regex_error\<close> compiles to \<^const>\<open>None\<close>.  The compiled form is a
  type of its own, because the program stores it.
\<close>
record 're regex_lib =
  re_compile :: "string \<Rightarrow> 're option"
  re_search :: "'re \<Rightarrow> string \<Rightarrow> bool"

text \<open>An engine for examples: a pattern is a text that has to occur literally.\<close>
definition literal_regex :: "string regex_lib" where
  "literal_regex =
     \<lparr> re_compile = (\<lambda>p. if p = ''('' then None else Some p),
       re_search = (\<lambda>p s. contains s p) \<rparr>"

subsection \<open>Bounded logs\<close>

text \<open>\<open>push_back\<close>, then erase from the front what exceeds the capacity.\<close>
definition push_bounded :: "nat \<Rightarrow> 'a \<Rightarrow> 'a list \<Rightarrow> 'a list" where
  "push_bounded cap x xs =
     (let ys = xs @ [x] in if length ys > cap then drop (length ys - cap) ys else ys)"

lemma push_bounded_eq: "push_bounded cap x xs = take_last cap (xs @ [x])"
  by (simp add: push_bounded_def take_last_def Let_def)

locale bounded_log =
  fixes cap :: nat
    and push :: "'a \<Rightarrow> 'a list \<Rightarrow> 'a list"
  assumes push_eq: "push x xs = take_last cap (xs @ [x])"
begin

lemma length_push: "length (push x xs) = min cap (Suc (length xs))"
  by (simp add: push_eq)

lemma length_push_le: "length (push x xs) \<le> cap"
  by (simp add: push_eq)

lemma push_last: "0 < cap \<Longrightarrow> push x xs \<noteq> [] \<and> last (push x xs) = x"
  by (simp add: push_eq take_last_nonempty last_take_last)

lemma fold_push: "fold push ys (take_last cap xs) = take_last cap (xs @ ys)"
proof (induction ys arbitrary: xs)
  case (Cons y ys)
  have "push y (take_last cap xs) = take_last cap (xs @ [y])"
    by (simp add: push_eq take_last_snoc)
  then show ?case using Cons.IH [of "xs @ [y]"] by simp
qed simp

lemma fold_push_Nil: "fold push ys [] = take_last cap ys"
  using fold_push [of ys "[]"] by simp

end

subsection \<open>Registries of named rules\<close>

text \<open>
  \<open>add_rule\<close> replaces a rule of the same name, \<open>remove_rule\<close> deletes it and
  \<open>enable_rule\<close> sets its flag.  \<open>prep\<close> is what the registry stores for a rule that is
  added.  The order of the rules is the provider's.
\<close>
locale named_registry =
  fixes rules_of :: "'s \<Rightarrow> 'r list"
    and rule_name_of :: "'r \<Rightarrow> string"
    and prep :: "'r \<Rightarrow> 'r"
    and with_enabled :: "bool \<Rightarrow> 'r \<Rightarrow> 'r"
    and add :: "'r \<Rightarrow> 's \<Rightarrow> 's"
    and remove :: "string \<Rightarrow> 's \<Rightarrow> 's"
    and enable :: "string \<Rightarrow> bool \<Rightarrow> 's \<Rightarrow> 's"
  assumes name_prep: "rule_name_of (prep r) = rule_name_of r"
    and name_enabled: "rule_name_of (with_enabled b r) = rule_name_of r"
    and add_set: "distinct (map rule_name_of (rules_of s)) \<Longrightarrow>
          set (rules_of (add r s)) = insert (prep r) {x \<in> set (rules_of s). rule_name_of x \<noteq> rule_name_of r}"
    and add_distinct: "distinct (map rule_name_of (rules_of s)) \<Longrightarrow>
          distinct (map rule_name_of (rules_of (add r s)))"
    and remove_rules: "rules_of (remove n s) = filter (\<lambda>x. rule_name_of x \<noteq> n) (rules_of s)"
    and enable_rules: "distinct (map rule_name_of (rules_of s)) \<Longrightarrow>
          rules_of (enable n b s) =
          map (\<lambda>x. if rule_name_of x = n then with_enabled b x else x) (rules_of s)"
begin

definition registered :: "'s \<Rightarrow> bool" where
  "registered s = distinct (map rule_name_of (rules_of s))"

definition rule_at :: "'s \<Rightarrow> string \<Rightarrow> 'r option" where
  "rule_at s n = find (\<lambda>r. rule_name_of r = n) (rules_of s)"

lemma rule_at_iff:
  assumes "registered s"
  shows "rule_at s n = Some r \<longleftrightarrow> r \<in> set (rules_of s) \<and> rule_name_of r = n"
proof -
  have *: "distinct (map rule_name_of rs) \<Longrightarrow>
      find (\<lambda>r. rule_name_of r = n) rs = Some r \<longleftrightarrow> r \<in> set rs \<and> rule_name_of r = n" for rs
    by (induction rs) (auto simp: image_iff)
  show ?thesis using * assms by (simp add: rule_at_def registered_def)
qed

lemma rule_at_ext:
  assumes "registered s" "registered s'"
    and "\<And>r. rule_name_of r = n \<Longrightarrow> r \<in> set (rules_of s) \<longleftrightarrow> r \<in> set (rules_of s')"
  shows "rule_at s n = rule_at s' n"
  using rule_at_iff [OF assms(1)] rule_at_iff [OF assms(2)] assms(3)
  by (metis not_None_eq)

lemma registered_add: "registered s \<Longrightarrow> registered (add r s)"
  by (simp add: registered_def add_distinct)

lemma registered_remove: "registered s \<Longrightarrow> registered (remove n s)"
  by (simp add: registered_def remove_rules distinct_map_filter_fst)

lemma registered_enable: "registered s \<Longrightarrow> registered (enable n b s)"
  by (simp add: registered_def enable_rules comp_def name_enabled if_distrib cong: if_cong)

lemma rule_at_add:
  assumes "registered s"
  shows "rule_at (add r s) n = (if n = rule_name_of r then Some (prep r) else rule_at s n)"
proof (cases "n = rule_name_of r")
  case True
  have "rule_at (add r s) n = Some (prep r)"
    using add_set [OF assms [unfolded registered_def], of r] True
    by (simp add: rule_at_iff [OF registered_add [OF assms]] name_prep)
  with True show ?thesis by simp
next
  case False
  have "rule_at (add r s) n = rule_at s n"
    using assms False
    by (intro rule_at_ext) (auto simp: registered_add add_set [OF assms [unfolded registered_def]] name_prep)
  with False show ?thesis by simp
qed

lemma rule_at_remove:
  assumes "registered s"
  shows "rule_at (remove n s) m = (if m = n then None else rule_at s m)"
proof (cases "m = n")
  case True
  then show ?thesis
    by (auto simp: rule_at_def remove_rules find_None_iff)
next
  case False
  have "rule_at (remove n s) m = rule_at s m"
    using assms False by (intro rule_at_ext) (auto simp: registered_remove remove_rules)
  with False show ?thesis by simp
qed

lemma rule_at_enable:
  assumes "registered s"
  shows "rule_at (enable n b s) m =
         (if m = n then map_option (with_enabled b) (rule_at s m) else rule_at s m)"
proof -
  have *: "find (\<lambda>r. rule_name_of r = m) (map (\<lambda>x. if rule_name_of x = n then with_enabled b x else x) rs) =
        (if m = n then map_option (with_enabled b) (find (\<lambda>r. rule_name_of r = m) rs)
         else find (\<lambda>r. rule_name_of r = m) rs)" for rs
    by (induction rs) (auto simp: name_enabled)
  show ?thesis
    using assms * by (simp add: rule_at_def registered_def enable_rules)
qed

lemma add_overwrites:
  assumes "registered s" "rule_name_of r = rule_name_of r'"
  shows "rule_at (add r' (add r s)) n = rule_at (add r' s) n"
  using assms by (simp add: rule_at_add registered_add)

end

text \<open>Replacing the first element that satisfies a predicate, or appending: the body of \<open>add_rule\<close>.\<close>
fun replace_first :: "('a \<Rightarrow> bool) \<Rightarrow> 'a \<Rightarrow> 'a list \<Rightarrow> 'a list" where
  "replace_first P y [] = [y]"
| "replace_first P y (x # xs) = (if P x then y # xs else x # replace_first P y xs)"

text \<open>Updating the first element that satisfies a predicate: the body of \<open>enable_rule\<close>.\<close>
fun update_first :: "('a \<Rightarrow> bool) \<Rightarrow> ('a \<Rightarrow> 'a) \<Rightarrow> 'a list \<Rightarrow> 'a list" where
  "update_first P f [] = []"
| "update_first P f (x # xs) = (if P x then f x # xs else x # update_first P f xs)"

lemma replace_first_named:
  assumes "distinct (map nm xs)" "nm y = n"
  shows "set (replace_first (\<lambda>x. nm x = n) y xs) = insert y {x \<in> set xs. nm x \<noteq> n}"
    and "distinct (map nm (replace_first (\<lambda>x. nm x = n) y xs))"
    and "nm ` set (replace_first (\<lambda>x. nm x = n) y xs) = insert n (nm ` set xs)"
  using assms
proof (induction xs)
  case (Cons x xs)
  { case 1 with Cons show ?case by (cases "nm x = n") (auto simp: image_iff dest: bspec) }
  { case 2 with Cons show ?case by (cases "nm x = n") auto }
  { case 3 with Cons show ?case by (cases "nm x = n") auto }
qed auto

lemma update_first_named:
  assumes "distinct (map nm xs)"
  shows "update_first (\<lambda>x. nm x = n) f xs = map (\<lambda>x. if nm x = n then f x else x) xs"
  using assms
proof (induction xs)
  case (Cons x xs)
  show ?case
  proof (cases "nm x = n")
    case True
    then have "map (\<lambda>x. if nm x = n then f x else x) xs = xs"
      using Cons.prems by (intro map_idI) (auto simp: image_iff)
    with True show ?thesis by simp
  qed (use Cons in simp)
qed simp

lemma map_update_first:
  "(\<And>x. g (f x) = g x) \<Longrightarrow> map g (update_first P f xs) = map g xs"
  by (induction xs) auto

end
