(* ===== verification/Alert_Manager.thy ===== *)
theory Alert_Manager
  imports Core_Event Interfaces "HOL-Library.Sublist"
begin

text \<open>
  \<open>alert/alert_manager.h\<close> and \<open>alert/alert_manager.cpp\<close>: alert rules with a
  threshold over a sliding window and a cooldown, the alert history and the
  message templates.

  \<^item> A rule's compiled patterns have the type \<open>'re\<close> of the regular expression engine.
  \<^item> The callbacks act on a state \<open>'w\<close> of their own; an exception they throw is
    caught by the manager, so a callback is a function on that state.
  \<^item> One iteration of the loop of \<open>process_event\<close> reads the clock up to three times;
    the record \<open>alert_clock\<close> holds the readings and \<open>clk i\<close> those of iteration \<open>i\<close>.
  \<^item> The replacement loops of \<open>format_message\<close> may not end; a result of \<^const>\<open>None\<close> is a
    call that does not return.
\<close>

datatype AlertSeverity = Info | Warning | Critical | Emergency

fun severity_name :: "AlertSeverity \<Rightarrow> string" where
  "severity_name Info = ''INFO''"
| "severity_name Warning = ''WARNING''"
| "severity_name Critical = ''CRITICAL''"
| "severity_name Emergency = ''EMERGENCY''"

record Alert =
  al_id :: u64
  al_timestamp :: timestamp
  al_rule_name :: string
  al_message :: string
  al_severity :: AlertSeverity
  al_trigger_event :: Event
  al_acknowledged :: bool
  al_metadata :: "(string, string) omap"

record 're AlertRule =
  ar_name :: string
  ar_description :: string
  ar_enabled :: bool
  ar_severity :: AlertSeverity
  ar_categories :: "EventCategory list"
  ar_types :: "EventType list"
  ar_source_pattern :: string
  ar_target_pattern :: string
  ar_summary_pattern :: string
  ar_threshold_count :: int
  ar_threshold_window_ms :: int
  ar_cooldown_ms :: int
  ar_custom_condition :: "(Event \<Rightarrow> bool) option"
  ar_message_template :: string
  ar_compiled_source :: "'re option"
  ar_compiled_target :: "'re option"
  ar_compiled_summary :: "'re option"

text \<open>The rule with the initialisers of the struct.\<close>
definition default_alert_rule :: "'re AlertRule" where
  "default_alert_rule =
     \<lparr> ar_name = [], ar_description = [], ar_enabled = True, ar_severity = Warning,
       ar_categories = [], ar_types = [], ar_source_pattern = [], ar_target_pattern = [],
       ar_summary_pattern = [], ar_threshold_count = 1, ar_threshold_window_ms = 60000,
       ar_cooldown_ms = 300000, ar_custom_condition = None, ar_message_template = [],
       ar_compiled_source = None, ar_compiled_target = None, ar_compiled_summary = None \<rparr>"

record ('re, 'w) AlertManager =
  am_rules :: "'re AlertRule list"
  am_alerts :: "Alert list"
  am_callbacks :: "(Alert \<Rightarrow> 'w \<Rightarrow> 'w) list"
  am_rule_events :: "(string, timestamp list) omap"
  am_last_triggered :: "(string, timestamp) omap"
  am_next_alert_id :: u64

definition new_alert_manager :: "('re, 'w) AlertManager" where
  "new_alert_manager =
     \<lparr> am_rules = [], am_alerts = [], am_callbacks = [], am_rule_events = [],
       am_last_triggered = [], am_next_alert_id = 1 \<rparr>"

subsection \<open>Rule management\<close>

text \<open>A pattern that is empty, or that does not compile, leaves the compiled form as it was.\<close>
definition precompile :: "'re regex_lib \<Rightarrow> string \<Rightarrow> 're option \<Rightarrow> 're option" where
  "precompile rx pat old =
     (if pat = [] then old
      else (case re_compile rx pat of Some re \<Rightarrow> Some re | None \<Rightarrow> old))"

definition compile_alert_rule :: "'re regex_lib \<Rightarrow> 're AlertRule \<Rightarrow> 're AlertRule" where
  "compile_alert_rule rx r =
     r\<lparr>ar_compiled_source := precompile rx (ar_source_pattern r) (ar_compiled_source r),
       ar_compiled_target := precompile rx (ar_target_pattern r) (ar_compiled_target r),
       ar_compiled_summary := precompile rx (ar_summary_pattern r) (ar_compiled_summary r)\<rparr>"

definition alert_add_rule :: "'re regex_lib \<Rightarrow> 're AlertRule \<Rightarrow> ('re, 'w) AlertManager \<Rightarrow> ('re, 'w) AlertManager" where
  "alert_add_rule rx rule am =
     (let r = compile_alert_rule rx rule in
      am\<lparr>am_rules := replace_first (\<lambda>x. ar_name x = ar_name r) r (am_rules am)\<rparr>)"

definition alert_remove_rule :: "string \<Rightarrow> ('re, 'w) AlertManager \<Rightarrow> ('re, 'w) AlertManager" where
  "alert_remove_rule name am =
     am\<lparr>am_rules := filter (\<lambda>r. ar_name r \<noteq> name) (am_rules am),
        am_rule_events := omap_erase name (am_rule_events am),
        am_last_triggered := omap_erase name (am_last_triggered am)\<rparr>"

definition alert_enable_rule :: "string \<Rightarrow> bool \<Rightarrow> ('re, 'w) AlertManager \<Rightarrow> ('re, 'w) AlertManager" where
  "alert_enable_rule name enabled am =
     am\<lparr>am_rules := update_first (\<lambda>r. ar_name r = name) (ar_enabled_update (\<lambda>_. enabled)) (am_rules am)\<rparr>"

definition alert_get_rules :: "('re, 'w) AlertManager \<Rightarrow> 're AlertRule list" where
  "alert_get_rules am = am_rules am"

definition alert_clear_rules :: "('re, 'w) AlertManager \<Rightarrow> ('re, 'w) AlertManager" where
  "alert_clear_rules am = am\<lparr>am_rules := [], am_rule_events := [], am_last_triggered := []\<rparr>"

definition on_alert :: "(Alert \<Rightarrow> 'w \<Rightarrow> 'w) \<Rightarrow> ('re, 'w) AlertManager \<Rightarrow> ('re, 'w) AlertManager" where
  "on_alert cb am = am\<lparr>am_callbacks := am_callbacks am @ [cb]\<rparr>"

subsection \<open>Matching\<close>

definition regex_passes :: "'re regex_lib \<Rightarrow> 're option \<Rightarrow> string \<Rightarrow> bool" where
  "regex_passes rx re s = (case re of None \<Rightarrow> True | Some r \<Rightarrow> re_search rx r s)"

definition alert_matches_rule :: "'re regex_lib \<Rightarrow> 're AlertRule \<Rightarrow> Event \<Rightarrow> bool" where
  "alert_matches_rule rx rule e =
     (if ar_categories rule \<noteq> [] \<and> ev_category e \<notin> set (ar_categories rule) then False
      else if ar_types rule \<noteq> [] \<and> ev_type e \<notin> set (ar_types rule) then False
      else if \<not> regex_passes rx (ar_compiled_source rule) (ev_source e) then False
      else if \<not> regex_passes rx (ar_compiled_target rule) (ev_target e) then False
      else if \<not> regex_passes rx (ar_compiled_summary rule) (ev_summary e) then False
      else (case ar_custom_condition rule of None \<Rightarrow> True | Some f \<Rightarrow> f e))"

subsection \<open>Messages\<close>

text \<open>\<open>while ((pos = result.find(pat)) != npos) result.replace(pos, len, val)\<close>\<close>
partial_function (option) replace_loop :: "string \<Rightarrow> nat \<Rightarrow> string \<Rightarrow> string \<Rightarrow> string option" where
  "replace_loop pat len val s =
     (case find_str pat s of
        None \<Rightarrow> Some s
      | Some pos \<Rightarrow> replace_loop pat len val (replace_at s pos len val))"

definition format_message :: "string \<Rightarrow> Event \<Rightarrow> 're AlertRule \<Rightarrow> string option" where
  "format_message tmpl e rule =
     (if tmpl = [] then Some (''Alert triggered for event: '' @ ev_summary e)
      else Option.bind (replace_loop ''{{source}}'' 10 (ev_source e) tmpl)
        (\<lambda>r1. Option.bind (replace_loop ''{{target}}'' 10 (ev_target e) r1)
        (\<lambda>r2. Option.bind (replace_loop ''{{summary}}'' 11 (ev_summary e) r2)
        (\<lambda>r3. Option.bind (replace_loop ''{{category}}'' 12 (category_name (ev_category e)) r3)
        (\<lambda>r4. Option.bind (replace_loop ''{{type}}'' 8 (type_name (ev_type e)) r4)
        (\<lambda>r5. Option.bind (replace_loop ''{{threshold_count}}'' 20 (int_str (ar_threshold_count rule)) r5)
        (\<lambda>r6. replace_loop ''{{threshold_window_ms}}'' 24 (int_str (ar_threshold_window_ms rule)) r6)))))))"

subsection \<open>Event processing\<close>

record alert_clock =
  ac_threshold :: timestamp
  ac_cooldown :: timestamp
  ac_alert :: timestamp

definition of_ms :: "int \<Rightarrow> int" where
  "of_ms n = n * 1000000"

definition is_in_cooldown :: "timestamp \<Rightarrow> string \<Rightarrow> ('re, 'w) AlertManager \<Rightarrow> bool" where
  "is_in_cooldown now name am =
     (case map_of (am_last_triggered am) name of
        None \<Rightarrow> False
      | Some t \<Rightarrow>
          (case find (\<lambda>r. ar_name r = name) (am_rules am) of
             None \<Rightarrow> False
           | Some r \<Rightarrow> tdiv (now - t) 1000000 < ar_cooldown_ms r))"

definition kMaxAlerts :: nat where
  "kMaxAlerts = 10000"

text \<open>The history with one more alert: what exceeds the maximum is erased from the front.\<close>
definition push_alert :: "Alert \<Rightarrow> Alert list \<Rightarrow> Alert list" where
  "push_alert a as = push_bounded kMaxAlerts a as"

definition trigger_alert ::
    "timestamp \<Rightarrow> 're AlertRule \<Rightarrow> Event \<Rightarrow> ('re, 'w) AlertManager \<times> 'w \<Rightarrow> (('re, 'w) AlertManager \<times> 'w) option" where
  "trigger_alert now rule e = (\<lambda>(am, w).
     (case format_message (ar_message_template rule) e rule of
        None \<Rightarrow> None
      | Some msg \<Rightarrow>
          (let a = \<lparr> al_id = am_next_alert_id am, al_timestamp = now, al_rule_name = ar_name rule,
                     al_message = msg, al_severity = ar_severity rule, al_trigger_event = e,
                     al_acknowledged = False, al_metadata = [] \<rparr>;
               am1 = am\<lparr>am_next_alert_id := am_next_alert_id am + 1,
                        am_alerts := push_alert a (am_alerts am),
                        am_last_triggered := omap_update (ar_name rule) now (am_last_triggered am)\<rparr>
           in Some (am1, fold (\<lambda>cb. cb a) (am_callbacks am) w))))"

text \<open>One iteration of the loop over the copied rules.\<close>
definition alert_process_rule ::
    "'re regex_lib \<Rightarrow> alert_clock \<Rightarrow> Event \<Rightarrow> 're AlertRule \<Rightarrow> ('re, 'w) AlertManager \<times> 'w \<Rightarrow>
     (('re, 'w) AlertManager \<times> 'w) option" where
  "alert_process_rule rx c e rule = (\<lambda>(am, w).
     (if \<not> ar_enabled rule then Some (am, w)
      else if \<not> alert_matches_rule rx rule e then Some (am, w)
      else
        (let n = ar_name rule;
             events = omap_get [] (am_rule_events am) n @ [ev_timestamp e];
             cutoff = ac_threshold c - of_ms (ar_threshold_window_ms rule);
             kept = filter (\<lambda>t. \<not> t < cutoff) events;
             am1 = am\<lparr>am_rule_events := omap_update n kept (am_rule_events am)\<rparr>;
             should_trigger = (int (length kept) \<ge> ar_threshold_count rule)
         in if should_trigger \<and> \<not> is_in_cooldown (ac_cooldown c) n am1
            then trigger_alert (ac_alert c) rule e (am1, w)
            else Some (am1, w))))"

fun alert_process_rules ::
    "'re regex_lib \<Rightarrow> (nat \<Rightarrow> alert_clock) \<Rightarrow> nat \<Rightarrow> Event \<Rightarrow> 're AlertRule list \<Rightarrow>
     ('re, 'w) AlertManager \<times> 'w \<Rightarrow> (('re, 'w) AlertManager \<times> 'w) option" where
  "alert_process_rules rx clk i e [] st = Some st"
| "alert_process_rules rx clk i e (r # rs) st =
     Option.bind (alert_process_rule rx (clk i) e r st) (alert_process_rules rx clk (Suc i) e rs)"

definition alert_process_event ::
    "'re regex_lib \<Rightarrow> (nat \<Rightarrow> alert_clock) \<Rightarrow> Event \<Rightarrow> ('re, 'w) AlertManager \<times> 'w \<Rightarrow>
     (('re, 'w) AlertManager \<times> 'w) option" where
  "alert_process_event rx clk e st = alert_process_rules rx clk 0 e (am_rules (fst st)) st"

subsection \<open>The alert history\<close>

definition get_active_alerts :: "('re, 'w) AlertManager \<Rightarrow> Alert list" where
  "get_active_alerts am = filter (\<lambda>a. \<not> al_acknowledged a) (am_alerts am)"

definition get_alerts :: "int \<Rightarrow> int \<Rightarrow> ('re, 'w) AlertManager \<Rightarrow> Alert list" where
  "get_alerts from_ms to_ms am =
     filter (\<lambda>a. let ts = to_unix_ms (al_timestamp a) in
               \<not> (from_ms > 0 \<and> ts < from_ms) \<and> \<not> (to_ms > 0 \<and> ts > to_ms)) (am_alerts am)"

definition acknowledge_alert :: "u64 \<Rightarrow> ('re, 'w) AlertManager \<Rightarrow> ('re, 'w) AlertManager" where
  "acknowledge_alert i am =
     am\<lparr>am_alerts := update_first (\<lambda>a. al_id a = i) (al_acknowledged_update (\<lambda>_. True)) (am_alerts am)\<rparr>"

definition clear_alerts :: "('re, 'w) AlertManager \<Rightarrow> ('re, 'w) AlertManager" where
  "clear_alerts am = am\<lparr>am_alerts := []\<rparr>"

definition total_alerts :: "('re, 'w) AlertManager \<Rightarrow> nat" where
  "total_alerts am = length (am_alerts am)"

definition active_alerts_count :: "('re, 'w) AlertManager \<Rightarrow> nat" where
  "active_alerts_count am = length (filter (\<lambda>a. \<not> al_acknowledged a) (am_alerts am))"

subsection \<open>Predefined rules\<close>

definition high_cpu_usage :: "'re AlertRule" where
  "high_cpu_usage = default_alert_rule
     \<lparr> ar_name := ''high_cpu_usage'',
       ar_description := ''Triggered when a process uses high CPU'',
       ar_severity := Warning,
       ar_types := [ProcessCpuSpike],
       ar_threshold_count := 3,
       ar_threshold_window_ms := 60000,
       ar_cooldown_ms := 300000,
       ar_message_template := ''High CPU usage detected: {{source}} - {{summary}}'' \<rparr>"

definition suspicious_process :: "'re AlertRule" where
  "suspicious_process = default_alert_rule
     \<lparr> ar_name := ''suspicious_process'',
       ar_description := ''Triggered when suspicious process activity is detected'',
       ar_severity := Critical,
       ar_categories := [Process],
       ar_source_pattern := ''(nc|netcat|ncat|nmap|wireshark|tcpdump)'',
       ar_threshold_count := 1,
       ar_cooldown_ms := 600000,
       ar_message_template := ''Suspicious process detected: {{source}}'' \<rparr>"

definition critical_file_change :: "'re AlertRule" where
  "critical_file_change = default_alert_rule
     \<lparr> ar_name := ''critical_file_change'',
       ar_description := ''Triggered when critical system files are modified'',
       ar_severity := Critical,
       ar_types := [FileModified, FileDeleted],
       ar_target_pattern := ''(/etc/passwd|/etc/shadow|/etc/sudoers|/etc/ssh/sshd_config)'',
       ar_threshold_count := 1,
       ar_cooldown_ms := 60000,
       ar_message_template := ''Critical file changed: {{target}}'' \<rparr>"

definition network_anomaly :: "'re AlertRule" where
  "network_anomaly = default_alert_rule
     \<lparr> ar_name := ''network_anomaly'',
       ar_description := ''Triggered when unusual network activity is detected'',
       ar_severity := Warning,
       ar_categories := [Network],
       ar_types := [NetworkConnectionOpened],
       ar_threshold_count := 50,
       ar_threshold_window_ms := 10000,
       ar_cooldown_ms := 300000,
       ar_message_template :=
         ''Network anomaly: {{threshold_count}} connections in {{threshold_window_ms}}ms'' \<rparr>"

definition config_tampering :: "'re AlertRule" where
  "config_tampering = default_alert_rule
     \<lparr> ar_name := ''config_tampering'',
       ar_description := ''Triggered when system configuration is modified'',
       ar_severity := Critical,
       ar_categories := [SystemConfig],
       ar_threshold_count := 1,
       ar_cooldown_ms := 60000,
       ar_message_template := ''System configuration changed: {{summary}}'' \<rparr>"

definition rapid_file_changes :: "'re AlertRule" where
  "rapid_file_changes = default_alert_rule
     \<lparr> ar_name := ''rapid_file_changes'',
       ar_description := ''Triggered when many file changes occur rapidly'',
       ar_severity := Warning,
       ar_categories := [Filesystem],
       ar_threshold_count := 100,
       ar_threshold_window_ms := 5000,
       ar_cooldown_ms := 300000,
       ar_message_template :=
         ''Rapid file changes detected: {{threshold_count}} changes in {{threshold_window_ms}}ms'' \<rparr>"

subsection \<open>Registry and history\<close>

definition am_wf :: "('re, 'w) AlertManager \<Rightarrow> bool" where
  "am_wf am = (distinct (map ar_name (am_rules am)) \<and> omap_sorted (am_rule_events am) \<and>
               omap_sorted (am_last_triggered am))"

lemma ar_name_compile [simp]: "ar_name (compile_alert_rule rx r) = ar_name r"
  by (simp add: compile_alert_rule_def)

interpretation alert_registry: named_registry
  am_rules ar_name "compile_alert_rule rx" "\<lambda>b. ar_enabled_update (\<lambda>_. b)"
  "alert_add_rule rx" alert_remove_rule alert_enable_rule
  by unfold_locales
     (simp_all add: alert_add_rule_def alert_remove_rule_def alert_enable_rule_def Let_def
       replace_first_named update_first_named)

interpretation alert_history: bounded_log kMaxAlerts push_alert
  by unfold_locales (simp add: push_alert_def push_bounded_eq)

lemma am_wf_ops [wf_simps]:
  "am_wf new_alert_manager"
  "am_wf am \<Longrightarrow> am_wf (alert_add_rule rx r am)"
  "am_wf am \<Longrightarrow> am_wf (alert_remove_rule n am)"
  "am_wf am \<Longrightarrow> am_wf (alert_enable_rule n b am)"
  "am_wf (alert_clear_rules am)"
  by (simp_all add: am_wf_def new_alert_manager_def alert_clear_rules_def alert_add_rule_def Let_def
      alert_remove_rule_def alert_enable_rule_def replace_first_named distinct_map_filter_fst map_update_first)

subsection \<open>The replacement loops\<close>

lemma replace_loop_None_found:
  "find_str pat s = None \<Longrightarrow> replace_loop pat len val s = Some s"
  by (simp add: replace_loop.simps)

lemma replace_loop_step:
  "find_str pat s = Some i \<Longrightarrow> replace_loop pat len val s = replace_loop pat len val (replace_at s i len val)"
  by (subst replace_loop.simps) simp

lemma count_list_drop_le: "count_list (drop n xs) c \<le> count_list xs c"
  by (induction xs arbitrary: n) (auto simp: drop_Cons split: nat.splits intro: le_SucI)

text \<open>A value without a brace shortens the work by the braces of the placeholder it replaces.\<close>
lemma replace_loop_terminates:
  assumes "CHR ''{'' \<notin> set val" "CHR ''{'' \<in> set pat" "length pat \<le> len"
  shows "\<exists>r. replace_loop pat len val s = Some r \<and> \<not> contains r pat"
proof (induction "count_list s (CHR ''{'')" arbitrary: s rule: less_induct)
  case less
  show ?case
  proof (cases "find_str pat s")
    case None
    then show ?thesis by (auto simp: replace_loop_None_found contains_def)
  next
    case (Some i)
    let ?t = "replace_at s i len val"
    have "count_list s (CHR ''{'') =
          count_list (take i s) (CHR ''{'') + count_list pat (CHR ''{'') +
          count_list (drop (i + length pat) s) (CHR ''{'')"
      by (subst find_str_split [OF Some]) simp
    moreover have "count_list (drop (i + len) s) (CHR ''{'') \<le> count_list (drop (i + length pat) s) (CHR ''{'')"
      using count_list_drop_le [of "len - length pat" "drop (i + length pat) s"] assms(3)
      by (simp add: add.commute add.left_commute)
    moreover have "0 < count_list pat (CHR ''{'')"
      using assms(2) by (metis count_list_0_iff gr0I)
    moreover have "count_list val (CHR ''{'') = 0"
      using assms(1) by (simp add: count_list_0_iff)
    ultimately have "count_list ?t (CHR ''{'') < count_list s (CHR ''{'')"
      by (simp add: replace_at_def)
    from less [OF this] show ?thesis by (simp add: replace_loop_step [OF Some])
  qed
qed

text \<open>A value that contains its own placeholder is replaced for ever.\<close>
lemma replace_loop_diverges:
  assumes "contains val pat" "contains s pat"
  shows "replace_loop pat len val s = None"
proof -
  have "contains s pat \<longrightarrow> contains val pat \<longrightarrow> False" if "replace_loop pat len val s = Some r" for r
  proof (rule replace_loop.raw_induct
      [of "\<lambda>pat len val s r. contains s pat \<longrightarrow> contains val pat \<longrightarrow> False", OF _ that], intro impI)
    fix rec :: "string \<Rightarrow> nat \<Rightarrow> string \<Rightarrow> string \<Rightarrow> string option"
      and pat val s r :: string and len :: nat
    assume IH: "\<And>pat len val s r. rec pat len val s = Some r \<Longrightarrow> contains s pat \<longrightarrow> contains val pat \<longrightarrow> False"
      and body: "(case find_str pat s of None \<Rightarrow> Some s
                  | Some pos \<Rightarrow> rec pat len val (replace_at s pos len val)) = Some r"
      and cs: "contains s pat" and cv: "contains val pat"
    obtain i where i: "find_str pat s = Some i" using cs by (auto simp: contains_def)
    obtain a b where "val = a @ pat @ b" using cv by (auto simp: contains_iff)
    then have "replace_at s i len val = (take i s @ a) @ pat @ (b @ drop (i + len) s)"
      by (simp add: replace_at_def)
    then have "contains (replace_at s i len val) pat"
      unfolding contains_iff by blast
    with IH [of pat len val "replace_at s i len val" r] body i cv show False by simp
  qed
  then show ?thesis using assms by (cases "replace_loop pat len val s") auto
qed

lemma no_brace_numbers: "CHR ''{'' \<notin> set (int_str i)"
  using int_str_chars [of "CHR ''{''" i] by (auto simp: isdigit_def)

lemma no_brace_names: "CHR ''{'' \<notin> set (category_name c)" "CHR ''{'' \<notin> set (type_name t)"
  by (cases c; simp) (cases t; simp)

definition brace_free :: "Event \<Rightarrow> bool" where
  "brace_free e = (CHR ''{'' \<notin> set (ev_source e) \<and> CHR ''{'' \<notin> set (ev_target e) \<and>
                   CHR ''{'' \<notin> set (ev_summary e))"

lemma replace_loop_defined:
  "CHR ''{'' \<notin> set val \<Longrightarrow> CHR ''{'' \<in> set pat \<Longrightarrow> length pat \<le> len \<Longrightarrow> replace_loop pat len val s \<noteq> None"
  using replace_loop_terminates by fastforce

lemma format_message_defined:
  assumes "brace_free e"
  shows "\<exists>m. format_message tmpl e rule = Some m"
proof -
  note D = replace_loop_defined
  have "format_message tmpl e rule \<noteq> None"
    using assms
    by (auto simp: format_message_def brace_free_def bind_eq_None_conv D no_brace_numbers no_brace_names
             simp del: not_None_eq split: if_splits)
  then show ?thesis by auto
qed

subsection \<open>One rule\<close>

lemma trigger_alert_Some:
  assumes "trigger_alert now rule e (am, w) = Some (am', w')"
  obtains msg a where "format_message (ar_message_template rule) e rule = Some msg"
    "a = \<lparr> al_id = am_next_alert_id am, al_timestamp = now, al_rule_name = ar_name rule,
           al_message = msg, al_severity = ar_severity rule, al_trigger_event = e,
           al_acknowledged = False, al_metadata = [] \<rparr>"
    "am' = am\<lparr>am_next_alert_id := am_next_alert_id am + 1,
              am_alerts := push_alert a (am_alerts am),
              am_last_triggered := omap_update (ar_name rule) now (am_last_triggered am)\<rparr>"
    "w' = fold (\<lambda>cb. cb a) (am_callbacks am) w"
  using assms by (auto simp: trigger_alert_def Let_def split: option.splits)

lemma alert_raised:
  assumes "trigger_alert now rule e (am, w) = Some (am', w')"
  shows "\<exists>a. al_id a = am_next_alert_id am \<and> al_rule_name a = ar_name rule \<and> al_timestamp a = now \<and>
           al_trigger_event a = e \<and> al_severity a = ar_severity rule \<and> \<not> al_acknowledged a \<and>
           am_alerts am' = push_alert a (am_alerts am) \<and>
           am_last_triggered am' = omap_update (ar_name rule) now (am_last_triggered am) \<and>
           am_rule_events am' = am_rule_events am \<and> am_rules am' = am_rules am \<and>
           am_callbacks am' = am_callbacks am \<and> am_next_alert_id am' = am_next_alert_id am + 1 \<and>
           w' = fold (\<lambda>cb. cb a) (am_callbacks am) w"
  using assms
  by (elim trigger_alert_Some, intro exI [of _ "\<lparr> al_id = am_next_alert_id am, al_timestamp = now,
        al_rule_name = ar_name rule, al_message = m, al_severity = ar_severity rule, al_trigger_event = e,
        al_acknowledged = False, al_metadata = [] \<rparr>" for m]) simp

text \<open>What one iteration does: nothing, a time stamp recorded, or an alert on top of it.\<close>
lemma alert_process_rule_cases:
  assumes "alert_process_rule rx c e rule (am, w) = Some (am', w')"
  obtains
    (skip) "am' = am" "w' = w" "\<not> (ar_enabled rule \<and> alert_matches_rule rx rule e)"
  | (track) kept where "ar_enabled rule" "alert_matches_rule rx rule e"
      "kept = filter (\<lambda>t. ac_threshold c - of_ms (ar_threshold_window_ms rule) \<le> t)
                (omap_get [] (am_rule_events am) (ar_name rule) @ [ev_timestamp e])"
      "am' = am\<lparr>am_rule_events := omap_update (ar_name rule) kept (am_rule_events am)\<rparr>" "w' = w"
      "int (length kept) < ar_threshold_count rule \<or> is_in_cooldown (ac_cooldown c) (ar_name rule) am"
  | (alert) kept where "ar_enabled rule" "alert_matches_rule rx rule e"
      "kept = filter (\<lambda>t. ac_threshold c - of_ms (ar_threshold_window_ms rule) \<le> t)
                (omap_get [] (am_rule_events am) (ar_name rule) @ [ev_timestamp e])"
      "trigger_alert (ac_alert c) rule e
         (am\<lparr>am_rule_events := omap_update (ar_name rule) kept (am_rule_events am)\<rparr>, w) = Some (am', w')"
      "ar_threshold_count rule \<le> int (length kept)" "\<not> is_in_cooldown (ac_cooldown c) (ar_name rule) am"
proof -
  define kept where "kept = filter (\<lambda>t. ac_threshold c - of_ms (ar_threshold_window_ms rule) \<le> t)
                (omap_get [] (am_rule_events am) (ar_name rule) @ [ev_timestamp e])"
  define am1 where "am1 = am\<lparr>am_rule_events := omap_update (ar_name rule) kept (am_rule_events am)\<rparr>"
  have cd: "is_in_cooldown (ac_cooldown c) (ar_name rule) am1 = is_in_cooldown (ac_cooldown c) (ar_name rule) am"
    by (simp add: is_in_cooldown_def am1_def split: option.splits)
  show ?thesis
  proof (cases "ar_enabled rule \<and> alert_matches_rule rx rule e")
    case False
    with assms show ?thesis by (intro skip) (auto simp: alert_process_rule_def split: if_splits)
  next
    case m: True
    have eq: "alert_process_rule rx c e rule (am, w) =
          (if ar_threshold_count rule \<le> int (length kept) \<and> \<not> is_in_cooldown (ac_cooldown c) (ar_name rule) am
           then trigger_alert (ac_alert c) rule e (am1, w) else Some (am1, w))"
      using m cd by (simp add: alert_process_rule_def Let_def kept_def am1_def not_less)
    show ?thesis
    proof (cases "ar_threshold_count rule \<le> int (length kept) \<and> \<not> is_in_cooldown (ac_cooldown c) (ar_name rule) am")
      case True
      then show ?thesis using assms eq m by (intro alert [OF _ _ kept_def]) (simp_all add: am1_def)
    next
      case False
      then show ?thesis using assms eq m by (intro track [OF _ _ kept_def]) (auto simp: am1_def)
    qed
  qed
qed

lemma alert_process_rule_frame [frame_simps]:
  assumes "alert_process_rule rx c e rule (am, w) = Some (am', w')"
  shows "am_rules am' = am_rules am" "am_callbacks am' = am_callbacks am" "am_wf am \<Longrightarrow> am_wf am'"
  using assms by (auto elim!: alert_process_rule_cases trigger_alert_Some simp: am_wf_def)

lemma alert_process_rules_induct:
  assumes run: "alert_process_rules rx clk i e rs st = Some st'"
    and start: "P st"
    and step: "\<And>j r st1 st2. r \<in> set rs \<Longrightarrow> P st1 \<Longrightarrow>
                 alert_process_rule rx (clk j) e r st1 = Some st2 \<Longrightarrow> P st2"
  shows "P st'"
  using assms
proof (induction rs arbitrary: i st)
  case (Cons r rs)
  then obtain st1 where st1: "alert_process_rule rx (clk i) e r st = Some st1"
      "alert_process_rules rx clk (Suc i) e rs st1 = Some st'"
    by (auto simp: bind_eq_Some_conv)
  then show ?case using Cons.IH [OF st1(2)] Cons.prems by (metis list.set_intros)
qed simp

lemma alert_process_event_frame [frame_simps]:
  assumes "alert_process_event rx clk e (am, w) = Some (am', w')"
  shows "am_rules am' = am_rules am" "am_callbacks am' = am_callbacks am" "am_wf am \<Longrightarrow> am_wf am'"
proof -
  have "am_rules (fst (am', w')) = am_rules am \<and> am_callbacks (fst (am', w')) = am_callbacks am \<and>
        (am_wf am \<longrightarrow> am_wf (fst (am', w')))"
    using assms unfolding alert_process_event_def
    by (rule alert_process_rules_induct) (auto simp: alert_process_rule_frame)
  then show "am_rules am' = am_rules am" "am_callbacks am' = am_callbacks am" "am_wf am \<Longrightarrow> am_wf am'"
    by auto
qed

subsection \<open>What an event raises\<close>

text \<open>
  Specification of \<open>process_event\<close>: a rule fires on the state before the call, whatever the
  rules before it did, and every rule that fires adds one alert.
\<close>
definition fires :: "'re regex_lib \<Rightarrow> ('re, 'w) AlertManager \<Rightarrow> Event \<Rightarrow> alert_clock \<Rightarrow> 're AlertRule \<Rightarrow> bool" where
  "fires rx am e c r =
     (ar_enabled r \<and> alert_matches_rule rx r e \<and>
      ar_threshold_count r \<le>
        int (length (filter (\<lambda>t. ac_threshold c - of_ms (ar_threshold_window_ms r) \<le> t)
                       (omap_get [] (am_rule_events am) (ar_name r) @ [ev_timestamp e]))) \<and>
      (case map_of (am_last_triggered am) (ar_name r) of
         None \<Rightarrow> True
       | Some t \<Rightarrow> ar_cooldown_ms r \<le> tdiv (ac_cooldown c - t) 1000000))"

text \<open>The state of the rules still to come is the one before the call.\<close>
definition agrees_on :: "string set \<Rightarrow> ('re, 'w) AlertManager \<Rightarrow> ('re, 'w) AlertManager \<Rightarrow> bool" where
  "agrees_on ns am am' =
     (am_rules am' = am_rules am \<and> am_callbacks am' = am_callbacks am \<and>
      (\<forall>n \<in> ns. map_of (am_rule_events am') n = map_of (am_rule_events am) n \<and>
                 map_of (am_last_triggered am') n = map_of (am_last_triggered am) n))"

lemma find_rule_distinct:
  "distinct (map ar_name rs) \<Longrightarrow> r \<in> set rs \<Longrightarrow> find (\<lambda>x. ar_name x = ar_name r) rs = Some r"
  by (induction rs) (auto simp: image_iff)

lemma is_in_cooldown_rule:
  assumes "distinct (map ar_name (am_rules am))" "r \<in> set (am_rules am)"
  shows "is_in_cooldown now (ar_name r) am =
         (case map_of (am_last_triggered am) (ar_name r) of
            None \<Rightarrow> False | Some t \<Rightarrow> tdiv (now - t) 1000000 < ar_cooldown_ms r)"
  by (simp add: is_in_cooldown_def find_rule_distinct [OF assms] split: option.splits)

lemma alert_process_rule_effect:
  assumes step: "alert_process_rule rx c e r (am1, w1) = Some (am2, w2)"
    and ag: "agrees_on ns am am1" and r: "ar_name r \<in> ns" "r \<in> set (am_rules am)"
    and dist: "distinct (map ar_name (am_rules am))"
  shows "\<exists>new. am_alerts am2 = fold push_alert new (am_alerts am1) \<and>
           w2 = fold (\<lambda>a. fold (\<lambda>cb. cb a) (am_callbacks am)) new w1 \<and>
           agrees_on (ns - {ar_name r}) am am2 \<and>
           map al_rule_name new = (if fires rx am e c r then [ar_name r] else []) \<and>
           (\<forall>a \<in> set new. al_trigger_event a = e \<and> al_timestamp a = ac_alert c \<and> al_severity a = ar_severity r \<and> \<not> al_acknowledged a)"
proof -
  have same: "omap_get [] (am_rule_events am1) (ar_name r) = omap_get [] (am_rule_events am) (ar_name r)"
      "map_of (am_last_triggered am1) (ar_name r) = map_of (am_last_triggered am) (ar_name r)"
      "am_rules am1 = am_rules am" "am_callbacks am1 = am_callbacks am"
    using ag r(1) by (auto simp: agrees_on_def omap_get_def)
  have cd: "is_in_cooldown (ac_cooldown c) (ar_name r) am1 \<longleftrightarrow>
      \<not> (case map_of (am_last_triggered am) (ar_name r) of
         None \<Rightarrow> True | Some t \<Rightarrow> ar_cooldown_ms r \<le> tdiv (ac_cooldown c - t) 1000000)"
    using is_in_cooldown_rule [of am1 r] dist r(2) same by (auto split: option.splits)
  from step show ?thesis
  proof (cases rule: alert_process_rule_cases)
    case skip
    then show ?thesis using ag by (intro exI [of _ "[]"]) (auto simp: fires_def agrees_on_def)
  next
    case (track kept)
    then have "\<not> fires rx am e c r" using cd same(1) by (auto simp: fires_def)
    then show ?thesis
      using track ag by (intro exI [of _ "[]"]) (auto simp: agrees_on_def)
  next
    case (alert kept)
    then have f: "fires rx am e c r" using cd same(1) by (auto simp: fires_def)
    from alert(4) obtain msg a where "a = \<lparr> al_id = am_next_alert_id am1, al_timestamp = ac_alert c,
           al_rule_name = ar_name r, al_message = msg, al_severity = ar_severity r, al_trigger_event = e,
           al_acknowledged = False, al_metadata = [] \<rparr>"
        "am_alerts am2 = push_alert a (am_alerts am1)" "w2 = fold (\<lambda>cb. cb a) (am_callbacks am1) w1"
        "agrees_on (ns - {ar_name r}) am am2"
      using ag by (elim trigger_alert_Some) (auto simp: agrees_on_def)
    then show ?thesis
      using f same(4) by (intro exI [of _ "[a]"]) auto
  qed
qed

lemma alert_process_rules_effect:
  assumes "alert_process_rules rx clk i e rs (am1, w1) = Some (am2, w2)"
    and "agrees_on (ar_name ` set rs) am am1" "set rs \<subseteq> set (am_rules am)"
    and "distinct (map ar_name rs)" "distinct (map ar_name (am_rules am))"
  shows "\<exists>new. am_alerts am2 = fold push_alert new (am_alerts am1) \<and>
           w2 = fold (\<lambda>a. fold (\<lambda>cb. cb a) (am_callbacks am)) new w1 \<and>
           map al_rule_name new =
             map (\<lambda>(j, r). ar_name r) (filter (\<lambda>(j, r). fires rx am e (clk j) r) (enumerate i rs)) \<and>
           (\<forall>a \<in> set new. al_trigger_event a = e)"
  using assms
proof (induction rs arbitrary: i am1 w1)
  case Nil
  then show ?case by (auto intro!: exI [of _ "[]"])
next
  case (Cons r rs)
  then obtain am' w' where s1: "alert_process_rule rx (clk i) e r (am1, w1) = Some (am', w')"
      and s2: "alert_process_rules rx clk (Suc i) e rs (am', w') = Some (am2, w2)"
    by (auto simp: bind_eq_Some_conv)
  from alert_process_rule_effect [OF s1 Cons.prems(2)] Cons.prems
  obtain n1 where n1: "am_alerts am' = fold push_alert n1 (am_alerts am1)"
      "w' = fold (\<lambda>a. fold (\<lambda>cb. cb a) (am_callbacks am)) n1 w1"
      "agrees_on (ar_name ` set (r # rs) - {ar_name r}) am am'"
      "map al_rule_name n1 = (if fires rx am e (clk i) r then [ar_name r] else [])"
      "\<forall>a \<in> set n1. al_trigger_event a = e"
    by auto
  have "ar_name ` set rs \<subseteq> ar_name ` set (r # rs) - {ar_name r}"
    using Cons.prems(4) by auto
  then have "agrees_on (ar_name ` set rs) am am'"
    using n1(3) by (auto simp: agrees_on_def)
  from Cons.IH [OF s2 this] Cons.prems
  obtain n2 where n2: "am_alerts am2 = fold push_alert n2 (am_alerts am')"
      "w2 = fold (\<lambda>a. fold (\<lambda>cb. cb a) (am_callbacks am)) n2 w'"
      "map al_rule_name n2 =
         map (\<lambda>(j, r). ar_name r) (filter (\<lambda>(j, r). fires rx am e (clk j) r) (enumerate (Suc i) rs))"
      "\<forall>a \<in> set n2. al_trigger_event a = e"
    by auto
  show ?case
    using n1 n2 by (intro exI [of _ "n1 @ n2"]) auto
qed

subsection \<open>Reachable managers\<close>

inductive alert_step :: "'re regex_lib \<Rightarrow> ('re, 'w) AlertManager \<times> 'w \<Rightarrow> ('re, 'w) AlertManager \<times> 'w \<Rightarrow> bool"
  for rx :: "'re regex_lib" where
  "alert_step rx (am, w) (alert_add_rule rx r am, w)"
| "alert_step rx (am, w) (alert_remove_rule n am, w)"
| "alert_step rx (am, w) (alert_enable_rule n b am, w)"
| "alert_step rx (am, w) (alert_clear_rules am, w)"
| "alert_step rx (am, w) (on_alert cb am, w)"
| "alert_step rx (am, w) (acknowledge_alert k am, w)"
| "alert_step rx (am, w) (clear_alerts am, w)"
| "alert_process_event rx clk e st = Some st' \<Longrightarrow> alert_step rx st st'"

text \<open>The history holds the last ids given out, in order.\<close>
definition alert_ids_ok :: "('re, 'w) AlertManager \<Rightarrow> bool" where
  "alert_ids_ok am =
     (length (am_alerts am) \<le> kMaxAlerts \<and>
      (\<exists>n. am_next_alert_id am = of_nat n \<and> length (am_alerts am) \<le> n \<and>
           map al_id (am_alerts am) = map of_nat [n - length (am_alerts am)..<n]))"

lemma map_take_last: "map f (take_last n xs) = take_last n (map f xs)"
  by (simp add: take_last_def drop_map)

lemma take_last_upt: "k \<le> n \<Longrightarrow> n - k \<le> m \<Longrightarrow> take_last m [k..<n] = [k..<n]"
  by (simp add: take_last_def)

lemma alert_ids_push:
  assumes "alert_ids_ok am" "al_id a = am_next_alert_id am"
    and "am_next_alert_id am' = am_next_alert_id am + 1"
    and "am_alerts am' = push_alert a (am_alerts am)"
  shows "alert_ids_ok am'"
proof -
  obtain n where n: "am_next_alert_id am = of_nat n" "length (am_alerts am) \<le> n"
      "map al_id (am_alerts am) = map of_nat [n - length (am_alerts am)..<n]"
    using assms(1) by (auto simp: alert_ids_ok_def)
  define l where "l = length (am_alerts am)"
  have "map al_id (am_alerts am @ [a]) = map of_nat [n - l..<Suc n]"
    using n assms(2) by (simp add: l_def)
  then have "map al_id (push_alert a (am_alerts am)) = map of_nat (take_last kMaxAlerts [n - l..<Suc n])"
    by (simp add: alert_history.push_eq map_take_last)
  moreover have "take_last kMaxAlerts [n - l..<Suc n] = [Suc n - min kMaxAlerts (Suc l)..<Suc n]"
    using n(2) by (simp add: take_last_def l_def min_def Suc_diff_le del: upt_Suc)
  moreover have "length (push_alert a (am_alerts am)) = min kMaxAlerts (Suc l)"
    by (simp add: alert_history.length_push l_def)
  ultimately show ?thesis
    using n(1,2) assms(3,4)
    by (auto simp: alert_ids_ok_def l_def intro!: exI [of _ "Suc n"])
qed

lemma alert_ids_process_rule:
  assumes "alert_process_rule rx c e r (am, w) = Some (am', w')" "alert_ids_ok am"
  shows "alert_ids_ok am'"
  using assms(1)
proof (cases rule: alert_process_rule_cases)
  case (alert kept)
  from alert(4) show ?thesis
    by (elim trigger_alert_Some) (rule alert_ids_push [OF assms(2)], simp_all)
qed (use assms(2) in \<open>auto simp: alert_ids_ok_def\<close>)

lemma alert_step_inv:
  assumes "alert_step rx st st'" "am_wf (fst st) \<and> alert_ids_ok (fst st)"
  shows "am_wf (fst st') \<and> alert_ids_ok (fst st')"
  using assms
proof (cases rule: alert_step.cases)
  case (6 am w k)
  then show ?thesis
    using assms(2) by (simp add: acknowledge_alert_def am_wf_def alert_ids_ok_def map_update_first
        length_map [of al_id, symmetric] del: length_map)
next
  case (7 am w)
  then show ?thesis using assms(2) by (auto simp: clear_alerts_def am_wf_def alert_ids_ok_def)
next
  case (8 clk e)
  have "am_wf (fst st') \<and> alert_ids_ok (fst st')"
    using 8 [unfolded alert_process_event_def]
    by (rule alert_process_rules_induct)
       (use assms(2) in \<open>auto simp: alert_process_rule_frame alert_ids_process_rule\<close>)
  then show ?thesis .
qed (use assms(2) in \<open>auto simp: am_wf_ops on_alert_def am_wf_def alert_ids_ok_def alert_add_rule_def Let_def
       alert_remove_rule_def alert_enable_rule_def alert_clear_rules_def replace_first_named
       distinct_map_filter_fst map_update_first\<close>)

lemma alert_reach_inv:
  assumes "(alert_step rx)\<^sup>*\<^sup>* (new_alert_manager, w) st"
  shows "am_wf (fst st) \<and> alert_ids_ok (fst st)"
  using assms
proof (induction rule: rtranclp_induct)
  case base
  show ?case using am_wf_ops(1) by (auto simp: alert_ids_ok_def new_alert_manager_def intro!: exI [of _ 1])
next
  case (step st st')
  then show ?case using alert_step_inv by blast
qed

lemma distinct_ids:
  assumes "alert_ids_ok am"
  shows "distinct (map al_id (am_alerts am))"
proof -
  obtain n where n: "length (am_alerts am) \<le> n"
      "map al_id (am_alerts am) = map (of_nat :: nat \<Rightarrow> u64) [n - length (am_alerts am)..<n]"
      "length (am_alerts am) \<le> kMaxAlerts"
    using assms by (auto simp: alert_ids_ok_def)
  have "inj_on (of_nat :: nat \<Rightarrow> u64) {n - length (am_alerts am)..<n}"
  proof (rule inj_onI)
    fix x y :: nat
    assume "x \<in> {n - length (am_alerts am)..<n}" "y \<in> {n - length (am_alerts am)..<n}"
      and eq: "(of_nat x :: u64) = of_nat y"
    then have d: "\<bar>int x - int y\<bar> < 10000" using n(3) by (auto simp: kMaxAlerts_def)
    with eq show "x = y" by (intro u64_of_nat_inj) auto
  qed
  then show ?thesis unfolding n(2) by (simp add: distinct_map)
qed

subsection \<open>Runs over a fixed set of rules\<close>

fun alert_run ::
    "'re regex_lib \<Rightarrow> (Event \<times> (nat \<Rightarrow> alert_clock)) list \<Rightarrow> ('re, 'w) AlertManager \<times> 'w \<Rightarrow>
     (('re, 'w) AlertManager \<times> 'w) option" where
  "alert_run rx [] st = Some st"
| "alert_run rx ((e, clk) # ins) st = Option.bind (alert_process_event rx clk e st) (alert_run rx ins)"

text \<open>Two alerts of one rule are a cooldown apart.\<close>
definition apart :: "'re AlertRule \<Rightarrow> Alert \<Rightarrow> Alert \<Rightarrow> bool" where
  "apart r a b = (al_timestamp a + of_ms (ar_cooldown_ms r) \<le> al_timestamp b)"

definition alerts_of :: "'re AlertRule \<Rightarrow> ('re, 'w) AlertManager \<Rightarrow> Alert list" where
  "alerts_of r am = filter (\<lambda>a. al_rule_name a = ar_name r) (am_alerts am)"

definition cooldown_inv :: "'re AlertRule \<Rightarrow> ('re, 'w) AlertManager \<Rightarrow> bool" where
  "cooldown_inv r am =
     (sorted_wrt (apart r) (alerts_of r am) \<and>
      (alerts_of r am \<noteq> [] \<longrightarrow>
         map_of (am_last_triggered am) (ar_name r) = Some (al_timestamp (last (alerts_of r am)))))"

lemma filter_take_last: "\<exists>k. filter P (take_last n xs) = drop k (filter P xs)"
proof -
  obtain ys where "xs = ys @ take_last n xs" using take_last_suffix by blast
  then have "filter P xs = filter P ys @ filter P (take_last n xs)"
    by (metis filter_append)
  then show ?thesis by (metis append_eq_conv_conj)
qed

lemma sorted_wrt_drop': "sorted_wrt R xs \<Longrightarrow> sorted_wrt R (drop k xs)"
  by (metis append_take_drop_id sorted_wrt_append)

lemma elapsed_apart: "n \<le> tdiv d 1000000 \<Longrightarrow> 0 < n \<Longrightarrow> of_ms n \<le> d"
proof (cases "0 \<le> d")
  case True
  assume "n \<le> tdiv d 1000000"
  with True show ?thesis by (simp add: tdiv_nonneg of_ms_def)
next
  case False
  assume "n \<le> tdiv d 1000000" "0 < n"
  moreover have "0 \<le> - d div 1000000" using False by (simp add: pos_imp_zdiv_nonneg_iff)
  ultimately show ?thesis using False by (simp add: tdiv_def)
qed

lemma cooldown_inv_process_rule:
  assumes step: "alert_process_rule rx c e r0 (am, w) = Some (am', w')"
    and inv: "cooldown_inv r am" and r: "r \<in> set (am_rules am)" "r0 \<in> set (am_rules am)"
    and dist: "distinct (map ar_name (am_rules am))" and cd: "0 < ar_cooldown_ms r"
    and clock: "ac_cooldown c \<le> ac_alert c"
  shows "cooldown_inv r am'"
  using step
proof (cases rule: alert_process_rule_cases)
  case (alert kept)
  from alert(4) obtain a where a: "al_rule_name a = ar_name r0" "al_timestamp a = ac_alert c"
      "am_alerts am' = push_alert a (am_alerts am)"
      "am_last_triggered am' = omap_update (ar_name r0) (ac_alert c) (am_last_triggered am)"
    using alert_raised [OF alert(4)] by auto
  obtain k where k: "alerts_of r am' = drop k (filter (\<lambda>x. al_rule_name x = ar_name r) (am_alerts am @ [a]))"
    using filter_take_last [of "\<lambda>x. al_rule_name x = ar_name r" kMaxAlerts "am_alerts am @ [a]"]
    by (auto simp: alerts_of_def a(3) alert_history.push_eq)
  show ?thesis
  proof (cases "ar_name r0 = ar_name r")
    case False
    then have "alerts_of r am' = drop k (alerts_of r am)" using k a(1) by (simp add: alerts_of_def)
    then show ?thesis using inv False a(4) by (auto simp: cooldown_inv_def sorted_wrt_drop')
  next
    case True
    then have "r0 = r" using r dist by (metis find_rule_distinct option.inject)
    have al: "alerts_of r am' = drop k (alerts_of r am @ [a])" using k a(1) True by (simp add: alerts_of_def)
    have "apart r b a" if b: "b \<in> set (alerts_of r am)" for b
    proof -
      let ?l = "last (alerts_of r am)"
      have ne: "alerts_of r am \<noteq> []" using b by auto
      then have last: "map_of (am_last_triggered am) (ar_name r) = Some (al_timestamp ?l)"
        using inv by (simp add: cooldown_inv_def)
      have "ar_cooldown_ms r \<le> tdiv (ac_cooldown c - al_timestamp ?l) 1000000"
        using alert(6) last is_in_cooldown_rule [OF dist r(1), of "ac_cooldown c"] \<open>r0 = r\<close> by simp
      from elapsed_apart [OF this cd] clock have "al_timestamp ?l + of_ms (ar_cooldown_ms r) \<le> ac_alert c"
        by simp
      moreover have "al_timestamp b \<le> al_timestamp ?l"
      proof -
        have "b = ?l \<or> apart r b ?l"
          using inv b ne unfolding cooldown_inv_def
          by (metis append_butlast_last_id in_set_conv_decomp_last rotate1.simps(2) set_rotate1 set_ConsD
              sorted_wrt_append list.set_intros(1))
        then show ?thesis using cd by (auto simp: apart_def of_ms_def)
      qed
      ultimately show ?thesis by (simp add: apart_def a(2))
    qed
    then have "sorted_wrt (apart r) (alerts_of r am @ [a])"
      using inv by (simp add: cooldown_inv_def sorted_wrt_append)
    then have "sorted_wrt (apart r) (drop k (alerts_of r am @ [a]))"
      by (rule sorted_wrt_drop')
    moreover have "drop k (alerts_of r am @ [a]) \<noteq> [] \<Longrightarrow> last (drop k (alerts_of r am @ [a])) = a"
      by (cases "k \<le> length (alerts_of r am)") auto
    ultimately show ?thesis
      using True a(2,4) unfolding cooldown_inv_def al by (simp del: drop_append)
  qed
qed (use inv in \<open>auto simp: cooldown_inv_def alerts_of_def\<close>)

lemma cooldown_inv_run:
  assumes "alert_run rx ins (am, w) = Some (am', w')"
    and "cooldown_inv r am" "r \<in> set (am_rules am)" "distinct (map ar_name (am_rules am))"
    and "0 < ar_cooldown_ms r" "\<forall>(e, clk) \<in> set ins. \<forall>i. ac_cooldown (clk i) \<le> ac_alert (clk i)"
  shows "cooldown_inv r am'"
  using assms
proof (induction ins arbitrary: am w)
  case (Cons x ins)
  obtain e clk where x: "x = (e, clk)" by force
  obtain am1 w1 where s: "alert_process_event rx clk e (am, w) = Some (am1, w1)"
      "alert_run rx ins (am1, w1) = Some (am', w')"
    using Cons.prems(1) by (auto simp: x bind_eq_Some_conv)
  have "am_rules (fst (am1, w1)) = am_rules am \<and> cooldown_inv r (fst (am1, w1))"
    using s(1) [unfolded alert_process_event_def]
  proof (rule alert_process_rules_induct, goal_cases)
    case 1
    then show ?case using Cons.prems by simp
  next
    case (2 j r0 st1 st2)
    then show ?case
      using Cons.prems(3-6) cooldown_inv_process_rule [of rx "clk j" e r0 "fst st1" "snd st1" "fst st2" "snd st2" r]
      by (cases st1; cases st2) (auto simp: x alert_process_rule_frame)
  qed
  then show ?case using Cons.IH [OF s(2)] Cons.prems by (auto simp: x)
qed simp

text \<open>An alert is justified by the events of a history: enough of them match, inside the window.\<close>
definition justifies :: "'re regex_lib \<Rightarrow> 're AlertRule \<Rightarrow> Event list \<Rightarrow> alert_clock \<Rightarrow> Alert \<Rightarrow> bool" where
  "justifies rx r es c a =
     (al_rule_name a = ar_name r \<and> es \<noteq> [] \<and> al_trigger_event a = last es \<and> ar_enabled r \<and>
      alert_matches_rule rx r (last es) \<and>
      ar_threshold_count r \<le>
        int (length (filter (\<lambda>x. alert_matches_rule rx r x \<and>
               ac_threshold c - of_ms (ar_threshold_window_ms r) \<le> ev_timestamp x) es)))"

definition justified :: "'re regex_lib \<Rightarrow> 're AlertRule list \<Rightarrow> (Event \<times> (nat \<Rightarrow> alert_clock)) list \<Rightarrow> Alert \<Rightarrow> bool" where
  "justified rx rules hist a =
     (\<exists>before e clk after. hist = before @ (e, clk) # after \<and>
        (\<exists>r \<in> set rules. \<exists>j. justifies rx r (map fst before @ [e]) (clk j) a))"

definition seen :: "'re regex_lib \<Rightarrow> 're AlertRule \<Rightarrow> (Event \<times> (nat \<Rightarrow> alert_clock)) list \<Rightarrow> timestamp list" where
  "seen rx r hist = map ev_timestamp (filter (alert_matches_rule rx r) (map fst hist))"

definition tracked :: "'re AlertRule \<Rightarrow> ('re, 'w) AlertManager \<Rightarrow> timestamp list" where
  "tracked r am = omap_get [] (am_rule_events am) (ar_name r)"

lemma seen_snoc:
  "seen rx r (hist @ [(e, clk)]) = seen rx r hist @ (if alert_matches_rule rx r e then [ev_timestamp e] else [])"
  by (simp add: seen_def)

lemma filter_seen:
  "length (filter P (seen rx r hist)) =
   length (filter (\<lambda>x. alert_matches_rule rx r x \<and> P (ev_timestamp x)) (map fst hist))"
  unfolding seen_def by (induction hist) auto

lemma subseq_filter_length: "subseq xs ys \<Longrightarrow> length (filter P xs) \<le> length (filter P ys)"
  by (intro list_emb_length [where P = "(=)"] subseq_filter)

lemma justified_mono: "justified rx rules hist a \<Longrightarrow> justified rx rules (hist @ later) a"
  unfolding justified_def
  by (metis append.assoc append_Cons)

lemma tracked_process_rule:
  assumes step: "alert_process_rule rx (clk j) e r0 (am, w) = Some (am', w')"
    and r0: "r0 \<in> set rules" and sub: "subseq (tracked r0 am) (seen rx r0 hist)"
    and just: "\<forall>a \<in> set (am_alerts am). justified rx rules (hist @ [(e, clk)]) a"
  shows "\<forall>a \<in> set (am_alerts am'). justified rx rules (hist @ [(e, clk)]) a"
    and "subseq (tracked r0 am') (seen rx r0 (hist @ [(e, clk)]))"
    and "ar_name r \<noteq> ar_name r0 \<Longrightarrow> tracked r am' = tracked r am"
proof -
  have kept: "subseq (filter P (tracked r0 am @ [ev_timestamp e])) (seen rx r0 (hist @ [(e, clk)]))"
    if "alert_matches_rule rx r0 e" for P
  proof -
    have "subseq (filter P (tracked r0 am @ [ev_timestamp e])) (tracked r0 am @ [ev_timestamp e])"
      by (rule subseq_filter_left)
    also have "subseq \<dots> (seen rx r0 (hist @ [(e, clk)]))"
      using sub that by (simp add: seen_snoc list_emb_append_mono)
    finally show ?thesis .
  qed
  have all: "(\<forall>a \<in> set (am_alerts am'). justified rx rules (hist @ [(e, clk)]) a) \<and>
        subseq (tracked r0 am') (seen rx r0 (hist @ [(e, clk)])) \<and>
        (ar_name r \<noteq> ar_name r0 \<longrightarrow> tracked r am' = tracked r am)"
    using step
  proof (cases rule: alert_process_rule_cases)
    case skip
    then show ?thesis using sub just by (auto simp: seen_snoc list_emb_append2)
  next
    case (track k)
    then show ?thesis using kept just by (auto simp: tracked_def)
  next
    case (alert k)
    from alert(4) obtain a where a: "al_rule_name a = ar_name r0" "al_trigger_event a = e"
      "am_alerts am' = push_alert a (am_alerts am)"
      "am_rule_events am' = omap_update (ar_name r0) k (am_rule_events am)"
      using alert_raised [OF alert(4)] by auto
    let ?P = "\<lambda>t. ac_threshold (clk j) - of_ms (ar_threshold_window_ms r0) \<le> t"
    have "subseq (tracked r0 am @ [ev_timestamp e]) (seen rx r0 (hist @ [(e, clk)]))"
      using sub alert(2) by (simp add: seen_snoc list_emb_append_mono)
    from subseq_filter_length [OF this, of ?P]
    have "length k \<le> length (filter (\<lambda>x. alert_matches_rule rx r0 x \<and> ?P (ev_timestamp x)) (map fst hist @ [e]))"
      using alert(3) filter_seen [of ?P rx r0 "hist @ [(e, clk)]"] by (simp add: tracked_def)
    then have "justified rx rules (hist @ [(e, clk)]) a"
      unfolding justified_def
      by (intro exI [of _ hist] exI [of _ e] exI [of _ clk] exI [of _ "[]"] conjI bexI [OF _ r0] exI [of _ j])
         (use alert(1,2,5) a in \<open>simp_all add: justifies_def\<close>)
    moreover have "set (am_alerts am') \<subseteq> insert a (set (am_alerts am))"
      using set_take_last by (fastforce simp: a(3) alert_history.push_eq)
    moreover have "tracked r0 am' = k" by (simp add: tracked_def a(4))
    ultimately show ?thesis
      using kept [OF alert(2)] just alert(3) by (auto simp: tracked_def a(4))
  qed
  then show "\<forall>a \<in> set (am_alerts am'). justified rx rules (hist @ [(e, clk)]) a"
    "subseq (tracked r0 am') (seen rx r0 (hist @ [(e, clk)]))"
    "ar_name r \<noteq> ar_name r0 \<Longrightarrow> tracked r am' = tracked r am"
    by blast+
qed

lemma justified_process_rules:
  assumes "alert_process_rules rx clk i e rs (am, w) = Some (am', w')"
    and "set rs \<subseteq> set rules" "distinct (map ar_name rules)" "distinct (map ar_name rs)"
    and "\<forall>r \<in> set rules. subseq (tracked r am)
           (if r \<in> set rs then seen rx r hist else seen rx r (hist @ [(e, clk)]))"
    and "\<forall>a \<in> set (am_alerts am). justified rx rules (hist @ [(e, clk)]) a"
  shows "(\<forall>a \<in> set (am_alerts am'). justified rx rules (hist @ [(e, clk)]) a) \<and>
         (\<forall>r \<in> set rules. subseq (tracked r am') (seen rx r (hist @ [(e, clk)])))"
  using assms
proof (induction rs arbitrary: i am w)
  case (Cons r0 rs)
  obtain am1 w1 where s: "alert_process_rule rx (clk i) e r0 (am, w) = Some (am1, w1)"
      "alert_process_rules rx clk (Suc i) e rs (am1, w1) = Some (am', w')"
    using Cons.prems(1) by (auto simp: bind_eq_Some_conv)
  have r0: "r0 \<in> set rules" "subseq (tracked r0 am) (seen rx r0 hist)"
    using Cons.prems by auto
  note T = tracked_process_rule [OF s(1) r0 Cons.prems(6)]
  have "subseq (tracked r am1) (if r \<in> set rs then seen rx r hist else seen rx r (hist @ [(e, clk)]))"
    if "r \<in> set rules" for r
  proof (cases "r = r0")
    case True
    then show ?thesis using T(2) Cons.prems(4) by auto
  next
    case False
    then have "ar_name r \<noteq> ar_name r0"
      using that r0(1) Cons.prems(3) by (metis find_rule_distinct option.inject)
    then show ?thesis using T(3) [of r] Cons.prems(5) that False by auto
  qed
  then show ?case using Cons.IH [OF s(2)] Cons.prems T(1) by auto
qed auto

lemma justified_run:
  assumes "alert_run rx ins (am, w) = Some (am', w')"
    and "distinct (map ar_name (am_rules am))"
    and "\<forall>r \<in> set (am_rules am). subseq (tracked r am) (seen rx r hist)"
    and "\<forall>a \<in> set (am_alerts am). justified rx (am_rules am) hist a"
  shows "\<forall>a \<in> set (am_alerts am'). justified rx (am_rules am) (hist @ ins) a"
  using assms
proof (induction ins arbitrary: am w hist)
  case (Cons x ins)
  obtain e clk where x: "x = (e, clk)" by force
  obtain am1 w1 where s: "alert_process_event rx clk e (am, w) = Some (am1, w1)"
      "alert_run rx ins (am1, w1) = Some (am', w')"
    using Cons.prems(1) by (auto simp: x bind_eq_Some_conv)
  have "(\<forall>a \<in> set (am_alerts am1). justified rx (am_rules am) (hist @ [(e, clk)]) a) \<and>
         (\<forall>r \<in> set (am_rules am). subseq (tracked r am1) (seen rx r (hist @ [(e, clk)])))"
    using s(1) Cons.prems
    by (intro justified_process_rules [of rx clk 0 e "am_rules am" am w am1 w1])
       (auto simp: alert_process_event_def justified_mono)
  moreover have "am_rules am1 = am_rules am" using s(1) by (rule alert_process_event_frame)
  ultimately show ?case
    using Cons.IH [OF s(2), of "hist @ [(e, clk)]"] Cons.prems(2) by (simp add: x)
qed simp

text \<open>Without braces in the event no replacement loop runs for ever.\<close>
lemma alert_process_event_total:
  assumes "brace_free e"
  shows "\<exists>st'. alert_process_event rx clk e st = Some st'"
proof -
  have one: "\<exists>st2. alert_process_rule rx c e r st1 = Some st2" for c r and st1 :: "('a, 'b) AlertManager \<times> 'b"
    using format_message_defined [OF assms, of "ar_message_template r" r]
    by (cases st1) (auto simp: alert_process_rule_def trigger_alert_def Let_def)
  have "\<exists>st'. alert_process_rules rx clk i e rs st = Some st'" for i rs
  proof (induction rs arbitrary: i st)
    case (Cons r rs)
    then show ?case using one [of "clk i" r st] by fastforce
  qed simp
  then show ?thesis by (simp add: alert_process_event_def)
qed

subsection \<open>Properties\<close>

definition quiet_clock :: "timestamp \<Rightarrow> nat \<Rightarrow> alert_clock" where
  "quiet_clock t = (\<lambda>_. \<lparr> ac_threshold = t, ac_cooldown = t, ac_alert = t \<rparr>)"

definition spike :: "timestamp \<Rightarrow> Event" where
  "spike t = (event_default t)\<lparr> ev_category := Process, ev_type := ProcessCpuSpike,
     ev_source := ''worker'', ev_summary := ''97 percent'' \<rparr>"

lemma brace_free_spike [simp]: "brace_free (spike t)"
  by (simp add: brace_free_def spike_def event_default_def)

definition cpu_manager :: "(string, nat) AlertManager" where
  "cpu_manager = on_alert (\<lambda>a n. n + 1) (alert_add_rule literal_regex high_cpu_usage new_alert_manager)"

lemma cpu_manager_eq:
  "cpu_manager = \<lparr> am_rules = [high_cpu_usage], am_alerts = [], am_callbacks = [\<lambda>a n. n + 1],
     am_rule_events = [], am_last_triggered = [], am_next_alert_id = 1 \<rparr>"
  by (simp add: cpu_manager_def on_alert_def alert_add_rule_def new_alert_manager_def Let_def
      compile_alert_rule_def precompile_def high_cpu_usage_def default_alert_rule_def)

text \<open>C1: an event raises exactly the alerts the specification names.  A rule fires by the state
  before the call: it is enabled, matches, has its threshold of time stamps in the window and
  is not in its cooldown.  The new alerts are those of the firing rules, in rule order, they
  are pushed on the bounded history and each is given to every callback in turn.\<close>
theorem alert_process_event_raises:
  assumes "length (am_alerts am) \<le> kMaxAlerts" "am_wf am"
    and "alert_process_event rx clk e (am, w) = Some (am', w')"
  shows "\<exists>new. am_alerts am' = take_last kMaxAlerts (am_alerts am @ new) \<and>
           w' = fold (\<lambda>a. fold (\<lambda>cb. cb a) (am_callbacks am)) new w \<and>
           map al_rule_name new =
             map (\<lambda>(j, r). ar_name r)
               (filter (\<lambda>(j, r). fires rx am e (clk j) r) (enumerate 0 (am_rules am))) \<and>
           (\<forall>a \<in> set new. al_trigger_event a = e)"
proof -
  have "agrees_on (ar_name ` set (am_rules am)) am am" by (simp add: agrees_on_def)
  with assms alert_process_rules_effect [of rx clk 0 e "am_rules am" am w am' w' am]
  obtain new where "am_alerts am' = fold push_alert new (am_alerts am)"
      "w' = fold (\<lambda>a. fold (\<lambda>cb. cb a) (am_callbacks am)) new w"
      "map al_rule_name new = map (\<lambda>(j, r). ar_name r)
               (filter (\<lambda>(j, r). fires rx am e (clk j) r) (enumerate 0 (am_rules am)))"
      "\<forall>a \<in> set new. al_trigger_event a = e"
    by (auto simp: am_wf_def alert_process_event_def)
  moreover have "fold push_alert new (am_alerts am) = take_last kMaxAlerts (am_alerts am @ new)"
    using alert_history.fold_push [of new "am_alerts am"] assms(1) by simp
  ultimately show ?thesis by (intro exI [of _ new]) auto
qed

lemma alert_process_event_raises_witness:
  "\<exists>am' w' new. alert_process_event literal_regex (quiet_clock 100) (spike 100)
      (cpu_manager\<lparr>am_rule_events := [(''high_cpu_usage'', [98, 99])]\<rparr>, 0) = Some (am', w') \<and>
     am_alerts am' = new \<and> map al_rule_name new = [''high_cpu_usage''] \<and> w' = 1"
proof -
  let ?am = "cpu_manager\<lparr>am_rule_events := [(''high_cpu_usage'', [98, 99])]\<rparr>"
  have wf: "am_wf ?am" "length (am_alerts ?am) \<le> kMaxAlerts"
    by (simp_all add: am_wf_def cpu_manager_eq omap_sorted_def)
  have f: "fires literal_regex ?am (spike 100) (quiet_clock 100 0) high_cpu_usage"
    by (simp add: fires_def cpu_manager_eq quiet_clock_def spike_def event_default_def alert_matches_rule_def
        regex_passes_def high_cpu_usage_def default_alert_rule_def omap_get_def of_ms_def)
  obtain st where st: "alert_process_event literal_regex (quiet_clock 100) (spike 100) (?am, 0) = Some st"
    using alert_process_event_total [OF brace_free_spike] by blast
  obtain am' w' where am': "st = (am', w')" by force
  from alert_process_event_raises [OF wf(2,1) st [unfolded am']]
  obtain new where new: "am_alerts am' = take_last kMaxAlerts new" "w' = fold (\<lambda>a n. n + 1) new (0 :: nat)"
      "map al_rule_name new = [''high_cpu_usage'']"
    using f by (auto simp: cpu_manager_eq)
       (auto simp: high_cpu_usage_def default_alert_rule_def)
  moreover from new(3) obtain a where "new = [a]" by (cases new) auto
  ultimately show ?thesis using st by (intro exI [of _ am'] exI [of _ w'] exI [of _ new]) (auto simp: am' kMaxAlerts_def)
qed

text \<open>in every state the manager can reach, by any sequence of its operations, the alert ids
  are distinct (the id counter may wrap) and the history holds at most 10000 alerts; so
  acknowledging an id changes one alert at most.\<close>
theorem alert_ids_distinct:
  assumes "(alert_step rx)\<^sup>*\<^sup>* (new_alert_manager, w) (am, w')"
  shows "distinct (map al_id (am_alerts am)) \<and> length (am_alerts am) \<le> 10000 \<and>
         am_alerts (acknowledge_alert i am) =
           map (\<lambda>a. if al_id a = i then a\<lparr>al_acknowledged := True\<rparr> else a) (am_alerts am)"
proof -
  have ids: "alert_ids_ok am" using alert_reach_inv [OF assms] by simp
  note d = distinct_ids [OF ids]
  have upd: "update_first (\<lambda>a. al_id a = i) f as = map (\<lambda>a. if al_id a = i then f a else a) as"
    if "distinct (map al_id as)" for f as
    using that
  proof (induction as)
    case (Cons a as)
    show ?case
    proof (cases "al_id a = i")
      case True
      then have "map (\<lambda>a. if al_id a = i then f a else a) as = as"
        using Cons.prems by (intro map_idI) (auto simp: image_iff)
      with True show ?thesis by simp
    qed (use Cons in simp)
  qed simp
  show ?thesis
    using ids d by (simp add: alert_ids_ok_def kMaxAlerts_def acknowledge_alert_def upd [OF d])
qed

lemma alert_ids_distinct_witness:
  "am_alerts (acknowledge_alert 3 (on_alert (\<lambda>a n. n) (new_alert_manager :: (string, nat) AlertManager))) = []"
proof -
  have "(alert_step literal_regex)\<^sup>*\<^sup>* (new_alert_manager, 0 :: nat) (on_alert (\<lambda>a n. n) new_alert_manager, 0)"
    by (rule r_into_rtranclp) (rule alert_step.intros)
  from alert_ids_distinct [OF this] show ?thesis
    by (simp add: on_alert_def new_alert_manager_def)
qed

text \<open>C16: the cooldown holds when the events are processed one after the other: in a run over fixed rules, any two
  alerts of a rule with a positive cooldown have time stamps at least that cooldown apart, however the
  window and the threshold are set and whatever other rules raise, provided the clock does not run
  backwards inside one loop iteration.  (\<open>Alert_Threads\<close> shows that two threads can raise two alerts inside
  the cooldown.)\<close>
theorem alerts_respect_cooldown:
  assumes "alert_run rx ins (am, w) = Some (am', w')"
    and "am_wf am" "am_alerts am = []" "r \<in> set (am_rules am)" "0 < ar_cooldown_ms r"
    and "\<forall>(e, clk) \<in> set ins. \<forall>i. ac_cooldown (clk i) \<le> ac_alert (clk i)"
  shows "sorted_wrt (\<lambda>a b. al_timestamp a + ar_cooldown_ms r * 1000000 \<le> al_timestamp b)
           (filter (\<lambda>a. al_rule_name a = ar_name r) (am_alerts am'))"
proof -
  have "cooldown_inv r am" using assms(3) by (simp add: cooldown_inv_def alerts_of_def)
  from cooldown_inv_run [OF assms(1) this assms(4)] assms(2,5,6) have "cooldown_inv r am'"
    by (simp add: am_wf_def)
  then show ?thesis
    by (simp add: cooldown_inv_def alerts_of_def apart_def [abs_def] of_ms_def)
qed

text \<open>C17: no alert without cause: in a run over fixed rules that starts with no history, every alert
  belongs to an enabled rule that matches the event it names, and at least
  \<open>threshold_count\<close> of the events processed until then match that rule and are not older than
  the window.\<close>
theorem alerts_are_justified:
  assumes "alert_run rx ins (am, w) = Some (am', w')"
    and "am_wf am" "am_alerts am = []" "am_rule_events am = []"
  shows "\<forall>a \<in> set (am_alerts am'). \<exists>before e clk after. ins = before @ (e, clk) # after \<and>
           (\<exists>r \<in> set (am_rules am). \<exists>j. justifies rx r (map fst before @ [e]) (clk j) a)"
  using justified_run [OF assms(1), of "[]"] assms(2-4)
  by (simp add: am_wf_def tracked_def justified_def)

lemma cpu_run_defined:
  "\<exists>st. alert_run literal_regex [(spike 100, quiet_clock 100)] (cpu_manager, 0) = Some st"
  using alert_process_event_total [OF brace_free_spike, of literal_regex "quiet_clock 100" 100 "(cpu_manager, 0)"]
  by auto

lemma cpu_manager_wf [simp]: "am_wf cpu_manager" "am_alerts cpu_manager = []"
    "am_rule_events cpu_manager = []" "high_cpu_usage \<in> set (am_rules cpu_manager)"
  by (simp_all add: am_wf_def cpu_manager_eq)

text \<open>Two bursts of spikes, six minutes apart: the third spike of each raises an alert, the fourth of the first falls
  in the cooldown.\<close>
definition cpu_state :: "timestamp list \<Rightarrow> timestamp list \<Rightarrow> (string, nat) AlertManager" where
  "cpu_state ts raised = cpu_manager
     \<lparr> am_rule_events := (if ts = [] then [] else [(''high_cpu_usage'', ts)]),
       am_alerts := map (\<lambda>(i, t). \<lparr> al_id = of_nat (Suc i), al_timestamp = t, al_rule_name = ''high_cpu_usage'',
         al_message = ''High CPU usage detected: worker - 97 percent'', al_severity = Warning, al_trigger_event = spike t,
         al_acknowledged = False, al_metadata = [] \<rparr>) (enumerate 0 raised),
       am_last_triggered := (if raised = [] then [] else [(''high_cpu_usage'', last raised)]),
       am_next_alert_id := of_nat (Suc (length raised)) \<rparr>"

lemma cpu_message:
  "format_message (ar_message_template (high_cpu_usage :: string AlertRule)) (spike t) high_cpu_usage =
     Some ''High CPU usage detected: worker - 97 percent''"
  by (simp add: format_message_def high_cpu_usage_def default_alert_rule_def spike_def event_default_def
      replace_loop.simps starts_with_def replace_at_def)

lemma cpu_state_fields [simp]:
  "am_rules (cpu_state ts raised) = [high_cpu_usage]" "am_callbacks (cpu_state ts raised) = [\<lambda>a n. n + 1]"
  "omap_get [] (am_rule_events (cpu_state ts raised)) ''high_cpu_usage'' = ts"
  "map_of (am_last_triggered (cpu_state ts raised)) ''high_cpu_usage'' = (if raised = [] then None else Some (last raised))"
  "omap_update ''high_cpu_usage'' t (am_last_triggered (cpu_state ts raised)) = [(''high_cpu_usage'', t)]"
  "omap_update ''high_cpu_usage'' us (am_rule_events (cpu_state ts raised)) = [(''high_cpu_usage'', us)]"
  by (simp_all add: cpu_state_def cpu_manager_eq omap_get_def)

lemma cpu_seen: "us \<noteq> [] \<Longrightarrow> (cpu_state ts raised)\<lparr>am_rule_events := [(''high_cpu_usage'', us)]\<rparr> = cpu_state us raised"
  by (simp add: cpu_state_def)

lemma cpu_raised:
  "length raised < 5 \<Longrightarrow> trigger_alert t high_cpu_usage (spike t) (cpu_state ts raised, n) = Some (cpu_state ts (raised @ [t]), n + 1)"
proof -
  assume "length raised < 5"
  then have "push_alert a (am_alerts (cpu_state ts raised)) = am_alerts (cpu_state ts raised) @ [a]" for a
    by (simp add: push_alert_def push_bounded_eq kMaxAlerts_def take_last_def cpu_state_def)
  then show ?thesis
    unfolding trigger_alert_def prod.case cpu_message option.case Let_def
    by (simp add: high_cpu_usage_def default_alert_rule_def) (simp add: cpu_state_def cpu_manager_eq enumerate_append_eq)
qed

lemma cpu_step:
  assumes "length raised < 5"
  shows "alert_process_event literal_regex (quiet_clock t) (spike t) (cpu_state ts raised, n) =
    (let kept = filter (\<lambda>u. \<not> u < t - 60000000000) (ts @ [t])
     in if 3 \<le> length kept \<and> (raised = [] \<or> 300000 \<le> tdiv (t - last raised) 1000000)
        then Some (cpu_state kept (raised @ [t]), n + 1) else Some (cpu_state kept raised, n))"
proof -
  let ?r = "high_cpu_usage :: string AlertRule"
  have r: "ar_enabled ?r" "alert_matches_rule literal_regex ?r (spike t)" "ar_name ?r = ''high_cpu_usage''"
    "ar_threshold_window_ms ?r = 60000" "ar_threshold_count ?r = 3" "ar_cooldown_ms ?r = 300000"
    by (simp_all add: alert_matches_rule_def regex_passes_def high_cpu_usage_def default_alert_rule_def spike_def event_default_def)
  have t: "ev_timestamp (spike t) = t" by (simp add: spike_def event_default_def)
  define kept where "kept = filter (\<lambda>u. \<not> u < t - 60000000000) (ts @ [t])"
  have k: "kept \<noteq> []" by (simp add: kept_def)
  have cool: "is_in_cooldown t ''high_cpu_usage'' (cpu_state kept raised) =
      (raised \<noteq> [] \<and> tdiv (t - last raised) 1000000 < 300000)"
    by (simp add: is_in_cooldown_def r)
  have one: "alert_process_rule literal_regex (quiet_clock t 0) (spike t) ?r (cpu_state ts raised, n) =
      (if 3 \<le> length kept \<and> \<not> is_in_cooldown t ''high_cpu_usage'' (cpu_state kept raised)
       then trigger_alert t ?r (spike t) (cpu_state kept raised, n) else Some (cpu_state kept raised, n))"
    unfolding alert_process_rule_def prod.case
    by (simp add: r t quiet_clock_def of_ms_def kept_def [symmetric] cpu_seen [OF k] Let_def del: filter_append)
  have "alert_process_event literal_regex (quiet_clock t) (spike t) (cpu_state ts raised, n) =
      alert_process_rule literal_regex (quiet_clock t 0) (spike t) ?r (cpu_state ts raised, n)"
    by (cases "alert_process_rule literal_regex (quiet_clock t 0) (spike t) ?r (cpu_state ts raised, n)") (simp_all add: alert_process_event_def)
  then show ?thesis
    unfolding one cool Let_def kept_def [symmetric] cpu_raised [OF assms] by auto
qed

lemma alerts_respect_cooldown_witness:
  "\<exists>am' w'. alert_run literal_regex (map (\<lambda>t. (spike t, quiet_clock t))
       [100, 101, 102, 103, 360000000000, 360000000001, 360000000002]) (cpu_manager, 0) = Some (am', w') \<and>
     map al_timestamp (am_alerts am') = [102, 360000000002] \<and>
     sorted_wrt (\<lambda>a b. al_timestamp a + 300000 * 1000000 \<le> al_timestamp b)
       (filter (\<lambda>a. al_rule_name a = ''high_cpu_usage'') (am_alerts am'))"
proof -
  let ?ts = "[100, 101, 102, 103, 360000000000, 360000000001, 360000000002]"
  let ?am = "cpu_state [360000000000, 360000000001, 360000000002] [102, 360000000002]"
  have start: "cpu_manager = cpu_state [] []" by (simp add: cpu_state_def cpu_manager_eq)
  have run: "alert_run literal_regex (map (\<lambda>t. (spike t, quiet_clock t)) ?ts) (cpu_manager, 0) = Some (?am, 2)"
    unfolding start by (simp add: cpu_step tdiv_def)
  have rule: "0 < ar_cooldown_ms (high_cpu_usage :: string AlertRule)"
    "ar_cooldown_ms (high_cpu_usage :: string AlertRule) = 300000"
    "ar_name (high_cpu_usage :: string AlertRule) = ''high_cpu_usage''"
    by (simp_all add: high_cpu_usage_def default_alert_rule_def)
  have times: "map al_timestamp (am_alerts ?am) = [102, 360000000002]" by (simp add: cpu_state_def)
  have "\<forall>(e, clk) \<in> set (map (\<lambda>t. (spike t, quiet_clock t)) ?ts). \<forall>i. ac_cooldown (clk i) \<le> ac_alert (clk i)"
    by (simp add: quiet_clock_def)
  from alerts_respect_cooldown [OF run cpu_manager_wf(1,2,4) rule(1) this, unfolded rule(2,3)]
  show ?thesis using run times by (intro exI [of _ ?am] exI [of _ 2] conjI)
qed

lemma alerts_are_justified_witness:
  "\<exists>am' w'. alert_run literal_regex [(spike 100, quiet_clock 100)] (cpu_manager, 0) = Some (am', w') \<and>
     am_alerts am' = []"
proof -
  obtain am' w' where run: "alert_run literal_regex [(spike 100, quiet_clock 100)] (cpu_manager, 0) = Some (am', w')"
    using cpu_run_defined by auto
  have "a \<notin> set (am_alerts am')" for a
  proof
    assume "a \<in> set (am_alerts am')"
    with alerts_are_justified [OF run cpu_manager_wf(1,2,3)]
    obtain before e clk after r j where *: "[(spike 100, quiet_clock 100)] = before @ (e, clk) # after"
        "r \<in> set (am_rules cpu_manager)" "justifies literal_regex r (map fst before @ [e]) (clk j) a"
      by blast
    have "before = []" using *(1) by (cases before) auto
    moreover have "ar_threshold_count r = 3"
      using *(2) by (simp add: cpu_manager_eq high_cpu_usage_def default_alert_rule_def)
    ultimately show False using *(3) by (auto simp: justifies_def split: if_splits)
  qed
  then have "am_alerts am' = []" by (metis last_in_set)
  with run show ?thesis by blast
qed

text \<open>processing an event whose source, target and summary hold no brace always returns, whatever
  the rules and their templates are.\<close>
theorem alert_process_event_returns:
  assumes "brace_free e"
  shows "\<exists>st'. alert_process_event rx clk e st = Some st'"
  by (rule alert_process_event_total [OF assms])

lemma alert_process_event_returns_witness:
  "\<exists>st'. alert_process_event literal_regex (quiet_clock 5) (spike 5) (cpu_manager, 0) = Some st'"
  by (rule alert_process_event_returns) simp

text \<open>C22: an event whose source contains the text \<open>{{source}}\<close> hangs the manager as soon as a rule
  whose template mentions the source fires: the replacement loop finds the placeholder again
  in what it has just inserted.\<close>
theorem format_message_hangs:
  assumes "contains tmpl ''{{source}}''" "contains (ev_source e) ''{{source}}''"
  shows "format_message tmpl e rule = None"
proof -
  have "tmpl \<noteq> []" using assms(1) by (auto simp: contains_iff)
  then show ?thesis
    by (simp add: format_message_def replace_loop_diverges [OF assms(2,1)])
qed

lemma format_message_hangs_witness:
  "format_message (ar_message_template (suspicious_process :: string AlertRule))
     ((spike 0)\<lparr>ev_source := ''{{source}}''\<rparr>) suspicious_process = None"
  by (rule format_message_hangs)
     (simp_all add: suspicious_process_def default_alert_rule_def contains_def starts_with_def)

text \<open>The lengths given for the threshold placeholders are one too large: the character after the
  placeholder is lost.\<close>
lemma network_anomaly_message:
  "format_message (ar_message_template (network_anomaly :: string AlertRule)) (spike 0) network_anomaly =
   Some ''Network anomaly: 50connections in 10000s''"
  by (simp add: format_message_def network_anomaly_def default_alert_rule_def spike_def event_default_def
      replace_loop.simps starts_with_def replace_at_def int_str_def nat_str.simps digit_char_def)
end
