(* ===== verification/Event_Filter.thy ===== *)
theory Event_Filter
  imports Core_Event Interfaces "HOL-Library.Multiset"
begin

text \<open>
  \<open>filter/event_filter.h\<close> and \<open>filter/event_filter.cpp\<close>: the chain of filter rules
  every event passes before it reaches the other components.  The rules are kept
  sorted by \<open>std::sort\<close>, which leaves the order of rules of equal priority open: the
  sorting function is the parameter \<open>srt\<close>, and \<open>priority_sort srt\<close> is what the standard
  promises of it.  Patterns are compiled at every match; one that does not compile is
  skipped.  The atomic counters are 64-bit words.
\<close>

datatype FilterAction = Allow | Deny | Modify

record FilterRule =
  fr_name :: string
  fr_description :: string
  fr_enabled :: bool
  fr_action :: FilterAction
  fr_priority :: int
  fr_categories :: "EventCategory list"
  fr_types :: "EventType list"
  fr_source_pattern :: string
  fr_target_pattern :: string
  fr_summary_pattern :: string
  fr_attribute_patterns :: "(string, string) omap"
  fr_custom_match :: "(Event \<Rightarrow> bool) option"
  fr_attribute_modifications :: "(string, string) omap"
  fr_summary_replacement :: string

definition default_filter_rule :: FilterRule where
  "default_filter_rule =
     \<lparr> fr_name = [], fr_description = [], fr_enabled = True, fr_action = Allow, fr_priority = 0,
       fr_categories = [], fr_types = [], fr_source_pattern = [], fr_target_pattern = [],
       fr_summary_pattern = [], fr_attribute_patterns = [], fr_custom_match = None,
       fr_attribute_modifications = [], fr_summary_replacement = [] \<rparr>"

record EventFilter =
  ef_rules :: "FilterRule list"
  ef_total_processed :: u64
  ef_total_allowed :: u64
  ef_total_denied :: u64
  ef_total_modified :: u64

definition new_event_filter :: EventFilter where
  "new_event_filter =
     \<lparr> ef_rules = [], ef_total_processed = 0, ef_total_allowed = 0, ef_total_denied = 0,
       ef_total_modified = 0 \<rparr>"

subsection \<open>Rule management\<close>

definition by_priority :: "FilterRule list \<Rightarrow> bool" where
  "by_priority rs = sorted_wrt (\<lambda>a b. fr_priority a \<ge> fr_priority b) rs"

definition priority_sort :: "(FilterRule list \<Rightarrow> FilterRule list) \<Rightarrow> bool" where
  "priority_sort srt = (\<forall>rs. mset (srt rs) = mset rs \<and> by_priority (srt rs))"

text \<open>One sort that qualifies: the stable one.\<close>
definition stable_sort :: "FilterRule list \<Rightarrow> FilterRule list" where
  "stable_sort = sort_key (\<lambda>r. - fr_priority r)"

definition filter_add_rule :: "(FilterRule list \<Rightarrow> FilterRule list) \<Rightarrow> FilterRule \<Rightarrow> EventFilter \<Rightarrow> EventFilter" where
  "filter_add_rule srt rule ef =
     ef\<lparr>ef_rules := srt (replace_first (\<lambda>r. fr_name r = fr_name rule) rule (ef_rules ef))\<rparr>"

definition filter_remove_rule :: "string \<Rightarrow> EventFilter \<Rightarrow> EventFilter" where
  "filter_remove_rule name ef = ef\<lparr>ef_rules := filter (\<lambda>r. fr_name r \<noteq> name) (ef_rules ef)\<rparr>"

definition filter_enable_rule :: "string \<Rightarrow> bool \<Rightarrow> EventFilter \<Rightarrow> EventFilter" where
  "filter_enable_rule name enabled ef =
     ef\<lparr>ef_rules := update_first (\<lambda>r. fr_name r = name) (fr_enabled_update (\<lambda>_. enabled)) (ef_rules ef)\<rparr>"

definition filter_clear_rules :: "EventFilter \<Rightarrow> EventFilter" where
  "filter_clear_rules ef = ef\<lparr>ef_rules := []\<rparr>"

definition filter_get_rules :: "EventFilter \<Rightarrow> FilterRule list" where
  "filter_get_rules ef = ef_rules ef"

subsection \<open>Matching\<close>

text \<open>A pattern that is empty or invalid does not restrict the match.\<close>
definition pattern_passes :: "'re regex_lib \<Rightarrow> string \<Rightarrow> string \<Rightarrow> bool" where
  "pattern_passes rx pat s =
     (pat = [] \<or> (case re_compile rx pat of None \<Rightarrow> True | Some re \<Rightarrow> re_search rx re s))"

fun attributes_pass :: "'re regex_lib \<Rightarrow> (string \<times> string) list \<Rightarrow> Event \<Rightarrow> bool" where
  "attributes_pass rx [] e = True"
| "attributes_pass rx ((key, pat) # ps) e =
     (case map_of (ev_attributes e) key of
        None \<Rightarrow> False
      | Some v \<Rightarrow>
          (case re_compile rx pat of
             None \<Rightarrow> attributes_pass rx ps e
           | Some re \<Rightarrow> (if re_search rx re v then attributes_pass rx ps e else False)))"

definition filter_matches_rule :: "'re regex_lib \<Rightarrow> FilterRule \<Rightarrow> Event \<Rightarrow> bool" where
  "filter_matches_rule rx rule e =
     (if fr_categories rule \<noteq> [] \<and> ev_category e \<notin> set (fr_categories rule) then False
      else if fr_types rule \<noteq> [] \<and> ev_type e \<notin> set (fr_types rule) then False
      else if \<not> pattern_passes rx (fr_source_pattern rule) (ev_source e) then False
      else if \<not> pattern_passes rx (fr_target_pattern rule) (ev_target e) then False
      else if \<not> pattern_passes rx (fr_summary_pattern rule) (ev_summary e) then False
      else if \<not> attributes_pass rx (fr_attribute_patterns rule) e then False
      else (case fr_custom_match rule of None \<Rightarrow> True | Some f \<Rightarrow> f e))"

definition apply_modifications :: "FilterRule \<Rightarrow> Event \<Rightarrow> Event" where
  "apply_modifications rule e =
     (let e1 = e\<lparr>ev_attributes :=
                  fold (\<lambda>(k, v). omap_update k v) (fr_attribute_modifications rule) (ev_attributes e)\<rparr>
      in if fr_summary_replacement rule \<noteq> [] then e1\<lparr>ev_summary := fr_summary_replacement rule\<rparr> else e1)"

subsection \<open>Processing\<close>

text \<open>The loop over the copied rules; it returns the filter, the event and the verdict.\<close>
fun filter_loop :: "'re regex_lib \<Rightarrow> FilterRule list \<Rightarrow> EventFilter \<Rightarrow> Event \<Rightarrow> EventFilter \<times> Event \<times> bool" where
  "filter_loop rx [] ef e = (ef\<lparr>ef_total_allowed := ef_total_allowed ef + 1\<rparr>, e, True)"
| "filter_loop rx (r # rs) ef e =
     (if \<not> fr_enabled r then filter_loop rx rs ef e
      else if filter_matches_rule rx r e then
        (case fr_action r of
           Allow \<Rightarrow> (ef\<lparr>ef_total_allowed := ef_total_allowed ef + 1\<rparr>, e, True)
         | Deny \<Rightarrow> (ef\<lparr>ef_total_denied := ef_total_denied ef + 1\<rparr>, e, False)
         | Modify \<Rightarrow> filter_loop rx rs (ef\<lparr>ef_total_modified := ef_total_modified ef + 1\<rparr>)
                       (apply_modifications r e))
      else filter_loop rx rs ef e)"

definition filter_process :: "'re regex_lib \<Rightarrow> Event \<Rightarrow> EventFilter \<Rightarrow> EventFilter \<times> Event \<times> bool" where
  "filter_process rx e ef =
     filter_loop rx (ef_rules ef) (ef\<lparr>ef_total_processed := ef_total_processed ef + 1\<rparr>) e"

fun would_allow_loop :: "'re regex_lib \<Rightarrow> FilterRule list \<Rightarrow> Event \<Rightarrow> bool" where
  "would_allow_loop rx [] e = True"
| "would_allow_loop rx (r # rs) e =
     (if \<not> fr_enabled r then would_allow_loop rx rs e
      else if filter_matches_rule rx r e then fr_action r \<noteq> Deny
      else would_allow_loop rx rs e)"

definition would_allow :: "'re regex_lib \<Rightarrow> Event \<Rightarrow> EventFilter \<Rightarrow> bool" where
  "would_allow rx e ef = would_allow_loop rx (ef_rules ef) e"

definition reset_stats :: "EventFilter \<Rightarrow> EventFilter" where
  "reset_stats ef =
     ef\<lparr>ef_total_processed := 0, ef_total_allowed := 0, ef_total_denied := 0, ef_total_modified := 0\<rparr>"

subsection \<open>Predefined rules\<close>

definition ignore_temp_files :: FilterRule where
  "ignore_temp_files = default_filter_rule
     \<lparr> fr_name := ''ignore_temp_files'',
       fr_description := ''Ignore file events in /tmp directory'',
       fr_action := Deny, fr_priority := 10, fr_categories := [Filesystem],
       fr_target_pattern := ''^/tmp/.*'' \<rparr>"

definition ignore_log_files :: FilterRule where
  "ignore_log_files = default_filter_rule
     \<lparr> fr_name := ''ignore_log_files'',
       fr_description := ''Ignore file events for log files'',
       fr_action := Deny, fr_priority := 10, fr_categories := [Filesystem],
       fr_target_pattern := backslash # ''.(log|log'' @ backslash # ''.[0-9]+)$'' \<rparr>"

definition ignore_system_processes :: FilterRule where
  "ignore_system_processes = default_filter_rule
     \<lparr> fr_name := ''ignore_system_processes'',
       fr_description := ''Ignore events from common system processes'',
       fr_action := Deny, fr_priority := 5, fr_categories := [Process],
       fr_source_pattern := ''^(systemd|kworker|ksoftirqd|migration|rcu_|watchdog)'' \<rparr>"

definition ignore_localhost_connections :: FilterRule where
  "ignore_localhost_connections = default_filter_rule
     \<lparr> fr_name := ''ignore_localhost_connections'',
       fr_description := ''Ignore localhost network connections'',
       fr_action := Deny, fr_priority := 5, fr_categories := [Network],
       fr_target_pattern := ''^(127'' @ backslash # ''.|::1|localhost)'' \<rparr>"

definition only_critical_events :: FilterRule where
  "only_critical_events = default_filter_rule
     \<lparr> fr_name := ''only_critical_events'',
       fr_description := ''Only allow critical event types'',
       fr_action := Allow, fr_priority := 100,
       fr_types := [FileDeleted, FilePermissionChanged, ConfigValueChanged, UserLoggedIn, UserLoggedOut] \<rparr>"

definition ignore_browser_cache :: FilterRule where
  "ignore_browser_cache = default_filter_rule
     \<lparr> fr_name := ''ignore_browser_cache'',
       fr_description := ''Ignore browser cache directory changes'',
       fr_action := Deny, fr_priority := 10, fr_categories := [Filesystem],
       fr_target_pattern := ''(Cache|cache|'' @ backslash # ''.cache|'' @ backslash # ''.mozilla|'' @
         backslash # ''.chrome|'' @ backslash # ''.config/google-chrome)'' \<rparr>"

subsection \<open>The registry\<close>

lemma stable_sort_ok [simp]: "priority_sort stable_sort"
proof -
  have "by_priority (sort_key (\<lambda>r. - fr_priority r) rs)" for rs
    using sorted_sort_key [of "\<lambda>r. - fr_priority r" rs]
    by (simp add: by_priority_def sorted_wrt_map)
  then show ?thesis by (simp add: priority_sort_def stable_sort_def)
qed

lemma priority_sort_sorted:
  "priority_sort srt \<Longrightarrow> sorted_wrt (\<lambda>a b. fr_priority b \<le> fr_priority a) (srt rs)"
  by (simp add: priority_sort_def by_priority_def)

lemma priority_sort_set: "priority_sort srt \<Longrightarrow> set (srt rs) = set rs"
  unfolding priority_sort_def by (metis set_mset_mset)

lemma priority_sort_distinct:
  assumes "priority_sort srt"
  shows "distinct (map f (srt rs)) = distinct (map f rs)"
proof -
  have "mset (map f (srt rs)) = mset (map f rs)" using assms by (simp add: priority_sort_def)
  then show ?thesis by (rule mset_eq_imp_distinct_iff)
qed

interpretation filter_registry: named_registry
  ef_rules fr_name "\<lambda>r. r" "\<lambda>b. fr_enabled_update (\<lambda>_. b)"
  "filter_add_rule stable_sort" filter_remove_rule filter_enable_rule
  by unfold_locales
     (simp_all add: filter_add_rule_def filter_remove_rule_def filter_enable_rule_def
       priority_sort_set priority_sort_distinct replace_first_named update_first_named)

definition filter_wf :: "EventFilter \<Rightarrow> bool" where
  "filter_wf ef = (distinct (map fr_name (ef_rules ef)) \<and> by_priority (ef_rules ef))"

lemma by_priority_filter: "by_priority rs \<Longrightarrow> by_priority (filter P rs)"
  by (simp add: by_priority_def sorted_wrt_filter)

lemma by_priority_update:
  "(\<And>r. fr_priority (f r) = fr_priority r) \<Longrightarrow> by_priority rs \<Longrightarrow> by_priority (update_first P f rs)"
proof -
  have "by_priority xs \<longleftrightarrow> sorted_wrt (\<ge>) (map fr_priority xs)" for xs
    by (simp add: by_priority_def sorted_wrt_map)
  then show "(\<And>r. fr_priority (f r) = fr_priority r) \<Longrightarrow> by_priority rs \<Longrightarrow> by_priority (update_first P f rs)"
    by (simp add: map_update_first)
qed

lemma filter_wf_ops [wf_simps]:
  "filter_wf new_event_filter"
  "priority_sort srt \<Longrightarrow> filter_wf ef \<Longrightarrow> filter_wf (filter_add_rule srt r ef)"
  "filter_wf ef \<Longrightarrow> filter_wf (filter_remove_rule n ef)"
  "filter_wf ef \<Longrightarrow> filter_wf (filter_enable_rule n b ef)"
  "filter_wf (filter_clear_rules ef)"
  "filter_wf ef \<Longrightarrow> filter_wf (reset_stats ef)"
  by (simp_all add: filter_wf_def new_event_filter_def filter_clear_rules_def by_priority_def
      filter_add_rule_def priority_sort_distinct replace_first_named priority_sort_sorted
      filter_remove_rule_def distinct_map_filter_fst sorted_wrt_filter reset_stats_def
      filter_enable_rule_def map_update_first by_priority_update [unfolded by_priority_def])

subsection \<open>Verdicts\<close>

definition decisive :: "'re regex_lib \<Rightarrow> Event \<Rightarrow> FilterRule \<Rightarrow> bool" where
  "decisive rx e r = (fr_enabled r \<and> filter_matches_rule rx r e)"

definition no_modify :: "FilterRule list \<Rightarrow> bool" where
  "no_modify rs = list_all (\<lambda>r. fr_enabled r \<longrightarrow> fr_action r \<noteq> Modify) rs"

lemma filter_loop_first:
  assumes "no_modify rs"
  shows "snd (filter_loop rx rs ef e) =
         (e, case find (decisive rx e) rs of None \<Rightarrow> True | Some r \<Rightarrow> fr_action r = Allow)"
  using assms
proof (induction rs)
  case (Cons r rs)
  then show ?case by (cases "fr_action r") (auto simp: no_modify_def decisive_def)
qed simp

lemma would_allow_first:
  "would_allow_loop rx rs e = (case find (decisive rx e) rs of None \<Rightarrow> True | Some r \<Rightarrow> fr_action r \<noteq> Deny)"
  by (induction rs) (auto simp: decisive_def)

lemma find_by_priority:
  assumes "by_priority rs" "find P rs = Some r"
  shows "r \<in> set rs" "P r" "\<And>x. x \<in> set rs \<Longrightarrow> P x \<Longrightarrow> fr_priority x \<le> fr_priority r"
proof -
  have "r \<in> set rs \<and> P r \<and> (\<forall>x \<in> set rs. P x \<longrightarrow> fr_priority x \<le> fr_priority r)"
    using assms
  proof (induction rs)
    case (Cons y rs)
    then show ?case by (cases "P y") (auto simp: by_priority_def)
  qed simp
  then show "r \<in> set rs" "P r" "\<And>x. x \<in> set rs \<Longrightarrow> P x \<Longrightarrow> fr_priority x \<le> fr_priority r"
    by blast+
qed

subsection \<open>Counting\<close>

lemma filter_loop_counters:
  "filter_loop rx rs ef e = (ef', e', b) \<Longrightarrow>
   ef_rules ef' = ef_rules ef \<and> ef_total_processed ef' = ef_total_processed ef \<and>
   ef_total_allowed ef' = ef_total_allowed ef + (if b then 1 else 0) \<and>
   ef_total_denied ef' = ef_total_denied ef + (if b then 0 else 1)"
proof (induction rs arbitrary: ef e)
  case (Cons r rs)
  show ?case
  proof (cases "fr_enabled r \<and> filter_matches_rule rx r e")
    case True
    then show ?thesis
      using Cons.prems Cons.IH [of "ef\<lparr>ef_total_modified := ef_total_modified ef + 1\<rparr>" "apply_modifications r e"]
      by (cases "fr_action r") auto
  next
    case False
    then show ?thesis using Cons.prems Cons.IH [of ef e] by (auto split: if_splits)
  qed
qed auto

fun filter_run :: "'re regex_lib \<Rightarrow> Event list \<Rightarrow> EventFilter \<Rightarrow> EventFilter \<times> bool list" where
  "filter_run rx [] ef = (ef, [])"
| "filter_run rx (e # es) ef =
     (let (ef1, e1, b) = filter_process rx e ef; (ef2, bs) = filter_run rx es ef1 in (ef2, b # bs))"

lemma filter_process_counters:
  assumes "filter_process rx e ef = (ef', e', b)"
  shows "ef_rules ef' = ef_rules ef" "ef_total_processed ef' = ef_total_processed ef + 1"
    "ef_total_allowed ef' = ef_total_allowed ef + (if b then 1 else 0)"
    "ef_total_denied ef' = ef_total_denied ef + (if b then 0 else 1)"
  using filter_loop_counters [OF assms [unfolded filter_process_def]] by auto

lemma filter_run_counters:
  "filter_run rx es ef = (ef', bs) \<Longrightarrow>
   length bs = length es \<and>
   ef_total_processed ef' = ef_total_processed ef + of_nat (length es) \<and>
   ef_total_allowed ef' = ef_total_allowed ef + of_nat (length (filter (\<lambda>b. b) bs)) \<and>
   ef_total_denied ef' = ef_total_denied ef + of_nat (length (filter (\<lambda>b. \<not> b) bs))"
proof (induction es arbitrary: ef ef' bs)
  case (Cons e es)
  obtain ef1 e1 b where p: "filter_process rx e ef = (ef1, e1, b)" by (metis prod_cases3)
  obtain ef2 bs2 where r: "filter_run rx es ef1 = (ef2, bs2)" by (rule prod.exhaust)
  have "ef' = ef2" "bs = b # bs2" using Cons.prems by (auto simp: p r)
  with Cons.IH [OF r] filter_process_counters [OF p] show ?case
    by (auto simp: ac_simps)
qed simp

subsection \<open>What a rule may change\<close>

definition same_identity :: "Event \<Rightarrow> Event \<Rightarrow> bool" where
  "same_identity e e' =
     (e' = e\<lparr>ev_attributes := ev_attributes e', ev_summary := ev_summary e'\<rparr> \<and>
      (event_ok e \<longrightarrow> event_ok e'))"

lemma same_identity_modify: "same_identity e e1 \<Longrightarrow> same_identity e (apply_modifications r e1)"
  by (cases e; cases e1)
     (auto simp: same_identity_def apply_modifications_def Let_def event_ok_def omap.ok_fold)

lemma filter_loop_identity:
  "filter_loop rx rs ef e1 = (ef', e', b) \<Longrightarrow> same_identity e e1 \<Longrightarrow> same_identity e e'"
proof (induction rs arbitrary: ef e1)
  case (Cons r rs)
  show ?case
  proof (cases "fr_enabled r \<and> filter_matches_rule rx r e1")
    case True
    then show ?thesis
      using Cons.prems Cons.IH [of "ef\<lparr>ef_total_modified := ef_total_modified ef + 1\<rparr>" "apply_modifications r e1"]
      by (cases "fr_action r") (auto simp: same_identity_modify)
  next
    case False
    then show ?thesis using Cons.prems Cons.IH [of ef e1] by (auto split: if_splits)
  qed
qed auto

subsection \<open>Properties\<close>

text \<open>C23: without enabled \<open>Modify\<close> rules the verdict is that of a matching enabled rule of the highest
  priority, whichever way the sort orders equal priorities: a denied event has a matching
  \<open>Deny\<close> rule of maximal priority, an allowed one has none matching or an \<open>Allow\<close> rule of
  maximal priority; the event is not changed and \<open>would_allow\<close> announces the same verdict.\<close>
theorem filter_verdict_by_priority:
  assumes "filter_wf ef" "no_modify (ef_rules ef)"
    and "filter_process rx e ef = (ef', e', allowed)"
  shows "e' = e \<and> would_allow rx e ef = allowed \<and>
    (if allowed
     then (\<forall>r \<in> set (ef_rules ef). \<not> decisive rx e r) \<or>
          (\<exists>r \<in> set (ef_rules ef). decisive rx e r \<and> fr_action r = Allow \<and>
             (\<forall>x \<in> set (ef_rules ef). decisive rx e x \<longrightarrow> fr_priority x \<le> fr_priority r))
     else (\<exists>r \<in> set (ef_rules ef). decisive rx e r \<and> fr_action r = Deny \<and>
             (\<forall>x \<in> set (ef_rules ef). decisive rx e x \<longrightarrow> fr_priority x \<le> fr_priority r)))"
proof -
  have res: "e' = e" "allowed = (case find (decisive rx e) (ef_rules ef) of None \<Rightarrow> True | Some r \<Rightarrow> fr_action r = Allow)"
    using filter_loop_first [OF assms(2), of rx "ef\<lparr>ef_total_processed := ef_total_processed ef + 1\<rparr>" e] assms(3)
    by (auto simp: filter_process_def)
  show ?thesis
  proof (cases "find (decisive rx e) (ef_rules ef)")
    case None
    then have "\<forall>r \<in> set (ef_rules ef). \<not> decisive rx e r" by (simp add: find_None_iff)
    with None show ?thesis using res by (simp add: would_allow_def would_allow_first)
  next
    case (Some r)
    have "by_priority (ef_rules ef)" using assms(1) by (simp add: filter_wf_def)
    note F = find_by_priority [OF this Some]
    have "fr_action r \<noteq> Modify"
      using F(1,2) assms(2) by (auto simp: no_modify_def decisive_def list_all_iff)
    then have "fr_action r = Allow \<or> fr_action r = Deny" by (cases "fr_action r") auto
    then show ?thesis
      using res Some F by (auto simp: would_allow_def would_allow_first)
  qed
qed

definition tmp_filter :: EventFilter where
  "tmp_filter = filter_add_rule stable_sort (ignore_temp_files\<lparr>fr_target_pattern := ''/tmp/''\<rparr>)
     (filter_add_rule stable_sort only_critical_events new_event_filter)"

lemma tmp_filter_eq:
  "ef_rules tmp_filter = [only_critical_events, ignore_temp_files\<lparr>fr_target_pattern := ''/tmp/''\<rparr>]"
  by (simp add: tmp_filter_def filter_add_rule_def new_event_filter_def stable_sort_def
      only_critical_events_def ignore_temp_files_def default_filter_rule_def)

lemma filter_wf_tmp [simp]: "filter_wf tmp_filter"
  unfolding tmp_filter_def by (intro filter_wf_ops stable_sort_ok)

definition tmp_event :: "EventType \<Rightarrow> Event" where
  "tmp_event t = (event_default 0)\<lparr>ev_category := Filesystem, ev_type := t, ev_target := ''/tmp/x''\<rparr>"

lemma decisive_tmp:
  "decisive literal_regex (tmp_event FileModified) (ignore_temp_files\<lparr>fr_target_pattern := ''/tmp/''\<rparr>)"
  "\<not> decisive literal_regex (tmp_event FileModified) only_critical_events"
  by (auto simp: decisive_def filter_matches_rule_def ignore_temp_files_def only_critical_events_def
      default_filter_rule_def tmp_event_def event_default_def pattern_passes_def literal_regex_def
      contains_def starts_with_def)

lemma filter_verdict_by_priority_witness:
  "\<exists>ef'. filter_process literal_regex (tmp_event FileModified) tmp_filter =
          (ef', tmp_event FileModified, False) \<and>
     \<not> would_allow literal_regex (tmp_event FileModified) tmp_filter"
proof -
  obtain ef' e' b where p: "filter_process literal_regex (tmp_event FileModified) tmp_filter = (ef', e', b)"
    by (metis prod_cases3)
  have "no_modify (ef_rules tmp_filter)"
    by (simp add: no_modify_def tmp_filter_eq only_critical_events_def ignore_temp_files_def default_filter_rule_def)
  note V = filter_verdict_by_priority [OF filter_wf_tmp this p]
  have "\<not> b"
    using V decisive_tmp by (cases b) (auto simp: tmp_filter_eq ignore_temp_files_def default_filter_rule_def)
  with V p show ?thesis by auto
qed

text \<open>the counters add up: over any sequence of events, starting from reset counters, the number
  processed is the number of events, the numbers allowed and denied are the numbers of the
  verdicts, and processed = allowed + denied, modulo the width of the counters.\<close>
theorem filter_counters_add_up:
  assumes "filter_run rx es (reset_stats ef) = (ef', verdicts)"
  shows "ef_total_processed ef' = of_nat (length es) \<and>
         ef_total_allowed ef' = of_nat (length (filter (\<lambda>b. b) verdicts)) \<and>
         ef_total_denied ef' = of_nat (length (filter (\<lambda>b. \<not> b) verdicts)) \<and>
         ef_total_processed ef' = ef_total_allowed ef' + ef_total_denied ef'"
proof -
  note R = filter_run_counters [OF assms]
  have "length verdicts = length (filter (\<lambda>b. b) verdicts) + length (filter (\<lambda>b. \<not> b) verdicts)"
    by (simp add: sum_length_filter_compl)
  then have "(of_nat (length es) :: u64) =
      of_nat (length (filter (\<lambda>b. b) verdicts)) + of_nat (length (filter (\<lambda>b. \<not> b) verdicts))"
    using R by (metis of_nat_add)
  with R show ?thesis by (simp add: reset_stats_def)
qed

lemma filter_counters_add_up_witness:
  "\<exists>ef' bs. filter_run literal_regex [tmp_event FileModified, tmp_event FileDeleted] (reset_stats tmp_filter) = (ef', bs) \<and>
     ef_total_processed ef' = 2"
proof -
  obtain ef' bs where r:
    "filter_run literal_regex [tmp_event FileModified, tmp_event FileDeleted] (reset_stats tmp_filter) = (ef', bs)"
    by (rule prod.exhaust)
  from filter_counters_add_up [OF r] r show ?thesis by simp
qed

text \<open>whatever rules apply, the filter changes nothing of an event but its attributes and its
  summary, and it keeps the attribute map sorted.\<close>
theorem filter_preserves_identity:
  assumes "filter_process rx e ef = (ef', e', allowed)"
  shows "e' = e\<lparr>ev_attributes := ev_attributes e', ev_summary := ev_summary e'\<rparr> \<and>
         (event_ok e \<longrightarrow> event_ok e')"
proof -
  have "same_identity e e" by (simp add: same_identity_def)
  from filter_loop_identity [OF assms [unfolded filter_process_def] this] show ?thesis
    by (simp add: same_identity_def)
qed

lemma filter_preserves_identity_witness:
  "\<exists>ef' e' b. filter_process literal_regex (tmp_event FileDeleted) tmp_filter = (ef', e', b) \<and>
     ev_target e' = ''/tmp/x''"
proof -
  obtain ef' e' b where p: "filter_process literal_regex (tmp_event FileDeleted) tmp_filter = (ef', e', b)"
    by (metis prod_cases3)
  from filter_preserves_identity [OF p] have "ev_target e' = ev_target (tmp_event FileDeleted)"
    by (metis Event.select_convs(6) Event.surjective Event.update_convs(7,8))
  with p show ?thesis by (simp add: tmp_event_def)
qed

text \<open>With a \<open>Modify\<close> rule in front of a \<open>Deny\<close> rule, \<open>would_allow\<close> and \<open>process\<close> disagree.\<close>
lemma would_allow_ignores_rules_after_modify:
  "\<exists>ef e. filter_wf ef \<and> would_allow literal_regex e ef \<and> \<not> snd (snd (filter_process literal_regex e ef))"
  by (rule exI [of _ "filter_add_rule stable_sort (default_filter_rule\<lparr>fr_name := ''m'', fr_action := Modify, fr_priority := 1\<rparr>)
        (filter_add_rule stable_sort (default_filter_rule\<lparr>fr_name := ''d'', fr_action := Deny\<rparr>) new_event_filter)"],
      rule exI [of _ "event_default 0"])
     (auto simp: filter_wf_def by_priority_def filter_add_rule_def new_event_filter_def stable_sort_def would_allow_def
       default_filter_rule_def filter_process_def filter_matches_rule_def pattern_passes_def)
end
