(* ===== verification/Security_Auditor.thy ===== *)
theory Security_Auditor
  imports Core_Event Interfaces
begin

text \<open>
  \<open>security/security_auditor.h\<close> and \<open>security/security_auditor.cpp\<close>: the detections
  (sensitive files, SUID bits, suspicious processes, root processes, suspicious ports,
  firewall and user database changes), the record of security events and the rules
  with threshold and cooldown.

  A callback may throw: it acts on a state \<open>'w\<close> and returns whether it threw.  Nothing
  catches the exception, so it ends the report and the analysis that called it; the
  Boolean every operation returns says whether an exception left it.  The clock
  readings of one report are the record \<open>sec_clock\<close>; \<open>clk i\<close> are those of the \<open>i\<close>th
  report of a call.
\<close>

datatype SecurityEventType =
    FailedLogin | SuccessfulLogin | BruteForceAttempt | SuspiciousLoginLocation
  | PrivilegeEscalation | SudoUsage | RootAccess
  | SensitiveFileAccess | PermissionChange | SuidBitSet
  | PortScan | SuspiciousOutbound | FirewallChange
  | SuspiciousProcess | ProcessInjection | HiddenProcess
  | UserCreated | UserDeleted | GroupMembershipChange | PasswordChange
  | KernelModuleLoad | ServiceStarted | ServiceStopped
  | UnknownSecurity

fun security_event_type_name :: "SecurityEventType \<Rightarrow> string" where
  "security_event_type_name FailedLogin = ''failed_login''"
| "security_event_type_name SuccessfulLogin = ''successful_login''"
| "security_event_type_name BruteForceAttempt = ''brute_force_attempt''"
| "security_event_type_name SuspiciousLoginLocation = ''suspicious_login_location''"
| "security_event_type_name PrivilegeEscalation = ''privilege_escalation''"
| "security_event_type_name SudoUsage = ''sudo_usage''"
| "security_event_type_name RootAccess = ''root_access''"
| "security_event_type_name SensitiveFileAccess = ''sensitive_file_access''"
| "security_event_type_name PermissionChange = ''permission_change''"
| "security_event_type_name SuidBitSet = ''suid_bit_set''"
| "security_event_type_name PortScan = ''port_scan''"
| "security_event_type_name SuspiciousOutbound = ''suspicious_outbound''"
| "security_event_type_name FirewallChange = ''firewall_change''"
| "security_event_type_name SuspiciousProcess = ''suspicious_process''"
| "security_event_type_name ProcessInjection = ''process_injection''"
| "security_event_type_name HiddenProcess = ''hidden_process''"
| "security_event_type_name UserCreated = ''user_created''"
| "security_event_type_name UserDeleted = ''user_deleted''"
| "security_event_type_name GroupMembershipChange = ''group_membership_change''"
| "security_event_type_name PasswordChange = ''password_change''"
| "security_event_type_name KernelModuleLoad = ''kernel_module_load''"
| "security_event_type_name ServiceStarted = ''service_started''"
| "security_event_type_name ServiceStopped = ''service_stopped''"
| "security_event_type_name UnknownSecurity = ''unknown''"

record SecurityEvent =
  se_id :: u64
  se_timestamp :: timestamp
  se_type :: SecurityEventType
  se_source :: string
  se_target :: string
  se_summary :: string
  se_severity :: int
  se_details :: "(string, string) omap"
  se_host :: string
  se_platform :: string

record SecurityRule =
  sr_name :: string
  sr_description :: string
  sr_enabled :: bool
  sr_severity :: int
  sr_event_types :: "SecurityEventType list"
  sr_condition :: "(SecurityEvent \<Rightarrow> bool) option"
  sr_threshold_count :: int
  sr_threshold_window_ms :: int
  sr_cooldown_ms :: int

record 'w SecurityAuditor =
  sa_rules :: "SecurityRule list"
  sa_events :: "SecurityEvent list"
  sa_callbacks :: "(SecurityEvent \<Rightarrow> 'w \<Rightarrow> 'w \<times> bool) list"
  sa_rule_events :: "(string, timestamp list) omap"
  sa_last_triggered :: "(string, timestamp) omap"
  sa_next_event_id :: u64

subsection \<open>Rules\<close>

definition default_security_rule :: SecurityRule where
  "default_security_rule =
     \<lparr> sr_name = [], sr_description = [], sr_enabled = True, sr_severity = 2, sr_event_types = [],
       sr_condition = None, sr_threshold_count = 1, sr_threshold_window_ms = 60000,
       sr_cooldown_ms = 300000 \<rparr>"

definition sec_failed_login_threshold :: SecurityRule where
  "sec_failed_login_threshold = default_security_rule
     \<lparr> sr_name := ''failed_login_threshold'',
       sr_description := ''Alert on multiple failed login attempts'',
       sr_severity := 3, sr_event_types := [FailedLogin],
       sr_threshold_count := 5, sr_threshold_window_ms := 60000, sr_cooldown_ms := 300000 \<rparr>"

definition sec_privilege_escalation :: SecurityRule where
  "sec_privilege_escalation = default_security_rule
     \<lparr> sr_name := ''privilege_escalation'',
       sr_description := ''Alert on privilege escalation events'',
       sr_severity := 4, sr_event_types := [PrivilegeEscalation, RootAccess],
       sr_threshold_count := 1, sr_threshold_window_ms := 60000, sr_cooldown_ms := 300000 \<rparr>"

definition sec_sensitive_file_access :: SecurityRule where
  "sec_sensitive_file_access = default_security_rule
     \<lparr> sr_name := ''sensitive_file_access'',
       sr_description := ''Alert on sensitive file access'',
       sr_severity := 3, sr_event_types := [SensitiveFileAccess],
       sr_threshold_count := 1, sr_threshold_window_ms := 60000, sr_cooldown_ms := 300000 \<rparr>"

definition sec_suspicious_process :: SecurityRule where
  "sec_suspicious_process = default_security_rule
     \<lparr> sr_name := ''suspicious_process'',
       sr_description := ''Alert on suspicious process detection'',
       sr_severity := 4, sr_event_types := [SuspiciousProcess],
       sr_threshold_count := 1, sr_threshold_window_ms := 60000, sr_cooldown_ms := 300000 \<rparr>"

definition sec_network_anomaly :: SecurityRule where
  "sec_network_anomaly = default_security_rule
     \<lparr> sr_name := ''network_anomaly'',
       sr_description := ''Alert on network security anomalies'',
       sr_severity := 3, sr_event_types := [SuspiciousOutbound, PortScan],
       sr_threshold_count := 1, sr_threshold_window_ms := 60000, sr_cooldown_ms := 300000 \<rparr>"

definition sec_firewall_change :: SecurityRule where
  "sec_firewall_change = default_security_rule
     \<lparr> sr_name := ''firewall_change'',
       sr_description := ''Alert on firewall configuration changes'',
       sr_severity := 3, sr_event_types := [FirewallChange],
       sr_threshold_count := 1, sr_threshold_window_ms := 60000, sr_cooldown_ms := 300000 \<rparr>"

definition sec_user_modification :: SecurityRule where
  "sec_user_modification = default_security_rule
     \<lparr> sr_name := ''user_modification'',
       sr_description := ''Alert on user database modifications'',
       sr_severity := 3,
       sr_event_types := [UserCreated, UserDeleted, GroupMembershipChange, PasswordChange],
       sr_threshold_count := 1, sr_threshold_window_ms := 60000, sr_cooldown_ms := 300000 \<rparr>"

definition security_add_rule :: "SecurityRule \<Rightarrow> 'w SecurityAuditor \<Rightarrow> 'w SecurityAuditor" where
  "security_add_rule rule sa =
     sa\<lparr>sa_rules := filter (\<lambda>r. sr_name r \<noteq> sr_name rule) (sa_rules sa) @ [rule]\<rparr>"

definition security_remove_rule :: "string \<Rightarrow> 'w SecurityAuditor \<Rightarrow> 'w SecurityAuditor" where
  "security_remove_rule name sa = sa\<lparr>sa_rules := filter (\<lambda>r. sr_name r \<noteq> name) (sa_rules sa)\<rparr>"

definition security_enable_rule :: "string \<Rightarrow> bool \<Rightarrow> 'w SecurityAuditor \<Rightarrow> 'w SecurityAuditor" where
  "security_enable_rule name enabled sa =
     sa\<lparr>sa_rules := update_first (\<lambda>r. sr_name r = name) (sr_enabled_update (\<lambda>_. enabled)) (sa_rules sa)\<rparr>"

definition security_get_rules :: "'w SecurityAuditor \<Rightarrow> SecurityRule list" where
  "security_get_rules sa = sa_rules sa"

definition security_clear_rules :: "'w SecurityAuditor \<Rightarrow> 'w SecurityAuditor" where
  "security_clear_rules sa = sa\<lparr>sa_rules := []\<rparr>"

definition on_security_event ::
    "(SecurityEvent \<Rightarrow> 'w \<Rightarrow> 'w \<times> bool) \<Rightarrow> 'w SecurityAuditor \<Rightarrow> 'w SecurityAuditor" where
  "on_security_event cb sa = sa\<lparr>sa_callbacks := sa_callbacks sa @ [cb]\<rparr>"

definition new_security_auditor :: "'w SecurityAuditor" where
  "new_security_auditor =
     fold security_add_rule
       [sec_failed_login_threshold, sec_privilege_escalation, sec_sensitive_file_access,
        sec_suspicious_process, sec_network_anomaly, sec_firewall_change, sec_user_modification]
       \<lparr> sa_rules = [], sa_events = [], sa_callbacks = [], sa_rule_events = [],
         sa_last_triggered = [], sa_next_event_id = 1 \<rparr>"

subsection \<open>Thresholds and cooldown\<close>

record sec_clock =
  sc_event :: timestamp
  sc_check :: timestamp
  sc_cooldown :: "nat \<Rightarrow> timestamp"
  sc_record :: "nat \<Rightarrow> timestamp"

definition elapsed_ms :: "timestamp \<Rightarrow> timestamp \<Rightarrow> int" where
  "elapsed_ms a b = tdiv (b - a) 1000000"

definition security_in_cooldown :: "timestamp \<Rightarrow> string \<Rightarrow> 'w SecurityAuditor \<Rightarrow> bool" where
  "security_in_cooldown now name sa =
     (case map_of (sa_last_triggered sa) name of
        None \<Rightarrow> False
      | Some t \<Rightarrow>
          (case find (\<lambda>r. sr_name r = name) (sa_rules sa) of
             None \<Rightarrow> False
           | Some r \<Rightarrow> elapsed_ms t now < sr_cooldown_ms r))"

definition record_rule_event :: "timestamp \<Rightarrow> string \<Rightarrow> 'w SecurityAuditor \<Rightarrow> 'w SecurityAuditor" where
  "record_rule_event now name sa =
     (let times = omap_get [] (sa_rule_events sa) name @ [now];
          window_ms = (case find (\<lambda>r. sr_name r = name) (sa_rules sa) of
                         None \<Rightarrow> 60000 | Some r \<Rightarrow> sr_threshold_window_ms r)
      in sa\<lparr>sa_rule_events :=
              omap_update name (filter (\<lambda>t. \<not> elapsed_ms t now > window_ms) times) (sa_rule_events sa)\<rparr>)"

text \<open>The loop of \<open>check_rules\<close> at rule number \<open>i\<close>.\<close>
fun check_rules :: "sec_clock \<Rightarrow> nat \<Rightarrow> SecurityRule list \<Rightarrow> SecurityEvent \<Rightarrow> 'w SecurityAuditor \<Rightarrow> 'w SecurityAuditor" where
  "check_rules c i [] e sa = sa"
| "check_rules c i (r # rs) e sa =
     (if \<not> sr_enabled r then check_rules c (Suc i) rs e sa
      else if \<not> (sr_event_types r = [] \<or> se_type e \<in> set (sr_event_types r)) then check_rules c (Suc i) rs e sa
      else if (case sr_condition r of None \<Rightarrow> False | Some f \<Rightarrow> \<not> f e) then check_rules c (Suc i) rs e sa
      else if security_in_cooldown (sc_cooldown c i) (sr_name r) sa then check_rules c (Suc i) rs e sa
      else
        (let sa1 = record_rule_event (sc_record c i) (sr_name r) sa;
             event_times = omap_get [] (sa_rule_events sa1) (sr_name r);
             cnt = int (length (filter (\<lambda>t. elapsed_ms t (sc_check c) < sr_threshold_window_ms r) event_times));
             sa2 = (if cnt \<ge> sr_threshold_count r
                    then sa1\<lparr>sa_last_triggered := omap_update (sr_name r) (sc_check c) (sa_last_triggered sa1)\<rparr>
                    else sa1)
         in check_rules c (Suc i) rs e sa2))"

subsection \<open>Reports\<close>

text \<open>The callbacks in turn, until one throws.\<close>
fun run_callbacks :: "(SecurityEvent \<Rightarrow> 'w \<Rightarrow> 'w \<times> bool) list \<Rightarrow> SecurityEvent \<Rightarrow> 'w \<Rightarrow> 'w \<times> bool" where
  "run_callbacks [] e w = (w, False)"
| "run_callbacks (cb # cbs) e w =
     (let (w1, threw) = cb e w in if threw then (w1, True) else run_callbacks cbs e w1)"

definition push_security_event :: "SecurityEvent \<Rightarrow> SecurityEvent list \<Rightarrow> SecurityEvent list" where
  "push_security_event e es =
     (let es1 = es @ [e] in if length es1 > 1000 then drop (length es1 - 1000) es1 else es1)"

definition report_security_event ::
    "sec_clock \<Rightarrow> SecurityEvent \<Rightarrow> 'w SecurityAuditor \<times> 'w \<Rightarrow> ('w SecurityAuditor \<times> 'w) \<times> bool" where
  "report_security_event c ev = (\<lambda>(sa, w).
     (let e = ev\<lparr>se_id := sa_next_event_id sa\<rparr>;
          sa1 = sa\<lparr>sa_next_event_id := sa_next_event_id sa + 1,
                   sa_events := push_security_event e (sa_events sa)\<rparr>;
          sa2 = check_rules c 0 (sa_rules sa1) e sa1;
          (w1, threw) = run_callbacks (sa_callbacks sa) ev w
      in ((sa2, w1), threw)))"

text \<open>A report followed by the rest of the handler, which an exception skips.\<close>
definition report_then ::
    "bool \<Rightarrow> sec_clock \<Rightarrow> SecurityEvent \<Rightarrow>
     ('w SecurityAuditor \<times> 'w \<Rightarrow> ('w SecurityAuditor \<times> 'w) \<times> bool) \<Rightarrow>
     'w SecurityAuditor \<times> 'w \<Rightarrow> ('w SecurityAuditor \<times> 'w) \<times> bool" where
  "report_then cond c ev rest st =
     (if cond
      then (let (st1, threw) = report_security_event c ev st in if threw then (st1, True) else rest st1)
      else rest st)"

subsection \<open>Detections\<close>

definition security_event :: "timestamp \<Rightarrow> SecurityEventType \<Rightarrow> Event \<Rightarrow> string \<Rightarrow> int \<Rightarrow> (string, string) omap \<Rightarrow> SecurityEvent" where
  "security_event now t e summary severity details =
     \<lparr> se_id = 0, se_timestamp = now, se_type = t, se_source = ev_source e, se_target = ev_target e,
       se_summary = summary, se_severity = severity, se_details = details, se_host = [], se_platform = [] \<rparr>"

definition sensitive_dirs :: "string list" where
  "sensitive_dirs = [''/root/'', ''/.ssh/'', ''/etc/cron.'']"

definition sensitive_files :: "string list" where
  "sensitive_files = [''/etc/passwd'', ''/etc/shadow'', ''/etc/sudoers'',
     ''/etc/ssh/sshd_config'', ''/etc/crontab'', ''/var/log/auth'']"

definition is_sensitive :: "string \<Rightarrow> bool" where
  "is_sensitive p =
     (list_ex (\<lambda>dir. length p \<ge> length dir \<and> take (length dir) p = dir) sensitive_dirs \<or>
      list_ex (\<lambda>file. p = file \<or>
          (length p > length file \<and> take (length file) p = file \<and> p ! length file = CHR ''/''))
        sensitive_files)"

definition suid_set :: "Event \<Rightarrow> bool" where
  "suid_set e =
     (ev_type e = FilePermissionChanged \<and>
      (case map_of (ev_attributes e) ''mode'' of None \<Rightarrow> False | Some v \<Rightarrow> contains v ''SUID''))"

type_synonym 'w analysis = "'w SecurityAuditor \<times> 'w \<Rightarrow> ('w SecurityAuditor \<times> 'w) \<times> bool"

definition no_exception :: "'w analysis" where
  "no_exception st = (st, False)"

definition analyze_file_event :: "(nat \<Rightarrow> sec_clock) \<Rightarrow> Event \<Rightarrow> 'w analysis" where
  "analyze_file_event clk e =
     report_then (is_sensitive (ev_target e)) (clk 0)
       (security_event (sc_event (clk 0)) SensitiveFileAccess e
          (''Sensitive file access: '' @ ev_target e) 3
          (omap_update ''original_summary'' (ev_summary e)
             (omap_update ''event_type'' (type_name (ev_type e)) [])))
     (report_then (suid_set e) (clk 1)
       (security_event (sc_event (clk 1)) SuidBitSet e
          (''SUID bit set on file: '' @ ev_target e) 3 [])
      no_exception)"

definition suspicious_names :: "string list" where
  "suspicious_names = [''nc'', ''ncat'', ''netcat'', ''nc.exe'', ''nmap'', ''masscan'', ''zmap'',
     ''meterpreter'', ''metasploit'', ''keylogger'', ''sniffer'', ''rootkit'', ''backdoor'']"

text \<open>The part after the last slash, in lower case.\<close>
definition proc_name :: "string \<Rightarrow> string" where
  "proc_name target = to_lower (rev (takeWhile (\<lambda>c. c \<noteq> CHR ''/'') (rev target)))"

definition started_as_root :: "Event \<Rightarrow> bool" where
  "started_as_root e =
     (ev_type e = ProcessStarted \<and>
      (case map_of (ev_attributes e) ''user'' of None \<Rightarrow> False | Some u \<Rightarrow> u = ''root'' \<or> u = ''0''))"

definition analyze_process_event :: "(nat \<Rightarrow> sec_clock) \<Rightarrow> Event \<Rightarrow> 'w analysis" where
  "analyze_process_event clk e =
     report_then (proc_name (ev_target e) \<in> set suspicious_names) (clk 0)
       (security_event (sc_event (clk 0)) SuspiciousProcess e
          (''Suspicious process detected: '' @ ev_target e) 4
          (omap_update ''original_summary'' (ev_summary e)
             (omap_update ''matched_pattern'' (proc_name (ev_target e)) [])))
     (report_then (started_as_root e) (clk 1)
       (security_event (sc_event (clk 1)) RootAccess e
          (''Process started as root: '' @ ev_target e) 2 [])
      no_exception)"

definition suspicious_ports :: "string list" where
  "suspicious_ports = [''4444'', ''5555'', ''6666'', ''7777'', ''8888'', ''9999'', ''1234'', ''31337'', ''12345'']"

definition suspicious_port :: "Event \<Rightarrow> bool" where
  "suspicious_port e =
     (case map_of (ev_attributes e) ''remote_port'' of None \<Rightarrow> False | Some p \<Rightarrow> p \<in> set suspicious_ports)"

definition analyze_network_event :: "(nat \<Rightarrow> sec_clock) \<Rightarrow> Event \<Rightarrow> 'w analysis" where
  "analyze_network_event clk e =
     (let port = omap_get [] (ev_attributes e) ''remote_port'' in
      report_then (suspicious_port e) (clk 0)
        (security_event (sc_event (clk 0)) SuspiciousOutbound e
           (''Suspicious outbound connection to port '' @ port) 4
           (omap_update ''remote_address'' (omap_get ''unknown'' (ev_attributes e) ''remote_addr'')
              (omap_update ''port'' port [])))
      no_exception)"

definition firewall_target :: "string \<Rightarrow> bool" where
  "firewall_target t =
     (contains t ''iptables'' \<or> contains t ''firewall'' \<or> contains t ''ufw'' \<or> contains t ''firewalld'')"

definition user_db_target :: "string \<Rightarrow> bool" where
  "user_db_target t = (contains t ''/etc/passwd'' \<or> contains t ''/etc/shadow'' \<or> contains t ''/etc/group'')"

definition analyze_system_event :: "(nat \<Rightarrow> sec_clock) \<Rightarrow> Event \<Rightarrow> 'w analysis" where
  "analyze_system_event clk e =
     report_then (firewall_target (ev_target e)) (clk 0)
       (security_event (sc_event (clk 0)) FirewallChange e
          (''Firewall configuration changed: '' @ ev_summary e) 3 [])
     (report_then (user_db_target (ev_target e)) (clk 1)
       (security_event (sc_event (clk 1)) UserCreated e
          (''User database modified: '' @ ev_summary e) 3 [])
      no_exception)"

definition security_process_event :: "(nat \<Rightarrow> sec_clock) \<Rightarrow> Event \<Rightarrow> 'w analysis" where
  "security_process_event clk e =
     (case ev_category e of
        Process \<Rightarrow> analyze_process_event clk e
      | Filesystem \<Rightarrow> analyze_file_event clk e
      | Network \<Rightarrow> analyze_network_event clk e
      | SystemConfig \<Rightarrow> analyze_system_event clk e
      | _ \<Rightarrow> no_exception)"

definition total_security_events :: "'w SecurityAuditor \<Rightarrow> nat" where
  "total_security_events sa = length (sa_events sa)"

definition get_recent_events :: "nat \<Rightarrow> 'w SecurityAuditor \<Rightarrow> SecurityEvent list" where
  "get_recent_events limit sa =
     (if length (sa_events sa) \<le> limit then sa_events sa
      else drop (length (sa_events sa) - limit) (sa_events sa))"

subsection \<open>The registry and the record\<close>

interpretation security_registry: named_registry
  sa_rules sr_name "\<lambda>r. r" "\<lambda>b. sr_enabled_update (\<lambda>_. b)"
  security_add_rule security_remove_rule security_enable_rule
  by unfold_locales
     (auto simp: security_add_rule_def security_remove_rule_def security_enable_rule_def
       update_first_named distinct_map_filter_fst)

interpretation security_record: bounded_log 1000 push_security_event
  by unfold_locales (simp add: push_security_event_def take_last_def Let_def)

lemma check_rules_frame [frame_simps]:
  "sa_events (check_rules c i rs e sa) = sa_events sa"
  "sa_next_event_id (check_rules c i rs e sa) = sa_next_event_id sa"
  "sa_rules (check_rules c i rs e sa) = sa_rules sa"
  "sa_callbacks (check_rules c i rs e sa) = sa_callbacks sa"
proof -
  have "sa_events (check_rules c i rs e sa) = sa_events sa \<and>
        sa_next_event_id (check_rules c i rs e sa) = sa_next_event_id sa \<and>
        sa_rules (check_rules c i rs e sa) = sa_rules sa \<and>
        sa_callbacks (check_rules c i rs e sa) = sa_callbacks sa"
    by (induction rs arbitrary: i sa) (auto simp: Let_def record_rule_event_def)
  then show "sa_events (check_rules c i rs e sa) = sa_events sa"
    "sa_next_event_id (check_rules c i rs e sa) = sa_next_event_id sa"
    "sa_rules (check_rules c i rs e sa) = sa_rules sa"
    "sa_callbacks (check_rules c i rs e sa) = sa_callbacks sa"
    by blast+
qed

definition no_throw :: "'w SecurityAuditor \<Rightarrow> bool" where
  "no_throw sa = (\<forall>cb \<in> set (sa_callbacks sa). \<forall>e w. \<not> snd (cb e w))"

lemma run_callbacks_no_throw:
  "\<forall>cb \<in> set cbs. \<forall>e w. \<not> snd (cb e w) \<Longrightarrow> \<not> snd (run_callbacks cbs e w)"
proof (induction cbs arbitrary: w)
  case (Cons cb cbs)
  then have "\<not> snd (cb e w)" by simp
  then show ?case using Cons by (auto simp: case_prod_beta Let_def)
qed simp

lemma report_result:
  assumes "report_security_event c ev (sa, w) = ((sa', w'), threw)"
  shows "sa_events sa' = push_security_event (ev\<lparr>se_id := sa_next_event_id sa\<rparr>) (sa_events sa)"
    "sa_next_event_id sa' = sa_next_event_id sa + 1" "sa_callbacks sa' = sa_callbacks sa"
    "sa_rules sa' = sa_rules sa" "(w', threw) = run_callbacks (sa_callbacks sa) ev w"
  using assms
  by (auto simp: report_security_event_def Let_def check_rules_frame split: prod.splits)

text \<open>What the recorded events look like without their ids.\<close>
abbreviation strip_ids :: "SecurityEvent list \<Rightarrow> SecurityEvent list" where
  "strip_ids \<equiv> map (\<lambda>e. e\<lparr>se_id := 0\<rparr>)"

text \<open>\<open>f\<close> records exactly the events \<open>es\<close> and returns without an exception.\<close>
definition records :: "'w analysis \<Rightarrow> SecurityEvent list \<Rightarrow> bool" where
  "records f es =
     (\<forall>sa w. no_throw sa \<longrightarrow>
       (\<exists>sa' w'. f (sa, w) = ((sa', w'), False) \<and> no_throw sa' \<and>
          (\<exists>new. strip_ids new = strip_ids es \<and> sa_events sa' = fold push_security_event new (sa_events sa) \<and>
             map se_id new = map (\<lambda>i. sa_next_event_id sa + of_nat i) [0..<length new] \<and>
             sa_next_event_id sa' = sa_next_event_id sa + of_nat (length new))))"

lemma recordsD:
  assumes "records f es" "no_throw sa"
  shows "\<exists>sa' w' new. f (sa, w) = ((sa', w'), False) \<and> no_throw sa' \<and> strip_ids new = strip_ids es \<and>
           sa_events sa' = fold push_security_event new (sa_events sa) \<and>
           map se_id new = map (\<lambda>i. sa_next_event_id sa + of_nat i) [0..<length new] \<and>
           sa_next_event_id sa' = sa_next_event_id sa + of_nat (length new)"
  using assms unfolding records_def by fast

lemma records_none: "records no_exception []"
  by (auto simp: records_def no_exception_def intro: exI [of _ "[]"])

lemma records_then:
  assumes "records rest es"
  shows "records (report_then cond c ev rest) ((if cond then [ev] else []) @ es)"
proof (cases cond)
  case False
  with assms show ?thesis by (simp add: records_def report_then_def)
next
  case True
  show ?thesis
    unfolding records_def
  proof (intro allI impI)
    fix sa :: "'a SecurityAuditor" and w
    assume nt: "no_throw sa"
    obtain sa1 w1 threw where r: "report_security_event c ev (sa, w) = ((sa1, w1), threw)"
      by (metis prod.exhaust)
    note R = report_result [OF r]
    have "\<not> threw" using R(5) run_callbacks_no_throw [of "sa_callbacks sa" ev w] nt
      by (metis no_throw_def snd_conv)
    moreover have "no_throw sa1" using nt R(3) by (simp add: no_throw_def)
    ultimately obtain sa' w' new where N: "rest (sa1, w1) = ((sa', w'), False)" "no_throw sa'"
        "strip_ids new = strip_ids es" "sa_events sa' = fold push_security_event new (sa_events sa1)"
        "map se_id new = map (\<lambda>i. sa_next_event_id sa1 + of_nat i) [0..<length new]"
        "sa_next_event_id sa' = sa_next_event_id sa1 + of_nat (length new)"
      using assms unfolding records_def by blast
    let ?new = "(ev\<lparr>se_id := sa_next_event_id sa\<rparr>) # new"
    have "map se_id ?new = map (\<lambda>i. sa_next_event_id sa + of_nat i) [0..<length ?new]"
      using N(5) R(2)
      by (simp add: upt_conv_Cons map_Suc_upt [symmetric] comp_def algebra_simps del: upt_Suc)
    then show "\<exists>sa' w'. report_then cond c ev rest (sa, w) = ((sa', w'), False) \<and> no_throw sa' \<and>
          (\<exists>new. strip_ids new = strip_ids ((if cond then [ev] else []) @ es) \<and>
             sa_events sa' = fold push_security_event new (sa_events sa) \<and>
             map se_id new = map (\<lambda>i. sa_next_event_id sa + of_nat i) [0..<length new] \<and>
             sa_next_event_id sa' = sa_next_event_id sa + of_nat (length new))"
      using True r \<open>\<not> threw\<close> N R
      by (intro exI [of _ sa'] exI [of _ w'] conjI exI [of _ ?new])
         (auto simp: report_then_def algebra_simps)
  qed
qed

text \<open>The security events an event gives rise to, in the order of the checks.\<close>
definition detections :: "(nat \<Rightarrow> sec_clock) \<Rightarrow> Event \<Rightarrow> SecurityEvent list" where
  "detections clk e =
     (case ev_category e of
        Filesystem \<Rightarrow>
          (if is_sensitive (ev_target e)
           then [security_event (sc_event (clk 0)) SensitiveFileAccess e
                  (''Sensitive file access: '' @ ev_target e) 3
                  [(''event_type'', type_name (ev_type e)), (''original_summary'', ev_summary e)]] else []) @
          (if suid_set e
           then [security_event (sc_event (clk 1)) SuidBitSet e (''SUID bit set on file: '' @ ev_target e) 3 []]
           else [])
      | Process \<Rightarrow>
          (if proc_name (ev_target e) \<in> set suspicious_names
           then [security_event (sc_event (clk 0)) SuspiciousProcess e
                  (''Suspicious process detected: '' @ ev_target e) 4
                  [(''matched_pattern'', proc_name (ev_target e)), (''original_summary'', ev_summary e)]] else []) @
          (if started_as_root e
           then [security_event (sc_event (clk 1)) RootAccess e (''Process started as root: '' @ ev_target e) 2 []]
           else [])
      | Network \<Rightarrow>
          (if suspicious_port e
           then [security_event (sc_event (clk 0)) SuspiciousOutbound e
                  (''Suspicious outbound connection to port '' @ omap_get [] (ev_attributes e) ''remote_port'') 4
                  [(''port'', omap_get [] (ev_attributes e) ''remote_port''),
                   (''remote_address'', omap_get ''unknown'' (ev_attributes e) ''remote_addr'')]] else [])
      | SystemConfig \<Rightarrow>
          (if firewall_target (ev_target e)
           then [security_event (sc_event (clk 0)) FirewallChange e
                  (''Firewall configuration changed: '' @ ev_summary e) 3 []] else []) @
          (if user_db_target (ev_target e)
           then [security_event (sc_event (clk 1)) UserCreated e (''User database modified: '' @ ev_summary e) 3 []]
           else [])
      | _ \<Rightarrow> [])"

lemma records_process_event: "records (security_process_event clk e) (detections clk e)"
proof -
  have d: "omap_update ''original_summary'' s (omap_update ''event_type'' t []) =
        [(''event_type'', t), (''original_summary'', s)]"
    "omap_update ''original_summary'' s (omap_update ''matched_pattern'' t []) =
        [(''matched_pattern'', t), (''original_summary'', s)]"
    "omap_update ''remote_address'' s (omap_update ''port'' t []) =
        [(''port'', t), (''remote_address'', s)]" for s t :: string
    by simp_all
  note two = records_then [OF records_then [OF records_none], unfolded append_Nil2]
    and one = records_then [OF records_none, unfolded append_Nil2]
  show ?thesis
  proof (cases "ev_category e")
    case Filesystem
    show ?thesis
      unfolding security_process_event_def detections_def Filesystem EventCategory.case analyze_file_event_def d
      by (rule two)
  next
    case Process
    show ?thesis
      unfolding security_process_event_def detections_def Process EventCategory.case analyze_process_event_def d
      by (rule two)
  next
    case Network
    show ?thesis
      unfolding security_process_event_def detections_def Network EventCategory.case analyze_network_event_def d Let_def
      by (rule one)
  next
    case SystemConfig
    show ?thesis
      unfolding security_process_event_def detections_def SystemConfig EventCategory.case analyze_system_event_def
      by (rule two)
  qed (simp_all add: security_process_event_def detections_def records_none)
qed

subsection \<open>Properties\<close>

text \<open>C24: when no callback throws, an event is recorded as exactly the security events of the checks
  that apply to its category, in order; the record keeps the newest 1000 and the ids given out
  are consecutive.\<close>
theorem security_records_detections:
  assumes "no_throw sa" "length (sa_events sa) \<le> 1000"
  shows "\<exists>sa' w' new. security_process_event clk e (sa, w) = ((sa', w'), False) \<and>
           strip_ids new = detections clk e \<and>
           map se_id new = map (\<lambda>i. sa_next_event_id sa + of_nat i) [0..<length new] \<and>
           sa_events sa' = take_last 1000 (sa_events sa @ new)"
proof -
  from recordsD [OF records_process_event [of clk e] assms(1), of w]
  obtain sa' w' new where N: "security_process_event clk e (sa, w) = ((sa', w'), False)"
      "strip_ids new = strip_ids (detections clk e)"
      "sa_events sa' = fold push_security_event new (sa_events sa)"
      "map se_id new = map (\<lambda>i. sa_next_event_id sa + of_nat i) [0..<length new]"
    by blast
  moreover have "strip_ids (detections clk e) = detections clk e"
    by (auto simp: detections_def security_event_def split: EventCategory.split)
  moreover have "fold push_security_event new (sa_events sa) = take_last 1000 (sa_events sa @ new)"
    using security_record.fold_push [of new "sa_events sa"] assms(2) by simp
  ultimately show ?thesis by auto
qed

definition sec_clock_at :: "timestamp \<Rightarrow> nat \<Rightarrow> sec_clock" where
  "sec_clock_at t = (\<lambda>_. \<lparr> sc_event = t, sc_check = t, sc_cooldown = (\<lambda>_. t), sc_record = (\<lambda>_. t) \<rparr>)"

definition passwd_event :: Event where
  "passwd_event = (event_default 0)\<lparr>ev_category := Filesystem, ev_type := FileModified,
     ev_target := ''/etc/passwd''\<rparr>"

lemma new_security_auditor_fields [simp]:
  "sa_events new_security_auditor = []" "sa_callbacks new_security_auditor = []"
  "sa_next_event_id new_security_auditor = 1"
  by (simp_all add: new_security_auditor_def security_add_rule_def)

lemma security_records_detections_witness:
  "\<exists>sa' w'. security_process_event (sec_clock_at 5) passwd_event (new_security_auditor, ()) = ((sa', w'), False) \<and>
     map se_type (sa_events sa') = [SensitiveFileAccess]"
proof -
  have "no_throw (new_security_auditor :: unit SecurityAuditor)" by (simp add: no_throw_def)
  from security_records_detections [OF this, of "sec_clock_at 5" passwd_event "()"]
  obtain sa' w' new where N:
      "security_process_event (sec_clock_at 5) passwd_event (new_security_auditor, ()) = ((sa', w'), False)"
      "strip_ids new = detections (sec_clock_at 5) passwd_event" "sa_events sa' = take_last 1000 new"
    by auto
  have "map se_type (strip_ids new) = map se_type (detections (sec_clock_at 5) passwd_event)"
    using N(2) by simp
  then have "map se_type new = [SensitiveFileAccess]"
    by (simp add: comp_def detections_def passwd_event_def event_default_def is_sensitive_def sensitive_dirs_def
        sensitive_files_def suid_set_def security_event_def)
  moreover from this have "length new = 1" by (metis length_map length_Cons list.size(3) One_nat_def)
  ultimately show ?thesis using N by auto
qed

text \<open>a path is sensitive exactly when it lies in one of the directories, read as prefixes, or is
  one of the files or below it: \<open>/etc/passwd\<close> is, \<open>/etc/passwd-\<close> is not.\<close>
theorem sensitive_path_iff:
  "is_sensitive p \<longleftrightarrow>
     (\<exists>d \<in> set sensitive_dirs. \<exists>rest. p = d @ rest) \<or>
     (\<exists>f \<in> set sensitive_files. p = f \<or> (\<exists>rest. p = f @ ''/'' @ rest))"
proof -
  have d: "length p \<ge> length d \<and> take (length d) p = d \<longleftrightarrow> (\<exists>rest. p = d @ rest)" for d
    by (metis append_eq_conv_conj append_take_drop_id le_add1 length_append)
  have f: "length p > length f \<and> take (length f) p = f \<and> p ! length f = CHR ''/'' \<longleftrightarrow>
      (\<exists>rest. p = f @ ''/'' @ rest)" for f
  proof
    assume "length p > length f \<and> take (length f) p = f \<and> p ! length f = CHR ''/''"
    then have "p = f @ CHR ''/'' # drop (Suc (length f)) p"
      by (metis id_take_nth_drop)
    then show "\<exists>rest. p = f @ ''/'' @ rest" by auto
  qed auto
  show ?thesis unfolding is_sensitive_def d f list_ex_iff by blast
qed

text \<open>a process is judged by its file name alone, whatever the directory and the case: a suspicious
  name in a longer one, as \<open>nc\<close> in \<open>sync\<close>, does not count.\<close>
theorem proc_name_is_file_name:
  assumes "CHR ''/'' \<notin> set name"
  shows "proc_name (dir @ ''/'' @ name) = to_lower name \<and> proc_name name = to_lower name"
proof -
  have "takeWhile (\<lambda>c. c \<noteq> CHR ''/'') (rev name) = rev name"
    using assms by (auto simp: takeWhile_eq_all_conv)
  moreover have "takeWhile (\<lambda>c. c \<noteq> CHR ''/'') (rev name @ CHR ''/'' # rev dir) = rev name"
    using assms by (subst takeWhile_append2) auto
  ultimately show ?thesis by (simp add: proc_name_def del: takeWhile_eq_all_conv)
qed

lemma proc_name_is_file_name_witness:
  "proc_name (''/usr/bin'' @ ''/'' @ ''NMAP'') \<in> set suspicious_names \<and> proc_name ''sync'' \<notin> set suspicious_names"
proof -
  have "proc_name (''/usr/bin'' @ ''/'' @ ''NMAP'') = to_lower ''NMAP''" "proc_name ''sync'' = to_lower ''sync''"
    using proc_name_is_file_name [of "''NMAP''" "''/usr/bin''"] proc_name_is_file_name [of "''sync''"] by simp_all
  moreover have "to_lower ''NMAP'' = ''nmap''" "to_lower ''sync'' = ''sync''" by code_simp+
  ultimately show ?thesis by (simp add: suspicious_names_def)
qed

text \<open>an exception of a callback ends the handler: the report that raised it is recorded, no
  callback after it runs and the checks after it are skipped.\<close>
theorem callback_exception_aborts:
  assumes "sa_callbacks sa = cb # cbs" "snd (cb ev w)" "cond"
  shows "\<exists>sa'. report_then cond c ev rest (sa, w) = ((sa', fst (cb ev w)), True) \<and>
           sa_events sa' = push_security_event (ev\<lparr>se_id := sa_next_event_id sa\<rparr>) (sa_events sa)"
  using assms
  by (auto simp: report_then_def report_security_event_def Let_def check_rules_frame split: prod.splits)

definition throwing_auditor :: "nat SecurityAuditor" where
  "throwing_auditor = on_security_event (\<lambda>e n. (n + 1, True)) new_security_auditor"

definition root_nc :: Event where
  "root_nc = (event_default 0)\<lparr>ev_category := Process, ev_type := ProcessStarted, ev_target := ''/bin/nc'',
     ev_attributes := [(''user'', ''root'')]\<rparr>"

lemma callback_exception_aborts_witness:
  "\<exists>sa'. report_then True (sec_clock_at 0 0) (security_event 0 SuspiciousProcess root_nc [] 4 [])
           no_exception (throwing_auditor, 0) = ((sa', 1), True) \<and>
         length (sa_events sa') = 1"
proof -
  have "sa_callbacks throwing_auditor = [\<lambda>e n. (n + 1, True)]"
    by (simp add: throwing_auditor_def on_security_event_def)
  from callback_exception_aborts [OF this, where ev = "security_event 0 SuspiciousProcess root_nc [] 4 []" and w = 0
      and cond = True and c = "sec_clock_at 0 0" and rest = no_exception, simplified]
  show ?thesis
    by (auto simp: throwing_auditor_def on_security_event_def push_security_event_def)
qed

text \<open>The callbacks receive the event before its id is assigned.\<close>
lemma callbacks_see_no_id:
  "report_security_event c (security_event t ty e s sev d) (sa, w) = ((sa', w'), threw) \<Longrightarrow>
   (w', threw) = run_callbacks (sa_callbacks sa) (security_event t ty e s sev d) w \<and>
   se_id (security_event t ty e s sev d) = 0"
  using report_result(5) by (simp add: security_event_def)

text \<open>The directory \<open>.ssh\<close> of a user is not sensitive: the entry is a prefix of the whole path.\<close>
lemma home_ssh_not_sensitive: "\<not> is_sensitive ''/home/u/.ssh/id_rsa''"
  by (simp add: is_sensitive_def sensitive_dirs_def sensitive_files_def)
end
