(* ===== verification/Statistics.thy ===== *)
theory Statistics
  imports Core_Event Complex_Main "HOL-Library.Multiset"
begin

text \<open>
  \<open>stats/statistics.h\<close> and \<open>stats/statistics.cpp\<close>: event counters per category, type,
  source and target, minute and hour buckets, and the queries over them.

  The mutex is part of the state: \<open>std::mutex\<close> is not recursive, so an operation that
  locks it while it is held does not return.  A result is an \<open>Inl\<close> for a call that
  deadlocks or throws \<open>std::out_of_range\<close>.  Rates are exact rationals, and \<open>fmt\<close>
  stands for the stream's fixed two-digit format.  \<open>std::sort\<close> leaves the order of
  equal counts open: it is the parameter \<open>srt\<close>.
\<close>

datatype stats_error = Deadlock | OutOfRange | LengthError

type_synonym ranking = "(string \<times> u64) list"

record EventStats =
  es_total_events :: u64
  es_events_per_category :: "u64 list"
  es_events_last_minute :: u64
  es_events_last_hour :: u64
  es_events_last_day :: u64
  es_events_per_second :: rat
  es_events_per_minute :: rat
  es_top_sources :: ranking
  es_top_targets :: ranking
  es_start_time :: timestamp
  es_last_update :: timestamp

record TimeSeriesPoint =
  tp_timestamp :: timestamp
  tp_count :: u64

record TimeSeries =
  ts_points :: "TimeSeriesPoint list"
  ts_resolution :: int
  ts_retention :: int

record StatisticsCollector =
  stc_mutex_held :: bool
  stc_total_events :: u64
  stc_category_counts :: "(EventCategory, u64) omap"
  stc_type_counts :: "(EventType, u64) omap"
  stc_source_counts :: "(string, u64) omap"
  stc_target_counts :: "(string, u64) omap"
  stc_minute_buckets :: "(int, u64) omap"
  stc_hour_buckets :: "(int, u64) omap"
  stc_start_time :: timestamp
  stc_last_update :: timestamp

definition new_statistics :: "timestamp \<Rightarrow> timestamp \<Rightarrow> StatisticsCollector" where
  "new_statistics t1 t2 =
     \<lparr> stc_mutex_held = False, stc_total_events = 0,
       stc_category_counts = omap_update UnknownCategory 0 (omap_update SystemConfig 0
         (omap_update Network 0 (omap_update Process 0 (omap_update Filesystem 0 [])))),
       stc_type_counts = [], stc_source_counts = [], stc_target_counts = [],
       stc_minute_buckets = [], stc_hour_buckets = [], stc_start_time = t1, stc_last_update = t2 \<rparr>"

text \<open>\<open>m[k]++\<close>\<close>
definition bump :: "'k::linorder \<Rightarrow> ('k, u64) omap \<Rightarrow> ('k, u64) omap" where
  "bump k m = omap_update k (omap_get 0 m k + 1) m"

definition unix_minute :: "timestamp \<Rightarrow> int" where
  "unix_minute t = tdiv (to_unix_ms t) 60000"

definition unix_hour :: "timestamp \<Rightarrow> int" where
  "unix_hour t = tdiv (to_unix_ms t) 3600000"

definition min_cutoff :: "timestamp \<Rightarrow> int" where
  "min_cutoff now = tdiv (to_unix_ms now - 7200000) 60000"

definition hour_cutoff :: "timestamp \<Rightarrow> int" where
  "hour_cutoff now = tdiv (to_unix_ms now - 2592000000) 3600000"

definition prune_time_buckets :: "timestamp \<Rightarrow> StatisticsCollector \<Rightarrow> StatisticsCollector" where
  "prune_time_buckets now s =
     s\<lparr>stc_minute_buckets := filter (\<lambda>p. \<not> fst p < min_cutoff now) (stc_minute_buckets s),
       stc_hour_buckets := filter (\<lambda>p. \<not> fst p < hour_cutoff now) (stc_hour_buckets s)\<rparr>"

text \<open>Entering and leaving the scope of a \<open>lock_guard\<close>.\<close>
definition lock_guard :: "StatisticsCollector \<Rightarrow> stats_error + StatisticsCollector" where
  "lock_guard s = (if stc_mutex_held s then Inl Deadlock else Inr (s\<lparr>stc_mutex_held := True\<rparr>))"

definition unlock :: "StatisticsCollector \<Rightarrow> StatisticsCollector" where
  "unlock s = s\<lparr>stc_mutex_held := False\<rparr>"

text \<open>The clock is read for \<open>last_update_\<close>, and again when the buckets are pruned.\<close>
definition stats_record :: "timestamp \<Rightarrow> timestamp \<Rightarrow> Event \<Rightarrow> StatisticsCollector \<Rightarrow> stats_error + StatisticsCollector" where
  "stats_record now1 now2 e s =
     (let s1 = s\<lparr>stc_total_events := stc_total_events s + 1,
                 stc_category_counts := bump (ev_category e) (stc_category_counts s),
                 stc_type_counts := bump (ev_type e) (stc_type_counts s)\<rparr>
      in case lock_guard s1 of
           Inl err \<Rightarrow> Inl err
         | Inr s2 \<Rightarrow>
             (let s3 = s2\<lparr>stc_source_counts := bump (ev_source e) (stc_source_counts s2),
                          stc_target_counts := bump (ev_target e) (stc_target_counts s2),
                          stc_minute_buckets := bump (unix_minute (ev_timestamp e)) (stc_minute_buckets s2),
                          stc_hour_buckets := bump (unix_hour (ev_timestamp e)) (stc_hour_buckets s2),
                          stc_last_update := now1\<rparr>;
                  s4 = (if length (stc_minute_buckets s3) > 120 then prune_time_buckets now2 s3 else s3)
              in Inr (unlock s4)))"

definition map_at :: "('k, 'v) omap \<Rightarrow> 'k \<Rightarrow> stats_error + 'v" where
  "map_at m k = (case map_of m k of None \<Rightarrow> Inl OutOfRange | Some v \<Rightarrow> Inr v)"

definition count_by_category :: "EventCategory \<Rightarrow> StatisticsCollector \<Rightarrow> stats_error + u64" where
  "count_by_category c s = map_at (stc_category_counts s) c"

definition count_by_type :: "EventType \<Rightarrow> StatisticsCollector \<Rightarrow> u64" where
  "count_by_type t s = (case map_of (stc_type_counts s) t of Some n \<Rightarrow> n | None \<Rightarrow> 0)"

definition sum_buckets :: "(int \<Rightarrow> bool) \<Rightarrow> (int, u64) omap \<Rightarrow> u64" where
  "sum_buckets P m = foldl (\<lambda>acc p. if P (fst p) then acc + snd p else acc) 0 m"

definition count_in_range :: "timestamp \<Rightarrow> timestamp \<Rightarrow> StatisticsCollector \<Rightarrow> stats_error + u64" where
  "count_in_range from to s =
     (case lock_guard s of
        Inl err \<Rightarrow> Inl err
      | Inr s1 \<Rightarrow>
          Inr (sum_buckets (\<lambda>m. m \<ge> unix_minute from \<and> m \<le> unix_minute to) (stc_minute_buckets s1)))"

definition by_count :: "ranking \<Rightarrow> bool" where
  "by_count r = sorted_wrt (\<lambda>a b. snd a \<ge> snd b) r"

definition count_sort :: "(ranking \<Rightarrow> ranking) \<Rightarrow> bool" where
  "count_sort srt = (\<forall>r. mset (srt r) = mset r \<and> by_count (srt r))"

text \<open>\<open>resize(n)\<close> is only reached with more than \<open>n\<close> elements; a negative \<open>n\<close> is converted to
  a huge unsigned size, for which \<open>resize\<close> throws \<open>length_error\<close>.\<close>
definition top_of :: "(ranking \<Rightarrow> ranking) \<Rightarrow> int \<Rightarrow> (string, u64) omap \<Rightarrow> stats_error + ranking" where
  "top_of srt n m =
     (let result = srt m in
      if int (length result) > n
      then (if n < 0 then Inl LengthError else Inr (take (nat n) result))
      else Inr result)"

definition top_sources :: "(ranking \<Rightarrow> ranking) \<Rightarrow> int \<Rightarrow> StatisticsCollector \<Rightarrow> stats_error + ranking" where
  "top_sources srt n s =
     (case lock_guard s of Inl err \<Rightarrow> Inl err | Inr s1 \<Rightarrow> top_of srt n (stc_source_counts s1))"

definition top_targets :: "(ranking \<Rightarrow> ranking) \<Rightarrow> int \<Rightarrow> StatisticsCollector \<Rightarrow> stats_error + ranking" where
  "top_targets srt n s =
     (case lock_guard s of Inl err \<Rightarrow> Inl err | Inr s1 \<Rightarrow> top_of srt n (stc_target_counts s1))"

definition sum_bind :: "stats_error + 'a \<Rightarrow> ('a \<Rightarrow> stats_error + 'b) \<Rightarrow> stats_error + 'b" where
  "sum_bind r f = case_sum Inl f r"

lemma sum_bind_simps [simp]:
  "sum_bind (Inl err) f = Inl err" "sum_bind (Inr v) f = f v"
  by (simp_all add: sum_bind_def)

text \<open>\<open>now1\<close> is read for the buckets, \<open>now2\<close> for the elapsed time.\<close>
definition get_stats ::
    "(ranking \<Rightarrow> ranking) \<Rightarrow> timestamp \<Rightarrow> timestamp \<Rightarrow> StatisticsCollector \<Rightarrow> stats_error + EventStats" where
  "get_stats srt now1 now2 s =
     sum_bind (map_at (stc_category_counts s) Filesystem) (\<lambda>c0.
     sum_bind (map_at (stc_category_counts s) Process) (\<lambda>c1.
     sum_bind (map_at (stc_category_counts s) Network) (\<lambda>c2.
     sum_bind (map_at (stc_category_counts s) SystemConfig) (\<lambda>c3.
     sum_bind (map_at (stc_category_counts s) UnknownCategory) (\<lambda>c4.
     sum_bind (lock_guard s) (\<lambda>s1.
     (let now_ms = to_unix_ms now1;
          one_min_ago = tdiv (now_ms - 60000) 60000;
          one_hour_ago = tdiv (now_ms - 3600000) 3600000;
          one_day_ago = tdiv (now_ms - 86400000) 3600000;
          elapsed = tdiv (now2 - stc_start_time s) 1000000000;
          per_second = (if elapsed > 0 then of_nat (unat (stc_total_events s)) / of_int elapsed else 0)
      in sum_bind (top_sources srt 10 s1) (\<lambda>srcs.
         sum_bind (top_targets srt 10 s1) (\<lambda>tgts.
         Inr \<lparr> es_total_events = stc_total_events s,
               es_events_per_category = [c0, c1, c2, c3, c4],
               es_events_last_minute = sum_buckets (\<lambda>m. m \<ge> one_min_ago) (stc_minute_buckets s1),
               es_events_last_hour = sum_buckets (\<lambda>h. h \<ge> one_hour_ago) (stc_hour_buckets s1),
               es_events_last_day = sum_buckets (\<lambda>h. h \<ge> one_day_ago) (stc_hour_buckets s1),
               es_events_per_second = per_second,
               es_events_per_minute = per_second * 60,
               es_top_sources = srcs, es_top_targets = tgts,
               es_start_time = stc_start_time s, es_last_update = stc_last_update s \<rparr>)))))))))"

definition series_points :: "int \<Rightarrow> int \<Rightarrow> int \<Rightarrow> (int, u64) omap \<Rightarrow> TimeSeriesPoint list" where
  "series_points unit_ms from to m =
     map (\<lambda>k. \<lparr> tp_timestamp = from_unix_ms (k * unit_ms), tp_count = omap_get 0 m k \<rparr>) [from..to]"

text \<open>Resolution and duration in seconds.\<close>
definition get_time_series :: "int \<Rightarrow> int \<Rightarrow> timestamp \<Rightarrow> StatisticsCollector \<Rightarrow> stats_error + TimeSeries" where
  "get_time_series resolution duration now s =
     (let now_ms = to_unix_ms now; start_ms = now_ms - duration * 1000 in
      case lock_guard s of
        Inl err \<Rightarrow> Inl err
      | Inr s1 \<Rightarrow>
          Inr \<lparr> ts_points =
                  (if resolution = 60
                   then series_points 60000 (tdiv start_ms 60000) (tdiv now_ms 60000) (stc_minute_buckets s1)
                   else if resolution = 3600
                   then series_points 3600000 (tdiv start_ms 3600000) (tdiv now_ms 3600000) (stc_hour_buckets s1)
                   else []),
                ts_resolution = resolution, ts_retention = duration \<rparr>)"

definition stats_reset :: "timestamp \<Rightarrow> timestamp \<Rightarrow> StatisticsCollector \<Rightarrow> stats_error + StatisticsCollector" where
  "stats_reset t1 t2 s =
     (case lock_guard s of
        Inl err \<Rightarrow> Inl err
      | Inr s1 \<Rightarrow>
          Inr (unlock (s1\<lparr>stc_total_events := 0,
                 stc_category_counts := map (\<lambda>(c, _). (c, 0)) (stc_category_counts s1),
                 stc_type_counts := [], stc_source_counts := [], stc_target_counts := [],
                 stc_minute_buckets := [], stc_hour_buckets := [],
                 stc_start_time := t1, stc_last_update := t2\<rparr>)))"

definition ranking_json :: "string \<Rightarrow> ranking \<Rightarrow> string" where
  "ranking_json key r =
     join_with '', ''
       (map (\<lambda>(s, n). ''{'' @ [dquote] @ key @ [dquote] @ '': '' @ [dquote] @ s @ [dquote] @ '', '' @
                      [dquote] @ ''count'' @ [dquote] @ '': '' @ word_str n @ ''}'') r)"

definition json_line :: "string \<Rightarrow> string \<Rightarrow> string \<Rightarrow> string \<Rightarrow> string" where
  "json_line indent key val end_text = indent @ [dquote] @ key @ [dquote] @ '': '' @ val @ end_text @ [nl]"

definition stats_to_json ::
    "(rat \<Rightarrow> string) \<Rightarrow> (ranking \<Rightarrow> ranking) \<Rightarrow> timestamp \<Rightarrow> timestamp \<Rightarrow> StatisticsCollector \<Rightarrow> stats_error + string" where
  "stats_to_json fmt srt now1 now2 s =
     sum_bind (get_stats srt now1 now2 s) (\<lambda>st.
       Inr (''{'' @ [nl] @
         json_line ''  '' ''total_events'' (word_str (es_total_events st)) '','' @
         json_line ''  '' ''events_per_second'' (fmt (es_events_per_second st)) '','' @
         json_line ''  '' ''events_per_minute'' (fmt (es_events_per_minute st)) '','' @
         json_line ''  '' ''events_last_minute'' (word_str (es_events_last_minute st)) '','' @
         json_line ''  '' ''events_last_hour'' (word_str (es_events_last_hour st)) '','' @
         json_line ''  '' ''events_last_day'' (word_str (es_events_last_day st)) '','' @
         json_line ''  '' ''by_category'' ''{'' [] @
         json_line ''    '' ''filesystem'' (word_str (es_events_per_category st ! 0)) '','' @
         json_line ''    '' ''process'' (word_str (es_events_per_category st ! 1)) '','' @
         json_line ''    '' ''network'' (word_str (es_events_per_category st ! 2)) '','' @
         json_line ''    '' ''system_config'' (word_str (es_events_per_category st ! 3)) '','' @
         json_line ''    '' ''unknown'' (word_str (es_events_per_category st ! 4)) [] @
         ''  },'' @ [nl] @
         json_line ''  '' ''top_sources'' (''['' @ ranking_json ''source'' (es_top_sources st) @ '']'') '','' @
         json_line ''  '' ''top_targets'' (''['' @ ranking_json ''target'' (es_top_targets st) @ '']'') [] @
         ''}'' @ [nl]))"

subsection \<open>Formatting\<close>

definition format_count :: "u64 \<Rightarrow> string" where
  "format_count n =
     (if n \<ge> 1000000000 then word_str (n div 1000000000) @ ''B''
      else if n \<ge> 1000000 then word_str (n div 1000000) @ ''M''
      else if n \<ge> 1000 then word_str (n div 1000) @ ''K''
      else word_str n)"

definition format_rate :: "(rat \<Rightarrow> string) \<Rightarrow> rat \<Rightarrow> string" where
  "format_rate fmt rate =
     (if rate \<ge> 1000000 then fmt (rate / 1000000) @ ''M/s''
      else if rate \<ge> 1000 then fmt (rate / 1000) @ ''K/s''
      else if rate \<ge> 1 then fmt rate @ ''/s''
      else if rate \<ge> 167 / 10000 then fmt (rate * 60) @ ''/min''
      else if rate \<ge> 278 / 1000000 then fmt (rate * 3600) @ ''/hr''
      else fmt rate @ ''/s'')"

definition format_duration :: "int \<Rightarrow> string" where
  "format_duration secs =
     (if secs < 60 then int_str secs @ ''s''
      else if secs < 3600 then int_str (tdiv secs 60) @ ''m '' @ int_str (tmod secs 60) @ ''s''
      else if secs < 86400 then int_str (tdiv secs 3600) @ ''h '' @ int_str (tdiv (tmod secs 3600) 60) @ ''m''
      else int_str (tdiv secs 86400) @ ''d '' @ int_str (tdiv (tmod secs 86400) 3600) @ ''h'')"

subsection \<open>Counting\<close>

definition stats_wf :: "StatisticsCollector \<Rightarrow> bool" where
  "stats_wf s =
     (\<not> stc_mutex_held s \<and> omap_sorted (stc_category_counts s) \<and> omap_sorted (stc_type_counts s) \<and>
      omap_sorted (stc_source_counts s) \<and> omap_sorted (stc_target_counts s) \<and>
      omap_sorted (stc_minute_buckets s) \<and> omap_sorted (stc_hour_buckets s))"

lemma omap_sorted_bump [simp, wf_simps]: "omap_sorted m \<Longrightarrow> omap_sorted (bump k m)"
  by (simp add: bump_def)

lemma omap_get_bump [simp]: "omap_get 0 (bump k m) x = omap_get 0 m x + (if x = k then 1 else 0)"
  by (simp add: bump_def)

lemma omap_total_bump: "omap_sorted m \<Longrightarrow> omap_total (bump k m) = omap_total m + 1"
  unfolding bump_def by (rule omap_total_incr)

lemma sum_buckets_simps [simp]:
  "sum_buckets P [] = 0"
  "sum_buckets P ((k, v) # m) = (if P k then v else 0) + sum_buckets P m"
proof -
  have *: "foldl (\<lambda>acc p. if P (fst p) then acc + snd p else acc) a m =
        a + sum_list (map snd (filter (\<lambda>p. P (fst p)) m))" for a and m :: "(int, u64) omap"
    by (induction m arbitrary: a) (auto simp: ac_simps)
  show "sum_buckets P [] = 0" by (simp add: sum_buckets_def)
  show "sum_buckets P ((k, v) # m) = (if P k then v else 0) + sum_buckets P m"
    by (simp add: sum_buckets_def *)
qed

lemma sum_buckets_bump:
  assumes "omap_sorted m"
  shows "sum_buckets P (bump k m) = sum_buckets P m + (if P k then 1 else 0)"
  using assms
proof (induction m)
  case Nil
  then show ?case by (simp add: bump_def)
next
  case (Cons p m)
  obtain k' v' where p: "p = (k', v')" by force
  show ?case
  proof (cases "k < k'")
    case True
    then have "map_of (p # m) k = None"
      using Cons.prems p by (force simp: omap_sorted_Cons map_of_eq_None_iff)
    with True p show ?thesis by (simp add: bump_def omap_get_def ac_simps)
  next
    case False
    with Cons p show ?thesis
      by (auto simp: bump_def omap_sorted_Cons omap_get_def ac_simps)
  qed
qed

lemma sum_buckets_prune:
  "(\<And>k. P k \<Longrightarrow> \<not> k < c) \<Longrightarrow> sum_buckets P (filter (\<lambda>p. \<not> fst p < c) m) = sum_buckets P m"
  by (induction m) auto

lemma omap_get_prune: "\<not> k < c \<Longrightarrow> omap_get 0 (filter (\<lambda>p. \<not> fst p < c) m) k = omap_get 0 m k"
  by (induction m) (auto simp: omap_get_def)

text \<open>What one record does; the lock is free, so it succeeds.\<close>
lemma stats_record_result:
  assumes "stats_wf s"
  obtains s' where "stats_record n1 n2 e s = Inr s'" "stats_wf s'"
    "stc_total_events s' = stc_total_events s + 1"
    "stc_category_counts s' = bump (ev_category e) (stc_category_counts s)"
    "stc_type_counts s' = bump (ev_type e) (stc_type_counts s)"
    "stc_source_counts s' = bump (ev_source e) (stc_source_counts s)"
    "stc_target_counts s' = bump (ev_target e) (stc_target_counts s)"
    "stc_minute_buckets s' = bump (unix_minute (ev_timestamp e)) (stc_minute_buckets s) \<or>
     stc_minute_buckets s' =
       filter (\<lambda>p. \<not> fst p < min_cutoff n2) (bump (unix_minute (ev_timestamp e)) (stc_minute_buckets s))"
proof -
  have l: "\<not> stc_mutex_held s" using assms by (simp add: stats_wf_def)
  obtain s' where s': "stats_record n1 n2 e s = Inr s'"
    using l by (auto simp: stats_record_def Let_def lock_guard_def split: if_splits)
  show ?thesis
    by (rule that [OF s'])
       (use s' assms l in \<open>auto simp: stats_record_def Let_def lock_guard_def unlock_def prune_time_buckets_def
          stats_wf_def split: if_splits\<close>)
qed

fun stats_run :: "(Event \<times> timestamp \<times> timestamp) list \<Rightarrow> StatisticsCollector \<Rightarrow> stats_error + StatisticsCollector" where
  "stats_run [] s = Inr s"
| "stats_run ((e, n1, n2) # ins) s = sum_bind (stats_record n1 n2 e s) (stats_run ins)"

definition occurrences :: "(Event \<Rightarrow> 'k) \<Rightarrow> 'k \<Rightarrow> (Event \<times> timestamp \<times> timestamp) list \<Rightarrow> u64" where
  "occurrences f k ins = of_nat (length (filter (\<lambda>i. f (fst i) = k) ins))"

lemma stats_run_counts:
  assumes "stats_wf s"
  shows "\<exists>s'. stats_run ins s = Inr s' \<and> stats_wf s' \<and>
     stc_total_events s' = stc_total_events s + of_nat (length ins) \<and>
     (\<forall>c. omap_get 0 (stc_category_counts s') c = omap_get 0 (stc_category_counts s) c + occurrences ev_category c ins) \<and>
     (\<forall>t. omap_get 0 (stc_type_counts s') t = omap_get 0 (stc_type_counts s) t + occurrences ev_type t ins) \<and>
     (\<forall>x. omap_get 0 (stc_source_counts s') x = omap_get 0 (stc_source_counts s) x + occurrences ev_source x ins) \<and>
     (\<forall>x. omap_get 0 (stc_target_counts s') x = omap_get 0 (stc_target_counts s) x + occurrences ev_target x ins) \<and>
     omap_total (stc_category_counts s') = omap_total (stc_category_counts s) + of_nat (length ins) \<and>
     omap_total (stc_source_counts s') = omap_total (stc_source_counts s) + of_nat (length ins) \<and>
     dom (map_of (stc_category_counts s)) \<subseteq> dom (map_of (stc_category_counts s'))"
  using assms
proof (induction ins arbitrary: s)
  case (Cons i ins)
  obtain e n1 n2 where i: "i = (e, n1, n2)" by (metis prod_cases3)
  obtain s1 where s1: "stats_record n1 n2 e s = Inr s1" "stats_wf s1"
    "stc_total_events s1 = stc_total_events s + 1"
    "stc_category_counts s1 = bump (ev_category e) (stc_category_counts s)"
    "stc_type_counts s1 = bump (ev_type e) (stc_type_counts s)"
    "stc_source_counts s1 = bump (ev_source e) (stc_source_counts s)"
    "stc_target_counts s1 = bump (ev_target e) (stc_target_counts s)"
    by (rule stats_record_result [OF Cons.prems])
  have dom: "dom (map_of (stc_category_counts s)) \<subseteq> dom (map_of (stc_category_counts s1))"
    by (auto simp: s1(4) bump_def)
  from Cons.IH [OF s1(2)] obtain s' where s': "stats_run ins s1 = Inr s'" "stats_wf s'"
    "stc_total_events s' = stc_total_events s1 + of_nat (length ins)"
    "\<And>c. omap_get 0 (stc_category_counts s') c = omap_get 0 (stc_category_counts s1) c + occurrences ev_category c ins"
    "\<And>t. omap_get 0 (stc_type_counts s') t = omap_get 0 (stc_type_counts s1) t + occurrences ev_type t ins"
    "\<And>x. omap_get 0 (stc_source_counts s') x = omap_get 0 (stc_source_counts s1) x + occurrences ev_source x ins"
    "\<And>x. omap_get 0 (stc_target_counts s') x = omap_get 0 (stc_target_counts s1) x + occurrences ev_target x ins"
    "omap_total (stc_category_counts s') = omap_total (stc_category_counts s1) + of_nat (length ins)"
    "omap_total (stc_source_counts s') = omap_total (stc_source_counts s1) + of_nat (length ins)"
    "dom (map_of (stc_category_counts s1)) \<subseteq> dom (map_of (stc_category_counts s'))"
    by blast
  have tot: "omap_total (bump (ev_category e) (stc_category_counts s)) = omap_total (stc_category_counts s) + 1"
      "omap_total (bump (ev_source e) (stc_source_counts s)) = omap_total (stc_source_counts s) + 1"
    using Cons.prems by (simp_all add: omap_total_bump stats_wf_def)
  show ?case
    by (rule exI [of _ s'], intro conjI allI)
       (use s' s1(1) dom in \<open>auto simp: i s1(3-7) occurrences_def tot\<close>)
qed (auto simp: occurrences_def)

lemma stats_run_minutes:
  assumes "stats_wf s" "stats_run ins s = Inr s'"
    and "\<forall>(e, n1, n2) \<in> set ins. \<forall>k. P k \<longrightarrow> min_cutoff n2 \<le> k"
  shows "sum_buckets P (stc_minute_buckets s') =
         sum_buckets P (stc_minute_buckets s) +
         of_nat (length (filter (\<lambda>i. P (unix_minute (ev_timestamp (fst i)))) ins))"
  using assms
proof (induction ins arbitrary: s)
  case (Cons i ins)
  obtain e n1 n2 where i: "i = (e, n1, n2)" by (metis prod_cases3)
  obtain s1 where s1: "stats_record n1 n2 e s = Inr s1" "stats_wf s1"
    "stc_minute_buckets s1 = bump (unix_minute (ev_timestamp e)) (stc_minute_buckets s) \<or>
     stc_minute_buckets s1 =
       filter (\<lambda>p. \<not> fst p < min_cutoff n2) (bump (unix_minute (ev_timestamp e)) (stc_minute_buckets s))"
    by (rule stats_record_result [OF Cons.prems(1)])
  have "omap_sorted (stc_minute_buckets s)" using Cons.prems(1) by (simp add: stats_wf_def)
  moreover have "\<And>k. P k \<Longrightarrow> \<not> k < min_cutoff n2" using Cons.prems(3) by (force simp: i)
  ultimately have "sum_buckets P (stc_minute_buckets s1) =
      sum_buckets P (stc_minute_buckets s) + (if P (unix_minute (ev_timestamp e)) then 1 else 0)"
    using s1(3) sum_buckets_prune [of P "min_cutoff n2"] sum_buckets_bump by metis
  moreover have "stats_run ins s1 = Inr s'" using Cons.prems(2) by (simp add: i s1(1))
  ultimately show ?case using Cons.IH [OF s1(2)] Cons.prems(3) by (simp add: i)
qed simp

lemma stats_wf_new [simp]: "stats_wf (new_statistics t1 t2)"
  by (simp add: stats_wf_def new_statistics_def del: omap_update.simps)

lemma new_statistics_categories:
  "stc_category_counts (new_statistics t1 t2) =
     [(Filesystem, 0), (Process, 0), (Network, 0), (SystemConfig, 0), (UnknownCategory, 0)]"
proof -
  have "UnknownCategory < d \<longleftrightarrow> False" "Filesystem < d \<longleftrightarrow> d \<noteq> Filesystem"
    "SystemConfig < Filesystem \<longleftrightarrow> False" "SystemConfig < Process \<longleftrightarrow> False" "SystemConfig < Network \<longleftrightarrow> False"
    "Network < Filesystem \<longleftrightarrow> False" "Network < Process \<longleftrightarrow> False" "Process < Filesystem \<longleftrightarrow> False" for d
    by (cases d; simp add: less_EventCategory_def)+
  then show ?thesis by (simp add: new_statistics_def)
qed

subsection \<open>The ranking\<close>

lemma count_sort_props:
  assumes "count_sort srt"
  shows "mset (srt r) = mset r" "by_count (srt r)" "length (srt r) = length r"
  using assms unfolding count_sort_def by (auto dest: mset_eq_length)

lemma top_of_prefix:
  assumes "count_sort srt" "0 \<le> n" "top_of srt n m = Inr r"
  shows "\<exists>rest. mset (r @ rest) = mset m \<and> by_count r \<and> length r = min (nat n) (length m) \<and>
           (\<forall>x \<in> set r. \<forall>y \<in> set rest. snd y \<le> snd x)"
proof -
  note S = count_sort_props [OF assms(1), of m]
  let ?r = "take (nat n) (srt m)" and ?rest = "drop (nat n) (srt m)"
  have r: "r = ?r"
    using assms(2,3) by (auto simp: top_of_def Let_def split: if_splits)
  have "by_count (?r @ ?rest)" using S(2) by simp
  then have "by_count ?r" "\<forall>x \<in> set ?r. \<forall>y \<in> set ?rest. snd y \<le> snd x"
    by (simp_all add: by_count_def sorted_wrt_append del: append_take_drop_id)
  then show ?thesis
    using S by (intro exI [of _ ?rest]) (simp add: r min.commute)
qed

subsection \<open>Properties\<close>

text \<open>C25: the counters are exact: after recording any events on a fresh collector the total is their
  number, every category, type, source and target has the number of its events, and the
  category and source counters each sum to the total, modulo the width of the counters.\<close>
theorem statistics_count_exactly:
  "\<exists>s'. stats_run ins (new_statistics t1 t2) = Inr s' \<and>
     stc_total_events s' = of_nat (length ins) \<and>
     (\<forall>c. omap_get 0 (stc_category_counts s') c = occurrences ev_category c ins) \<and>
     (\<forall>t. count_by_type t s' = occurrences ev_type t ins) \<and>
     (\<forall>x. omap_get 0 (stc_source_counts s') x = occurrences ev_source x ins) \<and>
     (\<forall>x. omap_get 0 (stc_target_counts s') x = occurrences ev_target x ins) \<and>
     omap_total (stc_category_counts s') = stc_total_events s' \<and>
     omap_total (stc_source_counts s') = stc_total_events s'"
proof -
  have z: "omap_get 0 (stc_category_counts (new_statistics t1 t2)) c = 0" for c
    by (simp add: new_statistics_categories omap_get_def)
  have zt: "omap_total (stc_category_counts (new_statistics t1 t2)) = 0"
    by (simp add: new_statistics_categories)
  have "count_by_type t s = omap_get 0 (stc_type_counts s) t" for t s
    by (simp add: count_by_type_def omap_get_def split: option.splits)
  moreover obtain s' where "stats_run ins (new_statistics t1 t2) = Inr s'"
    "stc_total_events s' = stc_total_events (new_statistics t1 t2) + of_nat (length ins)"
    "\<And>c. omap_get 0 (stc_category_counts s') c =
       omap_get 0 (stc_category_counts (new_statistics t1 t2)) c + occurrences ev_category c ins"
    "\<And>t. omap_get 0 (stc_type_counts s') t =
       omap_get 0 (stc_type_counts (new_statistics t1 t2)) t + occurrences ev_type t ins"
    "\<And>x. omap_get 0 (stc_source_counts s') x =
       omap_get 0 (stc_source_counts (new_statistics t1 t2)) x + occurrences ev_source x ins"
    "\<And>x. omap_get 0 (stc_target_counts s') x =
       omap_get 0 (stc_target_counts (new_statistics t1 t2)) x + occurrences ev_target x ins"
    "omap_total (stc_category_counts s') = omap_total (stc_category_counts (new_statistics t1 t2)) + of_nat (length ins)"
    "omap_total (stc_source_counts s') = omap_total (stc_source_counts (new_statistics t1 t2)) + of_nat (length ins)"
    using stats_run_counts [OF stats_wf_new, of ins t1 t2] by blast
  moreover have "stc_total_events (new_statistics t1 t2) = 0" "stc_type_counts (new_statistics t1 t2) = []"
    "stc_source_counts (new_statistics t1 t2) = []" "stc_target_counts (new_statistics t1 t2) = []"
    by (simp_all add: new_statistics_def)
  ultimately show ?thesis using z zt by (intro exI [of _ s']) simp
qed

text \<open>the range query counts exactly the events whose minute lies in the range, as long as the
  range starts no earlier than the oldest minute any pruning kept; pruning loses nothing else.\<close>
theorem count_in_range_exact:
  assumes "stats_run ins (new_statistics t1 t2) = Inr s'"
    and "\<forall>(e, n1, n2) \<in> set ins. min_cutoff n2 \<le> unix_minute from"
  shows "count_in_range from to s' =
     Inr (of_nat (length (filter (\<lambda>i. unix_minute from \<le> unix_minute (ev_timestamp (fst i)) \<and>
                             unix_minute (ev_timestamp (fst i)) \<le> unix_minute to) ins)))"
proof -
  let ?P = "\<lambda>m. m \<ge> unix_minute from \<and> m \<le> unix_minute to"
  have "\<not> stc_mutex_held s'"
    using stats_run_counts [OF stats_wf_new, of ins t1 t2] assms(1) by (auto simp: stats_wf_def)
  moreover have "sum_buckets ?P (stc_minute_buckets s') =
      of_nat (length (filter (\<lambda>i. ?P (unix_minute (ev_timestamp (fst i)))) ins))"
    using stats_run_minutes [OF stats_wf_new assms(1), of ?P] assms(2)
    by (fastforce simp: new_statistics_def)
  ultimately show ?thesis
    by (simp add: count_in_range_def lock_guard_def case_prod_beta)
qed

definition event_at :: "timestamp \<Rightarrow> Event" where
  "event_at t = (event_default t)\<lparr>ev_source := ''s''\<rparr>"

lemma count_in_range_exact_witness:
  "\<exists>s'. stats_run [(event_at 60000000000, 0, 0), (event_at 600000000000, 0, 0)] (new_statistics 0 0) = Inr s' \<and>
     count_in_range 0 90000000000 s' = Inr 1"
proof -
  let ?ins = "[(event_at 60000000000, 0, 0), (event_at 600000000000, 0, 0)]"
  obtain s' where s': "stats_run ?ins (new_statistics 0 0) = Inr s'"
    using stats_run_counts [OF stats_wf_new, of ?ins 0 0] by blast
  have "\<forall>(e, n1, n2) \<in> set ?ins. min_cutoff n2 \<le> unix_minute 0"
    by (simp add: min_cutoff_def unix_minute_def to_unix_ms_def tdiv_def)
  note C = count_in_range_exact [OF s' this, of 90000000000]
  have u: "unix_minute 0 = 0" "unix_minute 60000000000 = 1" "unix_minute 90000000000 = 1"
      "unix_minute 600000000000 = 10"
    by (simp_all add: unix_minute_def to_unix_ms_def tdiv_def)
  have t: "ev_timestamp (event_at t) = t" for t by (simp add: event_at_def event_default_def)
  show ?thesis using s' C by (simp add: u t)
qed

lemma get_stats_never_returns: "get_stats srt n1 n2 s \<noteq> Inr st"
  by (auto simp: get_stats_def Let_def lock_guard_def top_sources_def map_at_def split: option.splits if_splits)

lemma get_stats_after_records:
  "sum_bind (stats_run ins (new_statistics t1 t2)) (get_stats srt n1 n2) = Inl Deadlock"
proof -
  obtain s' where s': "stats_run ins (new_statistics t1 t2) = Inr s'" "stats_wf s'"
      "dom (map_of (stc_category_counts (new_statistics t1 t2))) \<subseteq> dom (map_of (stc_category_counts s'))"
    using stats_run_counts [OF stats_wf_new, of ins t1 t2] by blast
  have "\<exists>v. map_of (stc_category_counts s') c = Some v"
    if "c \<in> {Filesystem, Process, Network, SystemConfig, UnknownCategory}" for c
  proof -
    have "c \<in> dom (map_of (stc_category_counts (new_statistics t1 t2)))"
      using that by (auto simp: new_statistics_categories)
    with s'(3) show ?thesis by blast
  qed
  then obtain c0 c1 c2 c3 c4 where "map_of (stc_category_counts s') Filesystem = Some c0"
      "map_of (stc_category_counts s') Process = Some c1" "map_of (stc_category_counts s') Network = Some c2"
      "map_of (stc_category_counts s') SystemConfig = Some c3"
      "map_of (stc_category_counts s') UnknownCategory = Some c4"
    by (metis insertCI)
  then show ?thesis
    using s'(1,2) by (simp add: get_stats_def map_at_def lock_guard_def stats_wf_def top_sources_def Let_def)
qed

text \<open>\<open>get_stats\<close> and \<open>to_json\<close> never return a result: \<open>get_stats\<close> calls \<open>top_sources\<close> while it
  holds the mutex that \<open>top_sources\<close> locks.  On a collector that has only recorded events the
  call deadlocks.\<close>
theorem get_stats_deadlocks:
  "(\<forall>s st. get_stats srt n1 n2 s \<noteq> Inr st) \<and>
   (\<forall>s j. stats_to_json fmt srt n1 n2 s \<noteq> Inr j) \<and>
   sum_bind (stats_run ins (new_statistics t1 t2)) (get_stats srt n1 n2) = Inl Deadlock"
proof -
  note never = get_stats_never_returns [of srt n1 n2]
  moreover have "stats_to_json fmt srt n1 n2 s \<noteq> Inr j" for s j
    using never [of s] by (cases "get_stats srt n1 n2 s") (auto simp: stats_to_json_def)
  moreover note get_stats_after_records [of ins t1 t2 srt n1 n2]
  ultimately show ?thesis by blast
qed

text \<open>the ranking of the sources, for a non-negative \<open>n\<close>, holds the \<open>n\<close> highest counts (all, if
  there are fewer), in descending order, whichever way the sort orders equal counts.\<close>
theorem top_sources_highest:
  assumes "count_sort srt" "0 \<le> n" "top_sources srt n s = Inr r"
  shows "\<exists>rest. mset (r @ rest) = mset (stc_source_counts s) \<and> by_count r \<and>
           length r = min (nat n) (length (stc_source_counts s)) \<and>
           (\<forall>x \<in> set r. \<forall>y \<in> set rest. snd y \<le> snd x)"
proof -
  have "top_of srt n (stc_source_counts s) = Inr r"
    using assms(3) by (auto simp: top_sources_def lock_guard_def split: if_splits)
  from top_of_prefix [OF assms(1,2) this] show ?thesis .
qed

definition stable_count_sort :: "ranking \<Rightarrow> ranking" where
  "stable_count_sort r = rev (sort_key snd (rev r))"

lemma count_sort_stable [simp]: "count_sort stable_count_sort"
proof -
  have "sorted_wrt (\<lambda>a b. snd a \<le> snd b) (sort_key snd (rev r))" for r :: ranking
    using sorted_sort_key [of snd "rev r"] by (simp add: sorted_wrt_map)
  then show ?thesis by (simp add: count_sort_def by_count_def stable_count_sort_def sorted_wrt_rev)
qed

lemma top_sources_highest_witness:
  "\<exists>r rest. top_sources stable_count_sort 1 ((new_statistics 0 0)\<lparr>stc_source_counts := [(''a'', 2), (''b'', 5)]\<rparr>) = Inr r \<and>
     length r = 1 \<and> mset (r @ rest) = mset [(''a'', 2), (''b'', 5)] \<and> (\<forall>x \<in> set r. \<forall>y \<in> set rest. snd y \<le> snd x)"
proof -
  let ?s = "(new_statistics 0 0)\<lparr>stc_source_counts := [(''a'', 2), (''b'', 5)]\<rparr>"
  have "length (stable_count_sort [(''a'', 2), (''b'', 5)]) = 2"
    using count_sort_props(3) [OF count_sort_stable, of "[(''a'', 2), (''b'', 5)]"] by simp
  then obtain r where r: "top_sources stable_count_sort 1 ?s = Inr r"
    by (auto simp: top_sources_def lock_guard_def new_statistics_def top_of_def)
  from top_sources_highest [OF count_sort_stable _ this] obtain rest where
      "mset (r @ rest) = mset [(''a'', 2), (''b'', 5)]" "length r = 1"
      "\<forall>x \<in> set r. \<forall>y \<in> set rest. snd y \<le> snd x" by auto
  with r show ?thesis by blast
qed

text \<open>A category that the constructor does not insert has no counter until its first event: the
  query throws.\<close>
lemma count_by_category_throws:
  "count_by_category Hardware (new_statistics t1 t2) = Inl OutOfRange"
  "count_by_category System (new_statistics t1 t2) = Inl OutOfRange"
  by (simp_all add: count_by_category_def map_at_def new_statistics_categories)
end
