(* ===== verification/Json_Text.thy ===== *)
theory Json_Text
  imports Cpp_Map Cpp_String
begin

text \<open>
  The JSON text the program writes.  Four source files carry a copy of the same
  escaping loop; two of them know the short forms of backspace and form feed, two
  leave them to the numeric form.  The decoder is the reference: it reads a string
  literal as RFC 8259 defines it, for the escapes a byte string needs.
\<close>

definition hex_digit :: "nat \<Rightarrow> char" where
  "hex_digit n = ''0123456789abcdef'' ! n"

fun hex_str :: "nat \<Rightarrow> string" where
  "hex_str n = (if n < 16 then [hex_digit n] else hex_str (n div 16) @ [hex_digit (n mod 16)])"

declare hex_str.simps [simp del]

text \<open>\<open>\u%04x\<close> of a byte.\<close>
definition hex4 :: "char \<Rightarrow> string" where
  "hex4 c = (let n = of_char c :: nat in ''00'' @ [hex_digit (n div 16), hex_digit (n mod 16)])"

text \<open>One character; \<open>short\<close> says whether the loop has cases for backspace and form feed.\<close>
definition json_escape_char :: "bool \<Rightarrow> char \<Rightarrow> string" where
  "json_escape_char short c =
     (if c = dquote then [backslash, dquote]
      else if c = backslash then [backslash, backslash]
      else if short \<and> c = CHR 0x08 then [backslash, CHR ''b'']
      else if short \<and> c = CHR 0x0C then [backslash, CHR ''f'']
      else if c = nl then [backslash, CHR ''n'']
      else if c = cr then [backslash, CHR ''r'']
      else if c = tab then [backslash, CHR ''t'']
      else if c < CHR 0x20 then [backslash, CHR ''u''] @ hex4 c
      else [c])"

definition json_escape_with :: "bool \<Rightarrow> string \<Rightarrow> string" where
  "json_escape_with short s = concat (map (json_escape_char short) s)"

subsection \<open>The reference decoder\<close>

definition hex_val :: "char \<Rightarrow> nat option" where
  "hex_val c =
     (if CHR ''0'' \<le> c \<and> c \<le> CHR ''9'' then Some (of_char c - 48)
      else if CHR ''a'' \<le> c \<and> c \<le> CHR ''f'' then Some (of_char c - 87)
      else if CHR ''A'' \<le> c \<and> c \<le> CHR ''F'' then Some (of_char c - 55)
      else None)"

definition unescape_char :: "char \<Rightarrow> char option" where
  "unescape_char c =
     (if c = dquote then Some dquote
      else if c = backslash then Some backslash
      else if c = CHR ''/'' then Some (CHR ''/'')
      else if c = CHR ''b'' then Some (CHR 0x08)
      else if c = CHR ''f'' then Some (CHR 0x0C)
      else if c = CHR ''n'' then Some nl
      else if c = CHR ''r'' then Some cr
      else if c = CHR ''t'' then Some tab
      else None)"

text \<open>The characters of a string literal up to its closing quote, and what follows it.\<close>
fun json_string_body :: "string \<Rightarrow> (string \<times> string) option" where
  "json_string_body [] = None"
| "json_string_body (c # s) =
     (if c = dquote then Some ([], s)
      else if c = backslash then
        (case s of
           [] \<Rightarrow> None
         | e # s1 \<Rightarrow>
             (if e = CHR ''u'' then
                (case s1 of
                   a # b # x # y # s2 \<Rightarrow>
                     (if a = CHR ''0'' \<and> b = CHR ''0'' then
                        (case (hex_val x, hex_val y) of
                           (Some h, Some l) \<Rightarrow>
                             map_option (\<lambda>(r, t). (char_of (16 * h + l) # r, t)) (json_string_body s2)
                         | _ \<Rightarrow> None)
                      else None)
                 | _ \<Rightarrow> None)
              else (case unescape_char e of
                      None \<Rightarrow> None
                    | Some d \<Rightarrow> map_option (\<lambda>(r, t). (d # r, t)) (json_string_body s1))))
      else if c < CHR 0x20 then None
      else map_option (\<lambda>(r, t). (c # r, t)) (json_string_body s))"

lemma of_char_lt: "(of_char c :: nat) < 256"
  by (cases c) (simp add: of_char_def)

lemma char_less_iff: "c < d \<longleftrightarrow> (of_char c :: nat) < of_char d"
  by (simp add: less_char_def)

lemma hex_digit_val:
  assumes "n < 16"
  shows "hex_val (hex_digit n) = Some n"
proof -
  have "\<forall>k\<in>set [0..<16]. hex_val (hex_digit k) = Some k" by code_simp
  then show ?thesis using assms by simp
qed

lemma json_string_body_escape_char:
  "json_string_body (json_escape_char short c @ s) = map_option (\<lambda>(r, t). (c # r, t)) (json_string_body s)"
proof (cases "c = dquote \<or> c = backslash \<or> c = nl \<or> c = cr \<or> c = tab \<or> (short \<and> (c = CHR 0x08 \<or> c = CHR 0x0C))")
  case True
  then show ?thesis by (auto simp: json_escape_char_def unescape_char_def)
next
  case False
  show ?thesis
  proof (cases "c < CHR 0x20")
    case True
    define n where "n = (of_char c :: nat)"
    have n: "n < 32" using True by (simp add: char_less_iff n_def)
    have e: "json_escape_char short c @ s =
        backslash # CHR ''u'' # CHR ''0'' # CHR ''0'' # hex_digit (n div 16) # hex_digit (n mod 16) # s"
      using False True by (simp add: json_escape_char_def hex4_def n_def Let_def)
    have "hex_val (hex_digit (n div 16)) = Some (n div 16)" "hex_val (hex_digit (n mod 16)) = Some (n mod 16)"
      using n by (auto intro!: hex_digit_val)
    moreover have "char_of (16 * (n div 16) + n mod 16) = c" by (simp add: n_def)
    ultimately show ?thesis by (simp add: e)
  next
    case g: False
    then show ?thesis using False by (auto simp: json_escape_char_def)
  qed
qed

text \<open>Reading an escaped text as the literal it stands in gives the text back.\<close>
lemma json_escape_round_trip:
  "json_string_body (json_escape_with short s @ dquote # rest) = Some (s, rest)"
  by (induction s) (simp_all add: json_escape_with_def json_string_body_escape_char)

lemma json_escape_with_simps [simp]:
  "json_escape_with short [] = []"
  "json_escape_with short (c # s) = json_escape_char short c @ json_escape_with short s"
  by (simp_all add: json_escape_with_def)

text \<open>A text of printable characters without quote and backslash is left alone.\<close>
lemma json_escape_plain:
  "\<forall>c \<in> set s. c \<noteq> dquote \<and> c \<noteq> backslash \<and> \<not> c < CHR 0x20 \<Longrightarrow> json_escape_with short s = s"
proof (induction s)
  case (Cons c s)
  have lt: "nl < CHR 0x20" "cr < CHR 0x20" "tab < CHR 0x20" "CHR 0x08 < CHR 0x20" "CHR 0x0C < CHR 0x20"
    by (simp_all add: char_less_iff)
  have c: "c \<noteq> dquote" "c \<noteq> backslash" "\<not> c < CHR 0x20" using Cons.prems by simp_all
  then have "json_escape_char short c = [c]" using lt by (auto simp: json_escape_char_def)
  with Cons show ?case by simp
qed simp

end
