(* ===== verification/Cpp_Time.thy ===== *)
theory Cpp_Time
  imports Cpp_String
begin

text \<open>
  Calendar time: the broken-down UTC time of \<open>gmtime_r\<close> and the fields \<open>strftime\<close> prints.
  Local time depends on the time zone of the machine, so formatting in local time is a
  parameter of the operations that use it.
\<close>

record tm =
  tm_year :: int
  tm_mon :: int
  tm_mday :: int
  tm_hour :: int
  tm_min :: int
  tm_sec :: int

text \<open>The civil date of a day number counted from 1970-01-01 (years start in March inside).\<close>
definition civil_from_days :: "int \<Rightarrow> int \<times> int \<times> int" where
  "civil_from_days z =
     (let z1 = z + 719468;
          era = z1 div 146097;
          doe = z1 - era * 146097;
          yoe = (doe - doe div 1460 + doe div 36524 - doe div 146096) div 365;
          doy = doe - (365 * yoe + yoe div 4 - yoe div 100);
          mp = (5 * doy + 2) div 153;
          d = doy - (153 * mp + 2) div 5 + 1;
          m = (if mp < 10 then mp + 3 else mp - 9)
      in (yoe + era * 400 + (if m \<le> 2 then 1 else 0), m, d))"

definition gmtime :: "int \<Rightarrow> tm" where
  "gmtime secs =
     (let days = secs div 86400; r = secs mod 86400; (y, m, d) = civil_from_days days
      in \<lparr> tm_year = y, tm_mon = m, tm_mday = d,
           tm_hour = r div 3600, tm_min = (r mod 3600) div 60, tm_sec = r mod 60 \<rparr>)"

definition pad2 :: "int \<Rightarrow> string" where
  "pad2 n = (if n < 10 then ''0'' else []) @ int_str n"

definition pad3 :: "int \<Rightarrow> string" where
  "pad3 n = (if n < 10 then ''00'' else if n < 100 then ''0'' else []) @ int_str n"

definition pad4 :: "int \<Rightarrow> string" where
  "pad4 n = (if n < 10 then ''000'' else if n < 100 then ''00'' else if n < 1000 then ''0'' else []) @ int_str n"

text \<open>\<open>strftime\<close> with \<open>%Y-%m-%dT%H:%M:%S\<close>.\<close>
definition strftime_iso :: "tm \<Rightarrow> string" where
  "strftime_iso t =
     pad4 (tm_year t) @ ''-'' @ pad2 (tm_mon t) @ ''-'' @ pad2 (tm_mday t) @ ''T'' @
     pad2 (tm_hour t) @ '':'' @ pad2 (tm_min t) @ '':'' @ pad2 (tm_sec t)"

text \<open>\<open>to_time_t\<close> cuts nanoseconds to seconds towards zero.\<close>
definition to_time_t :: "int \<Rightarrow> int" where
  "to_time_t ts = tdiv ts 1000000000"

end
