(* ===== verification/Webhook.thy ===== *)
theory Webhook
  imports Alert_Manager Security_Auditor Json_Text Cpp_Time
begin

text \<open>
  \<open>webhook/webhook_notifier.h\<close> and \<open>webhook/webhook_notifier.cpp\<close>: registered webhooks,
  the payload and its JSON text, the delivery loop with retries, and the record of
  results.

  libcurl is not part of the program: \<open>net j k\<close> is the outcome of attempt \<open>k\<close> for the
  \<open>j\<close>th webhook of a call, \<open>clk j k\<close> the clock before and after it, and \<open>hmac\<close> the
  digest OpenSSL computes (\<^const>\<open>None\<close> when it fails).  The request a build sends is the
  record \<open>http_request\<close>.  Result callbacks act on a state \<open>'w\<close>.
\<close>

record WebhookConfig =
  wc_name :: string
  wc_url :: string
  wc_secret :: string
  wc_headers :: "(string, string) omap"
  wc_enabled :: bool
  wc_timeout_ms :: int
  wc_retry_count :: int
  wc_retry_delay_ms :: int
  wc_min_severities :: "AlertSeverity list"
  wc_security_event_types :: "SecurityEventType list"
  wc_send_alerts :: bool
  wc_send_security_events :: bool

record WebhookPayload =
  wp_id :: string
  wp_timestamp :: string
  wp_event_type :: string
  wp_source :: string
  wp_target :: string
  wp_summary :: string
  wp_severity :: int
  wp_details :: "(string, string) omap"
  wp_signature :: string

record WebhookResult =
  wr_id :: u64
  wr_webhook_name :: string
  wr_url :: string
  wr_success :: bool
  wr_http_status :: int
  wr_error_message :: string
  wr_timestamp :: timestamp
  wr_duration_ms :: int

record 'w WebhookNotifier =
  wn_webhooks :: "WebhookConfig list"
  wn_results :: "WebhookResult list"
  wn_callbacks :: "(WebhookResult \<Rightarrow> 'w \<Rightarrow> 'w) list"
  wn_total_sent :: u64
  wn_total_success :: u64
  wn_total_failed :: u64
  wn_next_result_id :: u64

definition default_webhook_config :: WebhookConfig where
  "default_webhook_config =
     \<lparr> wc_name = [], wc_url = [], wc_secret = [], wc_headers = [], wc_enabled = True,
       wc_timeout_ms = 5000, wc_retry_count = 3, wc_retry_delay_ms = 1000, wc_min_severities = [],
       wc_security_event_types = [], wc_send_alerts = True, wc_send_security_events = True \<rparr>"

definition new_webhook_notifier :: "'w WebhookNotifier" where
  "new_webhook_notifier =
     \<lparr> wn_webhooks = [], wn_results = [], wn_callbacks = [], wn_total_sent = 0,
       wn_total_success = 0, wn_total_failed = 0, wn_next_result_id = 1 \<rparr>"

subsection \<open>Texts\<close>

definition timestamp_to_iso8601 :: "timestamp \<Rightarrow> string" where
  "timestamp_to_iso8601 tp =
     strftime_iso (gmtime (to_time_t tp)) @ ''.'' @ int_str (tmod (to_unix_ms tp) 1000) @ ''Z''"

text \<open>The static counter is the argument; the new value is returned with the text.\<close>
definition generate_uuid :: "timestamp \<Rightarrow> u64 \<Rightarrow> string \<times> u64" where
  "generate_uuid now counter =
     (hex_str (nat (to_unix_ms now)) @ ''-'' @ hex_str (unat (counter + 1)), counter + 1)"

fun severity_to_string :: "AlertSeverity \<Rightarrow> string" where
  "severity_to_string Info = ''info''"
| "severity_to_string Warning = ''warning''"
| "severity_to_string Critical = ''critical''"
| "severity_to_string Emergency = ''emergency''"

fun severity_to_int :: "AlertSeverity \<Rightarrow> int" where
  "severity_to_int Info = 1"
| "severity_to_int Warning = 2"
| "severity_to_int Critical = 3"
| "severity_to_int Emergency = 4"

definition webhook_escape_json :: "string \<Rightarrow> string" where
  "webhook_escape_json s = json_escape_with True s"

subsection \<open>Registration\<close>

definition add_webhook :: "WebhookConfig \<Rightarrow> 'w WebhookNotifier \<Rightarrow> 'w WebhookNotifier" where
  "add_webhook config wn =
     wn\<lparr>wn_webhooks := filter (\<lambda>w. wc_name w \<noteq> wc_name config) (wn_webhooks wn) @ [config]\<rparr>"

definition remove_webhook :: "string \<Rightarrow> 'w WebhookNotifier \<Rightarrow> 'w WebhookNotifier" where
  "remove_webhook name wn = wn\<lparr>wn_webhooks := filter (\<lambda>w. wc_name w \<noteq> name) (wn_webhooks wn)\<rparr>"

definition enable_webhook :: "string \<Rightarrow> bool \<Rightarrow> 'w WebhookNotifier \<Rightarrow> 'w WebhookNotifier" where
  "enable_webhook name enabled wn =
     wn\<lparr>wn_webhooks := update_first (\<lambda>w. wc_name w = name) (wc_enabled_update (\<lambda>_. enabled)) (wn_webhooks wn)\<rparr>"

definition get_webhooks :: "'w WebhookNotifier \<Rightarrow> WebhookConfig list" where
  "get_webhooks wn = wn_webhooks wn"

definition clear_webhooks :: "'w WebhookNotifier \<Rightarrow> 'w WebhookNotifier" where
  "clear_webhooks wn = wn\<lparr>wn_webhooks := []\<rparr>"

definition on_result :: "(WebhookResult \<Rightarrow> 'w \<Rightarrow> 'w) \<Rightarrow> 'w WebhookNotifier \<Rightarrow> 'w WebhookNotifier" where
  "on_result cb wn = wn\<lparr>wn_callbacks := wn_callbacks wn @ [cb]\<rparr>"

subsection \<open>Payloads\<close>

definition alert_payload :: "Alert \<Rightarrow> WebhookPayload" where
  "alert_payload a =
     \<lparr> wp_id = word_str (al_id a), wp_timestamp = timestamp_to_iso8601 (al_timestamp a),
       wp_event_type = ''alert'', wp_source = ev_source (al_trigger_event a),
       wp_target = ev_target (al_trigger_event a), wp_summary = al_message a,
       wp_severity = severity_to_int (al_severity a),
       wp_details = fold (\<lambda>(k, v). omap_update k v) (al_metadata a)
         (omap_update ''severity'' (severity_to_string (al_severity a))
           (omap_update ''rule_name'' (al_rule_name a) [])),
       wp_signature = [] \<rparr>"

definition security_payload :: "SecurityEvent \<Rightarrow> WebhookPayload" where
  "security_payload e =
     \<lparr> wp_id = word_str (se_id e), wp_timestamp = timestamp_to_iso8601 (se_timestamp e),
       wp_event_type = ''security_event'', wp_source = se_source e, wp_target = se_target e,
       wp_summary = se_summary e, wp_severity = se_severity e,
       wp_details = fold (\<lambda>(k, v). omap_update k v) (se_details e)
         (omap_update ''type'' (security_event_type_name (se_type e)) []),
       wp_signature = [] \<rparr>"

definition quoted :: "string \<Rightarrow> string" where
  "quoted s = dquote # webhook_escape_json s @ [dquote]"

definition json_member :: "string \<Rightarrow> string \<Rightarrow> string" where
  "json_member key val = dquote # key @ dquote # CHR '':'' # val"

definition serialize_payload :: "WebhookPayload \<Rightarrow> string" where
  "serialize_payload p =
     ''{'' @ json_member ''id'' (quoted (wp_id p)) @ '','' @
     json_member ''timestamp'' (quoted (wp_timestamp p)) @ '','' @
     json_member ''event_type'' (quoted (wp_event_type p)) @ '','' @
     json_member ''source'' (quoted (wp_source p)) @ '','' @
     json_member ''target'' (quoted (wp_target p)) @ '','' @
     json_member ''summary'' (quoted (wp_summary p)) @ '','' @
     json_member ''severity'' (int_str (wp_severity p)) @ '','' @
     json_member ''details''
       (''{'' @ join_with '','' (map (\<lambda>(k, v). quoted k @ '':'' @ quoted v) (wp_details p)) @ ''}'') @
     (if wp_signature p = [] then [] else '','' @ json_member ''signature'' (quoted (wp_signature p))) @
     ''}''"

text \<open>The digest is a list of bytes, the first 32 of which are printed.\<close>
definition compute_signature :: "(string \<Rightarrow> string \<Rightarrow> nat list option) \<Rightarrow> string \<Rightarrow> string \<Rightarrow> string" where
  "compute_signature hmac secret data =
     (case hmac secret data of
        None \<Rightarrow> []
      | Some bytes \<Rightarrow> concat (map (\<lambda>b. [hex_digit (b div 16 mod 16), hex_digit (b mod 16)]) (take 32 bytes)))"

subsection \<open>Delivery\<close>

record http_request =
  rq_url :: string
  rq_body :: string
  rq_headers :: "(string, string) omap"
  rq_timeout_ms :: int

datatype curl_outcome = NotCompiledIn | InitFailed | TransferFailed string | Completed int

text \<open>\<open>http_post\<close> with its two reference parameters: what it does not assign stays as it was.\<close>
definition http_post :: "curl_outcome \<Rightarrow> int \<Rightarrow> string \<Rightarrow> bool \<times> int \<times> string" where
  "http_post oc http_status error =
     (case oc of
        NotCompiledIn \<Rightarrow> (False, 0, ''HTTP support not compiled in (COS_USE_REMOTE_REPORTING=OFF)'')
      | InitFailed \<Rightarrow> (False, http_status, ''Failed to initialize CURL'')
      | TransferFailed msg \<Rightarrow> (False, 0, msg)
      | Completed status \<Rightarrow> (200 \<le> status \<and> status < 300, status, error))"

definition push_result :: "WebhookResult \<Rightarrow> WebhookResult list \<Rightarrow> WebhookResult list" where
  "push_result r rs = (let rs1 = rs @ [r] in if length rs1 > 1000 then drop (length rs1 - 1000) rs1 else rs1)"

definition record_attempt ::
    "WebhookConfig \<Rightarrow> timestamp \<times> timestamp \<Rightarrow> bool \<Rightarrow> int \<Rightarrow> string \<Rightarrow> 'w WebhookNotifier \<times> 'w \<Rightarrow>
     'w WebhookNotifier \<times> 'w" where
  "record_attempt config instants success http_status error = (\<lambda>(wn, w).
     (let r = \<lparr> wr_id = wn_next_result_id wn, wr_webhook_name = wc_name config, wr_url = wc_url config,
                wr_success = success, wr_http_status = http_status, wr_error_message = error,
                wr_timestamp = snd instants, wr_duration_ms = tdiv (snd instants - fst instants) 1000000 \<rparr>;
          wn1 = wn\<lparr>wn_next_result_id := wn_next_result_id wn + 1,
                   wn_results := push_result r (wn_results wn),
                   wn_total_sent := wn_total_sent wn + 1,
                   wn_total_success := (if success then wn_total_success wn + 1 else wn_total_success wn),
                   wn_total_failed := (if success then wn_total_failed wn else wn_total_failed wn + 1)\<rparr>
      in (wn1, fold (\<lambda>cb. cb r) (wn_callbacks wn) w)))"

text \<open>The loop over the attempts: the first argument is the number of attempts left.\<close>
fun send_attempts ::
    "nat \<Rightarrow> (nat \<Rightarrow> curl_outcome) \<Rightarrow> (nat \<Rightarrow> timestamp \<times> timestamp) \<Rightarrow> WebhookConfig \<Rightarrow> nat \<Rightarrow> int \<Rightarrow> string \<Rightarrow>
     'w WebhookNotifier \<times> 'w \<Rightarrow> bool \<times> 'w WebhookNotifier \<times> 'w" where
  "send_attempts 0 net clk config k http_status error st = (False, st)"
| "send_attempts (Suc n) net clk config k http_status error st =
     (let (success, http_status1, error1) = http_post (net k) http_status error;
          st1 = record_attempt config (clk k) success http_status1 error1 st
      in if success then (True, st1)
         else send_attempts n net clk config (Suc k) http_status1 error1 st1)"

definition build_request ::
    "(string \<Rightarrow> string \<Rightarrow> nat list option) \<Rightarrow> WebhookConfig \<Rightarrow> WebhookPayload \<Rightarrow> http_request" where
  "build_request hmac config payload =
     (let body = serialize_payload payload;
          h0 = wc_headers config;
          h1 = (if wc_secret config \<noteq> []
                then omap_update ''X-Signature'' (compute_signature hmac (wc_secret config) body) h0 else h0);
          h2 = omap_update ''Content-Type'' ''application/json'' h1;
          h3 = omap_update ''User-Agent'' ''change-of-system/1.0'' h2
      in \<lparr> rq_url = wc_url config, rq_body = body, rq_headers = h3, rq_timeout_ms = wc_timeout_ms config \<rparr>)"

text \<open>The environment answers each request: \<open>net request k\<close> is the outcome of attempt \<open>k\<close>.\<close>
definition send_webhook ::
    "(string \<Rightarrow> string \<Rightarrow> nat list option) \<Rightarrow> (http_request \<Rightarrow> nat \<Rightarrow> curl_outcome) \<Rightarrow>
     (nat \<Rightarrow> timestamp \<times> timestamp) \<Rightarrow> string \<Rightarrow> WebhookPayload \<Rightarrow>
     'w WebhookNotifier \<times> 'w \<Rightarrow> bool \<times> 'w WebhookNotifier \<times> 'w" where
  "send_webhook hmac net clk name payload st =
     (case find (\<lambda>w. wc_name w = name) (wn_webhooks (fst st)) of
        None \<Rightarrow> (False, st)
      | Some config \<Rightarrow>
          (if \<not> wc_enabled config then (False, st)
           else send_attempts (nat (wc_retry_count config)) (net (build_request hmac config payload))
                  clk config 0 0 [] st))"

text \<open>The loops of \<open>on_alert\<close>, \<open>on_security_event\<close> and \<open>send_all_webhooks\<close>, for the webhooks that \<open>sel\<close> accepts.\<close>
fun send_selected ::
    "(string \<Rightarrow> string \<Rightarrow> nat list option) \<Rightarrow> (nat \<Rightarrow> http_request \<Rightarrow> nat \<Rightarrow> curl_outcome) \<Rightarrow>
     (nat \<Rightarrow> nat \<Rightarrow> timestamp \<times> timestamp) \<Rightarrow> (WebhookConfig \<Rightarrow> bool) \<Rightarrow> WebhookPayload \<Rightarrow> nat \<Rightarrow>
     WebhookConfig list \<Rightarrow> 'w WebhookNotifier \<times> 'w \<Rightarrow> 'w WebhookNotifier \<times> 'w" where
  "send_selected hmac net clk sel payload j [] st = st"
| "send_selected hmac net clk sel payload j (w # ws) st =
     send_selected hmac net clk sel payload (Suc j) ws
       (if sel w then snd (send_webhook hmac (net j) (clk j) (wc_name w) payload st) else st)"

definition should_send_alert :: "WebhookConfig \<Rightarrow> Alert \<Rightarrow> bool" where
  "should_send_alert config a =
     (wc_min_severities config = [] \<or> al_severity a \<in> set (wc_min_severities config))"

definition should_send_security_event :: "WebhookConfig \<Rightarrow> SecurityEvent \<Rightarrow> bool" where
  "should_send_security_event config e =
     (wc_security_event_types config = [] \<or> se_type e \<in> set (wc_security_event_types config))"

definition webhook_on_alert where
  "webhook_on_alert hmac net clk a st =
     send_selected hmac net clk (\<lambda>w. wc_enabled w \<and> wc_send_alerts w \<and> should_send_alert w a)
       (alert_payload a) 0 (wn_webhooks (fst st)) st"

definition webhook_on_security_event where
  "webhook_on_security_event hmac net clk e st =
     send_selected hmac net clk
       (\<lambda>w. wc_enabled w \<and> wc_send_security_events w \<and> should_send_security_event w e)
       (security_payload e) 0 (wn_webhooks (fst st)) st"

definition send_all_webhooks where
  "send_all_webhooks hmac net clk payload st =
     send_selected hmac net clk wc_enabled payload 0 (wn_webhooks (fst st)) st"

definition get_recent_results :: "nat \<Rightarrow> 'w WebhookNotifier \<Rightarrow> WebhookResult list" where
  "get_recent_results limit wn =
     (if length (wn_results wn) \<le> limit then wn_results wn
      else drop (length (wn_results wn) - limit) (wn_results wn))"

subsection \<open>Registry and record\<close>

interpretation webhook_registry: named_registry
  wn_webhooks wc_name "\<lambda>r. r" "\<lambda>b. wc_enabled_update (\<lambda>_. b)"
  add_webhook remove_webhook enable_webhook
  by unfold_locales
     (auto simp: add_webhook_def remove_webhook_def enable_webhook_def update_first_named distinct_map_filter_fst)

interpretation result_record: bounded_log 1000 push_result
  by unfold_locales (simp add: push_result_def take_last_def Let_def)

subsection \<open>The attempts\<close>

definition ok_status :: "curl_outcome \<Rightarrow> bool" where
  "ok_status oc = (case oc of Completed s \<Rightarrow> 200 \<le> s \<and> s < 300 | _ \<Rightarrow> False)"

lemma fst_http_post [simp]: "fst (http_post oc s e) = ok_status oc"
  by (simp add: http_post_def ok_status_def split: curl_outcome.split)

text \<open>The number of attempts made: up to and with the first success, else all.\<close>
fun attempts_made :: "nat \<Rightarrow> (nat \<Rightarrow> curl_outcome) \<Rightarrow> nat \<Rightarrow> nat" where
  "attempts_made 0 net k = 0"
| "attempts_made (Suc n) net k = (if ok_status (net k) then 1 else Suc (attempts_made n net (Suc k)))"

lemma attempts_made_spec:
  "attempts_made n net k =
     (if \<exists>i < n. ok_status (net (k + i)) then Suc (LEAST i. ok_status (net (k + i))) else n)"
proof (induction n arbitrary: k)
  case (Suc n)
  show ?case
  proof (cases "ok_status (net k)")
    case True
    then have "(LEAST i. ok_status (net (k + i))) = 0" by (intro Least_equality) auto
    with True show ?thesis by auto
  next
    case False
    have ex: "(\<exists>i < Suc n. ok_status (net (k + i))) \<longleftrightarrow> (\<exists>i < n. ok_status (net (Suc k + i)))"
      using False by (auto simp: less_Suc_eq_0_disj)
    show ?thesis
    proof (cases "\<exists>i < n. ok_status (net (Suc k + i))")
      case True
      then obtain i where "ok_status (net (k + Suc i))" by auto
      then have "(LEAST i. ok_status (net (k + i))) = Suc (LEAST i. ok_status (net (k + Suc i)))"
        using False by (intro Least_Suc [where n = "Suc i"]) auto
      with True ex False Suc.IH [of "Suc k"] show ?thesis by simp
    next
      case f: False
      have "\<not> (\<exists>i < Suc n. ok_status (net (k + i)))" using f ex by blast
      then have "attempts_made (Suc n) net k = Suc n" using f False Suc.IH [of "Suc k"] by auto
      with \<open>\<not> (\<exists>i < Suc n. ok_status (net (k + i)))\<close> show ?thesis by auto
    qed
  qed
qed simp

text \<open>The status and the error text after \<open>n\<close> attempts: an attempt that does not assign them leaves those of the
  attempt before.\<close>
fun seen_answer :: "(nat \<Rightarrow> curl_outcome) \<Rightarrow> nat \<Rightarrow> int \<times> string" where
  "seen_answer answer 0 = (0, [])"
| "seen_answer answer (Suc n) = snd (http_post (answer n) (fst (seen_answer answer n)) (snd (seen_answer answer n)))"

text \<open>What is recorded of attempt \<open>i\<close>.\<close>
definition attempt_result ::
    "WebhookConfig \<Rightarrow> (nat \<Rightarrow> timestamp \<times> timestamp) \<Rightarrow> (nat \<Rightarrow> curl_outcome) \<Rightarrow> u64 \<Rightarrow> nat \<Rightarrow> WebhookResult" where
  "attempt_result config clk answer id0 i =
     \<lparr> wr_id = id0 + of_nat i, wr_webhook_name = wc_name config, wr_url = wc_url config, wr_success = ok_status (answer i),
       wr_http_status = fst (seen_answer answer (Suc i)), wr_error_message = snd (seen_answer answer (Suc i)),
       wr_timestamp = snd (clk i), wr_duration_ms = tdiv (snd (clk i) - fst (clk i)) 1000000 \<rparr>"

lemma send_attempts_recorded:
  assumes "send_attempts n net clk config k (fst (seen_answer net k)) (snd (seen_answer net k)) (wn, w) = (ok, wn', w')"
    and "wn_next_result_id wn = id0 + of_nat k" "new = map (attempt_result config clk net id0) [k..<k + attempts_made n net k]"
  shows "wn_results wn' = fold push_result new (wn_results wn) \<and> wn_callbacks wn' = wn_callbacks wn \<and>
    w' = fold (\<lambda>r. fold (\<lambda>cb. cb r) (wn_callbacks wn)) new w"
  using assms
proof (induction n arbitrary: k wn w new)
  case (Suc n)
  let ?s = "seen_answer net k"
  let ?r = "attempt_result config clk net id0 k"
  have post: "http_post (net k) (fst ?s) (snd ?s) = (ok_status (net k), fst (seen_answer net (Suc k)), snd (seen_answer net (Suc k)))"
    by (simp add: prod_eq_iff)
  obtain wn1 w1 where rec: "record_attempt config (clk k) (ok_status (net k)) (fst (seen_answer net (Suc k)))
      (snd (seen_answer net (Suc k))) (wn, w) = (wn1, w1)" by force
  have one: "wn_results wn1 = push_result ?r (wn_results wn)" "wn_callbacks wn1 = wn_callbacks wn"
      "w1 = fold (\<lambda>cb. cb ?r) (wn_callbacks wn) w" "wn_next_result_id wn1 = id0 + of_nat (Suc k)"
    using rec Suc.prems(2) by (auto simp: record_attempt_def attempt_result_def Let_def simp del: seen_answer.simps)
  have step: "(if ok_status (net k) then (True, wn1, w1)
      else send_attempts n net clk config (Suc k) (fst (seen_answer net (Suc k))) (snd (seen_answer net (Suc k))) (wn1, w1)) = (ok, wn', w')"
    using Suc.prems(1) unfolding send_attempts.simps post Let_def prod.case rec .
  show ?case
  proof (cases "ok_status (net k)")
    case True
    then show ?thesis using step Suc.prems(3) one by simp
  next
    case False
    define rest where "rest = map (attempt_result config clk net id0) [Suc k..<Suc k + attempts_made n net (Suc k)]"
    have "send_attempts n net clk config (Suc k) (fst (seen_answer net (Suc k))) (snd (seen_answer net (Suc k))) (wn1, w1) = (ok, wn', w')"
      using step False by simp
    note I = Suc.IH [OF this one(4) rest_def]
    have "new = ?r # rest" using Suc.prems(3) False by (simp add: rest_def upt_conv_Cons del: upt_Suc)
    then show ?thesis using I one by simp
  qed
qed simp

lemma fold_push_result: "fold push_result new rs = (if new = [] then rs else take_last 1000 (rs @ new))"
proof (cases new)
  case (Cons r ys)
  then show ?thesis using result_record.fold_push [of ys "rs @ [r]"] by (simp add: result_record.push_eq)
qed simp

definition counters_sum :: "'w WebhookNotifier \<Rightarrow> bool" where
  "counters_sum wn = (wn_total_sent wn = wn_total_success wn + wn_total_failed wn)"

lemma record_attempt_props:
  assumes "record_attempt config t ok status err (wn, w) = (wn', w')"
  shows "wn_webhooks wn' = wn_webhooks wn" "wn_total_sent wn' = wn_total_sent wn + 1"
    "wn_total_success wn' = wn_total_success wn + (if ok then 1 else 0)"
    "counters_sum wn \<Longrightarrow> counters_sum wn'" "length (wn_results wn') \<le> 1000"
    "\<exists>r. wn_results wn' = push_result r (wn_results wn) \<and> wr_success r = ok \<and> wr_http_status r = status \<and>
         wr_webhook_name r = wc_name config"
  using assms
  by (auto simp: record_attempt_def Let_def counters_sum_def result_record.length_push)

lemma send_attempts_props:
  assumes "send_attempts n net clk config k status err (wn, w) = (ok, wn', w')"
  shows "ok = (\<exists>i < n. ok_status (net (k + i))) \<and> wn_webhooks wn' = wn_webhooks wn \<and>
     wn_total_sent wn' = wn_total_sent wn + of_nat (attempts_made n net k) \<and>
     wn_total_success wn' = wn_total_success wn + (if ok then 1 else 0) \<and>
     (counters_sum wn \<longrightarrow> counters_sum wn') \<and> (length (wn_results wn) \<le> 1000 \<longrightarrow> length (wn_results wn') \<le> 1000)"
  using assms
proof (induction n arbitrary: k status err wn w)
  case (Suc n)
  obtain ok1 status1 err1 where p: "http_post (net k) status err = (ok1, status1, err1)" by (metis prod_cases3)
  obtain wn1 w1 where r: "record_attempt config (clk k) ok1 status1 err1 (wn, w) = (wn1, w1)" by force
  have ok1: "ok1 = ok_status (net k)" using p by (metis fst_conv fst_http_post)
  note R = record_attempt_props [OF r]
  show ?case
  proof (cases ok1)
    case True
    then show ?thesis using Suc.prems p r R ok1 by (auto intro: exI [of _ 0])
  next
    case False
    then have "send_attempts n net clk config (Suc k) status1 err1 (wn1, w1) = (ok, wn', w')"
      using Suc.prems p r by simp
    note I = Suc.IH [OF this]
    have "(\<exists>i < Suc n. ok_status (net (k + i))) \<longleftrightarrow> (\<exists>i < n. ok_status (net (Suc k + i)))"
      using False ok1 by (auto simp: less_Suc_eq_0_disj)
    then show ?thesis using I R False ok1 by auto
  qed
qed auto

lemma send_webhook_frame:
  assumes "send_webhook hmac net clk name p (wn, w) = (ok, wn', w')"
  shows "wn_webhooks wn' = wn_webhooks wn" "counters_sum wn \<Longrightarrow> counters_sum wn'"
    "length (wn_results wn) \<le> 1000 \<Longrightarrow> length (wn_results wn') \<le> 1000"
proof -
  have "wn_webhooks wn' = wn_webhooks wn \<and> (counters_sum wn \<longrightarrow> counters_sum wn') \<and>
        (length (wn_results wn) \<le> 1000 \<longrightarrow> length (wn_results wn') \<le> 1000)"
    using assms
    by (auto simp: send_webhook_def split: option.splits if_splits dest!: send_attempts_props)
  then show "wn_webhooks wn' = wn_webhooks wn" "counters_sum wn \<Longrightarrow> counters_sum wn'"
    "length (wn_results wn) \<le> 1000 \<Longrightarrow> length (wn_results wn') \<le> 1000" by blast+
qed

definition notifier_ok :: "'w WebhookNotifier \<Rightarrow> bool" where
  "notifier_ok wn = (counters_sum wn \<and> length (wn_results wn) \<le> 1000)"

lemma send_selected_ok:
  "notifier_ok (fst st) \<Longrightarrow> notifier_ok (fst (send_selected hmac net clk sel p j ws st)) \<and>
     wn_webhooks (fst (send_selected hmac net clk sel p j ws st)) = wn_webhooks (fst st)"
proof (induction ws arbitrary: j st)
  case (Cons w ws)
  obtain ok wn' w' where s: "send_webhook hmac (net j) (clk j) (wc_name w) p st = (ok, wn', w')"
    by (metis prod_cases3)
  have "notifier_ok wn'" "wn_webhooks wn' = wn_webhooks (fst st)"
    using Cons.prems send_webhook_frame [of hmac "net j" "clk j" "wc_name w" p "fst st" "snd st" ok wn' w'] s
    by (auto simp: notifier_ok_def)
  then show ?case using Cons.IH [of "(wn', w')" "Suc j"] Cons.IH [of st "Suc j"] Cons.prems s by simp
qed simp

text \<open>Every state a notifier can be in.\<close>
inductive webhook_step :: "'w WebhookNotifier \<times> 'w \<Rightarrow> 'w WebhookNotifier \<times> 'w \<Rightarrow> bool" where
  "webhook_step (wn, w) (add_webhook c wn, w)"
| "webhook_step (wn, w) (remove_webhook n wn, w)"
| "webhook_step (wn, w) (enable_webhook n b wn, w)"
| "webhook_step (wn, w) (clear_webhooks wn, w)"
| "webhook_step (wn, w) (on_result cb wn, w)"
| "send_webhook hmac net clk n p st = (ok, st') \<Longrightarrow> webhook_step st st'"
| "webhook_step st (webhook_on_alert hmac net2 clk2 a st)"
| "webhook_step st (webhook_on_security_event hmac net2 clk2 e st)"
| "webhook_step st (send_all_webhooks hmac net2 clk2 p st)"

lemma webhook_step_ok:
  "webhook_step st st' \<Longrightarrow> notifier_ok (fst st) \<Longrightarrow> notifier_ok (fst st')"
proof (induction rule: webhook_step.induct)
  case (6 hmac net clk n p st ok st')
  then show ?case
    using send_webhook_frame [of hmac net clk n p "fst st" "snd st" ok "fst st'" "snd st'"]
    by (simp add: notifier_ok_def)
qed (simp_all add: add_webhook_def remove_webhook_def enable_webhook_def clear_webhooks_def on_result_def
       notifier_ok_def counters_sum_def webhook_on_alert_def webhook_on_security_event_def send_all_webhooks_def
       send_selected_ok [unfolded notifier_ok_def counters_sum_def])

subsection \<open>Properties\<close>

text \<open>C26: a delivery to a registered, enabled webhook makes attempts up to and with the first that
  answers with a status of 200 to 299, and \<open>retry_count\<close> of them otherwise; it succeeds exactly
  if one of these attempts does, the counters move by the number of attempts, and one result per
  attempt, with a fresh id, the answer and the time it took, is appended to those kept (of which the
  newest 1000 stay) and given to every callback.\<close>
theorem send_webhook_retries:
  assumes "find (\<lambda>c. wc_name c = name) (wn_webhooks wn) = Some config" "wc_enabled config"
    and "send_webhook hmac net clk name payload (wn, w) = (ok, wn', w')"
    and "retries = nat (wc_retry_count config)"
    and "answer = net (build_request hmac config payload)"
    and "made = (if ok then Suc (LEAST i. ok_status (answer i)) else retries)"
    and "new = map (attempt_result config clk answer (wn_next_result_id wn)) [0..<made]"
  shows "ok = (\<exists>i < retries. ok_status (answer i)) \<and>
         wn_total_sent wn' = wn_total_sent wn + of_nat made \<and>
         wn_total_success wn' = wn_total_success wn + (if ok then 1 else 0) \<and>
         wn_results wn' = (if made = 0 then wn_results wn else take_last 1000 (wn_results wn @ new)) \<and>
         w' = fold (\<lambda>r. fold (\<lambda>cb. cb r) (wn_callbacks wn)) new w"
proof -
  have run: "send_attempts retries answer clk config 0 0 [] (wn, w) = (ok, wn', w')"
    using assms(1-5) by (simp add: send_webhook_def)
  note props = send_attempts_props [OF run] attempts_made_spec [of retries answer 0]
  then have ok: "ok = (\<exists>i < retries. ok_status (answer i))" by simp
  have made: "attempts_made retries answer 0 = made" unfolding assms(6) ok using props(2) unfolding add_0 .
  have "new = [] \<longleftrightarrow> made = 0" by (simp add: assms(7))
  then show ?thesis
    using props send_attempts_recorded [of retries answer clk config 0 wn w ok wn' w' "wn_next_result_id wn" new] run
    by (simp add: made assms(7) fold_push_result)
qed

definition hook :: WebhookConfig where
  "hook = default_webhook_config\<lparr>wc_name := ''h'', wc_url := ''http://x''\<rparr>"

definition hooked :: "unit WebhookNotifier" where
  "hooked = add_webhook hook new_webhook_notifier"

definition flaky :: "http_request \<Rightarrow> nat \<Rightarrow> curl_outcome" where
  "flaky rq k = (if k < 2 then TransferFailed ''timeout'' else Completed 204)"

definition sample_payload :: WebhookPayload where
  "sample_payload = \<lparr> wp_id = ''1'', wp_timestamp = [], wp_event_type = ''alert'', wp_source = ''s'',
     wp_target = ''t'', wp_summary = ''m'', wp_severity = 2, wp_details = [], wp_signature = [] \<rparr>"

lemma find_hook: "find (\<lambda>c. wc_name c = ''h'') (wn_webhooks hooked) = Some hook"
  by (simp add: hooked_def add_webhook_def new_webhook_notifier_def hook_def)

lemma send_webhook_retries_witness:
  "\<exists>wn' w'. send_webhook (\<lambda>_ _. None) flaky (\<lambda>_. (0, 0)) ''h'' sample_payload (hooked, ()) = (True, wn', w') \<and>
     wn_total_sent wn' = 3 \<and> map wr_success (wn_results wn') = [False, False, True] \<and>
     map wr_http_status (wn_results wn') = [0, 0, 204] \<and> map wr_id (wn_results wn') = [1, 2, 3]"
proof -
  obtain ok wn' w' where s:
    "send_webhook (\<lambda>_ _. None) flaky (\<lambda>_. (0, 0)) ''h'' sample_payload (hooked, ()) = (ok, wn', w')"
    by (metis prod_cases3)
  have en: "wc_enabled hook" "nat (wc_retry_count hook) = 3"
    by (simp_all add: hook_def default_webhook_config_def)
  note R = send_webhook_retries [OF find_hook en(1) s refl refl refl refl, unfolded en(2)]
  have least: "(LEAST i. ok_status (flaky (build_request (\<lambda>_ _. None) hook sample_payload) i)) = 2"
    by (rule Least_equality) (auto simp: flaky_def ok_status_def split: if_splits)
  have "\<exists>i < 3. ok_status (flaky (build_request (\<lambda>_ _. None) hook sample_payload) i)"
    by (rule exI [of _ 2]) (simp add: flaky_def ok_status_def)
  then have "ok" using R by simp
  have new: "wn_total_sent hooked = 0" "wn_results hooked = []" "wn_next_result_id hooked = 1"
    by (simp_all add: hooked_def add_webhook_def new_webhook_notifier_def)
  have three: "[0..<3] = [0, 1, 2 :: nat]" by (simp add: upt_rec)
  have kept: "wn_total_sent wn' = 3" "wn_results wn' = map (attempt_result hook (\<lambda>_. (0, 0)) (flaky (build_request (\<lambda>_ _. None) hook sample_payload)) 1) [0, 1, 2]"
    using R \<open>ok\<close> unfolding least new by (simp_all add: take_last_def three)
  show ?thesis
    using s \<open>ok\<close> kept by (simp add: attempt_result_def flaky_def ok_status_def http_post_def numeral_2_eq_2)
qed

text \<open>in every state a notifier can reach, the deliveries counted are the successes plus the
  failures (modulo the width of the counters) and at most 1000 results are kept.\<close>
theorem webhook_counters_add_up:
  assumes "webhook_step\<^sup>*\<^sup>* (new_webhook_notifier, w) (wn, w')"
  shows "wn_total_sent wn = wn_total_success wn + wn_total_failed wn \<and> length (wn_results wn) \<le> 1000"
proof -
  have "notifier_ok (fst (wn, w'))"
    using assms
  proof (induction rule: rtranclp_induct)
    case base
    then show ?case by (simp add: notifier_ok_def counters_sum_def new_webhook_notifier_def)
  next
    case (step y z)
    then show ?case using webhook_step_ok by blast
  qed
  then show ?thesis by (simp add: notifier_ok_def counters_sum_def)
qed

lemma webhook_counters_add_up_witness:
  "wn_total_sent hooked = wn_total_success hooked + wn_total_failed hooked"
proof -
  have "webhook_step\<^sup>*\<^sup>* (new_webhook_notifier, ()) (hooked, ())"
    unfolding hooked_def by (rule r_into_rtranclp) (rule webhook_step.intros)
  from webhook_counters_add_up [OF this] show ?thesis by simp
qed

text \<open>each text of a payload survives the body: whatever bytes the summary holds, a JSON reader
  that reaches its literal reads the summary back and stops at its closing quote.\<close>
theorem payload_summary_readable:
  "\<exists>before after. serialize_payload p = before @ ''summary'' @ dquote # CHR '':'' # dquote # after \<and>
     json_string_body after = Some (wp_summary p, CHR '','' # json_member ''severity'' (int_str (wp_severity p)) @ '','' @
       json_member ''details''
         (''{'' @ join_with '','' (map (\<lambda>(k, v). quoted k @ '':'' @ quoted v) (wp_details p)) @ ''}'') @
       (if wp_signature p = [] then [] else '','' @ json_member ''signature'' (quoted (wp_signature p))) @ ''}'')"
  (is "\<exists>before after. _ \<and> json_string_body after = Some (_, ?rest)")
proof (intro exI conjI)
  show "serialize_payload p =
     (''{'' @ json_member ''id'' (quoted (wp_id p)) @ '','' @
      json_member ''timestamp'' (quoted (wp_timestamp p)) @ '','' @
      json_member ''event_type'' (quoted (wp_event_type p)) @ '','' @
      json_member ''source'' (quoted (wp_source p)) @ '','' @
      json_member ''target'' (quoted (wp_target p)) @ '','' @ [dquote]) @
      ''summary'' @ dquote # CHR '':'' # dquote # (webhook_escape_json (wp_summary p) @ dquote # ?rest)"
    by (simp add: serialize_payload_def json_member_def quoted_def)
  show "json_string_body (webhook_escape_json (wp_summary p) @ dquote # ?rest) = Some (wp_summary p, ?rest)"
    unfolding webhook_escape_json_def by (rule json_escape_round_trip)
qed

text \<open>The milliseconds of the time stamp are not padded: 5 ms after the second reads as half a second.\<close>
lemma iso8601_milliseconds_unpadded:
  "timestamp_to_iso8601 1700000000005000000 = ''2023-11-14T22:13:20.5Z''"
  by code_simp

text \<open>The error text of a failed attempt stays in the result of the attempt that succeeds.\<close>
lemma stale_error_after_success:
  "map (\<lambda>r. (wr_success r, wr_error_message r))
     (wn_results (fst (snd (send_webhook (\<lambda>_ _. None) flaky (\<lambda>_. (0, 0)) ''h'' sample_payload (hooked, ()))))) =
   [(False, ''timeout''), (False, ''timeout''), (True, ''timeout'')]"
proof -
  have "nat (wc_retry_count hook) = Suc (Suc (Suc 0))" "wc_enabled hook"
    by (simp_all add: hook_def default_webhook_config_def)
  then show ?thesis
    by (simp add: send_webhook_def find_hook flaky_def http_post_def record_attempt_def Let_def push_result_def)
       (simp add: hooked_def add_webhook_def new_webhook_notifier_def)
qed
end
