(* ===== verification/Event_Exporter.thy ===== *)
theory Event_Exporter
  imports Core_Event File_System Json_Text
begin

text \<open>
  \<open>export/event_exporter.h\<close> and \<open>export/event_exporter.cpp\<close>: CSV and JSON files of an
  event list.  The time stamps are printed in local time: \<open>fmt\<close> is that formatting.  The
  CSV reader is the reference: it reads a record as RFC 4180 defines it.
\<close>

datatype ExportFormat = CSV | JSON

definition needs_quotes :: "string \<Rightarrow> bool" where
  "needs_quotes field = list_ex (\<lambda>c. c = CHR '','' \<or> c = dquote \<or> c = nl \<or> c = cr) field"

definition double_quotes :: "string \<Rightarrow> string" where
  "double_quotes field = concat (map (\<lambda>c. if c = dquote then [dquote, dquote] else [c]) field)"

definition escape_csv_field :: "string \<Rightarrow> string" where
  "escape_csv_field field =
     (if \<not> needs_quotes field then field else dquote # double_quotes field @ [dquote])"

definition export_json_escape :: "string \<Rightarrow> string" where
  "export_json_escape s = json_escape_with True s"

definition csv_attrs :: "(string, string) omap \<Rightarrow> string" where
  "csv_attrs m = foldl (\<lambda>acc kv. (if acc = [] then acc else acc @ ''; '') @ fst kv @ ''='' @ snd kv) [] m"

definition csv_fields :: "(timestamp \<Rightarrow> string) \<Rightarrow> Event \<Rightarrow> string list" where
  "csv_fields fmt e =
     [fmt (ev_timestamp e), category_name (ev_category e), type_name (ev_type e), ev_source e, ev_target e,
      ev_summary e, ev_host e, ev_platform e, csv_attrs (ev_attributes e)]"

definition csv_row :: "(timestamp \<Rightarrow> string) \<Rightarrow> Event \<Rightarrow> string" where
  "csv_row fmt e =
     word_str (ev_id e) @ concat (map (\<lambda>f. '','' @ escape_csv_field f) (csv_fields fmt e)) @ [nl]"

definition csv_header :: string where
  "csv_header = ''id,timestamp,category,type,source,target,summary,host,platform,attributes'' @ [nl]"

definition csv_text :: "(timestamp \<Rightarrow> string) \<Rightarrow> Event list \<Rightarrow> string" where
  "csv_text fmt events = csv_header @ concat (map (csv_row fmt) events)"

definition json_field :: "string \<Rightarrow> string \<Rightarrow> string" where
  "json_field key val = ''    '' @ [dquote] @ key @ [dquote] @ '': '' @ [dquote] @ val @ [dquote] @ '','' @ [nl]"

definition json_attrs :: "(string, string) omap \<Rightarrow> string" where
  "json_attrs m =
     join_with '','' (map (\<lambda>(k, v). nl # ''      '' @ [dquote] @ export_json_escape k @ [dquote] @ '': '' @
                                  [dquote] @ export_json_escape v @ [dquote]) m) @
     (if m = [] then [] else nl # ''    '')"

definition json_event :: "(timestamp \<Rightarrow> string) \<Rightarrow> Event \<Rightarrow> string" where
  "json_event fmt e =
     ''  {'' @ [nl] @
     ''    '' @ [dquote] @ ''id'' @ [dquote] @ '': '' @ word_str (ev_id e) @ '','' @ [nl] @
     json_field ''timestamp'' (fmt (ev_timestamp e)) @
     json_field ''category'' (export_json_escape (category_name (ev_category e))) @
     json_field ''type'' (export_json_escape (type_name (ev_type e))) @
     json_field ''source'' (export_json_escape (ev_source e)) @
     json_field ''target'' (export_json_escape (ev_target e)) @
     json_field ''summary'' (export_json_escape (ev_summary e)) @
     json_field ''host'' (export_json_escape (ev_host e)) @
     json_field ''platform'' (export_json_escape (ev_platform e)) @
     ''    '' @ [dquote] @ ''attributes'' @ [dquote] @ '': {'' @ json_attrs (ev_attributes e) @ ''}'' @ [nl] @
     ''  }''"

text \<open>The objects are separated by commas, each on lines of its own.\<close>
fun json_events :: "(timestamp \<Rightarrow> string) \<Rightarrow> Event list \<Rightarrow> string" where
  "json_events fmt [] = []"
| "json_events fmt [e] = json_event fmt e @ [nl]"
| "json_events fmt (e # e2 # es) = json_event fmt e @ '','' @ [nl] @ json_events fmt (e2 # es)"

definition json_text :: "(timestamp \<Rightarrow> string) \<Rightarrow> Event list \<Rightarrow> string" where
  "json_text fmt events = ''['' @ [nl] @ json_events fmt events @ '']'' @ [nl]"

text \<open>The file is created or truncated, written and closed; the result is its state.\<close>
definition export_text :: "string \<Rightarrow> string \<Rightarrow> file_system \<Rightarrow> file_system \<times> bool" where
  "export_text txt path fs =
     (let (fs1, f) = open_trunc path fs in
      if st_fail f then (fs1, False)
      else (let fs2 = stream_write txt fs1 f; f1 = close_stream f in (fs2, \<not> st_fail f1)))"

definition export_to_csv :: "(timestamp \<Rightarrow> string) \<Rightarrow> Event list \<Rightarrow> string \<Rightarrow> file_system \<Rightarrow> file_system \<times> bool" where
  "export_to_csv fmt events path fs = export_text (csv_text fmt events) path fs"

definition export_to_json :: "(timestamp \<Rightarrow> string) \<Rightarrow> Event list \<Rightarrow> string \<Rightarrow> file_system \<Rightarrow> file_system \<times> bool" where
  "export_to_json fmt events path fs = export_text (json_text fmt events) path fs"

definition export_events ::
    "(timestamp \<Rightarrow> string) \<Rightarrow> Event list \<Rightarrow> string \<Rightarrow> ExportFormat \<Rightarrow> file_system \<Rightarrow> file_system \<times> bool" where
  "export_events fmt events path format fs =
     (case format of CSV \<Rightarrow> export_to_csv fmt events path fs | JSON \<Rightarrow> export_to_json fmt events path fs)"

subsection \<open>The reference reader\<close>

text \<open>The rest of a quoted field after its opening quote: the field and what follows the closing quote.\<close>
fun read_quoted :: "string \<Rightarrow> (string \<times> string) option" where
  "read_quoted [] = None"
| "read_quoted [c] = (if c = dquote then Some ([], []) else None)"
| "read_quoted (c # d # s) =
     (if c = dquote then
        (if d = dquote then map_option (\<lambda>(f, t). (dquote # f, t)) (read_quoted s) else Some ([], d # s))
      else map_option (\<lambda>(f, t). (c # f, t)) (read_quoted (d # s)))"

definition is_plain :: "char \<Rightarrow> bool" where
  "is_plain c = (c \<noteq> CHR '','' \<and> c \<noteq> dquote \<and> c \<noteq> nl \<and> c \<noteq> cr)"

text \<open>One field, quoted or plain.\<close>
definition read_field :: "string \<Rightarrow> (string \<times> string) option" where
  "read_field s =
     (case s of
        [] \<Rightarrow> Some ([], [])
      | c # t \<Rightarrow> (if c = dquote then read_quoted t else Some (takeWhile is_plain s, dropWhile is_plain s)))"

text \<open>The fields of a record up to its line break, at most \<open>n\<close> of them.\<close>
fun read_record :: "nat \<Rightarrow> string \<Rightarrow> (string list \<times> string) option" where
  "read_record 0 s = None"
| "read_record (Suc n) s =
     (case read_field s of
        None \<Rightarrow> None
      | Some (f, t) \<Rightarrow>
          (case t of
             [] \<Rightarrow> None
           | c # u \<Rightarrow> (if c = nl then Some ([f], u)
                      else if c = CHR '','' then map_option (\<lambda>(fs, r). (f # fs, r)) (read_record n u)
                      else None)))"

lemma not_needs_quotes: "\<not> needs_quotes f \<longleftrightarrow> (\<forall>c \<in> set f. is_plain c)"
  by (auto simp: needs_quotes_def list_ex_iff is_plain_def)

lemma read_quoted_double:
  "s = [] \<or> hd s \<noteq> dquote \<Longrightarrow> read_quoted (double_quotes f @ dquote # s) = Some (f, s)"
proof (induction f)
  case Nil
  then show ?case by (cases s) (auto simp: double_quotes_def)
next
  case (Cons c f)
  show ?case
  proof (cases "c = dquote")
    case True
    with Cons show ?thesis by (simp add: double_quotes_def)
  next
    case False
    obtain d u where u: "double_quotes f @ dquote # s = d # u"
      by (cases "double_quotes f") auto
    have "read_quoted (c # d # u) = map_option (\<lambda>(f, t). (c # f, t)) (read_quoted (d # u))"
      using False by simp
    with Cons False u show ?thesis by (simp add: double_quotes_def)
  qed
qed

lemma read_field_escape:
  assumes "c = CHR '','' \<or> c = nl"
  shows "read_field (escape_csv_field f @ c # s) = Some (f, c # s)"
proof (cases "needs_quotes f")
  case True
  then show ?thesis
    using assms by (auto simp: read_field_def escape_csv_field_def read_quoted_double)
next
  case False
  then have p: "\<forall>x \<in> set f. is_plain x" by (simp add: not_needs_quotes)
  have "\<not> is_plain c" using assms by (auto simp: is_plain_def)
  then have "takeWhile is_plain (f @ c # s) = f" "dropWhile is_plain (f @ c # s) = c # s"
    using p by (simp_all add: takeWhile_append2 dropWhile_append2 takeWhile_eq_all_conv)
  moreover have "hd (f @ c # s) \<noteq> dquote"
    using p assms by (cases f) (auto simp: is_plain_def)
  ultimately show ?thesis
    using False by (cases f) (auto simp: read_field_def escape_csv_field_def split: list.split)
qed

lemma read_record_fields:
  "length fs \<le> n \<Longrightarrow>
   read_record (Suc n) (escape_csv_field f @ concat (map (\<lambda>f. '','' @ escape_csv_field f) fs) @ nl # s) =
   Some (f # fs, s)"
proof (induction fs arbitrary: f n)
  case Nil
  then show ?case by (simp add: read_field_escape)
next
  case (Cons g gs)
  then obtain m where m: "n = Suc m" by (cases n) auto
  with Cons show ?case by (simp add: read_field_escape)
qed

lemma escape_csv_number: "escape_csv_field (word_str w) = word_str w"
proof -
  have "is_plain c" if "c \<in> set (word_str w)" for c
    using word_str_chars [OF that] by (auto simp: isdigit_def is_plain_def)
  then show ?thesis using not_needs_quotes by (auto simp: escape_csv_field_def)
qed

subsection \<open>Properties\<close>

text \<open>C27: a CSV row reads back as its fields, whatever commas, quotes and line breaks they hold: the
  reader returns the id, the formatted time, the names, the texts and the attribute field, and
  stops at the end of the row.\<close>
theorem csv_row_round_trip:
  "read_record 10 (csv_row fmt e @ rest) = Some (word_str (ev_id e) # csv_fields fmt e, rest)"
proof -
  have "length (csv_fields fmt e) \<le> 9" by (simp add: csv_fields_def)
  from read_record_fields [OF this, of "word_str (ev_id e)" rest] show ?thesis
    by (simp add: csv_row_def escape_csv_number eval_nat_numeral del: read_record.simps)
qed

text \<open>An export writes exactly the text, or reports failure and leaves every file as it was.\<close>
lemma export_events_result:
  "export_events fmt events path format fs =
     (if fs_can_write fs path
      then (set_file path (Some (case format of CSV \<Rightarrow> csv_text fmt events | JSON \<Rightarrow> json_text fmt events)) fs, True)
      else (fs, False))"
  by (cases format)
     (auto simp: export_events_def export_to_csv_def export_to_json_def export_text_def open_trunc_def
        stream_write_def set_file_def close_stream_def)
end
