(* ===== verification/Event_Query.thy ===== *)
theory Event_Query
  imports Storage Json_Text "HOL-Library.Multiset"
begin

text \<open>
  \<open>query/event_query.h\<close> and \<open>query/event_query.cpp\<close>: filtering the stored events, sorting
  them newest first and printing a page of them.  \<open>std::sort\<close> is the parameter \<open>srt\<close>,
  the local-time format is \<open>fmt\<close>; what is printed on stdout is returned with the result.
\<close>

record QueryOptions =
  qo_keyword :: string
  qo_category :: string
  qo_source :: string
  qo_from_unix_ms :: int
  qo_to_unix_ms :: int
  qo_limit :: int
  qo_offset :: int
  qo_json_output :: bool

definition contains_ci :: "string \<Rightarrow> string \<Rightarrow> bool" where
  "contains_ci haystack needle =
     (if needle = [] then True else contains (to_lower haystack) (to_lower needle))"

definition query_json_escape :: "string \<Rightarrow> string" where
  "query_json_escape s = json_escape_with False s"

definition parse_category :: "string \<Rightarrow> EventCategory" where
  "parse_category name =
     (let n = to_lower name in
      if n = ''filesystem'' then Filesystem
      else if n = ''process'' then Process
      else if n = ''network'' then Network
      else if n = ''system_config'' \<or> n = ''systemconfig'' then SystemConfig
      else if n = ''hardware'' then Hardware
      else if n = ''system'' then System
      else UnknownCategory)"

text \<open>The guards of the callback passed to \<open>iterate\<close>.\<close>
definition option_match :: "QueryOptions \<Rightarrow> Event \<Rightarrow> bool" where
  "option_match opt e =
     (let ms = to_unix_ms (ev_timestamp e); cat = parse_category (qo_category opt) in
      if qo_from_unix_ms opt > 0 \<and> ms < qo_from_unix_ms opt then False
      else if qo_to_unix_ms opt > 0 \<and> ms > qo_to_unix_ms opt then False
      else if cat \<noteq> UnknownCategory \<and> ev_category e \<noteq> cat then False
      else if qo_source opt \<noteq> [] \<and> \<not> contains_ci (ev_source e) (qo_source opt) then False
      else if qo_keyword opt \<noteq> [] \<and> \<not> contains_ci (ev_summary e) (qo_keyword opt) \<and>
              \<not> contains_ci (ev_target e) (qo_keyword opt) \<and> \<not> contains_ci (ev_source e) (qo_keyword opt)
      then False
      else True)"

definition newest_first :: "Event list \<Rightarrow> bool" where
  "newest_first es = sorted_wrt (\<lambda>a b. ev_timestamp a \<ge> ev_timestamp b) es"

definition time_sort :: "(Event list \<Rightarrow> Event list) \<Rightarrow> bool" where
  "time_sort srt = (\<forall>es. mset (srt es) = mset es \<and> newest_first (srt es))"

definition text_event :: "(timestamp \<Rightarrow> string) \<Rightarrow> Event \<Rightarrow> string" where
  "text_event fmt e =
     ''['' @ fmt (ev_timestamp e) @ ''] '' @ category_name (ev_category e) @ ''/'' @ type_name (ev_type e) @
     '' src='' @ ev_source e @ '' target='' @ ev_target e @ [nl] @
     (if ev_summary e \<noteq> [] then ''    '' @ ev_summary e @ [nl] else [])"

definition query_field :: "string \<Rightarrow> string \<Rightarrow> string" where
  "query_field key val = ''    '' @ [dquote] @ key @ [dquote] @ '': '' @ [dquote] @ val @ [dquote] @ '','' @ [nl]"

definition query_json_event :: "(timestamp \<Rightarrow> string) \<Rightarrow> bool \<Rightarrow> Event \<Rightarrow> string" where
  "query_json_event fmt final e =
     ''  {'' @ [nl] @
     query_field ''timestamp'' (fmt (ev_timestamp e)) @
     ''    '' @ [dquote] @ ''timestamp_unix_ms'' @ [dquote] @ '': '' @ int_str (to_unix_ms (ev_timestamp e)) @ '','' @ [nl] @
     query_field ''category'' (category_name (ev_category e)) @
     query_field ''type'' (type_name (ev_type e)) @
     query_field ''source'' (query_json_escape (ev_source e)) @
     query_field ''target'' (query_json_escape (ev_target e)) @
     query_field ''host'' (query_json_escape (ev_host e)) @
     query_field ''platform'' (query_json_escape (ev_platform e)) @
     query_field ''summary'' (query_json_escape (ev_summary e)) @
     ''    '' @ [dquote] @ ''attributes'' @ [dquote] @ '': {'' @
     join_with '', '' (map (\<lambda>(k, v). [dquote] @ query_json_escape k @ [dquote] @ '': '' @
                                    [dquote] @ query_json_escape v @ [dquote]) (ev_attributes e)) @
     ''}'' @ [nl] @ ''  }'' @ (if final then [] else '','') @ [nl]"

fun query_json_events :: "(timestamp \<Rightarrow> string) \<Rightarrow> Event list \<Rightarrow> string" where
  "query_json_events fmt [] = []"
| "query_json_events fmt (e # es) = query_json_event fmt (es = []) e @ query_json_events fmt es"

text \<open>The events of the page: \<open>matches[offset .. end)\<close>.\<close>
definition query_page :: "QueryOptions \<Rightarrow> Event list \<Rightarrow> Event list" where
  "query_page opt matches =
     (let n = int (length matches);
          offset = max 0 (qo_offset opt);
          limit = (if qo_limit opt > 0 then qo_limit opt else n)
      in if offset \<ge> n then []
         else (let end_at = min (offset + limit) n
               in map (\<lambda>i. matches ! nat i) [offset..end_at - 1]))"

definition query_run ::
    "(timestamp \<Rightarrow> string) \<Rightarrow> (Event list \<Rightarrow> Event list) \<Rightarrow> (nat \<Rightarrow> timestamp) \<Rightarrow> QueryOptions \<Rightarrow>
     file_system \<Rightarrow> FileStorage \<Rightarrow> string \<times> int" where
  "query_run fmt srt clk opt fs st =
     (if \<not> storage_is_open st then ([], 0)
      else
        (let matches = srt (filter (option_match opt) (storage_iterate clk fs st));
             n = length matches;
             offset = max 0 (qo_offset opt);
             page = query_page opt matches
         in if offset \<ge> int n then
              ((if qo_json_output opt then []
                else ''Query returned 0 events (offset='' @ int_str offset @ '', total_matches='' @ nat_str n @ '')'' @ [nl]),
               0)
            else if qo_json_output opt then
              (''['' @ [nl] @ query_json_events fmt page @ '']'' @ [nl], 0)
            else
              (''=== Event query results (showing '' @ nat_str (length page) @ '' of '' @ nat_str n @ '' matches) ==='' @ [nl] @
               concat (map (text_event fmt) page), int (length page))))"

subsection \<open>The page\<close>

lemma map_upto_nth:
  "0 \<le> a \<Longrightarrow> a \<le> b \<Longrightarrow> b \<le> int (length xs) \<Longrightarrow>
   map (\<lambda>i. xs ! nat i) [a..b - 1] = take (nat (b - a)) (drop (nat a) xs)"
  by (rule nth_equalityI) (auto simp: nth_upto nat_add_distrib)

lemma query_page_eq:
  "query_page opt matches =
   take (if qo_limit opt > 0 then nat (qo_limit opt) else length matches) (drop (nat (qo_offset opt)) matches)"
proof -
  define a where "a = max 0 (qo_offset opt)"
  define lim where "lim = (if qo_limit opt > 0 then qo_limit opt else int (length matches))"
  have n: "nat a = nat (qo_offset opt)" by (simp add: a_def)
  show ?thesis
  proof (cases "a \<ge> int (length matches)")
    case True
    then have "length matches \<le> nat (qo_offset opt)" by (simp add: a_def le_nat_iff)
    with True show ?thesis by (simp add: query_page_def a_def [symmetric])
  next
    case False
    define b where "b = min (a + lim) (int (length matches))"
    have ab: "0 \<le> a" "a \<le> b" "b \<le> int (length matches)"
      using False by (auto simp: a_def b_def lim_def)
    have "query_page opt matches = map (\<lambda>i. matches ! nat i) [a..b - 1]"
      using False by (simp add: query_page_def a_def [symmetric] lim_def [symmetric] b_def Let_def)
    also have "\<dots> = take (nat (b - a)) (drop (nat a) matches)" by (rule map_upto_nth [OF ab])
    also have "\<dots> = take (nat lim) (drop (nat a) matches)"
    proof (cases "a + lim \<le> int (length matches)")
      case True
      then show ?thesis by (simp add: b_def)
    next
      case f: False
      then have "nat (b - a) = length matches - nat a" "length matches - nat a \<le> nat lim"
        using ab False by (auto simp: b_def)
      then show ?thesis by simp
    qed
    finally show ?thesis by (simp add: n lim_def)
  qed
qed

lemma time_sort_props:
  assumes "time_sort srt"
  shows "set (srt es) = set es" "newest_first (srt es)" "length (srt es) = length es"
  using assms unfolding time_sort_def by (metis set_mset_mset, blast, metis size_mset)

definition stable_time_sort :: "Event list \<Rightarrow> Event list" where
  "stable_time_sort = sort_key (\<lambda>e. - ev_timestamp e)"

lemma time_sort_stable [simp]: "time_sort stable_time_sort"
proof -
  have "newest_first (sort_key (\<lambda>e. - ev_timestamp e) es)" for es
    using sorted_sort_key [of "\<lambda>e. - ev_timestamp e" es] by (simp add: newest_first_def sorted_wrt_map)
  then show ?thesis by (simp add: time_sort_def stable_time_sort_def)
qed

lemma sorted_wrt_take_drop:
  assumes "sorted_wrt R xs"
  shows "sorted_wrt R (take n (drop m xs))"
  using assms by (metis append_take_drop_id sorted_wrt_append)

subsection \<open>Properties\<close>

text \<open>a query in text mode shows the page that starts at the offset of the matching stored events
  sorted newest first, at most \<open>limit\<close> of them (all when the limit is not positive), and
  returns their number; every event shown matches and they are in descending time.\<close>
theorem query_shows_page:
  assumes "time_sort srt" "storage_is_open st" "\<not> qo_json_output opt"
    and "query_run fmt srt clk opt fs st = (out, printed)"
  shows "\<exists>page. page = take (if qo_limit opt > 0 then nat (qo_limit opt) else length (srt (filter (option_match opt) (storage_iterate clk fs st))))
                     (drop (nat (qo_offset opt)) (srt (filter (option_match opt) (storage_iterate clk fs st)))) \<and>
           printed = int (length page) \<and> newest_first page \<and>
           (\<forall>e \<in> set page. option_match opt e \<and> e \<in> set (storage_iterate clk fs st)) \<and>
           (\<exists>header. out = header @ concat (map (text_event fmt) page))"
proof -
  define ms where "ms = srt (filter (option_match opt) (storage_iterate clk fs st))"
  note S = time_sort_props [OF assms(1), of "filter (option_match opt) (storage_iterate clk fs st)", folded ms_def]
  let ?page = "query_page opt ms"
  have sub: "set ?page \<subseteq> set ms" unfolding query_page_eq by (meson set_drop_subset set_take_subset subset_trans)
  have "newest_first ?page"
    using S(2) by (simp add: newest_first_def query_page_eq sorted_wrt_take_drop)
  moreover have "printed = int (length ?page) \<and> (\<exists>header. out = header @ concat (map (text_event fmt) ?page))"
  proof (cases "max 0 (qo_offset opt) \<ge> int (length ms)")
    case True
    then have "?page = []" by (simp add: query_page_def Let_def)
    moreover have "printed = 0"
      using assms(2-4) True by (auto simp: query_run_def ms_def [symmetric] Let_def)
    ultimately show ?thesis by simp
  next
    case False
    then show ?thesis
      using assms(2-4) by (auto simp: query_run_def ms_def [symmetric] Let_def)
  qed
  ultimately show ?thesis
    using S(1) sub by (intro exI [of _ ?page]) (auto simp: query_page_eq ms_def [symmetric])
qed

definition default_query :: QueryOptions where
  "default_query = \<lparr> qo_keyword = [], qo_category = [], qo_source = [], qo_from_unix_ms = 0,
     qo_to_unix_ms = 0, qo_limit = 50, qo_offset = 0, qo_json_output = False \<rparr>"

lemma query_shows_page_witness:
  "\<exists>out. query_run (\<lambda>_. []) stable_time_sort (\<lambda>_. 0) default_query (fst opened) (snd opened) = (out, 0)"
proof -
  obtain out n where q: "query_run (\<lambda>_. []) stable_time_sort (\<lambda>_. 0) default_query (fst opened) (snd opened) = (out, n)"
    by (rule prod.exhaust)
  have "storage_is_open (snd opened)"
    by (simp add: opened_eq storage_is_open_def attached_def)
  moreover have "\<not> qo_json_output default_query" by (simp add: default_query_def)
  moreover have e: "stable_time_sort (filter (option_match default_query)
      (storage_iterate (\<lambda>_. 0) (fst opened) (snd opened))) = []"
    by (simp add: opened_eq storage_iterate_def stable_time_sort_def)
  ultimately obtain page where "page = []" "n = int (length page)"
    using query_shows_page [OF time_sort_stable _ _ q] by (auto simp: e)
  with q show ?thesis by simp
qed

text \<open>in JSON mode the number returned is always zero, however many events are printed.\<close>
theorem json_query_returns_zero:
  assumes "qo_json_output opt"
  shows "snd (query_run fmt srt clk opt fs st) = 0"
  using assms unfolding query_run_def Let_def by (cases "storage_is_open st") simp_all

lemma json_query_returns_zero_witness:
  "snd (query_run (\<lambda>_. []) stable_time_sort (\<lambda>_. 0) (default_query\<lparr>qo_json_output := True\<rparr>)
     (fst (insert_batch [sample_event] opened)) (snd (insert_batch [sample_event] opened))) = 0"
  by (rule json_query_returns_zero) simp
end
