(* ===== verification/Reporter.thy ===== *)
theory Reporter
  imports Core_Event Json_Text
begin

text \<open>
  \<open>reporting/reporter.h\<close> and \<open>reporting/reporter.cpp\<close>: the queue of events for the remote
  endpoint, flushed in batches by a timer thread while other threads enqueue.

  \<open>flush_batch\<close> takes a batch under the lock, sends it without the lock and puts it
  back in front of the queue if sending fails; enqueueing may happen in between.  The
  model splits it at the lock: \<open>flush_take\<close> and \<open>flush_finish\<close> are its two halves, the
  batch in flight is part of the state, and \<open>reporter_step\<close> interleaves them with the
  other operations.
\<close>

record Reporter =
  rp_endpoint :: string
  rp_api_key :: string
  rp_batch_size :: int
  rp_interval_ms :: int
  rp_enabled :: bool
  rp_running :: bool
  rp_queue :: "Event list"

definition new_reporter :: Reporter where
  "new_reporter =
     \<lparr> rp_endpoint = [], rp_api_key = [], rp_batch_size = 100, rp_interval_ms = 10000,
       rp_enabled = False, rp_running = False, rp_queue = [] \<rparr>"

definition reporter_configure :: "string \<Rightarrow> string \<Rightarrow> int \<Rightarrow> int \<Rightarrow> Reporter \<Rightarrow> Reporter" where
  "reporter_configure endpoint api_key batch_size interval_ms r =
     r\<lparr>rp_endpoint := endpoint, rp_api_key := api_key, rp_batch_size := batch_size, rp_interval_ms := interval_ms\<rparr>"

definition reporter_set_enabled :: "bool \<Rightarrow> Reporter \<Rightarrow> Reporter" where
  "reporter_set_enabled b r = r\<lparr>rp_enabled := b\<rparr>"

definition enqueue :: "Event \<Rightarrow> Reporter \<Rightarrow> Reporter" where
  "enqueue e r = (if \<not> rp_enabled r then r else r\<lparr>rp_queue := rp_queue r @ [e]\<rparr>)"

definition enqueue_batch :: "Event list \<Rightarrow> Reporter \<Rightarrow> Reporter" where
  "enqueue_batch es r = (if \<not> rp_enabled r then r else r\<lparr>rp_queue := rp_queue r @ es\<rparr>)"

definition queue_size :: "Reporter \<Rightarrow> nat" where
  "queue_size r = length (rp_queue r)"

definition report_json_escape :: "string \<Rightarrow> string" where
  "report_json_escape s = json_escape_with False s"

definition report_field :: "string \<Rightarrow> string \<Rightarrow> string" where
  "report_field key val = [dquote] @ key @ [dquote] @ '':'' @ [dquote] @ report_json_escape val @ [dquote]"

definition report_event :: "Event \<Rightarrow> string" where
  "report_event e =
     ''  {'' @ [nl] @ ''    '' @ [dquote] @ ''ts'' @ [dquote] @ '':'' @ int_str (to_unix_ms (ev_timestamp e)) @ '','' @
     report_field ''category'' (category_name (ev_category e)) @ '','' @
     report_field ''type'' (type_name (ev_type e)) @ '','' @
     report_field ''source'' (ev_source e) @ '','' @
     report_field ''target'' (ev_target e) @ '','' @
     report_field ''host'' (ev_host e) @ '','' @
     report_field ''platform'' (ev_platform e) @ '','' @
     report_field ''summary'' (ev_summary e) @ [nl] @ ''  }''"

fun report_events :: "Event list \<Rightarrow> string" where
  "report_events [] = []"
| "report_events [e] = report_event e @ [nl]"
| "report_events (e # e2 # es) = report_event e @ '','' @ [nl] @ report_events (e2 # es)"

definition report_serialize :: "Event list \<Rightarrow> string" where
  "report_serialize es = ''['' @ [nl] @ report_events es @ '']'' @ [nl]"

text \<open>Sending is a stub: it succeeds when an endpoint is set.\<close>
definition send_http_post :: "string \<Rightarrow> Reporter \<Rightarrow> bool" where
  "send_http_post payload r = (rp_endpoint r \<noteq> [])"

text \<open>\<open>static_cast<size_t>\<close> makes a negative batch size larger than any queue.\<close>
definition batch_of :: "Reporter \<Rightarrow> Event list \<times> Event list" where
  "batch_of r =
     (if rp_batch_size r \<ge> 0 \<and> int (length (rp_queue r)) > rp_batch_size r
      then (take (nat (rp_batch_size r)) (rp_queue r), drop (nat (rp_batch_size r)) (rp_queue r))
      else (rp_queue r, []))"

definition flush_take :: "Reporter \<Rightarrow> Reporter \<times> Event list" where
  "flush_take r =
     (if rp_queue r = [] then (r, [])
      else (let (batch, rest) = batch_of r in (r\<lparr>rp_queue := rest\<rparr>, batch)))"

text \<open>The second half; the payload is returned when it was sent.\<close>
definition flush_finish :: "Event list \<Rightarrow> Reporter \<Rightarrow> Reporter \<times> string option" where
  "flush_finish batch r =
     (if batch = [] then (r, None)
      else (let payload = report_serialize batch in
            if \<not> send_http_post payload r then (r\<lparr>rp_queue := batch @ rp_queue r\<rparr>, None)
            else (r, Some payload)))"

definition flush_batch :: "Reporter \<Rightarrow> Reporter \<times> string option" where
  "flush_batch r = (let (r1, batch) = flush_take r in flush_finish batch r1)"

definition reporter_tick :: "Reporter \<Rightarrow> Reporter \<times> string option" where
  "reporter_tick r = flush_batch r"

definition reporter_start :: "Reporter \<Rightarrow> Reporter" where
  "reporter_start r = (if rp_running r then r else r\<lparr>rp_running := True\<rparr>)"

definition reporter_stop :: "Reporter \<Rightarrow> Reporter \<times> string option" where
  "reporter_stop r = (if \<not> rp_running r then (r, None) else flush_batch (r\<lparr>rp_running := False\<rparr>))"

subsection \<open>Interleaving\<close>

record reporter_state =
  rs_reporter :: Reporter
  rs_in_flight :: "Event list"
  rs_sent :: "Event list"
  rs_accepted :: "Event list"

text \<open>Accepted are the events a call handed over while reporting was enabled.\<close>
inductive reporter_step :: "reporter_state \<Rightarrow> reporter_state \<Rightarrow> bool" where
  step_enqueue: "reporter_step s
     (s\<lparr>rs_reporter := enqueue e (rs_reporter s),
        rs_accepted := rs_accepted s @ (if rp_enabled (rs_reporter s) then [e] else [])\<rparr>)"
| step_enqueue_batch: "reporter_step s
     (s\<lparr>rs_reporter := enqueue_batch es (rs_reporter s),
        rs_accepted := rs_accepted s @ (if rp_enabled (rs_reporter s) then es else [])\<rparr>)"
| step_enabled: "reporter_step s (s\<lparr>rs_reporter := reporter_set_enabled b (rs_reporter s)\<rparr>)"
| step_configure: "reporter_step s (s\<lparr>rs_reporter := reporter_configure ep key n ms (rs_reporter s)\<rparr>)"
| step_take: "rs_in_flight s = [] \<Longrightarrow> flush_take (rs_reporter s) = (r, batch) \<Longrightarrow>
     reporter_step s (s\<lparr>rs_reporter := r, rs_in_flight := batch\<rparr>)"
| step_sent: "rs_in_flight s \<noteq> [] \<Longrightarrow> flush_finish (rs_in_flight s) (rs_reporter s) = (r, Some p) \<Longrightarrow>
     reporter_step s (s\<lparr>rs_reporter := r, rs_in_flight := [], rs_sent := rs_sent s @ rs_in_flight s\<rparr>)"
| step_failed: "rs_in_flight s \<noteq> [] \<Longrightarrow> flush_finish (rs_in_flight s) (rs_reporter s) = (r, None) \<Longrightarrow>
     reporter_step s (s\<lparr>rs_reporter := r, rs_in_flight := []\<rparr>)"

definition nothing_lost :: "reporter_state \<Rightarrow> bool" where
  "nothing_lost s = (rs_sent s @ rs_in_flight s @ rp_queue (rs_reporter s) = rs_accepted s)"

lemma batch_of_append: "fst (batch_of r) @ snd (batch_of r) = rp_queue r"
  by (simp add: batch_of_def)

lemma flush_take_queue: "flush_take r = (r', batch) \<Longrightarrow> batch @ rp_queue r' = rp_queue r"
  using batch_of_append [of r] by (auto simp: flush_take_def split: if_splits prod.splits)

lemma reporter_step_inv: "reporter_step s s' \<Longrightarrow> nothing_lost s \<Longrightarrow> nothing_lost s'"
proof (induction rule: reporter_step.induct)
  case (step_take s r batch)
  then show ?case using flush_take_queue [OF step_take(2)] by (auto simp: nothing_lost_def)
next
  case (step_sent s r p)
  then show ?case by (auto simp: nothing_lost_def flush_finish_def Let_def split: if_splits)
next
  case (step_failed s r)
  then show ?case by (auto simp: nothing_lost_def flush_finish_def Let_def split: if_splits)
qed (auto simp: nothing_lost_def enqueue_def enqueue_batch_def reporter_set_enabled_def reporter_configure_def)

definition initial_reporter_state :: reporter_state where
  "initial_reporter_state = \<lparr> rs_reporter = new_reporter, rs_in_flight = [], rs_sent = [], rs_accepted = [] \<rparr>"

subsection \<open>Properties\<close>

text \<open>C28: no accepted event is lost, duplicated or reordered: in every interleaving of enqueueing, both
  halves of flushing, and reconfiguration, the events sent, then those in flight, then those
  queued are exactly the accepted ones in order.\<close>
theorem reporter_keeps_order:
  assumes "reporter_step\<^sup>*\<^sup>* initial_reporter_state s"
  shows "rs_sent s @ rs_in_flight s @ rp_queue (rs_reporter s) = rs_accepted s"
proof -
  have "nothing_lost s"
    using assms
  proof (induction rule: rtranclp_induct)
    case base
    show ?case by (simp add: nothing_lost_def initial_reporter_state_def new_reporter_def)
  next
    case (step y z)
    then show ?case using reporter_step_inv by blast
  qed
  then show ?thesis by (simp add: nothing_lost_def)
qed

lemma reporter_keeps_order_witness:
  "\<exists>s. reporter_step\<^sup>*\<^sup>* initial_reporter_state s \<and> rs_accepted s = [event_default 5] \<and>
     rs_sent s @ rs_in_flight s @ rp_queue (rs_reporter s) = [event_default 5]"
proof -
  let ?s1 = "initial_reporter_state\<lparr>rs_reporter := reporter_set_enabled True (rs_reporter initial_reporter_state)\<rparr>"
  let ?s2 = "?s1\<lparr>rs_reporter := enqueue (event_default 5) (rs_reporter ?s1),
        rs_accepted := rs_accepted ?s1 @ (if rp_enabled (rs_reporter ?s1) then [event_default 5] else [])\<rparr>"
  have "reporter_step initial_reporter_state ?s1" by (rule step_enabled)
  moreover have "reporter_step ?s1 ?s2" by (rule step_enqueue)
  ultimately have r: "reporter_step\<^sup>*\<^sup>* initial_reporter_state ?s2" by simp
  have "rs_accepted ?s2 = [event_default 5]"
    by (simp add: initial_reporter_state_def reporter_set_enabled_def new_reporter_def)
  with reporter_keeps_order [OF r] r show ?thesis by metis
qed

text \<open>stopping sends one batch only: with an endpoint and a positive batch size, whatever exceeds
  one batch stays in the queue of the stopped reporter.\<close>
theorem stop_flushes_one_batch:
  assumes "rp_running r" "rp_endpoint r \<noteq> []" "0 < rp_batch_size r"
  shows "rp_queue (fst (reporter_stop r)) = drop (nat (rp_batch_size r)) (rp_queue r) \<and>
         \<not> rp_running (fst (reporter_stop r))"
  using assms
  by (auto simp: reporter_stop_def flush_batch_def flush_take_def batch_of_def flush_finish_def
      send_http_post_def Let_def)

lemma stop_flushes_one_batch_witness:
  "rp_queue (fst (reporter_stop (new_reporter\<lparr>rp_running := True, rp_endpoint := ''http://x'', rp_batch_size := 1,
     rp_queue := [event_default 1, event_default 2]\<rparr>))) = [event_default 2]"
  using stop_flushes_one_batch [of "new_reporter\<lparr>rp_running := True, rp_endpoint := ''http://x'', rp_batch_size := 1,
     rp_queue := [event_default 1, event_default 2]\<rparr>"]
  by simp

text \<open>With a batch size of zero nothing is ever sent.\<close>
lemma zero_batch_never_sends:
  "rp_batch_size r = 0 \<Longrightarrow> flush_batch r = (r, None)"
  by (auto simp: flush_batch_def flush_take_def batch_of_def flush_finish_def Let_def)
end
