(* ===== verification/Tail_Watcher.thy ===== *)
theory Tail_Watcher
  imports Core_Event Json_Text
begin

text \<open>
  \<open>tail/tail_watcher.h\<close> and \<open>tail/tail_watcher.cpp\<close>: the live event stream.  \<open>fmt\<close> formats a
  time stamp in local time.  \<open>tail_run\<close> is the output of a session: the banner, the
  history the engine returns and the events it delivers until the user stops.  Texts
  outside ASCII are the bytes of their UTF-8 form.
\<close>

record TailOptions =
  to_category_filter :: string
  to_source_filter :: string
  to_keyword_filter :: string
  to_color :: bool
  to_json :: bool
  to_initial_recent :: int

definition tail_matches :: "Event \<Rightarrow> TailOptions \<Rightarrow> bool" where
  "tail_matches e opts =
     (if to_category_filter opts \<noteq> [] \<and>
         to_lower (category_name (ev_category e)) \<noteq> to_lower (to_category_filter opts) then False
      else if to_source_filter opts \<noteq> [] \<and>
         \<not> contains (to_lower (ev_source e)) (to_lower (to_source_filter opts)) then False
      else if to_keyword_filter opts \<noteq> [] \<and>
         \<not> contains (to_lower (ev_summary e)) (to_lower (to_keyword_filter opts)) \<and>
         \<not> contains (to_lower (ev_target e)) (to_lower (to_keyword_filter opts)) \<and>
         \<not> contains (to_lower (ev_source e)) (to_lower (to_keyword_filter opts)) then False
      else True)"

definition ansi :: "string \<Rightarrow> string" where
  "ansi code = CHR 0x1B # ''['' @ code @ ''m''"

definition color_for_event :: "Event \<Rightarrow> string" where
  "color_for_event e =
     (if ev_type e \<in> {FileDeleted, ProcessStopped, NetworkConnectionClosed, UsbDeviceRemoved,
                      DiskSpaceCritical, SystemLoadHigh, LogAnomalyDetected} then ansi ''31''
      else if ev_type e \<in> {FileCreated, ProcessStarted, NetworkConnectionOpened, UsbDeviceInserted} then ansi ''32''
      else if ev_type e \<in> {FileModified, FilePermissionChanged, ConfigValueChanged, ServiceStateChanged,
                           DiskSpaceWarning, LogPatternMatched} then ansi ''33''
      else if ev_type e \<in> {UserLoggedIn, UserLoggedOut} then ansi ''36''
      else ansi ''37'')"

definition tail_json_escape :: "string \<Rightarrow> string" where
  "tail_json_escape s = json_escape_with True s"

definition tail_field :: "string \<Rightarrow> string \<Rightarrow> string" where
  "tail_field key val = [dquote] @ key @ [dquote] @ '':'' @ [dquote] @ tail_json_escape val @ [dquote]"

definition tail_json_body :: "(timestamp \<Rightarrow> string) \<Rightarrow> Event \<Rightarrow> string" where
  "tail_json_body fmt e =
     ''{'' @ tail_field ''ts'' (fmt (ev_timestamp e)) @ '','' @
     [dquote] @ ''ts_unix_ms'' @ [dquote] @ '':'' @ int_str (to_unix_ms (ev_timestamp e)) @ '','' @
     tail_field ''category'' (category_name (ev_category e)) @ '','' @
     tail_field ''type'' (type_name (ev_type e)) @ '','' @
     tail_field ''source'' (ev_source e) @ '','' @
     tail_field ''target'' (ev_target e) @ '','' @
     tail_field ''summary'' (ev_summary e) @ '','' @
     tail_field ''host'' (ev_host e) @ '','' @
     tail_field ''platform'' (ev_platform e) @ ''}''"

definition print_event :: "(timestamp \<Rightarrow> string) \<Rightarrow> TailOptions \<Rightarrow> Event \<Rightarrow> string" where
  "print_event fmt opts e =
     (let head = ''['' @ fmt (ev_timestamp e) @ ''] '';
          names = category_name (ev_category e) @ '' | '' @ type_name (ev_type e);
          tail = '' | '' @ ev_target e @ '' | '' @ ev_summary e @
                 (if ev_source e \<noteq> [] then ''  <'' @ ev_source e @ ''>'' else []) @ [nl]
      in if to_json opts then tail_json_body fmt e @ [nl]
         else if to_color opts then head @ color_for_event e @ names @ ansi ''0'' @ tail
         else head @ names @ tail)"

definition banner_title :: string where
  "banner_title =
     ''=== change-of-system '' @ [CHR 0xE5, CHR 0xAE, CHR 0x9E, CHR 0xE6, CHR 0x97, CHR 0xB6, CHR
     0xE4, CHR 0xBA, CHR 0x8B, CHR 0xE4, CHR 0xBB, CHR 0xB6, CHR 0xE6, CHR 0xB5, CHR 0x81] @ '' ===''"

definition banner_category :: string where
  "banner_category =
     [CHR 0xE7, CHR 0xB1, CHR 0xBB, CHR 0xE5, CHR 0x88, CHR 0xAB, CHR 0xE8, CHR 0xBF, CHR 0x87, CHR
     0xE6, CHR 0xBB, CHR 0xA4] @ '': ''"

definition banner_source :: string where
  "banner_source =
     [CHR 0xE6, CHR 0x9D, CHR 0xA5, CHR 0xE6, CHR 0xBA, CHR 0x90, CHR 0xE8, CHR 0xBF, CHR 0x87, CHR
     0xE6, CHR 0xBB, CHR 0xA4] @ '': ''"

definition banner_keyword :: string where
  "banner_keyword =
     [CHR 0xE5, CHR 0x85, CHR 0xB3, CHR 0xE9, CHR 0x94, CHR 0xAE, CHR 0xE5, CHR 0xAD, CHR 0x97, CHR
     0xE8, CHR 0xBF, CHR 0x87, CHR 0xE6, CHR 0xBB, CHR 0xA4] @ '': ''"

definition banner_quit :: string where
  "banner_quit =
     [CHR 0xE6, CHR 0x8C, CHR 0x89] @ '' Ctrl+C '' @ [CHR 0xE9, CHR 0x80, CHR 0x80, CHR 0xE5, CHR
     0x87, CHR 0xBA] @ ''...''"

definition banner_bye :: string where
  "banner_bye =
     [CHR 0xE9, CHR 0x80, CHR 0x80, CHR 0xE5, CHR 0x87, CHR 0xBA, CHR 0xE5, CHR 0xAE, CHR 0x9E, CHR
     0xE6, CHR 0x97, CHR 0xB6, CHR 0xE4, CHR 0xBA, CHR 0x8B, CHR 0xE4, CHR 0xBB, CHR 0xB6, CHR 0xE6,
     CHR 0xB5, CHR 0x81] @ ''...''"

definition tail_banner :: "TailOptions \<Rightarrow> string" where
  "tail_banner opts =
     (if to_json opts then []
      else banner_title @ [nl] @
        (if to_category_filter opts \<noteq> [] then banner_category @ to_category_filter opts @ [nl] else []) @
        (if to_source_filter opts \<noteq> [] then banner_source @ to_source_filter opts @ [nl] else []) @
        (if to_keyword_filter opts \<noteq> [] then banner_keyword @ to_keyword_filter opts @ [nl] else []) @
        banner_quit @ [nl])"

text \<open>\<open>recent n\<close> is what the engine's \<open>recent_events\<close> returns, \<open>live\<close> the events delivered.\<close>
definition tail_run ::
    "(timestamp \<Rightarrow> string) \<Rightarrow> TailOptions \<Rightarrow> (int \<Rightarrow> Event list) \<Rightarrow> Event list \<Rightarrow> string \<times> int" where
  "tail_run fmt opts recent live =
     (let history = (if to_initial_recent opts > 0 then recent (to_initial_recent opts) else []);
          shown = filter (\<lambda>e. tail_matches e opts) history @ filter (\<lambda>e. tail_matches e opts) live
      in (tail_banner opts @ concat (map (print_event fmt opts) shown) @
          (if to_json opts then [] else [nl] @ banner_bye @ [nl]), 0))"

subsection \<open>One line per event\<close>

lemma json_escape_char_no_nl: "nl \<notin> set (json_escape_char short c)"
proof -
  have "hex_digit n \<noteq> nl" if "n < 16" for n
    using hex_digit_val [OF that] by (auto simp: hex_val_def)
  moreover have div16: "(of_char c :: nat) div 16 < 16"
    by (rule less_mult_imp_div_less) (use of_char_lt [of c] in simp)
  ultimately have "hex_digit (of_char c div 16) \<noteq> nl" "hex_digit (of_char c mod 16) \<noteq> nl"
    using div16 by simp_all
  then show ?thesis by (auto simp: json_escape_char_def hex4_def Let_def)
qed

lemma json_escape_no_nl: "nl \<notin> set (json_escape_with short s)"
  by (induction s) (auto simp: json_escape_char_no_nl)

lemma tail_field_no_nl: "nl \<notin> set key \<Longrightarrow> nl \<notin> set (tail_field key val)"
  by (simp add: tail_field_def tail_json_escape_def json_escape_no_nl)

lemma tail_json_body_no_nl: "nl \<notin> set (tail_json_body fmt e)"
proof -
  have "nl \<notin> set (int_str i)" for i using int_str_chars isdigit_not by fastforce
  then show ?thesis by (simp add: tail_json_body_def tail_field_no_nl)
qed

subsection \<open>Properties\<close>

text \<open>in JSON mode the output is one line per event that passes the filters, the history first and
  then the live events in order of delivery, whatever bytes the events hold: no text can break
  or merge lines.\<close>
theorem tail_json_lines:
  assumes "to_json opts"
  shows "getlines (fst (tail_run fmt opts recent live)) =
     map (tail_json_body fmt) (filter (\<lambda>e. tail_matches e opts)
       ((if to_initial_recent opts > 0 then recent (to_initial_recent opts) else []) @ live))"
proof -
  define shown where "shown = filter (\<lambda>e. tail_matches e opts)
       ((if to_initial_recent opts > 0 then recent (to_initial_recent opts) else []) @ live)"
  have "print_event fmt opts = (\<lambda>e. tail_json_body fmt e @ [nl])"
    using assms by (intro ext) (simp add: print_event_def Let_def)
  then have "fst (tail_run fmt opts recent live) = unlines (map (tail_json_body fmt) shown)"
    using assms by (simp add: tail_run_def tail_banner_def shown_def unlines_def comp_def)
  moreover have "getlines (unlines (map (tail_json_body fmt) shown)) = map (tail_json_body fmt) shown"
    by (rule getlines_unlines) (auto simp: tail_json_body_no_nl)
  ultimately show ?thesis by (simp only: shown_def)
qed

definition json_tail :: TailOptions where
  "json_tail = \<lparr> to_category_filter = ''Network'', to_source_filter = [], to_keyword_filter = [],
     to_color = False, to_json = True, to_initial_recent = 0 \<rparr>"

lemma tail_json_lines_witness:
  "getlines (fst (tail_run (\<lambda>_. []) json_tail (\<lambda>_. [])
     [(event_default 0)\<lparr>ev_category := Network, ev_summary := [nl, nl]\<rparr>, event_default 1])) =
   map (tail_json_body (\<lambda>_. [])) (filter (\<lambda>e. tail_matches e json_tail)
     [(event_default 0)\<lparr>ev_category := Network, ev_summary := [nl, nl]\<rparr>, event_default 1])"
  using tail_json_lines [of json_tail "\<lambda>_. []" "\<lambda>_. []"
     "[(event_default 0)\<lparr>ev_category := Network, ev_summary := [nl, nl]\<rparr>, event_default 1]"]
  by (simp add: json_tail_def)

end
