(* ===== verification/Config_Store.thy ===== *)
theory Config_Store
  imports Cpp_Map Cpp_String File_System
begin

text \<open>
  \<open>config/config_store.h\<close> and \<open>config/config_store.cpp\<close>: the key-value settings and their
  file.  The singleton is a record passed through the operations.  \<open>std::stod\<close> is a
  parameter of \<open>get_double\<close> (\<open>None\<close> is an exception).
\<close>

record ConfigStore =
  cs_values :: "(string, string) omap"
  cs_file_path :: string

definition trim :: "string \<Rightarrow> string" where
  "trim s = rev (dropWhile isspace (rev (dropWhile isspace s)))"

definition cfg_escape :: "string \<Rightarrow> string" where
  "cfg_escape value = concat (map (\<lambda>c.
     if c = nl then [backslash, CHR ''n'']
     else if c = cr then [backslash, CHR ''r'']
     else if c = tab then [backslash, CHR ''t'']
     else if c = backslash then [backslash, backslash]
     else [c]) value)"

fun cfg_unescape :: "string \<Rightarrow> string" where
  "cfg_unescape [] = []"
| "cfg_unescape [c] = [c]"
| "cfg_unescape (c # n # s) =
     (if c = backslash then
        (if n = CHR ''n'' then nl else if n = CHR ''r'' then cr else if n = CHR ''t'' then tab else n) #
        cfg_unescape s
      else c # cfg_unescape (n # s))"

text \<open>The loop of \<open>split_list\<close>, with the token read so far.\<close>
fun split_from :: "string \<Rightarrow> string \<Rightarrow> string list" where
  "split_from token [] = (if token \<noteq> [] then [trim token] else [])"
| "split_from token (c # s) =
     (if c = CHR '','' then trim token # split_from [] s else split_from (token @ [c]) s)"

definition split_list_str :: "string \<Rightarrow> string list" where
  "split_list_str value = split_from [] value"

definition new_config_store :: ConfigStore where
  "new_config_store =
     \<lparr> cs_values = omap_of
         [(''filesystem.enabled'', ''true''), (''filesystem.poll_interval_ms'', ''2000''),
          (''filesystem.use_native'', ''true''), (''filesystem.watch_paths'', ''/etc,/tmp''),
          (''process.enabled'', ''true''), (''process.poll_interval_ms'', ''3000''),
          (''process.track_cpu'', ''true''), (''process.track_memory'', ''true''),
          (''network.enabled'', ''true''), (''network.poll_interval_ms'', ''5000''),
          (''system_config.enabled'', ''true''), (''system_config.poll_interval_ms'', ''10000''),
          (''storage.database_path'', ''change-of-system.db''), (''storage.max_events'', ''100000''),
          (''reporting.enabled'', ''false''), (''reporting.endpoint'', ''https://example.com/api/events''),
          (''reporting.api_key'', ''''), (''reporting.batch_size'', ''100''),
          (''reporting.interval_ms'', ''10000'')],
       cs_file_path = [] \<rparr>"

subsection \<open>Load and save\<close>

definition load_line :: "string \<Rightarrow> (string, string) omap \<Rightarrow> (string, string) omap" where
  "load_line line values =
     (let trimmed = trim line in
      if trimmed = [] \<or> hd trimmed = CHR ''#'' \<or> hd trimmed = CHR '';'' then values
      else (case find_str ''='' trimmed of
              None \<Rightarrow> values
            | Some eq \<Rightarrow>
                (let key = trim (take eq trimmed);
                     value = cfg_unescape (trim (drop (eq + 1) trimmed))
                 in if key \<noteq> [] then omap_update key value values else values)))"

definition config_load :: "string \<Rightarrow> file_system \<Rightarrow> ConfigStore \<Rightarrow> ConfigStore" where
  "config_load path fs s =
     (let s1 = s\<lparr>cs_file_path := path\<rparr> in
      case fs_files fs path of
        None \<Rightarrow> s1
      | Some c \<Rightarrow> s1\<lparr>cs_values := fold load_line (getlines c) (cs_values s1)\<rparr>)"

definition config_header :: string where
  "config_header =
     ''# change-of-system configuration'' @ [nl] @ ''# Auto-generated by ConfigStore'' @ [nl] @ [nl]"

definition config_line :: "string \<times> string \<Rightarrow> string" where
  "config_line kv = fst kv @ '' = '' @ cfg_escape (snd kv)"

definition config_save :: "string \<Rightarrow> ConfigStore \<Rightarrow> file_system \<Rightarrow> file_system" where
  "config_save path s fs =
     (let out_path = (if path = [] then cs_file_path s else path);
          (fs1, f) = open_trunc out_path fs
      in if \<not> stream_is_open f then fs1
         else stream_write (config_header @ unlines (map config_line (cs_values s))) fs1 f)"

subsection \<open>Typed access\<close>

definition config_get :: "string \<Rightarrow> string \<Rightarrow> ConfigStore \<Rightarrow> string" where
  "config_get key default_value s = omap_get default_value (cs_values s) key"

definition config_get_int :: "string \<Rightarrow> int \<Rightarrow> ConfigStore \<Rightarrow> int" where
  "config_get_int key default_value s =
     (let v = config_get key [] s in
      if v = [] then default_value
      else (case stoi v of None \<Rightarrow> default_value | Some i \<Rightarrow> i))"

definition config_get_double :: "(string \<Rightarrow> 'd option) \<Rightarrow> string \<Rightarrow> 'd \<Rightarrow> ConfigStore \<Rightarrow> 'd" where
  "config_get_double stod key default_value s =
     (let v = config_get key [] s in
      if v = [] then default_value
      else (case stod v of None \<Rightarrow> default_value | Some x \<Rightarrow> x))"

definition config_get_bool :: "string \<Rightarrow> bool \<Rightarrow> ConfigStore \<Rightarrow> bool" where
  "config_get_bool key default_value s =
     (let v = config_get key [] s in
      if v = [] then default_value
      else (let l = to_lower v in
            if l = ''true'' \<or> l = ''1'' \<or> l = ''yes'' \<or> l = ''on'' then True
            else if l = ''false'' \<or> l = ''0'' \<or> l = ''no'' \<or> l = ''off'' then False
            else default_value))"

definition config_get_list :: "string \<Rightarrow> string list \<Rightarrow> ConfigStore \<Rightarrow> string list" where
  "config_get_list key default_value s =
     (let v = config_get key [] s in if v = [] then default_value else split_list_str v)"

definition config_set :: "string \<Rightarrow> string \<Rightarrow> ConfigStore \<Rightarrow> ConfigStore" where
  "config_set key value s = s\<lparr>cs_values := omap_update key value (cs_values s)\<rparr>"

definition config_set_int :: "string \<Rightarrow> int \<Rightarrow> ConfigStore \<Rightarrow> ConfigStore" where
  "config_set_int key value s = config_set key (int_str value) s"

definition config_set_bool :: "string \<Rightarrow> bool \<Rightarrow> ConfigStore \<Rightarrow> ConfigStore" where
  "config_set_bool key value s = config_set key (if value then ''true'' else ''false'') s"

definition config_set_list :: "string \<Rightarrow> string list \<Rightarrow> ConfigStore \<Rightarrow> ConfigStore" where
  "config_set_list key value s = config_set key (join_with '', '' value) s"

definition config_has :: "string \<Rightarrow> ConfigStore \<Rightarrow> bool" where
  "config_has key s = (map_of (cs_values s) key \<noteq> None)"

subsection \<open>Trimming and escaping\<close>

lemma trim_space_left [simp]: "isspace c \<Longrightarrow> trim (c # s) = trim s"
  by (simp add: trim_def)

lemma trim_space_right [simp]: "isspace c \<Longrightarrow> trim (s @ [c]) = trim s"
  by (cases "\<forall>x\<in>set s. isspace x") (auto simp: trim_def dropWhile_append dest: set_dropWhileD)

lemma trim_id: "s = [] \<or> \<not> isspace (hd s) \<and> \<not> isspace (last s) \<Longrightarrow> trim s = s"
proof (cases s rule: rev_cases)
  case (snoc t x)
  assume "s = [] \<or> \<not> isspace (hd s) \<and> \<not> isspace (last s)"
  with snoc have ends: "\<not> isspace (hd s)" "\<not> isspace x" by auto
  from ends(1) have "dropWhile isspace s = s" by (metis dropWhile.simps(1) dropWhile_eq_self_iff)
  then show ?thesis using snoc ends(2) by (simp add: trim_def)
qed (simp add: trim_def)

lemma cfg_escape_simps [simp]:
  "cfg_escape [] = []" "cfg_escape (s @ t) = cfg_escape s @ cfg_escape t"
  by (simp_all add: cfg_escape_def)

lemma cfg_escape_Nil_iff [simp]: "cfg_escape v = [] \<longleftrightarrow> v = []"
  by (cases v) (auto simp: cfg_escape_def)

lemma cfg_escape_no_nl [simp]: "nl \<notin> set (cfg_escape v)"
  by (induction v) (auto simp: cfg_escape_def)

lemma cfg_unescape_plain: "c \<noteq> backslash \<Longrightarrow> cfg_unescape (c # s) = c # cfg_unescape s"
  by (cases s) auto

lemma cfg_unescape_escape [simp]: "cfg_unescape (cfg_escape v) = v"
  by (induction v) (auto simp: cfg_escape_def cfg_unescape_plain)

text \<open>White space that escaping leaves as it is.\<close>
definition plain_space :: "char \<Rightarrow> bool" where
  "plain_space c = (c = CHR 0x20 \<or> c = CHR 0x0B \<or> c = CHR 0x0C)"

lemma isspace_cases: "isspace c \<longleftrightarrow> plain_space c \<or> c = nl \<or> c = cr \<or> c = tab"
proof
  assume "isspace c"
  then have "c = CHR 0x20 \<or> (9 \<le> (of_char c :: nat) \<and> (of_char c :: nat) \<le> 13)"
    unfolding isspace_def less_eq_char_def by auto
  moreover have "n = 9 \<or> n = 10 \<or> n = 11 \<or> n = 12 \<or> n = 13" if "9 \<le> n" "n \<le> 13" for n :: nat
    using that by presburger
  ultimately have "c = CHR 0x20 \<or> c \<in> char_of ` {9 :: nat, 10, 11, 12, 13}"
    by (metis char_of_char insertCI rev_image_eqI)
  moreover have "char_of (9 :: nat) = tab" "char_of (10 :: nat) = nl" "char_of (11 :: nat) = CHR 0x0B"
      "char_of (12 :: nat) = CHR 0x0C" "char_of (13 :: nat) = cr"
    by code_simp+
  ultimately show "plain_space c \<or> c = nl \<or> c = cr \<or> c = tab"
    by (auto simp: plain_space_def)
qed (auto simp: isspace_def plain_space_def less_eq_char_def)

definition value_ok :: "string \<Rightarrow> bool" where
  "value_ok v = (v = [] \<or> \<not> plain_space (hd v) \<and> \<not> plain_space (last v))"

lemma escape_ends:
  assumes "value_ok v" "v \<noteq> []"
  shows "\<not> isspace (hd (cfg_escape v))" "\<not> isspace (last (cfg_escape v))"
proof -
  obtain c s where v: "v = c # s" using assms by (cases v) auto
  then show "\<not> isspace (hd (cfg_escape v))"
    using assms by (auto simp: cfg_escape_def value_ok_def isspace_cases plain_space_def)
  obtain t d where w: "v = t @ [d]" using assms by (cases v rule: rev_cases) auto
  then show "\<not> isspace (last (cfg_escape v))"
    using assms by (auto simp: cfg_escape_def value_ok_def isspace_cases plain_space_def)
qed

lemma find_str_char: "c \<notin> set a \<Longrightarrow> find_str [c] (a @ c # b) = Some (length a)"
  by (induction a) (auto simp: starts_with_def)

subsection \<open>The file\<close>

definition key_ok :: "string \<Rightarrow> bool" where
  "key_ok k = (k \<noteq> [] \<and> \<not> isspace (hd k) \<and> \<not> isspace (last k) \<and> CHR ''='' \<notin> set k \<and> nl \<notin> set k \<and>
               hd k \<noteq> CHR ''#'' \<and> hd k \<noteq> CHR '';'')"

definition storable_config :: "ConfigStore \<Rightarrow> bool" where
  "storable_config s = (\<forall>(k, v) \<in> set (cs_values s). key_ok k \<and> value_ok v)"

lemma trim_config_line:
  assumes "key_ok k" "value_ok v"
  shows "\<exists>t. trim (config_line (k, v)) = k @ '' ='' @ t \<and> trim t = cfg_escape v"
proof (cases "v = []")
  case True
  have "trim ((k @ '' ='') @ [CHR 0x20]) = k @ '' =''"
    using assms(1) by (subst trim_space_right) (auto simp: isspace_cases plain_space_def key_ok_def intro!: trim_id)
  then show ?thesis using True by (intro exI [of _ "[]"]) (simp add: config_line_def trim_def)
next
  case False
  have "trim (k @ '' = '' @ cfg_escape v) = k @ '' = '' @ cfg_escape v"
    using assms False escape_ends [OF assms(2) False] by (intro trim_id) (auto simp: key_ok_def)
  moreover have "trim (CHR 0x20 # cfg_escape v) = cfg_escape v"
    using escape_ends [OF assms(2) False] by (subst trim_space_left) (auto simp: isspace_cases plain_space_def intro: trim_id)
  ultimately show ?thesis
    by (intro exI [of _ "CHR 0x20 # cfg_escape v"]) (simp add: config_line_def)
qed

lemma load_config_line:
  assumes "key_ok k" "value_ok v"
  shows "load_line (config_line (k, v)) m = omap_update k v m"
proof -
  obtain t where t: "trim (config_line (k, v)) = k @ '' ='' @ t" "trim t = cfg_escape v"
    using trim_config_line [OF assms] by blast
  define u where "u = k @ '' ='' @ t"
  have "CHR ''='' \<notin> set (k @ '' '')" using assms(1) by (simp add: key_ok_def)
  from find_str_char [OF this, of t] have f: "find_str ''='' u = Some (Suc (length k))"
    by (simp add: u_def)
  have "trim (k @ [CHR 0x20]) = k"
    using assms(1) by (subst trim_space_right) (auto simp: isspace_cases plain_space_def key_ok_def intro!: trim_id)
  then have k: "trim (take (Suc (length k)) u) = k" by (simp add: u_def)
  have d: "trim (drop (Suc (length k) + 1) u) = cfg_escape v" by (simp add: u_def t(2))
  have h: "u \<noteq> []" "hd u \<noteq> CHR ''#''" "hd u \<noteq> CHR '';''" "k \<noteq> []"
    using assms(1) by (auto simp: u_def key_ok_def hd_append)
  show ?thesis
    unfolding load_line_def t(1) u_def [symmetric] Let_def f option.case k d
    using h by simp
qed

lemma load_config_lines:
  assumes "\<forall>(k, v) \<in> set ps. key_ok k \<and> value_ok v"
  shows "fold load_line (map config_line ps) m = fold (\<lambda>(k, v). omap_update k v) ps m"
  using assms by (induction ps arbitrary: m) (auto simp: load_config_line)

lemma load_config_header: "fold load_line (getlines config_header) m = m"
proof -
  have "getlines config_header =
      [''# change-of-system configuration'', ''# Auto-generated by ConfigStore'', []]"
    by code_simp
  moreover have "trim ''# change-of-system configuration'' = ''# change-of-system configuration''"
    "trim ''# Auto-generated by ConfigStore'' = ''# Auto-generated by ConfigStore''"
    by (intro trim_id; simp add: isspace_cases plain_space_def)+
  ultimately show ?thesis by (simp add: load_line_def trim_def [of "[]"])
qed

lemma split_from_append: "CHR '','' \<notin> set x \<Longrightarrow> split_from tok (x @ s) = split_from (tok @ x) s"
  by (induction x arbitrary: tok) auto

lemma split_from_join:
  assumes "\<forall>x \<in> set xs. CHR '','' \<notin> set x \<and> trim x = x" "xs \<noteq> []"
    and "tok = '' '' \<or> tok = [] \<and> xs \<noteq> [[]]"
  shows "split_from tok (join_with '', '' xs) = xs"
  using assms
proof (induction "'', ''" xs arbitrary: tok rule: join_with.induct)
  case (2 x)
  then have "trim (tok @ x) = x" "tok @ x \<noteq> []" by (auto simp: isspace_cases plain_space_def)
  with 2 show ?case using split_from_append [of x tok "[]"] by simp
next
  case (3 x y ys)
  then have "trim (tok @ x) = x" by (auto simp: isspace_cases plain_space_def)
  moreover have "split_from '' '' (join_with '', '' (y # ys)) = y # ys" using 3 by simp
  ultimately show ?case using 3 by (simp add: split_from_append)
qed simp

lemma join_with_nonempty: "xs \<noteq> [] \<Longrightarrow> xs \<noteq> [[]] \<Longrightarrow> join_with '', '' xs \<noteq> []"
  by (induction "'', ''" xs rule: join_with.induct) auto

lemma config_get_set [simp]:
  "config_get k d (config_set k' v s) = (if k = k' then v else config_get k d s)"
  by (auto simp: config_get_def config_set_def)

lemma cs_values_load:
  "cs_values (config_load p fs s) =
     (case fs_files fs p of None \<Rightarrow> cs_values s | Some c \<Rightarrow> fold load_line (getlines c) (cs_values s))"
  by (simp add: config_load_def Let_def split: option.split)

lemma config_save_file:
  assumes "fs_can_write fs p" "p \<noteq> []"
  shows "fs_files (config_save p s fs) p = Some (config_header @ unlines (map config_line (cs_values s)))"
  using assms by (simp add: config_save_def open_trunc_def)

lemma getlines_config_file:
  assumes "storable_config s"
  shows "getlines (config_header @ unlines (map config_line (cs_values s))) =
     getlines config_header @ map config_line (cs_values s)"
proof -
  define hs where "hs = [''# change-of-system configuration'', ''# Auto-generated by ConfigStore'', []]"
  have hs: "config_header = unlines hs" by (simp add: config_header_def hs_def)
  have "\<forall>l \<in> set hs. nl \<notin> set l" by (simp add: hs_def)
  moreover have "\<forall>l \<in> set (map config_line (cs_values s)). nl \<notin> set l"
    using assms by (auto simp: config_line_def storable_config_def key_ok_def)
  ultimately show ?thesis unfolding hs by (simp add: getlines_append_unlines)
qed

subsection \<open>Properties\<close>

text \<open>C29: saving the settings and loading the file again, into any store, gives every setting its value
  back and leaves the other settings of that store alone.  Values may hold line breaks, tabs and
  backslashes; keys must be free of the characters the file format uses.\<close>
theorem config_round_trip:
  assumes "omap_sorted (cs_values s)" "storable_config s" "fs_can_write fs p" "p \<noteq> []"
  shows "map_of (cs_values (config_load p (config_save p s fs) s0)) =
         map_of (cs_values s0) ++ map_of (cs_values s)"
proof -
  have "cs_values (config_load p (config_save p s fs) s0) =
      fold (\<lambda>(k, v). omap_update k v) (cs_values s) (cs_values s0)"
    using assms(2) load_config_lines [of "cs_values s"]
    by (simp add: cs_values_load config_save_file [OF assms(3,4)] getlines_config_file [OF assms(2)]
        load_config_header storable_config_def)
  then show ?thesis
    using assms(1) by (simp add: omap.lookup_fold map_of_rev_distinct omap_sorted_distinct)
qed

definition sample_config :: ConfigStore where
  "sample_config = config_set ''log.path'' (''C:'' @ [backslash, CHR ''n'', nl])
     (config_set ''empty'' [] \<lparr> cs_values = [], cs_file_path = [] \<rparr>)"

definition writable_fs :: file_system where
  "writable_fs = \<lparr> fs_files = Map.empty, fs_can_write = (\<lambda>_. True), fs_can_rename = (\<lambda>_ _. True),
                   fs_can_remove = (\<lambda>_. True) \<rparr>"

lemma config_round_trip_witness:
  "map_of (cs_values (config_load ''c.ini'' (config_save ''c.ini'' sample_config writable_fs) new_config_store)) =
   map_of (cs_values new_config_store) ++ map_of (cs_values sample_config)"
proof (rule config_round_trip)
  show "omap_sorted (cs_values sample_config)" by (simp add: sample_config_def config_set_def del: omap_update.simps)
  show "storable_config sample_config"
    by (simp add: sample_config_def config_set_def storable_config_def key_ok_def value_ok_def
        isspace_cases plain_space_def)
qed (simp_all add: writable_fs_def)

text \<open>a setting is read back with the type it was written with: integers in the range of
  \<open>int\<close>, Booleans, and lists whose items are trimmed and free of commas.\<close>
theorem typed_settings_round_trip:
  assumes "in_int32 i"
    and "\<forall>x \<in> set xs. CHR '','' \<notin> set x \<and> trim x = x" "xs \<noteq> []" "xs \<noteq> [[]]"
  shows "config_get_int k di (config_set_int k i s) = i \<and>
         config_get_bool k db (config_set_bool k b s) = b \<and>
         config_get_list k dl (config_set_list k xs s) = xs"
proof -
  have "to_lower ''true'' = ''true''" "to_lower ''false'' = ''false''" by code_simp+
  then show ?thesis
    using assms join_with_nonempty [OF assms(3,4)] split_from_join [OF assms(2,3)]
    by (simp add: config_get_int_def config_set_int_def stoi_int_str config_get_bool_def config_set_bool_def
        config_get_list_def config_set_list_def split_list_str_def)
qed

lemma typed_settings_round_trip_witness:
  "config_get_int ''k'' 0 (config_set_int ''k'' (- 7) new_config_store) = - 7 \<and>
   config_get_bool ''k'' True (config_set_bool ''k'' False new_config_store) = False \<and>
   config_get_list ''k'' [] (config_set_list ''k'' [''/etc'', [], ''/tmp''] new_config_store) = [''/etc'', [], ''/tmp'']"
  by (rule typed_settings_round_trip)
     (simp_all add: in_int32_def trim_def isspace_cases plain_space_def)

end
