(* ===== verification/Cpp_Double.thy ===== *)
theory Cpp_Double
  imports Complex_Main
begin

text \<open>
  Values of type \<open>double\<close>.  Every finite value is a rational, so comparing two doubles is
  exact; a comparison with \<open>NaN\<close> is false.  Operations that round are parameters of the
  definitions that use them.
\<close>

datatype double = Fin rat | PosInf | NegInf | NaN

definition dlt :: "double \<Rightarrow> double \<Rightarrow> bool" where
  "dlt a b =
     (case a of
        NaN \<Rightarrow> False
      | PosInf \<Rightarrow> False
      | NegInf \<Rightarrow> b \<noteq> NaN \<and> b \<noteq> NegInf
      | Fin x \<Rightarrow> (case b of Fin y \<Rightarrow> x < y | PosInf \<Rightarrow> True | _ \<Rightarrow> False))"

definition dle :: "double \<Rightarrow> double \<Rightarrow> bool" where
  "dle a b = (dlt a b \<or> (a = b \<and> a \<noteq> NaN))"

lemma dlt_simps [simp]:
  "dlt (Fin x) (Fin y) \<longleftrightarrow> x < y" "\<not> dlt NaN b" "\<not> dlt a NaN" "\<not> dlt a a" "\<not> dlt PosInf b"
  by (auto simp: dlt_def split: double.splits)

lemma dle_simps [simp]:
  "dle (Fin x) (Fin y) \<longleftrightarrow> x \<le> y" "\<not> dle NaN b" "\<not> dle a NaN"
  by (auto simp: dle_def)

lemma not_dlt_iff: "a \<noteq> NaN \<Longrightarrow> b \<noteq> NaN \<Longrightarrow> \<not> dlt a b \<longleftrightarrow> dle b a"
  by (auto simp: dle_def dlt_def split: double.splits)

lemma dle_trans: "dle a b \<Longrightarrow> dle b c \<Longrightarrow> dle a c"
  by (auto simp: dle_def dlt_def split: double.splits)

text \<open>The operations that round: percentage of two integers, distance of two values,
  \<open>std::to_string\<close> and the conversion to \<open>int\<close>.\<close>
record double_ops =
  do_percent :: "int \<Rightarrow> int \<Rightarrow> double"
  do_abs_diff :: "double \<Rightarrow> double \<Rightarrow> double"
  do_to_string :: "double \<Rightarrow> string"
  do_to_int :: "double \<Rightarrow> int"

end
