(* ===== verification/Config_Validator.thy ===== *)
theory Config_Validator
  imports Config_Store Cpp_Double
begin

text \<open>
  \<open>validate/config_validator.h\<close> and \<open>validate/config_validator.cpp\<close>: the check of a settings
  file, issue by issue.  \<open>std::stod\<close> and \<open>std::to_string\<close> of a double are parameters.  The
  Chinese texts are the bytes of their UTF-8 form.  The vector of line numbers, which the
  source fills and never reads, is left out.
\<close>

subsection \<open>Issues and results\<close>

datatype Severity = Error | Warning | Info

record ValidationIssue =
  vi_severity :: Severity
  vi_key :: string
  vi_message :: string

record ValidationResult =
  vr_issues :: "ValidationIssue list"
  vr_error_count :: int
  vr_warning_count :: int
  vr_info_count :: int
  vr_parsed_keys :: int
  vr_file_exists :: bool

definition new_result :: ValidationResult where
  "new_result = \<lparr> vr_issues = [], vr_error_count = 0, vr_warning_count = 0, vr_info_count = 0,
                  vr_parsed_keys = 0, vr_file_exists = False \<rparr>"

definition vr_ok :: "ValidationResult \<Rightarrow> bool" where
  "vr_ok r = (vr_error_count r = 0)"

definition push_issue :: "Severity \<Rightarrow> string \<Rightarrow> string \<Rightarrow> ValidationResult \<Rightarrow> ValidationResult" where
  "push_issue sev key message r =
     r\<lparr>vr_issues := vr_issues r @ [\<lparr> vi_severity = sev, vi_key = key, vi_message = message \<rparr>]\<rparr>"

definition add_error :: "string \<Rightarrow> string \<Rightarrow> ValidationResult \<Rightarrow> ValidationResult" where
  "add_error key message r =
     (push_issue Error key message r)\<lparr>vr_error_count := vr_error_count r + 1\<rparr>"

definition add_warning :: "string \<Rightarrow> string \<Rightarrow> ValidationResult \<Rightarrow> ValidationResult" where
  "add_warning key message r =
     (push_issue Warning key message r)\<lparr>vr_warning_count := vr_warning_count r + 1\<rparr>"

definition add_info :: "string \<Rightarrow> string \<Rightarrow> ValidationResult \<Rightarrow> ValidationResult" where
  "add_info key message r =
     (push_issue Info key message r)\<lparr>vr_info_count := vr_info_count r + 1\<rparr>"

subsection \<open>Known keys\<close>

record KeySpec =
  ks_type :: string
  ks_default_value :: string
  ks_required :: bool

definition key_spec :: "string \<Rightarrow> string \<Rightarrow> KeySpec" where
  "key_spec t d = \<lparr> ks_type = t, ks_default_value = d, ks_required = False \<rparr>"

text \<open>The map is only searched, so the order of its entries does not matter.\<close>
definition known_keys :: "(string \<times> KeySpec) list" where
  "known_keys =
     [(''filesystem.enabled'', key_spec ''bool'' ''true''),
      (''filesystem.poll_interval_ms'', key_spec ''int'' ''2000''),
      (''filesystem.use_native'', key_spec ''bool'' ''true''),
      (''filesystem.watch_paths'', key_spec ''list'' ''/etc,/tmp''),
      (''process.enabled'', key_spec ''bool'' ''true''),
      (''process.poll_interval_ms'', key_spec ''int'' ''3000''),
      (''process.track_cpu'', key_spec ''bool'' ''true''),
      (''process.track_memory'', key_spec ''bool'' ''true''),
      (''network.enabled'', key_spec ''bool'' ''true''),
      (''network.poll_interval_ms'', key_spec ''int'' ''5000''),
      (''system_config.enabled'', key_spec ''bool'' ''true''),
      (''system_config.poll_interval_ms'', key_spec ''int'' ''10000''),
      (''user_activity.enabled'', key_spec ''bool'' ''true''),
      (''user_activity.poll_interval_ms'', key_spec ''int'' ''5000''),
      (''service.enabled'', key_spec ''bool'' ''true''),
      (''service.poll_interval_ms'', key_spec ''int'' ''10000''),
      (''file_integrity.enabled'', key_spec ''bool'' ''true''),
      (''file_integrity.poll_interval_ms'', key_spec ''int'' ''30000''),
      (''file_integrity.watch_files'', key_spec ''list'' ''''),
      (''usb_device.enabled'', key_spec ''bool'' ''true''),
      (''usb_device.poll_interval_ms'', key_spec ''int'' ''5000''),
      (''disk_space.enabled'', key_spec ''bool'' ''true''),
      (''disk_space.poll_interval_ms'', key_spec ''int'' ''30000''),
      (''disk_space.warning_threshold'', key_spec ''double'' ''80.0''),
      (''disk_space.critical_threshold'', key_spec ''double'' ''95.0''),
      (''disk_space.watch_paths'', key_spec ''list'' ''''),
      (''system_load.enabled'', key_spec ''bool'' ''true''),
      (''system_load.poll_interval_ms'', key_spec ''int'' ''5000''),
      (''system_load.load_threshold'', key_spec ''double'' ''5.0''),
      (''system_load.cpu_threshold'', key_spec ''double'' ''90.0''),
      (''log.enabled'', key_spec ''bool'' ''true''),
      (''log.poll_interval_ms'', key_spec ''int'' ''5000''),
      (''log.watch_paths'', key_spec ''list'' ''''),
      (''port.enabled'', key_spec ''bool'' ''true''),
      (''port.poll_interval_ms'', key_spec ''int'' ''5000''),
      (''port.watch_ports'', key_spec ''list'' ''''),
      (''package.enabled'', key_spec ''bool'' ''true''),
      (''package.poll_interval_ms'', key_spec ''int'' ''60000''),
      (''environment.enabled'', key_spec ''bool'' ''true''),
      (''environment.poll_interval_ms'', key_spec ''int'' ''10000''),
      (''environment.watch_variables'', key_spec ''list'' ''''),
      (''storage.database_path'', key_spec ''string'' ''change-of-system.db''),
      (''storage.max_events'', key_spec ''int'' ''100000''),
      (''storage.max_size_mb'', key_spec ''int'' ''0''),
      (''storage.rotate_count'', key_spec ''int'' ''5''),
      (''reporting.enabled'', key_spec ''bool'' ''false''),
      (''reporting.endpoint'', key_spec ''string'' ''''),
      (''reporting.api_key'', key_spec ''string'' ''''),
      (''reporting.batch_size'', key_spec ''int'' ''100''),
      (''reporting.interval_ms'', key_spec ''int'' ''10000''),
      (''alert.enabled'', key_spec ''bool'' ''true''),
      (''filter.enabled'', key_spec ''bool'' ''false''),
      (''security.enabled'', key_spec ''bool'' ''true''),
      (''webhook.enabled'', key_spec ''bool'' ''false''),
      (''webhook.url'', key_spec ''string'' ''''), (''webhook.secret'', key_spec ''string'' ''''),
      (''webhook.timeout_ms'', key_spec ''int'' ''5000''),
      (''webhook.retry_count'', key_spec ''int'' ''3''),
      (''config.watch_enabled'', key_spec ''bool'' ''false''),
      (''config.watch_interval_ms'', key_spec ''int'' ''5000''),
      (''snapshot.max_processes'', key_spec ''int'' ''50''),
      (''snapshot.include_processes'', key_spec ''bool'' ''true''),
      (''snapshot.include_network'', key_spec ''bool'' ''true''),
      (''snapshot.include_ports'', key_spec ''bool'' ''true''),
      (''snapshot.include_disk'', key_spec ''bool'' ''true''),
      (''snapshot.include_load'', key_spec ''bool'' ''true''),
      (''snapshot.include_environment'', key_spec ''bool'' ''true'')]"

definition interval_keys :: "string list" where
  "interval_keys =
     [''filesystem.poll_interval_ms'', ''process.poll_interval_ms'', ''network.poll_interval_ms'',
      ''system_config.poll_interval_ms'', ''user_activity.poll_interval_ms'',
      ''service.poll_interval_ms'', ''file_integrity.poll_interval_ms'',
      ''usb_device.poll_interval_ms'', ''disk_space.poll_interval_ms'',
      ''system_load.poll_interval_ms'', ''log.poll_interval_ms'', ''port.poll_interval_ms'',
      ''package.poll_interval_ms'', ''environment.poll_interval_ms'', ''config.watch_interval_ms'',
      ''reporting.interval_ms'', ''webhook.timeout_ms'']"

subsection \<open>Values\<close>

definition is_valid_bool :: "string \<Rightarrow> bool" where
  "is_valid_bool v =
     (let s = to_lower v in
      s = ''true'' \<or> s = ''false'' \<or> s = ''1'' \<or> s = ''0'' \<or>
      s = ''yes'' \<or> s = ''no'' \<or> s = ''on'' \<or> s = ''off'')"

definition is_valid_int :: "string \<Rightarrow> bool" where
  "is_valid_int v =
     (if v = [] then False
      else (let i = (if hd v = CHR ''+'' \<or> hd v = CHR ''-'' then 1 else 0) in
            if i = length v then False else list_all isdigit (drop i v)))"

definition is_valid_double :: "(string \<Rightarrow> double option) \<Rightarrow> string \<Rightarrow> bool" where
  "is_valid_double stod v = (if v = [] then False else stod v \<noteq> None)"

definition is_valid_port_list :: "string \<Rightarrow> bool" where
  "is_valid_port_list v =
     (if v = [] then True
      else list_all (\<lambda>tok. let t = trim tok in
             t = [] \<or> (case stoi t of None \<Rightarrow> False | Some p \<Rightarrow> \<not> (p < 0 \<or> p > 65535)))
             (getline_split (CHR '','') v))"

definition err_bool :: string where
  "err_bool =
     [CHR 0xE6, CHR 0x9C, CHR 0x9F, CHR 0xE6, CHR 0x9C, CHR 0x9B, CHR 0xE5, CHR 0xB8, CHR 0x83,
     CHR 0xE5, CHR 0xB0, CHR 0x94, CHR 0xE5, CHR 0x80, CHR 0xBC] @ '' (true/false/yes/no/on/off/1/0)''"

definition err_int :: string where
  "err_int =
     [CHR 0xE6, CHR 0x9C, CHR 0x9F, CHR 0xE6, CHR 0x9C, CHR 0x9B, CHR 0xE6, CHR 0x95, CHR 0xB4,
     CHR 0xE6, CHR 0x95, CHR 0xB0]"

definition err_double :: string where
  "err_double =
     [CHR 0xE6, CHR 0x9C, CHR 0x9F, CHR 0xE6, CHR 0x9C, CHR 0x9B, CHR 0xE6, CHR 0x95, CHR 0xB0,
     CHR 0xE5, CHR 0x80, CHR 0xBC]"

definition err_port :: string where
  "err_port =
     [CHR 0xE7, CHR 0xAB, CHR 0xAF, CHR 0xE5, CHR 0x8F, CHR 0xA3, CHR 0xE5, CHR 0x8F, CHR 0xB7,
     CHR 0xE5, CHR 0xBF, CHR 0x85, CHR 0xE9, CHR 0xA1, CHR 0xBB, CHR 0xE5, CHR 0x9C, CHR 0xA8] @
     '' 0-65535 '' @ [CHR 0xE4, CHR 0xB9, CHR 0x8B, CHR 0xE9, CHR 0x97, CHR 0xB4]"

text \<open>\<open>None\<close> where the source returns true, else the text it puts in \<open>err\<close>.\<close>
definition validate_value :: "(string \<Rightarrow> double option) \<Rightarrow> string \<Rightarrow> string \<Rightarrow> string \<Rightarrow> string option" where
  "validate_value stod key type value =
     (if type = ''bool'' then (if \<not> is_valid_bool value then Some err_bool else None)
      else if type = ''int'' then (if \<not> is_valid_int value then Some err_int else None)
      else if type = ''double'' then (if \<not> is_valid_double stod value then Some err_double else None)
      else if type = ''list'' then
        (if key = ''port.watch_ports'' \<and> \<not> is_valid_port_list value then Some err_port else None)
      else None)"

subsection \<open>Semantic checks\<close>

definition msg_disk1 :: string where
  "msg_disk1 =
     [CHR 0xE8, CHR 0xAD, CHR 0xA6, CHR 0xE5, CHR 0x91, CHR 0x8A, CHR 0xE9, CHR 0x98, CHR 0x88,
     CHR 0xE5, CHR 0x80, CHR 0xBC] @ '' (''"

definition msg_disk2 :: string where
  "msg_disk2 =
     '') '' @ [CHR 0xE5, CHR 0xBA, CHR 0x94, CHR 0xE5, CHR 0xB0, CHR 0x8F, CHR 0xE4, CHR 0xBA, CHR 0x8E]
     @ '' critical '' @ [CHR 0xE9, CHR 0x98, CHR 0x88, CHR 0xE5, CHR 0x80, CHR 0xBC] @ '' (''"

definition msg_disk3 :: string where
  "msg_disk3 =
     [CHR 0xE7, CHR 0xA3, CHR 0x81, CHR 0xE7, CHR 0x9B, CHR 0x98, CHR 0xE9, CHR 0x98, CHR 0x88,
     CHR 0xE5, CHR 0x80, CHR 0xBC, CHR 0xE9, CHR 0x80, CHR 0x9A, CHR 0xE5, CHR 0xB8, CHR 0xB8,
     CHR 0xE5, CHR 0xBA, CHR 0x94, CHR 0xE5, CHR 0x9C, CHR 0xA8] @ '' 0-100 '' @ [CHR 0xE4, CHR 0xB9,
     CHR 0x8B, CHR 0xE9, CHR 0x97, CHR 0xB4]"

definition msg_load :: string where
  "msg_load =
     ''load '' @ [CHR 0xE9, CHR 0x98, CHR 0x88, CHR 0xE5, CHR 0x80, CHR 0xBC, CHR 0xE9, CHR 0x9D,
     CHR 0x9E, CHR 0xE6, CHR 0xAD, CHR 0xA3, CHR 0xE6, CHR 0x95, CHR 0xB0, CHR 0xEF, CHR 0xBC,
     CHR 0x8C, CHR 0xE5, CHR 0x8F, CHR 0xAF, CHR 0xE8, CHR 0x83, CHR 0xBD, CHR 0xE9, CHR 0xA2,
     CHR 0x91, CHR 0xE7, CHR 0xB9, CHR 0x81, CHR 0xE8, CHR 0xA7, CHR 0xA6, CHR 0xE5, CHR 0x8F,
     CHR 0x91, CHR 0xE5, CHR 0x91, CHR 0x8A, CHR 0xE8, CHR 0xAD, CHR 0xA6]"

definition msg_negative :: string where
  "msg_negative =
     [CHR 0xE8, CHR 0xBD, CHR 0xAE, CHR 0xE8, CHR 0xAF, CHR 0xA2, CHR 0xE9, CHR 0x97, CHR 0xB4,
     CHR 0xE9, CHR 0x9A, CHR 0x94, CHR 0xE4, CHR 0xB8, CHR 0x8D, CHR 0xE8, CHR 0x83, CHR 0xBD,
     CHR 0xE4, CHR 0xB8, CHR 0xBA, CHR 0xE8, CHR 0xB4, CHR 0x9F, CHR 0xE6, CHR 0x95, CHR 0xB0]"

definition msg_short :: string where
  "msg_short =
     [CHR 0xE8, CHR 0xBD, CHR 0xAE, CHR 0xE8, CHR 0xAF, CHR 0xA2, CHR 0xE9, CHR 0x97, CHR 0xB4,
     CHR 0xE9, CHR 0x9A, CHR 0x94] @ '' < 100ms '' @ [CHR 0xE5, CHR 0x8F, CHR 0xAF, CHR 0xE8, CHR 0x83,
     CHR 0xBD, CHR 0xE9, CHR 0x80, CHR 0xA0, CHR 0xE6, CHR 0x88, CHR 0x90] @ '' CPU '' @ [CHR 0xE5,
     CHR 0x8D, CHR 0xA0, CHR 0xE7, CHR 0x94, CHR 0xA8, CHR 0xE8, CHR 0xBF, CHR 0x87, CHR 0xE9,
     CHR 0xAB, CHR 0x98]"

definition msg_endpoint :: string where
  "msg_endpoint =
     ''reporting '' @ [CHR 0xE5, CHR 0xB7, CHR 0xB2, CHR 0xE5, CHR 0x90, CHR 0xAF, CHR 0xE7, CHR 0x94,
     CHR 0xA8, CHR 0xE4, CHR 0xBD, CHR 0x86] @ '' endpoint '' @ [CHR 0xE6, CHR 0x9C, CHR 0xAA,
     CHR 0xE8, CHR 0xAE, CHR 0xBE, CHR 0xE7, CHR 0xBD, CHR 0xAE, CHR 0xE6, CHR 0x88, CHR 0x96,
     CHR 0xE4, CHR 0xBB, CHR 0x8D, CHR 0xE4, CHR 0xB8, CHR 0xBA, CHR 0xE7, CHR 0xA4, CHR 0xBA,
     CHR 0xE4, CHR 0xBE, CHR 0x8B, CHR 0xE5, CHR 0x80, CHR 0xBC]"

definition msg_url_empty :: string where
  "msg_url_empty =
     ''webhook '' @ [CHR 0xE5, CHR 0xB7, CHR 0xB2, CHR 0xE5, CHR 0x90, CHR 0xAF, CHR 0xE7, CHR 0x94,
     CHR 0xA8, CHR 0xE4, CHR 0xBD, CHR 0x86] @ '' url '' @ [CHR 0xE4, CHR 0xB8, CHR 0xBA, CHR 0xE7,
     CHR 0xA9, CHR 0xBA]"

definition msg_url_scheme :: string where
  "msg_url_scheme =
     ''webhook.url '' @ [CHR 0xE5, CHR 0xBF, CHR 0x85, CHR 0xE9, CHR 0xA1, CHR 0xBB, CHR 0xE4,
     CHR 0xBB, CHR 0xA5] @ '' http:// '' @ [CHR 0xE6, CHR 0x88, CHR 0x96] @ '' https:// '' @ [CHR 0xE5,
     CHR 0xBC, CHR 0x80, CHR 0xE5, CHR 0xA4, CHR 0xB4]"

definition msg_rotate :: string where
  "msg_rotate =
     [CHR 0xE5, CHR 0xB7, CHR 0xB2, CHR 0xE5, CHR 0x90, CHR 0xAF, CHR 0xE7, CHR 0x94, CHR 0xA8,
     CHR 0xE6, CHR 0x97, CHR 0xA5, CHR 0xE5, CHR 0xBF, CHR 0x97, CHR 0xE8, CHR 0xBD, CHR 0xAE,
     CHR 0xE8, CHR 0xBD, CHR 0xAC, CHR 0xE4, CHR 0xBD, CHR 0x86] @ '' rotate_count <= 0'' @ [CHR 0xEF,
     CHR 0xBC, CHR 0x8C, CHR 0xE5, CHR 0xB0, CHR 0x86, CHR 0xE4, CHR 0xB8, CHR 0x8D, CHR 0xE4,
     CHR 0xBF, CHR 0x9D, CHR 0xE7, CHR 0x95, CHR 0x99, CHR 0xE4, CHR 0xBB, CHR 0xBB, CHR 0xE4,
     CHR 0xBD, CHR 0x95, CHR 0xE5, CHR 0xA4, CHR 0x87, CHR 0xE4, CHR 0xBB, CHR 0xBD]"

definition truthy :: "string \<Rightarrow> bool" where
  "truthy v = (let s = to_lower v in s = ''true'' \<or> s = ''1'' \<or> s = ''yes'' \<or> s = ''on'')"

definition check_disk ::
    "(string \<Rightarrow> double option) \<Rightarrow> (double \<Rightarrow> string) \<Rightarrow> (string, string) omap \<Rightarrow> ValidationResult \<Rightarrow> ValidationResult" where
  "check_disk stod dstr values r =
     (case (map_of values ''disk_space.warning_threshold'', map_of values ''disk_space.critical_threshold'') of
        (Some wv, Some cv) \<Rightarrow>
          (case (stod wv, stod cv) of
             (Some w, Some c) \<Rightarrow>
               (if dle c w then
                  add_error ''disk_space.warning_threshold''
                    (msg_disk1 @ dstr w @ msg_disk2 @ dstr c @ '')'') r
                else if dlt w (Fin 0) \<or> dlt (Fin 100) w \<or> dlt c (Fin 0) \<or> dlt (Fin 100) c then
                  add_warning ''disk_space'' msg_disk3 r
                else r)
           | _ \<Rightarrow> r)
      | _ \<Rightarrow> r)"

definition check_load :: "(string \<Rightarrow> double option) \<Rightarrow> (string, string) omap \<Rightarrow> ValidationResult \<Rightarrow> ValidationResult" where
  "check_load stod values r =
     (case map_of values ''system_load.load_threshold'' of
        None \<Rightarrow> r
      | Some v \<Rightarrow>
          (case stod v of
             None \<Rightarrow> r
           | Some lt \<Rightarrow>
               (if dle lt (Fin 0) then add_warning ''system_load.load_threshold'' msg_load r else r)))"

definition check_interval :: "(string, string) omap \<Rightarrow> string \<Rightarrow> ValidationResult \<Rightarrow> ValidationResult" where
  "check_interval values k r =
     (case map_of values k of
        None \<Rightarrow> r
      | Some t \<Rightarrow>
          (case stoi t of
             None \<Rightarrow> r
           | Some v \<Rightarrow>
               (if v < 0 then add_error k msg_negative r
                else if v > 0 \<and> v < 100 then add_warning k msg_short r
                else r)))"

definition check_reporting :: "(string, string) omap \<Rightarrow> ValidationResult \<Rightarrow> ValidationResult" where
  "check_reporting values r =
     (case map_of values ''reporting.enabled'' of
        None \<Rightarrow> r
      | Some s \<Rightarrow>
          (if truthy s then
             (let ep = omap_get [] values ''reporting.endpoint'' in
              if ep = [] \<or> ep = ''https://example.com/api/events''
              then add_warning ''reporting.endpoint'' msg_endpoint r else r)
           else r))"

definition check_webhook :: "(string, string) omap \<Rightarrow> ValidationResult \<Rightarrow> ValidationResult" where
  "check_webhook values r =
     (case map_of values ''webhook.enabled'' of
        None \<Rightarrow> r
      | Some s \<Rightarrow>
          (if truthy s then
             (let url = omap_get [] values ''webhook.url'' in
              if url = [] then add_error ''webhook.url'' msg_url_empty r
              else if find_str ''http://'' url \<noteq> Some 0 \<and> find_str ''https://'' url \<noteq> Some 0
              then add_error ''webhook.url'' msg_url_scheme r
              else r)
           else r))"

definition check_rotation :: "(string, string) omap \<Rightarrow> ValidationResult \<Rightarrow> ValidationResult" where
  "check_rotation values r =
     (case map_of values ''storage.max_size_mb'' of
        None \<Rightarrow> r
      | Some t \<Rightarrow>
          (case stoi t of
             None \<Rightarrow> r
           | Some ms \<Rightarrow>
               (if ms > 0 then
                  (case (case map_of values ''storage.rotate_count'' of None \<Rightarrow> Some 5 | Some c \<Rightarrow> stoi c) of
                     None \<Rightarrow> r
                   | Some rc \<Rightarrow> (if rc \<le> 0 then add_warning ''storage.rotate_count'' msg_rotate r else r))
                else r)))"

definition semantic_checks ::
    "(string \<Rightarrow> double option) \<Rightarrow> (double \<Rightarrow> string) \<Rightarrow> (string, string) omap \<Rightarrow> ValidationResult \<Rightarrow> ValidationResult" where
  "semantic_checks stod dstr values r =
     check_rotation values
       (check_webhook values
         (check_reporting values
           (fold (check_interval values) interval_keys
             (check_load stod values (check_disk stod dstr values r)))))"

subsection \<open>The file\<close>

definition msg_line1 :: string where
  "msg_line1 =
     [CHR 0xE7, CHR 0xAC, CHR 0xAC] @ '' ''"

definition msg_no_eq :: string where
  "msg_no_eq =
     '' '' @ [CHR 0xE8, CHR 0xA1, CHR 0x8C] @ '': '' @ [CHR 0xE7, CHR 0xBC, CHR 0xBA, CHR 0xE5,
     CHR 0xB0, CHR 0x91] @ '' '' @ [CHR 0x27] @ ''='' @ [CHR 0x27] @ '' '' @ [CHR 0xE5, CHR 0x88,
     CHR 0x86, CHR 0xE9, CHR 0x9A, CHR 0x94, CHR 0xE7, CHR 0xAC, CHR 0xA6] @ '': ''"

definition msg_no_key :: string where
  "msg_no_key =
     '' '' @ [CHR 0xE8, CHR 0xA1, CHR 0x8C] @ '': '' @ [CHR 0xE9, CHR 0x94, CHR 0xAE, CHR 0xE4,
     CHR 0xB8, CHR 0xBA, CHR 0xE7, CHR 0xA9, CHR 0xBA]"

definition msg_dup1 :: string where
  "msg_dup1 =
     '' '' @ [CHR 0xE8, CHR 0xA1, CHR 0x8C] @ '': '' @ [CHR 0xE9, CHR 0x94, CHR 0xAE] @ '' '' @ [
     CHR 0x27]"

definition msg_dup2 :: string where
  "msg_dup2 =
     [CHR 0x27] @ '' '' @ [CHR 0xE9, CHR 0x87, CHR 0x8D, CHR 0xE5, CHR 0xA4, CHR 0x8D, CHR 0xE5,
     CHR 0xAE, CHR 0x9A, CHR 0xE4, CHR 0xB9, CHR 0x89, CHR 0xEF, CHR 0xBC, CHR 0x8C, CHR 0xE5,
     CHR 0x90, CHR 0x8E, CHR 0xE8, CHR 0x80, CHR 0x85, CHR 0xE5, CHR 0xB0, CHR 0x86, CHR 0xE8,
     CHR 0xA6, CHR 0x86, CHR 0xE7, CHR 0x9B, CHR 0x96, CHR 0xE5, CHR 0x89, CHR 0x8D, CHR 0xE8,
     CHR 0x80, CHR 0x85]"

definition msg_unknown1 :: string where
  "msg_unknown1 =
     [CHR 0xE6, CHR 0x9C, CHR 0xAA, CHR 0xE7, CHR 0x9F, CHR 0xA5, CHR 0xE9, CHR 0x85, CHR 0x8D,
     CHR 0xE7, CHR 0xBD, CHR 0xAE, CHR 0xE9, CHR 0x94, CHR 0xAE] @ '' '' @ [CHR 0x27]"

definition msg_unknown2 :: string where
  "msg_unknown2 =
     [CHR 0x27, CHR 0xEF, CHR 0xBC, CHR 0x88, CHR 0xE5, CHR 0xB0, CHR 0x86, CHR 0xE8, CHR 0xA2,
     CHR 0xAB, CHR 0xE5, CHR 0xBF, CHR 0xBD, CHR 0xE7, CHR 0x95, CHR 0xA5, CHR 0xEF, CHR 0xBC,
     CHR 0x8C, CHR 0xE5, CHR 0x8F, CHR 0xAF, CHR 0xE8, CHR 0x83, CHR 0xBD, CHR 0xE6, CHR 0x98,
     CHR 0xAF, CHR 0xE6, CHR 0x8B, CHR 0xBC, CHR 0xE5, CHR 0x86, CHR 0x99, CHR 0xE9, CHR 0x94,
     CHR 0x99, CHR 0xE8, CHR 0xAF, CHR 0xAF, CHR 0xEF, CHR 0xBC, CHR 0x89]"

definition msg_value1 :: string where
  "msg_value1 =
     [CHR 0xE9, CHR 0x94, CHR 0xAE] @ '' '' @ [CHR 0x27]"

definition msg_value2 :: string where
  "msg_value2 =
     [CHR 0x27] @ '' '' @ [CHR 0xE7, CHR 0x9A, CHR 0x84, CHR 0xE5, CHR 0x80, CHR 0xBC] @ '' '' @ [
     CHR 0x27]"

definition msg_value3 :: string where
  "msg_value3 =
     [CHR 0x27] @ '' '' @ [CHR 0xE6, CHR 0x97, CHR 0xA0, CHR 0xE6, CHR 0x95, CHR 0x88] @ '': ''"

definition msg_cannot_open :: string where
  "msg_cannot_open =
     [CHR 0xE6, CHR 0x97, CHR 0xA0, CHR 0xE6, CHR 0xB3, CHR 0x95, CHR 0xE6, CHR 0x89, CHR 0x93,
     CHR 0xE5, CHR 0xBC, CHR 0x80, CHR 0xE9, CHR 0x85, CHR 0x8D, CHR 0xE7, CHR 0xBD, CHR 0xAE,
     CHR 0xE6, CHR 0x96, CHR 0x87, CHR 0xE4, CHR 0xBB, CHR 0xB6] @ '': ''"

fun validate_lines ::
    "int \<Rightarrow> string list \<Rightarrow> (string, string) omap \<times> ValidationResult \<Rightarrow> (string, string) omap \<times> ValidationResult" where
  "validate_lines line_no [] st = st"
| "validate_lines line_no (line # ls) (values, r) =
     (let n = line_no + 1; trimmed = trim line in
      if trimmed = [] \<or> hd trimmed = CHR ''#'' \<or> hd trimmed = CHR '';'' then validate_lines n ls (values, r)
      else (case find_str ''='' trimmed of
              None \<Rightarrow> validate_lines n ls
                (values, add_error [] (msg_line1 @ int_str n @ msg_no_eq @ trimmed) r)
            | Some eq \<Rightarrow>
                (let key = trim (take eq trimmed); value = trim (drop (eq + 1) trimmed) in
                 if key = [] then
                   validate_lines n ls (values, add_error [] (msg_line1 @ int_str n @ msg_no_key) r)
                 else
                   (let r1 = (if map_of values key \<noteq> None
                              then add_warning key (msg_line1 @ int_str n @ msg_dup1 @ key @ msg_dup2) r
                              else r)
                    in validate_lines n ls (omap_update key value values, r1)))))"

definition check_key :: "(string \<Rightarrow> double option) \<Rightarrow> string \<times> string \<Rightarrow> ValidationResult \<Rightarrow> ValidationResult" where
  "check_key stod kv r =
     (case map_of known_keys (fst kv) of
        None \<Rightarrow> add_info (fst kv) (msg_unknown1 @ fst kv @ msg_unknown2) r
      | Some spec \<Rightarrow>
          (case validate_value stod (fst kv) (ks_type spec) (snd kv) of
             None \<Rightarrow> r
           | Some err \<Rightarrow>
               add_error (fst kv) (msg_value1 @ fst kv @ msg_value2 @ snd kv @ msg_value3 @ err) r))"

definition config_validate ::
    "(string \<Rightarrow> double option) \<Rightarrow> (double \<Rightarrow> string) \<Rightarrow> string \<Rightarrow> file_system \<Rightarrow> ValidationResult" where
  "config_validate stod dstr path fs =
     (case fs_files fs path of
        None \<Rightarrow> add_error [] (msg_cannot_open @ path) (new_result\<lparr>vr_file_exists := False\<rparr>)
      | Some c \<Rightarrow>
          (let (values, r) = validate_lines 0 (getlines c) ([], new_result\<lparr>vr_file_exists := True\<rparr>);
               r1 = r\<lparr>vr_parsed_keys := int (length values)\<rparr>
           in semantic_checks stod dstr values (fold (check_key stod) values r1)))"

subsection \<open>The report\<close>

definition rep_title :: string where
  "rep_title =
     '' change-of-system '' @ [CHR 0xE9, CHR 0x85, CHR 0x8D, CHR 0xE7, CHR 0xBD, CHR 0xAE, CHR 0xE6,
     CHR 0x96, CHR 0x87, CHR 0xE4, CHR 0xBB, CHR 0xB6, CHR 0xE9, CHR 0xAA, CHR 0x8C, CHR 0xE8,
     CHR 0xAF, CHR 0x81, CHR 0xE6, CHR 0x8A, CHR 0xA5, CHR 0xE5, CHR 0x91, CHR 0x8A]"

definition rep_file :: string where
  "rep_file =
     '' '' @ [CHR 0xE6, CHR 0x96, CHR 0x87, CHR 0xE4, CHR 0xBB, CHR 0xB6] @ '': ''"

definition rep_exists :: string where
  "rep_exists =
     '' '' @ [CHR 0xE5, CHR 0xAD, CHR 0x98, CHR 0xE5, CHR 0x9C, CHR 0xA8] @ '': ''"

definition rep_yes :: string where
  "rep_yes =
     [CHR 0xE6, CHR 0x98, CHR 0xAF]"

definition rep_no :: string where
  "rep_no =
     [CHR 0xE5, CHR 0x90, CHR 0xA6]"

definition rep_keys :: string where
  "rep_keys =
     '' '' @ [CHR 0xE5, CHR 0xB7, CHR 0xB2, CHR 0xE8, CHR 0xA7, CHR 0xA3, CHR 0xE6, CHR 0x9E, CHR 0x90,
     CHR 0xE9, CHR 0x94, CHR 0xAE] @ '': ''"

definition rep_none :: string where
  "rep_none =
     '' '' @ [CHR 0xE6, CHR 0x9C, CHR 0xAA, CHR 0xE5, CHR 0x8F, CHR 0x91, CHR 0xE7, CHR 0x8E, CHR 0xB0,
     CHR 0xE4, CHR 0xBB, CHR 0xBB, CHR 0xE4, CHR 0xBD, CHR 0x95, CHR 0xE9, CHR 0x97, CHR 0xAE,
     CHR 0xE9, CHR 0xA2, CHR 0x98, CHR 0xE3, CHR 0x80, CHR 0x82]"

definition rep_errors :: string where
  "rep_errors =
     '' '' @ [CHR 0xE9, CHR 0x94, CHR 0x99, CHR 0xE8, CHR 0xAF, CHR 0xAF] @ '': ''"

definition rep_warnings :: string where
  "rep_warnings =
     ''  '' @ [CHR 0xE8, CHR 0xAD, CHR 0xA6, CHR 0xE5, CHR 0x91, CHR 0x8A] @ '': ''"

definition rep_infos :: string where
  "rep_infos =
     ''  '' @ [CHR 0xE6, CHR 0x8F, CHR 0x90, CHR 0xE7, CHR 0xA4, CHR 0xBA] @ '': ''"

definition rep_result :: string where
  "rep_result =
     '' '' @ [CHR 0xE7, CHR 0xBB, CHR 0x93, CHR 0xE6, CHR 0x9E, CHR 0x9C] @ '': ''"

definition rep_pass :: string where
  "rep_pass =
     [CHR 0xE9, CHR 0x80, CHR 0x9A, CHR 0xE8, CHR 0xBF, CHR 0x87]"

definition rep_fail :: string where
  "rep_fail =
     [CHR 0xE6, CHR 0x9C, CHR 0xAA, CHR 0xE9, CHR 0x80, CHR 0x9A, CHR 0xE8, CHR 0xBF, CHR 0x87]"

definition report_issue :: "ValidationIssue \<Rightarrow> string" where
  "report_issue issue =
     (let (tag, color) = (case vi_severity issue of
                            Error \<Rightarrow> (''ERROR'', ''[31m'')
                          | Warning \<Rightarrow> (''WARN '', ''[33m'')
                          | Info \<Rightarrow> (''INFO '', ''[36m''))
      in CHR 0x1B # color @ '' ['' @ tag @ ''] '' @ CHR 0x1B # ''[0m'' @
         (if vi_key issue \<noteq> [] then vi_key issue @ '': '' else []) @ vi_message issue @ [nl])"

definition print_report :: "ValidationResult \<Rightarrow> string \<Rightarrow> string \<times> int" where
  "print_report r path =
     (replicate 62 (CHR ''='') @ [nl] @ rep_title @ [nl] @ replicate 62 (CHR ''='') @ [nl] @
      rep_file @ path @ [nl] @
      rep_exists @ (if vr_file_exists r then rep_yes else rep_no) @ [nl] @
      rep_keys @ int_str (vr_parsed_keys r) @ [nl] @
      replicate 62 (CHR ''-'') @ [nl] @
      (if vr_issues r = [] then rep_none @ [nl] else concat (map report_issue (vr_issues r))) @
      replicate 62 (CHR ''-'') @ [nl] @
      rep_errors @ int_str (vr_error_count r) @ rep_warnings @ int_str (vr_warning_count r) @
      rep_infos @ int_str (vr_info_count r) @ [nl] @
      rep_result @ (if vr_ok r then CHR 0x1B # ''[32m'' @ rep_pass @ CHR 0x1B # ''[0m''
                    else CHR 0x1B # ''[31m'' @ rep_fail @ CHR 0x1B # ''[0m'') @ [nl] @
      replicate 62 (CHR ''='') @ [nl],
      vr_error_count r)"

subsection \<open>Counters\<close>

definition issue_count :: "Severity \<Rightarrow> ValidationResult \<Rightarrow> int" where
  "issue_count sev r = int (length (filter (\<lambda>i. vi_severity i = sev) (vr_issues r)))"

definition counters_ok :: "ValidationResult \<Rightarrow> bool" where
  "counters_ok r = (vr_error_count r = issue_count Error r \<and> vr_warning_count r = issue_count Warning r \<and>
                    vr_info_count r = issue_count Info r)"

lemma counters_ok_add [simp, intro]:
  assumes "counters_ok r"
  shows "counters_ok (add_error k m r)" "counters_ok (add_warning k m r)" "counters_ok (add_info k m r)"
  using assms
  by (simp_all add: counters_ok_def add_error_def add_warning_def add_info_def push_issue_def issue_count_def)

lemma counters_ok_frame [simp]:
  "counters_ok (r\<lparr>vr_parsed_keys := n\<rparr>) = counters_ok r" "counters_ok (r\<lparr>vr_file_exists := b\<rparr>) = counters_ok r"
  by (simp_all add: counters_ok_def issue_count_def)

lemma counters_ok_new [simp]: "counters_ok new_result"
  by (simp add: counters_ok_def issue_count_def new_result_def)

lemma fold_keeps: "(\<And>x r. P r \<Longrightarrow> P (f x r)) \<Longrightarrow> P r \<Longrightarrow> P (fold f xs r)"
  by (induction xs arbitrary: r) auto

lemma validate_lines_counters: "counters_ok (snd st) \<Longrightarrow> counters_ok (snd (validate_lines n ls st))"
  by (induction n ls st rule: validate_lines.induct) (auto simp: Let_def split: option.split)

lemma check_counters [simp, intro]:
  assumes "counters_ok r"
  shows "counters_ok (check_key stod kv r)" "counters_ok (check_disk stod dstr values r)"
    "counters_ok (check_load stod values r)" "counters_ok (check_interval values k r)"
    "counters_ok (check_reporting values r)" "counters_ok (check_webhook values r)"
    "counters_ok (check_rotation values r)"
  using assms
  by (auto simp: check_key_def check_disk_def check_load_def check_interval_def check_reporting_def
      check_webhook_def check_rotation_def Let_def split: option.split)

subsection \<open>The errors of a file\<close>

lemma error_count_add [simp]:
  "vr_error_count (add_error k m r) = vr_error_count r + 1"
  "vr_error_count (add_warning k m r) = vr_error_count r"
  "vr_error_count (add_info k m r) = vr_error_count r"
  by (simp_all add: add_error_def add_warning_def add_info_def push_issue_def)

lemma fold_error_count:
  assumes "\<And>x r. vr_error_count (f x r) = vr_error_count r + (if bad x then 1 else 0)"
  shows "vr_error_count (fold f xs r) = vr_error_count r + int (length (filter bad xs))"
  by (induction xs arbitrary: r) (auto simp: assms)

text \<open>What a line of the file is.\<close>
datatype line_kind = Blank | Malformed | Setting string string

definition classify :: "string \<Rightarrow> line_kind" where
  "classify line =
     (let t = trim line in
      if t = [] \<or> hd t = CHR ''#'' \<or> hd t = CHR '';'' then Blank
      else (case find_str ''='' t of
              None \<Rightarrow> Malformed
            | Some eq \<Rightarrow> (let key = trim (take eq t) in
                           if key = [] then Malformed else Setting key (trim (drop (eq + 1) t)))))"

definition set_line :: "string \<Rightarrow> (string, string) omap \<Rightarrow> (string, string) omap" where
  "set_line line m = (case classify line of Setting k v \<Rightarrow> omap_update k v m | _ \<Rightarrow> m)"

definition file_settings :: "string \<Rightarrow> (string, string) omap" where
  "file_settings c = fold set_line (getlines c) []"

lemma load_line_classify:
  "load_line line m = (case classify line of Setting k v \<Rightarrow> omap_update k (cfg_unescape v) m | _ \<Rightarrow> m)"
  by (auto simp: load_line_def classify_def Let_def split: option.split)

lemma validate_lines_result:
  "fst (validate_lines n ls (m, r)) = fold set_line ls m \<and>
   vr_error_count (snd (validate_lines n ls (m, r))) =
     vr_error_count r + int (length (filter (\<lambda>l. classify l = Malformed) ls))"
proof (induction ls arbitrary: n m r)
  case (Cons l ls)
  show ?case
    by (auto simp: Let_def Cons.IH set_line_def classify_def split: option.split)
qed simp

definition bad_setting :: "(string \<Rightarrow> double option) \<Rightarrow> string \<times> string \<Rightarrow> bool" where
  "bad_setting stod kv =
     (case map_of known_keys (fst kv) of
        None \<Rightarrow> False
      | Some spec \<Rightarrow> validate_value stod (fst kv) (ks_type spec) (snd kv) \<noteq> None)"

definition bad_thresholds :: "(string \<Rightarrow> double option) \<Rightarrow> (string, string) omap \<Rightarrow> bool" where
  "bad_thresholds stod m =
     (\<exists>wv cv w c. map_of m ''disk_space.warning_threshold'' = Some wv \<and>
        map_of m ''disk_space.critical_threshold'' = Some cv \<and> stod wv = Some w \<and> stod cv = Some c \<and> dle c w)"

definition negative_interval :: "(string, string) omap \<Rightarrow> string \<Rightarrow> bool" where
  "negative_interval m k = (\<exists>t v. map_of m k = Some t \<and> stoi t = Some v \<and> v < 0)"

definition is_web_url :: "string \<Rightarrow> bool" where
  "is_web_url url = (starts_with url ''http://'' \<or> starts_with url ''https://'')"

definition bad_webhook :: "(string, string) omap \<Rightarrow> bool" where
  "bad_webhook m =
     (\<exists>s. map_of m ''webhook.enabled'' = Some s \<and> truthy s \<and> \<not> is_web_url (omap_get [] m ''webhook.url''))"

lemma find_str_zero: "find_str p s = Some 0 \<longleftrightarrow> starts_with s p"
  by (cases s) (auto simp: starts_with_def)

lemma check_error_counts:
  "vr_error_count (check_key stod kv r) = vr_error_count r + (if bad_setting stod kv then 1 else 0)"
  "vr_error_count (check_disk stod dstr m r) = vr_error_count r + (if bad_thresholds stod m then 1 else 0)"
  "vr_error_count (check_load stod m r) = vr_error_count r"
  "vr_error_count (check_interval m k r) = vr_error_count r + (if negative_interval m k then 1 else 0)"
  "vr_error_count (check_reporting m r) = vr_error_count r"
  "vr_error_count (check_webhook m r) = vr_error_count r + (if bad_webhook m then 1 else 0)"
  "vr_error_count (check_rotation m r) = vr_error_count r"
proof -
  show "vr_error_count (check_webhook m r) = vr_error_count r + (if bad_webhook m then 1 else 0)"
    by (auto simp: check_webhook_def bad_webhook_def is_web_url_def find_str_zero Let_def starts_with_def
        split: option.split)
qed (auto simp: check_key_def bad_setting_def check_disk_def bad_thresholds_def check_load_def
       check_interval_def negative_interval_def check_reporting_def check_rotation_def Let_def
     split: option.splits)

definition error_free :: "(string \<Rightarrow> double option) \<Rightarrow> string \<Rightarrow> bool" where
  "error_free stod c =
     ((\<forall>l \<in> set (getlines c). classify l \<noteq> Malformed) \<and>
      (\<forall>kv \<in> set (file_settings c). \<not> bad_setting stod kv) \<and>
      \<not> bad_thresholds stod (file_settings c) \<and>
      (\<forall>k \<in> set interval_keys. \<not> negative_interval (file_settings c) k) \<and>
      \<not> bad_webhook (file_settings c))"

lemma validate_error_count:
  assumes "fs_files fs path = Some c"
  shows "vr_error_count (config_validate stod dstr path fs) =
     int (length (filter (\<lambda>l. classify l = Malformed) (getlines c)) +
          length (filter (bad_setting stod) (file_settings c)) +
          (if bad_thresholds stod (file_settings c) then 1 else 0) +
          length (filter (negative_interval (file_settings c)) interval_keys) +
          (if bad_webhook (file_settings c) then 1 else 0))"
proof -
  define r0 where "r0 = new_result\<lparr>vr_file_exists := True\<rparr>"
  obtain m r where v: "validate_lines 0 (getlines c) ([], r0) = (m, r)"
    by (rule prod.exhaust)
  note L = validate_lines_result [of 0 "getlines c" "[]" r0]
  have "m = file_settings c"
    using L v by (simp add: file_settings_def)
  moreover have "vr_error_count r = int (length (filter (\<lambda>l. classify l = Malformed) (getlines c)))"
    using L v by (simp add: r0_def new_result_def)
  ultimately show ?thesis
    using assms v
    by (simp add: config_validate_def r0_def [symmetric] semantic_checks_def check_error_counts
        fold_error_count [of "check_key stod" "bad_setting stod"]
        fold_error_count [of "check_interval (file_settings c)" "negative_interval (file_settings c)"])
qed

lemma config_accepted:
  "vr_ok (config_validate stod dstr path fs) \<longleftrightarrow> (\<exists>c. fs_files fs path = Some c \<and> error_free stod c)"
proof (cases "fs_files fs path")
  case None
  then show ?thesis by (simp add: config_validate_def vr_ok_def new_result_def)
next
  case (Some c)
  have "vr_ok (config_validate stod dstr path fs) \<longleftrightarrow> error_free stod c"
    unfolding vr_ok_def validate_error_count [OF Some] of_nat_eq_0_iff add_is_0
    by (auto simp: error_free_def filter_empty_conv)
  then show ?thesis using Some by simp
qed

subsection \<open>Properties\<close>

text \<open>the counters of a result, which decide whether the program starts and what it returns, are
  the numbers of issues of each severity in the list it prints.\<close>
theorem validation_counts_issues:
  "counters_ok (config_validate stod dstr path fs)"
proof (cases "fs_files fs path")
  case None
  then show ?thesis by (simp add: config_validate_def)
next
  case (Some c)
  obtain m r where v: "validate_lines 0 (getlines c) ([], new_result\<lparr>vr_file_exists := True\<rparr>) = (m, r)"
    by (rule prod.exhaust)
  have "counters_ok r"
    using validate_lines_counters [of "([], new_result\<lparr>vr_file_exists := True\<rparr>)" 0 "getlines c"] v by simp
  then show ?thesis
    by (auto simp: config_validate_def semantic_checks_def Some v
        intro!: check_counters fold_keeps [where P = counters_ok])
qed

text \<open>a file is accepted exactly if it exists, every line is blank, a comment or a setting, every
  known key has a value of its type, the warning threshold is below the critical one, no interval is
  negative and an enabled webhook has a web address.\<close>
theorem config_accepted_iff:
  "vr_ok (config_validate stod dstr path fs) \<longleftrightarrow>
   (\<exists>c. fs_files fs path = Some c \<and> error_free stod c)"
  by (rule config_accepted)

subsection \<open>From the checked file to the store\<close>

lemma cfg_unescape_prefix: "backslash \<notin> set p \<Longrightarrow> cfg_unescape (p @ s) = p @ cfg_unescape s"
  by (induction p) (auto simp: cfg_unescape_plain)

lemma cfg_unescape_id: "backslash \<notin> set p \<Longrightarrow> cfg_unescape p = p"
  using cfg_unescape_prefix [of p "[]"] by simp

lemma load_lines_settings:
  assumes "\<And>k. map_of a k = (case map_of b k of None \<Rightarrow> map_of base k | Some v \<Rightarrow> Some (cfg_unescape v))"
  shows "map_of (fold load_line ls a) k =
         (case map_of (fold set_line ls b) k of None \<Rightarrow> map_of base k | Some v \<Rightarrow> Some (cfg_unescape v))"
  using assms
proof (induction ls arbitrary: a b)
  case (Cons l ls)
  have "map_of (load_line l a) k' =
      (case map_of (set_line l b) k' of None \<Rightarrow> map_of base k' | Some v \<Rightarrow> Some (cfg_unescape v))" for k'
    by (auto simp: load_line_classify set_line_def Cons.prems split: line_kind.split)
  from Cons.IH [OF this] show ?case by simp
qed simp

lemma loaded_setting:
  assumes "fs_files fs path = Some c"
  shows "map_of (cs_values (config_load path fs s)) k =
         (case map_of (file_settings c) k of
            None \<Rightarrow> map_of (cs_values s) k | Some v \<Rightarrow> Some (cfg_unescape v))"
  using load_lines_settings [where a = "cs_values s" and b = "[]" and base = "cs_values s" and ls = "getlines c" and k = k]
  by (simp add: cs_values_load assms file_settings_def)

lemma backslash_to_lower: "backslash \<in> set v \<Longrightarrow> backslash \<in> set (to_lower v)"
proof -
  have "tolower backslash = backslash" by code_simp
  then show "backslash \<in> set v \<Longrightarrow> backslash \<in> set (to_lower v)"
    by (metis image_eqI set_map to_lower_def)
qed

lemma valid_bool_plain: "is_valid_bool v \<Longrightarrow> cfg_unescape v = v"
  using backslash_to_lower [of v] by (intro cfg_unescape_id) (auto simp: is_valid_bool_def Let_def)

lemma valid_int_plain: "is_valid_int v \<Longrightarrow> cfg_unescape v = v"
  by (intro cfg_unescape_id)
     (cases v; auto simp: is_valid_int_def list_all_iff isdigit_not split: if_splits)

lemma valid_bool_get:
  assumes "map_of (cs_values s) k = Some v" "is_valid_bool v"
  shows "config_get_bool k d s = truthy v"
proof -
  have "v \<noteq> []" using assms(2) by (auto simp: is_valid_bool_def to_lower_def)
  then show ?thesis
    using assms by (auto simp: config_get_bool_def config_get_def omap_get_def is_valid_bool_def truthy_def Let_def)
qed

lemma accepted_value:
  assumes "error_free stod c" "map_of (file_settings c) k = Some v" "map_of known_keys k = Some spec"
  shows "ks_type spec = ''bool'' \<Longrightarrow> is_valid_bool v" "ks_type spec = ''int'' \<Longrightarrow> is_valid_int v"
proof -
  have "(k, v) \<in> set (file_settings c)" using assms(2) by (rule map_of_SomeD)
  then have "\<not> bad_setting stod (k, v)" using assms(1) by (simp add: error_free_def)
  then have n: "validate_value stod k (ks_type spec) v = None" using assms(3) by (simp add: bad_setting_def)
  show "ks_type spec = ''bool'' \<Longrightarrow> is_valid_bool v" using n by (simp add: validate_value_def split: if_splits)
  show "ks_type spec = ''int'' \<Longrightarrow> is_valid_int v" using n by (simp add: validate_value_def split: if_splits)
qed

lemma interval_keys_known:
  "\<forall>k \<in> set interval_keys. map_option ks_type (map_of known_keys k) = Some ''int''"
  by code_simp

lemma default_intervals:
  "\<forall>k \<in> set interval_keys.
     (case map_of (cs_values new_config_store) k of
        None \<Rightarrow> True | Some v \<Rightarrow> (case stoi v of None \<Rightarrow> True | Some i \<Rightarrow> 0 \<le> i))"
  by code_simp

lemma no_default_webhook: "map_of (cs_values new_config_store) ''webhook.enabled'' = None"
  by code_simp

lemma webhook_keys_known: "map_option ks_type (map_of known_keys ''webhook.enabled'') = Some ''bool''"
  by code_simp

lemma accepted_interval:
  assumes ok: "error_free stod c" and c: "fs_files fs path = Some c"
    and k: "k \<in> set interval_keys" and d: "0 \<le> d"
  shows "0 \<le> config_get_int k d (config_load path fs new_config_store)"
proof (cases "map_of (file_settings c) k")
  case None
  then show ?thesis
    using bspec [OF default_intervals k] d
    by (auto simp: config_get_int_def config_get_def omap_get_def loaded_setting [OF c] Let_def split: option.splits)
next
  case (Some v)
  obtain spec where "map_of known_keys k = Some spec" "ks_type spec = ''int''"
    using bspec [OF interval_keys_known k] by auto
  then have "is_valid_int v" using accepted_value(2) [OF ok Some] by simp
  moreover have "\<not> negative_interval (file_settings c) k" using ok k by (simp add: error_free_def)
  ultimately show ?thesis
    using d Some
    by (auto simp: config_get_int_def config_get_def omap_get_def loaded_setting [OF c] Let_def
        valid_int_plain negative_interval_def split: option.splits)
qed

lemma is_web_url_unescape: "is_web_url url \<Longrightarrow> is_web_url (cfg_unescape url)"
  using cfg_unescape_prefix [of "''http://''"] cfg_unescape_prefix [of "''https://''"]
  by (auto simp: is_web_url_def starts_with_iff)

lemma accepted_webhook:
  assumes ok: "error_free stod c" and c: "fs_files fs path = Some c"
    and e: "config_get_bool ''webhook.enabled'' False (config_load path fs new_config_store)"
  shows "is_web_url (config_get ''webhook.url'' [] (config_load path fs new_config_store))"
proof (cases "map_of (file_settings c) ''webhook.enabled''")
  case None
  then show ?thesis
    using e by (simp add: config_get_bool_def config_get_def omap_get_def loaded_setting [OF c] no_default_webhook)
next
  case (Some v)
  obtain spec where "map_of known_keys ''webhook.enabled'' = Some spec" "ks_type spec = ''bool''"
    using webhook_keys_known by auto
  then have vb: "is_valid_bool v" using accepted_value(1) [OF ok Some] by simp
  then have "config_get_bool ''webhook.enabled'' False (config_load path fs new_config_store) = truthy v"
    using Some by (intro valid_bool_get) (simp_all add: loaded_setting [OF c] valid_bool_plain)
  then have url: "is_web_url (omap_get [] (file_settings c) ''webhook.url'')"
    using ok e Some by (auto simp: error_free_def bad_webhook_def)
  then obtain u where "map_of (file_settings c) ''webhook.url'' = Some u" "is_web_url u"
    by (cases "map_of (file_settings c) ''webhook.url''") (auto simp: omap_get_def is_web_url_def starts_with_def)
  then show ?thesis
    by (simp add: config_get_def omap_get_def loaded_setting [OF c] is_web_url_unescape)
qed

text \<open>the check and the loader agree: after an accepted file is loaded, every known Boolean key of
  the file has a value that does not depend on the default of the caller, no interval is
  negative, and a webhook is enabled only with a web address.  The loader unescapes values and the
  check does not; the theorem covers that.\<close>
theorem accepted_settings_take_effect:
  assumes "vr_ok (config_validate stod dstr path fs)"
    and "s = config_load path fs new_config_store"
  shows "(\<exists>c. fs_files fs path = Some c \<and>
           (\<forall>k v spec. map_of (file_settings c) k = Some v \<and> map_of known_keys k = Some spec \<and>
              ks_type spec = ''bool'' \<longrightarrow> config_get_bool k d s = truthy v)) \<and>
         (\<forall>k \<in> set interval_keys. \<forall>d \<ge> 0. 0 \<le> config_get_int k d s) \<and>
         (config_get_bool ''webhook.enabled'' False s \<longrightarrow> is_web_url (config_get ''webhook.url'' [] s))"
proof -
  obtain c where c: "fs_files fs path = Some c" and ok: "error_free stod c"
    using assms(1) config_accepted by blast
  have "config_get_bool k d s = truthy v"
    if "map_of (file_settings c) k = Some v" "map_of known_keys k = Some spec" "ks_type spec = ''bool''" for k v spec
    using accepted_value(1) [OF ok that(1,2,3)] that(1)
    by (intro valid_bool_get) (simp_all add: assms(2) loaded_setting [OF c] valid_bool_plain)
  then show ?thesis
    using c accepted_interval [OF ok c] accepted_webhook [OF ok c] assms(2) by blast
qed

definition good_lines :: "string list" where
  "good_lines = [''# demo'', ''process.enabled = NO'', ''log.poll_interval_ms=250'', ''webhook.enabled = on'',
     ''webhook.url = https://h/x'']"

definition good_settings :: "(string, string) omap" where
  "good_settings = [(''log.poll_interval_ms'', ''250''), (''process.enabled'', ''NO''), (''webhook.enabled'', ''on''),
     (''webhook.url'', ''https://h/x'')]"

definition good_fs :: file_system where
  "good_fs = writable_fs\<lparr>fs_files := [''c.ini'' \<mapsto> unlines good_lines]\<rparr>"

lemma good_settings_read: "getlines (unlines good_lines) = good_lines" "file_settings (unlines good_lines) = good_settings"
proof -
  show *: "getlines (unlines good_lines) = good_lines" by (rule getlines_unlines) (simp add: good_lines_def)
  have "fold set_line good_lines [] = good_settings" by code_simp
  then show "file_settings (unlines good_lines) = good_settings" by (simp add: file_settings_def *)
qed

lemma good_config: "vr_ok (config_validate (\<lambda>_. None) (\<lambda>_. []) ''c.ini'' good_fs)"
proof -
  have "list_all (\<lambda>l. classify l \<noteq> Malformed) good_lines" by code_simp
  moreover have "list_all (\<lambda>kv. \<not> bad_setting (\<lambda>_. None) kv) good_settings" by code_simp
  moreover have "stoi ''250'' = Some 250" by code_simp
  then have "\<forall>k \<in> set interval_keys. \<not> negative_interval good_settings k"
    by (simp add: negative_interval_def good_settings_def interval_keys_def)
  moreover have "\<not> bad_webhook good_settings"
    by (simp add: bad_webhook_def good_settings_def omap_get_def is_web_url_def starts_with_def)
  ultimately show ?thesis
    by (simp add: config_accepted good_fs_def error_free_def good_settings_read list_all_iff bad_thresholds_def)
qed

lemma accepted_settings_take_effect_witness:
  "\<not> config_get_bool ''process.enabled'' True (config_load ''c.ini'' good_fs new_config_store) \<and>
   is_web_url (config_get ''webhook.url'' [] (config_load ''c.ini'' good_fs new_config_store)) \<and>
   0 \<le> config_get_int ''log.poll_interval_ms'' 0 (config_load ''c.ini'' good_fs new_config_store)"
proof -
  let ?s = "config_load ''c.ini'' good_fs new_config_store"
  have content: "fs_files good_fs ''c.ini'' = Some (unlines good_lines)" by (simp add: good_fs_def)
  have keys: "map_of good_settings ''process.enabled'' = Some ''NO''" "map_of good_settings ''webhook.enabled'' = Some ''on''"
    "map_of known_keys ''process.enabled'' = Some (key_spec ''bool'' ''true'')"
    "map_of known_keys ''webhook.enabled'' = Some (key_spec ''bool'' ''false'')"
    "ks_type (key_spec ''bool'' d) = ''bool''" for d
    by (simp_all add: good_settings_def known_keys_def key_spec_def)
  have take: "config_get_bool k d ?s = truthy v"
    if "map_of good_settings k = Some v" "map_of known_keys k = Some spec" "ks_type spec = ''bool''" for d k v spec
    using accepted_settings_take_effect [OF good_config refl, of d] that content
    by (metis good_settings_read(2) option.inject)
  have "truthy ''on''" "\<not> truthy ''NO''" by code_simp+
  then have "\<not> config_get_bool ''process.enabled'' True ?s" "config_get_bool ''webhook.enabled'' False ?s"
    using take keys by blast+
  moreover have "''log.poll_interval_ms'' \<in> set interval_keys" by (simp add: interval_keys_def)
  ultimately show ?thesis using accepted_settings_take_effect [OF good_config refl] by blast
qed

text \<open>The check accepts any digits, the loader only what fits an \<open>int\<close>: a larger value is valid and
  the caller still gets its default.\<close>
lemma too_large_int_is_dropped:
  "is_valid_int ''99999999999'' \<and> config_get_int k 5000 (config_set k ''99999999999'' s) = 5000"
proof -
  have "is_valid_int ''99999999999''" by code_simp
  moreover have "nat_str 99999999999 = ''99999999999''" by (simp add: nat_str.simps digit_char_def)
  then have "stoi ''99999999999'' = None"
    using strtol_prefix_nat [of "[]" 99999999999] by (simp add: stoi_def in_int32_def)
  ultimately show ?thesis by (simp add: config_get_int_def)
qed

end
