(* ===== verification/Periodic_Runner.thy ===== *)
theory Periodic_Runner
  imports Prelude
begin

text \<open>
  \<open>utils/periodic_runner.h\<close>: a thread that runs a task until it is told to stop.  The two
  threads are program counters, and a step of the system is a step of one of them, so every
  interleaving is a path.  \<open>pr_tasks\<close> counts the runs of the task, \<open>pr_late\<close> those that began
  after \<open>running_\<close> was cleared.  The task may throw: \<open>run_loop\<close> catches it, so a run of the task
  is one step of the worker into the wait either way.
\<close>

text \<open>The worker: at the loop test, in the task, about to test the predicate of \<open>wait_for\<close>, past a
  test that said to wait, blocked on the condition variable, and past the loop.  It holds the mutex
  from before \<open>WaitTest\<close> until it blocks, but \<open>stop\<close> does not take the mutex.\<close>
datatype worker_pc = NotStarted | LoopTest | InTask | WaitTest | WillBlock | Blocked | Finished

text \<open>The caller: idle, past the exchange, past the notification, and past the join.\<close>
datatype caller_pc = Calling | Cleared | Notified | Joined

record PeriodicRunner =
  pr_running :: bool
  pr_worker :: worker_pc
  pr_caller :: caller_pc
  pr_tasks :: nat
  pr_late :: nat

definition new_runner :: PeriodicRunner where
  "new_runner = \<lparr> pr_running = False, pr_worker = NotStarted, pr_caller = Calling, pr_tasks = 0, pr_late = 0 \<rparr>"

definition runner_start :: "PeriodicRunner \<Rightarrow> PeriodicRunner" where
  "runner_start r = r\<lparr>pr_running := True, pr_worker := LoopTest\<rparr>"

text \<open>\<open>run_loop\<close>; a blocked worker wakes on its own when the interval has passed.\<close>
inductive worker_step :: "PeriodicRunner \<Rightarrow> PeriodicRunner \<Rightarrow> bool" where
  enter: "pr_worker r = LoopTest \<Longrightarrow> pr_running r \<Longrightarrow> worker_step r (r\<lparr>pr_worker := InTask\<rparr>)"
| leave: "pr_worker r = LoopTest \<Longrightarrow> \<not> pr_running r \<Longrightarrow> worker_step r (r\<lparr>pr_worker := Finished\<rparr>)"
| task: "pr_worker r = InTask \<Longrightarrow>
         worker_step r (r\<lparr>pr_worker := WaitTest, pr_tasks := pr_tasks r + 1,
                          pr_late := (if pr_running r then pr_late r else pr_late r + 1)\<rparr>)"
| no_wait: "pr_worker r = WaitTest \<Longrightarrow> \<not> pr_running r \<Longrightarrow> worker_step r (r\<lparr>pr_worker := LoopTest\<rparr>)"
| decide: "pr_worker r = WaitTest \<Longrightarrow> pr_running r \<Longrightarrow> worker_step r (r\<lparr>pr_worker := WillBlock\<rparr>)"
| block: "pr_worker r = WillBlock \<Longrightarrow> worker_step r (r\<lparr>pr_worker := Blocked\<rparr>)"
| timeout: "pr_worker r = Blocked \<Longrightarrow> worker_step r (r\<lparr>pr_worker := LoopTest\<rparr>)"

text \<open>\<open>stop\<close>: clear the flag, notify without taking the mutex, join.  A notification wakes the worker
  only if it is blocked at that moment.\<close>
inductive caller_step :: "PeriodicRunner \<Rightarrow> PeriodicRunner \<Rightarrow> bool" where
  already: "pr_caller r = Calling \<Longrightarrow> \<not> pr_running r \<Longrightarrow> caller_step r r"
| clear: "pr_caller r = Calling \<Longrightarrow> pr_running r \<Longrightarrow> caller_step r (r\<lparr>pr_running := False, pr_caller := Cleared\<rparr>)"
| notify: "pr_caller r = Cleared \<Longrightarrow>
           caller_step r (r\<lparr>pr_caller := Notified,
                            pr_worker := (if pr_worker r = Blocked then WaitTest else pr_worker r)\<rparr>)"
| join: "pr_caller r = Notified \<Longrightarrow> pr_worker r = Finished \<Longrightarrow> caller_step r (r\<lparr>pr_caller := Joined\<rparr>)"

inductive runner_step :: "PeriodicRunner \<Rightarrow> PeriodicRunner \<Rightarrow> bool" where
  worker: "worker_step r r' \<Longrightarrow> runner_step r r'"
| caller: "caller_step r r' \<Longrightarrow> runner_step r r'"

inductive_cases worker_stepE: "worker_step r r'"
inductive_cases caller_stepE: "caller_step r r'"
inductive_simps runner_step_iff: "runner_step r r'"

subsection \<open>Invariant\<close>

text \<open>After the flag is cleared the worker makes at most one more run of the task.\<close>
definition runner_inv :: "PeriodicRunner \<Rightarrow> bool" where
  "runner_inv r =
     ((pr_running r \<longleftrightarrow> pr_caller r = Calling) \<and>
      (pr_caller r = Joined \<longrightarrow> pr_worker r = Finished) \<and>
      (pr_worker r = Finished \<longrightarrow> \<not> pr_running r) \<and> pr_worker r \<noteq> NotStarted \<and>
      (pr_running r \<longrightarrow> pr_late r = 0) \<and>
      pr_late r + (if pr_worker r = InTask then 1 else 0) \<le> 1 \<and> pr_late r \<le> pr_tasks r)"

lemma runner_inv_start: "runner_inv (runner_start new_runner)"
  by (simp add: runner_inv_def runner_start_def new_runner_def)

lemma runner_inv_worker: "worker_step r r' \<Longrightarrow> runner_inv r \<Longrightarrow> runner_inv r'"
  by (induction rule: worker_step.induct) (auto simp: runner_inv_def)

lemma runner_inv_caller: "caller_step r r' \<Longrightarrow> runner_inv r \<Longrightarrow> runner_inv r'"
proof (induction rule: caller_step.induct)
  case (notify r)
  then show ?case by (cases "pr_worker r") (auto simp: runner_inv_def)
qed (auto simp: runner_inv_def)

lemma runner_inv_step: "runner_step r r' \<Longrightarrow> runner_inv r \<Longrightarrow> runner_inv r'"
  by (auto simp: runner_step_iff intro: runner_inv_worker runner_inv_caller)

lemma runner_inv_reach: "runner_step\<^sup>*\<^sup>* r r' \<Longrightarrow> runner_inv r \<Longrightarrow> runner_inv r'"
  by (induction rule: rtranclp_induct) (auto intro: runner_inv_step)

lemma joined_is_final: "runner_inv r \<Longrightarrow> pr_caller r = Joined \<Longrightarrow> \<not> runner_step r r'"
  by (auto simp: runner_step_iff runner_inv_def elim!: worker_stepE caller_stepE)

text \<open>How many steps the worker still takes on its own once the flag is cleared.\<close>
definition worker_rank :: "PeriodicRunner \<Rightarrow> nat" where
  "worker_rank r = (case pr_worker r of NotStarted \<Rightarrow> 0 | Finished \<Rightarrow> 0 | LoopTest \<Rightarrow> 1 | WaitTest \<Rightarrow> 2 | Blocked \<Rightarrow> 3 | WillBlock \<Rightarrow> 4 | InTask \<Rightarrow> 3)"

lemma worker_rank_decreases:
  "worker_step r r' \<Longrightarrow> \<not> pr_running r \<Longrightarrow> worker_rank r' < worker_rank r \<and> \<not> pr_running r' \<and> pr_caller r' = pr_caller r"
  by (auto simp: worker_rank_def elim!: worker_stepE)

lemma worker_enabled: "pr_worker r \<notin> {NotStarted, Finished} \<Longrightarrow> \<exists>r'. worker_step r r'"
  by (cases "pr_worker r"; cases "pr_running r") (auto intro: worker_step.intros)

lemma worker_finishes:
  assumes "\<not> pr_running r" "pr_worker r \<noteq> NotStarted"
  shows "\<exists>r'. worker_step\<^sup>*\<^sup>* r r' \<and> pr_worker r' = Finished \<and> pr_caller r' = pr_caller r"
  using assms
proof (induction "worker_rank r" arbitrary: r rule: less_induct)
  case less
  show ?case
  proof (cases "pr_worker r = Finished")
    case False
    then obtain r1 where s: "worker_step r r1" using worker_enabled less.prems by blast
    note d = worker_rank_decreases [OF s less.prems(1)]
    have "pr_worker r1 \<noteq> NotStarted" using s by (auto elim!: worker_stepE)
    then obtain r' where "worker_step\<^sup>*\<^sup>* r1 r'" "pr_worker r' = Finished" "pr_caller r' = pr_caller r1"
      using less.hyps d by blast
    then show ?thesis using s d by (metis converse_rtranclp_into_rtranclp)
  qed auto
qed

subsection \<open>Properties\<close>

text \<open>C30: \<open>stop\<close> is safe in every interleaving: once it has returned the worker is past its loop, no
  step of the system is left, and at most one run of the task ended after the flag was cleared.\<close>
theorem runner_stop_is_final:
  assumes "runner_step\<^sup>*\<^sup>* (runner_start new_runner) r"
  shows "pr_late r \<le> 1 \<and>
         (pr_caller r = Joined \<longrightarrow> pr_worker r = Finished \<and> \<not> pr_running r \<and> (\<forall>r'. \<not> runner_step r r'))"
proof -
  have i: "runner_inv r" by (rule runner_inv_reach [OF assms runner_inv_start])
  then have "pr_late r \<le> 1" by (auto simp: runner_inv_def split: if_splits)
  moreover have "pr_caller r = Joined \<Longrightarrow> \<not> pr_running r" using i by (simp add: runner_inv_def)
  ultimately show ?thesis using i joined_is_final [OF i] by (simp add: runner_inv_def)
qed

text \<open>The state with the given counters and program counters.\<close>
definition runner_at :: "bool \<Rightarrow> worker_pc \<Rightarrow> caller_pc \<Rightarrow> nat \<Rightarrow> nat \<Rightarrow> PeriodicRunner" where
  "runner_at b w c n l = \<lparr> pr_running = b, pr_worker = w, pr_caller = c, pr_tasks = n, pr_late = l \<rparr>"

lemma runner_at_fields [simp]:
  "pr_running (runner_at b w c n l) = b" "pr_worker (runner_at b w c n l) = w"
  "pr_caller (runner_at b w c n l) = c" "pr_tasks (runner_at b w c n l) = n" "pr_late (runner_at b w c n l) = l"
  by (simp_all add: runner_at_def)

lemma runner_at_steps:
  "runner_step (runner_at True LoopTest c n l) (runner_at True InTask c n l)"
  "runner_step (runner_at b InTask c n l) (runner_at b WaitTest c (n + 1) (if b then l else l + 1))"
  "runner_step (runner_at True WaitTest c n l) (runner_at True WillBlock c n l)"
  "runner_step (runner_at False WaitTest c n l) (runner_at False LoopTest c n l)"
  "runner_step (runner_at b WillBlock c n l) (runner_at b Blocked c n l)"
  "runner_step (runner_at False LoopTest c n l) (runner_at False Finished c n l)"
  "runner_step (runner_at True w Calling n l) (runner_at False w Cleared n l)"
  "w \<noteq> Blocked \<Longrightarrow> runner_step (runner_at b w Cleared n l) (runner_at b w Notified n l)"
  "runner_step (runner_at b Finished Notified n l) (runner_at b Finished Joined n l)"
  using worker_step.enter [of "runner_at True LoopTest c n l"] worker_step.task [of "runner_at b InTask c n l"]
    worker_step.decide [of "runner_at True WaitTest c n l"] worker_step.no_wait [of "runner_at False WaitTest c n l"]
    worker_step.block [of "runner_at b WillBlock c n l"] worker_step.leave [of "runner_at False LoopTest c n l"]
    caller_step.clear [of "runner_at True w Calling n l"] caller_step.notify [of "runner_at b w Cleared n l"]
    caller_step.join [of "runner_at b Finished Notified n l"]
  by (auto simp: runner_at_def intro: runner_step.intros)

lemma runner_start_at: "runner_start new_runner = runner_at True LoopTest Calling 0 0"
  by (simp add: runner_start_def new_runner_def runner_at_def)

lemma late_run: "runner_step\<^sup>*\<^sup>* (runner_start new_runner) (runner_at False Finished Joined 1 1)"
proof -
  have "runner_step\<^sup>*\<^sup>* (runner_at True LoopTest Calling 0 0) (runner_at False WaitTest Cleared 1 1)"
    using runner_at_steps(1) [of Calling 0 0] runner_at_steps(7) [of InTask 0 0] runner_at_steps(2) [of False Cleared 0 0]
    by (simp add: converse_rtranclp_into_rtranclp)
  moreover have "runner_step\<^sup>*\<^sup>* (runner_at False WaitTest Cleared 1 1) (runner_at False Finished Joined 1 1)"
    using runner_at_steps(4) [of Cleared 1 1] runner_at_steps(6) [of Cleared 1 1]
      runner_at_steps(8) [of Finished False 1 1] runner_at_steps(9) [of False 1 1]
    by (simp add: converse_rtranclp_into_rtranclp)
  ultimately show ?thesis unfolding runner_start_at by (rule rtranclp_trans)
qed

lemma runner_stop_is_final_witness:
  "pr_late (runner_at False Finished Joined 1 1) \<le> 1 \<and>
   (\<forall>r'. \<not> runner_step (runner_at False Finished Joined 1 1) r')"
  using runner_stop_is_final [OF late_run] by simp

text \<open>the notification can be lost, because \<open>stop\<close> sends it without the mutex: the caller is then in
  the join with the worker blocked, and the only step left is the timeout, so \<open>stop\<close> lasts a
  whole interval.\<close>
theorem stop_notification_can_be_lost:
  "\<exists>r. runner_step\<^sup>*\<^sup>* (runner_start new_runner) r \<and> pr_caller r = Notified \<and> pr_worker r = Blocked \<and>
       (\<forall>r'. runner_step r r' \<longleftrightarrow> r' = r\<lparr>pr_worker := LoopTest\<rparr>)"
proof -
  let ?r = "runner_at False Blocked Notified 1 0"
  have "runner_step\<^sup>*\<^sup>* (runner_at True LoopTest Calling 0 0) (runner_at True WillBlock Calling 1 0)"
    using runner_at_steps(1) [of Calling 0 0] runner_at_steps(2) [of True Calling 0 0] runner_at_steps(3) [of Calling 1 0]
    by (simp add: converse_rtranclp_into_rtranclp)
  moreover have "runner_step\<^sup>*\<^sup>* (runner_at True WillBlock Calling 1 0) ?r"
    using runner_at_steps(7) [of WillBlock 1 0] runner_at_steps(8) [of WillBlock False 1 0]
      runner_at_steps(5) [of False Notified 1 0]
    by (simp add: converse_rtranclp_into_rtranclp)
  ultimately have "runner_step\<^sup>*\<^sup>* (runner_start new_runner) ?r"
    unfolding runner_start_at by (rule rtranclp_trans)
  moreover have "runner_step ?r r' \<longleftrightarrow> r' = ?r\<lparr>pr_worker := LoopTest\<rparr>" for r'
    by (auto simp: runner_step_iff elim!: worker_stepE caller_stepE intro: worker_step.timeout)
  ultimately show ?thesis by (intro exI [of _ ?r]) simp
qed

end
