(* ===== verification/Monitor.thy ===== *)
theory Monitor
  imports Core_Event
begin

text \<open>
  \<open>core/monitor.h\<close> and \<open>core/monitor.cpp\<close>: the base class of the monitors.  \<open>on_start\<close> and
  \<open>on_stop\<close> are virtual, so \<open>monitor_start\<close> and \<open>monitor_stop\<close> take the override as an argument:
  a function on the state of the derived class with the Boolean it returns.  The callbacks act on a
  world of type \<open>'w\<close>; \<open>emit\<close> catches what they throw.  The locale \<open>snapshot_monitor\<close> is the
  contract of the monitors that compare two snapshots of the system, with what follows from it.
\<close>

record 'w Monitor =
  mon_running :: bool
  mon_use_native :: bool
  mon_poll_interval_ms :: int
  mon_callbacks :: "(Event \<Rightarrow> 'w \<Rightarrow> 'w) list"

definition new_monitor :: "'w Monitor" where
  "new_monitor = \<lparr> mon_running = False, mon_use_native = True, mon_poll_interval_ms = 3000, mon_callbacks = [] \<rparr>"

definition monitor_start :: "('s \<Rightarrow> 's \<times> bool) \<Rightarrow> 'w Monitor \<times> 's \<Rightarrow> ('w Monitor \<times> 's) \<times> bool" where
  "monitor_start on_start = (\<lambda>(m, s).
     if mon_running m then ((m, s), False)
     else (let (s1, ok) = on_start s in ((m\<lparr>mon_running := True\<rparr>, s1), ok)))"

definition monitor_stop :: "('s \<Rightarrow> 's \<times> bool) \<Rightarrow> 'w Monitor \<times> 's \<Rightarrow> ('w Monitor \<times> 's) \<times> bool" where
  "monitor_stop on_stop = (\<lambda>(m, s).
     if \<not> mon_running m then ((m, s), False)
     else (let (s1, ok) = on_stop s in ((m\<lparr>mon_running := False\<rparr>, s1), ok)))"

definition monitor_on_event :: "(Event \<Rightarrow> 'w \<Rightarrow> 'w) \<Rightarrow> 'w Monitor \<Rightarrow> 'w Monitor" where
  "monitor_on_event cb m = m\<lparr>mon_callbacks := mon_callbacks m @ [cb]\<rparr>"

definition set_poll_interval_ms :: "int \<Rightarrow> 'w Monitor \<Rightarrow> 'w Monitor" where
  "set_poll_interval_ms ms m = m\<lparr>mon_poll_interval_ms := ms\<rparr>"

definition set_use_native_events :: "bool \<Rightarrow> 'w Monitor \<Rightarrow> 'w Monitor" where
  "set_use_native_events b m = m\<lparr>mon_use_native := b\<rparr>"

definition emit :: "'w Monitor \<Rightarrow> Event \<Rightarrow> 'w \<Rightarrow> 'w" where
  "emit m e w = fold (\<lambda>cb. cb e) (mon_callbacks m) w"

definition emit_all :: "'w Monitor \<Rightarrow> Event list \<Rightarrow> 'w \<Rightarrow> 'w" where
  "emit_all m es w = fold (emit m) es w"

subsection \<open>Start and stop\<close>

lemma start_twice:
  assumes "monitor_start f (m, s) = (st, b)"
  shows "monitor_start f st = (st, False)"
  using assms by (auto simp: monitor_start_def split: if_splits prod.splits)

lemma stop_after_start:
  assumes "monitor_start f (m, s) = (st, b)" "snd (g (snd st))"
  shows "snd (monitor_stop g st)" "\<not> mon_running (fst (fst (monitor_stop g st)))"
  using assms by (auto simp: monitor_start_def monitor_stop_def split: if_splits prod.splits)

lemma mon_running_start: "mon_running (fst (fst (monitor_start f st)))"
  by (cases st) (simp add: monitor_start_def split: prod.split)

subsection \<open>Monitors that compare snapshots\<close>

text \<open>What a poll reads besides the snapshot: clock, platform and host name.\<close>
record 'k poll_env =
  pe_stamp :: "'k \<Rightarrow> timestamp"
  pe_platform :: string
  pe_host :: string

text \<open>The keys of the observed objects, the last snapshot and the flag of the first scan are read from
  the state.  An event changes the set of present objects as \<open>effect\<close> says.  The laws: a first scan
  is silent, the snapshot becomes the last one, the events of a later poll turn the old set of
  objects into the new one, and an unchanged snapshot is silent.\<close>
locale snapshot_monitor =
  fixes poll :: "'c \<Rightarrow> 'snap \<Rightarrow> 's \<Rightarrow> 's \<times> Event list"
    and keys_of :: "'snap \<Rightarrow> 'k set"
    and last_of :: "'s \<Rightarrow> 'snap"
    and first_of :: "'s \<Rightarrow> bool"
    and effect :: "Event \<Rightarrow> 'k set \<Rightarrow> 'k set"
    and valid :: "'snap \<Rightarrow> bool"
  assumes poll_last: "last_of (fst (poll c cur s)) = cur"
    and poll_first: "\<not> first_of (fst (poll c cur s))"
    and first_silent: "first_of s \<Longrightarrow> snd (poll c cur s) = []"
    and same_silent: "valid cur \<Longrightarrow> last_of s = cur \<Longrightarrow> snd (poll c cur s) = []"
    and poll_effect: "\<not> first_of s \<Longrightarrow> valid cur \<Longrightarrow> valid (last_of s) \<Longrightarrow>
      fold effect (snd (poll c cur s)) (keys_of (last_of s)) = keys_of cur"
begin

text \<open>The events of a run of polls, in order.\<close>
fun poll_events :: "('c \<times> 'snap) list \<Rightarrow> 's \<Rightarrow> Event list" where
  "poll_events [] s = []"
| "poll_events ((c, cur) # ps) s = snd (poll c cur s) @ poll_events ps (fst (poll c cur s))"

lemma run_effect:
  assumes "\<not> first_of s" "valid (last_of s)" "\<forall>(c, cur) \<in> set ps. valid cur"
  shows "fold effect (poll_events ps s) (keys_of (last_of s)) = keys_of (last (last_of s # map snd ps))"
  using assms
proof (induction ps s rule: poll_events.induct)
  case (2 c cur ps s)
  then have "fold effect (poll_events ps (fst (poll c cur s))) (keys_of cur) = keys_of (last (cur # map snd ps))"
    by (simp add: poll_first poll_last)
  with 2 show ?case by (simp add: poll_effect)
qed simp

lemma run_from_first:
  assumes "first_of s" "valid cur" "\<forall>(c, cur') \<in> set ps. valid cur'"
  shows "fold effect (poll_events ((c, cur) # ps) s) (keys_of cur) = keys_of (last (cur # map snd ps))"
  using run_effect [of "fst (poll c cur s)" ps] assms
  by (simp add: poll_first poll_last first_silent)

lemma steady_is_silent:
  assumes "valid cur" "last_of s = cur" "\<forall>(c, cur') \<in> set ps. cur' = cur"
  shows "poll_events ps s = []"
  using assms
proof (induction ps s rule: poll_events.induct)
  case (2 c cur' ps s)
  then show ?case by (auto simp: same_silent poll_last)
qed simp

end

subsection \<open>Building a snapshot\<close>

lemma fold_update_keys:
  "fst ` set (fold (\<lambda>x m. omap_update (f x) (g x) m) xs m) = fst ` set m \<union> f ` set xs"
  by (induction xs arbitrary: m) auto

lemma fold_update_sorted: "omap_sorted m \<Longrightarrow> omap_sorted (fold (\<lambda>x m. omap_update (f x) (g x) m) xs m)"
  by (induction xs arbitrary: m) auto

lemma omap_update_mem: "p \<in> set (omap_update k v m) \<Longrightarrow> p = (k, v) \<or> p \<in> set m"
  by (induction k v m rule: omap_update.induct) (auto split: if_splits)

lemma fold_update_mem:
  "p \<in> set (fold (\<lambda>x m. omap_update (f x) (g x) m) xs m) \<Longrightarrow> p \<in> set m \<or> (\<exists>x \<in> set xs. p = (f x, g x))"
proof (induction xs arbitrary: m)
  case (Cons x xs)
  then show ?case using omap_update_mem [of p "f x" "g x" m] by auto
qed simp

subsection \<open>Comparing two maps\<close>

text \<open>The shape of the comparison loops: for each entry of the new map what \<open>seen\<close> yields from the old
  entry, then for each entry of the old map that is gone what \<open>gone\<close> yields.\<close>
definition map_diff ::
    "('k \<Rightarrow> 'v option \<Rightarrow> 'v \<Rightarrow> Event list) \<Rightarrow> ('k \<Rightarrow> 'v \<Rightarrow> Event list) \<Rightarrow>
     ('k \<times> 'v) list \<Rightarrow> ('k \<times> 'v) list \<Rightarrow> Event list" where
  "map_diff seen gone prev cur =
     concat (map (\<lambda>(k, v). seen k (map_of prev k) v) cur) @
     concat (map (\<lambda>(k, v). if map_of cur k = None then gone k v else []) prev)"

lemma fold_effect_concat:
  assumes "\<And>x S. x \<in> set xs \<Longrightarrow> fold effect (f x) S = g x S"
  shows "fold effect (concat (map f xs)) S = fold g xs S"
  using assms by (induction xs arbitrary: S) auto

lemma fold_insert_keys: "fold (\<lambda>(k, v) S. if P k then insert k S else S) xs S = S \<union> {k \<in> fst ` set xs. P k}"
  by (induction xs arbitrary: S) (auto split: if_splits)

lemma fold_remove_keys: "fold (\<lambda>(k, v) S. if P k then S - {k} else S) xs S = S - {k \<in> fst ` set xs. P k}"
  by (induction xs arbitrary: S) (auto split: if_splits)

lemma map_diff_effect:
  assumes "\<And>k v S. (k, v) \<in> set cur \<Longrightarrow>
      fold effect (seen k (map_of prev k) v) S = (if map_of prev k = None then insert k S else S)"
    and "\<And>k v S. (k, v) \<in> set prev \<Longrightarrow> map_of cur k = None \<Longrightarrow> fold effect (gone k v) S = S - {k}"
  shows "fold effect (map_diff seen gone prev cur) (fst ` set prev) = fst ` set cur"
proof -
  let ?P = "\<lambda>k. map_of prev k = None" and ?Q = "\<lambda>k. map_of cur k = None"
  have "fold effect (concat (map (\<lambda>(k, v). seen k (map_of prev k) v) cur)) S =
      fold (\<lambda>(k, v) S. if ?P k then insert k S else S) cur S" for S
    by (rule fold_effect_concat) (auto simp: assms(1))
  moreover have "fold effect (concat (map (\<lambda>(k, v). if ?Q k then gone k v else []) prev)) S =
      fold (\<lambda>(k, v) S. if ?Q k then S - {k} else S) prev S" for S
    by (rule fold_effect_concat) (auto simp: assms(2))
  ultimately have "fold effect (map_diff seen gone prev cur) (fst ` set prev) =
      (fst ` set prev \<union> {k \<in> fst ` set cur. ?P k}) - {k \<in> fst ` set prev. ?Q k}"
    by (simp add: map_diff_def fold_insert_keys fold_remove_keys)
  also have "\<dots> = fst ` set cur"
    by (auto simp: map_of_eq_None_iff)
  finally show ?thesis .
qed

lemma map_diff_same:
  assumes "distinct (map fst cur)" "\<And>k v. (k, v) \<in> set cur \<Longrightarrow> seen k (Some v) v = []"
  shows "map_diff seen gone cur cur = []"
proof -
  have *: "map_of cur k = Some v" if "(k, v) \<in> set cur" for k v
    using assms(1) that by simp
  show ?thesis
    using assms(2) by (auto simp: map_diff_def *)
qed

text \<open>The targets of a loop over a map that reports each entry under its key.\<close>
lemma loop_targets:
  assumes "\<And>k v e. (k, v) \<in> set m \<Longrightarrow> e \<in> set (f k v) \<Longrightarrow> ev_target e = k"
  shows "ev_target ` set (concat (map (\<lambda>(k, v). f k v) m)) = {k. \<exists>v. (k, v) \<in> set m \<and> f k v \<noteq> []}"
proof -
  have "k \<in> ev_target ` set (concat (map (\<lambda>(k, v). f k v) m))" if "(k, v) \<in> set m" "f k v \<noteq> []" for k v
  proof -
    obtain e where "e \<in> set (f k v)" using \<open>f k v \<noteq> []\<close> by (cases "f k v") auto
    then show ?thesis using assms [OF that(1)] that(1) by (intro image_eqI [of _ _ e]) auto
  qed
  moreover have "f k v \<noteq> []" if "e \<in> set (f k v)" for e k v using that by auto
  ultimately show ?thesis using assms by (auto; blast)
qed

text \<open>The events of one key in a loop that reports each entry under its key.\<close>
lemma concat_filter_key:
  assumes "distinct (map fst m)" "\<And>k v e. (k, v) \<in> set m \<Longrightarrow> e \<in> set (f k v) \<Longrightarrow> ev_target e = k"
  shows "filter (\<lambda>e. ev_target e = n) (concat (map (\<lambda>(k, v). f k v) m)) =
         (case map_of m n of None \<Rightarrow> [] | Some v \<Rightarrow> f n v)"
  using assms
proof (induction m)
  case (Cons p m)
  obtain k v where p: "p = (k, v)" by (rule prod.exhaust)
  have t: "e \<in> set (f k v) \<Longrightarrow> ev_target e = k" for e using Cons.prems(2) [of k v] p by auto
  have IH: "filter (\<lambda>e. ev_target e = n) (concat (map (\<lambda>(k, v). f k v) m)) =
      (case map_of m n of None \<Rightarrow> [] | Some v \<Rightarrow> f n v)"
    by (rule Cons.IH) (use Cons.prems in auto)
  show ?case
  proof (cases "k = n")
    case True
    then have "map_of m n = None" using Cons.prems(1) p by (simp add: map_of_eq_None_iff)
    then show ?thesis using IH p True t by (simp add: filter_id_conv)
  next
    case False
    then have "filter (\<lambda>e. ev_target e = n) (f k v) = []" using t by (auto simp: filter_empty_conv)
    then show ?thesis using IH p False by simp
  qed
qed simp

end
