(* ===== verification/Filesystem_Monitor.thy ===== *)
theory Filesystem_Monitor
  imports Monitor
begin

text \<open>
  \<open>monitor/filesystem/filesystem_monitor.h\<close> and \<open>.cpp\<close>: scanning the watched trees and reporting
  the differences.  What \<open>std::filesystem\<close> answers is a parameter: \<open>walk root\<close> lists the entries
  the recursive iterator visits below a directory (up to the error that ends it, if one does), and
  \<open>probe path\<close> holds the answers for one path.  Events take the time stamp of their construction
  from the poll environment.
\<close>

record file_probe =
  fp_exists :: bool
  fp_is_directory :: bool
  fp_file_size :: "int option"
  fp_mtime_seconds :: "int option"

record FileSnapshot =
  fsn_path :: string
  fsn_exists :: bool
  fsn_size :: int
  fsn_mtime :: int
  fsn_permissions :: "32 word"
  fsn_is_directory :: bool

record FilesystemMonitor =
  fm_watch_paths :: "string list"
  fm_previous_snapshots :: "(string, FileSnapshot) omap"
  fm_first_scan :: bool

definition new_filesystem_monitor :: FilesystemMonitor where
  "new_filesystem_monitor = \<lparr> fm_watch_paths = [], fm_previous_snapshots = [], fm_first_scan = True \<rparr>"

definition add_watch_path :: "string \<Rightarrow> FilesystemMonitor \<Rightarrow> FilesystemMonitor" where
  "add_watch_path path m =
     (if path \<in> set (fm_watch_paths m) then m else m\<lparr>fm_watch_paths := fm_watch_paths m @ [path]\<rparr>)"

definition remove_watch_path :: "string \<Rightarrow> FilesystemMonitor \<Rightarrow> FilesystemMonitor" where
  "remove_watch_path path m = m\<lparr>fm_watch_paths := filter (\<lambda>p. p \<noteq> path) (fm_watch_paths m)\<rparr>"

definition filesystem_on_start :: "FilesystemMonitor \<Rightarrow> FilesystemMonitor \<times> bool" where
  "filesystem_on_start m = (m\<lparr>fm_first_scan := True\<rparr>, True)"

definition snapshot_of :: "(string \<Rightarrow> file_probe) \<Rightarrow> string \<Rightarrow> FileSnapshot" where
  "snapshot_of probe path =
     (let snap = \<lparr> fsn_path = path, fsn_exists = False, fsn_size = 0, fsn_mtime = 0, fsn_permissions = 0,
                   fsn_is_directory = False \<rparr>;
          p = probe path
      in if \<not> fp_exists p then snap
         else (let s1 = snap\<lparr>fsn_exists := True, fsn_is_directory := fp_is_directory p\<rparr>;
                   s2 = (if fsn_is_directory s1 then s1
                         else (case fp_file_size p of None \<Rightarrow> s1 | Some sz \<Rightarrow> s1\<lparr>fsn_size := sz\<rparr>))
               in (case fp_mtime_seconds p of None \<Rightarrow> s2 | Some t \<Rightarrow> s2\<lparr>fsn_mtime := t\<rparr>)))"

definition scan_root ::
    "(string \<Rightarrow> file_probe) \<Rightarrow> (string \<Rightarrow> string list) \<Rightarrow> string \<Rightarrow> (string, FileSnapshot) omap \<Rightarrow> (string, FileSnapshot) omap" where
  "scan_root probe walk root current =
     (if \<not> fp_exists (probe root) then current
      else if fp_is_directory (probe root) then
        fold (\<lambda>entry m. omap_update entry (snapshot_of probe entry) m) (walk root) current
      else omap_update root (snapshot_of probe root) current)"

definition scan_paths ::
    "(string \<Rightarrow> file_probe) \<Rightarrow> (string \<Rightarrow> string list) \<Rightarrow> string list \<Rightarrow> (string, FileSnapshot) omap" where
  "scan_paths probe walk paths = fold (scan_root probe walk) paths []"

definition fs_event :: "string poll_env \<Rightarrow> string \<Rightarrow> EventType \<Rightarrow> string \<Rightarrow> (string, string) omap \<Rightarrow> Event" where
  "fs_event env path t summary attrs =
     (event_default (pe_stamp env path))
       \<lparr> ev_category := Filesystem, ev_source := ''filesystem'', ev_target := path,
         ev_platform := pe_platform env, ev_host := pe_host env,
         ev_type := t, ev_summary := summary, ev_attributes := attrs \<rparr>"

text \<open>The first loop for one entry.  The event is built once, so a permission event that follows a
  modification keeps the attributes of the modification.\<close>
definition fs_seen :: "string poll_env \<Rightarrow> string \<Rightarrow> FileSnapshot option \<Rightarrow> FileSnapshot \<Rightarrow> Event list" where
  "fs_seen env path prev_it cur =
     (case prev_it of
        None \<Rightarrow>
          [fs_event env path FileCreated (''File created: '' @ path)
             (omap_update ''size'' (int_str (fsn_size cur)) [])]
      | Some prev \<Rightarrow>
          (let modified = (fsn_mtime prev \<noteq> fsn_mtime cur \<or> fsn_size prev \<noteq> fsn_size cur);
               attrs = (if modified
                        then omap_update ''size_new'' (int_str (fsn_size cur))
                               (omap_update ''size_old'' (int_str (fsn_size prev)) [])
                        else [])
           in (if modified then [fs_event env path FileModified (''File modified: '' @ path) attrs] else []) @
              (if fsn_permissions prev \<noteq> fsn_permissions cur
               then [fs_event env path FilePermissionChanged (''File permission changed: '' @ path) attrs]
               else [])))"

definition fs_gone :: "string poll_env \<Rightarrow> string \<Rightarrow> FileSnapshot \<Rightarrow> Event list" where
  "fs_gone env path prev = [fs_event env path FileDeleted (''File deleted: '' @ path) []]"

text \<open>\<open>scan_and_diff\<close>, with the scan done.\<close>
definition filesystem_diff ::
    "string poll_env \<Rightarrow> (string, FileSnapshot) omap \<Rightarrow> FilesystemMonitor \<Rightarrow> FilesystemMonitor \<times> Event list" where
  "filesystem_diff env current m =
     (if fm_first_scan m then (m\<lparr>fm_first_scan := False, fm_previous_snapshots := current\<rparr>, [])
      else (m\<lparr>fm_first_scan := False, fm_previous_snapshots := current\<rparr>,
            map_diff (fs_seen env) (fs_gone env) (fm_previous_snapshots m) current))"

definition scan_and_diff ::
    "string poll_env \<Rightarrow> (string \<Rightarrow> file_probe) \<Rightarrow> (string \<Rightarrow> string list) \<Rightarrow> FilesystemMonitor \<Rightarrow>
     FilesystemMonitor \<times> Event list" where
  "scan_and_diff env probe walk m = filesystem_diff env (scan_paths probe walk (fm_watch_paths m)) m"

subsection \<open>The contract\<close>

definition file_effect :: "Event \<Rightarrow> string set \<Rightarrow> string set" where
  "file_effect e S =
     (case ev_type e of FileCreated \<Rightarrow> insert (ev_target e) S | FileDeleted \<Rightarrow> S - {ev_target e} | _ \<Rightarrow> S)"

lemma fs_event_fields [simp]:
  "ev_type (fs_event env path t s a) = t" "ev_target (fs_event env path t s a) = path"
  by (simp_all add: fs_event_def)

lemma fs_seen_effect:
  "fold file_effect (fs_seen env k prev v) S = (if prev = None then insert k S else S)"
  by (auto simp: fs_seen_def file_effect_def Let_def split: option.split)

lemma filesystem_poll_effect:
  "fold file_effect (map_diff (fs_seen env) (fs_gone env) prev cur) (fst ` set prev) = fst ` set cur"
  by (rule map_diff_effect) (auto simp: fs_seen_effect fs_gone_def file_effect_def)

interpretation files: snapshot_monitor filesystem_diff "\<lambda>m. fst ` set m" fm_previous_snapshots fm_first_scan
  file_effect "\<lambda>m. distinct (map fst m)"
  by unfold_locales
     (auto simp: filesystem_diff_def filesystem_poll_effect intro!: map_diff_same simp: fs_seen_def)

lemma omap_sorted_scan_root: "omap_sorted m \<Longrightarrow> omap_sorted (scan_root probe walk root m)"
  by (simp add: scan_root_def fold_update_sorted [where f = "\<lambda>e. e"])

lemma omap_sorted_scan: "omap_sorted (scan_paths probe walk paths)"
proof -
  have "omap_sorted m \<Longrightarrow> omap_sorted (fold (scan_root probe walk) paths m)" for m
    by (induction paths arbitrary: m) (auto simp: omap_sorted_scan_root)
  then show ?thesis by (simp add: scan_paths_def)
qed

lemma snapshot_permissions [simp]: "fsn_permissions (snapshot_of probe path) = 0"
  by (simp add: snapshot_of_def Let_def split: option.split)

definition zero_permissions :: "(string, FileSnapshot) omap \<Rightarrow> bool" where
  "zero_permissions m = (\<forall>(p, s) \<in> set m. fsn_permissions s = 0)"

lemma zero_permissions_update: "zero_permissions m \<Longrightarrow> fsn_permissions s = 0 \<Longrightarrow> zero_permissions (omap_update p s m)"
  by (induction p s m rule: omap_update.induct) (auto simp: zero_permissions_def)

lemma zero_permissions_scan: "zero_permissions (scan_paths probe walk paths)"
proof -
  have "zero_permissions m \<Longrightarrow> zero_permissions (fold (\<lambda>e m. omap_update e (snapshot_of probe e) m) es m)" for es m
    by (induction es arbitrary: m) (auto simp: zero_permissions_update)
  then have "zero_permissions m \<Longrightarrow> zero_permissions (scan_root probe walk r m)" for r m
    by (auto simp: scan_root_def zero_permissions_update)
  then have "zero_permissions m \<Longrightarrow> zero_permissions (fold (scan_root probe walk) paths m)" for m
    by (induction paths arbitrary: m) auto
  then have "zero_permissions (fold (scan_root probe walk) paths [])" by (simp add: zero_permissions_def [of "[]"])
  then show ?thesis by (simp add: scan_paths_def)
qed

subsection \<open>Properties\<close>

text \<open>A run of scans, each with its environment.\<close>
fun filesystem_run ::
    "(string poll_env \<times> (string \<Rightarrow> file_probe) \<times> (string \<Rightarrow> string list)) list \<Rightarrow> FilesystemMonitor \<Rightarrow>
     FilesystemMonitor \<times> Event list" where
  "filesystem_run [] m = (m, [])"
| "filesystem_run ((env, probe, walk) # rs) m =
     (let (m1, es) = scan_and_diff env probe walk m; (m2, es') = filesystem_run rs m1 in (m2, es @ es'))"

definition scans_of ::
    "string list \<Rightarrow> (string poll_env \<times> (string \<Rightarrow> file_probe) \<times> (string \<Rightarrow> string list)) list \<Rightarrow>
     (string poll_env \<times> (string, FileSnapshot) omap) list" where
  "scans_of paths rs = map (\<lambda>(env, probe, walk). (env, scan_paths probe walk paths)) rs"

lemma filesystem_run_polls:
  assumes "filesystem_run rs m = (m', es)"
  shows "es = files.poll_events (scans_of (fm_watch_paths m) rs) m \<and>
         fm_previous_snapshots m' = last (fm_previous_snapshots m # map snd (scans_of (fm_watch_paths m) rs))"
  using assms
proof (induction rs m arbitrary: m' es rule: filesystem_run.induct)
  case (2 env probe walk rs m)
  obtain m1 es1 where s: "scan_and_diff env probe walk m = (m1, es1)" by (rule prod.exhaust)
  obtain m2 es2 where r: "filesystem_run rs m1 = (m2, es2)" by (rule prod.exhaust)
  have m1: "fm_watch_paths m1 = fm_watch_paths m" "fm_previous_snapshots m1 = scan_paths probe walk (fm_watch_paths m)"
    "filesystem_diff env (scan_paths probe walk (fm_watch_paths m)) m = (m1, es1)"
    using s by (auto simp: scan_and_diff_def filesystem_diff_def split: if_splits)
  show ?case
    using "2.IH" [OF s [symmetric] refl r] "2.prems" s r m1 by (simp add: scans_of_def)
qed (simp add: scans_of_def)

definition first_scan_or_zero :: "FilesystemMonitor \<Rightarrow> bool" where
  "first_scan_or_zero m = (fm_first_scan m \<or> zero_permissions (fm_previous_snapshots m))"

lemma diff_no_permission_events:
  assumes "first_scan_or_zero m" "zero_permissions cur" "e \<in> set (snd (filesystem_diff env cur m))"
  shows "ev_type e \<noteq> FilePermissionChanged"
proof -
  have "fsn_permissions s = 0" if "map_of (fm_previous_snapshots m) p = Some s" "zero_permissions (fm_previous_snapshots m)" for p s
    using map_of_SomeD [OF that(1)] that(2) by (auto simp: zero_permissions_def)
  then show ?thesis
    using assms
    by (auto simp: first_scan_or_zero_def filesystem_diff_def map_diff_def fs_seen_def fs_gone_def
        zero_permissions_def Let_def split: option.splits if_splits)
qed

lemma no_permission_events:
  assumes "first_scan_or_zero s" "\<forall>(c, q) \<in> set qs. zero_permissions q"
  shows "\<forall>e \<in> set (files.poll_events qs s). ev_type e \<noteq> FilePermissionChanged"
  using assms
proof (induction qs s rule: files.poll_events.induct)
  case (2 env cur qs s)
  then have "first_scan_or_zero (fst (filesystem_diff env cur s))"
    by (simp add: first_scan_or_zero_def filesystem_diff_def)
  with 2 show ?case using diff_no_permission_events by auto
qed simp

lemma filesystem_replay:
  assumes "filesystem_run ((env, probe, walk) # rs) (fst (filesystem_on_start m)) = (m', es)"
  shows "fold file_effect es (fst ` set (scan_paths probe walk (fm_watch_paths m))) =
           fst ` set (fm_previous_snapshots m') \<and>
         (\<forall>e \<in> set es. ev_type e \<noteq> FilePermissionChanged)"
proof -
  define m0 where "m0 = fst (filesystem_on_start m)"
  define cur where "cur = scan_paths probe walk (fm_watch_paths m)"
  define ps where "ps = scans_of (fm_watch_paths m) rs"
  have m0: "fm_first_scan m0" "fm_watch_paths m0 = fm_watch_paths m"
    by (simp_all add: m0_def filesystem_on_start_def)
  have valid: "distinct (map fst (scan_paths pr wk ps))" for pr wk ps
    using omap_sorted_scan by (rule omap_sorted_distinct)
  have es: "es = files.poll_events ((env, cur) # ps) m0" and m': "fm_previous_snapshots m' = last (cur # map snd ps)"
    using filesystem_run_polls [OF assms [folded m0_def]] m0(2)
    by (simp_all add: scans_of_def cur_def ps_def)
  have "fold file_effect es (fst ` set cur) = fst ` set (last (cur # map snd ps))"
    unfolding es by (rule files.run_from_first [OF m0(1)]) (auto simp: valid cur_def ps_def scans_of_def)
  moreover have "\<forall>e \<in> set es. ev_type e \<noteq> FilePermissionChanged"
    unfolding es
  proof (rule no_permission_events)
    show "first_scan_or_zero m0" using m0(1) by (simp add: first_scan_or_zero_def)
    show "\<forall>(c, q) \<in> set ((env, cur) # ps). zero_permissions q"
      by (auto simp: zero_permissions_scan cur_def ps_def scans_of_def)
  qed
  ultimately show ?thesis using m' by (simp add: cur_def)
qed

text \<open>the file events are a faithful account: starting from the files of the first scan after the
  start, replaying the creations and deletions reported in any number of scans gives exactly the
  files of the last scan, and no permission change is ever reported.\<close>
theorem filesystem_events_replay:
  assumes "filesystem_run ((env, probe, walk) # rs) (fst (filesystem_on_start m)) = (m', es)"
  shows "fold file_effect es (fst ` set (scan_paths probe walk (fm_watch_paths m))) =
           fst ` set (fm_previous_snapshots m') \<and>
         (\<forall>e \<in> set es. ev_type e \<noteq> FilePermissionChanged)"
  by (rule filesystem_replay [OF assms])

definition one_file :: "int \<Rightarrow> string \<Rightarrow> file_probe" where
  "one_file t p = \<lparr> fp_exists = (p = ''/tmp'' \<or> t > 0), fp_is_directory = (p = ''/tmp''), fp_file_size = Some 3,
                    fp_mtime_seconds = Some t \<rparr>"

definition demo_env :: "string poll_env" where
  "demo_env = \<lparr> pe_stamp = (\<lambda>_. 0), pe_platform = ''linux'', pe_host = ''h'' \<rparr>"

definition demo_scans :: "(string poll_env \<times> (string \<Rightarrow> file_probe) \<times> (string \<Rightarrow> string list)) list" where
  "demo_scans = [(demo_env, one_file 0, \<lambda>_. []), (demo_env, one_file 5, \<lambda>_. [''/tmp/a'']),
                 (demo_env, one_file 6, \<lambda>_. [''/tmp/a''])]"

definition demo_monitor :: FilesystemMonitor where
  "demo_monitor = add_watch_path ''/tmp'' new_filesystem_monitor"

lemma filesystem_events_replay_witness:
  "fold file_effect (snd (filesystem_run demo_scans (fst (filesystem_on_start demo_monitor)))) {} = {''/tmp/a''} \<and>
   length (snd (filesystem_run demo_scans (fst (filesystem_on_start demo_monitor)))) = 2"
proof -
  have prev: "fm_previous_snapshots (fst (filesystem_run demo_scans (fst (filesystem_on_start demo_monitor)))) =
      [(''/tmp/a'', snapshot_of (one_file 6) ''/tmp/a'')]"
    by code_simp
  have empty: "scan_paths (one_file 0) (\<lambda>_. []) (fm_watch_paths demo_monitor) = []"
    by code_simp
  have "length (snd (filesystem_run demo_scans (fst (filesystem_on_start demo_monitor)))) = 2"
    by code_simp
  then show ?thesis
    using filesystem_events_replay [of demo_env "one_file 0" "\<lambda>_. []" "tl demo_scans" demo_monitor,
        OF prod.collapse [symmetric]] prev empty
    by (simp add: demo_scans_def)
qed

end
