(* ===== verification/Process_Monitor.thy ===== *)
theory Process_Monitor
  imports Monitor
begin

text \<open>
  \<open>monitor/process/process_monitor.h\<close> and \<open>.cpp\<close>: reading \<open>/proc\<close> and reporting started and
  stopped processes.  The directory is a list of entries with the contents of the three files the
  source opens (\<open>None\<close> where the open fails).
\<close>

record ProcessInfo =
  pi_pid :: int
  pi_name :: string
  pi_command_line :: string
  pi_memory_bytes :: int

record proc_entry =
  px_is_directory :: bool
  px_filename :: string
  px_status :: "string option"
  px_cmdline :: "string option"
  px_statm :: "string option"

record ProcessMonitor =
  pm_previous :: "(int, ProcessInfo) omap"
  pm_first_scan :: bool

definition new_process_monitor :: ProcessMonitor where
  "new_process_monitor = \<lparr> pm_previous = [], pm_first_scan = True \<rparr>"

definition process_on_start :: "ProcessMonitor \<Rightarrow> ProcessMonitor \<times> bool" where
  "process_on_start m = (m\<lparr>pm_first_scan := True\<rparr>, True)"

text \<open>The name is taken from the last line that begins with \<open>Name:\<close>.\<close>
definition status_name :: "string \<Rightarrow> string" where
  "status_name c =
     fold (\<lambda>line name. if starts_with line ''Name:'' then dropWhile (\<lambda>c. c = tab) (drop 5 line) else name)
       (getlines c) []"

text \<open>\<open>stream >> size\<close> for a \<open>long long\<close>: zero without a number, the nearest bound out of range.\<close>
definition read_long_long :: "string \<Rightarrow> int" where
  "read_long_long s =
     (case strtol_prefix s of
        None \<Rightarrow> 0
      | Some (v, _) \<Rightarrow> max (- 9223372036854775808) (min v 9223372036854775807))"

definition process_of :: "proc_entry \<Rightarrow> ProcessInfo option" where
  "process_of x =
     (if \<not> px_is_directory x then None
      else if px_filename x = [] \<or> \<not> list_all isdigit (px_filename x) then None
      else (case stoll (px_filename x) of
              None \<Rightarrow> None
            | Some pid \<Rightarrow>
                (let name = (case px_status x of None \<Rightarrow> [] | Some c \<Rightarrow> status_name c);
                     cmd = (case px_cmdline x of
                              None \<Rightarrow> []
                            | Some c \<Rightarrow> map (\<lambda>c. if c = CHR 0x00 then CHR 0x20 else c) c);
                     mem = (case px_statm x of None \<Rightarrow> 0 | Some c \<Rightarrow> read_long_long c * 4096)
                 in if name \<noteq> [] \<or> cmd \<noteq> []
                    then Some \<lparr> pi_pid = pid, pi_name = name, pi_command_line = cmd, pi_memory_bytes = mem \<rparr>
                    else None)))"

definition process_snapshot :: "proc_entry list \<Rightarrow> ProcessInfo list" where
  "process_snapshot entries = List.map_filter process_of entries"

definition process_map :: "ProcessInfo list \<Rightarrow> (int, ProcessInfo) omap" where
  "process_map ps = fold (\<lambda>p m. omap_update (pi_pid p) p m) ps []"

definition process_started :: "int poll_env \<Rightarrow> int \<Rightarrow> ProcessInfo \<Rightarrow> Event" where
  "process_started env pid info =
     (event_default (pe_stamp env pid))
       \<lparr> ev_category := Process, ev_type := ProcessStarted, ev_source := ''process'',
         ev_target := pi_name info @ ''('' @ int_str pid @ '')'',
         ev_summary := ''Process started: '' @ pi_name info,
         ev_attributes := omap_update ''memory_bytes'' (int_str (pi_memory_bytes info))
           (omap_update ''cmdline'' (pi_command_line info)
             (omap_update ''name'' (pi_name info) (omap_update ''pid'' (int_str pid) []))),
         ev_platform := pe_platform env, ev_host := pe_host env \<rparr>"

definition process_stopped :: "int poll_env \<Rightarrow> int \<Rightarrow> ProcessInfo \<Rightarrow> Event" where
  "process_stopped env pid info =
     (event_default (pe_stamp env pid))
       \<lparr> ev_category := Process, ev_type := ProcessStopped, ev_source := ''process'',
         ev_target := pi_name info @ ''('' @ int_str pid @ '')'',
         ev_summary := ''Process stopped: '' @ pi_name info,
         ev_attributes := omap_update ''name'' (pi_name info) (omap_update ''pid'' (int_str pid) []),
         ev_platform := pe_platform env, ev_host := pe_host env \<rparr>"

definition process_seen :: "int poll_env \<Rightarrow> int \<Rightarrow> ProcessInfo option \<Rightarrow> ProcessInfo \<Rightarrow> Event list" where
  "process_seen env pid prev info = (if prev = None then [process_started env pid info] else [])"

definition process_gone :: "int poll_env \<Rightarrow> int \<Rightarrow> ProcessInfo \<Rightarrow> Event list" where
  "process_gone env pid info = [process_stopped env pid info]"

text \<open>\<open>tick\<close> after the snapshot has been put into a map.\<close>
definition process_diff ::
    "int poll_env \<Rightarrow> (int, ProcessInfo) omap \<Rightarrow> ProcessMonitor \<Rightarrow> ProcessMonitor \<times> Event list" where
  "process_diff env current m =
     (if pm_first_scan m then (m\<lparr>pm_first_scan := False, pm_previous := current\<rparr>, [])
      else (m\<lparr>pm_first_scan := False, pm_previous := current\<rparr>,
            map_diff (process_seen env) (process_gone env) (pm_previous m) current))"

definition process_tick :: "int poll_env \<Rightarrow> proc_entry list \<Rightarrow> ProcessMonitor \<Rightarrow> ProcessMonitor \<times> Event list" where
  "process_tick env entries m = process_diff env (process_map (process_snapshot entries)) m"

subsection \<open>The contract\<close>

text \<open>The process identifier is read back from the attribute.\<close>
definition process_effect :: "Event \<Rightarrow> int set \<Rightarrow> int set" where
  "process_effect e S =
     (case Option.bind (map_of (ev_attributes e) ''pid'') stoll of
        None \<Rightarrow> S
      | Some pid \<Rightarrow>
          (case ev_type e of ProcessStarted \<Rightarrow> insert pid S | ProcessStopped \<Rightarrow> S - {pid} | _ \<Rightarrow> S))"

definition valid_processes :: "(int, ProcessInfo) omap \<Rightarrow> bool" where
  "valid_processes m = (distinct (map fst m) \<and> (\<forall>k \<in> fst ` set m. in_int64 k))"

lemma process_event_effect:
  assumes "in_int64 pid"
  shows "process_effect (process_started env pid info) S = insert pid S"
    "process_effect (process_stopped env pid info) S = S - {pid}"
  using assms
  by (simp_all add: process_effect_def process_started_def process_stopped_def stoll_int_str del: omap_update.simps)

lemma process_poll_effect:
  assumes "valid_processes prev" "valid_processes cur"
  shows "fold process_effect (map_diff (process_seen env) (process_gone env) prev cur) (fst ` set prev) =
         fst ` set cur"
proof (rule map_diff_effect)
  show "fold process_effect (process_seen env k (map_of prev k) v) S =
      (if map_of prev k = None then insert k S else S)" if "(k, v) \<in> set cur" for k v S
  proof -
    have "in_int64 k" using assms(2) that by (force simp: valid_processes_def)
    then show ?thesis by (simp add: process_seen_def process_event_effect)
  qed
  show "fold process_effect (process_gone env k v) S = S - {k}" if "(k, v) \<in> set prev" for k v S
  proof -
    have "in_int64 k" using assms(1) that by (force simp: valid_processes_def)
    then show ?thesis by (simp add: process_gone_def process_event_effect)
  qed
qed

interpretation processes: snapshot_monitor process_diff "\<lambda>m. fst ` set m" pm_previous pm_first_scan
  process_effect valid_processes
  by unfold_locales
     (auto simp: process_diff_def process_poll_effect valid_processes_def process_seen_def intro!: map_diff_same)

lemma process_of_pid: "process_of x = Some p \<Longrightarrow> in_int64 (pi_pid p)"
  by (auto simp: process_of_def stoll_def Let_def split: if_splits option.splits prod.splits)

lemma map_filter_Some: "y \<in> set (List.map_filter f xs) \<Longrightarrow> \<exists>x. f x = Some y"
  by (induction xs) (auto simp: List.map_filter_def split: if_splits)

lemma process_map_valid: "valid_processes (process_map (process_snapshot entries))"
proof -
  have "in_int64 (pi_pid p)" if "p \<in> set (process_snapshot entries)" for p
    using that by (auto simp: process_snapshot_def dest!: map_filter_Some intro: process_of_pid)
  then have *: "\<forall>p \<in> set (process_snapshot entries). in_int64 (pi_pid p)" by blast
  show ?thesis
    using * unfolding valid_processes_def process_map_def fold_update_keys
    by (auto intro!: omap_sorted_distinct fold_update_sorted)
qed

subsection \<open>Properties\<close>

definition process_scans :: "(int poll_env \<times> proc_entry list) list \<Rightarrow> (int poll_env \<times> (int, ProcessInfo) omap) list" where
  "process_scans ts = map (\<lambda>(env, entries). (env, process_map (process_snapshot entries))) ts"

text \<open>The events of a run of ticks.\<close>
fun process_run :: "(int poll_env \<times> proc_entry list) list \<Rightarrow> ProcessMonitor \<Rightarrow> Event list" where
  "process_run [] m = []"
| "process_run ((env, entries) # ts) m =
     (let (m1, es) = process_tick env entries m in es @ process_run ts m1)"

lemma process_run_polls: "process_run ts m = processes.poll_events (process_scans ts) m"
  by (induction ts m rule: process_run.induct)
     (auto simp: process_scans_def process_tick_def split: prod.split)

text \<open>replaying the started and stopped events of any number of ticks after the start, from the
  processes of the first tick, gives exactly the processes of the last tick; the identifier is
  recovered from the text of the attribute.\<close>
theorem process_events_replay:
  "fold process_effect (process_run ((env, entries) # ts) (fst (process_on_start m)))
     (pi_pid ` set (process_snapshot entries)) =
   pi_pid ` set (process_snapshot (last (entries # map snd ts)))"
proof -
  have keys: "fst ` set (process_map ps) = pi_pid ` set ps" for ps
    by (simp add: process_map_def fold_update_keys)
  let ?cur = "process_map (process_snapshot entries)"
  have "map snd (process_scans ts) = map (\<lambda>es. process_map (process_snapshot es)) (map snd ts)"
    by (auto simp: process_scans_def)
  then have l: "last (?cur # map snd (process_scans ts)) = process_map (process_snapshot (last (entries # map snd ts)))"
    by (simp add: last_map)
  have "fold process_effect (processes.poll_events ((env, ?cur) # process_scans ts) (fst (process_on_start m)))
      (fst ` set ?cur) = fst ` set (last (?cur # map snd (process_scans ts)))"
    by (rule processes.run_from_first) (auto simp: process_on_start_def process_scans_def process_map_valid)
  then show ?thesis
    unfolding process_run_polls l keys by (simp add: process_scans_def)
qed

end
