(* ===== verification/Network_Monitor.thy ===== *)
theory Network_Monitor
  imports Monitor
begin

text \<open>
  \<open>monitor/network/network_monitor.h\<close> and \<open>.cpp\<close>: the connections of \<open>/proc/net\<close>.  A snapshot is
  the list of the parsed lines; two connections are the same if their protocol and addresses are.
  A connection listed twice is reported twice, so events are stamped by their place in the loop.
\<close>

record NetworkConnection =
  nc_protocol :: string
  nc_local_address :: string
  nc_remote_address :: string
  nc_state :: string

record NetworkMonitor =
  nm_previous :: "NetworkConnection list"
  nm_first_scan :: bool

definition new_network_monitor :: NetworkMonitor where
  "new_network_monitor = \<lparr> nm_previous = [], nm_first_scan = True \<rparr>"

definition network_on_start :: "NetworkMonitor \<Rightarrow> NetworkMonitor \<times> bool" where
  "network_on_start m = (m\<lparr>nm_first_scan := True\<rparr>, True)"

definition connection_of_line :: "string \<Rightarrow> string \<Rightarrow> NetworkConnection option" where
  "connection_of_line proto line =
     (let ts = ws_tokens line;
          local = nth_token 1 ts; remote = nth_token 2 ts; state_tok = nth_token 3 ts
      in if local \<noteq> [] \<and> remote \<noteq> []
         then Some \<lparr> nc_protocol = proto, nc_local_address = local, nc_remote_address = remote, nc_state = state_tok \<rparr>
         else None)"

text \<open>The first line of a file is its header.\<close>
definition parse_net_file :: "(string \<Rightarrow> string option) \<Rightarrow> string \<Rightarrow> string \<Rightarrow> NetworkConnection list" where
  "parse_net_file read path proto =
     (case read path of
        None \<Rightarrow> []
      | Some c \<Rightarrow> List.map_filter (connection_of_line proto) (drop 1 (getlines c)))"

definition snapshot_connections :: "(string \<Rightarrow> string option) \<Rightarrow> NetworkConnection list" where
  "snapshot_connections read =
     parse_net_file read ''/proc/net/tcp'' ''tcp'' @ parse_net_file read ''/proc/net/udp'' ''udp'' @
     parse_net_file read ''/proc/net/tcp6'' ''tcp6'' @ parse_net_file read ''/proc/net/udp6'' ''udp6''"

definition make_key :: "NetworkConnection \<Rightarrow> string" where
  "make_key c = nc_protocol c @ ''|'' @ nc_local_address c @ ''|'' @ nc_remote_address c"

definition connection_opened :: "nat poll_env \<Rightarrow> nat \<Rightarrow> NetworkConnection \<Rightarrow> Event" where
  "connection_opened env i c =
     (event_default (pe_stamp env i))
       \<lparr> ev_category := Network, ev_type := NetworkConnectionOpened, ev_source := ''network'',
         ev_target := nc_remote_address c,
         ev_summary := ''Connection opened: '' @ nc_protocol c @ '' '' @ nc_local_address c @ '' -> '' @ nc_remote_address c,
         ev_attributes := omap_update ''state'' (nc_state c) (omap_update ''remote'' (nc_remote_address c)
           (omap_update ''local'' (nc_local_address c) (omap_update ''protocol'' (nc_protocol c) []))),
         ev_platform := pe_platform env, ev_host := pe_host env \<rparr>"

definition connection_closed :: "nat poll_env \<Rightarrow> nat \<Rightarrow> NetworkConnection \<Rightarrow> Event" where
  "connection_closed env i c =
     (event_default (pe_stamp env i))
       \<lparr> ev_category := Network, ev_type := NetworkConnectionClosed, ev_source := ''network'',
         ev_target := nc_remote_address c,
         ev_summary := ''Connection closed: '' @ nc_protocol c @ '' '' @ nc_local_address c @ '' -> '' @ nc_remote_address c,
         ev_attributes := omap_update ''remote'' (nc_remote_address c)
           (omap_update ''local'' (nc_local_address c) (omap_update ''protocol'' (nc_protocol c) [])),
         ev_platform := pe_platform env, ev_host := pe_host env \<rparr>"

definition network_events :: "nat poll_env \<Rightarrow> NetworkConnection list \<Rightarrow> NetworkConnection list \<Rightarrow> Event list" where
  "network_events env previous current =
     (let current_keys = make_key ` set current; previous_keys = make_key ` set previous in
      concat (map (\<lambda>(i, c). if make_key c \<notin> previous_keys then [connection_opened env i c] else [])
                (enumerate 0 current)) @
      concat (map (\<lambda>(i, c). if make_key c \<notin> current_keys then [connection_closed env i c] else [])
                (enumerate (length current) previous)))"

definition network_diff ::
    "nat poll_env \<Rightarrow> NetworkConnection list \<Rightarrow> NetworkMonitor \<Rightarrow> NetworkMonitor \<times> Event list" where
  "network_diff env current m =
     (\<lparr> nm_previous = current, nm_first_scan = False \<rparr>,
      if nm_first_scan m then [] else network_events env (nm_previous m) current)"

definition network_tick :: "nat poll_env \<Rightarrow> (string \<Rightarrow> string option) \<Rightarrow> NetworkMonitor \<Rightarrow> NetworkMonitor \<times> Event list" where
  "network_tick env read m = network_diff env (snapshot_connections read) m"

subsection \<open>The contract\<close>

definition connection_key :: "Event \<Rightarrow> string" where
  "connection_key e =
     (let a = omap_get [] (ev_attributes e) in a ''protocol'' @ ''|'' @ a ''local'' @ ''|'' @ a ''remote'')"

definition connection_effect :: "Event \<Rightarrow> string set \<Rightarrow> string set" where
  "connection_effect e S =
     (case ev_type e of
        NetworkConnectionOpened \<Rightarrow> insert (connection_key e) S
      | NetworkConnectionClosed \<Rightarrow> S - {connection_key e}
      | _ \<Rightarrow> S)"

lemma connection_event_effect:
  "connection_effect (connection_opened env i c) S = insert (make_key c) S"
  "connection_effect (connection_closed env i c) S = S - {make_key c}"
  by (simp_all add: connection_effect_def connection_key_def connection_opened_def connection_closed_def
      make_key_def Let_def del: omap_update.simps)

lemma fold_enumerate_insert:
  "fold (\<lambda>(i, c) S. if P (f c) then insert (f c) S else S) (enumerate n cs) S = S \<union> {k \<in> f ` set cs. P k}"
  by (induction cs arbitrary: n S) (auto split: if_splits)

lemma fold_enumerate_remove:
  "fold (\<lambda>(i, c) S. if P (f c) then S - {f c} else S) (enumerate n cs) S = S - {k \<in> f ` set cs. P k}"
  by (induction cs arbitrary: n S) (auto split: if_splits)

lemma network_effect:
  "fold connection_effect (network_events env prev cur) (make_key ` set prev) = make_key ` set cur"
proof -
  have "fold connection_effect (concat (map (\<lambda>(i, c). if make_key c \<notin> K then [connection_opened env i c] else []) (enumerate n cs))) S =
      fold (\<lambda>(i, c) S. if make_key c \<notin> K then insert (make_key c) S else S) (enumerate n cs) S" for K n cs S
    by (rule fold_effect_concat) (auto simp: connection_event_effect)
  moreover have "fold connection_effect (concat (map (\<lambda>(i, c). if make_key c \<notin> K then [connection_closed env i c] else []) (enumerate n cs))) S =
      fold (\<lambda>(i, c) S. if make_key c \<notin> K then S - {make_key c} else S) (enumerate n cs) S" for K n cs S
    by (rule fold_effect_concat) (auto simp: connection_event_effect)
  ultimately have "fold connection_effect (network_events env prev cur) (make_key ` set prev) =
      (make_key ` set prev \<union> {k \<in> make_key ` set cur. k \<notin> make_key ` set prev}) -
        {k \<in> make_key ` set prev. k \<notin> make_key ` set cur}"
    by (simp add: network_events_def Let_def fold_enumerate_insert [of "\<lambda>k. k \<notin> make_key ` set prev" make_key]
        fold_enumerate_remove [of "\<lambda>k. k \<notin> make_key ` set cur" make_key])
  then show ?thesis by blast
qed

lemma network_same: "network_events env cur cur = []"
proof -
  have "make_key c \<in> make_key ` set cs" if "(i, c) \<in> set (enumerate n cs)" for i n c cs
    using that by (auto simp: in_set_enumerate_eq)
  then show ?thesis by (auto simp: network_events_def Let_def)
qed

interpretation connections: snapshot_monitor network_diff "\<lambda>cs. make_key ` set cs" nm_previous nm_first_scan
  connection_effect "\<lambda>_. True"
  by unfold_locales (auto simp: network_diff_def network_effect network_same)

end
