(* ===== verification/Port_Monitor.thy ===== *)
theory Port_Monitor
  imports Monitor Json_Text
begin

text \<open>
  \<open>monitor/port/port_monitor.h\<close> and \<open>.cpp\<close>, Linux: the watched local ports of \<open>/proc/net\<close>.  The
  function-local \<open>static last_snapshot\<close> is a field of the state; there is one monitor, and the variable
  starts empty, so the first poll reports every port in use as new.
\<close>

record PortInfo =
  po_port :: int
  po_protocol :: string
  po_state :: string
  po_process :: string
  po_address :: string

record PortMonitor =
  pom_watch_ports :: "int list"
  pom_last_snapshot :: "(int, PortInfo) omap"

definition new_port_monitor :: PortMonitor where
  "new_port_monitor = \<lparr> pom_watch_ports = [22, 80, 443, 3306, 5432, 6379, 8080, 8443], pom_last_snapshot = [] \<rparr>"

definition set_watch_ports :: "int list \<Rightarrow> PortMonitor \<Rightarrow> PortMonitor" where
  "set_watch_ports ports m = m\<lparr>pom_watch_ports := ports\<rparr>"

text \<open>\<open>std::stoi(s, nullptr, 16)\<close>\<close>
definition stoi16 :: "string \<Rightarrow> int option" where
  "stoi16 s =
     (let s1 = dropWhile isspace s;
          neg = (s1 \<noteq> [] \<and> hd s1 = CHR ''-'');
          s2 = (if s1 \<noteq> [] \<and> (hd s1 = CHR ''-'' \<or> hd s1 = CHR ''+'') then tl s1 else s1);
          s3 = (if length s2 > 2 \<and> s2 ! 0 = CHR ''0'' \<and> (s2 ! 1 = CHR ''x'' \<or> s2 ! 1 = CHR ''X'') \<and>
                   hex_val (s2 ! 2) \<noteq> None then drop 2 s2 else s2);
          ds = takeWhile (\<lambda>c. hex_val c \<noteq> None) s3;
          v = foldl (\<lambda>n c. 16 * n + int (the (hex_val c))) 0 ds;
          v' = (if neg then - v else v)
      in if ds = [] then None else if in_int32 v' then Some v' else None)"

definition port_of_line :: "int list \<Rightarrow> string \<Rightarrow> string \<Rightarrow> PortInfo option" where
  "port_of_line watch proto line =
     (let ts = ws_tokens line; local_addr = nth_token 1 ts; state = nth_token 3 ts in
      case find_str '':'' local_addr of
        None \<Rightarrow> None
      | Some colon_pos \<Rightarrow>
          (case stoi16 (drop (colon_pos + 1) local_addr) of
             None \<Rightarrow> None
           | Some port \<Rightarrow>
               (if port \<notin> set watch then None
                else Some \<lparr> po_port = port, po_protocol = proto,
                            po_state = (if state = ''0A'' then ''LISTEN''
                                        else if state = ''01'' then ''ESTABLISHED'' else ''OTHER''),
                            po_process = ''unknown'', po_address = take colon_pos local_addr \<rparr>)))"

definition parse_proc_net ::
    "int list \<Rightarrow> (string \<Rightarrow> string option) \<Rightarrow> string \<Rightarrow> string \<Rightarrow> (int, PortInfo) omap \<Rightarrow> (int, PortInfo) omap" where
  "parse_proc_net watch read path proto result =
     (case read path of
        None \<Rightarrow> result
      | Some c \<Rightarrow> fold (\<lambda>p m. omap_update (po_port p) p m)
                    (List.map_filter (port_of_line watch proto) (drop 1 (getlines c))) result)"

definition snapshot_ports :: "int list \<Rightarrow> (string \<Rightarrow> string option) \<Rightarrow> (int, PortInfo) omap" where
  "snapshot_ports watch read =
     parse_proc_net watch read ''/proc/net/udp'' ''UDP''
       (parse_proc_net watch read ''/proc/net/tcp6'' ''TCP6''
         (parse_proc_net watch read ''/proc/net/tcp'' ''TCP'' []))"

definition port_event :: "timestamp \<Rightarrow> EventType \<Rightarrow> int \<Rightarrow> string \<Rightarrow> (string, string) omap \<Rightarrow> Event" where
  "port_event t ty port summary attrs =
     (event_default t)\<lparr> ev_category := Network, ev_type := ty, ev_source := ''port_monitor'',
       ev_target := int_str port, ev_summary := summary, ev_attributes := attrs \<rparr>"

definition port_opened :: "timestamp \<Rightarrow> int \<Rightarrow> PortInfo \<Rightarrow> Event" where
  "port_opened t port info =
     port_event t NetworkConnectionOpened port (''Port '' @ int_str port @ '' is now '' @ po_state info)
       (omap_update ''address'' (po_address info)
         (omap_update ''state'' (po_state info) (omap_update ''protocol'' (po_protocol info) [])))"

definition port_closed :: "timestamp \<Rightarrow> int \<Rightarrow> PortInfo \<Rightarrow> Event" where
  "port_closed t port info =
     port_event t NetworkConnectionClosed port (''Port '' @ int_str port @ '' is no longer listening'')
       (omap_update ''previous_state'' (po_state info) (omap_update ''protocol'' (po_protocol info) []))"

definition port_changed :: "timestamp \<Rightarrow> int \<Rightarrow> PortInfo \<Rightarrow> PortInfo \<Rightarrow> Event" where
  "port_changed t port prev info =
     port_event t NetworkConnectionOpened port
       (''Port '' @ int_str port @ '' state changed: '' @ po_state prev @ '' -> '' @ po_state info)
       (omap_update ''new_state'' (po_state info)
         (omap_update ''previous_state'' (po_state prev) (omap_update ''protocol'' (po_protocol info) [])))"

definition port_events :: "(int \<Rightarrow> timestamp) \<Rightarrow> (int, PortInfo) omap \<Rightarrow> (int, PortInfo) omap \<Rightarrow> Event list" where
  "port_events stamp last_snapshot current =
     map_diff (\<lambda>port prev info. if prev = None then [port_opened (stamp port) port info] else [])
              (\<lambda>port info. [port_closed (stamp port) port info]) last_snapshot current @
     concat (map (\<lambda>(port, info).
       (case map_of last_snapshot port of
          None \<Rightarrow> []
        | Some prev \<Rightarrow>
            (if po_state prev \<noteq> po_state info then [port_changed (stamp port) port prev info] else []))) current)"

definition port_diff :: "(int \<Rightarrow> timestamp) \<Rightarrow> (int, PortInfo) omap \<Rightarrow> PortMonitor \<Rightarrow> PortMonitor \<times> Event list" where
  "port_diff stamp current m =
     (m\<lparr>pom_last_snapshot := current\<rparr>, port_events stamp (pom_last_snapshot m) current)"

definition port_poll :: "(int \<Rightarrow> timestamp) \<Rightarrow> (string \<Rightarrow> string option) \<Rightarrow> PortMonitor \<Rightarrow> PortMonitor \<times> Event list" where
  "port_poll stamp read m = port_diff stamp (snapshot_ports (pom_watch_ports m) read) m"

subsection \<open>The contract\<close>

definition port_effect :: "Event \<Rightarrow> int set \<Rightarrow> int set" where
  "port_effect e S =
     (case stoi (ev_target e) of
        None \<Rightarrow> S
      | Some port \<Rightarrow>
          (case ev_type e of
             NetworkConnectionOpened \<Rightarrow> insert port S | NetworkConnectionClosed \<Rightarrow> S - {port} | _ \<Rightarrow> S))"

definition valid_ports :: "(int, PortInfo) omap \<Rightarrow> bool" where
  "valid_ports m = (distinct (map fst m) \<and> (\<forall>k \<in> fst ` set m. in_int32 k))"

lemma port_event_effect:
  assumes "in_int32 port"
  shows "port_effect (port_opened t port i) S = insert port S" "port_effect (port_closed t port i) S = S - {port}"
    "port_effect (port_changed t port p i) S = insert port S"
  using assms
  by (simp_all add: port_effect_def port_opened_def port_closed_def port_changed_def port_event_def stoi_int_str)

lemma port_changes_keep:
  assumes "valid_ports cur" "fst ` set cur \<subseteq> S"
  shows "fold port_effect (concat (map (\<lambda>(port, info).
       (case map_of prev port of
          None \<Rightarrow> []
        | Some p \<Rightarrow> (if po_state p \<noteq> po_state info then [port_changed (stamp port) port p info] else []))) cur)) S = S"
proof -
  have keep: "fold port_effect es S = S" if "\<forall>e \<in> set es. \<exists>p i q. in_int32 p \<and> p \<in> S \<and> e = port_changed (stamp p) p i q" for es
    using that by (induction es) (auto simp: port_event_effect insert_absorb)
  have "in_int32 k \<and> k \<in> S" if "(k, v) \<in> set cur" for k v
    using that assms by (force simp: valid_ports_def)
  then show ?thesis
    by (intro keep) (auto split: option.splits if_splits)
qed

lemma port_poll_effect:
  assumes "valid_ports prev" "valid_ports cur"
  shows "fold port_effect (port_events stamp prev cur) (fst ` set prev) = fst ` set cur"
proof -
  have i: "in_int32 k" if "(k, v) \<in> set m" "valid_ports m" for k v m
    using that by (force simp: valid_ports_def)
  have "fold port_effect (map_diff (\<lambda>port prev info. if prev = None then [port_opened (stamp port) port info] else [])
      (\<lambda>port info. [port_closed (stamp port) port info]) prev cur) (fst ` set prev) = fst ` set cur"
    using i assms by (intro map_diff_effect) (auto simp: port_event_effect)
  then show ?thesis
    by (simp add: port_events_def port_changes_keep [OF assms(2)])
qed

lemma port_same:
  assumes "distinct (map fst cur)"
  shows "port_events stamp cur cur = []"
proof -
  have "map_of cur k = Some v" if "(k, v) \<in> set cur" for k v using assms that by simp
  then show ?thesis
    using assms by (auto simp: port_events_def intro!: map_diff_same)
qed

interpretation ports: snapshot_monitor port_diff "\<lambda>m. fst ` set m" pom_last_snapshot "\<lambda>_. False" port_effect valid_ports
  by unfold_locales (auto simp: port_diff_def port_poll_effect port_same valid_ports_def)

end
