(* ===== verification/Environment_Monitor.thy ===== *)
theory Environment_Monitor
  imports Monitor
begin

text \<open>
  \<open>monitor/environment/environment_monitor.h\<close> and \<open>.cpp\<close>: the watched variables of the process
  environment.  \<open>environ\<close> is a list of entries, \<open>None\<close> for the null pointer.  As in the port monitor
  the static snapshot is a field that starts empty.
\<close>

record EnvironmentMonitor =
  em_watch_variables :: "string list"
  em_track_all :: bool
  em_last_snapshot :: "(string, string) omap"

definition new_environment_monitor :: EnvironmentMonitor where
  "new_environment_monitor =
     \<lparr> em_watch_variables = [''PATH'', ''HOME'', ''USER'', ''SHELL'', ''LANG'', ''LC_ALL'', ''LD_LIBRARY_PATH'',
         ''PYTHONPATH'', ''JAVA_HOME'', ''HTTP_PROXY'', ''HTTPS_PROXY'', ''NO_PROXY'', ''SSH_AUTH_SOCK'',
         ''GPG_AGENT_INFO''],
       em_track_all = False, em_last_snapshot = [] \<rparr>"

definition set_watch_variables :: "string list \<Rightarrow> EnvironmentMonitor \<Rightarrow> EnvironmentMonitor" where
  "set_watch_variables vars m = m\<lparr>em_watch_variables := vars, em_track_all := (vars = [])\<rparr>"

definition add_variable :: "EnvironmentMonitor \<Rightarrow> string \<Rightarrow> (string, string) omap \<Rightarrow> (string, string) omap" where
  "add_variable m entry result =
     (case find_str ''='' entry of
        None \<Rightarrow> result
      | Some eq_pos \<Rightarrow>
          (let name = take eq_pos entry; value = drop (eq_pos + 1) entry in
           if em_track_all m \<or> name \<in> set (em_watch_variables m) then omap_update name value result else result))"

definition snapshot_environment :: "EnvironmentMonitor \<Rightarrow> string list option \<Rightarrow> (string, string) omap" where
  "snapshot_environment m environ =
     (case environ of None \<Rightarrow> [] | Some entries \<Rightarrow> fold (add_variable m) entries [])"

definition env_event :: "timestamp \<Rightarrow> string \<Rightarrow> string \<Rightarrow> (string, string) omap \<Rightarrow> Event" where
  "env_event t name summary attrs =
     (event_default t)\<lparr> ev_category := System, ev_type := ConfigValueChanged, ev_source := ''environment_monitor'',
       ev_target := name, ev_summary := summary, ev_attributes := attrs \<rparr>"

definition env_set :: "timestamp \<Rightarrow> string \<Rightarrow> string \<Rightarrow> Event" where
  "env_set t name v =
     env_event t name (''Environment variable set: '' @ name)
       (omap_update ''value'' v (omap_update ''action'' ''set'' []))"

definition env_unset :: "timestamp \<Rightarrow> string \<Rightarrow> string \<Rightarrow> Event" where
  "env_unset t name v =
     env_event t name (''Environment variable unset: '' @ name)
       (omap_update ''old_value'' v (omap_update ''action'' ''unset'' []))"

definition env_changed :: "timestamp \<Rightarrow> string \<Rightarrow> string \<Rightarrow> string \<Rightarrow> Event" where
  "env_changed t name old v =
     env_event t name (''Environment variable changed: '' @ name)
       (omap_update ''new_value'' v (omap_update ''old_value'' old (omap_update ''action'' ''changed'' [])))"

definition environment_events :: "(string \<Rightarrow> timestamp) \<Rightarrow> (string, string) omap \<Rightarrow> (string, string) omap \<Rightarrow> Event list" where
  "environment_events stamp last_snapshot current =
     map_diff (\<lambda>name prev v. if prev = None then [env_set (stamp name) name v] else [])
              (\<lambda>name v. [env_unset (stamp name) name v]) last_snapshot current @
     concat (map (\<lambda>(name, v).
       (case map_of last_snapshot name of
          None \<Rightarrow> []
        | Some old \<Rightarrow> (if old \<noteq> v then [env_changed (stamp name) name old v] else []))) current)"

definition environment_diff ::
    "(string \<Rightarrow> timestamp) \<Rightarrow> (string, string) omap \<Rightarrow> EnvironmentMonitor \<Rightarrow> EnvironmentMonitor \<times> Event list" where
  "environment_diff stamp current m =
     (m\<lparr>em_last_snapshot := current\<rparr>, environment_events stamp (em_last_snapshot m) current)"

definition environment_poll ::
    "(string \<Rightarrow> timestamp) \<Rightarrow> string list option \<Rightarrow> EnvironmentMonitor \<Rightarrow> EnvironmentMonitor \<times> Event list" where
  "environment_poll stamp environ m = environment_diff stamp (snapshot_environment m environ) m"

subsection \<open>The contract\<close>

text \<open>The events carry the values, so replaying them rebuilds the variables and their values: the keys of
  the contract are the pairs.\<close>
definition env_effect :: "Event \<Rightarrow> (string \<times> string) set \<Rightarrow> (string \<times> string) set" where
  "env_effect e S =
     (let n = ev_target e; a = omap_get [] (ev_attributes e); rest = {p \<in> S. fst p \<noteq> n} in
      if a ''action'' = ''set'' then insert (n, a ''value'') rest
      else if a ''action'' = ''unset'' then rest
      else insert (n, a ''new_value'') rest)"

lemma env_event_effect:
  "env_effect (env_set t n v) S = insert (n, v) {p \<in> S. fst p \<noteq> n}"
  "env_effect (env_unset t n v) S = {p \<in> S. fst p \<noteq> n}"
  "env_effect (env_changed t n old v) S = insert (n, v) {p \<in> S. fst p \<noteq> n}"
  by (simp_all add: env_effect_def env_set_def env_unset_def env_changed_def env_event_def Let_def
      del: omap_update.simps)

text \<open>What the three loops do to the pairs of the last snapshot, one variable at a time.\<close>
definition env_touch :: "(string, string) omap \<Rightarrow> string \<Rightarrow> Event \<Rightarrow> bool" where
  "env_touch cur n e = (ev_target e = n \<and> (\<forall>S. env_effect e S = {p \<in> S. fst p \<noteq> n} \<union> {(k, v) \<in> set cur. k = n}))"

lemma fold_touch:
  assumes "\<forall>e \<in> set es. env_touch cur (ev_target e) e"
  shows "fold env_effect es S =
     {p \<in> S. fst p \<notin> ev_target ` set es} \<union> {p \<in> set cur. fst p \<in> ev_target ` set es}"
  using assms
proof (induction es arbitrary: S)
  case (Cons e es)
  then have "env_effect e S = {p \<in> S. fst p \<noteq> ev_target e} \<union> {p \<in> set cur. fst p = ev_target e}"
    by (auto simp: env_touch_def)
  with Cons show ?case by auto
qed simp

lemma environment_touches:
  assumes "distinct (map fst prev)" "distinct (map fst cur)" "e \<in> set (environment_events stamp prev cur)"
  shows "env_touch cur (ev_target e) e"
proof -
  have mem: "(k, v) \<in> set cur \<longleftrightarrow> map_of cur k = Some v" for k v using assms(2) by simp
  have targets: "ev_target (env_set t n v) = n" "ev_target (env_unset t n v) = n" "ev_target (env_changed t n w v) = n" for t n v w
    by (simp_all add: env_set_def env_unset_def env_changed_def env_event_def)
  show ?thesis
    using assms(3)
    by (auto simp: environment_events_def map_diff_def env_touch_def env_event_effect targets mem
        split: if_splits option.splits)
qed

lemma environment_targets:
  assumes "distinct (map fst prev)" "distinct (map fst cur)"
  shows "ev_target ` set (environment_events stamp prev cur) = {k. map_of prev k \<noteq> map_of cur k}"
proof -
  have targets: "ev_target (env_set t n v) = n" "ev_target (env_unset t n v) = n" "ev_target (env_changed t n w v) = n" for t n v w
    by (simp_all add: env_set_def env_unset_def env_changed_def env_event_def)
  have mem: "(k, v) \<in> set cur \<longleftrightarrow> map_of cur k = Some v" "(k, v) \<in> set prev \<longleftrightarrow> map_of prev k = Some v" for k v
    using assms by simp_all
  have new: "ev_target ` set (concat (map (\<lambda>(k, v). if map_of prev k = None then [env_set (stamp k) k v] else []) cur)) =
      {k. \<exists>v. (k, v) \<in> set cur \<and> map_of prev k = None}"
    by (subst loop_targets) (auto simp: targets split: if_splits)
  have gone: "ev_target ` set (concat (map (\<lambda>(k, v). if map_of cur k = None then [env_unset (stamp k) k v] else []) prev)) =
      {k. \<exists>v. (k, v) \<in> set prev \<and> map_of cur k = None}"
    by (subst loop_targets) (auto simp: targets split: if_splits)
  have changed: "ev_target ` set (concat (map (\<lambda>(k, v). case map_of prev k of None \<Rightarrow> []
          | Some old \<Rightarrow> (if old \<noteq> v then [env_changed (stamp k) k old v] else [])) cur)) =
      {k. \<exists>v. (k, v) \<in> set cur \<and> (\<exists>old. map_of prev k = Some old \<and> old \<noteq> v)}"
    by (subst loop_targets) (auto simp: targets split: if_splits option.splits, blast)
  have "ev_target ` set (environment_events stamp prev cur) =
      {k. \<exists>v. (k, v) \<in> set cur \<and> map_of prev k = None} \<union> {k. \<exists>v. (k, v) \<in> set prev \<and> map_of cur k = None} \<union>
      {k. \<exists>v. (k, v) \<in> set cur \<and> (\<exists>old. map_of prev k = Some old \<and> old \<noteq> v)}"
    unfolding environment_events_def map_diff_def set_append image_Un new gone changed ..
  also have "\<dots> = {k. map_of prev k \<noteq> map_of cur k}"
    unfolding mem by (auto; metis not_None_eq)
  finally show ?thesis .
qed

lemma environment_effect:
  assumes "distinct (map fst prev)" "distinct (map fst cur)"
  shows "fold env_effect (environment_events stamp prev cur) (set prev) = set cur"
proof -
  have "fold env_effect (environment_events stamp prev cur) (set prev) =
      {p \<in> set prev. map_of prev (fst p) = map_of cur (fst p)} \<union> {p \<in> set cur. map_of prev (fst p) \<noteq> map_of cur (fst p)}"
    using fold_touch [of "environment_events stamp prev cur" cur "set prev"] environment_touches [OF assms]
    by (simp add: environment_targets [OF assms])
  also have "\<dots> = set cur"
    using assms by (auto simp: map_of_eq_Some_iff)
  finally show ?thesis .
qed

lemma environment_same: "distinct (map fst cur) \<Longrightarrow> environment_events stamp cur cur = []"
  using environment_targets [of cur cur stamp] by simp

interpretation variables: snapshot_monitor environment_diff set em_last_snapshot "\<lambda>_. False" env_effect
  "\<lambda>m. distinct (map fst m)"
  by unfold_locales (auto simp: environment_diff_def environment_effect environment_same)

lemma omap_sorted_environment: "omap_sorted (snapshot_environment m environ)"
proof -
  have "omap_sorted r \<Longrightarrow> omap_sorted (fold (add_variable m) es r)" for es r
    by (induction es arbitrary: r) (auto simp: add_variable_def Let_def split: option.split)
  then show ?thesis by (simp add: snapshot_environment_def split: option.split)
qed

subsection \<open>Properties\<close>

fun environment_run :: "((string \<Rightarrow> timestamp) \<times> string list option) list \<Rightarrow> EnvironmentMonitor \<Rightarrow> Event list" where
  "environment_run [] m = []"
| "environment_run ((stamp, environ) # ps) m =
     (let (m1, es) = environment_poll stamp environ m in es @ environment_run ps m1)"

definition environment_scans ::
    "EnvironmentMonitor \<Rightarrow> ((string \<Rightarrow> timestamp) \<times> string list option) list \<Rightarrow>
     ((string \<Rightarrow> timestamp) \<times> (string, string) omap) list" where
  "environment_scans m ps = map (\<lambda>(stamp, environ). (stamp, snapshot_environment m environ)) ps"

lemma snapshot_environment_frame [simp]:
  "snapshot_environment (m\<lparr>em_last_snapshot := s\<rparr>) environ = snapshot_environment m environ"
proof -
  have "add_variable (m\<lparr>em_last_snapshot := s\<rparr>) = add_variable m" by (intro ext) (simp add: add_variable_def Let_def split: option.split)
  then show ?thesis by (simp add: snapshot_environment_def split: option.split)
qed

lemma snapshot_environment_diff [simp]:
  "snapshot_environment (fst (environment_diff stamp cur m)) environ = snapshot_environment m environ"
  by (simp add: environment_diff_def)

lemma environment_run_polls: "environment_run ps m = variables.poll_events (environment_scans m ps) m"
proof (induction ps arbitrary: m)
  case (Cons p ps)
  obtain stamp environ where p: "p = (stamp, environ)" by (rule prod.exhaust)
  show ?case
    by (simp add: p environment_poll_def split_beta Cons.IH environment_scans_def)
qed (simp add: environment_scans_def)

text \<open>the events of the environment monitor carry enough to rebuild the environment: replaying the set,
  unset and changed events of any number of polls from the empty environment gives exactly the
  watched variables with their values at the last poll.\<close>
theorem environment_events_rebuild:
  "fold env_effect (environment_run (ps @ [(stamp, environ)]) (new_environment_monitor\<lparr>em_watch_variables := ws, em_track_all := b\<rparr>)) {} =
   set (snapshot_environment (new_environment_monitor\<lparr>em_watch_variables := ws, em_track_all := b\<rparr>) environ)"
proof -
  let ?m = "new_environment_monitor\<lparr>em_watch_variables := ws, em_track_all := b\<rparr>"
  have "fold env_effect (variables.poll_events (environment_scans ?m (ps @ [(stamp, environ)])) ?m) (set (em_last_snapshot ?m)) =
      set (last (em_last_snapshot ?m # map snd (environment_scans ?m (ps @ [(stamp, environ)]))))"
    by (rule variables.run_effect)
       (auto simp: new_environment_monitor_def environment_scans_def intro!: omap_sorted_distinct omap_sorted_environment)
  then show ?thesis
    by (simp add: environment_run_polls environment_scans_def new_environment_monitor_def)
qed

end
