(* ===== verification/Package_Monitor.thy ===== *)
theory Package_Monitor
  imports Monitor
begin

text \<open>
  \<open>monitor/package/package_monitor.h\<close> and \<open>.cpp\<close>: the installed packages as the package manager
  lists them.  \<open>access_ok\<close> says which files are executable and \<open>popen\<close> what a command prints
  (\<open>None\<close> where the pipe cannot be opened).  The static snapshot is a field that starts empty.
\<close>

datatype PackageManager = UnknownManager | APT | DNF | YUM | PACMAN | ZYPPER | BREW | PORT

record PackageInfo =
  pk_name :: string
  pk_version :: string
  pk_architecture :: string

record PackageMonitor =
  pkm_package_manager :: PackageManager
  pkm_last_snapshot :: "(string, PackageInfo) omap"
  pkm_runner :: bool

definition new_package_monitor :: PackageMonitor where
  "new_package_monitor = \<lparr> pkm_package_manager = UnknownManager, pkm_last_snapshot = [], pkm_runner = False \<rparr>"

definition command_exists :: "(string \<Rightarrow> bool) \<Rightarrow> string \<Rightarrow> bool" where
  "command_exists access_ok name =
     list_ex (\<lambda>p. access_ok (p @ name))
       [''/usr/bin/'', ''/usr/sbin/'', ''/bin/'', ''/sbin/'', ''/usr/local/bin/'', ''/usr/local/sbin/'',
        ''/opt/homebrew/bin/'']"

text \<open>The Linux branch.\<close>
definition detect_package_manager :: "(string \<Rightarrow> bool) \<Rightarrow> PackageManager" where
  "detect_package_manager access_ok =
     (if command_exists access_ok ''apt'' then APT
      else if command_exists access_ok ''dnf'' then DNF
      else if command_exists access_ok ''yum'' then YUM
      else if command_exists access_ok ''pacman'' then PACMAN
      else if command_exists access_ok ''zypper'' then ZYPPER
      else UnknownManager)"

definition package_on_start :: "(string \<Rightarrow> bool) \<Rightarrow> PackageMonitor \<Rightarrow> PackageMonitor \<times> bool" where
  "package_on_start access_ok m =
     (let m1 = m\<lparr>pkm_package_manager := detect_package_manager access_ok\<rparr> in
      if pkm_package_manager m1 = UnknownManager then (m1, False)
      else (m1\<lparr>pkm_runner := True\<rparr>, True))"

definition package_on_stop :: "PackageMonitor \<Rightarrow> PackageMonitor \<times> bool" where
  "package_on_stop m = (m\<lparr>pkm_runner := False\<rparr>, True)"

definition quote_char :: char where
  "quote_char = CHR 0x27"

text \<open>The commands, with their single quotes and backslashes spelled out.\<close>
definition package_command :: "PackageManager \<Rightarrow> string option" where
  "package_command pm =
     (let rpm = ''rpm -qa --queryformat '' @ [quote_char] @ ''%{NAME} %{VERSION}-%{RELEASE} %{ARCH}'' @
                [backslash] @ ''n'' @ [quote_char] @ '' 2>/dev/null''
      in case pm of
        APT \<Rightarrow> Some (''dpkg-query -W -f='' @ [quote_char] @ ''${Package} ${Version} ${Architecture}'' @ [backslash] @
                     ''n'' @ [quote_char] @ '' 2>/dev/null'')
      | DNF \<Rightarrow> Some rpm
      | YUM \<Rightarrow> Some rpm
      | PACMAN \<Rightarrow> Some (''pacman -Q 2>/dev/null | awk '' @ [quote_char] @ ''{print $1, $2, '' @ [dquote] @ ''x86_64'' @
                        [dquote] @ ''}'' @ [quote_char])
      | ZYPPER \<Rightarrow> Some rpm
      | BREW \<Rightarrow> Some ''brew list --versions 2>/dev/null''
      | PORT \<Rightarrow> Some (''port installed 2>/dev/null | tail -n +3 | awk '' @ [quote_char] @ ''{print $1, $2, '' @
                      [dquote] @ ''universal'' @ [dquote] @ ''}'' @ [quote_char])
      | UnknownManager \<Rightarrow> None)"

text \<open>The strings that \<open>fgets\<close> reads with a buffer of 1024 bytes: a longer line comes in pieces.\<close>
function fgets_pieces :: "string \<Rightarrow> string list" where
  "fgets_pieces s =
     (if s = [] then []
      else (let line = takeWhile (\<lambda>c. c \<noteq> nl) s;
                l = min 1023 (if length line < length s then length line + 1 else length line)
            in take l s # fgets_pieces (drop l s)))"
  by auto
termination
proof (relation "measure length", goal_cases)
  case (2 s line l)
  moreover have "length s > 0" using 2(1) by simp
  ultimately have "0 < l" by (auto simp: min_def not_less split: if_splits)
  with 2(1) show ?case by simp
qed simp

declare fgets_pieces.simps [simp del]

definition package_of :: "string \<Rightarrow> PackageInfo option" where
  "package_of buffer =
     (case ws_tokens buffer of
        n # v # a # _ \<Rightarrow> Some \<lparr> pk_name = n, pk_version = v, pk_architecture = a \<rparr>
      | _ \<Rightarrow> None)"

definition snapshot_packages :: "(string \<Rightarrow> string option) \<Rightarrow> PackageMonitor \<Rightarrow> (string, PackageInfo) omap" where
  "snapshot_packages popen m =
     (case Option.bind (package_command (pkm_package_manager m)) popen of
        None \<Rightarrow> []
      | Some out \<Rightarrow> fold (\<lambda>p r. omap_update (pk_name p) p r) (List.map_filter package_of (fgets_pieces out)) [])"

definition package_event :: "timestamp \<Rightarrow> string \<Rightarrow> string \<Rightarrow> (string, string) omap \<Rightarrow> Event" where
  "package_event t name summary attrs =
     (event_default t)\<lparr> ev_category := System, ev_type := ConfigValueChanged, ev_source := ''package_monitor'',
       ev_target := name, ev_summary := summary, ev_attributes := attrs \<rparr>"

definition package_installed :: "timestamp \<Rightarrow> string \<Rightarrow> PackageInfo \<Rightarrow> Event" where
  "package_installed t name info =
     package_event t name (''Package installed: '' @ name @ '' '' @ pk_version info)
       (omap_update ''architecture'' (pk_architecture info)
         (omap_update ''version'' (pk_version info) (omap_update ''action'' ''install'' [])))"

definition package_removed :: "timestamp \<Rightarrow> string \<Rightarrow> PackageInfo \<Rightarrow> Event" where
  "package_removed t name info =
     package_event t name (''Package removed: '' @ name @ '' '' @ pk_version info)
       (omap_update ''version'' (pk_version info) (omap_update ''action'' ''remove'' []))"

definition package_updated :: "timestamp \<Rightarrow> string \<Rightarrow> PackageInfo \<Rightarrow> PackageInfo \<Rightarrow> Event" where
  "package_updated t name old info =
     package_event t name (''Package updated: '' @ name @ '' '' @ pk_version old @ '' -> '' @ pk_version info)
       (omap_update ''new_version'' (pk_version info)
         (omap_update ''old_version'' (pk_version old) (omap_update ''action'' ''update'' [])))"

definition package_events ::
    "(string \<Rightarrow> timestamp) \<Rightarrow> (string, PackageInfo) omap \<Rightarrow> (string, PackageInfo) omap \<Rightarrow> Event list" where
  "package_events stamp last_snapshot current =
     map_diff (\<lambda>name prev info. if prev = None then [package_installed (stamp name) name info] else [])
              (\<lambda>name info. [package_removed (stamp name) name info]) last_snapshot current @
     concat (map (\<lambda>(name, info).
       (case map_of last_snapshot name of
          None \<Rightarrow> []
        | Some old \<Rightarrow>
            (if pk_version old \<noteq> pk_version info then [package_updated (stamp name) name old info] else []))) current)"

definition package_diff ::
    "(string \<Rightarrow> timestamp) \<Rightarrow> (string, PackageInfo) omap \<Rightarrow> PackageMonitor \<Rightarrow> PackageMonitor \<times> Event list" where
  "package_diff stamp current m =
     (m\<lparr>pkm_last_snapshot := current\<rparr>, package_events stamp (pkm_last_snapshot m) current)"

definition package_poll ::
    "(string \<Rightarrow> timestamp) \<Rightarrow> (string \<Rightarrow> string option) \<Rightarrow> PackageMonitor \<Rightarrow> PackageMonitor \<times> Event list" where
  "package_poll stamp popen m = package_diff stamp (snapshot_packages popen m) m"

subsection \<open>The contract\<close>

definition package_effect :: "Event \<Rightarrow> string set \<Rightarrow> string set" where
  "package_effect e S =
     (let a = omap_get [] (ev_attributes e) ''action'' in
      if a = ''install'' then insert (ev_target e) S
      else if a = ''remove'' then S - {ev_target e} else S)"

lemma package_event_effect:
  "package_effect (package_installed t n i) S = insert n S"
  "package_effect (package_removed t n i) S = S - {n}"
  "package_effect (package_updated t n i j) S = S"
  by (simp_all add: package_effect_def package_installed_def package_removed_def package_updated_def
      package_event_def Let_def del: omap_update.simps)

lemma package_poll_effect:
  "fold package_effect (package_events stamp prev cur) (fst ` set prev) = fst ` set cur"
proof -
  have keep: "fold package_effect es S = S" if "\<forall>e \<in> set es. \<exists>t n i j. e = package_updated t n i j" for es S
    using that by (induction es) (auto simp: package_event_effect)
  have "fold package_effect (map_diff (\<lambda>name prev info. if prev = None then [package_installed (stamp name) name info] else [])
      (\<lambda>name info. [package_removed (stamp name) name info]) prev cur) (fst ` set prev) = fst ` set cur"
    by (rule map_diff_effect) (auto simp: package_event_effect)
  then show ?thesis
    by (simp add: package_events_def) (rule keep; auto split: option.splits if_splits)
qed

lemma package_same:
  assumes "distinct (map fst cur)"
  shows "package_events stamp cur cur = []"
proof -
  have "map_of cur k = Some v" if "(k, v) \<in> set cur" for k v using assms that by simp
  then show ?thesis using assms by (auto simp: package_events_def intro!: map_diff_same)
qed

interpretation packages: snapshot_monitor package_diff "\<lambda>m. fst ` set m" pkm_last_snapshot "\<lambda>_. False"
  package_effect "\<lambda>m. distinct (map fst m)"
  by unfold_locales (auto simp: package_diff_def package_poll_effect package_same)

subsection \<open>Properties\<close>

text \<open>without a package manager the start fails and is never repaired: the monitor says it is
  running, has no thread, refuses every later start even when a package manager has appeared,
  and only a stop, which reports success, clears the flag.\<close>
theorem failed_package_start_sticks:
  assumes "detect_package_manager access_ok = UnknownManager" "\<not> mon_running m" "\<not> pkm_runner s"
    and "monitor_start (package_on_start access_ok) (m, s) = (st, ok)"
  shows "\<not> ok \<and> mon_running (fst st) \<and> \<not> pkm_runner (snd st) \<and>
         monitor_start (package_on_start access_ok') st = (st, False) \<and>
         snd (monitor_stop package_on_stop st)"
proof -
  have "ok = False" "mon_running (fst st)" "\<not> pkm_runner (snd st)"
    using assms by (auto simp: monitor_start_def package_on_start_def Let_def)
  moreover have "monitor_start (package_on_start access_ok') st = (st, False)"
    by (cases st) (use \<open>mon_running (fst st)\<close> in \<open>simp add: monitor_start_def\<close>)
  ultimately show ?thesis
    by (cases st) (simp add: monitor_stop_def package_on_stop_def)
qed

lemma failed_package_start_sticks_witness:
  "\<exists>st. monitor_start (package_on_start (\<lambda>_. False)) (new_monitor :: unit Monitor, new_package_monitor) = (st, False) \<and>
        mon_running (fst st) \<and>
        monitor_start (package_on_start (\<lambda>p. p = ''/usr/bin/apt'')) st = (st, False)"
proof -
  have d: "detect_package_manager (\<lambda>_. False) = UnknownManager"
    by (simp add: detect_package_manager_def command_exists_def)
  have n: "\<not> mon_running (new_monitor :: unit Monitor)" "\<not> pkm_runner new_package_monitor"
    by (simp_all add: new_monitor_def new_package_monitor_def)
  obtain st ok where s: "monitor_start (package_on_start (\<lambda>_. False)) (new_monitor :: unit Monitor, new_package_monitor) = (st, ok)"
    by (rule prod.exhaust)
  show ?thesis using failed_package_start_sticks [OF d n s, of "\<lambda>p. p = ''/usr/bin/apt''"] s by (intro exI [of _ st]) simp
qed

end
