(* ===== verification/User_Activity_Monitor.thy ===== *)
theory User_Activity_Monitor
  imports Monitor
begin

text \<open>
  \<open>monitor/user_activity/user_activity_monitor.h\<close> and \<open>.cpp\<close>: sessions read from the login records.
  \<open>read path\<close> is the content of a file, \<open>None\<close> if it cannot be opened.
\<close>

record UserSession =
  us_username :: string
  us_tty :: string
  us_remote_host :: string
  us_login_time :: int
  us_process_id :: string

record UserActivityMonitor =
  um_previous :: "(string, UserSession) omap"
  um_first_scan :: bool

definition new_user_activity_monitor :: UserActivityMonitor where
  "new_user_activity_monitor = \<lparr> um_previous = [], um_first_scan = True \<rparr>"

definition user_on_start :: "UserActivityMonitor \<Rightarrow> UserActivityMonitor \<times> bool" where
  "user_on_start m = (m\<lparr>um_first_scan := True\<rparr>, True)"

definition strip_blanks :: "string \<Rightarrow> string" where
  "strip_blanks s = rev (dropWhile (\<lambda>c. c = CHR 0x20) (rev s))"

text \<open>A line of \<open>utmp\<close>: fixed columns, at least 62 bytes.\<close>
definition utmp_session :: "string \<Rightarrow> UserSession option" where
  "utmp_session line =
     (if length line < 62 then None
      else (let username = strip_blanks (take 32 line) in
            if username = [] \<or> username = ''LOGIN'' then None
            else (let tty = strip_blanks (take 12 (drop 32 line));
                      host = strip_blanks (takeWhile (\<lambda>c. c \<noteq> CHR 0x00) (take 16 (drop 44 line)));
                      time = (case stoll (drop 62 line) of None \<Rightarrow> 0 | Some t \<Rightarrow> t)
                  in Some \<lparr> us_username = username, us_tty = tty, us_remote_host = host, us_login_time = time,
                            us_process_id = tty @ '':'' @ username \<rparr>)))"

definition lastlog_session :: "string \<Rightarrow> UserSession option" where
  "lastlog_session line =
     (if line = [] then None
      else (case find_str '':'' line of
              None \<Rightarrow> None
            | Some pos \<Rightarrow>
                (let username = take pos line;
                     tty = (case find_from '':'' line (pos + 1) of
                              None \<Rightarrow> []
                            | Some next_pos \<Rightarrow> take (next_pos - pos - 1) (drop (pos + 1) line))
                 in Some \<lparr> us_username = username, us_tty = tty, us_remote_host = [], us_login_time = 0,
                           us_process_id = tty @ '':'' @ username \<rparr>)))"

definition user_snapshot :: "(string \<Rightarrow> string option) \<Rightarrow> UserSession list" where
  "user_snapshot read =
     (if read ''/var/log/wtmp'' = None \<and> read ''/var/run/utmp'' = None then []
      else (case read ''/var/run/utmp'' of
              Some c \<Rightarrow> List.map_filter utmp_session (getlines c)
            | None \<Rightarrow>
                (case read ''/var/log/lastlog'' of
                   None \<Rightarrow> []
                 | Some c \<Rightarrow> List.map_filter lastlog_session (getlines c))))"

definition session_map :: "UserSession list \<Rightarrow> (string, UserSession) omap" where
  "session_map ss = fold (\<lambda>s m. omap_update (us_process_id s) s m) ss []"

definition user_logged_in :: "string poll_env \<Rightarrow> string \<Rightarrow> UserSession \<Rightarrow> Event" where
  "user_logged_in env i s =
     (event_default (pe_stamp env i))
       \<lparr> ev_category := SystemConfig, ev_type := UserLoggedIn, ev_source := ''user_activity'',
         ev_target := us_username s, ev_summary := ''User logged in: '' @ us_username s,
         ev_attributes := omap_update ''login_time'' (int_str (us_login_time s))
           (omap_update ''remote_host'' (us_remote_host s) (omap_update ''tty'' (us_tty s)
             (omap_update ''username'' (us_username s) []))),
         ev_platform := pe_platform env, ev_host := pe_host env \<rparr>"

definition user_logged_out :: "string poll_env \<Rightarrow> string \<Rightarrow> UserSession \<Rightarrow> Event" where
  "user_logged_out env i s =
     (event_default (pe_stamp env i))
       \<lparr> ev_category := SystemConfig, ev_type := UserLoggedOut, ev_source := ''user_activity'',
         ev_target := us_username s, ev_summary := ''User logged out: '' @ us_username s,
         ev_attributes := omap_update ''remote_host'' (us_remote_host s) (omap_update ''tty'' (us_tty s)
             (omap_update ''username'' (us_username s) [])),
         ev_platform := pe_platform env, ev_host := pe_host env \<rparr>"

definition user_diff ::
    "string poll_env \<Rightarrow> (string, UserSession) omap \<Rightarrow> UserActivityMonitor \<Rightarrow> UserActivityMonitor \<times> Event list" where
  "user_diff env current m =
     (\<lparr> um_previous = current, um_first_scan = False \<rparr>,
      if um_first_scan m then []
      else map_diff (\<lambda>i prev s. if prev = None then [user_logged_in env i s] else [])
                    (\<lambda>i s. [user_logged_out env i s]) (um_previous m) current)"

definition user_tick ::
    "string poll_env \<Rightarrow> (string \<Rightarrow> string option) \<Rightarrow> UserActivityMonitor \<Rightarrow> UserActivityMonitor \<times> Event list" where
  "user_tick env read m = user_diff env (session_map (user_snapshot read)) m"

subsection \<open>The contract\<close>

text \<open>The session is identified by the attributes it was keyed with.\<close>
definition session_key :: "Event \<Rightarrow> string" where
  "session_key e = omap_get [] (ev_attributes e) ''tty'' @ '':'' @ omap_get [] (ev_attributes e) ''username''"

definition session_effect :: "Event \<Rightarrow> string set \<Rightarrow> string set" where
  "session_effect e S =
     (case ev_type e of UserLoggedIn \<Rightarrow> insert (session_key e) S | UserLoggedOut \<Rightarrow> S - {session_key e} | _ \<Rightarrow> S)"

definition valid_sessions :: "(string, UserSession) omap \<Rightarrow> bool" where
  "valid_sessions m = (distinct (map fst m) \<and> (\<forall>(k, s) \<in> set m. k = us_tty s @ '':'' @ us_username s))"

lemma session_event_effect:
  "session_effect (user_logged_in env i s) S = insert (us_tty s @ '':'' @ us_username s) S"
  "session_effect (user_logged_out env i s) S = S - {us_tty s @ '':'' @ us_username s}"
  by (simp_all add: session_effect_def session_key_def user_logged_in_def user_logged_out_def del: omap_update.simps)

lemma session_poll_effect:
  assumes "valid_sessions prev" "valid_sessions cur"
  shows "fold session_effect (map_diff (\<lambda>i p s. if p = None then [user_logged_in env i s] else [])
           (\<lambda>i s. [user_logged_out env i s]) prev cur) (fst ` set prev) = fst ` set cur"
proof -
  have k: "us_tty s @ '':'' @ us_username s = i" if "(i, s) \<in> set m" "valid_sessions m" for i s m
    using that by (auto simp: valid_sessions_def)
  show ?thesis
    using assms by (intro map_diff_effect) (auto simp: session_event_effect k simp del: append.simps)
qed

interpretation sessions: snapshot_monitor user_diff "\<lambda>m. fst ` set m" um_previous um_first_scan session_effect valid_sessions
  by unfold_locales
     (auto simp: user_diff_def session_poll_effect intro!: map_diff_same, simp add: valid_sessions_def)

lemma session_ids:
  "utmp_session line = Some s \<Longrightarrow> us_process_id s = us_tty s @ '':'' @ us_username s"
  "lastlog_session line = Some s \<Longrightarrow> us_process_id s = us_tty s @ '':'' @ us_username s"
  by (auto simp: utmp_session_def lastlog_session_def Let_def split: if_splits option.splits)

lemma user_snapshot_ids:
  assumes "s \<in> set (user_snapshot read)"
  shows "us_process_id s = us_tty s @ '':'' @ us_username s"
proof -
  have mf: "\<exists>l. f l = Some s" if "s \<in> set (List.map_filter f ls)" for f and ls :: "string list"
    using that by (induction ls) (auto simp: List.map_filter_def split: if_splits)
  have "\<exists>l. utmp_session l = Some s \<or> lastlog_session l = Some s"
    using assms by (auto simp: user_snapshot_def split: if_splits option.splits dest!: mf)
  then show ?thesis using session_ids by blast
qed

lemma valid_session_map: "valid_sessions (session_map (user_snapshot read))"
proof -
  have "k = us_tty s @ '':'' @ us_username s" if "(k, s) \<in> set (session_map (user_snapshot read))" for k s
    using that user_snapshot_ids [of s read] by (auto simp: session_map_def dest!: fold_update_mem)
  then show ?thesis
    unfolding valid_sessions_def by (auto simp: session_map_def intro!: omap_sorted_distinct fold_update_sorted)
qed

subsection \<open>Properties\<close>

fun user_run :: "(string poll_env \<times> (string \<Rightarrow> string option)) list \<Rightarrow> UserActivityMonitor \<Rightarrow> Event list" where
  "user_run [] m = []"
| "user_run ((env, read) # ts) m = (let (m1, es) = user_tick env read m in es @ user_run ts m1)"

lemma user_run_polls:
  "user_run ts m = sessions.poll_events (map (\<lambda>(env, read). (env, session_map (user_snapshot read))) ts) m"
  by (induction ts m rule: user_run.induct) (auto simp: user_tick_def split: prod.split)

text \<open>replaying the login and logout events of any number of ticks after the start, from the sessions
  of the first tick, gives exactly the sessions of the last tick, whichever login record the
  machine has.\<close>
theorem session_events_replay:
  "fold session_effect (user_run ((env, read) # ts) (fst (user_on_start m))) (us_process_id ` set (user_snapshot read)) =
   us_process_id ` set (user_snapshot (last (read # map snd ts)))"
proof -
  let ?f = "\<lambda>(env, read). (env, session_map (user_snapshot read))"
  have keys: "fst ` set (session_map ss) = us_process_id ` set ss" for ss
    by (simp add: session_map_def fold_update_keys)
  have "map snd (map ?f ts) = map (\<lambda>r. session_map (user_snapshot r)) (map snd ts)" by auto
  then have l: "last (session_map (user_snapshot read) # map snd (map ?f ts)) =
      session_map (user_snapshot (last (read # map snd ts)))"
    by (simp add: last_map del: map_map)
  have "fold session_effect (sessions.poll_events ((env, session_map (user_snapshot read)) # map ?f ts) (fst (user_on_start m)))
      (fst ` set (session_map (user_snapshot read))) =
      fst ` set (last (session_map (user_snapshot read) # map snd (map ?f ts)))"
    by (rule sessions.run_from_first) (auto simp: user_on_start_def valid_session_map)
  then show ?thesis unfolding user_run_polls l keys by simp
qed

end
