(* ===== verification/File_Integrity_Monitor.thy ===== *)
theory File_Integrity_Monitor
  imports Monitor
begin

text \<open>
  \<open>monitor/file_integrity/file_integrity_monitor.h\<close> and \<open>.cpp\<close>: hashes of the watched files.  The
  digest (OpenSSL), the existence, the contents, the size and the time of a file are parameters; the hexadecimal form
  of the digest is computed.
\<close>

record FileHash =
  fh_path :: string
  fh_hash :: string
  fh_size :: u64
  fh_mtime :: u64

record integrity_probe =
  ip_exists :: bool
  ip_digest :: "nat list option"
  ip_size :: "u64 option"
  ip_mtime :: "u64 option"

record FileIntegrityMonitor =
  fim_watch_files :: "string list"
  fim_previous_hashes :: "(string, FileHash) omap"
  fim_first_scan :: bool

definition new_integrity_monitor :: FileIntegrityMonitor where
  "new_integrity_monitor = \<lparr> fim_watch_files = [], fim_previous_hashes = [], fim_first_scan = True \<rparr>"

definition add_watch_file :: "string \<Rightarrow> FileIntegrityMonitor \<Rightarrow> FileIntegrityMonitor" where
  "add_watch_file path m =
     (if path \<in> set (fim_watch_files m) then m else m\<lparr>fim_watch_files := fim_watch_files m @ [path]\<rparr>)"

definition remove_watch_file :: "string \<Rightarrow> FileIntegrityMonitor \<Rightarrow> FileIntegrityMonitor" where
  "remove_watch_file path m = m\<lparr>fim_watch_files := remove1 path (fim_watch_files m)\<rparr>"

definition integrity_on_start :: "FileIntegrityMonitor \<Rightarrow> FileIntegrityMonitor \<times> bool" where
  "integrity_on_start m = (m\<lparr>fim_first_scan := True\<rparr>, True)"

definition hex_byte :: "nat \<Rightarrow> string" where
  "hex_byte n = [''0123456789abcdef'' ! (n div 16), ''0123456789abcdef'' ! (n mod 16)]"

text \<open>The empty string where the file cannot be opened.\<close>
definition compute_hash :: "integrity_probe \<Rightarrow> string" where
  "compute_hash p = (case ip_digest p of None \<Rightarrow> [] | Some d \<Rightarrow> concat (map hex_byte (take 32 d)))"

text \<open>The read loop of \<open>compute_hash\<close>: blocks of 8192 bytes while a whole one can be read, then the rest, which may be
  empty.  The context of the digest and its update belong to OpenSSL.\<close>
function digest_blocks :: "('ctx \<Rightarrow> string \<Rightarrow> 'ctx) \<Rightarrow> 'ctx \<Rightarrow> string \<Rightarrow> 'ctx" where
  "digest_blocks update ctx content =
     (if length content \<ge> 8192 then digest_blocks update (update ctx (take 8192 content)) (drop 8192 content)
      else update ctx content)"
  by pat_completeness auto

termination by (relation "measure (\<lambda>(_, _, content). length content)") auto

declare digest_blocks.simps [simp del]

text \<open>The blocks do not matter where the digest is one of the concatenation of its updates, as is documented.\<close>
lemma digest_blocks_whole:
  assumes "\<And>ctx a b. update (update ctx a) b = update ctx (a @ b)"
  shows "digest_blocks update ctx content = update ctx content"
  using assms
proof (induction update ctx content rule: digest_blocks.induct)
  case (1 update ctx content)
  show ?case
  proof (cases "length content \<ge> 8192")
    case True
    have "digest_blocks update (update ctx (take 8192 content)) (drop 8192 content) =
        update (update ctx (take 8192 content)) (drop 8192 content)"
      using "1.IH" [OF True] "1.prems" by blast
    also have "\<dots> = update ctx content" using "1.prems" [of ctx "take 8192 content" "drop 8192 content"] by simp
    finally show ?thesis using True by (subst digest_blocks.simps) simp
  qed (simp add: digest_blocks.simps)
qed

definition hash_of :: "(string \<Rightarrow> integrity_probe) \<Rightarrow> string \<Rightarrow> FileHash" where
  "hash_of probe path =
     (let p = probe path in
      \<lparr> fh_path = path, fh_hash = compute_hash p,
        fh_size = (case ip_size p of None \<Rightarrow> 0 | Some s \<Rightarrow> s),
        fh_mtime = (case ip_mtime p of None \<Rightarrow> 0 | Some t \<Rightarrow> t) \<rparr>)"

definition current_hashes :: "(string \<Rightarrow> integrity_probe) \<Rightarrow> string list \<Rightarrow> (string, FileHash) omap" where
  "current_hashes probe files =
     fold (\<lambda>path m. omap_update path (hash_of probe path) m) (filter (\<lambda>path. ip_exists (probe path)) files) []"

definition integrity_event :: "string poll_env \<Rightarrow> string \<Rightarrow> EventType \<Rightarrow> string \<Rightarrow> (string, string) omap \<Rightarrow> Event" where
  "integrity_event env path t summary attrs =
     (event_default (pe_stamp env path))
       \<lparr> ev_category := Filesystem, ev_type := t, ev_source := ''file_integrity'', ev_target := path,
         ev_summary := summary, ev_attributes := attrs, ev_platform := pe_platform env, ev_host := pe_host env \<rparr>"

definition integrity_added :: "string poll_env \<Rightarrow> string \<Rightarrow> FileHash \<Rightarrow> Event" where
  "integrity_added env path fh =
     integrity_event env path FileCreated (''New file added to integrity monitoring: '' @ path)
       (omap_update ''size'' (word_str (fh_size fh)) (omap_update ''hash'' (fh_hash fh) (omap_update ''path'' path [])))"

definition integrity_changed :: "string poll_env \<Rightarrow> string \<Rightarrow> FileHash \<Rightarrow> FileHash \<Rightarrow> Event" where
  "integrity_changed env path prev fh =
     integrity_event env path FileModified (''File integrity changed: '' @ path)
       (omap_update ''new_size'' (word_str (fh_size fh)) (omap_update ''old_size'' (word_str (fh_size prev))
         (omap_update ''new_hash'' (fh_hash fh) (omap_update ''old_hash'' (fh_hash prev) (omap_update ''path'' path [])))))"

definition integrity_resized :: "string poll_env \<Rightarrow> string \<Rightarrow> FileHash \<Rightarrow> FileHash \<Rightarrow> Event" where
  "integrity_resized env path prev fh =
     integrity_event env path FileModified (''File size changed but hash unchanged: '' @ path)
       (omap_update ''new_size'' (word_str (fh_size fh)) (omap_update ''old_size'' (word_str (fh_size prev))
         (omap_update ''hash'' (fh_hash fh) (omap_update ''path'' path []))))"

definition integrity_deleted :: "string poll_env \<Rightarrow> string \<Rightarrow> FileHash \<Rightarrow> Event" where
  "integrity_deleted env path fh =
     integrity_event env path FileDeleted (''Monitored file deleted: '' @ path)
       (omap_update ''last_size'' (word_str (fh_size fh)) (omap_update ''last_hash'' (fh_hash fh)
         (omap_update ''path'' path [])))"

definition integrity_seen :: "string poll_env \<Rightarrow> string \<Rightarrow> FileHash option \<Rightarrow> FileHash \<Rightarrow> Event list" where
  "integrity_seen env path prev_it fh =
     (case prev_it of
        None \<Rightarrow> [integrity_added env path fh]
      | Some prev \<Rightarrow>
          (if fh_hash prev \<noteq> fh_hash fh then [integrity_changed env path prev fh]
           else if fh_size prev \<noteq> fh_size fh then [integrity_resized env path prev fh]
           else []))"

definition integrity_diff ::
    "string poll_env \<Rightarrow> (string, FileHash) omap \<Rightarrow> FileIntegrityMonitor \<Rightarrow> FileIntegrityMonitor \<times> Event list" where
  "integrity_diff env current m =
     (m\<lparr>fim_first_scan := False, fim_previous_hashes := current\<rparr>,
      if fim_first_scan m then []
      else map_diff (integrity_seen env) (\<lambda>path fh. [integrity_deleted env path fh]) (fim_previous_hashes m) current)"

text \<open>With no file to watch a tick does nothing, not even the first scan.\<close>
definition integrity_tick ::
    "string poll_env \<Rightarrow> (string \<Rightarrow> integrity_probe) \<Rightarrow> FileIntegrityMonitor \<Rightarrow> FileIntegrityMonitor \<times> Event list" where
  "integrity_tick env probe m =
     (if fim_watch_files m = [] then (m, [])
      else integrity_diff env (current_hashes probe (fim_watch_files m)) m)"

subsection \<open>The contract\<close>

definition integrity_effect :: "Event \<Rightarrow> string set \<Rightarrow> string set" where
  "integrity_effect e S =
     (case ev_type e of FileCreated \<Rightarrow> insert (ev_target e) S | FileDeleted \<Rightarrow> S - {ev_target e} | _ \<Rightarrow> S)"

lemmas integrity_event_defs =
  integrity_event_def integrity_added_def integrity_changed_def integrity_resized_def integrity_deleted_def

lemma integrity_event_effect:
  "integrity_effect (integrity_added env p h) S = insert p S"
  "integrity_effect (integrity_changed env p h h') S = S"
  "integrity_effect (integrity_resized env p h h') S = S"
  "integrity_effect (integrity_deleted env p h) S = S - {p}"
  by (simp_all add: integrity_effect_def integrity_event_defs)

lemma integrity_poll_effect:
  "fold integrity_effect (map_diff (integrity_seen env) (\<lambda>path fh. [integrity_deleted env path fh]) prev cur)
     (fst ` set prev) = fst ` set cur"
  by (rule map_diff_effect) (auto simp: integrity_event_effect integrity_seen_def split: option.split)

interpretation hashes: snapshot_monitor integrity_diff "\<lambda>m. fst ` set m" fim_previous_hashes fim_first_scan
  integrity_effect "\<lambda>m. distinct (map fst m)"
  by unfold_locales
     (auto simp: integrity_diff_def integrity_poll_effect integrity_seen_def intro!: map_diff_same)

subsection \<open>Properties\<close>

lemma current_hashes_lookup:
  "map_of (current_hashes probe files) path =
     (if path \<in> set files \<and> ip_exists (probe path) then Some (hash_of probe path) else None)"
proof -
  have "map_of (fold (\<lambda>path m. omap_update path (hash_of probe path) m) fs m) path =
      (if path \<in> set fs then Some (hash_of probe path) else map_of m path)" for fs m
    by (induction fs arbitrary: m) (auto simp del: omap_update.simps)
  then show ?thesis by (simp add: current_hashes_def)
qed

lemma diff_modified_targets:
  assumes "distinct (map fst cur)"
  shows "ev_target ` set (filter (\<lambda>e. ev_type e = FileModified)
           (map_diff (integrity_seen env) (\<lambda>path fh. [integrity_deleted env path fh]) prev cur)) =
         {p. \<exists>a b. map_of prev p = Some a \<and> map_of cur p = Some b \<and>
               (fh_hash a \<noteq> fh_hash b \<or> fh_size a \<noteq> fh_size b)}"
proof -
  have mem: "(k, v) \<in> set cur \<longleftrightarrow> map_of cur k = Some v" for k v using assms by simp
  let ?mod = "filter (\<lambda>e. ev_type e = FileModified)"
  have "?mod (concat (map (\<lambda>(k, v). if map_of cur k = None then [integrity_deleted env k v] else []) prev)) = []"
    by (auto simp: filter_empty_conv integrity_event_defs split: if_splits)
  moreover have "?mod (concat (map (\<lambda>(k, v). integrity_seen env k (map_of prev k) v) cur)) =
      concat (map (\<lambda>(k, v). ?mod (integrity_seen env k (map_of prev k) v)) cur)"
    by (simp add: filter_concat comp_def case_prod_unfold)
  moreover have "ev_target ` set (concat (map (\<lambda>(k, v). ?mod (integrity_seen env k (map_of prev k) v)) cur)) =
      {k. \<exists>v. (k, v) \<in> set cur \<and> ?mod (integrity_seen env k (map_of prev k) v) \<noteq> []}"
    by (rule loop_targets) (auto simp: integrity_seen_def integrity_event_defs split: option.splits if_splits)
  moreover have "?mod (integrity_seen env k q v) \<noteq> [] \<longleftrightarrow> (\<exists>a. q = Some a \<and> (fh_hash a \<noteq> fh_hash v \<or> fh_size a \<noteq> fh_size v))" for k q v
    by (auto simp: integrity_seen_def integrity_event_defs split: option.split)
  ultimately show ?thesis by (auto simp: map_diff_def mem)
qed

text \<open>a tick after the first reports a modification for exactly those watched files that existed at both
  ticks and whose digest or size differs: a change of time alone is never reported, and neither
  is a change of a file that is not watched.\<close>
theorem integrity_modifications_exact:
  assumes "integrity_tick env0 probe0 (fst (integrity_on_start m)) = (m1, es0)" "integrity_tick env probe m1 = (m2, es)"
  shows "es0 = [] \<and>
    ev_target ` set (filter (\<lambda>e. ev_type e = FileModified) es) =
    {p \<in> set (fim_watch_files m). ip_exists (probe0 p) \<and> ip_exists (probe p) \<and>
       (compute_hash (probe0 p) \<noteq> compute_hash (probe p) \<or>
        fh_size (hash_of probe0 p) \<noteq> fh_size (hash_of probe p))}"
proof (cases "fim_watch_files m = []")
  case True
  then show ?thesis using assms by (auto simp: integrity_tick_def integrity_on_start_def)
next
  case False
  then have m1: "fim_watch_files m1 = fim_watch_files m" "\<not> fim_first_scan m1" "es0 = []"
      "fim_previous_hashes m1 = current_hashes probe0 (fim_watch_files m)"
    using assms(1) by (auto simp: integrity_tick_def integrity_on_start_def integrity_diff_def)
  have es: "es = map_diff (integrity_seen env) (\<lambda>path fh. [integrity_deleted env path fh])
      (current_hashes probe0 (fim_watch_files m)) (current_hashes probe (fim_watch_files m))"
    using assms(2) False m1 by (auto simp: integrity_tick_def integrity_diff_def)
  have "distinct (map fst (current_hashes probe (fim_watch_files m)))"
    by (auto simp: current_hashes_def intro!: omap_sorted_distinct fold_update_sorted [where f = "\<lambda>p. p"])
  from diff_modified_targets [OF this, of env "current_hashes probe0 (fim_watch_files m)"] show ?thesis
    by (auto simp: es m1(3) current_hashes_lookup hash_of_def Let_def split: if_splits)
qed

definition demo_probe :: "nat \<Rightarrow> string \<Rightarrow> integrity_probe" where
  "demo_probe n p = \<lparr> ip_exists = True, ip_digest = Some [n], ip_size = Some 1, ip_mtime = None \<rparr>"

lemma integrity_modifications_exact_witness:
  "\<exists>m1 m2 es. integrity_tick \<lparr> pe_stamp = (\<lambda>_. 0), pe_platform = [], pe_host = [] \<rparr> (demo_probe 3) m1 = (m2, es) \<and>
     ev_target ` set (filter (\<lambda>e. ev_type e = FileModified) es) = {''/etc/passwd''}"
proof -
  let ?env = "\<lparr> pe_stamp = (\<lambda>_. 0), pe_platform = [], pe_host = [] \<rparr> :: string poll_env"
  let ?m = "add_watch_file ''/etc/passwd'' new_integrity_monitor"
  obtain m1 es0 where 1: "integrity_tick ?env (demo_probe 2) (fst (integrity_on_start ?m)) = (m1, es0)"
    by (rule prod.exhaust)
  obtain m2 es where 2: "integrity_tick ?env (demo_probe 3) m1 = (m2, es)" by (rule prod.exhaust)
  have w: "fim_watch_files ?m = [''/etc/passwd'']" by (simp add: add_watch_file_def new_integrity_monitor_def)
  have "compute_hash (demo_probe 2 p) \<noteq> compute_hash (demo_probe 3 p)" for p
    by (simp add: compute_hash_def demo_probe_def hex_byte_def)
  then have "ev_target ` set (filter (\<lambda>e. ev_type e = FileModified) es) = {''/etc/passwd''}"
    using integrity_modifications_exact [OF 1 2] w by (auto simp: demo_probe_def)
  with 2 show ?thesis by blast
qed

end
