(* ===== verification/System_Config_Monitor.thy ===== *)
theory System_Config_Monitor
  imports Monitor
begin

unbundle bit_operations_syntax

text \<open>
  \<open>monitor/system_config/system_config_monitor.h\<close> and \<open>.cpp\<close>: a hash per configuration file.  The
  64-bit hash wraps (in C++ the signed overflow is undefined; compilers for the supported machines
  wrap).  A probe holds the content of a file, \<open>None\<close> if it does not exist or cannot be opened, and
  its time in seconds, \<open>None\<close> on an error.
\<close>

record config_probe =
  cp_content :: "string option"
  cp_mtime_seconds :: "64 word option"

record SystemConfigMonitor =
  scm_config_files :: "string list"
  scm_previous_hashes :: "(string, 64 word) omap"
  scm_first_scan :: bool

definition new_system_config_monitor :: SystemConfigMonitor where
  "new_system_config_monitor = \<lparr> scm_config_files = [], scm_previous_hashes = [], scm_first_scan = True \<rparr>"

definition content_hash :: "string \<Rightarrow> 64 word" where
  "content_hash c = foldl (\<lambda>h ch. h * 31 + of_nat (of_char ch)) 0 c"

definition simple_hash :: "config_probe \<Rightarrow> 64 word" where
  "simple_hash p =
     (case cp_content p of
        None \<Rightarrow> - 1
      | Some c \<Rightarrow>
          (case cp_mtime_seconds p of None \<Rightarrow> content_hash c | Some t \<Rightarrow> content_hash c XOR t))"

definition add_config_file :: "string \<Rightarrow> SystemConfigMonitor \<Rightarrow> SystemConfigMonitor" where
  "add_config_file path m =
     (if path \<in> set (scm_config_files m) then m else m\<lparr>scm_config_files := scm_config_files m @ [path]\<rparr>)"

text \<open>The Linux branch.\<close>
definition system_config_on_start :: "SystemConfigMonitor \<Rightarrow> SystemConfigMonitor \<times> bool" where
  "system_config_on_start m =
     (let m1 = (if scm_config_files m = []
                then m\<lparr>scm_config_files := [''/etc/hosts'', ''/etc/resolv.conf'', ''/etc/passwd'', ''/etc/hostname'']\<rparr>
                else m)
      in (m1\<lparr>scm_first_scan := True\<rparr>, True))"

definition config_hashes :: "(string \<Rightarrow> config_probe) \<Rightarrow> string list \<Rightarrow> (string, 64 word) omap" where
  "config_hashes probe files = fold (\<lambda>f m. omap_update f (simple_hash (probe f)) m) files []"

definition config_changed :: "string poll_env \<Rightarrow> string \<Rightarrow> Event" where
  "config_changed env path =
     (event_default (pe_stamp env path))
       \<lparr> ev_category := SystemConfig, ev_type := ConfigValueChanged, ev_source := ''system_config'',
         ev_target := path, ev_summary := ''Config file changed: '' @ path,
         ev_attributes := omap_update ''file'' path [],
         ev_platform := pe_platform env, ev_host := pe_host env \<rparr>"

definition system_config_tick ::
    "string poll_env \<Rightarrow> (string \<Rightarrow> config_probe) \<Rightarrow> SystemConfigMonitor \<Rightarrow> SystemConfigMonitor \<times> Event list" where
  "system_config_tick env probe m =
     (let current = config_hashes probe (scm_config_files m);
          m1 = m\<lparr>scm_first_scan := False, scm_previous_hashes := current\<rparr>
      in if scm_first_scan m then (m1, [])
         else (m1, concat (map (\<lambda>(path, h).
                 if map_of (scm_previous_hashes m) path = Some h then [] else [config_changed env path]) current)))"

subsection \<open>Properties\<close>

lemma config_hashes_lookup:
  "map_of (config_hashes probe files) f = (if f \<in> set files then Some (simple_hash (probe f)) else None)"
proof -
  have "map_of (fold (\<lambda>f m. omap_update f (simple_hash (probe f)) m) fs m) f =
      (if f \<in> set fs then Some (simple_hash (probe f)) else map_of m f)" for fs m
    by (induction fs arbitrary: m) (auto simp del: omap_update.simps)
  then show ?thesis by (simp add: config_hashes_def)
qed

lemma xor_cancel_word: "a XOR b = a XOR c \<longleftrightarrow> b = c" for a :: "'a::len word"
  by (metis xor.left_neutral xor.assoc xor_self_eq)

text \<open>a configuration file whose content stays the same is reported exactly if its time differs: the
  hash of the content cancels out of the comparison, so a touch is a change and nothing else is.\<close>
theorem touch_is_a_change:
  assumes "system_config_tick env0 probe0 (fst (system_config_on_start m)) = (m1, es0)"
    and "system_config_tick env probe m1 = (m2, es)"
    and "cp_content (probe0 f) = Some c" "cp_content (probe f) = Some c"
    and "cp_mtime_seconds (probe0 f) = Some t" "cp_mtime_seconds (probe f) = Some t'"
    and "f \<in> set (scm_config_files (fst (system_config_on_start m)))"
  shows "f \<in> ev_target ` set es \<longleftrightarrow> t \<noteq> t'"
proof -
  define files where "files = scm_config_files (fst (system_config_on_start m))"
  have m1: "scm_config_files m1 = files" "\<not> scm_first_scan m1" "scm_previous_hashes m1 = config_hashes probe0 files"
    using assms(1) by (auto simp: system_config_tick_def Let_def files_def split: if_splits)
  have es: "es = concat (map (\<lambda>(path, h).
      if map_of (config_hashes probe0 files) path = Some h then [] else [config_changed env path]) (config_hashes probe files))"
    using assms(2) m1 by (auto simp: system_config_tick_def Let_def)
  have d: "distinct (map fst (config_hashes probe files))"
    by (auto simp: config_hashes_def intro!: omap_sorted_distinct fold_update_sorted [where f = "\<lambda>p. p"])
  have "ev_target ` set es = {k. \<exists>h. (k, h) \<in> set (config_hashes probe files) \<and> map_of (config_hashes probe0 files) k \<noteq> Some h}"
    unfolding es by (subst loop_targets) (auto simp: config_changed_def split: if_splits)
  also have "\<dots> = {k. k \<in> set files \<and> simple_hash (probe0 k) \<noteq> simple_hash (probe k)}"
    using d by (auto simp: config_hashes_lookup map_of_eq_Some_iff [symmetric] simp del: map_of_eq_Some_iff split: if_splits)
  finally show ?thesis
    using assms(3-7) by (simp add: files_def simple_hash_def xor_cancel_word)
qed

definition touched :: "64 word \<Rightarrow> string \<Rightarrow> config_probe" where
  "touched t f = \<lparr> cp_content = Some ''x'', cp_mtime_seconds = Some t \<rparr>"

lemma touch_is_a_change_witness:
  "\<exists>m1 m2 es. system_config_tick \<lparr> pe_stamp = (\<lambda>_. 0), pe_platform = [], pe_host = [] \<rparr> (touched 2) m1 = (m2, es) \<and>
     ''/etc/hosts'' \<in> ev_target ` set es"
proof -
  let ?env = "\<lparr> pe_stamp = (\<lambda>_. 0), pe_platform = [], pe_host = [] \<rparr> :: string poll_env"
  obtain m1 es0 where 1: "system_config_tick ?env (touched 1) (fst (system_config_on_start new_system_config_monitor)) = (m1, es0)"
    by (rule prod.exhaust)
  obtain m2 es where 2: "system_config_tick ?env (touched 2) m1 = (m2, es)" by (rule prod.exhaust)
  have "''/etc/hosts'' \<in> ev_target ` set es \<longleftrightarrow> (1 :: 64 word) \<noteq> 2"
    by (rule touch_is_a_change [OF 1 2])
       (simp_all add: touched_def system_config_on_start_def new_system_config_monitor_def)
  with 2 show ?thesis by auto
qed

end
