(* ===== verification/Usb_Device_Monitor.thy ===== *)
theory Usb_Device_Monitor
  imports Monitor
begin

text \<open>
  \<open>monitor/usb_device/usb_device_monitor.h\<close> and \<open>.cpp\<close>, Linux: the devices below
  \<open>/sys/bus/usb/devices\<close>.  The directory is a list of names, \<open>None\<close> if it cannot be opened; \<open>read\<close> gives
  the content of a file.  The start does not reset the flag of the first scan.
\<close>

record UsbDeviceInfo =
  ud_device_id :: string
  ud_vendor :: string
  ud_product :: string
  ud_serial :: string
  ud_mount_point :: string
  ud_size_bytes :: int

record UsbDeviceMonitor =
  udm_previous_devices :: "(string, UsbDeviceInfo) omap"
  udm_first_scan :: bool

definition new_usb_monitor :: UsbDeviceMonitor where
  "new_usb_monitor = \<lparr> udm_previous_devices = [], udm_first_scan = True \<rparr>"

text \<open>The first line of a file without line breaks at its end, empty if the file cannot be opened.\<close>
definition usb_read_file :: "(string \<Rightarrow> string option) \<Rightarrow> string \<Rightarrow> string \<Rightarrow> string" where
  "usb_read_file read device_path filename =
     (case read (device_path @ ''/'' @ filename) of
        None \<Rightarrow> []
      | Some c \<Rightarrow>
          (case getlines c of
             [] \<Rightarrow> []
           | l # _ \<Rightarrow> rev (dropWhile (\<lambda>ch. ch = nl \<or> ch = cr) (rev l))))"

definition usb_mount_point :: "(string \<Rightarrow> string option) \<Rightarrow> string" where
  "usb_mount_point read =
     (case read ''/proc/mounts'' of
        None \<Rightarrow> []
      | Some c \<Rightarrow>
          (case find (\<lambda>line. contains line ''/dev/sd'' \<or> contains line ''/dev/usb'') (getlines c) of
             None \<Rightarrow> []
           | Some line \<Rightarrow> nth_token 1 (ws_tokens line)))"

definition usb_info :: "(string \<Rightarrow> string option) \<Rightarrow> string \<Rightarrow> UsbDeviceInfo" where
  "usb_info read d_name =
     (let device_path = ''/sys/bus/usb/devices/'' @ d_name;
          unknown = (\<lambda>s. if s = [] then ''Unknown'' else s);
          size_str = usb_read_file read device_path ''size''
      in \<lparr> ud_device_id = d_name,
           ud_vendor = unknown (usb_read_file read device_path ''manufacturer''),
           ud_product = unknown (usb_read_file read device_path ''product''),
           ud_serial = usb_read_file read device_path ''serial'',
           ud_mount_point = usb_mount_point read,
           ud_size_bytes = (if size_str = [] then 0
                            else (case stoll size_str of None \<Rightarrow> 0 | Some n \<Rightarrow> n * 512)) \<rparr>)"

definition usb_listed :: "string \<Rightarrow> bool" where
  "usb_listed d_name =
     (\<not> (d_name \<noteq> [] \<and> hd d_name = CHR ''.'') \<and> CHR '':'' \<notin> set d_name \<and>
      length d_name \<ge> 3 \<and> contains d_name ''-'')"

definition scan_usb_devices ::
    "(string \<Rightarrow> string option) \<Rightarrow> string list option \<Rightarrow> (string, UsbDeviceInfo) omap" where
  "scan_usb_devices read dir =
     (case dir of
        None \<Rightarrow> []
      | Some names \<Rightarrow> fold (\<lambda>d m. omap_update d (usb_info read d) m) (filter usb_listed names) [])"

definition usb_event :: "timestamp \<Rightarrow> EventType \<Rightarrow> string \<Rightarrow> UsbDeviceInfo \<Rightarrow> Event" where
  "usb_event t ty verb info =
     (event_default t)
       \<lparr> ev_category := Hardware, ev_type := ty, ev_source := ''usb_device_monitor'', ev_target := ud_device_id info,
         ev_attributes := omap_update ''size_bytes'' (int_str (ud_size_bytes info))
           (omap_update ''mount_point'' (ud_mount_point info) (omap_update ''serial'' (ud_serial info)
             (omap_update ''product'' (ud_product info) (omap_update ''vendor'' (ud_vendor info) [])))),
         ev_summary := ''USB device '' @ verb @ '': '' @ ud_vendor info @ '' '' @ ud_product info \<rparr>"

definition usb_diff ::
    "(string \<Rightarrow> timestamp) \<Rightarrow> (string, UsbDeviceInfo) omap \<Rightarrow> UsbDeviceMonitor \<Rightarrow> UsbDeviceMonitor \<times> Event list" where
  "usb_diff stamp current m =
     (\<lparr> udm_previous_devices = current, udm_first_scan = False \<rparr>,
      if udm_first_scan m then []
      else map_diff (\<lambda>d prev info. if prev = None then [usb_event (stamp d) UsbDeviceInserted ''inserted'' info] else [])
                    (\<lambda>d info. [usb_event (stamp d) UsbDeviceRemoved ''removed'' info])
                    (udm_previous_devices m) current)"

definition usb_tick ::
    "(string \<Rightarrow> timestamp) \<Rightarrow> (string \<Rightarrow> string option) \<Rightarrow> string list option \<Rightarrow> UsbDeviceMonitor \<Rightarrow>
     UsbDeviceMonitor \<times> Event list" where
  "usb_tick stamp read dir m = usb_diff stamp (scan_usb_devices read dir) m"

subsection \<open>The contract\<close>

definition usb_effect :: "Event \<Rightarrow> string set \<Rightarrow> string set" where
  "usb_effect e S =
     (case ev_type e of
        UsbDeviceInserted \<Rightarrow> insert (ev_target e) S | UsbDeviceRemoved \<Rightarrow> S - {ev_target e} | _ \<Rightarrow> S)"

definition valid_devices :: "(string, UsbDeviceInfo) omap \<Rightarrow> bool" where
  "valid_devices m = (distinct (map fst m) \<and> (\<forall>(d, info) \<in> set m. ud_device_id info = d))"

lemma usb_poll_effect:
  assumes "valid_devices prev" "valid_devices cur"
  shows "fold usb_effect (map_diff (\<lambda>d p info. if p = None then [usb_event (stamp d) UsbDeviceInserted ''inserted'' info] else [])
           (\<lambda>d info. [usb_event (stamp d) UsbDeviceRemoved ''removed'' info]) prev cur) (fst ` set prev) = fst ` set cur"
  using assms by (intro map_diff_effect) (auto simp: usb_effect_def usb_event_def valid_devices_def)

interpretation usb_devices: snapshot_monitor usb_diff "\<lambda>m. fst ` set m" udm_previous_devices udm_first_scan
  usb_effect valid_devices
  by unfold_locales (auto simp: usb_diff_def usb_poll_effect intro!: map_diff_same, simp add: valid_devices_def)

lemma valid_usb_scan: "valid_devices (scan_usb_devices read dir)"
  by (auto simp: valid_devices_def scan_usb_devices_def usb_info_def Let_def split: option.splits
      intro!: omap_sorted_distinct fold_update_sorted [where f = "\<lambda>d. d"]
      dest!: fold_update_mem [where f = "\<lambda>d. d"])

text \<open>Every device of a scan gets the same mount point: that of the first disk of \<open>/proc/mounts\<close>.\<close>
lemma mount_point_is_shared:
  assumes "(d, info) \<in> set (scan_usb_devices read dir)"
  shows "ud_mount_point info = usb_mount_point read"
  using assms
  by (auto simp: scan_usb_devices_def usb_info_def Let_def split: option.splits
      dest!: fold_update_mem [where f = "\<lambda>d. d"])

end
