(* ===== verification/Service_Monitor.thy ===== *)
theory Service_Monitor
  imports Monitor
begin

text \<open>
  \<open>monitor/service/service_monitor.h\<close> and \<open>.cpp\<close>, Linux: the services of two directories.  A directory is
  the list of its entries, \<open>None\<close> if it does not exist; the files an entry leads the source to open
  are read through \<open>read\<close>, and \<open>exists\<close> answers \<open>std::filesystem::exists\<close>.
\<close>

datatype ServiceState = StateUnknown | Running | Stopped | Failed | Starting | Stopping

definition service_state_name :: "ServiceState \<Rightarrow> string" where
  "service_state_name state =
     (case state of Running \<Rightarrow> ''running'' | Stopped \<Rightarrow> ''stopped'' | Failed \<Rightarrow> ''failed''
      | Starting \<Rightarrow> ''starting'' | Stopping \<Rightarrow> ''stopping'' | StateUnknown \<Rightarrow> ''unknown'')"

record ServiceInfo =
  si_name :: string
  si_state :: ServiceState
  si_description :: string
  si_exec_start :: string
  si_pid :: int
  si_enabled :: bool

record ServiceMonitor =
  sm_previous :: "(string, ServiceInfo) omap"
  sm_first_scan :: bool

definition new_service_monitor :: ServiceMonitor where
  "new_service_monitor = \<lparr> sm_previous = [], sm_first_scan = True \<rparr>"

definition service_on_start :: "ServiceMonitor \<Rightarrow> ServiceMonitor \<times> bool" where
  "service_on_start m = (m\<lparr>sm_first_scan := True\<rparr>, True)"

text \<open>An entry of a directory: regular file or not, name, content if it can be opened.\<close>
record dir_entry =
  de_is_regular :: bool
  de_filename :: string
  de_content :: "string option"

definition new_service :: "string \<Rightarrow> ServiceInfo" where
  "new_service name = \<lparr> si_name = name, si_state = StateUnknown, si_description = [], si_exec_start = [], si_pid = 0,
                        si_enabled = False \<rparr>"

text \<open>A line of a unit file; the second directory ignores \<open>WantedBy\<close>.\<close>
definition unit_line :: "bool \<Rightarrow> string \<Rightarrow> ServiceInfo \<Rightarrow> ServiceInfo" where
  "unit_line wanted line info =
     (if starts_with line ''[Unit]'' then info
      else if starts_with line ''Description='' then info\<lparr>si_description := drop 12 line\<rparr>
      else if starts_with line ''[Service]'' then info
      else if starts_with line ''ExecStart='' then info\<lparr>si_exec_start := drop 10 line\<rparr>
      else if wanted \<and> starts_with line ''WantedBy='' then info\<lparr>si_enabled := True\<rparr>
      else info)"

definition unit_file :: "bool \<Rightarrow> dir_entry \<Rightarrow> ServiceInfo" where
  "unit_file wanted d =
     (case de_content d of
        None \<Rightarrow> new_service (de_filename d)
      | Some c \<Rightarrow> fold (unit_line wanted) (getlines c) (new_service (de_filename d)))"

text \<open>\<open>pid_stream >> info.pid\<close>: zero without a number, the nearest bound out of range.\<close>
definition read_pid :: "string option \<Rightarrow> ServiceInfo \<Rightarrow> ServiceInfo" where
  "read_pid pid_file info =
     (case pid_file of
        None \<Rightarrow> info\<lparr>si_state := Stopped\<rparr>
      | Some c \<Rightarrow>
          (let pid = (case strtol_prefix c of
                        None \<Rightarrow> 0 | Some (v, _) \<Rightarrow> max (- 2147483648) (min v 2147483647))
           in info\<lparr>si_pid := pid, si_state := (if pid > 0 then Running else Stopped)\<rparr>))"

definition etc_service :: "(string \<Rightarrow> string option) \<Rightarrow> (string \<Rightarrow> bool) \<Rightarrow> dir_entry \<Rightarrow> ServiceInfo option" where
  "etc_service read exists d =
     (let filename = de_filename d in
      if \<not> de_is_regular d \<or> take 1 filename = ''.'' then None
      else (let info = unit_file True d;
                info1 = (if exists (''/run/systemd/system/'' @ filename @ ''.wants'')
                         then info\<lparr>si_enabled := True\<rparr> else info);
                pid_file = (if length filename > 8 \<and> drop (length filename - 8) filename = ''.service''
                            then ''/var/run/'' @ take (length filename - 8) filename @ ''.pid''
                            else ''/var/run/'' @ filename)
            in Some (read_pid (read pid_file) info1)))"

definition lib_service :: "(string \<Rightarrow> string option) \<Rightarrow> (string \<Rightarrow> bool) \<Rightarrow> dir_entry \<Rightarrow> ServiceInfo option" where
  "lib_service read exists d =
     (let filename = de_filename d in
      if \<not> de_is_regular d \<or> take 1 filename = ''.'' \<or> \<not> contains filename ''.service'' then None
      else (let info = unit_file False d;
                service_name = (if length filename > 8 then take (length filename - 8) filename else filename);
                info1 = (if exists (''/etc/systemd/system/multi-user.target.wants/'' @ filename)
                         then info\<lparr>si_enabled := True\<rparr> else info)
            in Some (read_pid (read (''/var/run/'' @ service_name @ ''.pid'')) info1)))"

text \<open>The second loop skips a service that is listed already.\<close>
definition add_lib_service ::
    "(string \<Rightarrow> string option) \<Rightarrow> (string \<Rightarrow> bool) \<Rightarrow> dir_entry \<Rightarrow> ServiceInfo list \<Rightarrow> ServiceInfo list" where
  "add_lib_service read exists d result =
     (case lib_service read exists d of
        None \<Rightarrow> result
      | Some info \<Rightarrow> (if list_ex (\<lambda>r. si_name r = de_filename d) result then result else result @ [info]))"

definition service_snapshot ::
    "(string \<Rightarrow> string option) \<Rightarrow> (string \<Rightarrow> bool) \<Rightarrow> (string \<Rightarrow> dir_entry list option) \<Rightarrow> ServiceInfo list" where
  "service_snapshot read exists listing =
     (let etc = (case listing ''/etc/systemd/system'' of
                   Some ds \<Rightarrow> ds
                 | None \<Rightarrow> (case listing ''/etc/init.d'' of None \<Rightarrow> [] | Some ds \<Rightarrow> ds));
          result = List.map_filter (etc_service read exists) etc
      in case listing ''/lib/systemd/system'' of
           None \<Rightarrow> result
         | Some ds \<Rightarrow> fold (add_lib_service read exists) ds result)"

definition service_map :: "ServiceInfo list \<Rightarrow> (string, ServiceInfo) omap" where
  "service_map ss = fold (\<lambda>s m. omap_update (si_name s) s m) ss []"

definition service_event :: "string poll_env \<Rightarrow> string \<Rightarrow> string \<Rightarrow> (string, string) omap \<Rightarrow> Event" where
  "service_event env name summary attrs =
     (event_default (pe_stamp env name))
       \<lparr> ev_category := SystemConfig, ev_type := ServiceStateChanged, ev_source := ''service'', ev_target := name,
         ev_summary := summary, ev_attributes := attrs, ev_platform := pe_platform env, ev_host := pe_host env \<rparr>"

definition service_seen :: "string poll_env \<Rightarrow> (string, ServiceInfo) omap \<Rightarrow> string \<Rightarrow> ServiceInfo \<Rightarrow> Event list" where
  "service_seen env prev_copy name info =
     (let state = service_state_name (si_state info) in
      case map_of prev_copy name of
        None \<Rightarrow>
          (let a = omap_update ''enabled'' (if si_enabled info then ''true'' else ''false'')
                 (omap_update ''description'' (si_description info)
                   (omap_update ''state'' state (omap_update ''service'' name [])));
               a1 = (if si_pid info > 0 then omap_update ''pid'' (int_str (si_pid info)) a else a)
           in [service_event env name (''Service state changed: '' @ name @ '' -> '' @ state) a1])
      | Some prev \<Rightarrow>
          (if si_state prev \<noteq> si_state info then
             (let old = service_state_name (si_state prev) in
              [service_event env name (''Service state changed: '' @ name @ '' ('' @ old @ '' -> '' @ state @ '')'')
                 (omap_update ''description'' (si_description info) (omap_update ''new_state'' state
                   (omap_update ''old_state'' old (omap_update ''service'' name []))))])
           else []))"

definition service_diff ::
    "string poll_env \<Rightarrow> (string, ServiceInfo) omap \<Rightarrow> ServiceMonitor \<Rightarrow> ServiceMonitor \<times> Event list" where
  "service_diff env current m =
     (\<lparr> sm_previous = current, sm_first_scan = False \<rparr>,
      if sm_first_scan m then []
      else concat (map (\<lambda>(name, info). service_seen env (sm_previous m) name info) current))"

definition service_tick ::
    "string poll_env \<Rightarrow> (string \<Rightarrow> string option) \<Rightarrow> (string \<Rightarrow> bool) \<Rightarrow> (string \<Rightarrow> dir_entry list option) \<Rightarrow>
     ServiceMonitor \<Rightarrow> ServiceMonitor \<times> Event list" where
  "service_tick env read exists listing m = service_diff env (service_map (service_snapshot read exists listing)) m"

subsection \<open>What is reported\<close>

lemma service_diff_targets:
  assumes "\<not> sm_first_scan m" "distinct (map fst cur)"
  shows "ev_target ` set (snd (service_diff env cur m)) =
    {n. \<exists>s. map_of cur n = Some s \<and> map_option si_state (map_of (sm_previous m) n) \<noteq> Some (si_state s)}"
proof -
  have "ev_target ` set (concat (map (\<lambda>(n, s). service_seen env (sm_previous m) n s) cur)) =
      {n. \<exists>s. (n, s) \<in> set cur \<and> service_seen env (sm_previous m) n s \<noteq> []}"
    by (rule loop_targets) (auto simp: service_seen_def service_event_def Let_def split: option.splits if_splits)
  moreover have "service_seen env prev n s \<noteq> [] \<longleftrightarrow> map_option si_state (map_of prev n) \<noteq> Some (si_state s)" for prev n s
    by (auto simp: service_seen_def Let_def split: option.split)
  ultimately show ?thesis using assms by (simp add: service_diff_def)
qed

lemma service_map_sorted: "distinct (map fst (service_map ss))"
  by (auto simp: service_map_def intro!: omap_sorted_distinct fold_update_sorted)

text \<open>A service that disappears is never reported.\<close>
lemma removed_service_is_silent:
  assumes "map_of (service_map (service_snapshot read exists listing)) n = None"
  shows "n \<notin> ev_target ` set (snd (service_tick env read exists listing m))"
proof (cases "sm_first_scan m")
  case False
  then show ?thesis
    using service_diff_targets [OF False service_map_sorted] assms by (simp add: service_tick_def)
qed (simp add: service_tick_def service_diff_def)

end
