(* ===== verification/Disk_Space_Monitor.thy ===== *)
theory Disk_Space_Monitor
  imports Monitor Cpp_Double
begin

text \<open>
  \<open>monitor/disk_space/disk_space_monitor.h\<close> and \<open>.cpp\<close>, Linux: usage of the mounted file systems against
  two thresholds.  The arithmetic on doubles that rounds is the parameter
  \<open>double_ops\<close>; comparisons are exact.  \<open>mounts\<close> is the mount table, \<open>None\<close> if neither
  file opens, with the \<open>statvfs\<close> answer for each entry.
\<close>

record mount_entry =
  me_type :: string
  me_dir :: string
  me_fsname :: string
  me_stat :: "(64 word \<times> 64 word \<times> 64 word) option"

record DiskInfo =
  di_mount_point :: string
  di_device :: string
  di_total_bytes :: int
  di_used_bytes :: int
  di_free_bytes :: int
  di_usage_percent :: double

record DiskSpaceMonitor =
  dsm_previous_state :: "(string, DiskInfo) omap"
  dsm_first_scan :: bool
  dsm_warning_threshold :: double
  dsm_critical_threshold :: double
  dsm_watch_paths :: "string list"

definition new_disk_monitor :: DiskSpaceMonitor where
  "new_disk_monitor = \<lparr> dsm_previous_state = [], dsm_first_scan = True, dsm_warning_threshold = Fin 80,
     dsm_critical_threshold = Fin 95, dsm_watch_paths = [] \<rparr>"

definition pseudo_filesystems :: "string list" where
  "pseudo_filesystems =
     [''proc'', ''sysfs'', ''devfs'', ''tmpfs'', ''devtmpfs'', ''cgroup'', ''cgroup2'', ''pstore'', ''securityfs'',
      ''mqueue'', ''debugfs'', ''tracefs'', ''configfs'', ''fusectl'', ''hugetlbfs'', ''autofs'', ''binfmt_misc'',
      ''overlay'']"

text \<open>The products are unsigned and wrap; the results are stored as signed 64-bit values.\<close>
definition disk_info :: "double_ops \<Rightarrow> mount_entry \<Rightarrow> DiskInfo option" where
  "disk_info ops mnt =
     (case me_stat mnt of
        None \<Rightarrow> None
      | Some (frsize, blocks, bavail) \<Rightarrow>
          (let total = sint (blocks * frsize); free = sint (bavail * frsize); used = sint (blocks * frsize - bavail * frsize) in
           Some \<lparr> di_mount_point = me_dir mnt, di_device = me_fsname mnt, di_total_bytes = total,
                  di_used_bytes = used, di_free_bytes = free,
                  di_usage_percent = (if total > 0 then do_percent ops used total else Fin 0) \<rparr>))"

definition disk_listed :: "DiskSpaceMonitor \<Rightarrow> mount_entry \<Rightarrow> bool" where
  "disk_listed m mnt =
     (me_type mnt \<notin> set pseudo_filesystems \<and>
      (dsm_watch_paths m = [] \<or> me_dir mnt \<in> set (dsm_watch_paths m)))"

definition scan_disk_space ::
    "double_ops \<Rightarrow> mount_entry list option \<Rightarrow> DiskSpaceMonitor \<Rightarrow> (string, DiskInfo) omap" where
  "scan_disk_space ops mounts m =
     (case mounts of
        None \<Rightarrow> []
      | Some ms \<Rightarrow> fold (\<lambda>i d. omap_update (di_mount_point i) i d)
                     (List.map_filter (disk_info ops) (filter (disk_listed m) ms)) [])"

definition disk_event :: "double_ops \<Rightarrow> timestamp \<Rightarrow> EventType \<Rightarrow> DiskInfo \<Rightarrow> string \<Rightarrow> (string, string) omap \<Rightarrow> Event" where
  "disk_event ops t ty info summary extra =
     (event_default t)
       \<lparr> ev_category := System, ev_type := ty, ev_source := ''disk_space_monitor'', ev_target := di_mount_point info,
         ev_attributes := fold (\<lambda>(k, v). omap_update k v) extra
           (omap_update ''usage_percent'' (do_to_string ops (di_usage_percent info))
             (omap_update ''free_bytes'' (int_str (di_free_bytes info))
               (omap_update ''used_bytes'' (int_str (di_used_bytes info))
                 (omap_update ''total_bytes'' (int_str (di_total_bytes info))
                   (omap_update ''device'' (di_device info) []))))),
         ev_summary := summary \<rparr>"

definition int_percent :: "double_ops \<Rightarrow> double \<Rightarrow> string" where
  "int_percent ops d = int_str (do_to_int ops d)"

text \<open>One iteration of the loop of \<open>tick\<close>.\<close>
definition disk_check :: "double_ops \<Rightarrow> (string \<Rightarrow> timestamp) \<Rightarrow> DiskSpaceMonitor \<Rightarrow> string \<Rightarrow> DiskInfo \<Rightarrow> Event list" where
  "disk_check ops stamp m mount info =
     (let prev_it = map_of (dsm_previous_state m) mount;
          prev_usage = (case prev_it of None \<Rightarrow> Fin 0 | Some p \<Rightarrow> di_usage_percent p);
          usage = di_usage_percent info
      in if dle (dsm_critical_threshold m) usage \<and> dlt prev_usage (dsm_critical_threshold m) then
           [disk_event ops (stamp mount) DiskSpaceCritical info
              (''Disk space critical: '' @ di_mount_point info @ '' at '' @ int_percent ops usage @ ''% usage'') []]
         else if dle (dsm_warning_threshold m) usage \<and> dlt prev_usage (dsm_warning_threshold m) then
           [disk_event ops (stamp mount) DiskSpaceWarning info
              (''Disk space warning: '' @ di_mount_point info @ '' at '' @ int_percent ops usage @ ''% usage'') []]
         else if prev_it \<noteq> None \<and> dle (Fin 5) (do_abs_diff ops usage prev_usage) then
           [disk_event ops (stamp mount) DiskSpaceChanged info
              (''Disk space changed: '' @ di_mount_point info @ '' from '' @ int_percent ops prev_usage @ ''% to '' @
               int_percent ops usage @ ''%'')
              [(''previous_percent'', do_to_string ops prev_usage)]]
         else [])"

definition disk_diff ::
    "double_ops \<Rightarrow> (string \<Rightarrow> timestamp) \<Rightarrow> (string, DiskInfo) omap \<Rightarrow> DiskSpaceMonitor \<Rightarrow> DiskSpaceMonitor \<times> Event list" where
  "disk_diff ops stamp current m =
     (m\<lparr>dsm_first_scan := False, dsm_previous_state := current\<rparr>,
      if dsm_first_scan m then []
      else concat (map (\<lambda>(mount, info). disk_check ops stamp m mount info) current))"

definition disk_tick ::
    "double_ops \<Rightarrow> (string \<Rightarrow> timestamp) \<Rightarrow> mount_entry list option \<Rightarrow> DiskSpaceMonitor \<Rightarrow> DiskSpaceMonitor \<times> Event list" where
  "disk_tick ops stamp mounts m = disk_diff ops stamp (scan_disk_space ops mounts m) m"

subsection \<open>Alarms\<close>

definition usage_of :: "(string, DiskInfo) omap \<Rightarrow> string \<Rightarrow> double" where
  "usage_of m mount = (case map_of m mount of None \<Rightarrow> Fin 0 | Some i \<Rightarrow> di_usage_percent i)"

text \<open>The type of the event a mount gets, if it gets one.\<close>
definition disk_alarm :: "double_ops \<Rightarrow> DiskSpaceMonitor \<Rightarrow> string \<Rightarrow> double \<Rightarrow> EventType option" where
  "disk_alarm ops m mount usage =
     (let prev = usage_of (dsm_previous_state m) mount in
      if dle (dsm_critical_threshold m) usage \<and> dlt prev (dsm_critical_threshold m) then Some DiskSpaceCritical
      else if dle (dsm_warning_threshold m) usage \<and> dlt prev (dsm_warning_threshold m) then Some DiskSpaceWarning
      else if map_of (dsm_previous_state m) mount \<noteq> None \<and> dle (Fin 5) (do_abs_diff ops usage prev)
      then Some DiskSpaceChanged else None)"

lemma disk_check_alarm:
  "map ev_type (disk_check ops stamp m mount info) =
     (case disk_alarm ops m mount (di_usage_percent info) of None \<Rightarrow> [] | Some t \<Rightarrow> [t])"
  by (simp add: disk_check_def disk_alarm_def usage_of_def disk_event_def Let_def split: option.split)

lemma fold_disk_keys:
  assumes "(k, i) \<in> set (scan_disk_space ops mounts m)"
  shows "di_mount_point i = k"
  using assms by (auto simp: scan_disk_space_def split: option.splits dest!: fold_update_mem)

lemma scan_disk_distinct: "distinct (map fst (scan_disk_space ops mounts m))"
  by (auto simp: scan_disk_space_def split: option.split intro!: omap_sorted_distinct fold_update_sorted)

subsection \<open>Properties\<close>

text \<open>after the first scan a mount gets at most one event per tick, and its type is decided by the usage
  alone: critical when the usage reaches the critical threshold from below, else warning when it
  reaches the warning threshold from below, else change when it moved by five points or more.\<close>
theorem disk_alarm_exact:
  assumes "\<not> dsm_first_scan m" "disk_tick ops stamp mounts m = (m', es)"
  shows "map ev_type (filter (\<lambda>e. ev_target e = mount) es) =
    (case map_of (scan_disk_space ops mounts m) mount of
       None \<Rightarrow> []
     | Some info \<Rightarrow>
         (case disk_alarm ops m mount (di_usage_percent info) of None \<Rightarrow> [] | Some t \<Rightarrow> [t]))"
proof -
  let ?cur = "scan_disk_space ops mounts m"
  have es: "es = concat (map (\<lambda>(k, i). disk_check ops stamp m k i) ?cur)"
    using assms by (simp add: disk_tick_def disk_diff_def)
  have "filter (\<lambda>e. ev_target e = mount) es =
      (case map_of ?cur mount of None \<Rightarrow> [] | Some i \<Rightarrow> disk_check ops stamp m mount i)"
    unfolding es
    by (rule concat_filter_key [OF scan_disk_distinct])
       (auto simp: disk_check_def disk_event_def Let_def fold_disk_keys split: if_splits)
  then show ?thesis by (simp add: disk_check_alarm split: option.split)
qed

definition demo_ops :: double_ops where
  "demo_ops = \<lparr> do_percent = (\<lambda>u t. Fin (of_int (u * 100 div t))), do_abs_diff = (\<lambda>a b. Fin 0),
                do_to_string = (\<lambda>_. []), do_to_int = (\<lambda>_. 0) \<rparr>"

definition full_disk :: "mount_entry list option" where
  "full_disk = Some [\<lparr> me_type = ''ext4'', me_dir = ''/'', me_fsname = ''/dev/sda1'', me_stat = Some (1, 100, 3) \<rparr>]"

lemma disk_alarm_exact_witness:
  "\<exists>m' es. disk_tick demo_ops (\<lambda>_. 0) full_disk (new_disk_monitor\<lparr>dsm_first_scan := False\<rparr>) = (m', es) \<and>
     map ev_type (filter (\<lambda>e. ev_target e = ''/'') es) = [DiskSpaceCritical]"
proof -
  let ?m = "new_disk_monitor\<lparr>dsm_first_scan := False\<rparr>"
  obtain m' es where t: "disk_tick demo_ops (\<lambda>_. 0) full_disk ?m = (m', es)" by (rule prod.exhaust)
  have s: "map_of (scan_disk_space demo_ops full_disk ?m) ''/'' =
      Some \<lparr> di_mount_point = ''/'', di_device = ''/dev/sda1'', di_total_bytes = 100, di_used_bytes = 97,
             di_free_bytes = 3, di_usage_percent = Fin 97 \<rparr>"
    by (simp add: scan_disk_space_def full_disk_def disk_listed_def pseudo_filesystems_def new_disk_monitor_def
        List.map_filter_def disk_info_def Let_def demo_ops_def)
  have "disk_alarm demo_ops ?m ''/'' (Fin 97) = Some DiskSpaceCritical"
    by (simp add: disk_alarm_def usage_of_def new_disk_monitor_def Let_def)
  then have "map ev_type (filter (\<lambda>e. ev_target e = ''/'') es) = [DiskSpaceCritical]"
    using disk_alarm_exact [OF _ t, of "''/''"] s by simp
  with t show ?thesis by (intro exI [of _ m'] exI [of _ es]) simp
qed

end
