(* ===== verification/System_Load_Monitor.thy ===== *)
theory System_Load_Monitor
  imports Monitor Cpp_Double
begin

text \<open>
  \<open>monitor/system_load/system_load_monitor.h\<close> and \<open>.cpp\<close>, Linux: load averages, processor and memory usage
  from three files under \<open>/proc\<close>, and the two-state alarm.  Reading doubles from a stream and the
  arithmetic that rounds are parameters.  A number that \<open>>>\<close> does not reach, because the stream has
  failed before, keeps the value of its variable; the eight processor counters have no initial value
  in the source, so what they hold then is the parameter \<open>junk\<close>.
\<close>

record SystemLoadInfo =
  sl_load_1min :: double
  sl_load_5min :: double
  sl_load_15min :: double
  sl_cpu_usage_percent :: double
  sl_total_memory :: int
  sl_used_memory :: int
  sl_memory_usage_percent :: double

record SystemLoadMonitor =
  slm_previous_info :: SystemLoadInfo
  slm_first_scan :: bool
  slm_load_threshold :: double
  slm_cpu_threshold :: double
  slm_high_load_state :: bool
  slm_prev_total :: int
  slm_prev_active :: int

definition new_load_info :: SystemLoadInfo where
  "new_load_info =
     \<lparr> sl_load_1min = Fin 0, sl_load_5min = Fin 0, sl_load_15min = Fin 0, sl_cpu_usage_percent = Fin 0,
       sl_total_memory = 0, sl_used_memory = 0, sl_memory_usage_percent = Fin 0 \<rparr>"

text \<open>The two function-local statics of \<open>get_system_load\<close> are the last two fields.\<close>
definition new_system_load_monitor :: SystemLoadMonitor where
  "new_system_load_monitor =
     \<lparr> slm_previous_info = new_load_info, slm_first_scan = True, slm_load_threshold = Fin 5, slm_cpu_threshold = Fin 90,
       slm_high_load_state = False, slm_prev_total = 0, slm_prev_active = 0 \<rparr>"

definition set_load_threshold :: "double \<Rightarrow> SystemLoadMonitor \<Rightarrow> SystemLoadMonitor" where
  "set_load_threshold t m = m\<lparr>slm_load_threshold := t\<rparr>"

definition set_cpu_threshold :: "double \<Rightarrow> SystemLoadMonitor \<Rightarrow> SystemLoadMonitor" where
  "set_cpu_threshold t m = m\<lparr>slm_cpu_threshold := t\<rparr>"

subsection \<open>Reading the files\<close>

text \<open>\<open>stream >> a >> b >> ...\<close> into 64-bit variables with the given old values.\<close>
fun extract_ints :: "int list \<Rightarrow> string \<Rightarrow> int list" where
  "extract_ints [] s = []"
| "extract_ints (old # olds) s =
     (if dropWhile isspace s = [] then old # olds
      else (case strtol_prefix s of
              None \<Rightarrow> 0 # olds
            | Some (v, rest) \<Rightarrow>
                (if in_int64 v then v # extract_ints olds rest
                 else max (- 9223372036854775808) (min v 9223372036854775807) # olds)))"

text \<open>The rest of the stream after \<open>stream >> label\<close>.\<close>
definition after_label :: "string \<Rightarrow> string" where
  "after_label s = dropWhile (\<lambda>c. \<not> isspace c) (dropWhile isspace s)"

text \<open>The first line of \<open>/proc/stat\<close>: total and active time.\<close>
definition cpu_times :: "int list \<Rightarrow> string \<Rightarrow> int \<times> int" where
  "cpu_times junk line =
     (let v = extract_ints junk (after_label line) in
      (v ! 0 + v ! 1 + v ! 2 + v ! 3 + v ! 4 + v ! 5 + v ! 6 + v ! 7,
       v ! 0 + v ! 1 + v ! 2 + v ! 5 + v ! 6 + v ! 7))"

definition cpu_usage :: "double_ops \<Rightarrow> int list \<Rightarrow> string option \<Rightarrow> SystemLoadMonitor \<Rightarrow> double \<times> SystemLoadMonitor" where
  "cpu_usage ops junk stat m =
     (case stat of
        None \<Rightarrow> (Fin 0, m)
      | Some c \<Rightarrow>
          (case getlines c of
             [] \<Rightarrow> (Fin 0, m)
           | line # _ \<Rightarrow>
               (let (total, active) = cpu_times junk line;
                    delta_total = total - slm_prev_total m;
                    delta_active = active - slm_prev_active m
                in (if delta_total > 0 then do_percent ops delta_active delta_total else Fin 0,
                    m\<lparr>slm_prev_total := total, slm_prev_active := active\<rparr>))))"

text \<open>Total and available memory in kilobytes; the other three numbers the loop reads are not used.\<close>
definition memory_line :: "string \<Rightarrow> int \<times> int \<Rightarrow> int \<times> int" where
  "memory_line line = (\<lambda>(total, available).
     if starts_with line ''MemTotal:'' then (hd (extract_ints [total] (after_label line)), available)
     else if starts_with line ''MemAvailable:'' then (total, hd (extract_ints [available] (after_label line)))
     else (total, available))"

definition memory_of :: "string option \<Rightarrow> int \<times> int" where
  "memory_of meminfo = (case meminfo of None \<Rightarrow> (0, 0) | Some c \<Rightarrow> fold memory_line (getlines c) (0, 0))"

definition get_system_load ::
    "double_ops \<Rightarrow> (string \<Rightarrow> double \<times> double \<times> double) \<Rightarrow> int list \<Rightarrow> (string \<Rightarrow> string option) \<Rightarrow>
     SystemLoadMonitor \<Rightarrow> SystemLoadInfo \<times> SystemLoadMonitor" where
  "get_system_load ops doubles junk read m =
     (let (l1, l5, l15) = (case read ''/proc/loadavg'' of None \<Rightarrow> (Fin 0, Fin 0, Fin 0) | Some c \<Rightarrow> doubles c);
          (cpu, m1) = cpu_usage ops junk (read ''/proc/stat'') m;
          (total, available) = memory_of (read ''/proc/meminfo'');
          used = total - available
      in (\<lparr> sl_load_1min = l1, sl_load_5min = l5, sl_load_15min = l15, sl_cpu_usage_percent = cpu,
            sl_total_memory = total * 1024, sl_used_memory = used * 1024,
            sl_memory_usage_percent = (if total > 0 then do_percent ops used total else Fin 0) \<rparr>, m1))"

subsection \<open>The alarm\<close>

definition load_is_high :: "SystemLoadMonitor \<Rightarrow> SystemLoadInfo \<Rightarrow> bool" where
  "load_is_high m i = (dle (slm_load_threshold m) (sl_load_1min i) \<or> dle (slm_cpu_threshold m) (sl_cpu_usage_percent i))"

definition load_event :: "double_ops \<Rightarrow> timestamp \<Rightarrow> EventType \<Rightarrow> string \<Rightarrow> SystemLoadInfo \<Rightarrow> Event" where
  "load_event ops now t text i =
     (event_default now)
       \<lparr> ev_category := System, ev_type := t, ev_source := ''system_load_monitor'', ev_target := ''system'',
         ev_attributes :=
           omap_update ''memory_usage_percent'' (do_to_string ops (sl_memory_usage_percent i))
          (omap_update ''cpu_usage_percent'' (do_to_string ops (sl_cpu_usage_percent i))
          (omap_update ''load_15min'' (do_to_string ops (sl_load_15min i))
          (omap_update ''load_5min'' (do_to_string ops (sl_load_5min i))
          (omap_update ''load_1min'' (do_to_string ops (sl_load_1min i)) [])))),
         ev_summary := text @ do_to_string ops (sl_load_1min i) @ '', cpu='' @
           int_str (do_to_int ops (sl_cpu_usage_percent i)) @ ''%'' \<rparr>"

definition load_check :: "double_ops \<Rightarrow> timestamp \<Rightarrow> SystemLoadInfo \<Rightarrow> SystemLoadMonitor \<Rightarrow> SystemLoadMonitor \<times> Event list" where
  "load_check ops now i m =
     (if slm_first_scan m then (m\<lparr>slm_previous_info := i, slm_first_scan := False\<rparr>, [])
      else if load_is_high m i \<and> \<not> slm_high_load_state m
      then (m\<lparr>slm_high_load_state := True, slm_previous_info := i\<rparr>,
            [load_event ops now SystemLoadHigh ''High system load detected: load='' i])
      else if \<not> load_is_high m i \<and> slm_high_load_state m
      then (m\<lparr>slm_high_load_state := False, slm_previous_info := i\<rparr>,
            [load_event ops now SystemLoadNormal ''System load returned to normal: load='' i])
      else (m\<lparr>slm_previous_info := i\<rparr>, []))"

definition load_tick ::
    "double_ops \<Rightarrow> (string \<Rightarrow> double \<times> double \<times> double) \<Rightarrow> int list \<Rightarrow> (string \<Rightarrow> string option) \<Rightarrow> timestamp \<Rightarrow>
     SystemLoadMonitor \<Rightarrow> SystemLoadMonitor \<times> Event list" where
  "load_tick ops doubles junk read now m =
     (let (i, m1) = get_system_load ops doubles junk read m in load_check ops now i m1)"

subsection \<open>A run of polls\<close>

fun load_run ::
    "double_ops \<Rightarrow> (string \<Rightarrow> double \<times> double \<times> double) \<Rightarrow> int list \<Rightarrow> ((string \<Rightarrow> string option) \<times> timestamp) list \<Rightarrow>
     SystemLoadMonitor \<Rightarrow> SystemLoadMonitor \<times> Event list" where
  "load_run ops doubles junk [] m = (m, [])"
| "load_run ops doubles junk ((read, now) # polls) m =
     (let (m1, es) = load_tick ops doubles junk read now m;
          (m2, es2) = load_run ops doubles junk polls m1
      in (m2, es @ es2))"

text \<open>What the polls of a run measure.\<close>
fun load_infos ::
    "double_ops \<Rightarrow> (string \<Rightarrow> double \<times> double \<times> double) \<Rightarrow> int list \<Rightarrow> ((string \<Rightarrow> string option) \<times> timestamp) list \<Rightarrow>
     SystemLoadMonitor \<Rightarrow> SystemLoadInfo list" where
  "load_infos ops doubles junk [] m = []"
| "load_infos ops doubles junk ((read, now) # polls) m =
     (let (i, m1) = get_system_load ops doubles junk read m
      in i # load_infos ops doubles junk polls m1)"

definition load_type :: "bool \<Rightarrow> EventType" where
  "load_type high = (if high then SystemLoadHigh else SystemLoadNormal)"

text \<open>Reading touches only the two statics, checking only the other fields.\<close>
lemma get_system_load_frame:
  "slm_first_scan (snd (get_system_load ops d j r m)) = slm_first_scan m"
  "slm_high_load_state (snd (get_system_load ops d j r m)) = slm_high_load_state m"
  "load_is_high (snd (get_system_load ops d j r m)) = load_is_high m"
  by (auto simp: get_system_load_def cpu_usage_def Let_def load_is_high_def fun_eq_iff split: option.split list.split prod.split)

lemma get_system_load_statics:
  assumes "slm_prev_total m = slm_prev_total m'" "slm_prev_active m = slm_prev_active m'"
  shows "fst (get_system_load ops d j r m) = fst (get_system_load ops d j r m')"
    and "slm_prev_total (snd (get_system_load ops d j r m)) = slm_prev_total (snd (get_system_load ops d j r m'))"
    and "slm_prev_active (snd (get_system_load ops d j r m)) = slm_prev_active (snd (get_system_load ops d j r m'))"
  using assms
  by (auto simp: get_system_load_def cpu_usage_def Let_def split: option.split list.split prod.split)

lemma load_infos_statics:
  assumes "slm_prev_total m = slm_prev_total m'" "slm_prev_active m = slm_prev_active m'"
  shows "load_infos ops d j polls m = load_infos ops d j polls m'"
  using assms
proof (induction polls arbitrary: m m')
  case (Cons poll polls)
  obtain r now where [simp]: "poll = (r, now)" by (rule prod.exhaust)
  note s = get_system_load_statics [OF Cons.prems, of ops d j r]
  have "load_infos ops d j polls (snd (get_system_load ops d j r m)) =
      load_infos ops d j polls (snd (get_system_load ops d j r m'))"
    by (rule Cons.IH) (use s in simp_all)
  with s(1) show ?case by (simp add: split_beta)
qed simp

lemma load_check_frame:
  "slm_prev_total (fst (load_check ops now i m)) = slm_prev_total m"
  "slm_prev_active (fst (load_check ops now i m)) = slm_prev_active m"
  "load_is_high (fst (load_check ops now i m)) = load_is_high m"
  "\<not> slm_first_scan (fst (load_check ops now i m))"
  by (auto simp: load_check_def load_is_high_def fun_eq_iff)

lemma load_check_step:
  "\<not> slm_first_scan m \<Longrightarrow> slm_high_load_state (fst (load_check ops now i m)) = load_is_high m i"
  "\<not> slm_first_scan m \<Longrightarrow> map ev_type (snd (load_check ops now i m)) =
     (if load_is_high m i = slm_high_load_state m then [] else [load_type (load_is_high m i)])"
  by (auto simp: load_check_def load_event_def load_type_def)

lemma remdups_adj_step:
  "tl (remdups_adj (a # b # xs)) = (if a = b then tl (remdups_adj (b # xs)) else remdups_adj (b # xs))"
  by simp

lemma map_remdups_adj: "map f (remdups_adj (x # xs)) = f x # map f (tl (remdups_adj (x # xs)))"
  by (metis list.simps(9) remdups_adj_Cons_alt)

lemma load_run_changes:
  assumes "\<not> slm_first_scan m"
  shows "map ev_type (snd (load_run ops d j polls m)) =
         map load_type (tl (remdups_adj (slm_high_load_state m # map (load_is_high m) (load_infos ops d j polls m))))"
  using assms
proof (induction polls arbitrary: m)
  case (Cons poll polls)
  obtain r now where [simp]: "poll = (r, now)" by (rule prod.exhaust)
  obtain i m1 where g: "get_system_load ops d j r m = (i, m1)" by (rule prod.exhaust)
  obtain m2 es where c: "load_check ops now i m1 = (m2, es)" by (rule prod.exhaust)
  note f = get_system_load_frame [of ops d j r m, unfolded g snd_conv]
  note k = load_check_frame [of ops now i m1, unfolded c fst_conv]
  have first: "\<not> slm_first_scan m1" using Cons.prems f(1) by simp
  note s = load_check_step [OF first, of ops now i, unfolded c fst_conv snd_conv]
  have "load_infos ops d j polls m2 = load_infos ops d j polls m1"
    by (rule load_infos_statics) (simp_all add: k)
  then show ?case
    using Cons.IH [OF k(4)] s f k
    by (simp add: load_tick_def g c remdups_adj_step map_remdups_adj split_beta)
qed simp

text \<open>the alarm reports changes and nothing else: over any run from a new monitor the events are the
  changes in the sequence of high and normal readings, the first scan left out, so a high event comes
  first and high and normal events alternate.\<close>
theorem load_events_alternate:
  "map ev_type (snd (load_run ops doubles junk polls new_system_load_monitor)) =
     map load_type (tl (remdups_adj (False #
       tl (map (load_is_high new_system_load_monitor) (load_infos ops doubles junk polls new_system_load_monitor))))) \<and>
   map ev_type (snd (load_run ops doubles junk polls new_system_load_monitor)) =
     map (\<lambda>n. load_type (even n)) [0 ..< length (snd (load_run ops doubles junk polls new_system_load_monitor))]"
proof -
  let ?m = new_system_load_monitor and ?es = "snd (load_run ops doubles junk polls new_system_load_monitor)"
  let ?hs = "tl (map (load_is_high ?m) (load_infos ops doubles junk polls ?m))"
  have changes: "map ev_type ?es = map load_type (tl (remdups_adj (False # ?hs)))"
  proof (cases polls)
    case (Cons poll rest)
    obtain r now where [simp]: "poll = (r, now)" by (rule prod.exhaust)
    obtain i m1 where g: "get_system_load ops doubles junk r ?m = (i, m1)" by (rule prod.exhaust)
    note f = get_system_load_frame [of ops doubles junk r ?m, unfolded g snd_conv]
    obtain m2 es where c: "load_check ops now i m1 = (m2, es)" by (rule prod.exhaust)
    note k = load_check_frame [of ops now i m1, unfolded c fst_conv]
    have "es = []" "\<not> slm_high_load_state m2"
      using c f by (auto simp: load_check_def new_system_load_monitor_def)
    moreover have "load_infos ops doubles junk rest m2 = load_infos ops doubles junk rest m1"
      by (rule load_infos_statics) (simp_all add: k)
    ultimately show ?thesis
      using load_run_changes [OF k(4), of ops doubles junk rest] f k
      by (simp add: Cons load_tick_def g c split_beta)
  qed simp
  have alt: "n < length (tl (remdups_adj (b # xs))) \<Longrightarrow> tl (remdups_adj (b # xs)) ! n = (if even n then \<not> b else b)" for n b xs
  proof (induction xs arbitrary: n b)
    case (Cons x xs)
    show ?case
    proof (cases "b = x")
      case True
      then show ?thesis using Cons by (simp add: remdups_adj_step del: remdups_adj.simps)
    next
      case False
      obtain ys where "remdups_adj (x # xs) = x # ys" by (metis remdups_adj_Cons_alt)
      with False show ?thesis using Cons.IH [of "n - 1" x] Cons.prems by (cases n) auto
    qed
  qed simp
  have "ev_type (?es ! n) = load_type (even n)" if "n < length ?es" for n
  proof -
    have l: "length ?es = length (tl (remdups_adj (False # ?hs)))" using changes by (metis length_map)
    have "ev_type (?es ! n) = map ev_type ?es ! n" using that by simp
    also have "\<dots> = load_type (tl (remdups_adj (False # ?hs)) ! n)" using that l by (simp add: changes)
    finally show ?thesis using alt [of n False ?hs] that l by simp
  qed
  then have "map ev_type ?es = map (\<lambda>n. load_type (even n)) [0 ..< length ?es]"
    by (intro nth_equalityI) simp_all
  with changes show ?thesis by blast
qed

end
