(* ===== verification/Log_Monitor.thy ===== *)
theory Log_Monitor
  imports Monitor Interfaces "HOL-Library.Sublist"
begin

text \<open>
  \<open>monitor/log/log_monitor.h\<close> and \<open>.cpp\<close>: patterns searched in the new lines of the watched log files.
  A probe is what one poll learns of a file: whether \<open>stat\<close> reports it readable, its inode and size
  (0 when \<open>stat\<close> fails) and the content \<open>ifstream\<close> opens, \<open>None\<close> if it does not.  The regular
  expressions are a parameter; \<open>lr_match\<close> is the matched text of \<open>regex_search\<close>, \<open>None\<close> when nothing
  matches or the search throws, which the source catches.
\<close>

record 're log_regex =
  lr_compile :: "string \<Rightarrow> 're option"
  lr_match :: "'re \<Rightarrow> string \<Rightarrow> string option"

record 're LogPattern =
  lgp_name :: string
  lgp_pattern :: 're
  lgp_severity :: string
  lgp_enabled :: bool

record LogWatch =
  lw_path :: string
  lw_last_position :: u64
  lw_last_inode :: u64
  lw_active :: bool

record 're LogMonitor =
  lgm_watches :: "LogWatch list"
  lgm_patterns :: "'re LogPattern list"
  lgm_max_line_length :: nat

record log_probe =
  lg_readable :: bool
  lg_inode :: u64
  lg_size :: u64
  lg_content :: "string option"

definition new_log_monitor :: "'re LogMonitor" where
  "new_log_monitor = \<lparr> lgm_watches = [], lgm_patterns = [], lgm_max_line_length = 65536 \<rparr>"

definition log_add_watch_path :: "string \<Rightarrow> 're LogMonitor \<Rightarrow> 're LogMonitor" where
  "log_add_watch_path path m =
     m\<lparr>lgm_watches := lgm_watches m @
         [\<lparr> lw_path = path, lw_last_position = 0, lw_last_inode = 0, lw_active = True \<rparr>]\<rparr>"

definition add_pattern :: "'re log_regex \<Rightarrow> string \<Rightarrow> string \<Rightarrow> string \<Rightarrow> 're LogMonitor \<Rightarrow> 're LogMonitor" where
  "add_pattern rx name pattern severity m =
     (case lr_compile rx pattern of
        None \<Rightarrow> m
      | Some re \<Rightarrow>
          m\<lparr>lgm_patterns := lgm_patterns m @
              [\<lparr> lgp_name = name, lgp_pattern = re, lgp_severity = severity, lgp_enabled = True \<rparr>]\<rparr>)"

definition clear_patterns :: "'re LogMonitor \<Rightarrow> 're LogMonitor" where
  "clear_patterns m = m\<lparr>lgm_patterns := []\<rparr>"

definition set_max_line_length :: "nat \<Rightarrow> 're LogMonitor \<Rightarrow> 're LogMonitor" where
  "set_max_line_length len m = m\<lparr>lgm_max_line_length := len\<rparr>"

definition log_event :: "timestamp \<Rightarrow> 're LogPattern \<Rightarrow> string \<Rightarrow> string \<Rightarrow> string \<Rightarrow> Event" where
  "log_event now pat path line matched =
     (event_default now)
       \<lparr> ev_category := SystemConfig, ev_type := ConfigValueChanged, ev_source := ''log_monitor'', ev_target := path,
         ev_summary := ''['' @ lgp_severity pat @ ''] '' @ lgp_name pat @ '': '' @ line,
         ev_attributes :=
           omap_update ''full_line'' (if length line > 500 then take 500 line @ ''...'' else line)
          (omap_update ''matched_text'' matched
          (omap_update ''severity'' (lgp_severity pat)
          (omap_update ''pattern_name'' (lgp_name pat) []))) \<rparr>"

text \<open>The clock is read once per event: \<open>now\<close> maps the name of the pattern to the reading.\<close>
definition check_patterns :: "'re log_regex \<Rightarrow> (string \<Rightarrow> timestamp) \<Rightarrow> 're LogPattern list \<Rightarrow> string \<Rightarrow> string \<Rightarrow> Event list" where
  "check_patterns rx now pats line path =
     concat (map (\<lambda>p.
       if \<not> lgp_enabled p then []
       else (case lr_match rx (lgp_pattern p) line of
               None \<Rightarrow> []
             | Some matched \<Rightarrow> [log_event (now (lgp_name p)) p path line matched])) pats)"

text \<open>The read loop ends when \<open>getline\<close> fails, so \<open>tellg\<close> answers -1 and the position becomes the
  size that \<open>stat\<close> reported before the file was opened.\<close>
definition process_log_file ::
    "'re log_regex \<Rightarrow> (nat \<Rightarrow> string \<Rightarrow> timestamp) \<Rightarrow> 're LogMonitor \<Rightarrow> log_probe \<Rightarrow> LogWatch \<Rightarrow> LogWatch \<times> Event list" where
  "process_log_file rx now m p w =
     (let rotated = (lg_inode p \<noteq> 0 \<and> lw_last_inode w \<noteq> 0 \<and> lg_inode p \<noteq> lw_last_inode w);
          pos1 = (if rotated then 0 else lw_last_position w);
          pos2 = (if lg_size p < pos1 then 0 else pos1);
          w1 = w\<lparr>lw_last_position := pos2, lw_last_inode := lg_inode p\<rparr>
      in case lg_content p of
           None \<Rightarrow> (w1, [])
         | Some c \<Rightarrow>
             (let ls = map (take (lgm_max_line_length m)) (getlines (drop (unat pos2) c))
              in (w1\<lparr>lw_last_position := lg_size p\<rparr>,
                  concat (map (\<lambda>(i, l). check_patterns rx (now i) (lgm_patterns m) l (lw_path w)) (enumerate 0 ls)))))"

definition log_visit ::
    "'re log_regex \<Rightarrow> (string \<Rightarrow> nat \<Rightarrow> string \<Rightarrow> timestamp) \<Rightarrow> (string \<Rightarrow> log_probe) \<Rightarrow> 're LogMonitor \<Rightarrow> LogWatch \<Rightarrow> LogWatch \<times> Event list" where
  "log_visit rx now probe m w =
     (if lw_active w \<and> lg_readable (probe (lw_path w))
      then process_log_file rx (now (lw_path w)) m (probe (lw_path w)) w else (w, []))"

text \<open>The copies are written back to the first watch with their path.\<close>
definition write_back :: "LogWatch list \<Rightarrow> LogWatch list \<Rightarrow> LogWatch list" where
  "write_back updated ws = fold (\<lambda>u. update_first (\<lambda>w. lw_path w = lw_path u) (\<lambda>_. u)) updated ws"

definition log_tick ::
    "'re log_regex \<Rightarrow> (string \<Rightarrow> nat \<Rightarrow> string \<Rightarrow> timestamp) \<Rightarrow> (string \<Rightarrow> log_probe) \<Rightarrow> 're LogMonitor \<Rightarrow> 're LogMonitor \<times> Event list" where
  "log_tick rx now probe m =
     (let visits = map (log_visit rx now probe m) (lgm_watches m)
      in (m\<lparr>lgm_watches := write_back (map fst visits) (lgm_watches m)\<rparr>, concat (map snd visits)))"

subsection \<open>One poll\<close>

lemma visit_path [simp]: "lw_path (fst (log_visit rx now probe m w)) = lw_path w"
  by (simp add: log_visit_def process_log_file_def Let_def split: option.split)

lemma check_patterns_target: "e \<in> set (check_patterns rx now pats line path) \<Longrightarrow> ev_target e = path"
  by (auto simp: check_patterns_def log_event_def split: if_splits option.splits)

lemma visit_target: "e \<in> set (snd (log_visit rx now probe m w)) \<Longrightarrow> ev_target e = lw_path w"
  by (auto simp: log_visit_def process_log_file_def Let_def dest: check_patterns_target split: if_splits option.splits)

lemma update_first_skip: "\<forall>x \<in> set xs. \<not> P x \<Longrightarrow> update_first P f (xs @ ys) = xs @ update_first P f ys"
  by (induction xs) auto

lemma write_back_distinct:
  assumes "distinct (map lw_path ws)" "\<And>w. lw_path (f w) = lw_path w"
  shows "write_back (map f ws) ws = map f ws"
proof -
  have "fold (\<lambda>u. update_first (\<lambda>w. lw_path w = lw_path u) (\<lambda>_. u)) (map f ys) (map f xs @ ys) = map f (xs @ ys)"
    if "distinct (map lw_path (xs @ ys))" for xs ys
    using that
  proof (induction ys arbitrary: xs)
    case (Cons y ys)
    have "update_first (\<lambda>w. lw_path w = lw_path (f y)) (\<lambda>_. f y) (map f xs @ y # ys) = map f (xs @ [y]) @ ys"
    proof (subst update_first_skip)
      have "lw_path y \<notin> lw_path ` set xs" using Cons.prems by simp
      then show "\<forall>x \<in> set (map f xs). lw_path x \<noteq> lw_path (f y)" by (auto simp: assms(2) image_iff)
    qed (simp add: assms(2))
    then show ?case using Cons.IH [of "xs @ [y]"] Cons.prems by simp
  qed simp
  from this [of "[]" ws] assms(1) show ?thesis by (simp add: write_back_def)
qed

definition watch_of :: "'re LogMonitor \<Rightarrow> string \<Rightarrow> LogWatch option" where
  "watch_of m p = find (\<lambda>w. lw_path w = p) (lgm_watches m)"

lemma find_map_path:
  assumes "\<And>w. lw_path (f w) = lw_path w"
  shows "find (\<lambda>w. lw_path w = p) (map f ws) = map_option f (find (\<lambda>w. lw_path w = p) ws)"
  by (induction ws) (simp_all add: assms)

lemma log_tick_watch:
  assumes "distinct (map lw_path (lgm_watches m))"
  shows "watch_of (fst (log_tick rx now probe m)) p = map_option (fst \<circ> log_visit rx now probe m) (watch_of m p)"
    and "filter (\<lambda>e. ev_target e = p) (snd (log_tick rx now probe m)) =
         (case watch_of m p of None \<Rightarrow> [] | Some w \<Rightarrow> snd (log_visit rx now probe m w))"
    and "map lw_path (lgm_watches (fst (log_tick rx now probe m))) = map lw_path (lgm_watches m)"
    and "lgm_patterns (fst (log_tick rx now probe m)) = lgm_patterns m"
    and "lgm_max_line_length (fst (log_tick rx now probe m)) = lgm_max_line_length m"
proof -
  let ?f = "fst \<circ> log_visit rx now probe m"
  have wb: "write_back (map ?f (lgm_watches m)) (lgm_watches m) = map ?f (lgm_watches m)"
    using write_back_distinct [OF assms, of ?f] by simp
  show "watch_of (fst (log_tick rx now probe m)) p = map_option ?f (watch_of m p)"
    using find_map_path [of ?f p "lgm_watches m"] by (simp add: watch_of_def log_tick_def Let_def wb)
  show "map lw_path (lgm_watches (fst (log_tick rx now probe m))) = map lw_path (lgm_watches m)"
    by (simp add: log_tick_def Let_def wb)
  let ?kv = "map (\<lambda>w. (lw_path w, w)) (lgm_watches m)"
  have "concat (map snd (map (log_visit rx now probe m) (lgm_watches m))) =
      concat (map (\<lambda>(k, w). snd (log_visit rx now probe m w)) ?kv)" by (simp add: comp_def)
  moreover have "filter (\<lambda>e. ev_target e = p) (concat (map (\<lambda>(k, w). snd (log_visit rx now probe m w)) ?kv)) =
      (case map_of ?kv p of None \<Rightarrow> [] | Some w \<Rightarrow> snd (log_visit rx now probe m w))"
    by (rule concat_filter_key) (use assms in \<open>auto simp: comp_def dest: visit_target\<close>)
  moreover have "map_of (map (\<lambda>w. (lw_path w, w)) ws) p = find (\<lambda>w. lw_path w = p) ws" for ws :: "LogWatch list"
    by (induction ws) auto
  then have "map_of ?kv p = watch_of m p" by (simp only: watch_of_def)
  ultimately show "filter (\<lambda>e. ev_target e = p) (snd (log_tick rx now probe m)) =
      (case watch_of m p of None \<Rightarrow> [] | Some w \<Rightarrow> snd (log_visit rx now probe m w))"
    by (simp only: log_tick_def Let_def snd_conv)
qed (simp_all add: log_tick_def Let_def)

subsection \<open>A run of polls\<close>

fun log_run ::
    "'re log_regex \<Rightarrow> ((string \<Rightarrow> nat \<Rightarrow> string \<Rightarrow> timestamp) \<times> (string \<Rightarrow> log_probe)) list \<Rightarrow> 're LogMonitor \<Rightarrow> 're LogMonitor \<times> Event list" where
  "log_run rx [] m = (m, [])"
| "log_run rx ((now, probe) # polls) m =
     (let (m1, es) = log_tick rx now probe m; (m2, es2) = log_run rx polls m1 in (m2, es @ es2))"

definition unstamped :: "Event \<Rightarrow> Event" where
  "unstamped e = e\<lparr>ev_timestamp := 0\<rparr>"

text \<open>What one line is worth, apart from the time.\<close>
definition line_matches :: "'re log_regex \<Rightarrow> 're LogMonitor \<Rightarrow> string \<Rightarrow> string \<Rightarrow> Event list" where
  "line_matches rx m path l = check_patterns rx (\<lambda>_. 0) (lgm_patterns m) (take (lgm_max_line_length m) l) path"

text \<open>A readable file of complete lines: \<open>ls\<close> when \<open>stat\<close> is asked for the size, \<open>ls'\<close> when it is read; and one
  that does not change in between.\<close>
definition growing_file :: "u64 \<Rightarrow> string list \<Rightarrow> string list \<Rightarrow> log_probe" where
  "growing_file inode ls ls' =
     \<lparr> lg_readable = True, lg_inode = inode, lg_size = of_nat (length (unlines ls)), lg_content = Some (unlines ls') \<rparr>"

definition log_file :: "u64 \<Rightarrow> string list \<Rightarrow> log_probe" where
  "log_file inode ls = growing_file inode ls ls"

text \<open>The lines a run searches: each poll reads from where the \<open>stat\<close> of the poll before saw the end.\<close>
fun searched_lines :: "string list \<Rightarrow> (string list \<times> string list) list \<Rightarrow> string list" where
  "searched_lines old [] = []"
| "searched_lines old ((ls, ls') # logs) = drop (length old) ls' @ searched_lines ls logs"

definition fresh_watch :: "string \<Rightarrow> LogWatch" where
  "fresh_watch p = \<lparr> lw_path = p, lw_last_position = 0, lw_last_inode = 0, lw_active = True \<rparr>"

lemma unstamped_check: "map unstamped (check_patterns rx now pats l p) = check_patterns rx (\<lambda>_. 0) pats l p"
  by (simp add: check_patterns_def map_concat comp_def)
     (rule arg_cong [where f = concat], simp add: log_event_def unstamped_def event_default_def split: option.split)

lemma unstamped_lines:
  "map unstamped (concat (map (\<lambda>(i, l). check_patterns rx (now i) pats l p) (enumerate n ls))) =
   concat (map (\<lambda>l. check_patterns rx (\<lambda>_. 0) pats l p) ls)"
  by (induction ls arbitrary: n) (simp_all add: unstamped_check)

text \<open>A watch that has read the lines \<open>old\<close> of the file.\<close>
definition read_up_to :: "u64 \<Rightarrow> string \<Rightarrow> string list \<Rightarrow> LogWatch \<Rightarrow> bool" where
  "read_up_to inode p old w =
     (lw_path w = p \<and> lw_active w \<and> lw_last_position w = of_nat (length (unlines old)) \<and>
      lw_last_inode w \<in> {0, inode})"

lemma visit_growing:
  assumes "read_up_to inode p old w" "probe p = growing_file inode (old @ new) (old @ new @ late)"
    and "\<forall>l \<in> set (new @ late). nl \<notin> set l" "length (unlines (old @ new)) < 2 ^ 64"
  shows "read_up_to inode p (old @ new) (fst (log_visit rx now probe m w))"
    and "map unstamped (snd (log_visit rx now probe m w)) = concat (map (line_matches rx m p) (new @ late))"
proof -
  let ?n = "length (unlines old)" and ?k = "length (unlines (old @ new))"
  have u64: "k < 2 ^ 64 \<Longrightarrow> unat (of_nat k :: u64) = k" for k
    by (simp add: unat_of_nat take_bit_eq_mod)
  have u: "unat (of_nat ?n :: u64) = ?n" "unat (of_nat ?k :: u64) = ?k"
    by (rule u64, use assms(4) in simp)+
  have "\<not> (of_nat ?k :: u64) < of_nat ?n"
    unfolding word_less_nat_alt u by simp
  moreover have "drop ?n (unlines (old @ new @ late)) = unlines (new @ late)" by simp
  then have "getlines (drop ?n (unlines (old @ new @ late))) = new @ late"
    using assms(3) getlines_unlines [of "new @ late"] by simp
  ultimately have v: "log_visit rx now probe m w =
      (w\<lparr>lw_last_position := of_nat ?k, lw_last_inode := inode\<rparr>,
       concat (map (\<lambda>(i, l). check_patterns rx (now p i) (lgm_patterns m) l p)
         (enumerate 0 (map (take (lgm_max_line_length m)) (new @ late)))))"
    using assms(1,2) u(1)
    by (auto simp: log_visit_def process_log_file_def read_up_to_def growing_file_def Let_def)
  show "read_up_to inode p (old @ new) (fst (log_visit rx now probe m w))"
    using assms(1) by (simp add: v read_up_to_def)
  show "map unstamped (snd (log_visit rx now probe m w)) = concat (map (line_matches rx m p) (new @ late))"
    unfolding v snd_conv unstamped_lines by (simp add: line_matches_def [abs_def] comp_def)
qed

lemma visit_appended:
  assumes "read_up_to inode p old w" "probe p = log_file inode (old @ new)"
    and "\<forall>l \<in> set new. nl \<notin> set l" "length (unlines (old @ new)) < 2 ^ 64"
  shows "map unstamped (snd (log_visit rx now probe m w)) = concat (map (line_matches rx m p) new)"
  using visit_growing(2) [OF assms(1), of probe new "[]"] assms(2-4) by (simp add: log_file_def)

lemma line_matches_cong:
  "lgm_patterns m' = lgm_patterns m \<Longrightarrow> lgm_max_line_length m' = lgm_max_line_length m \<Longrightarrow>
   line_matches rx m' = line_matches rx m"
  by (simp add: line_matches_def fun_eq_iff)

text \<open>The contents of the polls in the order in which the file had them.\<close>
definition contents_of :: "(string list \<times> string list) list \<Rightarrow> string list list" where
  "contents_of logs = concat (map (\<lambda>(ls, ls'). [ls, ls']) logs)"

lemma log_run_growing:
  assumes "distinct (map lw_path (lgm_watches m))" "watch_of m p = Some w" "read_up_to inode p old w"
    and "list_all2 (\<lambda>(now, probe) (ls, ls'). probe p = growing_file inode ls ls') polls logs"
    and "sorted_wrt prefix (old # contents_of logs)" "\<forall>ls \<in> set (contents_of logs). \<forall>l \<in> set ls. nl \<notin> set l"
    and "\<forall>ls \<in> set (contents_of logs). length (unlines ls) < 2 ^ 64"
  shows "map unstamped (filter (\<lambda>e. ev_target e = p) (snd (log_run rx polls m))) =
         concat (map (line_matches rx m p) (searched_lines old logs))"
  using assms
proof (induction polls arbitrary: m w old logs)
  case (Cons poll polls)
  obtain now probe where poll: "poll = (now, probe)" by (rule prod.exhaust)
  obtain ls ls' logs' where logs: "logs = (ls, ls') # logs'" and pr: "probe p = growing_file inode ls ls'"
    and rest: "list_all2 (\<lambda>(now, probe) (ls, ls'). probe p = growing_file inode ls ls') polls logs'"
    using Cons.prems(4) by (auto simp: poll list_all2_Cons1)
  have sorted: "sorted_wrt prefix (ls # contents_of logs')" "prefix old ls" "prefix ls ls'"
    using Cons.prems(5) by (simp_all add: logs contents_of_def)
  obtain new late where new: "ls = old @ new" "ls' = old @ new @ late" using sorted(2,3) by (auto elim!: prefixE)
  obtain m1 es where t: "log_tick rx now probe m = (m1, es)" by (rule prod.exhaust)
  let ?w = "fst (log_visit rx now probe m w)"
  have visit: "read_up_to inode p ls ?w"
      "map unstamped (snd (log_visit rx now probe m w)) = concat (map (line_matches rx m p) (new @ late))"
    using visit_growing [OF Cons.prems(3), of probe new late] pr Cons.prems(6,7) by (simp_all add: logs contents_of_def new)
  note tick = log_tick_watch [OF Cons.prems(1), where rx = rx and now = now and probe = probe, unfolded t fst_conv snd_conv]
  have IH: "map unstamped (filter (\<lambda>e. ev_target e = p) (snd (log_run rx polls m1))) =
      concat (map (line_matches rx m p) (searched_lines ls logs'))"
    using Cons.IH [of m1 ?w ls logs'] tick Cons.prems visit(1) rest sorted(1)
    by (simp add: logs contents_of_def line_matches_cong [OF tick(4,5)])
  have "searched_lines old logs = (new @ late) @ searched_lines ls logs'" by (simp add: logs new)
  moreover have "snd (log_run rx (poll # polls) m) = es @ snd (log_run rx polls m1)"
    by (simp add: poll t split: prod.split)
  ultimately show ?case
    using IH visit(2) tick(2) [where p = p] Cons.prems(2)
    by (simp only: option.case filter_append map_append concat_append)
qed simp

lemma content_step:
  assumes "sorted_wrt prefix (old # contents_of ((ls, ls') # logs))"
  shows "prefix old ls" "prefix ls ls'" "sorted_wrt prefix (ls # contents_of logs)"
    and "logs \<noteq> [] \<Longrightarrow> prefix ls (snd (last logs))"
proof -
  show rest: "prefix old ls" "prefix ls ls'" "sorted_wrt prefix (ls # contents_of logs)"
    using assms by (simp_all add: contents_of_def)
  have "logs \<noteq> [] \<Longrightarrow> snd (last logs) \<in> set (contents_of logs)"
    by (cases logs rule: rev_cases) (auto simp: contents_of_def)
  with rest(3) show "logs \<noteq> [] \<Longrightarrow> prefix ls (snd (last logs))" by simp
qed

lemma last_content_searched:
  assumes "sorted_wrt prefix (old # contents_of logs)" "logs \<noteq> []"
  shows "subseq (drop (length old) (snd (last logs))) (searched_lines old logs)"
  using assms
proof (induction old logs rule: searched_lines.induct)
  case (2 old ls ls' logs)
  note step = content_step [OF "2.prems"(1)]
  show ?case
  proof (cases "logs = []")
    case False
    obtain new rest where ls: "ls = old @ new" "snd (last logs) = old @ new @ rest"
      using step(1) step(4) [OF False] by (auto elim!: prefixE)
    have "subseq new (drop (length old) ls')" using step(2) by (auto simp: ls elim!: prefixE)
    moreover have "subseq rest (searched_lines ls logs)" using "2.IH" [OF step(3) False] by (simp add: ls)
    ultimately show ?thesis using False by (simp add: ls list_emb_append_mono)
  qed simp
qed simp

lemma still_content_searched:
  assumes "sorted_wrt prefix (old # contents_of logs)" "logs \<noteq> []" "list_all (\<lambda>(ls, ls'). ls = ls') logs"
  shows "searched_lines old logs = drop (length old) (snd (last logs))"
  using assms
proof (induction old logs rule: searched_lines.induct)
  case (2 old ls ls' logs)
  note step = content_step [OF "2.prems"(1)]
  show ?case
  proof (cases "logs = []")
    case False
    obtain new rest where ls: "ls = old @ new" "snd (last logs) = old @ new @ rest"
      using step(1) step(4) [OF False] by (auto elim!: prefixE)
    have "ls' = old @ new" using "2.prems"(3) by (simp add: ls)
    then show ?thesis using "2.IH" [OF step(3) False] "2.prems"(3) False by (simp add: ls)
  qed simp
qed simp

text \<open>C31: a log file that only grows by complete lines is searched line by line.  Each poll searches what has been
  appended since the \<open>stat\<close> of the poll before, up to what it can read itself; so no line of the last
  content is missed and their order is kept, but lines that are appended between the \<open>stat\<close> of a poll and
  its reading are searched a second time by the next one.  Where the file stands still between the two,
  each line is searched exactly once.\<close>
theorem log_lines_searched:
  assumes "distinct (map lw_path (lgm_watches m))" "watch_of m p = Some (fresh_watch p)"
    and "list_all2 (\<lambda>(now, probe) (ls, ls'). probe p = growing_file inode ls ls') polls logs" "logs \<noteq> []"
    and "sorted_wrt prefix (contents_of logs)" "\<forall>ls \<in> set (contents_of logs). \<forall>l \<in> set ls. nl \<notin> set l"
    and "length (unlines (snd (last logs))) < 2 ^ 64"
  shows "map unstamped (filter (\<lambda>e. ev_target e = p) (snd (log_run rx polls m))) =
           concat (map (line_matches rx m p) (searched_lines [] logs)) \<and>
         subseq (snd (last logs)) (searched_lines [] logs) \<and>
         (list_all (\<lambda>(ls, ls'). ls = ls') logs \<longrightarrow> searched_lines [] logs = snd (last logs))"
proof -
  have end_of: "contents_of logs = contents_of (butlast logs) @ [fst (last logs), snd (last logs)]"
    using assms(4) by (cases logs rule: rev_cases) (auto simp: contents_of_def split: prod.split)
  have "length (unlines ls) < 2 ^ 64" if "ls \<in> set (contents_of logs)" for ls
  proof -
    have "prefix ls (snd (last logs))" using assms(5) that unfolding end_of by (auto simp: sorted_wrt_append)
    then have "length (unlines ls) \<le> length (unlines (snd (last logs)))" by (auto elim: prefixE)
    with assms(7) show ?thesis by simp
  qed
  moreover have "sorted_wrt prefix ([] # contents_of logs)" using assms(5) by simp
  ultimately show ?thesis
    using log_run_growing [OF assms(1,2) _ assms(3), of "[]" rx] last_content_searched [of "[]" logs] still_content_searched [of "[]" logs] assms(4,6)
    by (simp add: read_up_to_def fresh_watch_def)
qed

definition literal_log :: "string log_regex" where
  "literal_log = \<lparr> lr_compile = Some, lr_match = (\<lambda>p s. if contains s p then Some p else None) \<rparr>"

definition error_monitor :: "string LogMonitor" where
  "error_monitor = log_add_watch_path ''a.log'' (add_pattern literal_log ''err'' ''error'' ''error'' (set_max_line_length 80 new_log_monitor))"

lemma error_monitor_simps:
  "lgm_watches error_monitor = [fresh_watch ''a.log'']" "lgm_max_line_length error_monitor = 80"
  "lgm_patterns error_monitor = [\<lparr> lgp_name = ''err'', lgp_pattern = ''error'', lgp_severity = ''error'', lgp_enabled = True \<rparr>]"
  by (simp_all add: error_monitor_def log_add_watch_path_def add_pattern_def set_max_line_length_def
      new_log_monitor_def literal_log_def fresh_watch_def)

text \<open>The second line is appended between the \<open>stat\<close> and the reading of the first poll: it gives two events.\<close>
lemma log_lines_searched_witness:
  "map ev_summary (filter (\<lambda>e. ev_target e = ''a.log'')
     (snd (log_run literal_log [(\<lambda>_ _ _. 7, \<lambda>_. growing_file 3 [''error 1''] [''error 1'', ''error 2'']),
         (\<lambda>_ _ _. 9, \<lambda>_. growing_file 3 [''error 1'', ''error 2'', ''ok''] [''error 1'', ''error 2'', ''ok''])]
       error_monitor))) = [''[error] err: error 1'', ''[error] err: error 2'', ''[error] err: error 2'']"
proof -
  let ?polls = "[(\<lambda>_ _ _. 7, \<lambda>_. growing_file 3 [''error 1''] [''error 1'', ''error 2'']),
         (\<lambda>_ _ _. 9, \<lambda>_. growing_file 3 [''error 1'', ''error 2'', ''ok''] [''error 1'', ''error 2'', ''ok''])]
    :: ((string \<Rightarrow> nat \<Rightarrow> string \<Rightarrow> timestamp) \<times> (string \<Rightarrow> log_probe)) list"
  let ?logs = "[([''error 1''], [''error 1'', ''error 2'']), ([''error 1'', ''error 2'', ''ok''], [''error 1'', ''error 2'', ''ok''])]"
  have "map unstamped (filter (\<lambda>e. ev_target e = ''a.log'') (snd (log_run literal_log ?polls error_monitor))) =
      concat (map (line_matches literal_log error_monitor ''a.log'') (searched_lines [] ?logs))"
  proof (rule log_lines_searched [where inode = 3, THEN conjunct1])
    show "distinct (map lw_path (lgm_watches error_monitor))" "watch_of error_monitor ''a.log'' = Some (fresh_watch ''a.log'')"
      by (simp_all add: error_monitor_simps watch_of_def fresh_watch_def)
    show "\<forall>ls \<in> set (contents_of ?logs). \<forall>l \<in> set ls. nl \<notin> set l" by (simp add: contents_of_def)
  qed (simp_all add: contents_of_def)
  moreover have "contains ''error 1'' ''error''" "contains ''error 2'' ''error''" "\<not> contains ''ok'' ''error''" by code_simp+
  then have "map ev_summary (concat (map (line_matches literal_log error_monitor ''a.log'') (searched_lines [] ?logs))) =
      [''[error] err: error 1'', ''[error] err: error 2'', ''[error] err: error 2'']"
    by (simp add: line_matches_def check_patterns_def error_monitor_simps literal_log_def log_event_def)
  moreover have "map ev_summary (map unstamped es) = map ev_summary es" for es by (simp add: unstamped_def)
  ultimately show ?thesis by metis
qed

text \<open>A path that is watched twice: the positions are written back to the first of the two watches
  only, so the second one reads the whole file in every poll.\<close>
lemma second_watch_never_advances:
  assumes "lgm_watches m = [w, fresh_watch (lw_path w)]"
  shows "\<exists>w'. lw_path w' = lw_path w \<and> lgm_watches (fst (log_tick rx now probe m)) = [w', fresh_watch (lw_path w)]"
proof -
  have p: "lw_path (fresh_watch (lw_path w)) = lw_path w" by (simp add: fresh_watch_def)
  show ?thesis
    by (rule exI [of _ "fst (log_visit rx now probe m (fresh_watch (lw_path w)))"])
       (simp add: log_tick_def Let_def assms write_back_def p)
qed

lemma second_watch_reads_all:
  assumes "lgm_watches m = [w, fresh_watch p]" "probe p = log_file inode ls" "\<forall>l \<in> set ls. nl \<notin> set l"
    and "length (unlines ls) < 2 ^ 64"
  shows "\<exists>es. map unstamped (snd (log_tick rx now probe m)) = es @ concat (map (line_matches rx m p) ls)"
proof -
  have "read_up_to inode p [] (fresh_watch p)" by (simp add: read_up_to_def fresh_watch_def)
  from visit_appended [OF this, of probe ls] assms(2-4) show ?thesis
    by (intro exI [of _ "map unstamped (snd (log_visit rx now probe m w))"]) (simp add: log_tick_def Let_def assms(1))
qed

text \<open>A line that is written in two parts, with a poll between them, is searched as two lines.\<close>
lemma line_written_in_two_parts:
  "snd (log_run literal_log
     [(\<lambda>_ _ _. 0, \<lambda>_. (log_file 3 [])\<lparr>lg_size := 6, lg_content := Some ''an err''\<rparr>),
      (\<lambda>_ _ _. 0, \<lambda>_. log_file 3 [''an error''])] error_monitor) = []" (is ?split)
  "snd (log_run literal_log [(\<lambda>_ _ _. 0, \<lambda>_. log_file 3 [''an error''])] error_monitor) \<noteq> []" (is ?whole)
proof -
  have c: "\<not> contains ''an err'' ''error''" "\<not> contains ''or'' ''error''" "contains ''an error'' ''error''"
    by code_simp+
  note defs = log_tick_def log_visit_def process_log_file_def check_patterns_def log_file_def growing_file_def write_back_def Let_def
    literal_log_def fresh_watch_def
  show ?split by (simp add: defs error_monitor_simps c)
  show ?whole by (simp add: defs error_monitor_simps c)
qed

end
