(* ===== verification/Monitor_Engine.thy ===== *)
theory Monitor_Engine
  imports Storage Event_Filter Statistics Webhook Reporter Event_Exporter
begin

text \<open>
  \<open>core/monitor_engine.h\<close> and \<open>core/monitor_engine.cpp\<close>, first part: the path of one event from a monitor
  through filter, statistics, alerts, security audit, storage, reporter and cache to the listeners.
  The engine is the one after \<open>initialize\<close>, which creates every component, so the null tests of the
  source do not appear.

  Alert and security callbacks act on the webhook notifier and on the world \<open>'w\<close> of the listeners;
  the callbacks of \<open>on_event\<close> act on \<open>'w\<close>.  An event can be lost in two ways that are not a verdict of
  the filter: the call never returns (\<open>Hangs\<close>), or a security callback throws (\<open>Throws\<close>), which
  leaves \<open>route_event\<close> and is caught in \<open>Monitor::emit\<close>.
\<close>

datatype 's routed = Hangs | Throws 's | Routed 's

record ('re, 'w) Router =
  en_filter :: EventFilter
  en_statistics :: StatisticsCollector
  en_alerts :: "('re, 'w WebhookNotifier \<times> 'w) AlertManager"
  en_auditor :: "('w WebhookNotifier \<times> 'w) SecurityAuditor"
  en_webhooks :: "'w WebhookNotifier"
  en_storage :: FileStorage
  en_reporter :: Reporter
  en_recent :: "Event list"
  en_callbacks :: "(Event \<Rightarrow> 'w \<Rightarrow> 'w) list"

record route_clock =
  rc_stats :: timestamp
  rc_prune :: timestamp
  rc_alerts :: "nat \<Rightarrow> alert_clock"
  rc_security :: "nat \<Rightarrow> sec_clock"

definition kMaxRecentEvents :: nat where
  "kMaxRecentEvents = 5000"

definition push_recent :: "Event \<Rightarrow> Event list \<Rightarrow> Event list" where
  "push_recent e es = (let es1 = es @ [e] in if length es1 > kMaxRecentEvents then drop (length es1 - kMaxRecentEvents) es1 else es1)"

definition engine_on_event :: "(Event \<Rightarrow> 'w \<Rightarrow> 'w) \<Rightarrow> ('re, 'w) Router \<Rightarrow> ('re, 'w) Router" where
  "engine_on_event cb en = en\<lparr>en_callbacks := en_callbacks en @ [cb]\<rparr>"

definition route_event ::
    "'re regex_lib \<Rightarrow> route_clock \<Rightarrow> Event \<Rightarrow> ('re, 'w) Router \<times> file_system \<times> 'w \<Rightarrow>
     (('re, 'w) Router \<times> file_system \<times> 'w) routed" where
  "route_event rx rc event = (\<lambda>(en, fs, w).
     (let (ef, e, allowed) = filter_process rx event (en_filter en);
          en1 = en\<lparr>en_filter := ef\<rparr>
      in if \<not> allowed then Routed (en1, fs, w)
         else case stats_record (rc_stats rc) (rc_prune rc) e (en_statistics en1) of
           Inl err \<Rightarrow> Hangs
         | Inr st \<Rightarrow>
             (case alert_process_event rx (rc_alerts rc) e (en_alerts en1, (en_webhooks en1, w)) of
                None \<Rightarrow> Hangs
              | Some (am, hooks) \<Rightarrow>
                  (let ((sa, (wn, w1)), threw) = security_process_event (rc_security rc) e (en_auditor en1, hooks);
                       en2 = en1\<lparr>en_statistics := st, en_alerts := am, en_auditor := sa, en_webhooks := wn\<rparr>
                   in if threw then Throws (en2, fs, w1)
                      else
                        (let (fs1, sto) = storage_insert e (fs, en_storage en2);
                             en3 = en2\<lparr>en_storage := sto,
                                       en_reporter := (if rp_enabled (en_reporter en2)
                                                       then enqueue e (en_reporter en2) else en_reporter en2),
                                       en_recent := push_recent e (en_recent en2)\<rparr>
                         in Routed (en3, fs1, fold (\<lambda>cb. cb e) (en_callbacks en3) w1))))))"

text \<open>The monitor that emits the event catches what \<open>route_event\<close> throws.\<close>
definition deliver :: "'s routed \<Rightarrow> 's option" where
  "deliver r = (case r of Hangs \<Rightarrow> None | Throws s \<Rightarrow> Some s | Routed s \<Rightarrow> Some s)"

fun route_all ::
    "'re regex_lib \<Rightarrow> (route_clock \<times> Event) list \<Rightarrow> ('re, 'w) Router \<times> file_system \<times> 'w \<Rightarrow>
     (('re, 'w) Router \<times> file_system \<times> 'w) option" where
  "route_all rx [] s = Some s"
| "route_all rx ((rc, e) # ins) s = Option.bind (deliver (route_event rx rc e s)) (route_all rx ins)"

text \<open>A negative limit asks for a range that starts after the end of the cache, which the source does not
  check: the result is \<open>None\<close>.\<close>
definition recent_events :: "int \<Rightarrow> ('re, 'w) Router \<Rightarrow> Event list option" where
  "recent_events limit en =
     (let start = max 0 (int (length (en_recent en)) - limit)
      in if start \<le> int (length (en_recent en)) then Some (drop (nat start) (en_recent en)) else None)"

definition engine_export_events ::
    "(timestamp \<Rightarrow> string) \<Rightarrow> string \<Rightarrow> ExportFormat \<Rightarrow> file_system \<Rightarrow> ('re, 'w) Router \<Rightarrow> (file_system \<times> bool) option" where
  "engine_export_events fmt path format fs en =
     map_option (\<lambda>events. export_events fmt events path format fs) (recent_events 10000 en)"

interpretation recent_cache: bounded_log kMaxRecentEvents push_recent
  by unfold_locales (simp add: push_recent_def take_last_def Let_def)

subsection \<open>What callbacks leave alone\<close>

lemma alert_callbacks_invariant:
  assumes "alert_process_rules rx clk i e rs (am, w) = Some (am', w')"
    and "\<forall>cb \<in> set (am_callbacks am). \<forall>a w. Q w \<longrightarrow> Q (cb a w)" "Q w"
  shows "Q w' \<and> am_callbacks am' = am_callbacks am"
  using assms
proof (induction rs arbitrary: i am w)
  case (Cons r rs)
  have inv: "Q (fold (\<lambda>cb. cb a) cbs v)" if "set cbs \<subseteq> set (am_callbacks am)" "Q v" for a cbs v
    using that Cons.prems(2) by (induction cbs arbitrary: v) auto
  obtain am1 w1 where s: "alert_process_rule rx (clk i) e r (am, w) = Some (am1, w1)"
      "alert_process_rules rx clk (Suc i) e rs (am1, w1) = Some (am', w')"
    using Cons.prems(1) by (auto simp: bind_eq_Some_conv)
  have "Q w1 \<and> am_callbacks am1 = am_callbacks am"
    using s(1) Cons.prems(3) inv
    by (auto simp: alert_process_rule_def trigger_alert_def Let_def split: if_splits option.splits)
  with Cons.IH [OF s(2)] Cons.prems(2) show ?case by auto
qed auto

lemma report_then_invariant:
  assumes "\<forall>cb \<in> set (sa_callbacks (fst st)). \<forall>e w. Q w \<longrightarrow> Q (fst (cb e w))" "Q (snd st)"
    and "\<And>st'. sa_callbacks (fst st') = sa_callbacks (fst st) \<Longrightarrow> Q (snd st') \<Longrightarrow>
           Q (snd (fst (rest st'))) \<and> sa_callbacks (fst (fst (rest st'))) = sa_callbacks (fst st')"
  shows "Q (snd (fst (report_then cond c ev rest st))) \<and>
         sa_callbacks (fst (fst (report_then cond c ev rest st))) = sa_callbacks (fst st)"
proof -
  obtain sa w where st: "st = (sa, w)" by (rule prod.exhaust)
  have run: "Q (fst (run_callbacks cbs e v))" if "set cbs \<subseteq> set (sa_callbacks sa)" "Q v" for cbs e v
    using that assms(1) by (induction cbs arbitrary: v) (auto simp: st split_beta)
  let ?r = "report_security_event c ev (sa, w)"
  have cbs: "sa_callbacks (check_rules c i rs e s) = sa_callbacks s" for i rs e s
    by (simp add: check_rules_frame)
  have "Q (snd (fst ?r))" "sa_callbacks (fst (fst ?r)) = sa_callbacks sa"
    using run [of "sa_callbacks sa" w ev] assms(2)
    by (simp_all add: report_security_event_def Let_def cbs st split_beta)
  then show ?thesis
    using assms(3) [of "(sa, w)"] assms(3) [of "fst ?r"] assms(2) by (auto simp: report_then_def st split: prod.split)
qed

lemma security_callbacks_invariant:
  assumes "\<forall>cb \<in> set (sa_callbacks (fst st)). \<forall>e w. Q w \<longrightarrow> Q (fst (cb e w))" "Q (snd st)"
  shows "Q (snd (fst (security_process_event clk e st))) \<and>
         sa_callbacks (fst (fst (security_process_event clk e st))) = sa_callbacks (fst st)"
proof -
  have none: "Q (snd (fst (no_exception st'))) \<and> sa_callbacks (fst (fst (no_exception st'))) = sa_callbacks (fst st')"
    if "Q (snd st')" for st' :: "'a SecurityAuditor \<times> 'a"
    using that by (simp add: no_exception_def)
  have one: "Q (snd (fst (report_then c1 k1 e1 no_exception st'))) \<and>
      sa_callbacks (fst (fst (report_then c1 k1 e1 no_exception st'))) = sa_callbacks (fst st')"
    if "sa_callbacks (fst st') = sa_callbacks (fst st)" "Q (snd st')" for c1 k1 e1 st'
    by (rule report_then_invariant) (use that assms none in auto)
  have two: "Q (snd (fst (report_then c1 k1 e1 (report_then c2 k2 e2 no_exception) st))) \<and>
      sa_callbacks (fst (fst (report_then c1 k1 e1 (report_then c2 k2 e2 no_exception) st))) = sa_callbacks (fst st)"
    for c1 k1 e1 c2 k2 e2
    by (rule report_then_invariant) (use assms one in auto)
  show ?thesis
    using two one [OF refl assms(2)] none [OF assms(2)]
    by (auto simp: security_process_event_def analyze_file_event_def analyze_process_event_def
        analyze_network_event_def analyze_system_event_def Let_def split: EventCategory.split)
qed

subsection \<open>The views of the pipeline agree\<close>

text \<open>What the filter lets through, as it leaves it.  The verdict depends on the rules only.\<close>
definition passed :: "'re regex_lib \<Rightarrow> FilterRule list \<Rightarrow> Event \<Rightarrow> Event list" where
  "passed rx rules e =
     (case filter_loop rx rules new_event_filter e of (_, e1, ok) \<Rightarrow> if ok then [e1] else [])"

definition all_passed :: "'re regex_lib \<Rightarrow> ('re, 'w) Router \<Rightarrow> (route_clock \<times> Event) list \<Rightarrow> Event list" where
  "all_passed rx en ins = concat (map (\<lambda>(rc, e). passed rx (ef_rules (en_filter en)) e) ins)"

lemma filter_loop_verdict: "snd (filter_loop rx rs ef e) = snd (filter_loop rx rs ef' e)"
proof (induction rs arbitrary: ef ef' e)
  case (Cons r rs)
  show ?case
    by (simp split: FilterAction.split) (intro conjI impI; rule Cons.IH)
qed simp

lemma filter_loop_rules: "ef_rules (fst (filter_loop rx rs ef e)) = ef_rules ef"
  by (induction rx rs ef e rule: filter_loop.induct) (auto split: FilterAction.split)

lemma filter_process_passed:
  "filter_process rx e ef = (ef', e1, ok) \<Longrightarrow>
   ef_rules ef' = ef_rules ef \<and> passed rx (ef_rules ef) e = (if ok then [e1] else [])"
  using filter_loop_verdict [of rx "ef_rules ef" "ef\<lparr>ef_total_processed := ef_total_processed ef + 1\<rparr>" e new_event_filter]
    filter_loop_rules [of rx "ef_rules ef" "ef\<lparr>ef_total_processed := ef_total_processed ef + 1\<rparr>" e]
  by (auto simp: filter_process_def passed_def split: prod.splits)

text \<open>Callbacks that leave the listeners' world alone while the notifier has no result callbacks: the
  two that the engine registers are of this kind.\<close>
definition bystander :: "'w \<Rightarrow> 'w WebhookNotifier \<times> 'w \<Rightarrow> bool" where
  "bystander w0 s = (snd s = w0 \<and> wn_callbacks (fst s) = [])"

definition quiet_engine :: "('re, 'w) Router \<Rightarrow> bool" where
  "quiet_engine en =
     (wn_callbacks (en_webhooks en) = [] \<and>
      (\<forall>cb \<in> set (am_callbacks (en_alerts en)). \<forall>w0 a s. bystander w0 s \<longrightarrow> bystander w0 (cb a s)) \<and>
      (\<forall>cb \<in> set (sa_callbacks (en_auditor en)). \<forall>w0 e s. bystander w0 s \<longrightarrow> bystander w0 (fst (cb e s))))"

definition engine_ok :: "('re, 'w) Router \<Rightarrow> file_system \<Rightarrow> bool" where
  "engine_ok en fs =
     (stats_wf (en_statistics en) \<and> no_throw (en_auditor en) \<and> quiet_engine en \<and>
      keeping_store (fs, en_storage en) \<and> length (en_recent en) \<le> kMaxRecentEvents)"

text \<open>The part of it that does not concern the store.\<close>
definition core_ok :: "('re, 'w) Router \<Rightarrow> bool" where
  "core_ok en =
     (stats_wf (en_statistics en) \<and> no_throw (en_auditor en) \<and> quiet_engine en \<and> length (en_recent en) \<le> kMaxRecentEvents)"

lemma engine_ok_core: "engine_ok en fs \<longleftrightarrow> core_ok en \<and> keeping_store (fs, en_storage en)"
  by (auto simp: engine_ok_def core_ok_def)

text \<open>An event no text of which can keep the message of an alert growing, and that the store can hold.\<close>
definition routable :: "Event \<Rightarrow> bool" where
  "routable e = (brace_free e \<and> storable_line e)"

lemma no_throw_process:
  assumes "no_throw sa"
  shows "\<not> snd (security_process_event clk e (sa, w)) \<and> no_throw (fst (fst (security_process_event clk e (sa, w))))"
  using recordsD [OF records_process_event [of clk e] assms, of w] by auto

text \<open>Events in every view at once; the store gets them one by one.\<close>
definition routed_core :: "Event list \<Rightarrow> ('re, 'w) Router \<times> file_system \<times> 'w \<Rightarrow> ('re, 'w) Router \<times> file_system \<times> 'w \<Rightarrow> bool" where
  "routed_core es = (\<lambda>(en, fs, w) (en', fs', w').
     core_ok en' \<and> ef_rules (en_filter en') = ef_rules (en_filter en) \<and> en_callbacks en' = en_callbacks en \<and>
     w' = fold (\<lambda>e. fold (\<lambda>cb. cb e) (en_callbacks en)) es w \<and>
     stc_total_events (en_statistics en') = stc_total_events (en_statistics en) + of_nat (length es) \<and>
     (fs', en_storage en') = fold storage_insert es (fs, en_storage en) \<and>
     rp_enabled (en_reporter en') = rp_enabled (en_reporter en) \<and>
     rp_queue (en_reporter en') = rp_queue (en_reporter en) @ (if rp_enabled (en_reporter en) then es else []) \<and>
     en_recent en' = take_last 5000 (en_recent en @ es))"

lemma routed_core_refl: "core_ok en \<Longrightarrow> routed_core [] (en, fs, w) (en, fs, w)"
  by (simp add: routed_core_def core_ok_def kMaxRecentEvents_def)

lemma routed_core_trans: "routed_core es s s1 \<Longrightarrow> routed_core es' s1 s2 \<Longrightarrow> routed_core (es @ es') s s2"
  by (cases s; cases s1; cases s2) (auto simp: routed_core_def take_last_snoc ac_simps)

lemma route_denied:
  assumes "passed rx (ef_rules (en_filter en)) e = []" "core_ok en"
  shows "\<exists>s'. route_event rx rc e (en, fs, w) = Routed s' \<and> routed_core [] (en, fs, w) s'"
proof -
  obtain ef e1 ok where f: "filter_process rx e (en_filter en) = (ef, e1, ok)" by (metis prod.exhaust)
  have "\<not> ok" "ef_rules ef = ef_rules (en_filter en)"
    using filter_process_passed [OF f] assms by (auto split: if_splits)
  then show ?thesis
    using assms(2) by (simp add: route_event_def f routed_core_def core_ok_def quiet_engine_def kMaxRecentEvents_def)
qed

lemma route_passed:
  assumes "passed rx (ef_rules (en_filter en)) e = [e1]" "brace_free e1" "core_ok en"
  shows "\<exists>s'. route_event rx rc e (en, fs, w) = Routed s' \<and> routed_core [e1] (en, fs, w) s'"
proof -
  obtain ef e1' ok where f: "filter_process rx e (en_filter en) = (ef, e1', ok)" by (metis prod.exhaust)
  have [simp]: "ok" "e1' = e1" and rules: "ef_rules ef = ef_rules (en_filter en)"
    using filter_process_passed [OF f] assms(1) by (auto split: if_splits)
  have ok: "stats_wf (en_statistics en)" "no_throw (en_auditor en)" "quiet_engine en" "length (en_recent en) \<le> kMaxRecentEvents"
    using assms(3) by (simp_all add: core_ok_def)
  obtain st where st: "stats_record (rc_stats rc) (rc_prune rc) e1 (en_statistics en) = Inr st" "stats_wf st"
      "stc_total_events st = stc_total_events (en_statistics en) + 1"
    by (rule stats_record_result [OF ok(1)])
  obtain am wn1 w1 where al: "alert_process_event rx (rc_alerts rc) e1 (en_alerts en, (en_webhooks en, w)) = Some (am, (wn1, w1))"
    using alert_process_event_total [OF assms(2), of rx "rc_alerts rc" "(en_alerts en, (en_webhooks en, w))"] by (metis prod.exhaust)
  have q1: "bystander w (wn1, w1) \<and> am_callbacks am = am_callbacks (en_alerts en)"
    using alert_callbacks_invariant [OF al [unfolded alert_process_event_def], of "bystander w"] ok(3)
    by (simp add: quiet_engine_def bystander_def)
  obtain sa wn2 w2 threw where sec: "security_process_event (rc_security rc) e1 (en_auditor en, (wn1, w1)) = ((sa, (wn2, w2)), threw)"
    by (metis prod.exhaust)
  have q2: "bystander w (wn2, w2) \<and> sa_callbacks sa = sa_callbacks (en_auditor en)"
    using security_callbacks_invariant [of "(en_auditor en, (wn1, w1))" "bystander w" "rc_security rc" e1] q1 ok(3)
    by (simp add: quiet_engine_def sec)
  have nt: "\<not> threw" "no_throw sa"
    using no_throw_process [OF ok(2), of "rc_security rc" e1 "(wn1, w1)"] by (simp_all add: sec)
  obtain fs' sto where ins: "storage_insert e1 (fs, en_storage en) = (fs', sto)" by (rule prod.exhaust)
  let ?en = "en\<lparr>en_filter := ef, en_statistics := st, en_alerts := am, en_auditor := sa, en_webhooks := wn2, en_storage := sto,
      en_reporter := (if rp_enabled (en_reporter en) then enqueue e1 (en_reporter en) else en_reporter en),
      en_recent := push_recent e1 (en_recent en)\<rparr>"
  have "route_event rx rc e (en, fs, w) = Routed (?en, fs', fold (\<lambda>cb. cb e1) (en_callbacks en) w)"
    using q2 by (simp add: route_event_def f st(1) al sec nt ins bystander_def)
  moreover have "quiet_engine ?en" using q1 q2 ok(3) by (simp add: quiet_engine_def bystander_def)
  then have "core_ok ?en"
    using st(2) nt(2) recent_cache.length_push_le [of e1 "en_recent en"] by (simp add: core_ok_def)
  ultimately show ?thesis
    by (simp add: routed_core_def rules st(3) ins enqueue_def recent_cache.push_eq kMaxRecentEvents_def)
qed

lemma all_passed_simps:
  "all_passed rx en [] = []"
  "ef_rules (en_filter en1) = ef_rules (en_filter en) \<Longrightarrow>
     all_passed rx en ((rc, e) # ins) = passed rx (ef_rules (en_filter en)) e @ all_passed rx en1 ins"
  by (simp_all add: all_passed_def)

lemma route_event_core:
  assumes "core_ok en" "\<forall>e' \<in> set (passed rx (ef_rules (en_filter en)) e). brace_free e'"
  shows "\<exists>s'. route_event rx rc e (en, fs, w) = Routed s' \<and> routed_core (passed rx (ef_rules (en_filter en)) e) (en, fs, w) s'"
proof (cases "passed rx (ef_rules (en_filter en)) e")
  case Nil
  then show ?thesis using route_denied [OF Nil assms(1)] by simp
next
  case (Cons e1 more)
  then have p: "passed rx (ef_rules (en_filter en)) e = [e1]" by (auto simp: passed_def split: prod.splits if_splits)
  then show ?thesis using route_passed [OF p _ assms(1)] assms(2) by simp
qed

lemma route_all_core:
  assumes "core_ok en" "\<forall>e \<in> set (all_passed rx en ins). brace_free e"
  shows "\<exists>s'. route_all rx ins (en, fs, w) = Some s' \<and> routed_core (all_passed rx en ins) (en, fs, w) s'"
  using assms
proof (induction ins arbitrary: en fs w)
  case (Cons i ins)
  obtain rc e where i: "i = (rc, e)" by (rule prod.exhaust)
  have ok: "\<forall>e' \<in> set (passed rx (ef_rules (en_filter en)) e). brace_free e'"
    using Cons.prems(2) by (simp add: i all_passed_def)
  obtain en1 fs1 w1 where r: "route_event rx rc e (en, fs, w) = Routed (en1, fs1, w1)"
      "routed_core (passed rx (ef_rules (en_filter en)) e) (en, fs, w) (en1, fs1, w1)"
    using route_event_core [OF Cons.prems(1) ok, of rc fs w] by (metis prod.exhaust)
  then have en1: "core_ok en1" "ef_rules (en_filter en1) = ef_rules (en_filter en)" by (simp_all add: routed_core_def)
  note P = all_passed_simps(2) [OF en1(2), of rx rc e ins]
  have "\<forall>e \<in> set (all_passed rx en1 ins). brace_free e" using Cons.prems(2) by (simp add: i P)
  from Cons.IH [OF en1(1) this, of fs1 w1] routed_core_trans [OF r(2)] show ?case
    by (auto simp: i P r(1) deliver_def)
qed (simp add: all_passed_simps routed_core_refl)

lemma all_passed_unfiltered:
  assumes "ef_rules (en_filter en) = []" "length rcs = length es"
  shows "all_passed rx en (zip rcs es) = es"
  using assms(2) by (induction rcs es rule: list_induct2) (simp_all add: all_passed_def passed_def assms(1))

text \<open>With a store that keeps what it gets, its scan is one of the views.\<close>
definition routed_ok ::
    "(nat \<Rightarrow> timestamp) \<Rightarrow> Event list \<Rightarrow> ('re, 'w) Router \<times> file_system \<times> 'w \<Rightarrow> ('re, 'w) Router \<times> file_system \<times> 'w \<Rightarrow> bool" where
  "routed_ok clk es = (\<lambda>(en, fs, w) (en', fs', w').
     engine_ok en' fs' \<and> ef_rules (en_filter en') = ef_rules (en_filter en) \<and> en_callbacks en' = en_callbacks en \<and>
     w' = fold (\<lambda>e. fold (\<lambda>cb. cb e) (en_callbacks en)) es w \<and>
     stc_total_events (en_statistics en') = stc_total_events (en_statistics en) + of_nat (length es) \<and>
     storage_iterate clk fs' (en_storage en') = storage_iterate clk fs (en_storage en) @ map persisted es \<and>
     rp_enabled (en_reporter en') = rp_enabled (en_reporter en) \<and>
     rp_queue (en_reporter en') = rp_queue (en_reporter en) @ (if rp_enabled (en_reporter en) then es else []) \<and>
     en_recent en' = take_last 5000 (en_recent en @ es))"

lemma routed_core_ok:
  assumes "routed_core es (en, fs, w) s'" "keeping_store (fs, en_storage en)" "list_all storable_line es"
  shows "routed_ok clk es (en, fs, w) s'"
proof -
  obtain en' fs' w' where s': "s' = (en', fs', w')" by (rule prod_cases3)
  have st: "(fs', en_storage en') = fold storage_insert es (fs, en_storage en)" using assms(1) by (simp add: s' routed_core_def)
  have "keeping_store (fs', en_storage en')" unfolding st by (rule file_store.ok_fold [OF assms(2,3)])
  moreover have "storage_iterate clk fs' (en_storage en') = storage_iterate clk fs (en_storage en) @ map persisted es"
    using file_store.events_fold [OF assms(2,3), of clk] unfolding st [symmetric] by simp
  ultimately show ?thesis using assms(1) by (simp add: s' routed_core_def routed_ok_def engine_ok_core)
qed

lemma route_all_ok:
  assumes "engine_ok en fs" "\<forall>e \<in> set (all_passed rx en ins). brace_free e \<and> storable_line e"
  shows "\<exists>s'. route_all rx ins (en, fs, w) = Some s' \<and> routed_ok clk (all_passed rx en ins) (en, fs, w) s'"
proof -
  have ok: "core_ok en" "keeping_store (fs, en_storage en)" using assms(1) by (simp_all add: engine_ok_core)
  have "\<forall>e \<in> set (all_passed rx en ins). brace_free e" "list_all storable_line (all_passed rx en ins)"
    using assms(2) by (simp_all add: list_all_iff)
  with route_all_core [OF ok(1)] routed_core_ok [OF _ ok(2)] show ?thesis by blast
qed

text \<open>C7: every part of the engine sees the same events: over any sequence of events, if none of those the
  filter lets through contains a brace or cannot be stored and no callback of the auditor throws, the
  call always returns, the counter grows by their number, the store, the queue of an enabled reporter
  and the newest 5000 of the cache get exactly these events in order, and so does every listener.\<close>
theorem engine_views_agree:
  assumes "engine_ok en fs" "\<forall>e \<in> set (all_passed rx en ins). brace_free e \<and> storable_line e"
  shows "\<exists>en' fs'.
    route_all rx ins (en, fs, w) = Some (en', fs', fold (\<lambda>e. fold (\<lambda>cb. cb e) (en_callbacks en)) (all_passed rx en ins) w) \<and>
    stc_total_events (en_statistics en') = stc_total_events (en_statistics en) + of_nat (length (all_passed rx en ins)) \<and>
    storage_iterate clk fs' (en_storage en') = storage_iterate clk fs (en_storage en) @ map persisted (all_passed rx en ins) \<and>
    rp_queue (en_reporter en') =
      rp_queue (en_reporter en) @ (if rp_enabled (en_reporter en) then all_passed rx en ins else []) \<and>
    en_recent en' = take_last 5000 (en_recent en @ all_passed rx en ins)"
  using route_all_ok [OF assms, of w clk] by (auto simp: routed_ok_def)

definition plain_engine :: "('re, nat) Router" where
  "plain_engine =
     \<lparr> en_filter = new_event_filter, en_statistics = new_statistics 0 0, en_alerts = new_alert_manager,
       en_auditor = new_security_auditor, en_webhooks = new_webhook_notifier, en_storage = snd opened,
       en_reporter = reporter_set_enabled True new_reporter, en_recent = [], en_callbacks = [\<lambda>_ n. n + 1] \<rparr>"

lemma new_security_auditor_callbacks [simp]: "sa_callbacks new_security_auditor = []"
  by (simp add: new_security_auditor_def security_add_rule_def)

lemma plain_engine_ok: "engine_ok plain_engine (fst opened)"
  using opened_ok(1) surjective_pairing [of opened]
  by (simp add: engine_ok_def plain_engine_def quiet_engine_def no_throw_def new_alert_manager_def new_webhook_notifier_def)

text \<open>Clocks that stand still.\<close>
definition plain_clock :: route_clock where
  "plain_clock =
     \<lparr> rc_stats = 0, rc_prune = 0, rc_alerts = quiet_clock 0,
       rc_security = (\<lambda>_. \<lparr> sc_event = 0, sc_check = 0, sc_cooldown = (\<lambda>_. 0), sc_record = (\<lambda>_. 0) \<rparr>) \<rparr>"

lemma engine_views_agree_witness:
  "\<exists>en' fs'. route_all literal_regex [(plain_clock, sample_event), (plain_clock, sample_event)] (plain_engine, fst opened, 0) = Some (en', fs', 2) \<and>
     rp_queue (en_reporter en') = [sample_event, sample_event] \<and> en_recent en' = [sample_event, sample_event] \<and>
     storage_iterate (\<lambda>_. 0) fs' (en_storage en') = [persisted sample_event, persisted sample_event]"
proof -
  let ?ins = "[(plain_clock, sample_event), (plain_clock, sample_event)]"
  have P: "all_passed literal_regex plain_engine ?ins = [sample_event, sample_event]"
    by (simp add: all_passed_def passed_def plain_engine_def new_event_filter_def)
  have ok: "\<forall>e \<in> set (all_passed literal_regex plain_engine ?ins). brace_free e \<and> storable_line e"
    unfolding P by (simp add: storable_line_def) (simp add: sample_event_def brace_free_def event_default_def)
  have start: "storage_iterate (\<lambda>_. 0) (fst opened) (en_storage plain_engine) = []" "en_recent plain_engine = []"
    "rp_queue (en_reporter plain_engine) = []" "rp_enabled (en_reporter plain_engine)"
    "en_callbacks plain_engine = [\<lambda>_ n. n + 1]"
    by (simp_all add: plain_engine_def opened_eq storage_iterate_def reporter_set_enabled_def new_reporter_def)
  show ?thesis
    using engine_views_agree [OF plain_engine_ok ok, of 0 "\<lambda>_. 0"]
    unfolding P start by (auto simp: start(4))
qed

text \<open>The security callback of a listener that throws loses the event for everything after the audit: it is
  counted, but neither stored nor cached, queued or delivered.\<close>
lemma throwing_callback_loses_event:
  assumes "filter_process rx e (en_filter en) = (ef, e1, True)" "stats_record (rc_stats rc) (rc_prune rc) e1 (en_statistics en) = Inr st"
    and "alert_process_event rx (rc_alerts rc) e1 (en_alerts en, (en_webhooks en, w)) = Some (am, hooks)"
    and "snd (security_process_event (rc_security rc) e1 (en_auditor en, hooks))"
  shows "\<exists>en' w'. route_event rx rc e (en, fs, w) = Throws (en', fs, w') \<and> en_statistics en' = st \<and>
           en_storage en' = en_storage en \<and> en_reporter en' = en_reporter en \<and> en_recent en' = en_recent en"
proof -
  obtain sa wn w1 threw where "security_process_event (rc_security rc) e1 (en_auditor en, hooks) = ((sa, (wn, w1)), threw)"
    by (metis prod.exhaust)
  with assms(4) show ?thesis by (auto simp: route_event_def assms(1-3))
qed

text \<open>The export asks for 10000 events, the cache holds 5000 at most.\<close>
lemma export_limit_is_cache_limit:
  assumes "length (en_recent en) \<le> kMaxRecentEvents"
  shows "recent_events 10000 en = Some (en_recent en)"
  using assms by (simp add: recent_events_def kMaxRecentEvents_def)

text \<open>A closed store takes nothing: no event changes a file.\<close>
lemma closed_store_unchanged:
  assumes "\<not> storage_is_open (en_storage en)" "route_all rx ins (en, fs, w) = Some (en', fs', w')"
  shows "fs' = fs \<and> en_storage en' = en_storage en"
  using assms
proof (induction ins arbitrary: en fs w)
  case (Cons i ins)
  obtain rc e where i: "i = (rc, e)" by (rule prod.exhaust)
  obtain en1 fs1 w1 where s: "deliver (route_event rx rc e (en, fs, w)) = Some (en1, fs1, w1)"
      "route_all rx ins (en1, fs1, w1) = Some (en', fs', w')"
    using Cons.prems(2) by (auto simp: i bind_eq_Some_conv)
  have "storage_insert e1 (fs, en_storage en) = (fs, en_storage en)" for e1
    using Cons.prems(1) by (simp add: storage_insert_def storage_is_open_def)
  then have "fs1 = fs \<and> en_storage en1 = en_storage en"
    using s(1) by (auto simp: route_event_def deliver_def Let_def split: prod.splits sum.splits option.splits if_splits)
  with Cons.IH [OF _ s(2)] Cons.prems(1) show ?case by simp
qed simp

end
