(* ===== verification/Config_Watcher.thy ===== *)
theory Config_Watcher
  imports Prelude
begin

text \<open>
  \<open>config/config_watcher.h\<close> and \<open>config/config_watcher.cpp\<close>: a thread that compares the modification time
  of the configuration file with the last one it saw.  The callback is an argument of the check and
  acts on a state of its own; \<open>mtime\<close> answers \<open>stat\<close> in seconds, \<open>None\<close> when it fails.  A check is
  one iteration of the loop after its sleep.
\<close>

record ConfigWatcher =
  cw_config_path :: string
  cw_check_interval_ms :: int
  cw_watching :: bool
  cw_last_modified :: timestamp

definition new_config_watcher :: ConfigWatcher where
  "new_config_watcher = \<lparr> cw_config_path = [], cw_check_interval_ms = 5000, cw_watching = False, cw_last_modified = 0 \<rparr>"

definition get_file_modified_time :: "(string \<Rightarrow> int option) \<Rightarrow> string \<Rightarrow> timestamp" where
  "get_file_modified_time mtime path = (case mtime path of None \<Rightarrow> 0 | Some s \<Rightarrow> s * 1000000000)"

definition stop_watching :: "ConfigWatcher \<Rightarrow> ConfigWatcher" where
  "stop_watching w = (if cw_watching w then w\<lparr>cw_watching := False\<rparr> else w)"

definition start_watching :: "(string \<Rightarrow> int option) \<Rightarrow> string \<Rightarrow> int \<Rightarrow> ConfigWatcher \<Rightarrow> ConfigWatcher" where
  "start_watching mtime path interval w =
     (stop_watching w)\<lparr>cw_config_path := path, cw_check_interval_ms := interval,
        cw_last_modified := get_file_modified_time mtime path, cw_watching := True\<rparr>"

text \<open>Exceptions of the callback are logged and swallowed.\<close>
definition watch_check :: "(string \<Rightarrow> int option) \<Rightarrow> ('w \<Rightarrow> 'w) \<Rightarrow> ConfigWatcher \<times> 'w \<Rightarrow> ConfigWatcher \<times> 'w" where
  "watch_check mtime cb = (\<lambda>(w, s).
     if \<not> cw_watching w then (w, s)
     else (let current = get_file_modified_time mtime (cw_config_path w) in
           if current \<noteq> cw_last_modified w \<and> current \<noteq> 0
           then (w\<lparr>cw_last_modified := current\<rparr>, cb s) else (w, s)))"

text \<open>The times a run of checks reads, without the failures of \<open>stat\<close>.\<close>
definition seen_times :: "string \<Rightarrow> (string \<Rightarrow> int option) list \<Rightarrow> timestamp list" where
  "seen_times path mtimes = filter (\<lambda>t. t \<noteq> 0) (map (\<lambda>m. get_file_modified_time m path) mtimes)"

text \<open>The watcher reloads once for every change of the modification time it can read, in either
  direction; a file that is gone for some checks and comes back with the same time is no change.\<close>
lemma watch_reloads_on_change:
  assumes "cw_watching w"
  shows "snd (fold (\<lambda>m. watch_check m cb) mtimes (w, s)) =
         (cb ^^ (length (remdups_adj (cw_last_modified w # seen_times (cw_config_path w) mtimes)) - 1)) s"
  using assms
proof (induction mtimes arbitrary: w s)
  case (Cons m mtimes)
  let ?t = "get_file_modified_time m (cw_config_path w)"
  let ?ts = "seen_times (cw_config_path w) mtimes"
  have step: "watch_check m cb (w, s) =
      (if ?t \<noteq> cw_last_modified w \<and> ?t \<noteq> 0 then (w\<lparr>cw_last_modified := ?t\<rparr>, cb s) else (w, s))"
    using Cons.prems by (simp add: watch_check_def Let_def)
  have ts: "seen_times (cw_config_path w) (m # mtimes) = (if ?t = 0 then ?ts else ?t # ?ts)"
    by (simp add: seen_times_def)
  show ?case
  proof (cases "?t \<noteq> cw_last_modified w \<and> ?t \<noteq> 0")
    case True
    let ?w = "w\<lparr>cw_last_modified := ?t\<rparr>"
    have len: "length (remdups_adj (?t # ?ts)) = Suc (length (remdups_adj (?t # ?ts)) - 1)"
      by (simp add: Suc_leI)
    have "snd (fold (\<lambda>m. watch_check m cb) mtimes (?w, cb s)) = (cb ^^ (length (remdups_adj (?t # ?ts)) - 1)) (cb s)"
      using Cons.IH [of ?w "cb s"] Cons.prems by simp
    also have "\<dots> = (cb ^^ length (remdups_adj (?t # ?ts))) s"
      by (subst (2) len) (simp only: funpow_Suc_right comp_def)
    finally show ?thesis using True by (simp add: step ts)
  next
    case False
    then have "remdups_adj (cw_last_modified w # seen_times (cw_config_path w) (m # mtimes)) = remdups_adj (cw_last_modified w # ?ts)"
      by (auto simp: ts)
    with False show ?thesis
      using Cons.IH [OF Cons.prems, of s] by (simp only: fold_simps step if_False)
  qed
qed (simp add: seen_times_def)

lemma stopped_watcher_is_silent:
  "\<not> cw_watching w \<Longrightarrow> fold (\<lambda>m. watch_check m cb) mtimes (w, s) = (w, s)"
  by (induction mtimes) (simp_all add: watch_check_def)

end
