(* ===== verification/Detection_Gaps.thy ===== *)
theory Detection_Gaps
  imports Security_Auditor Alert_Manager Process_Monitor Network_Monitor Filesystem_Monitor
begin

text \<open>
  What the detections of \<open>security/security_auditor.cpp\<close> and the predefined rules of
  \<open>alert/alert_manager.cpp\<close> make of the events that the process, network and filesystem monitors emit.
  The auditor compares the whole last component of a process target with its list of names, but the
  process monitor appends the identifier in parentheses; and it reads attributes (\<open>user\<close>,
  \<open>remote_port\<close>, \<open>mode\<close>) that no monitor writes.
\<close>

lemma map_diff_mem:
  assumes "e \<in> set (map_diff f g prev cur)"
  shows "(\<exists>k v. e \<in> set (f k (map_of prev k) v)) \<or> (\<exists>k v. e \<in> set (g k v))"
  using assms by (auto simp: map_diff_def split: if_splits)

lemma two_loops_mem:
  assumes "e \<in> set (concat (map (\<lambda>(i, c). f i c) xs) @ concat (map (\<lambda>(i, c). g i c) ys))"
  shows "(\<exists>i c. e \<in> set (f i c)) \<or> (\<exists>i c. e \<in> set (g i c))"
  using assms by auto

subsection \<open>Processes\<close>

lemma process_tick_event:
  assumes "e \<in> set (snd (process_tick env entries m))"
  obtains pid info where "e = process_started env pid info" | pid info where "e = process_stopped env pid info"
proof -
  have "e \<in> set (map_diff (process_seen env) (process_gone env) (pm_previous m) (process_map (process_snapshot entries)))"
    using assms by (simp add: process_tick_def process_diff_def split: if_splits)
  from map_diff_mem [OF this] consider
      k v where "e \<in> set (process_seen env k (map_of (pm_previous m) k) v)" | k v where "e \<in> set (process_gone env k v)"
    by blast
  then show ?thesis
  proof cases
    case 1
    then have "e = process_started env k v" by (simp add: process_seen_def split: if_splits)
    then show ?thesis by (rule that(1))
  next
    case 2
    then have "e = process_stopped env k v" by (simp add: process_gone_def)
    then show ?thesis by (rule that(2))
  qed
qed

lemma proc_name_snoc: "c \<noteq> CHR ''/'' \<Longrightarrow> proc_name (s @ [c]) = proc_name s @ [tolower c]"
  by (simp add: proc_name_def to_lower_def)

lemma suspicious_last: "p \<in> set suspicious_names \<Longrightarrow> last p \<noteq> CHR '')''"
  by (auto simp: suspicious_names_def)

lemma process_target_innocent: "proc_name (name @ ''('' @ int_str pid @ '')'') \<notin> set suspicious_names"
proof -
  have "proc_name ((name @ ''('' @ int_str pid) @ '')'') = proc_name (name @ ''('' @ int_str pid) @ '')''"
    by (subst proc_name_snoc) (simp_all add: tolower_def)
  then have "last (proc_name (name @ ''('' @ int_str pid @ '')'')) = CHR '')''" by simp
  then show ?thesis using suspicious_last by blast
qed

lemma process_events_undetected:
  assumes "e \<in> set (snd (process_tick env entries m))"
  shows "detections clk e = []"
  using assms
  by (rule process_tick_event)
     (simp_all add: detections_def process_started_def process_stopped_def process_target_innocent [simplified] started_as_root_def)

subsection \<open>Connections\<close>

lemma network_tick_event:
  assumes "e \<in> set (snd (network_tick env read m))"
  obtains i c where "e = connection_opened env i c" | i c where "e = connection_closed env i c"
proof -
  let ?cur = "snapshot_connections read"
  have "e \<in> set (network_events env (nm_previous m) ?cur)"
    using assms by (simp add: network_tick_def network_diff_def split: if_splits)
  then consider i c where "e \<in> set (if make_key c \<notin> make_key ` set (nm_previous m) then [connection_opened env i c] else [])"
    | i c where "e \<in> set (if make_key c \<notin> make_key ` set ?cur then [connection_closed env i c] else [])"
    using two_loops_mem [of e "\<lambda>i c. if make_key c \<notin> make_key ` set (nm_previous m) then [connection_opened env i c] else []"
        _ "\<lambda>i c. if make_key c \<notin> make_key ` set ?cur then [connection_closed env i c] else []"]
    unfolding network_events_def Let_def by blast
  then show ?thesis
  proof cases
    case 1
    then have "e = connection_opened env i c" by (simp split: if_splits)
    then show ?thesis by (rule that(1))
  next
    case 2
    then have "e = connection_closed env i c" by (simp split: if_splits)
    then show ?thesis by (rule that(2))
  qed
qed

lemma network_events_undetected:
  assumes "e \<in> set (snd (network_tick env read m))"
  shows "detections clk e = []"
  using assms
  by (rule network_tick_event)
     (simp_all add: detections_def connection_opened_def connection_closed_def suspicious_port_def)

subsection \<open>Files\<close>

lemma scan_and_diff_event:
  assumes "e \<in> set (snd (scan_and_diff env probe listing m))"
  shows "ev_category e = Filesystem \<and> map_of (ev_attributes e) ''mode'' = None"
  using assms
  by (auto simp: scan_and_diff_def filesystem_diff_def fs_seen_def fs_gone_def fs_event_def Let_def
      dest!: map_diff_mem split: if_splits option.splits)

lemma file_events_detected:
  assumes "e \<in> set (snd (scan_and_diff env probe listing m))"
  shows "map se_type (detections clk e) = (if is_sensitive (ev_target e) then [SensitiveFileAccess] else [])"
  using scan_and_diff_event [OF assms]
  by (simp add: detections_def suid_set_def security_event_def)

text \<open>C33: whatever runs and whatever connects, no event of the process monitor or of the network monitor is
  ever a security event, and one of the filesystem monitor only if its path is sensitive: the checks
  for suspicious processes, root processes, suspicious ports and SUID bits cannot succeed on the
  events the program produces.\<close>
theorem audit_sees_only_sensitive_files:
  "concat (map (detections clk) (snd (process_tick penv entries pm))) = [] \<and>
   concat (map (detections clk) (snd (network_tick nenv read nm))) = [] \<and>
   map (\<lambda>e. map se_type (detections clk e)) (snd (scan_and_diff fenv probe listing fm)) =
     map (\<lambda>e. if is_sensitive (ev_target e) then [SensitiveFileAccess] else []) (snd (scan_and_diff fenv probe listing fm))"
  using process_events_undetected network_events_undetected file_events_detected by auto

text \<open>The rule for processor usage waits for a type of event that the process monitor does not emit.\<close>
lemma high_cpu_rule_never_matches:
  assumes "e \<in> set (snd (process_tick env entries m))"
  shows "\<not> alert_matches_rule rx high_cpu_usage e"
  using assms
  by (rule process_tick_event)
     (simp_all add: alert_matches_rule_def high_cpu_usage_def default_alert_rule_def process_started_def process_stopped_def)

end
