(* ===== verification/Engine_Lifecycle.thy ===== *)
theory Engine_Lifecycle
  imports Monitor_Engine Config_Store Config_Watcher Filesystem_Monitor Process_Monitor Network_Monitor
    System_Config_Monitor User_Activity_Monitor Service_Monitor File_Integrity_Monitor Usb_Device_Monitor
    Disk_Space_Monitor System_Load_Monitor Log_Monitor Port_Monitor Package_Monitor Environment_Monitor
begin

text \<open>
  \<open>core/monitor_engine.cpp\<close>, second part: \<open>initialize\<close>, \<open>start_all\<close>, \<open>stop_all\<close>, \<open>reload_config\<close> and the
  configuration watch.  The engine holds the router of theory \<open>Monitor_Engine\<close>, the fourteen derived
  monitors, and for each of them a slot with its base class and the interval its periodic runner was
  started with, \<open>None\<close> while there is no running one.  \<open>config::ConfigStore::instance()\<close> is the
  argument \<open>cfg\<close>.
\<close>

record 'lre MonitorSet =
  ms_filesystem :: FilesystemMonitor
  ms_process :: ProcessMonitor
  ms_network :: NetworkMonitor
  ms_system_config :: SystemConfigMonitor
  ms_user_activity :: UserActivityMonitor
  ms_service :: ServiceMonitor
  ms_file_integrity :: FileIntegrityMonitor
  ms_usb_device :: UsbDeviceMonitor
  ms_disk_space :: DiskSpaceMonitor
  ms_system_load :: SystemLoadMonitor
  ms_log :: "'lre LogMonitor"
  ms_port :: PortMonitor
  ms_package :: PackageMonitor
  ms_environment :: EnvironmentMonitor

record MonitorSlot =
  sl_name :: string
  sl_available :: bool
  sl_base :: "unit Monitor"
  sl_runner :: "int option"

record ('re, 'lre, 'w) MonitorEngine =
  eng_router :: "('re, 'w) Router"
  eng_monitors :: "'lre MonitorSet"
  eng_slots :: "MonitorSlot list"
  eng_watcher :: ConfigWatcher
  eng_running :: bool

text \<open>What the engine takes from libraries and the environment.\<close>
record ('re, 'lre) engine_env =
  ee_regex :: "'re regex_lib"
  ee_log_regex :: "'lre log_regex"
  ee_sort :: "FilterRule list \<Rightarrow> FilterRule list"
  ee_stod :: "string \<Rightarrow> double option"
  ee_hmac :: "string \<Rightarrow> string \<Rightarrow> nat list option"
  ee_alert_net :: "Alert \<Rightarrow> nat \<Rightarrow> http_request \<Rightarrow> nat \<Rightarrow> curl_outcome"
  ee_alert_clock :: "Alert \<Rightarrow> nat \<Rightarrow> nat \<Rightarrow> timestamp \<times> timestamp"
  ee_security_net :: "SecurityEvent \<Rightarrow> nat \<Rightarrow> http_request \<Rightarrow> nat \<Rightarrow> curl_outcome"
  ee_security_clock :: "SecurityEvent \<Rightarrow> nat \<Rightarrow> nat \<Rightarrow> timestamp \<times> timestamp"
  ee_available :: "string \<Rightarrow> bool"
  ee_access :: "string \<Rightarrow> bool"
  ee_mtime :: "string \<Rightarrow> int option"
  ee_now1 :: timestamp
  ee_now2 :: timestamp

subsection \<open>Initialisation\<close>

text \<open>Name, configuration key and default interval of every monitor, in the order of \<open>start_all\<close>.\<close>
definition monitor_table :: "(string \<times> string \<times> int) list" where
  "monitor_table =
     [(''filesystem'', ''filesystem.poll_interval_ms'', 3000),
      (''process'', ''process.poll_interval_ms'', 3000),
      (''network'', ''network.poll_interval_ms'', 5000),
      (''system_config'', ''system_config.poll_interval_ms'', 10000),
      (''user_activity'', ''user_activity.poll_interval_ms'', 5000),
      (''service'', ''service.poll_interval_ms'', 10000),
      (''file_integrity'', ''file_integrity.poll_interval_ms'', 30000),
      (''usb_device'', ''usb_device.poll_interval_ms'', 5000),
      (''disk_space'', ''disk_space.poll_interval_ms'', 30000),
      (''system_load'', ''system_load.poll_interval_ms'', 5000),
      (''log'', ''log.poll_interval_ms'', 5000),
      (''port'', ''port.poll_interval_ms'', 5000),
      (''package'', ''package.poll_interval_ms'', 60000),
      (''environment'', ''environment.poll_interval_ms'', 10000)]"

definition new_slots :: "(string \<Rightarrow> bool) \<Rightarrow> MonitorSlot list" where
  "new_slots available =
     map (\<lambda>(name, _, _). \<lparr> sl_name = name, sl_available = available name, sl_base = new_monitor, sl_runner = None \<rparr>) monitor_table"

text \<open>\<open>set_poll_interval_ms(cfg.get_int(key, default))\<close> for every monitor, as \<open>initialize\<close> and
  \<open>reload_config\<close> both do.\<close>
definition set_intervals :: "ConfigStore \<Rightarrow> MonitorSlot list \<Rightarrow> MonitorSlot list" where
  "set_intervals cfg slots =
     map (\<lambda>(slot, _, key, default_ms).
        slot\<lparr>sl_base := set_poll_interval_ms (config_get_int key default_ms cfg) (sl_base slot)\<rparr>) (zip slots monitor_table)"

definition default_log_patterns :: "(string \<times> string \<times> string) list" where
  "default_log_patterns =
     [(''error'', ''error|ERROR|ERR'', ''error''),
      (''warning'', ''warning|WARNING|WARN'', ''warning''),
      (''critical'', ''critical|CRITICAL|CRIT|fatal|FATAL'', ''critical''),
      (''authentication_failure'', ''authentication failure|auth failure|login failed|failed login'', ''critical''),
      (''permission_denied'', ''permission denied|access denied|denied'', ''warning'')]"

definition watched_ports :: "string list \<Rightarrow> int list" where
  "watched_ports ps = remdups (sort (List.map_filter stoi ps))"

definition initialize_monitors :: "('re, 'lre) engine_env \<Rightarrow> ConfigStore \<Rightarrow> MonitorSlot list \<times> 'lre MonitorSet" where
  "initialize_monitors env cfg =
     (let stod = ee_stod env;
          ports = config_get_list ''port.watch_ports'' [] cfg;
          vars = config_get_list ''environment.watch_variables'' [] cfg;
          log1 = fold log_add_watch_path (config_get_list ''log.watch_paths'' [] cfg) new_log_monitor
      in (set_intervals cfg (new_slots (ee_available env)),
          \<lparr> ms_filesystem = fold add_watch_path (config_get_list ''filesystem.watch_paths'' [''/tmp''] cfg) new_filesystem_monitor,
            ms_process = new_process_monitor,
            ms_network = new_network_monitor,
            ms_system_config = new_system_config_monitor,
            ms_user_activity = new_user_activity_monitor,
            ms_service = new_service_monitor,
            ms_file_integrity = fold add_watch_file (config_get_list ''file_integrity.watch_files'' [] cfg) new_integrity_monitor,
            ms_usb_device = new_usb_monitor,
            ms_disk_space = new_disk_monitor
              \<lparr>dsm_watch_paths := config_get_list ''disk_space.watch_paths'' [] cfg,
               dsm_warning_threshold := config_get_double stod ''disk_space.warning_threshold'' (Fin 80) cfg,
               dsm_critical_threshold := config_get_double stod ''disk_space.critical_threshold'' (Fin 95) cfg\<rparr>,
            ms_system_load =
              set_cpu_threshold (config_get_double stod ''system_load.cpu_threshold'' (Fin 90) cfg)
                (set_load_threshold (config_get_double stod ''system_load.load_threshold'' (Fin 5) cfg) new_system_load_monitor),
            ms_log = fold (\<lambda>(n, p, s). add_pattern (ee_log_regex env) n p s) default_log_patterns log1,
            ms_port = (if ports = [] then new_port_monitor else set_watch_ports (watched_ports ports) new_port_monitor),
            ms_package = new_package_monitor,
            ms_environment =
              (if vars = [] then new_environment_monitor else set_watch_variables (remdups (sort vars)) new_environment_monitor) \<rparr>))"

definition initialize_storage :: "ConfigStore \<Rightarrow> file_system \<Rightarrow> file_system \<times> FileStorage" where
  "initialize_storage cfg fs =
     (let (fs1, sto, _) = storage_open (config_get ''storage.database_path'' ''change-of-system.log'' cfg) fs new_storage;
          max_mb = config_get_int ''storage.max_size_mb'' 0 cfg;
          count = config_get_int ''storage.rotate_count'' 5 cfg
      in (fs1, if max_mb > 0 then configure_rotation (max_mb * 1024 * 1024) count sto else sto))"

definition alert_callback :: "('re, 'lre) engine_env \<Rightarrow> Alert \<Rightarrow> 'w WebhookNotifier \<times> 'w \<Rightarrow> 'w WebhookNotifier \<times> 'w" where
  "alert_callback env a st = webhook_on_alert (ee_hmac env) (ee_alert_net env a) (ee_alert_clock env a) a st"

definition security_callback ::
    "('re, 'lre) engine_env \<Rightarrow> SecurityEvent \<Rightarrow> 'w WebhookNotifier \<times> 'w \<Rightarrow> ('w WebhookNotifier \<times> 'w) \<times> bool" where
  "security_callback env e st =
     (webhook_on_security_event (ee_hmac env) (ee_security_net env e) (ee_security_clock env e) e st, False)"

definition default_webhook :: "ConfigStore \<Rightarrow> WebhookConfig" where
  "default_webhook cfg =
     default_webhook_config
       \<lparr> wc_name := ''default'', wc_url := config_get ''webhook.url'' [] cfg, wc_secret := config_get ''webhook.secret'' [] cfg,
         wc_enabled := (config_get ''webhook.url'' [] cfg \<noteq> []),
         wc_timeout_ms := config_get_int ''webhook.timeout_ms'' 5000 cfg,
         wc_retry_count := config_get_int ''webhook.retry_count'' 3 cfg \<rparr>"

definition initialize_router :: "('re, 'lre) engine_env \<Rightarrow> ConfigStore \<Rightarrow> FileStorage \<Rightarrow> ('re, 'w) Router" where
  "initialize_router env cfg sto =
     (let rx = ee_regex env;
          reporter = reporter_set_enabled (config_get_bool ''reporting.enabled'' False cfg)
            (reporter_configure (config_get ''reporting.endpoint'' [] cfg) (config_get ''reporting.api_key'' [] cfg)
              (config_get_int ''reporting.batch_size'' 100 cfg) (config_get_int ''reporting.interval_ms'' 10000 cfg) new_reporter);
          alerts = (if config_get_bool ''alert.enabled'' True cfg
                    then fold (alert_add_rule rx)
                      [high_cpu_usage, suspicious_process, critical_file_change, network_anomaly, config_tampering,
                       rapid_file_changes] new_alert_manager
                    else new_alert_manager);
          flt = (if config_get_bool ''filter.enabled'' False cfg
                 then fold (filter_add_rule (ee_sort env)) [ignore_temp_files, ignore_log_files, ignore_browser_cache] new_event_filter
                 else new_event_filter);
          webhooks = (if config_get_bool ''webhook.enabled'' False cfg \<and> config_get ''webhook.url'' [] cfg \<noteq> []
                      then add_webhook (default_webhook cfg) new_webhook_notifier else new_webhook_notifier)
      in \<lparr> en_filter = flt, en_statistics = new_statistics (ee_now1 env) (ee_now2 env),
           en_alerts = on_alert (alert_callback env) alerts,
           en_auditor = on_security_event (security_callback env) new_security_auditor,
           en_webhooks = webhooks, en_storage = sto, en_reporter = reporter, en_recent = [], en_callbacks = [] \<rparr>)"

definition initialize ::
    "('re, 'lre) engine_env \<Rightarrow> string \<Rightarrow> file_system \<Rightarrow> ConfigStore \<Rightarrow>
     ConfigStore \<times> file_system \<times> ('re, 'lre, 'w) MonitorEngine" where
  "initialize env config_path fs cfg0 =
     (let cfg = (if config_path \<noteq> [] then config_load config_path fs cfg0 else cfg0);
          (slots, monitors) = initialize_monitors env cfg;
          (fs1, sto) = initialize_storage cfg fs;
          watcher = (if config_get_bool ''config.watch_enabled'' False cfg
                     then start_watching (ee_mtime env) (if config_path = [] then ''config.ini'' else config_path)
                            (config_get_int ''config.watch_interval_ms'' 5000 cfg) new_config_watcher
                     else new_config_watcher)
      in (cfg, fs1,
          \<lparr> eng_router = initialize_router env cfg sto, eng_monitors = monitors, eng_slots = slots,
            eng_watcher = watcher, eng_running = False \<rparr>))"

subsection \<open>Start, stop and reload\<close>

text \<open>The overrides of \<open>on_start\<close>; those that only create the runner change nothing here.\<close>
definition derived_on_start :: "(string \<Rightarrow> bool) \<Rightarrow> string \<Rightarrow> 'lre MonitorSet \<Rightarrow> 'lre MonitorSet \<times> bool" where
  "derived_on_start access_ok name ms =
     (if name = ''filesystem'' then (let (m, ok) = filesystem_on_start (ms_filesystem ms) in (ms\<lparr>ms_filesystem := m\<rparr>, ok))
      else if name = ''process'' then (let (m, ok) = process_on_start (ms_process ms) in (ms\<lparr>ms_process := m\<rparr>, ok))
      else if name = ''network'' then (let (m, ok) = network_on_start (ms_network ms) in (ms\<lparr>ms_network := m\<rparr>, ok))
      else if name = ''system_config'' then (let (m, ok) = system_config_on_start (ms_system_config ms) in (ms\<lparr>ms_system_config := m\<rparr>, ok))
      else if name = ''user_activity'' then (let (m, ok) = user_on_start (ms_user_activity ms) in (ms\<lparr>ms_user_activity := m\<rparr>, ok))
      else if name = ''service'' then (let (m, ok) = service_on_start (ms_service ms) in (ms\<lparr>ms_service := m\<rparr>, ok))
      else if name = ''file_integrity'' then (let (m, ok) = integrity_on_start (ms_file_integrity ms) in (ms\<lparr>ms_file_integrity := m\<rparr>, ok))
      else if name = ''package'' then (let (m, ok) = package_on_start access_ok (ms_package ms) in (ms\<lparr>ms_package := m\<rparr>, ok))
      else (ms, True))"

text \<open>A successful \<open>on_start\<close> starts a runner with the interval of that moment.\<close>
definition slot_on_start ::
    "(string \<Rightarrow> bool) \<Rightarrow> string \<Rightarrow> int \<Rightarrow> int option \<times> 'lre MonitorSet \<Rightarrow> (int option \<times> 'lre MonitorSet) \<times> bool" where
  "slot_on_start access_ok name interval_ms = (\<lambda>(runner, ms).
     (let (ms1, ok) = derived_on_start access_ok name ms in ((if ok then Some interval_ms else runner, ms1), ok)))"

definition start_slot :: "(string \<Rightarrow> bool) \<Rightarrow> MonitorSlot \<Rightarrow> 'lre MonitorSet \<Rightarrow> MonitorSlot \<times> 'lre MonitorSet" where
  "start_slot access_ok slot ms =
     (if sl_available slot
      then (let ((base, (runner, ms1)), _) =
              monitor_start (slot_on_start access_ok (sl_name slot) (mon_poll_interval_ms (sl_base slot)))
                (sl_base slot, (sl_runner slot, ms))
            in (slot\<lparr>sl_base := base, sl_runner := runner\<rparr>, ms1))
      else (slot, ms))"

fun start_slots :: "(string \<Rightarrow> bool) \<Rightarrow> MonitorSlot list \<Rightarrow> 'lre MonitorSet \<Rightarrow> MonitorSlot list \<times> 'lre MonitorSet" where
  "start_slots access_ok [] ms = ([], ms)"
| "start_slots access_ok (slot # slots) ms =
     (let (slot1, ms1) = start_slot access_ok slot ms; (slots1, ms2) = start_slots access_ok slots ms1
      in (slot1 # slots1, ms2))"

definition start_all :: "(string \<Rightarrow> bool) \<Rightarrow> ('re, 'lre, 'w) MonitorEngine \<Rightarrow> ('re, 'lre, 'w) MonitorEngine \<times> bool" where
  "start_all access_ok en =
     (if eng_running en then (en, False)
      else (let (slots, ms) = start_slots access_ok (eng_slots en) (eng_monitors en);
                r = eng_router en
            in (en\<lparr>eng_running := True, eng_slots := slots, eng_monitors := ms,
                   eng_router := r\<lparr>en_reporter := reporter_start (en_reporter r)\<rparr>\<rparr>, True)))"

definition derived_on_stop :: "string \<Rightarrow> 'lre MonitorSet \<Rightarrow> 'lre MonitorSet \<times> bool" where
  "derived_on_stop name ms =
     (if name = ''package'' then (let (m, ok) = package_on_stop (ms_package ms) in (ms\<lparr>ms_package := m\<rparr>, ok)) else (ms, True))"

definition slot_on_stop :: "string \<Rightarrow> int option \<times> 'lre MonitorSet \<Rightarrow> (int option \<times> 'lre MonitorSet) \<times> bool" where
  "slot_on_stop name = (\<lambda>(runner, ms). (let (ms1, ok) = derived_on_stop name ms in ((None, ms1), ok)))"

definition stop_slot :: "MonitorSlot \<Rightarrow> 'lre MonitorSet \<Rightarrow> MonitorSlot \<times> 'lre MonitorSet" where
  "stop_slot slot ms =
     (let ((base, (runner, ms1)), _) = monitor_stop (slot_on_stop (sl_name slot)) (sl_base slot, (sl_runner slot, ms))
      in (slot\<lparr>sl_base := base, sl_runner := runner\<rparr>, ms1))"

fun stop_slots :: "MonitorSlot list \<Rightarrow> 'lre MonitorSet \<Rightarrow> MonitorSlot list \<times> 'lre MonitorSet" where
  "stop_slots [] ms = ([], ms)"
| "stop_slots (slot # slots) ms =
     (let (slot1, ms1) = stop_slot slot ms; (slots1, ms2) = stop_slots slots ms1 in (slot1 # slots1, ms2))"

definition stop_all :: "('re, 'lre, 'w) MonitorEngine \<Rightarrow> ('re, 'lre, 'w) MonitorEngine \<times> bool" where
  "stop_all en =
     (if \<not> eng_running en then (en, False)
      else (let (slots, ms) = stop_slots (eng_slots en) (eng_monitors en);
                r = eng_router en
            in (en\<lparr>eng_running := False, eng_slots := slots, eng_monitors := ms,
                   eng_watcher := stop_watching (eng_watcher en),
                   eng_router := r\<lparr>en_reporter := fst (reporter_stop (en_reporter r)),
                                   en_storage := storage_close (en_storage r)\<rparr>\<rparr>, True)))"

definition reload_config ::
    "file_system \<Rightarrow> ConfigStore \<times> ('re, 'lre, 'w) MonitorEngine \<Rightarrow> ConfigStore \<times> ('re, 'lre, 'w) MonitorEngine" where
  "reload_config fs = (\<lambda>(cfg, en).
     (if cs_file_path cfg = [] then (cfg, en)
      else (let cfg1 = config_load (cs_file_path cfg) fs cfg in (cfg1, en\<lparr>eng_slots := set_intervals cfg1 (eng_slots en)\<rparr>))))"

definition enable_config_watch :: "(string \<Rightarrow> int option) \<Rightarrow> ConfigStore \<Rightarrow> ('re, 'lre, 'w) MonitorEngine \<Rightarrow> ('re, 'lre, 'w) MonitorEngine" where
  "enable_config_watch mtime cfg en =
     en\<lparr>eng_watcher := start_watching mtime (if cs_file_path cfg = [] then ''config.ini'' else cs_file_path cfg)
         (config_get_int ''config.watch_interval_ms'' 5000 cfg) (eng_watcher en)\<rparr>"

definition disable_config_watch :: "('re, 'lre, 'w) MonitorEngine \<Rightarrow> ('re, 'lre, 'w) MonitorEngine" where
  "disable_config_watch en = en\<lparr>eng_watcher := stop_watching (eng_watcher en)\<rparr>"

definition monitors :: "('re, 'lre, 'w) MonitorEngine \<Rightarrow> string list" where
  "monitors en = map sl_name (eng_slots en)"

subsection \<open>The initial engine\<close>

lemma initialize_parts:
  fixes en :: "('re, 'lre, 'w) MonitorEngine"
  assumes "initialize env path fs cfg0 = (cfg, fs1, en)"
  shows "eng_router en = initialize_router env cfg (snd (initialize_storage cfg fs))" "fs1 = fst (initialize_storage cfg fs)"
    and "cfg = (if path \<noteq> [] then config_load path fs cfg0 else cfg0)"
    and "eng_slots en = fst (initialize_monitors env cfg)" "eng_monitors en = snd (initialize_monitors env cfg)" "\<not> eng_running en"
proof -
  show cfg: "cfg = (if path \<noteq> [] then config_load path fs cfg0 else cfg0)" using assms by (auto simp: initialize_def Let_def split_beta)
  show "eng_router en = initialize_router env cfg (snd (initialize_storage cfg fs))" "fs1 = fst (initialize_storage cfg fs)"
    "eng_slots en = fst (initialize_monitors env cfg)" "eng_monitors en = snd (initialize_monitors env cfg)" "\<not> eng_running en"
    using assms unfolding cfg by (auto simp: initialize_def Let_def split_beta)
qed

lemma webhooks_bystander:
  assumes "bystander w0 st"
  shows "bystander w0 (send_selected hmac net clk sel p j ws st)"
  using assms
proof (induction ws arbitrary: j st)
  case (Cons w ws)
  have attempts: "bystander w0 (snd (send_attempts n net' clk' c k status err st'))" if "bystander w0 st'"
    for n net' clk' c k status err st'
    using that
  proof (induction n arbitrary: k status err st')
    case (Suc n)
    have "bystander w0 (record_attempt c t ok1 status1 err1 st')" for t ok1 status1 err1
      using Suc.prems by (cases st') (simp add: record_attempt_def bystander_def Let_def)
    then show ?case using Suc.IH by (simp add: split_beta Let_def)
  qed simp
  have "bystander w0 (snd (send_webhook hmac (net j) (clk j) (wc_name w) p st))"
    using Cons.prems attempts by (auto simp: send_webhook_def split: option.split)
  then show ?case using Cons by simp
qed simp

lemma alert_add_rule_callbacks [simp]: "am_callbacks (alert_add_rule rx r am) = am_callbacks am"
  by (simp add: alert_add_rule_def Let_def)

lemma initialize_router_ok:
  assumes "keeping_store (fs, sto)"
  shows "engine_ok (initialize_router env cfg sto :: ('re, 'w) Router) fs"
proof -
  let ?r = "initialize_router env cfg sto :: ('re, 'w) Router"
  have alerts: "am_callbacks (en_alerts ?r) = [alert_callback env]"
    by (simp add: initialize_router_def Let_def on_alert_def new_alert_manager_def)
  have audit: "sa_callbacks (en_auditor ?r) = [security_callback env]"
    by (simp add: initialize_router_def Let_def on_security_event_def)
  have "wn_callbacks (en_webhooks ?r) = []"
    by (simp add: initialize_router_def Let_def add_webhook_def new_webhook_notifier_def)
  then have "quiet_engine ?r"
    by (simp add: quiet_engine_def alerts audit alert_callback_def security_callback_def
        webhook_on_alert_def webhook_on_security_event_def webhooks_bystander)
  moreover have "no_throw (en_auditor ?r)" by (simp add: no_throw_def audit security_callback_def)
  moreover have "stats_wf (en_statistics ?r)" "en_recent ?r = []" "en_storage ?r = sto"
    by (simp_all add: initialize_router_def Let_def)
  ultimately show ?thesis using assms by (simp add: engine_ok_def)
qed

text \<open>The file system is in order for a configuration: it permits all accesses, and the store's file, if there
  is one, ends with a complete line.\<close>
definition store_file_ready :: "ConfigStore \<Rightarrow> file_system \<Rightarrow> bool" where
  "store_file_ready cfg fs =
     (fs_permits fs \<and>
      (case fs_files fs (config_get ''storage.database_path'' ''change-of-system.log'' cfg) of
         None \<Rightarrow> True | Some c \<Rightarrow> complete_text c))"

lemma initialize_storage_ok:
  assumes "store_file_ready cfg fs" "config_get_int ''storage.max_size_mb'' 0 cfg \<le> 0"
  shows "keeping_store (initialize_storage cfg fs)"
proof -
  let ?p = "config_get ''storage.database_path'' ''change-of-system.log'' cfg"
  obtain fs1 sto ok where o: "storage_open ?p fs new_storage = (fs1, sto, ok)" by (metis prod.exhaust)
  have closed: "\<not> stream_is_open (sto_file new_storage)" by (simp add: new_storage_def stream_is_open_def closed_stream_def)
  have "storage_inv fs1 sto"
    using open_inv [OF _ closed _ o] assms(1) by (simp add: store_file_ready_def)
  moreover have "sto_rotate_max_bytes sto \<le> 0"
    using o by (auto simp: storage_open_def new_storage_def Let_def split: prod.splits if_splits)
  ultimately show ?thesis using assms(2) by (simp add: initialize_storage_def o Let_def keeping_store_def)
qed

subsection \<open>Slots\<close>

lemma start_slot_frame:
  "sl_name (fst (start_slot acc slot ms)) = sl_name slot"
  "sl_available (fst (start_slot acc slot ms)) = sl_available slot"
  "mon_poll_interval_ms (sl_base (fst (start_slot acc slot ms))) = mon_poll_interval_ms (sl_base slot)"
  by (auto simp: start_slot_def monitor_start_def split: prod.split)

lemma derived_on_start_ok: "name \<noteq> ''package'' \<Longrightarrow> snd (derived_on_start acc name ms)"
  by (simp add: derived_on_start_def filesystem_on_start_def process_on_start_def network_on_start_def
      system_config_on_start_def user_on_start_def service_on_start_def integrity_on_start_def split: prod.split)

lemma start_slot_runner:
  assumes "sl_available slot" "\<not> mon_running (sl_base slot)" "sl_name slot \<noteq> ''package''"
  shows "sl_runner (fst (start_slot acc slot ms)) = Some (mon_poll_interval_ms (sl_base slot))"
  using assms derived_on_start_ok [OF assms(3), of acc ms]
  by (auto simp: start_slot_def monitor_start_def slot_on_start_def split: prod.split)

lemma start_slots_nth:
  fixes ms :: "'lre MonitorSet"
  assumes "n < length slots"
  shows "\<exists>ms' :: 'lre MonitorSet. fst (start_slots acc slots ms) ! n = fst (start_slot acc (slots ! n) ms')"
  using assms
proof (induction slots arbitrary: n ms)
  case (Cons s slots)
  show ?case
  proof (cases n)
    case 0
    then show ?thesis by (intro exI [of _ ms]) (simp add: split_beta)
  next
    case (Suc k)
    then show ?thesis using Cons.prems Cons.IH [of k "snd (start_slot acc s ms)"] by (simp add: split_beta)
  qed
qed simp

lemma start_slots_length [simp]: "length (fst (start_slots acc slots ms)) = length slots"
  by (induction slots arbitrary: ms) (auto simp: split_beta)

lemma stop_slot_frame:
  "sl_name (fst (stop_slot slot ms)) = sl_name slot"
  "sl_available (fst (stop_slot slot ms)) = sl_available slot"
  "mon_poll_interval_ms (sl_base (fst (stop_slot slot ms))) = mon_poll_interval_ms (sl_base slot)"
  "\<not> mon_running (sl_base (fst (stop_slot slot ms)))"
  by (auto simp: stop_slot_def monitor_stop_def split: prod.split)

lemma stop_slots_nth:
  fixes ms :: "'lre MonitorSet"
  assumes "n < length slots"
  shows "\<exists>ms' :: 'lre MonitorSet. fst (stop_slots slots ms) ! n = fst (stop_slot (slots ! n) ms')"
  using assms
proof (induction slots arbitrary: n ms)
  case (Cons s slots)
  show ?case
  proof (cases n)
    case 0
    then show ?thesis by (intro exI [of _ ms]) (simp add: split_beta)
  next
    case (Suc k)
    then show ?thesis using Cons.prems Cons.IH [of k "snd (stop_slot s ms)"] by (simp add: split_beta)
  qed
qed simp

lemma stop_slots_length [simp]: "length (fst (stop_slots slots ms)) = length slots"
  by (induction slots arbitrary: ms) (auto simp: split_beta)

text \<open>The interval every monitor is configured with.\<close>
definition configured_intervals :: "ConfigStore \<Rightarrow> int list" where
  "configured_intervals cfg = map (\<lambda>(_, key, default_ms). config_get_int key default_ms cfg) monitor_table"

lemma set_intervals_nth:
  assumes "length slots = length monitor_table" "n < length slots"
  shows "set_intervals cfg slots ! n =
    (slots ! n)\<lparr>sl_base := set_poll_interval_ms (configured_intervals cfg ! n) (sl_base (slots ! n))\<rparr>"
  using assms by (simp add: set_intervals_def configured_intervals_def split: prod.split)

lemma set_intervals_length [simp]: "length slots = length monitor_table \<Longrightarrow> length (set_intervals cfg slots) = length slots"
  by (simp add: set_intervals_def)

lemma start_all_runners:
  fixes en :: "('re, 'lre, 'w) MonitorEngine"
  assumes "\<not> eng_running en" "n < length (eng_slots en)" "\<not> mon_running (sl_base (eng_slots en ! n))"
    and "slot = eng_slots (fst (start_all acc en)) ! n" "sl_available slot" "sl_name slot \<noteq> ''package''"
  shows "sl_runner slot = Some (mon_poll_interval_ms (sl_base (eng_slots en ! n)))"
    and "mon_poll_interval_ms (sl_base slot) = mon_poll_interval_ms (sl_base (eng_slots en ! n))"
proof -
  obtain ms :: "'lre MonitorSet" where sl: "slot = fst (start_slot acc (eng_slots en ! n) ms)"
    using start_slots_nth [OF assms(2), of acc "eng_monitors en"] assms(1)
    by (auto simp: assms(4) start_all_def split_beta Let_def)
  have "sl_available (eng_slots en ! n)" "sl_name (eng_slots en ! n) \<noteq> ''package''"
    using assms(5,6) unfolding sl start_slot_frame by blast+
  from start_slot_runner [OF this(1) assms(3) this(2), of acc ms]
  show "sl_runner slot = Some (mon_poll_interval_ms (sl_base (eng_slots en ! n)))" unfolding sl .
  show "mon_poll_interval_ms (sl_base slot) = mon_poll_interval_ms (sl_base (eng_slots en ! n))"
    unfolding sl by (rule start_slot_frame)
qed

text \<open>an initialised engine is well formed and idle, whatever the configuration, the libraries and the
  state before, as long as the store's file can be opened and rotation is off: its router satisfies the
  invariant under which all views of the events agree, it lists the fourteen monitors with the
  intervals of the configuration, none of them has a runner, and \<open>start_all\<close> gives every available
  one except the package monitor, whose start can fail, a runner with its interval.\<close>
theorem initialize_ready:
  fixes en :: "('re, 'lre, 'w) MonitorEngine"
  assumes "initialize env path fs cfg0 = (cfg, fs1, en)" "store_file_ready cfg fs"
    and "config_get_int ''storage.max_size_mb'' 0 cfg \<le> 0"
  shows "engine_ok (eng_router en) fs1 \<and> \<not> eng_running en \<and>
     monitors en = [''filesystem'', ''process'', ''network'', ''system_config'', ''user_activity'', ''service'', ''file_integrity'',
       ''usb_device'', ''disk_space'', ''system_load'', ''log'', ''port'', ''package'', ''environment''] \<and>
     map (\<lambda>s. mon_poll_interval_ms (sl_base s)) (eng_slots en) = configured_intervals cfg \<and>
     map sl_runner (eng_slots en) = replicate 14 None \<and>
     (\<forall>slot \<in> set (eng_slots (fst (start_all acc en))).
        sl_available slot \<and> sl_name slot \<noteq> ''package'' \<longrightarrow> sl_runner slot = Some (mon_poll_interval_ms (sl_base slot)))"
proof -
  have cfg: "(if path \<noteq> [] then config_load path fs cfg0 else cfg0) = cfg"
    using assms(1) by (simp add: initialize_def Let_def split_beta)
  have en_eq: "en =
      \<lparr> eng_router = initialize_router env cfg (snd (initialize_storage cfg fs)),
        eng_monitors = snd (initialize_monitors env cfg), eng_slots = fst (initialize_monitors env cfg),
        eng_watcher = eng_watcher en, eng_running = False \<rparr>" "fs1 = fst (initialize_storage cfg fs)"
    using assms(1) unfolding initialize_def Let_def cfg split_beta by auto
  define slots where "slots = set_intervals cfg (new_slots (ee_available env))"
  have en: "eng_router en = initialize_router env cfg (snd (initialize_storage cfg fs))" "eng_slots en = slots" "\<not> eng_running en"
    by (subst en_eq(1), simp add: initialize_monitors_def Let_def slots_def)+
  have len: "length slots = length monitor_table" by (simp add: slots_def set_intervals_def new_slots_def)
  have nth: "slots ! n = (new_slots (ee_available env) ! n)
      \<lparr>sl_base := set_poll_interval_ms (configured_intervals cfg ! n) (sl_base (new_slots (ee_available env) ! n))\<rparr>"
    if "n < length monitor_table" for n
    unfolding slots_def by (rule set_intervals_nth) (use that in \<open>simp_all add: new_slots_def\<close>)
  have new: "sl_base (new_slots a ! n) = new_monitor \<and> sl_runner (new_slots a ! n) = None \<and>
      sl_name (new_slots a ! n) = fst (monitor_table ! n)"
    if "n < length monitor_table" for a n
    using that by (simp add: new_slots_def split_beta)
  have "engine_ok (eng_router en) fs1"
    unfolding en(1) en_eq(2) using initialize_storage_ok [OF assms(2,3)] by (intro initialize_router_ok) simp
  moreover have "monitors en = map fst monitor_table"
    unfolding monitors_def en(2) by (rule nth_equalityI) (use len nth new in simp_all)
  moreover have "map (\<lambda>s. mon_poll_interval_ms (sl_base s)) (eng_slots en) = configured_intervals cfg"
    unfolding en(2)
    by (rule nth_equalityI) (use len nth in \<open>simp_all add: configured_intervals_def set_poll_interval_ms_def\<close>)
  moreover have "map sl_runner (eng_slots en) = replicate 14 None"
    unfolding en(2) by (rule nth_equalityI) (use len nth new in \<open>simp_all add: monitor_table_def\<close>)
  moreover have "sl_runner slot = Some (mon_poll_interval_ms (sl_base slot))"
    if s: "slot \<in> set (eng_slots (fst (start_all acc en)))" and av: "sl_available slot" "sl_name slot \<noteq> ''package''" for slot
  proof -
    obtain n where n: "n < length slots" "slot = eng_slots (fst (start_all acc en)) ! n"
      using s en(2,3) by (auto simp: in_set_conv_nth start_all_def split_beta Let_def)
    have "\<not> mon_running (sl_base (eng_slots en ! n))"
      using nth [of n] new [of n] n(1) len by (simp add: en(2) set_poll_interval_ms_def new_monitor_def)
    from start_all_runners [OF en(3) _ this n(2) av] n(1) show ?thesis by (simp add: en(2))
  qed
  ultimately show ?thesis using en(3) by (simp add: monitor_table_def)
qed

definition plain_env :: "(string, string) engine_env" where
  "plain_env =
     \<lparr> ee_regex = literal_regex, ee_log_regex = literal_log, ee_sort = (\<lambda>rs. rs), ee_stod = (\<lambda>_. None),
       ee_hmac = (\<lambda>_ _. None), ee_alert_net = (\<lambda>_ _ _ _. Completed 200), ee_alert_clock = (\<lambda>_ _ _. (0, 0)),
       ee_security_net = (\<lambda>_ _ _ _. Completed 200), ee_security_clock = (\<lambda>_ _ _. (0, 0)), ee_available = (\<lambda>_. True),
       ee_access = (\<lambda>_. True), ee_mtime = (\<lambda>_. None), ee_now1 = 0, ee_now2 = 0 \<rparr>"

lemma initialize_ready_witness:
  "let (cfg, fs1, en) = (initialize plain_env [] open_fs new_config_store :: ConfigStore \<times> file_system \<times> (string, string, nat) MonitorEngine)
   in engine_ok (eng_router en) fs1 \<and> map sl_runner (eng_slots en) = replicate 14 None"
proof -
  obtain cfg fs1 and en :: "(string, string, nat) MonitorEngine" where i: "initialize plain_env [] open_fs new_config_store = (cfg, fs1, en)"
    by (rule prod_cases3)
  have cfg: "cfg = new_config_store" using i by (simp add: initialize_def Let_def split_beta)
  have "store_file_ready cfg open_fs" by (simp add: store_file_ready_def) (simp add: open_fs_def)
  moreover have "config_get_int ''storage.max_size_mb'' 0 new_config_store \<le> 0" by code_simp
  ultimately show ?thesis using initialize_ready [OF i] by (simp add: i cfg)
qed

text \<open>C32: reloading the configuration gives every monitor its new interval on paper only: no runner changes
  its period.  It takes a stop and a start of the engine for the intervals of the file to apply.\<close>
theorem reload_needs_restart:
  fixes en :: "('re, 'lre, 'w) MonitorEngine"
  assumes "length (eng_slots en) = length monitor_table" "cs_file_path cfg \<noteq> []"
    and "reload_config fs (cfg, en) = (cfg1, en1)" "eng_running en"
  shows "map (\<lambda>s. mon_poll_interval_ms (sl_base s)) (eng_slots en1) = configured_intervals cfg1 \<and>
         map sl_runner (eng_slots en1) = map sl_runner (eng_slots en) \<and>
         (\<forall>n < length monitor_table.
            let slot = eng_slots (fst (start_all acc (fst (stop_all en1)))) ! n in
            sl_available slot \<and> sl_name slot \<noteq> ''package'' \<longrightarrow> sl_runner slot = Some (configured_intervals cfg1 ! n))"
proof -
  have en1: "eng_slots en1 = set_intervals cfg1 (eng_slots en)" "eng_running en1" "eng_monitors en1 = eng_monitors en"
    using assms(2-4) by (auto simp: reload_config_def Let_def)
  have len: "length (eng_slots en1) = length monitor_table" using assms(1) by (simp add: en1)
  have nth: "eng_slots en1 ! n =
      (eng_slots en ! n)\<lparr>sl_base := set_poll_interval_ms (configured_intervals cfg1 ! n) (sl_base (eng_slots en ! n))\<rparr>"
    if "n < length monitor_table" for n
    using set_intervals_nth [of "eng_slots en" n cfg1] assms(1) that by (simp add: en1)
  have "length (configured_intervals cfg1) = length monitor_table" by (simp add: configured_intervals_def)
  then have "map (\<lambda>s. mon_poll_interval_ms (sl_base s)) (eng_slots en1) = configured_intervals cfg1"
    using len nth by (intro nth_equalityI) (simp_all add: set_poll_interval_ms_def)
  moreover have "map sl_runner (eng_slots en1) = map sl_runner (eng_slots en)"
    using len nth assms(1) by (intro nth_equalityI) simp_all
  moreover have "sl_runner slot = Some (configured_intervals cfg1 ! n)"
    if n: "n < length monitor_table" and slot: "slot = eng_slots (fst (start_all acc (fst (stop_all en1)))) ! n"
      and av: "sl_available slot" "sl_name slot \<noteq> ''package''" for n slot
  proof -
    let ?stopped = "fst (stop_slots (eng_slots en1) (eng_monitors en1))"
    obtain ms :: "'lre MonitorSet" where st: "?stopped ! n = fst (stop_slot (eng_slots en1 ! n) ms)"
      using stop_slots_nth [of n "eng_slots en1" "eng_monitors en1"] n len by auto
    obtain ms' :: "'lre MonitorSet" where sl: "slot = fst (start_slot acc (?stopped ! n) ms')"
      using start_slots_nth [of n ?stopped acc] n len en1(2)
      by (auto simp: slot start_all_def stop_all_def split_beta Let_def)
    have idle: "\<not> mon_running (sl_base (?stopped ! n))"
      unfolding st by (rule stop_slot_frame)
    have ival: "mon_poll_interval_ms (sl_base (?stopped ! n)) = configured_intervals cfg1 ! n"
      unfolding st stop_slot_frame(3) nth [OF n] by (simp add: set_poll_interval_ms_def)
    have "sl_available (?stopped ! n)" "sl_name (?stopped ! n) \<noteq> ''package''"
      using av unfolding sl start_slot_frame by blast+
    from start_slot_runner [OF this(1) idle this(2), of acc ms'] show ?thesis
      unfolding sl ival .
  qed
  ultimately show ?thesis unfolding Let_def by blast
qed

definition idle_monitors :: "unit MonitorSet" where
  "idle_monitors =
     \<lparr> ms_filesystem = new_filesystem_monitor, ms_process = new_process_monitor, ms_network = new_network_monitor,
       ms_system_config = new_system_config_monitor, ms_user_activity = new_user_activity_monitor,
       ms_service = new_service_monitor, ms_file_integrity = new_integrity_monitor, ms_usb_device = new_usb_monitor,
       ms_disk_space = new_disk_monitor, ms_system_load = new_system_load_monitor, ms_log = new_log_monitor,
       ms_port = new_port_monitor, ms_package = new_package_monitor, ms_environment = new_environment_monitor \<rparr>"

text \<open>A running engine whose runners all have a period of a quarter of a second.\<close>
definition running_engine :: "(string, unit, nat) MonitorEngine" where
  "running_engine =
     \<lparr> eng_router = plain_engine, eng_monitors = idle_monitors,
       eng_slots = map (\<lambda>s. s\<lparr>sl_runner := Some 250\<rparr>) (new_slots (\<lambda>_. True)),
       eng_watcher = new_config_watcher, eng_running = True \<rparr>"

lemma reload_needs_restart_witness:
  "let (cfg1, en1) = reload_config (fst opened) (new_config_store\<lparr>cs_file_path := ''c''\<rparr>, running_engine) in
     map (\<lambda>s. mon_poll_interval_ms (sl_base s)) (eng_slots en1) = configured_intervals cfg1 \<and>
     map sl_runner (eng_slots en1) = replicate 14 (Some 250)"
proof -
  obtain cfg1 en1 where r: "reload_config (fst opened) (new_config_store\<lparr>cs_file_path := ''c''\<rparr>, running_engine) = (cfg1, en1)"
    by (rule prod.exhaust)
  have l: "length (eng_slots running_engine) = length monitor_table" "eng_running running_engine"
    "map sl_runner (eng_slots running_engine) = replicate 14 (Some 250)"
    by (simp_all add: running_engine_def new_slots_def monitor_table_def eval_nat_numeral)
  from reload_needs_restart [OF l(1) _ r l(2)] show ?thesis by (simp add: r l(3))
qed

text \<open>C34: stopping the engine closes the store, and starting it again does not open it: from then on no event
  changes any file, while the calls report success.\<close>
theorem restart_loses_storage:
  assumes "eng_running en" "route_all rx ins (eng_router (fst (start_all acc (fst (stop_all en)))), fs, w) = Some (r, fs', w')"
  shows "snd (stop_all en) \<and> snd (start_all acc (fst (stop_all en))) \<and> fs' = fs"
proof -
  have "\<not> storage_is_open (en_storage (eng_router (fst (start_all acc (fst (stop_all en))))))"
    using assms(1) by (simp add: start_all_def stop_all_def split_beta Let_def storage_is_open_def storage_close_def)
  then have "fs' = fs" by (rule conjunct1 [OF closed_store_unchanged [OF _ assms(2)]])
  moreover have "snd (stop_all en) \<and> snd (start_all acc (fst (stop_all en)))"
    using assms(1) by (simp add: start_all_def stop_all_def split_beta Let_def)
  ultimately show ?thesis by simp
qed

lemma route_returns:
  assumes "stats_wf (en_statistics en)" "\<forall>e1 \<in> set (passed rx (ef_rules (en_filter en)) e). brace_free e1"
  shows "\<exists>s. deliver (route_event rx rc e (en, fs, w)) = Some s"
proof -
  obtain ef e1 ok where f: "filter_process rx e (en_filter en) = (ef, e1, ok)" by (metis prod.exhaust)
  have b: "brace_free e1" if ok using filter_process_passed [OF f] assms(2) that by simp
  obtain st where st: "stats_record (rc_stats rc) (rc_prune rc) e1 (en_statistics en) = Inr st"
    by (rule stats_record_result [OF assms(1)])
  show ?thesis
  proof (cases ok)
    case True
    obtain am hooks where al: "alert_process_event rx (rc_alerts rc) e1 (en_alerts en, (en_webhooks en, w)) = Some (am, hooks)"
      using alert_process_event_total [OF b [OF True], of rx "rc_alerts rc" "(en_alerts en, (en_webhooks en, w))"]
      by (metis prod.exhaust)
    show ?thesis
      by (simp add: route_event_def f True st al deliver_def split_beta Let_def)
  qed (simp add: route_event_def f deliver_def)
qed

lemma restart_loses_storage_witness:
  "snd (stop_all running_engine) \<and> snd (start_all (\<lambda>_. True) (fst (stop_all running_engine))) \<and>
   (\<exists>r w'. route_all literal_regex [(plain_clock, sample_event)]
      (eng_router (fst (start_all (\<lambda>_. True) (fst (stop_all running_engine)))), fst opened, 0) = Some (r, fst opened, w'))"
proof -
  let ?r = "eng_router (fst (start_all (\<lambda>_. True) (fst (stop_all running_engine))))"
  have run: "eng_running running_engine" by (simp add: running_engine_def)
  let ?p = "plain_engine :: (string, nat) Router"
  have same: "en_statistics ?r = en_statistics ?p" "en_filter ?r = en_filter ?p"
    by (simp_all add: running_engine_def start_all_def stop_all_def split_beta Let_def)
  have "engine_ok ?p (fst opened)" by (rule plain_engine_ok)
  then have "stats_wf (en_statistics ?r)" by (simp add: same engine_ok_def)
  moreover have "passed literal_regex (ef_rules (en_filter ?r)) sample_event = [sample_event]"
    unfolding same by (simp add: passed_def plain_engine_def new_event_filter_def)
  moreover have "brace_free sample_event" by (simp add: sample_event_def brace_free_def event_default_def)
  ultimately obtain s where "deliver (route_event literal_regex plain_clock sample_event (?r, fst opened, 0)) = Some s"
    using route_returns [of ?r literal_regex sample_event plain_clock "fst opened" 0] by auto
  then have routed: "route_all literal_regex [(plain_clock, sample_event)] (?r, fst opened, 0) = Some s" by simp
  obtain r fs' w' where s: "s = (r, fs', w')" by (rule prod_cases3)
  from restart_loses_storage [OF run routed [unfolded s]] show ?thesis using routed by (auto simp: s)
qed

end
