(* ===== verification/Engine_Threads.thy ===== *)
theory Engine_Threads
  imports Monitor_Engine
begin

text \<open>
  \<open>route_event\<close> on several threads at once.  Every monitor emits on the thread of its own runner, and the
  engine has no lock around the whole way of an event: each component takes its own.  The way is cut
  into \<^emph>\<open>stages\<close>, one per component; a thread that is not \<open>Done\<close> is about to enter the component of its
  stage, \<open>advance\<close> runs that component, and any thread may be the next to do so.  \<open>po_past r\<close> is the
  history of what has passed the stage of rank \<open>r\<close>, with the number of the thread.
\<close>

subsection \<open>Stages\<close>

datatype stage =
    Entering route_clock Event
  | AtStatistics route_clock Event
  | AtAlerts route_clock Event
  | AtAudit route_clock Event
  | AtStorage Event
  | AtReporter Event
  | AtCache Event
  | AtListeners Event
  | is_Done: Done

fun stage_rank :: "stage \<Rightarrow> nat" where
  "stage_rank (Entering rc e) = 0"
| "stage_rank (AtStatistics rc e) = 1"
| "stage_rank (AtAlerts rc e) = 2"
| "stage_rank (AtAudit rc e) = 3"
| "stage_rank (AtStorage e) = 4"
| "stage_rank (AtReporter e) = 5"
| "stage_rank (AtCache e) = 6"
| "stage_rank (AtListeners e) = 7"
| "stage_rank Done = 8"

fun stage_event :: "stage \<Rightarrow> Event list" where
  "stage_event (Entering rc e) = [e]"
| "stage_event (AtStatistics rc e) = [e]"
| "stage_event (AtAlerts rc e) = [e]"
| "stage_event (AtAudit rc e) = [e]"
| "stage_event (AtStorage e) = [e]"
| "stage_event (AtReporter e) = [e]"
| "stage_event (AtCache e) = [e]"
| "stage_event (AtListeners e) = [e]"
| "stage_event Done = []"

type_synonym ('re, 'w) shared = "('re, 'w) Router \<times> file_system \<times> 'w"

text \<open>One component of \<open>route_event\<close>; \<open>None\<close> if it never returns.\<close>
fun advance :: "'re regex_lib \<Rightarrow> stage \<Rightarrow> ('re, 'w) shared \<Rightarrow> (stage \<times> ('re, 'w) shared) option" where
  "advance rx (Entering rc e) (en, fs, w) =
     (let (ef, e1, allowed) = filter_process rx e (en_filter en)
      in Some (if allowed then AtStatistics rc e1 else Done, (en\<lparr>en_filter := ef\<rparr>, fs, w)))"
| "advance rx (AtStatistics rc e) (en, fs, w) =
     (case stats_record (rc_stats rc) (rc_prune rc) e (en_statistics en) of
        Inl err \<Rightarrow> None
      | Inr st \<Rightarrow> Some (AtAlerts rc e, (en\<lparr>en_statistics := st\<rparr>, fs, w)))"
| "advance rx (AtAlerts rc e) (en, fs, w) =
     (case alert_process_event rx (rc_alerts rc) e (en_alerts en, (en_webhooks en, w)) of
        None \<Rightarrow> None
      | Some (am, (wn, w1)) \<Rightarrow> Some (AtAudit rc e, (en\<lparr>en_alerts := am, en_webhooks := wn\<rparr>, fs, w1)))"
| "advance rx (AtAudit rc e) (en, fs, w) =
     (let ((sa, (wn, w1)), threw) = security_process_event (rc_security rc) e (en_auditor en, (en_webhooks en, w))
      in Some (if threw then Done else AtStorage e, (en\<lparr>en_auditor := sa, en_webhooks := wn\<rparr>, fs, w1)))"
| "advance rx (AtStorage e) (en, fs, w) =
     (let (fs1, sto) = storage_insert e (fs, en_storage en) in Some (AtReporter e, (en\<lparr>en_storage := sto\<rparr>, fs1, w)))"
| "advance rx (AtReporter e) (en, fs, w) =
     Some (AtCache e, (en\<lparr>en_reporter := (if rp_enabled (en_reporter en) then enqueue e (en_reporter en) else en_reporter en)\<rparr>, fs, w))"
| "advance rx (AtCache e) (en, fs, w) = Some (AtListeners e, (en\<lparr>en_recent := push_recent e (en_recent en)\<rparr>, fs, w))"
| "advance rx (AtListeners e) (en, fs, w) = Some (Done, (en, fs, fold (\<lambda>cb. cb e) (en_callbacks en) w))"
| "advance rx Done s = Some (Done, s)"

lemma advance_rank: "advance rx st s = Some (st', s') \<Longrightarrow> st \<noteq> Done \<Longrightarrow> stage_rank st < stage_rank st' \<and> stage_rank st' \<le> 8"
  by (cases s; cases st) (auto split: prod.splits sum.splits option.splits if_splits)

text \<open>A thread that nobody interrupts: the stages one after the other.\<close>
fun advance_times :: "nat \<Rightarrow> 're regex_lib \<Rightarrow> stage \<times> ('re, 'w) shared \<Rightarrow> (stage \<times> ('re, 'w) shared) option" where
  "advance_times 0 rx p = Some p"
| "advance_times (Suc n) rx p = Option.bind (advance rx (fst p) (snd p)) (advance_times n rx)"

lemma advance_times_Done [simp]: "advance_times n rx (Done, s) = Some (Done, s)"
  by (induction n) simp_all

text \<open>The stages are \<open>route_event\<close>: alone on the engine, a thread takes an event to the same end, or to none.\<close>
lemma route_event_stages:
  "map_option snd (advance_times 8 rx (Entering rc e, (en, fs, w))) = deliver (route_event rx rc e (en, fs, w)) \<and>
   (\<forall>st s. advance_times 8 rx (Entering rc e, (en, fs, w)) = Some (st, s) \<longrightarrow> st = Done)"
  by (simp add: numeral_eq_Suc route_event_def deliver_def Let_def split: prod.split sum.split option.split)

subsection \<open>Threads\<close>

text \<open>The stage of a thread, and what its monitor still has to emit.\<close>
record thread =
  th_stage :: stage
  th_queue :: "(route_clock \<times> Event) list"

record ('re, 'w) Pool =
  po_shared :: "('re, 'w) shared"
  po_threads :: "thread list"
  po_past :: "nat \<Rightarrow> (nat \<times> Event) list"

definition pool_start :: "('re, 'w) shared \<Rightarrow> (route_clock \<times> Event) list list \<Rightarrow> ('re, 'w) Pool" where
  "pool_start s inss = \<lparr> po_shared = s, po_threads = map (\<lambda>q. \<lparr> th_stage = Done, th_queue = q \<rparr>) inss, po_past = (\<lambda>_. []) \<rparr>"

definition pool_finished :: "('re, 'w) Pool \<Rightarrow> bool" where
  "pool_finished p = list_all (\<lambda>th. is_Done (th_stage th) \<and> th_queue th = []) (po_threads p)"

text \<open>Thread \<open>t\<close> emits its next event, or takes the one it is routing through the next component.\<close>
inductive pool_step :: "'re regex_lib \<Rightarrow> ('re, 'w) Pool \<Rightarrow> ('re, 'w) Pool \<Rightarrow> bool" for rx where
  emit_next: "t < length (po_threads p) \<Longrightarrow> po_threads p ! t = \<lparr> th_stage = Done, th_queue = (rc, e) # q \<rparr> \<Longrightarrow>
    pool_step rx p (p\<lparr>po_threads := (po_threads p)[t := \<lparr> th_stage = Entering rc e, th_queue = q \<rparr>]\<rparr>)"
| pass_stage: "t < length (po_threads p) \<Longrightarrow> po_threads p ! t = \<lparr> th_stage = st, th_queue = q \<rparr> \<Longrightarrow> st \<noteq> Done \<Longrightarrow>
    advance rx st (po_shared p) = Some (st', s') \<Longrightarrow>
    pool_step rx p (p\<lparr>po_shared := s', po_threads := (po_threads p)[t := \<lparr> th_stage = st', th_queue = q \<rparr>],
      po_past := (po_past p)(stage_rank st := po_past p (stage_rank st) @ map (Pair t) (stage_event st))\<rparr>)"

inductive_cases pool_stepE: "pool_step rx p p'"

text \<open>The steps a thread and all threads can still take.\<close>
definition thread_work :: "thread \<Rightarrow> nat" where
  "thread_work th = 9 * length (th_queue th) + (8 - stage_rank (th_stage th))"

definition pool_work :: "('re, 'w) Pool \<Rightarrow> nat" where
  "pool_work p = sum_list (map thread_work (po_threads p))"

lemma sum_list_update_less:
  fixes xs :: "nat list"
  assumes "t < length xs" "x < xs ! t"
  shows "sum_list (xs[t := x]) < sum_list xs"
  using assms by (induction xs arbitrary: t) (auto split: nat.split simp: nth_Cons')

lemma pool_step_work: "pool_step rx p p' \<Longrightarrow> pool_work p' < pool_work p"
proof (induction rule: pool_step.induct)
  case (emit_next t p rc e q)
  then show ?case by (auto simp: pool_work_def map_update thread_work_def intro!: sum_list_update_less)
next
  case (pass_stage t p st q st' s')
  then show ?case
    using advance_rank [OF pass_stage(4,3)]
    by (auto simp: pool_work_def map_update thread_work_def intro!: sum_list_update_less)
qed

lemma pool_start_work: "pool_work (pool_start s inss) = 9 * length (concat inss)"
  by (induction inss) (simp_all add: pool_start_def pool_work_def thread_work_def)

lemma pool_steps_work: "(pool_step rx ^^ n) p p' \<Longrightarrow> n + pool_work p' \<le> pool_work p"
proof (induction n arbitrary: p')
  case (Suc n)
  then obtain p1 where "(pool_step rx ^^ n) p p1" "pool_step rx p1 p'" by auto
  then show ?case using Suc.IH [of p1] pool_step_work [of rx p1 p'] by simp
qed simp

subsection \<open>What the components have seen\<close>

text \<open>The history after stage \<open>st\<close> of thread \<open>t\<close>.\<close>
definition note_pass :: "nat \<Rightarrow> stage \<Rightarrow> (nat \<Rightarrow> (nat \<times> Event) list) \<Rightarrow> nat \<Rightarrow> (nat \<times> Event) list" where
  "note_pass t st past = past(stage_rank st := past (stage_rank st) @ map (Pair t) (stage_event st))"

text \<open>The state of every component is the initial one with what has passed its stage, in the order in
  which it has.\<close>
definition shared_ok ::
    "(nat \<Rightarrow> timestamp) \<Rightarrow> ('re, 'w) shared \<Rightarrow> (nat \<Rightarrow> (nat \<times> Event) list) \<Rightarrow> ('re, 'w) shared \<Rightarrow> bool" where
  "shared_ok clk = (\<lambda>(en, fs, w) past (en', fs', w').
     engine_ok en' fs' \<and> ef_rules (en_filter en') = ef_rules (en_filter en) \<and> en_callbacks en' = en_callbacks en \<and>
     stc_total_events (en_statistics en') = stc_total_events (en_statistics en) + of_nat (length (past 1)) \<and>
     storage_iterate clk fs' (en_storage en') = storage_iterate clk fs (en_storage en) @ map (persisted \<circ> snd) (past 4) \<and>
     rp_enabled (en_reporter en') = rp_enabled (en_reporter en) \<and>
     rp_queue (en_reporter en') = rp_queue (en_reporter en) @ (if rp_enabled (en_reporter en) then map snd (past 5) else []) \<and>
     en_recent en' = take_last 5000 (en_recent en @ map snd (past 6)) \<and>
     w' = fold (\<lambda>e. fold (\<lambda>cb. cb e) (en_callbacks en)) (map snd (past 7)) w)"

lemma shared_ok_start: "engine_ok en fs \<Longrightarrow> shared_ok clk (en, fs, w) (\<lambda>_. []) (en, fs, w)"
  by (simp add: shared_ok_def engine_ok_def kMaxRecentEvents_def)

lemma shared_ok_engine: "shared_ok clk s0 past (en, fs, w) \<Longrightarrow> engine_ok en fs"
  by (cases s0) (simp add: shared_ok_def)

text \<open>The events of a stage that are still to come at the components behind it.\<close>
fun events_ahead :: "'re regex_lib \<Rightarrow> FilterRule list \<Rightarrow> stage \<Rightarrow> Event list" where
  "events_ahead rx rules (Entering rc e) = passed rx rules e"
| "events_ahead rx rules st = stage_event st"

definition due :: "'re regex_lib \<Rightarrow> FilterRule list \<Rightarrow> nat \<Rightarrow> stage \<Rightarrow> Event list" where
  "due rx rules r st = (if stage_rank st \<le> r then events_ahead rx rules st else [])"

definition stage_ok ::
    "(nat \<Rightarrow> timestamp) \<Rightarrow> ('re, 'w) shared \<Rightarrow> (nat \<Rightarrow> (nat \<times> Event) list) \<Rightarrow> nat \<Rightarrow> 're regex_lib \<Rightarrow> stage \<Rightarrow> ('re, 'w) shared \<Rightarrow> bool" where
  "stage_ok clk s0 past t rx st s =
     (\<exists>st' s'. advance rx st s = Some (st', s') \<and> shared_ok clk s0 (note_pass t st past) s' \<and>
        (\<forall>r \<in> {1..7}. due rx (ef_rules (en_filter (fst s0))) r st =
           (if r = stage_rank st then stage_event st else []) @ due rx (ef_rules (en_filter (fst s0))) r st'))"

lemma entering_ok:
  assumes "shared_ok clk s0 past (en, fs, w)"
  shows "stage_ok clk s0 past t rx (Entering rc e) (en, fs, w)"
proof -
  obtain ef e1 ok where f: "filter_process rx e (en_filter en) = (ef, e1, ok)" by (metis prod.exhaust)
  note p = filter_process_passed [OF f]
  show ?thesis using assms p
    by (cases s0) (auto simp: stage_ok_def f shared_ok_def note_pass_def due_def engine_ok_def quiet_engine_def)
qed

lemma statistics_ok:
  assumes "shared_ok clk s0 past (en, fs, w)"
  shows "stage_ok clk s0 past t rx (AtStatistics rc e) (en, fs, w)"
proof -
  have "stats_wf (en_statistics en)" using shared_ok_engine [OF assms] by (simp add: engine_ok_def)
  from stats_record_result [OF this] obtain st where
    "stats_record (rc_stats rc) (rc_prune rc) e (en_statistics en) = Inr st" "stats_wf st"
    "stc_total_events st = stc_total_events (en_statistics en) + 1" by metis
  with assms show ?thesis
    by (cases s0) (auto simp: stage_ok_def shared_ok_def note_pass_def due_def engine_ok_def quiet_engine_def)
qed

lemma alerts_ok:
  assumes "shared_ok clk s0 past (en, fs, w)" "brace_free e"
  shows "stage_ok clk s0 past t rx (AtAlerts rc e) (en, fs, w)"
proof -
  have q: "quiet_engine en" using shared_ok_engine [OF assms(1)] by (simp add: engine_ok_def)
  obtain am wn1 w1 where al: "alert_process_event rx (rc_alerts rc) e (en_alerts en, (en_webhooks en, w)) = Some (am, (wn1, w1))"
    using alert_process_event_total [OF assms(2), of rx "rc_alerts rc" "(en_alerts en, (en_webhooks en, w))"] by (metis prod.exhaust)
  have "bystander w (wn1, w1) \<and> am_callbacks am = am_callbacks (en_alerts en)"
    using alert_callbacks_invariant [OF al [unfolded alert_process_event_def], of "bystander w"] q
    by (simp add: quiet_engine_def bystander_def)
  with assms al show ?thesis
    by (cases s0) (auto simp: stage_ok_def shared_ok_def note_pass_def due_def engine_ok_def quiet_engine_def bystander_def)
qed

lemma audit_ok:
  assumes "shared_ok clk s0 past (en, fs, w)"
  shows "stage_ok clk s0 past t rx (AtAudit rc e) (en, fs, w)"
proof -
  have q: "quiet_engine en" "no_throw (en_auditor en)" using shared_ok_engine [OF assms(1)] by (simp_all add: engine_ok_def)
  obtain sa wn2 w2 threw where sec: "security_process_event (rc_security rc) e (en_auditor en, (en_webhooks en, w)) = ((sa, (wn2, w2)), threw)"
    by (metis prod.exhaust)
  have "bystander w (wn2, w2) \<and> sa_callbacks sa = sa_callbacks (en_auditor en)"
    using security_callbacks_invariant [of "(en_auditor en, (en_webhooks en, w))" "bystander w" "rc_security rc" e] q(1)
    by (simp add: quiet_engine_def sec bystander_def)
  moreover have "\<not> threw" "no_throw sa"
    using no_throw_process [OF q(2), of "rc_security rc" e "(en_webhooks en, w)"] by (simp_all add: sec)
  ultimately show ?thesis using assms sec
    by (cases s0) (auto simp: stage_ok_def shared_ok_def note_pass_def due_def engine_ok_def quiet_engine_def bystander_def)
qed

lemma storage_ok:
  assumes "shared_ok clk s0 past (en, fs, w)" "storable_line e"
  shows "stage_ok clk s0 past t rx (AtStorage e) (en, fs, w)"
proof -
  have keep: "keeping_store (fs, en_storage en)" using shared_ok_engine [OF assms(1)] by (simp add: engine_ok_def)
  obtain fs' sto where ins: "storage_insert e (fs, en_storage en) = (fs', sto)" by (rule prod.exhaust)
  have "keeping_store (fs', sto)" using file_store.store_ok_insert [OF keep assms(2)] by (simp add: ins)
  moreover have "storage_iterate clk fs' sto = storage_iterate clk fs (en_storage en) @ [persisted e]"
    using file_store.store_events_insert [OF keep assms(2), of clk] by (simp add: ins)
  ultimately show ?thesis using assms ins
    by (cases s0) (auto simp: stage_ok_def shared_ok_def note_pass_def due_def engine_ok_def quiet_engine_def)
qed

lemma last_stages_ok:
  assumes "shared_ok clk s0 past (en, fs, w)"
  shows "stage_ok clk s0 past t rx (AtReporter e) (en, fs, w)" "stage_ok clk s0 past t rx (AtCache e) (en, fs, w)"
    "stage_ok clk s0 past t rx (AtListeners e) (en, fs, w)"
proof -
  show "stage_ok clk s0 past t rx (AtReporter e) (en, fs, w)" "stage_ok clk s0 past t rx (AtListeners e) (en, fs, w)"
    using assms
    by (cases s0; auto simp: stage_ok_def shared_ok_def note_pass_def due_def engine_ok_def quiet_engine_def enqueue_def)+
  show "stage_ok clk s0 past t rx (AtCache e) (en, fs, w)"
    using assms recent_cache.length_push_le [of e "en_recent en"]
    by (cases s0) (auto simp: stage_ok_def shared_ok_def note_pass_def due_def engine_ok_def quiet_engine_def
      recent_cache.push_eq kMaxRecentEvents_def take_last_snoc)
qed

lemma advance_ok:
  assumes "shared_ok clk s0 past s" "\<forall>e \<in> set (events_ahead rx (ef_rules (en_filter (fst s0))) st). routable e" "st \<noteq> Done"
  shows "stage_ok clk s0 past t rx st s"
  using assms
  by (cases s; cases st)
    (auto simp: routable_def intro: entering_ok statistics_ok alerts_ok audit_ok storage_ok last_stages_ok)

subsection \<open>Every interleaving\<close>

definition of_thread :: "nat \<Rightarrow> (nat \<times> Event) list \<Rightarrow> Event list" where
  "of_thread t h = map snd (filter (\<lambda>x. fst x = t) h)"

lemma of_thread_simps [simp]:
  "of_thread t [] = []" "of_thread t (h @ h') = of_thread t h @ of_thread t h'"
  "of_thread t (map (Pair t') es) = (if t' = t then es else [])"
  by (simp_all add: of_thread_def) (simp add: filter_map comp_def)

text \<open>What a thread has brought past a stage, what it is carrying there and what the filter will let through
  of the rest are, together and in this order, what the filter lets through of all it emits.\<close>
definition thread_ok ::
    "'re regex_lib \<Rightarrow> ('re, 'w) Router \<Rightarrow> (route_clock \<times> Event) list \<Rightarrow> (nat \<Rightarrow> Event list) \<Rightarrow> thread \<Rightarrow> bool" where
  "thread_ok rx en ins past th =
     (\<forall>r \<in> {1..7}. past r @ due rx (ef_rules (en_filter en)) r (th_stage th) @ all_passed rx en (th_queue th) = all_passed rx en ins)"

definition pool_ok ::
    "(nat \<Rightarrow> timestamp) \<Rightarrow> 're regex_lib \<Rightarrow> ('re, 'w) shared \<Rightarrow> (route_clock \<times> Event) list list \<Rightarrow> ('re, 'w) Pool \<Rightarrow> bool" where
  "pool_ok clk rx s0 inss p =
     (shared_ok clk s0 (po_past p) (po_shared p) \<and> length (po_threads p) = length inss \<and>
      (\<forall>r. \<forall>x \<in> set (po_past p r). fst x < length inss) \<and>
      (\<forall>t < length inss. thread_ok rx (fst s0) (inss ! t) (\<lambda>r. of_thread t (po_past p r)) (po_threads p ! t)))"

lemma pool_ok_start: "engine_ok en fs \<Longrightarrow> pool_ok clk rx (en, fs, w) inss (pool_start (en, fs, w) inss)"
  by (simp add: pool_ok_def thread_ok_def pool_start_def shared_ok_start due_def)

lemma thread_ok_emit:
  "thread_ok rx en ins past \<lparr> th_stage = Done, th_queue = (rc, e) # q \<rparr> \<Longrightarrow>
   thread_ok rx en ins past \<lparr> th_stage = Entering rc e, th_queue = q \<rparr>"
  by (simp add: thread_ok_def due_def all_passed_def)

lemma thread_ok_advance:
  assumes "thread_ok rx en ins past \<lparr> th_stage = st, th_queue = q \<rparr>"
    and "\<forall>r \<in> {1..7}. due rx (ef_rules (en_filter en)) r st = es r @ due rx (ef_rules (en_filter en)) r st'"
  shows "thread_ok rx en ins (\<lambda>r. past r @ es r) \<lparr> th_stage = st', th_queue = q \<rparr>"
  using assms by (simp add: thread_ok_def)

lemma due_last: "st \<noteq> Done \<Longrightarrow> due rx rules 7 st = events_ahead rx rules st"
  by (cases st) (simp_all add: due_def)

lemma events_ahead_routable:
  assumes "pool_ok clk rx s0 inss p" "list_all (\<lambda>ins. list_all routable (all_passed rx (fst s0) ins)) inss"
    and "t < length inss" "th_stage (po_threads p ! t) \<noteq> Done"
  shows "\<forall>e \<in> set (events_ahead rx (ef_rules (en_filter (fst s0))) (th_stage (po_threads p ! t))). routable e"
proof -
  have "of_thread t (po_past p 7) @ due rx (ef_rules (en_filter (fst s0))) 7 (th_stage (po_threads p ! t)) @
      all_passed rx (fst s0) (th_queue (po_threads p ! t)) = all_passed rx (fst s0) (inss ! t)"
    using assms(1,3) by (simp add: pool_ok_def thread_ok_def)
  moreover have "list_all routable (all_passed rx (fst s0) (inss ! t))" using assms(2,3) by (simp add: list_all_length)
  ultimately have "list_all routable (due rx (ef_rules (en_filter (fst s0))) 7 (th_stage (po_threads p ! t)))"
    by (metis list_all_append)
  then show ?thesis by (simp add: due_last assms(4) list_all_iff)
qed

lemma pool_ok_advance:
  assumes ok: "pool_ok clk rx s0 inss p" "list_all (\<lambda>ins. list_all routable (all_passed rx (fst s0) ins)) inss"
    and t: "t < length inss" "po_threads p ! t = \<lparr> th_stage = st, th_queue = q \<rparr>" "st \<noteq> Done"
  shows "\<exists>st' s'. advance rx st (po_shared p) = Some (st', s') \<and>
     due rx (ef_rules (en_filter (fst s0))) 7 st =
       (if stage_rank st = 7 then stage_event st else []) @ due rx (ef_rules (en_filter (fst s0))) 7 st' \<and>
     pool_ok clk rx s0 inss (p\<lparr>po_shared := s', po_threads := (po_threads p)[t := \<lparr> th_stage = st', th_queue = q \<rparr>],
       po_past := note_pass t st (po_past p)\<rparr>)"
proof -
  have "stage_ok clk s0 (po_past p) t rx st (po_shared p)"
    using ok(1) events_ahead_routable [OF ok t(1)] t(2,3) by (intro advance_ok) (simp_all add: pool_ok_def)
  then obtain st' s' where a: "advance rx st (po_shared p) = Some (st', s')" "shared_ok clk s0 (note_pass t st (po_past p)) s'"
      "\<forall>r \<in> {1..7}. due rx (ef_rules (en_filter (fst s0))) r st =
         (if r = stage_rank st then stage_event st else []) @ due rx (ef_rules (en_filter (fst s0))) r st'"
    by (auto simp: stage_ok_def)
  have past: "(\<lambda>r. of_thread u (note_pass t st (po_past p) r)) =
      (\<lambda>r. of_thread u (po_past p r) @ (if u = t \<and> r = stage_rank st then stage_event st else []))" for u
    by (simp add: note_pass_def fun_eq_iff)
  have "thread_ok rx (fst s0) (inss ! t) (\<lambda>r. of_thread t (note_pass t st (po_past p) r)) \<lparr> th_stage = st', th_queue = q \<rparr>"
    unfolding past by (rule thread_ok_advance) (use ok(1) t a(3) in \<open>auto simp: pool_ok_def\<close>)
  moreover have "(\<lambda>r. of_thread u (note_pass t st (po_past p) r)) = (\<lambda>r. of_thread u (po_past p r))" if "u \<noteq> t" for u
    using that by (simp add: past)
  moreover have "fst x < length inss" if "x \<in> set (note_pass t st (po_past p) r)" for x r
    using that ok(1) t(1) by (auto simp: note_pass_def pool_ok_def split: if_splits)
  ultimately show ?thesis
    using ok(1) t a by (intro exI [of _ st'] exI [of _ s']) (auto simp: pool_ok_def nth_list_update)
qed

lemma pool_ok_step:
  assumes "pool_step rx p p'" "pool_ok clk rx s0 inss p" "list_all (\<lambda>ins. list_all routable (all_passed rx (fst s0) ins)) inss"
  shows "pool_ok clk rx s0 inss p'"
  using assms(1)
proof cases
  case (emit_next t rc e q)
  then have "thread_ok rx (fst s0) (inss ! t) (\<lambda>r. of_thread t (po_past p r)) \<lparr> th_stage = Entering rc e, th_queue = q \<rparr>"
    using assms(2) by (intro thread_ok_emit) (auto simp: pool_ok_def)
  with emit_next assms(2) show ?thesis by (simp add: pool_ok_def nth_list_update)
next
  case (pass_stage t st q st' s')
  then have "t < length inss" using assms(2) by (simp add: pool_ok_def)
  from pool_ok_advance [OF assms(2,3) this pass_stage(3,4)] pass_stage show ?thesis by (auto simp: note_pass_def)
qed

lemma pool_progress:
  assumes "pool_ok clk rx s0 inss p" "list_all (\<lambda>ins. list_all routable (all_passed rx (fst s0) ins)) inss" "\<not> pool_finished p"
  shows "\<exists>p'. pool_step rx p p'"
proof -
  have len: "length (po_threads p) = length inss" using assms(1) by (simp add: pool_ok_def)
  obtain t where t: "t < length inss" "\<not> (th_stage (po_threads p ! t) = Done \<and> th_queue (po_threads p ! t) = [])"
    using assms(3) len by (auto simp: pool_finished_def is_Done_def list_all_length)
  obtain st q where th: "po_threads p ! t = \<lparr> th_stage = st, th_queue = q \<rparr>" by (cases "po_threads p ! t")
  show ?thesis
  proof (cases "st = Done")
    case True
    then obtain rc e q' where "q = (rc, e) # q'" using t(2) th by (cases q) auto
    with True th t(1) len have "po_threads p ! t = \<lparr> th_stage = Done, th_queue = (rc, e) # q' \<rparr>" by simp
    with t(1) len show ?thesis by (metis pool_step.emit_next)
  next
    case False
    with pool_ok_advance [OF assms(1,2) t(1) th] th t(1) len show ?thesis by (metis pool_step.pass_stage)
  qed
qed

lemma pool_ok_steps:
  assumes "(pool_step rx)\<^sup>*\<^sup>* p p'" "pool_ok clk rx s0 inss p" "list_all (\<lambda>ins. list_all routable (all_passed rx (fst s0) ins)) inss"
  shows "pool_ok clk rx s0 inss p'"
  using assms(1,2) by (induction rule: rtranclp_induct) (auto intro: pool_ok_step [OF _ _ assms(3)])

lemma pool_can_finish:
  assumes "pool_ok clk rx s0 inss p" "list_all (\<lambda>ins. list_all routable (all_passed rx (fst s0) ins)) inss"
  shows "\<exists>p'. (pool_step rx)\<^sup>*\<^sup>* p p' \<and> pool_finished p'"
  using assms(1)
proof (induction "pool_work p" arbitrary: p rule: less_induct)
  case less
  show ?case
  proof (cases "pool_finished p")
    case False
    then obtain p1 where s: "pool_step rx p p1" using pool_progress [OF less.prems assms(2)] by blast
    with less.hyps [OF pool_step_work [OF s] pool_ok_step [OF s less.prems assms(2)]] show ?thesis
      by (meson converse_rtranclp_into_rtranclp)
  qed blast
qed

lemma sum_list_indicator: "sum_list (map (\<lambda>u. if t = u then 1 else 0) [0..<n]) = (if t < n then 1 else (0 :: nat))"
  by (induction n) auto

lemma length_by_thread: "\<forall>x \<in> set h. fst x < n \<Longrightarrow> length h = sum_list (map (\<lambda>t. length (of_thread t h)) [0..<n])"
proof (induction h)
  case (Cons x h)
  have "sum_list (map (\<lambda>t. length (of_thread t (x # h))) [0..<n]) =
      sum_list (map (\<lambda>t. (if fst x = t then 1 else 0) + length (of_thread t h)) [0..<n])"
    by (intro arg_cong [of _ _ sum_list] map_cong) (simp_all add: of_thread_def)
  also have "\<dots> = 1 + sum_list (map (\<lambda>t. length (of_thread t h)) [0..<n])"
    using Cons.prems by (simp add: sum_list_addf sum_list_indicator)
  finally show ?case using Cons by simp
qed (simp add: of_thread_def)

lemma finished_histories:
  assumes "pool_ok clk rx s0 inss p" "pool_finished p" "r \<in> {1..7}"
  shows "t < length inss \<Longrightarrow> of_thread t (po_past p r) = all_passed rx (fst s0) (inss ! t)"
    and "length (po_past p r) = length (concat (map (all_passed rx (fst s0)) inss))"
proof -
  have each: "of_thread t (po_past p r) = all_passed rx (fst s0) (inss ! t)" if "t < length inss" for t
  proof -
    have "th_stage (po_threads p ! t) = Done" "th_queue (po_threads p ! t) = []"
      using assms(1,2) that by (simp_all add: pool_finished_def is_Done_def pool_ok_def list_all_length)
    moreover have "thread_ok rx (fst s0) (inss ! t) (\<lambda>r. of_thread t (po_past p r)) (po_threads p ! t)"
      using assms(1) that by (simp add: pool_ok_def)
    ultimately show ?thesis using assms(3) by (simp add: thread_ok_def due_def all_passed_simps(1))
  qed
  show "t < length inss \<Longrightarrow> of_thread t (po_past p r) = all_passed rx (fst s0) (inss ! t)" by (rule each)
  have "length (po_past p r) = sum_list (map (\<lambda>t. length (of_thread t (po_past p r))) [0..<length inss])"
    using assms(1) by (intro length_by_thread) (simp add: pool_ok_def)
  also have "\<dots> = sum_list (map (\<lambda>t. length (all_passed rx (fst s0) (inss ! t))) [0..<length inss])"
    by (intro arg_cong [of _ _ sum_list] map_cong) (simp_all add: each)
  finally have len: "length (po_past p r) = sum_list (map (\<lambda>t. length (all_passed rx (fst s0) (inss ! t))) [0..<length inss])" .
  have "map (all_passed rx (fst s0)) inss = map (\<lambda>t. all_passed rx (fst s0) (inss ! t)) [0..<length inss]"
    by (rule nth_equalityI) simp_all
  then have "sum_list (map (\<lambda>t. length (all_passed rx (fst s0) (inss ! t))) [0..<length inss]) =
      length (concat (map (all_passed rx (fst s0)) inss))"
    by (simp add: length_concat comp_def)
  with len show "length (po_past p r) = length (concat (map (all_passed rx (fst s0)) inss))" by simp
qed

text \<open>C2: routing on many threads loses nothing and always ends: let every monitor emit its events on a thread of
  its own, in any interleaving of the components' steps, where no event that the filter lets through
  contains a brace or cannot be stored.  Then no thread is ever stuck, a run takes at most nine steps
  for each event and can be continued until all threads are finished.  At every moment counter, store,
  queue, cache and listeners hold what has passed their stage, in the order in which it has passed;
  and in the end each of them has seen of every monitor exactly the events that the filter let through,
  in the order of their emission, and nothing else.\<close>
theorem threads_route_every_event:
  fixes en :: "('re, 'w) Router"
  assumes "engine_ok en fs" "list_all (\<lambda>ins. list_all routable (all_passed rx en ins)) inss"
    and "(pool_step rx ^^ n) (pool_start (en, fs, w) inss) p" "po_shared p = (en', fs', w')"
  shows "n \<le> 9 * length (concat inss) \<and> (\<exists>p'. (pool_step rx)\<^sup>*\<^sup>* p p' \<and> pool_finished p') \<and>
    stc_total_events (en_statistics en') = stc_total_events (en_statistics en) + of_nat (length (po_past p 1)) \<and>
    storage_iterate clk fs' (en_storage en') = storage_iterate clk fs (en_storage en) @ map (persisted \<circ> snd) (po_past p 4) \<and>
    rp_queue (en_reporter en') = rp_queue (en_reporter en) @ (if rp_enabled (en_reporter en) then map snd (po_past p 5) else []) \<and>
    en_recent en' = take_last 5000 (en_recent en @ map snd (po_past p 6)) \<and>
    w' = fold (\<lambda>e. fold (\<lambda>cb. cb e) (en_callbacks en)) (map snd (po_past p 7)) w \<and>
    (pool_finished p \<longrightarrow>
      (\<forall>r \<in> {1..7}. length (po_past p r) = length (concat (map (all_passed rx en) inss)) \<and>
         (\<forall>t < length inss. of_thread t (po_past p r) = all_passed rx en (inss ! t))))"
proof -
  have steps: "(pool_step rx)\<^sup>*\<^sup>* (pool_start (en, fs, w) inss) p" using assms(3) by (rule relpowp_imp_rtranclp)
  have safe: "list_all (\<lambda>ins. list_all routable (all_passed rx (fst (en, fs, w)) ins)) inss" using assms(2) by simp
  note ok = pool_ok_steps [OF steps pool_ok_start [OF assms(1), of clk] safe]
  have "n \<le> 9 * length (concat inss)" using pool_steps_work [OF assms(3)] by (simp add: pool_start_work)
  moreover have "shared_ok clk (en, fs, w) (po_past p) (en', fs', w')" using ok assms(4) by (simp add: pool_ok_def)
  ultimately show ?thesis
    using pool_can_finish [OF ok safe] finished_histories [OF ok] by (simp add: shared_ok_def)
qed

subsection \<open>The order of the views\<close>

lemma advance_next: "advance rx st s = Some (st', s') \<Longrightarrow> st \<noteq> Done \<Longrightarrow> st' = Done \<or> stage_rank st' = Suc (stage_rank st)"
  by (cases s; cases st) (auto split: prod.splits sum.splits option.splits if_splits)

lemma stage_rank_Done: "stage_rank st = 8 \<longleftrightarrow> st = Done"
  by (cases st) simp_all

lemma stage_rank_bound: "stage_rank st \<le> 8"
  by (cases st) simp_all

text \<open>A thread with an event that has passed the filter can be let through the next \<open>k\<close> stages.\<close>
lemma pass_stages:
  assumes safe: "list_all (\<lambda>ins. list_all routable (all_passed rx (fst s0) ins)) inss" and t: "t < length inss"
    and ok: "pool_ok clk rx s0 inss p" "po_threads p ! t = \<lparr> th_stage = st, th_queue = q \<rparr>" "stage_event st = [e]" "1 \<le> stage_rank st"
    and k: "stage_rank st + k \<le> 8"
  shows "\<exists>p' st'. (pool_step rx)\<^sup>*\<^sup>* p p' \<and> pool_ok clk rx s0 inss p' \<and> stage_rank st' = stage_rank st + k \<and>
     stage_event st' = (if stage_rank st + k < 8 then [e] else []) \<and> po_threads p' = (po_threads p)[t := \<lparr> th_stage = st', th_queue = q \<rparr>] \<and>
     (\<forall>r. po_past p' r = po_past p r @ (if stage_rank st \<le> r \<and> r < stage_rank st + k then [(t, e)] else []))"
  using k
proof (induction k)
  case 0
  have "stage_rank st < 8" using ok(3) stage_rank_bound [of st] stage_rank_Done [of st] by (cases "stage_rank st = 8") auto
  moreover have "(po_threads p)[t := \<lparr> th_stage = st, th_queue = q \<rparr>] = po_threads p" using list_update_id [of "po_threads p" t] ok(2) by simp
  ultimately show ?case using ok by (intro exI [of _ p] exI [of _ st]) simp
next
  case (Suc k)
  have lt: "stage_rank st + k < 8" "stage_rank st + k \<le> 8" using Suc.prems by auto
  obtain p1 st1 where one: "(pool_step rx)\<^sup>*\<^sup>* p p1" "pool_ok clk rx s0 inss p1" "stage_rank st1 = stage_rank st + k"
      "stage_event st1 = [e]" "po_threads p1 = (po_threads p)[t := \<lparr> th_stage = st1, th_queue = q \<rparr>]"
      "\<forall>r. po_past p1 r = po_past p r @ (if stage_rank st \<le> r \<and> r < stage_rank st + k then [(t, e)] else [])"
    using Suc.IH [OF lt(2)] unfolding if_P [OF lt(1)] by blast
  have len: "length (po_threads p) = length inss" using ok(1) by (simp add: pool_ok_def)
  have th: "po_threads p1 ! t = \<lparr> th_stage = st1, th_queue = q \<rparr>" using one(5) t len by simp
  have nd: "st1 \<noteq> Done" using one(4) by auto
  obtain st' s' where a: "advance rx st1 (po_shared p1) = Some (st', s')"
      "due rx (ef_rules (en_filter (fst s0))) 7 st1 =
        (if stage_rank st1 = 7 then stage_event st1 else []) @ due rx (ef_rules (en_filter (fst s0))) 7 st'"
      "pool_ok clk rx s0 inss (p1\<lparr>po_shared := s', po_threads := (po_threads p1)[t := \<lparr> th_stage = st', th_queue = q \<rparr>],
         po_past := note_pass t st1 (po_past p1)\<rparr>)" (is "pool_ok _ _ _ _ ?p2")
    using pool_ok_advance [OF one(2) safe t th nd] by blast
  have ahead: "events_ahead rx rules st = stage_event st" if "1 \<le> stage_rank st" for rules st
    using that by (cases st) simp_all
  have rank: "stage_rank st' = Suc (stage_rank st1)"
  proof (cases "stage_rank st1 = 7")
    case True
    then show ?thesis using advance_rank [OF a(1) nd] by simp
  next
    case False
    then have "st' \<noteq> Done" using a(2) nd one(3,4) ok(4) by (auto simp: due_last ahead) (simp add: due_def)
    then show ?thesis using advance_next [OF a(1) nd] by simp
  qed
  have event: "stage_event st' = (if stage_rank st + Suc k < 8 then [e] else [])"
  proof (cases "stage_rank st' = 8")
    case True
    then show ?thesis using one(3) rank by (simp add: stage_rank_Done)
  next
    case False
    then have "st' \<noteq> Done" "stage_rank st1 \<noteq> 7" using rank by (auto simp: stage_rank_Done)
    then have "stage_event st' = [e]" using a(2) nd rank one(3,4) ok(4) by (simp add: due_last ahead)
    then show ?thesis using one(3) rank False stage_rank_bound [of st'] by simp
  qed
  have "pool_step rx p1 ?p2"
    unfolding note_pass_def by (rule pool_step.pass_stage [OF _ th nd a(1)]) (simp add: one(5) len t)
  with one(1) have "(pool_step rx)\<^sup>*\<^sup>* p ?p2" by simp
  moreover have "po_past ?p2 r = po_past p r @ (if stage_rank st \<le> r \<and> r < stage_rank st + Suc k then [(t, e)] else [])" for r
    using one(3,4,6) by (auto simp: note_pass_def)
  ultimately show ?case
    using a(3) rank event one(3,5) by (intro exI [of _ ?p2] exI [of _ st']) simp
qed

text \<open>A thread can take up its next event and bring it past the filter, if the filter lets it through.\<close>
lemma enter_pipeline:
  assumes safe: "list_all (\<lambda>ins. list_all routable (all_passed rx (fst s0) ins)) inss" and t: "t < length inss"
    and ok: "pool_ok clk rx s0 inss p" "po_threads p ! t = \<lparr> th_stage = Done, th_queue = (rc, e) # q \<rparr>"
    and passed: "passed rx (ef_rules (en_filter (fst s0))) e = [e']"
  shows "\<exists>p' st'. (pool_step rx)\<^sup>*\<^sup>* p p' \<and> pool_ok clk rx s0 inss p' \<and> stage_rank st' = 1 \<and> stage_event st' = [e'] \<and>
     po_threads p' = (po_threads p)[t := \<lparr> th_stage = st', th_queue = q \<rparr>] \<and> (\<forall>r \<ge> 1. po_past p' r = po_past p r)"
proof -
  have len: "t < length (po_threads p)" using ok(1) t by (simp add: pool_ok_def)
  let ?p1 = "p\<lparr>po_threads := (po_threads p)[t := \<lparr> th_stage = Entering rc e, th_queue = q \<rparr>]\<rparr>"
  have one: "pool_step rx p ?p1" using pool_step.emit_next [OF len ok(2)] .
  have th: "po_threads ?p1 ! t = \<lparr> th_stage = Entering rc e, th_queue = q \<rparr>" using len by simp
  obtain st' s' where a: "advance rx (Entering rc e) (po_shared ?p1) = Some (st', s')"
      "due rx (ef_rules (en_filter (fst s0))) 7 (Entering rc e) = due rx (ef_rules (en_filter (fst s0))) 7 st'"
      "pool_ok clk rx s0 inss (?p1\<lparr>po_shared := s', po_threads := (po_threads ?p1)[t := \<lparr> th_stage = st', th_queue = q \<rparr>],
         po_past := note_pass t (Entering rc e) (po_past ?p1)\<rparr>)" (is "pool_ok _ _ _ _ ?p2")
    using pool_ok_advance [OF pool_ok_step [OF one ok(1) safe] safe t th] by auto
  have "due rx (ef_rules (en_filter (fst s0))) 7 st' = [e']" using a(2) passed by (simp add: due_last)
  moreover have st': "st' = Done \<or> stage_rank st' = 1" using advance_next [OF a(1)] by simp
  ultimately have "stage_rank st' = 1" "stage_event st' = [e']" by (cases st'; auto simp: due_def)+
  moreover have "pool_step rx ?p1 ?p2"
    unfolding note_pass_def by (rule pool_step.pass_stage [OF _ th _ a(1)]) (use len in simp_all)
  with one have "(pool_step rx)\<^sup>*\<^sup>* p ?p2" by simp
  ultimately show ?thesis using a(3) by (intro exI [of _ ?p2] exI [of _ st']) (simp add: note_pass_def)
qed

text \<open>The store, the cache and the listeners need not see two monitors in the same order: if the first is
  interrupted between the store and the cache, the log has its event first and the cache last.\<close>
lemma views_can_disagree:
  fixes en :: "('re, 'w) Router"
  assumes "engine_ok en fs" "routable a'" "routable b'"
    and "passed rx (ef_rules (en_filter en)) a = [a']" "passed rx (ef_rules (en_filter en)) b = [b']"
  shows "\<exists>p. (pool_step rx)\<^sup>*\<^sup>* (pool_start (en, fs, w) [[(ca, a)], [(cb, b)]]) p \<and> pool_finished p \<and>
           map snd (po_past p 4) = [a', b'] \<and> map snd (po_past p 6) = [b', a'] \<and> map snd (po_past p 7) = [b', a']"
proof -
  let ?inss = "[[(ca, a)], [(cb, b)]]" and ?s = "(en, fs, w)"
  have safe: "list_all (\<lambda>ins. list_all routable (all_passed rx (fst ?s) ins)) ?inss"
    using assms(2-5) by (simp add: all_passed_def)
  let ?p0 = "pool_start ?s ?inss"
  have ok0: "pool_ok clk rx ?s ?inss ?p0" for clk by (rule pool_ok_start [OF assms(1)])
  obtain p1 s1 where 1: "(pool_step rx)\<^sup>*\<^sup>* ?p0 p1" "pool_ok (\<lambda>_. 0) rx ?s ?inss p1" "stage_rank s1 = 1" "stage_event s1 = [a']"
      "po_threads p1 = (po_threads ?p0)[0 := \<lparr> th_stage = s1, th_queue = [] \<rparr>]" "\<forall>r \<ge> 1. po_past p1 r = po_past ?p0 r"
    using enter_pipeline [OF safe _ ok0, of 0 ca a "[]" a' "\<lambda>_. 0"] assms(4) by (auto simp: pool_start_def)
  have t1: "po_threads p1 ! 0 = \<lparr> th_stage = s1, th_queue = [] \<rparr>" using 1(5) by (simp add: pool_start_def)
  obtain p2 s2 where 2: "(pool_step rx)\<^sup>*\<^sup>* p1 p2" "pool_ok (\<lambda>_. 0) rx ?s ?inss p2" "stage_rank s2 = 5" "stage_event s2 = [a']"
      "po_threads p2 = (po_threads p1)[0 := \<lparr> th_stage = s2, th_queue = [] \<rparr>]"
      "\<forall>r. po_past p2 r = po_past p1 r @ (if 1 \<le> r \<and> r < 5 then [(0, a')] else [])"
    using pass_stages [OF safe _ 1(2) t1 1(4), of 4] 1(3) by auto
  have t2: "po_threads p2 ! 1 = \<lparr> th_stage = Done, th_queue = [(cb, b)] \<rparr>" using 1(5) 2(5) by (simp add: pool_start_def)
  obtain p3 s3 where 3: "(pool_step rx)\<^sup>*\<^sup>* p2 p3" "pool_ok (\<lambda>_. 0) rx ?s ?inss p3" "stage_rank s3 = 1" "stage_event s3 = [b']"
      "po_threads p3 = (po_threads p2)[1 := \<lparr> th_stage = s3, th_queue = [] \<rparr>]" "\<forall>r \<ge> 1. po_past p3 r = po_past p2 r"
    using enter_pipeline [OF safe _ 2(2) t2, of b'] assms(5) by auto
  have t3: "po_threads p3 ! 1 = \<lparr> th_stage = s3, th_queue = [] \<rparr>" using 1(5) 2(5) 3(5) by (simp add: pool_start_def)
  obtain p4 s4 where 4: "(pool_step rx)\<^sup>*\<^sup>* p3 p4" "pool_ok (\<lambda>_. 0) rx ?s ?inss p4" "stage_rank s4 = 8"
      "po_threads p4 = (po_threads p3)[1 := \<lparr> th_stage = s4, th_queue = [] \<rparr>]"
      "\<forall>r. po_past p4 r = po_past p3 r @ (if 1 \<le> r \<and> r < 8 then [(1, b')] else [])"
    using pass_stages [OF safe _ 3(2) t3 3(4), of 7] 3(3) by auto
  have t4: "po_threads p4 ! 0 = \<lparr> th_stage = s2, th_queue = [] \<rparr>" using 1(5) 2(5) 3(5) 4(4) by (simp add: pool_start_def)
  obtain p5 s5 where 5: "(pool_step rx)\<^sup>*\<^sup>* p4 p5" "stage_rank s5 = 8"
      "po_threads p5 = (po_threads p4)[0 := \<lparr> th_stage = s5, th_queue = [] \<rparr>]"
      "\<forall>r. po_past p5 r = po_past p4 r @ (if 5 \<le> r \<and> r < 8 then [(0, a')] else [])"
    using pass_stages [OF safe _ 4(2) t4 2(4), of 3] 2(3) by auto
  have "(pool_step rx)\<^sup>*\<^sup>* ?p0 p5" using 1(1) 2(1) 3(1) 4(1) 5(1) by (meson rtranclp_trans)
  moreover have "pool_finished p5"
    using 4(3) 5(2) by (simp add: pool_finished_def 1(5) 2(5) 3(5) 4(4) 5(3) pool_start_def stage_rank_Done is_Done_def)
  ultimately show ?thesis
    using 1(6) 2(6) 3(6) 4(5) 5(4) by (intro exI [of _ p5]) (simp add: pool_start_def)
qed

definition other_event :: Event where
  "other_event = sample_event\<lparr>ev_target := ''b''\<rparr>"

lemma sample_events_routable: "routable sample_event" "routable other_event"
proof -
  have "brace_free sample_event" by (simp add: sample_event_def brace_free_def event_default_def)
  moreover from this have "brace_free other_event" by (simp add: other_event_def brace_free_def)
  moreover have "storable other_event" using storable_sample by (simp add: other_event_def storable_def)
  moreover have "one_line other_event" using one_line_sample by (simp add: other_event_def one_line_def)
  ultimately show "routable sample_event" "routable other_event" by (simp_all add: routable_def storable_line_def)
qed

lemma threads_route_every_event_witness:
  "\<exists>n p en' fs' w'.
     (pool_step literal_regex ^^ n) (pool_start (plain_engine, fst opened, 0) [[(plain_clock, sample_event)], [(plain_clock, other_event)]]) p \<and>
     po_shared p = (en', fs', w') \<and> n \<le> 18 \<and> pool_finished p \<and> w' = 2 \<and>
     storage_iterate (\<lambda>_. 0) fs' (en_storage en') = [persisted sample_event, persisted other_event] \<and>
     en_recent en' = [other_event, sample_event] \<and> of_thread 1 (po_past p 7) = [other_event]"
proof -
  let ?inss = "[[(plain_clock, sample_event)], [(plain_clock, other_event)]]"
  have pass: "passed literal_regex (ef_rules (en_filter plain_engine)) e = [e]" for e
    by (simp add: passed_def plain_engine_def new_event_filter_def)
  obtain p where p: "(pool_step literal_regex)\<^sup>*\<^sup>* (pool_start (plain_engine, fst opened, 0) ?inss) p" "pool_finished p"
      "map snd (po_past p 4) = [sample_event, other_event]" "map snd (po_past p 6) = [other_event, sample_event]"
      "map snd (po_past p 7) = [other_event, sample_event]"
    using views_can_disagree [OF plain_engine_ok sample_events_routable pass pass, of 0 plain_clock plain_clock] by auto
  obtain n where n: "(pool_step literal_regex ^^ n) (pool_start (plain_engine, fst opened, 0) ?inss) p"
    using rtranclp_imp_relpowp [OF p(1)] by blast
  obtain en' fs' w' where s: "po_shared p = (en', fs', w')" by (rule prod_cases3)
  have safe: "list_all (\<lambda>ins. list_all routable (all_passed literal_regex plain_engine ins)) ?inss"
    by (simp add: all_passed_def pass sample_events_routable)
  have start: "storage_iterate (\<lambda>_. 0) (fst opened) (en_storage plain_engine) = []" "en_recent plain_engine = []"
    "en_callbacks plain_engine = [\<lambda>_ n. n + 1]"
    by (simp_all add: plain_engine_def opened_eq storage_iterate_def)
  note all = threads_route_every_event [OF plain_engine_ok safe n s, of "\<lambda>_. 0"]
  have log: "map (persisted \<circ> snd) (po_past p 4) = map persisted [sample_event, other_event]" unfolding p(3) [symmetric] by simp
  have "of_thread 1 (po_past p 7) = [other_event]"
    using all p(2) by (simp add: all_passed_def pass)
  with all p(2) n s show ?thesis
    unfolding log p(4,5) start by (intro exI [of _ n] exI [of _ p] exI [of _ en'] exI [of _ fs'] exI [of _ w']) simp
qed

end
