(* ===== verification/Engine_Run.thy ===== *)
theory Engine_Run
  imports Engine_Lifecycle
begin

text \<open>
  A whole run of the engine after \<open>initialize\<close>: starts and stops, reloads by hand or by the watcher of the
  configuration, other programs writing files, and the ticks of the fourteen runners, each of which
  scans its part of the system and routes what it finds (\<open>on_event(route)\<close>).  An action is one of these,
  and a run is any sequence of actions.  What a scan reads is an argument of the action, so the theorems
  hold for any behaviour of the system.
\<close>

subsection \<open>The ticks\<close>

datatype monitor_scan =
    Scan_Filesystem "string poll_env" "string \<Rightarrow> file_probe" "string \<Rightarrow> string list"
  | Scan_Process "int poll_env" "proc_entry list"
  | Scan_Network "nat poll_env" "string \<Rightarrow> string option"
  | Scan_System_Config "string poll_env" "string \<Rightarrow> config_probe"
  | Scan_User_Activity "string poll_env" "string \<Rightarrow> string option"
  | Scan_Service "string poll_env" "string \<Rightarrow> string option" "string \<Rightarrow> bool" "string \<Rightarrow> dir_entry list option"
  | Scan_File_Integrity "string poll_env" "string \<Rightarrow> integrity_probe"
  | Scan_Usb_Device "string \<Rightarrow> timestamp" "string \<Rightarrow> string option" "string list option"
  | Scan_Disk_Space double_ops "string \<Rightarrow> timestamp" "mount_entry list option"
  | Scan_System_Load double_ops "string \<Rightarrow> double \<times> double \<times> double" "int list" "string \<Rightarrow> string option" timestamp
  | Scan_Log "string \<Rightarrow> nat \<Rightarrow> string \<Rightarrow> timestamp" "string \<Rightarrow> log_probe"
  | Scan_Port "int \<Rightarrow> timestamp" "string \<Rightarrow> string option"
  | Scan_Package "string \<Rightarrow> timestamp" "string \<Rightarrow> string option"
  | Scan_Environment "string \<Rightarrow> timestamp" "string list option"

fun scan_name :: "monitor_scan \<Rightarrow> string" where
  "scan_name (Scan_Filesystem _ _ _) = ''filesystem''"
| "scan_name (Scan_Process _ _) = ''process''"
| "scan_name (Scan_Network _ _) = ''network''"
| "scan_name (Scan_System_Config _ _) = ''system_config''"
| "scan_name (Scan_User_Activity _ _) = ''user_activity''"
| "scan_name (Scan_Service _ _ _ _) = ''service''"
| "scan_name (Scan_File_Integrity _ _) = ''file_integrity''"
| "scan_name (Scan_Usb_Device _ _ _) = ''usb_device''"
| "scan_name (Scan_Disk_Space _ _ _) = ''disk_space''"
| "scan_name (Scan_System_Load _ _ _ _ _) = ''system_load''"
| "scan_name (Scan_Log _ _) = ''log''"
| "scan_name (Scan_Port _ _) = ''port''"
| "scan_name (Scan_Package _ _) = ''package''"
| "scan_name (Scan_Environment _ _) = ''environment''"

text \<open>The tick of one monitor: its state and the events it emits, in order.\<close>
fun run_scan :: "'lre log_regex \<Rightarrow> monitor_scan \<Rightarrow> 'lre MonitorSet \<Rightarrow> 'lre MonitorSet \<times> Event list" where
  "run_scan lrx (Scan_Filesystem env probe walk) ms =
     (let (m, es) = scan_and_diff env probe walk (ms_filesystem ms) in (ms\<lparr>ms_filesystem := m\<rparr>, es))"
| "run_scan lrx (Scan_Process env entries) ms =
     (let (m, es) = process_tick env entries (ms_process ms) in (ms\<lparr>ms_process := m\<rparr>, es))"
| "run_scan lrx (Scan_Network env read) ms =
     (let (m, es) = network_tick env read (ms_network ms) in (ms\<lparr>ms_network := m\<rparr>, es))"
| "run_scan lrx (Scan_System_Config env probe) ms =
     (let (m, es) = system_config_tick env probe (ms_system_config ms) in (ms\<lparr>ms_system_config := m\<rparr>, es))"
| "run_scan lrx (Scan_User_Activity env read) ms =
     (let (m, es) = user_tick env read (ms_user_activity ms) in (ms\<lparr>ms_user_activity := m\<rparr>, es))"
| "run_scan lrx (Scan_Service env read exists listing) ms =
     (let (m, es) = service_tick env read exists listing (ms_service ms) in (ms\<lparr>ms_service := m\<rparr>, es))"
| "run_scan lrx (Scan_File_Integrity env probe) ms =
     (let (m, es) = integrity_tick env probe (ms_file_integrity ms) in (ms\<lparr>ms_file_integrity := m\<rparr>, es))"
| "run_scan lrx (Scan_Usb_Device stamp read dir) ms =
     (let (m, es) = usb_tick stamp read dir (ms_usb_device ms) in (ms\<lparr>ms_usb_device := m\<rparr>, es))"
| "run_scan lrx (Scan_Disk_Space ops stamp mounts) ms =
     (let (m, es) = disk_tick ops stamp mounts (ms_disk_space ms) in (ms\<lparr>ms_disk_space := m\<rparr>, es))"
| "run_scan lrx (Scan_System_Load ops doubles junk read now) ms =
     (let (m, es) = load_tick ops doubles junk read now (ms_system_load ms) in (ms\<lparr>ms_system_load := m\<rparr>, es))"
| "run_scan lrx (Scan_Log now probe) ms =
     (let (m, es) = log_tick lrx now probe (ms_log ms) in (ms\<lparr>ms_log := m\<rparr>, es))"
| "run_scan lrx (Scan_Port stamp read) ms =
     (let (m, es) = port_poll stamp read (ms_port ms) in (ms\<lparr>ms_port := m\<rparr>, es))"
| "run_scan lrx (Scan_Package stamp popen) ms =
     (let (m, es) = package_poll stamp popen (ms_package ms) in (ms\<lparr>ms_package := m\<rparr>, es))"
| "run_scan lrx (Scan_Environment stamp environ) ms =
     (let (m, es) = environment_poll stamp environ (ms_environment ms) in (ms\<lparr>ms_environment := m\<rparr>, es))"

subsection \<open>Actions\<close>

record ('re, 'lre, 'w) program =
  pg_cfg :: ConfigStore
  pg_engine :: "('re, 'lre, 'w) MonitorEngine"
  pg_fs :: file_system
  pg_world :: 'w

datatype engine_action =
    Start_All "string \<Rightarrow> bool"
  | Stop_All
  | Reload_Config
  | Enable_Watch "string \<Rightarrow> int option"
  | Disable_Watch
  | Check_Config "string \<Rightarrow> int option"
  | Write_File string string
  | Tick monitor_scan "nat \<Rightarrow> route_clock"

text \<open>The runner of a monitor ticks only between its start and its stop.\<close>
definition has_runner :: "string \<Rightarrow> ('re, 'lre, 'w) MonitorEngine \<Rightarrow> bool" where
  "has_runner name en = list_ex (\<lambda>s. sl_name s = name \<and> sl_runner s \<noteq> None) (eng_slots en)"

text \<open>What a tick brings to the engine; the \<open>i\<close>-th event has the \<open>i\<close>-th clock.\<close>
definition tick_arrivals ::
    "('re, 'lre) engine_env \<Rightarrow> monitor_scan \<Rightarrow> (nat \<Rightarrow> route_clock) \<Rightarrow> ('re, 'lre, 'w) MonitorEngine \<Rightarrow> (route_clock \<times> Event) list" where
  "tick_arrivals env scan clk en =
     (let es = snd (run_scan (ee_log_regex env) scan (eng_monitors en)) in zip (map clk [0..<length es]) es)"

definition run_tick ::
    "('re, 'lre) engine_env \<Rightarrow> monitor_scan \<Rightarrow> (nat \<Rightarrow> route_clock) \<Rightarrow> ('re, 'lre, 'w) program \<Rightarrow> ('re, 'lre, 'w) program option" where
  "run_tick env scan clk pg =
     (let en = pg_engine pg in
      if \<not> has_runner (scan_name scan) en then Some pg
      else map_option
             (\<lambda>(r, fs, w). pg\<lparr>pg_engine := en\<lparr>eng_router := r, eng_monitors := fst (run_scan (ee_log_regex env) scan (eng_monitors en))\<rparr>,
                             pg_fs := fs, pg_world := w\<rparr>)
             (route_all (ee_regex env) (tick_arrivals env scan clk en) (eng_router en, pg_fs pg, pg_world pg)))"

definition check_config :: "(string \<Rightarrow> int option) \<Rightarrow> ('re, 'lre, 'w) program \<Rightarrow> ('re, 'lre, 'w) program" where
  "check_config mtime pg =
     (let (w, (cfg, en)) = watch_check mtime (reload_config (pg_fs pg)) (eng_watcher (pg_engine pg), (pg_cfg pg, pg_engine pg))
      in pg\<lparr>pg_cfg := cfg, pg_engine := en\<lparr>eng_watcher := w\<rparr>\<rparr>)"

fun engine_act :: "('re, 'lre) engine_env \<Rightarrow> engine_action \<Rightarrow> ('re, 'lre, 'w) program \<Rightarrow> ('re, 'lre, 'w) program option" where
  "engine_act env (Start_All access_ok) pg = Some (pg\<lparr>pg_engine := fst (start_all access_ok (pg_engine pg))\<rparr>)"
| "engine_act env Stop_All pg = Some (pg\<lparr>pg_engine := fst (stop_all (pg_engine pg))\<rparr>)"
| "engine_act env Reload_Config pg =
     (let (cfg, en) = reload_config (pg_fs pg) (pg_cfg pg, pg_engine pg) in Some (pg\<lparr>pg_cfg := cfg, pg_engine := en\<rparr>))"
| "engine_act env (Enable_Watch mtime) pg = Some (pg\<lparr>pg_engine := enable_config_watch mtime (pg_cfg pg) (pg_engine pg)\<rparr>)"
| "engine_act env Disable_Watch pg = Some (pg\<lparr>pg_engine := disable_config_watch (pg_engine pg)\<rparr>)"
| "engine_act env (Check_Config mtime) pg = Some (check_config mtime pg)"
| "engine_act env (Write_File path content) pg =
     Some (pg\<lparr>pg_fs := (pg_fs pg)\<lparr>fs_files := (fs_files (pg_fs pg))(path \<mapsto> content)\<rparr>\<rparr>)"
| "engine_act env (Tick scan clk) pg = run_tick env scan clk pg"

text \<open>The events of an action that the filter lets through, with whether the store was open for them.\<close>
definition act_events :: "('re, 'lre) engine_env \<Rightarrow> engine_action \<Rightarrow> ('re, 'lre, 'w) program \<Rightarrow> (bool \<times> Event) list" where
  "act_events env a pg =
     (let r = eng_router (pg_engine pg) in
      case a of Tick scan clk \<Rightarrow>
         (if has_runner (scan_name scan) (pg_engine pg)
          then map (Pair (storage_is_open (en_storage r))) (all_passed (ee_regex env) r (tick_arrivals env scan clk (pg_engine pg)))
          else [])
       | _ \<Rightarrow> [])"

text \<open>A run, with the history of the events in it.\<close>
fun engine_run ::
    "('re, 'lre) engine_env \<Rightarrow> engine_action list \<Rightarrow> ('re, 'lre, 'w) program \<Rightarrow> (('re, 'lre, 'w) program \<times> (bool \<times> Event) list) option" where
  "engine_run env [] pg = Some (pg, [])"
| "engine_run env (a # as) pg =
     (case engine_act env a pg of
        None \<Rightarrow> None
      | Some pg1 \<Rightarrow> map_option (\<lambda>(pg2, h). (pg2, act_events env a pg @ h)) (engine_run env as pg1))"

text \<open>Other programs leave the store's file alone, and the events that the filter lets through can be routed.\<close>
fun calm :: "('re, 'lre) engine_env \<Rightarrow> engine_action list \<Rightarrow> ('re, 'lre, 'w) program \<Rightarrow> bool" where
  "calm env [] pg = True"
| "calm env (a # as) pg =
     (list_all (\<lambda>x. routable (snd x)) (act_events env a pg) \<and>
      (case a of Write_File path content \<Rightarrow> path \<noteq> sto_path (en_storage (eng_router (pg_engine pg))) | _ \<Rightarrow> True) \<and>
      (case engine_act env a pg of None \<Rightarrow> True | Some pg1 \<Rightarrow> calm env as pg1))"

subsection \<open>The log\<close>

text \<open>After a run with history \<open>h\<close> from a given router, file system and world.  Only the part of the history
  for which the store was open is on disk, and it is the first part.\<close>
definition run_ok ::
    "(nat \<Rightarrow> timestamp) \<Rightarrow> ('re, 'w) Router \<times> file_system \<times> 'w \<Rightarrow> (bool \<times> Event) list \<Rightarrow> ('re, 'w) Router \<times> file_system \<times> 'w \<Rightarrow> bool" where
  "run_ok clk = (\<lambda>(r0, fs0, w0) h (r, fs, w).
     core_ok r \<and> ef_rules (en_filter r) = ef_rules (en_filter r0) \<and> en_callbacks r = en_callbacks r0 \<and>
     w = fold (\<lambda>e. fold (\<lambda>cb. cb e) (en_callbacks r0)) (map snd h) w0 \<and>
     stc_total_events (en_statistics r) = stc_total_events (en_statistics r0) + of_nat (length h) \<and>
     en_recent r = take_last 5000 (en_recent r0 @ map snd h) \<and>
     (storage_is_open (en_storage r) \<longrightarrow> keeping_store (fs, en_storage r) \<and> list_all fst h) \<and>
     storage_iterate clk fs (en_storage r) = storage_iterate clk fs0 (en_storage r0) @ map persisted (map snd (filter fst h)) \<and>
     sorted_wrt (\<lambda>x y. fst y \<longrightarrow> fst x) h)"

lemma run_ok_start: "engine_ok r fs \<Longrightarrow> run_ok clk (r, fs, w) [] (r, fs, w)"
  by (simp add: run_ok_def engine_ok_core core_ok_def kMaxRecentEvents_def)

lemma closed_inserts: "\<not> storage_is_open sto \<Longrightarrow> fold storage_insert es (fs, sto) = (fs, sto)"
  by (induction es) (simp_all add: storage_insert_def storage_is_open_def)

lemma keeping_store_open: "keeping_store (fs, sto) \<Longrightarrow> storage_is_open sto"
  by (simp add: keeping_store_def storage_inv_def storage_ready_def storage_is_open_def stream_is_open_def attached_def)

text \<open>Events routed at the end of a run.\<close>
lemma run_ok_route:
  assumes "run_ok clk s0 h (r, fs, w)" "list_all routable es" "routed_core es (r, fs, w) (r', fs', w')"
  shows "run_ok clk s0 (h @ map (Pair (storage_is_open (en_storage r))) es) (r', fs', w')"
proof (cases "storage_is_open (en_storage r)")
  case True
  then have keep: "keeping_store (fs, en_storage r)" using assms(1) by (cases s0) (simp add: run_ok_def)
  have "list_all storable_line es" using assms(2) by (simp add: list_all_iff routable_def)
  from routed_core_ok [OF assms(3) keep this, of clk]
  have "keeping_store (fs', en_storage r')"
      "storage_iterate clk fs' (en_storage r') = storage_iterate clk fs (en_storage r) @ map persisted es"
    by (simp_all add: routed_ok_def engine_ok_core)
  moreover have "list_all fst h" using assms(1) True by (cases s0) (simp add: run_ok_def)
  ultimately show ?thesis
    using assms(1,3) True
    by (cases s0) (auto simp: run_ok_def routed_core_def take_last_snoc ac_simps filter_map comp_def sorted_wrt_append sorted_wrt_map list_all_iff
        sorted_wrt_true)
next
  case False
  then have "(fs', en_storage r') = (fs, en_storage r)" using assms(3) closed_inserts [OF False] by (simp add: routed_core_def)
  then show ?thesis
    using assms(1,3) False
    by (cases s0) (auto simp: run_ok_def routed_core_def take_last_snoc ac_simps filter_map comp_def sorted_wrt_append sorted_wrt_map
        sorted_wrt_true)
qed

lemma core_ok_frame [simp]:
  "core_ok (r\<lparr>en_reporter := rp\<rparr>) = core_ok r" "core_ok (r\<lparr>en_storage := sto\<rparr>) = core_ok r"
  by (simp_all add: core_ok_def quiet_engine_def)

text \<open>Starting changes the reporter only, and the rest of a run of the store's file only if it is written to.\<close>
lemma run_ok_frame:
  assumes "run_ok clk s0 h (r, fs, w)"
  shows "run_ok clk s0 h (r\<lparr>en_reporter := rp\<rparr>, fs, w)"
    and "run_ok clk s0 h (r\<lparr>en_reporter := rp, en_storage := storage_close (en_storage r)\<rparr>, fs, w)"
    and "path \<noteq> sto_path (en_storage r) \<Longrightarrow> run_ok clk s0 h (r, fs\<lparr>fs_files := (fs_files fs)(path \<mapsto> content)\<rparr>, w)"
proof -
  show "run_ok clk s0 h (r\<lparr>en_reporter := rp\<rparr>, fs, w)"
    using assms by (cases s0) (simp add: run_ok_def)
  have "\<not> storage_is_open (storage_close sto)" "storage_iterate clk fs (storage_close sto) = storage_iterate clk fs sto" for sto
    by (simp_all add: storage_is_open_def storage_close_def storage_iterate_def)
  then show "run_ok clk s0 h (r\<lparr>en_reporter := rp, en_storage := storage_close (en_storage r)\<rparr>, fs, w)"
    using assms by (cases s0) (simp add: run_ok_def)
  show "run_ok clk s0 h (r, fs\<lparr>fs_files := (fs_files fs)(path \<mapsto> content)\<rparr>, w)" if "path \<noteq> sto_path (en_storage r)"
    using assms that
    by (cases s0) (auto simp: run_ok_def keeping_store_def storage_inv_def storage_ready_def stored_lines_def storage_iterate_def)
qed

definition program_state :: "('re, 'lre, 'w) program \<Rightarrow> ('re, 'w) Router \<times> file_system \<times> 'w" where
  "program_state pg = (eng_router (pg_engine pg), pg_fs pg, pg_world pg)"

lemma start_all_router:
  "\<exists>rp. eng_router (fst (start_all acc en)) = (eng_router en)\<lparr>en_reporter := rp\<rparr>"
  by (cases "eng_running en") (auto simp: start_all_def split_beta Let_def intro: exI [of _ "en_reporter (eng_router en)"])

lemma stop_all_router:
  "eng_router (fst (stop_all en)) = eng_router en \<or>
   (\<exists>rp. eng_router (fst (stop_all en)) = (eng_router en)\<lparr>en_reporter := rp, en_storage := storage_close (en_storage (eng_router en))\<rparr>)"
  by (auto simp: stop_all_def split_beta Let_def)

lemma reload_config_router [simp]: "eng_router (snd (reload_config fs (cfg, en))) = eng_router en"
  by (simp add: reload_config_def Let_def)

lemma check_config_router [simp]:
  "eng_router (pg_engine (check_config mtime pg)) = eng_router (pg_engine pg)"
  "pg_fs (check_config mtime pg) = pg_fs pg" "pg_world (check_config mtime pg) = pg_world pg"
  by (simp_all add: check_config_def watch_check_def Let_def split_beta)

definition store_open :: "('re, 'lre, 'w) program \<Rightarrow> bool" where
  "store_open pg = storage_is_open (en_storage (eng_router (pg_engine pg)))"

lemma routed_core_open:
  assumes "run_ok clk s0 h (r, fs, w)" "list_all routable es" "routed_core es (r, fs, w) (r', fs', w')" "storage_is_open (en_storage r)"
  shows "storage_is_open (en_storage r')"
proof -
  have "keeping_store (fs, en_storage r)" using assms(1,4) by (cases s0) (simp add: run_ok_def)
  moreover have "list_all storable_line es" using assms(2) by (simp add: list_all_iff routable_def)
  ultimately show ?thesis
    using routed_core_ok [OF assms(3)] by (auto simp: routed_ok_def engine_ok_core intro: keeping_store_open)
qed

lemma run_ok_act:
  assumes "run_ok clk s0 h (program_state pg)" "calm env (a # as) pg"
  shows "\<exists>pg1. engine_act env a pg = Some pg1 \<and> run_ok clk s0 (h @ act_events env a pg) (program_state pg1) \<and>
    (a \<noteq> Stop_All \<longrightarrow> store_open pg \<longrightarrow> store_open pg1)"
proof -
  obtain r fs w where st: "program_state pg = (r, fs, w)" by (rule prod_cases3)
  then have r: "eng_router (pg_engine pg) = r" "pg_fs pg = fs" "pg_world pg = w" by (simp_all add: program_state_def)
  note ok = assms(1) [unfolded st]
  show ?thesis
  proof (cases a)
    case (Start_All acc)
    obtain rp where "eng_router (fst (start_all acc (pg_engine pg))) = r\<lparr>en_reporter := rp\<rparr>" using start_all_router r(1) by blast
    then show ?thesis using run_ok_frame(1) [OF ok] by (simp add: Start_All act_events_def Let_def program_state_def store_open_def r)
  next
    case Stop_All
    show ?thesis
      using stop_all_router [of "pg_engine pg"] ok run_ok_frame(2) [OF ok]
      by (auto simp: Stop_All act_events_def Let_def program_state_def store_open_def r)
  next
    case (Write_File path content)
    then show ?thesis
      using run_ok_frame(3) [OF ok, of path content] assms(2) by (simp add: act_events_def Let_def program_state_def store_open_def r)
  next
    case (Tick scan clk1)
    show ?thesis
    proof (cases "has_runner (scan_name scan) (pg_engine pg)")
      case True
      let ?ins = "tick_arrivals env scan clk1 (pg_engine pg)" and ?es = "all_passed (ee_regex env) r (tick_arrivals env scan clk1 (pg_engine pg))"
      have es: "list_all routable ?es" using assms(2) True by (simp add: Tick act_events_def Let_def r list_all_iff)
      have "core_ok r" using ok by (cases s0) (simp add: run_ok_def)
      moreover have "\<forall>e \<in> set ?es. brace_free e" using es by (simp add: list_all_iff routable_def)
      ultimately obtain r' fs' w' where *: "route_all (ee_regex env) ?ins (r, fs, w) = Some (r', fs', w')" "routed_core ?es (r, fs, w) (r', fs', w')"
        using route_all_core [of r "ee_regex env" ?ins fs w] by (metis prod.exhaust)
      from run_ok_route [OF ok es *(2)] routed_core_open [OF ok es *(2)] show ?thesis
        by (simp add: Tick run_tick_def act_events_def Let_def True r *(1) program_state_def store_open_def)
    qed (use ok in \<open>simp add: Tick run_tick_def act_events_def Let_def program_state_def store_open_def r\<close>)
  qed (use ok in \<open>simp_all add: act_events_def Let_def program_state_def store_open_def r enable_config_watch_def disable_config_watch_def split_beta\<close>)
qed

lemma run_ok_run:
  assumes "run_ok clk s0 h (program_state pg)" "calm env as pg"
  shows "\<exists>pg' h'. engine_run env as pg = Some (pg', h') \<and> run_ok clk s0 (h @ h') (program_state pg') \<and>
    (Stop_All \<notin> set as \<longrightarrow> store_open pg \<longrightarrow> store_open pg')"
  using assms
proof (induction as arbitrary: pg h)
  case (Cons a as)
  obtain pg1 where a: "engine_act env a pg = Some pg1" "run_ok clk s0 (h @ act_events env a pg) (program_state pg1)"
      "a \<noteq> Stop_All \<longrightarrow> store_open pg \<longrightarrow> store_open pg1"
    using run_ok_act [OF Cons.prems] by blast
  moreover have "calm env as pg1" using Cons.prems(2) a(1) by simp
  ultimately show ?case using Cons.IH [OF a(2)] by (fastforce simp: append_assoc)
qed simp

lemma sorted_tags:
  "sorted_wrt (\<lambda>x y. fst y \<longrightarrow> fst x) h \<Longrightarrow> map fst h = replicate (length (filter fst h)) True @ replicate (length h - length (filter fst h)) False"
proof (induction h)
  case (Cons x h)
  show ?case
  proof (cases "fst x")
    case False
    then have "\<forall>y \<in> set h. \<not> fst y" using Cons.prems by auto
    then have "filter fst h = []" "map fst h = replicate (length h) False" by (auto simp: filter_empty_conv intro: replicate_eqI)
    with False show ?thesis by simp
  qed (use Cons length_filter_le [of fst h] in \<open>simp add: Suc_diff_le\<close>)
qed simp

lemma tagged_prefix:
  assumes "sorted_wrt (\<lambda>x y. fst y \<longrightarrow> fst x) h"
  shows "map snd (filter fst h) = take (length (filter fst h)) (map snd h)"
  using assms
proof (induction h)
  case (Cons x h)
  show ?case
  proof (cases "fst x")
    case False
    then have "filter fst h = []" using Cons.prems by (auto simp: filter_empty_conv)
    with False show ?thesis by simp
  qed (use Cons in simp)
qed simp

lemma initialized_router:
  fixes en :: "('re, 'lre, 'w) MonitorEngine"
  assumes "initialize env path fs cfg0 = (cfg, fs1, en)" "store_file_ready cfg fs"
    and "config_get_int ''storage.max_size_mb'' 0 cfg \<le> 0"
  shows "engine_ok (eng_router en) fs1" "stc_total_events (en_statistics (eng_router en)) = 0" "en_recent (eng_router en) = []"
proof -
  note r = initialize_parts [OF assms(1)]
  show "engine_ok (eng_router en) fs1"
    unfolding r(1,2) by (rule initialize_router_ok) (use initialize_storage_ok [OF assms(2,3)] in simp)
  show "stc_total_events (en_statistics (eng_router en)) = 0" "en_recent (eng_router en) = []"
    by (simp_all add: r(1) initialize_router_def Let_def new_statistics_def)
qed

text \<open>C3: the log is the history of the engine up to its first stop: take the engine as it is initialised from a
  configuration without rotation and let anything happen to it in any order, starts, stops, reloads, the
  configuration watch, ticks of any of the fourteen monitors with whatever they find, other programs
  writing other files.  If the events that the filter lets through can be routed, the run never hangs; the
  statistics count all of these events and the cache holds the newest; and the store holds, behind what it held
  before, exactly those of a first part of the run, which is all of it unless the engine is stopped.
  What comes after a stop and a new start is counted, cached and lost to the log.\<close>
theorem log_is_history_until_stop:
  fixes en :: "('re, 'lre, 'w) MonitorEngine"
  assumes "initialize env path fs cfg0 = (cfg, fs1, en)" "store_file_ready cfg fs"
    and "config_get_int ''storage.max_size_mb'' 0 cfg \<le> 0"
    and "calm env as \<lparr> pg_cfg = cfg, pg_engine = en, pg_fs = fs1, pg_world = w \<rparr>"
  shows "\<exists>pg h k. engine_run env as \<lparr> pg_cfg = cfg, pg_engine = en, pg_fs = fs1, pg_world = w \<rparr> = Some (pg, h) \<and>
    stc_total_events (en_statistics (eng_router (pg_engine pg))) = of_nat (length h) \<and>
    en_recent (eng_router (pg_engine pg)) = take_last 5000 (map snd h) \<and>
    storage_iterate clk (pg_fs pg) (en_storage (eng_router (pg_engine pg))) =
      storage_iterate clk fs1 (en_storage (eng_router en)) @ map persisted (take k (map snd h)) \<and>
    map fst h = replicate k True @ replicate (length h - k) False \<and>
    (Stop_All \<notin> set as \<longrightarrow> k = length h)"
proof -
  let ?pg = "\<lparr> pg_cfg = cfg, pg_engine = en, pg_fs = fs1, pg_world = w \<rparr>"
  note init = initialized_router [OF assms(1-3)]
  have "run_ok clk (program_state ?pg) [] (program_state ?pg)" unfolding program_state_def by (rule run_ok_start) (simp add: init(1))
  moreover have "store_open ?pg" using init(1) keeping_store_open by (simp add: store_open_def engine_ok_core) blast
  ultimately obtain pg h where run: "engine_run env as ?pg = Some (pg, h)" "run_ok clk (program_state ?pg) h (program_state pg)"
      "Stop_All \<notin> set as \<longrightarrow> store_open pg"
    using run_ok_run [of clk "program_state ?pg" "[]" ?pg env as] assms(4) by auto
  then have ok: "stc_total_events (en_statistics (eng_router (pg_engine pg))) = of_nat (length h)"
      "en_recent (eng_router (pg_engine pg)) = take_last 5000 (map snd h)"
      "storage_iterate clk (pg_fs pg) (en_storage (eng_router (pg_engine pg))) =
        storage_iterate clk fs1 (en_storage (eng_router en)) @ map persisted (map snd (filter fst h))"
      "sorted_wrt (\<lambda>x y. fst y \<longrightarrow> fst x) h" "store_open pg \<longrightarrow> list_all fst h"
    by (simp_all add: run_ok_def program_state_def store_open_def init(2,3))
  have "Stop_All \<notin> set as \<longrightarrow> length (filter fst h) = length h" using run(3) ok(5) by (auto simp: list_all_iff)
  then show ?thesis
    using run(1) ok(1-3) sorted_tags [OF ok(4)] unfolding tagged_prefix [OF ok(4)]
    by (intro exI [of _ pg] exI [of _ h] exI [of _ "length (filter fst h)"]) simp
qed

definition first_look :: monitor_scan where
  "first_look = Scan_Filesystem demo_env (one_file 0) (\<lambda>_. [])"

definition second_look :: monitor_scan where
  "second_look = Scan_Filesystem demo_env (one_file 5) (\<lambda>_. [''/tmp/a''])"

lemma start_slot_filesystem:
  "sl_name slot \<noteq> ''filesystem'' \<Longrightarrow> ms_filesystem (snd (start_slot acc slot ms)) = ms_filesystem ms"
  "sl_name slot = ''filesystem'' \<Longrightarrow> sl_available slot \<Longrightarrow> \<not> mon_running (sl_base slot) \<Longrightarrow>
     ms_filesystem (snd (start_slot acc slot ms)) = fst (filesystem_on_start (ms_filesystem ms))"
  by (auto simp: start_slot_def monitor_start_def slot_on_start_def derived_on_start_def Let_def split: prod.splits)

lemma start_slots_filesystem:
  "''filesystem'' \<notin> sl_name ` set slots \<Longrightarrow> ms_filesystem (snd (start_slots acc slots ms)) = ms_filesystem ms"
  by (induction slots arbitrary: ms) (auto simp: split_beta start_slot_filesystem(1))

text \<open>Starting an initialised engine gives its filesystem monitor a runner and calls its \<open>on_start\<close>.\<close>
lemma started_filesystem:
  fixes en :: "('re, 'lre, 'w) MonitorEngine"
  assumes "initialize env path fs cfg0 = (cfg, fs1, en)" "ee_available env ''filesystem''"
  shows "has_runner ''filesystem'' (fst (start_all acc en)) \<and>
    ms_filesystem (eng_monitors (fst (start_all acc en))) =
      fst (filesystem_on_start (fold add_watch_path (config_get_list ''filesystem.watch_paths'' [''/tmp''] cfg) new_filesystem_monitor))"
proof -
  note en = initialize_parts(4-6) [OF assms(1)]
  obtain slot slots where sl: "eng_slots en = slot # slots" "sl_name slot = ''filesystem''" "sl_available slot" "\<not> mon_running (sl_base slot)"
      "''filesystem'' \<notin> sl_name ` set slots"
    using assms(2) unfolding en(1)
    by (auto simp: initialize_monitors_def Let_def set_intervals_def new_slots_def monitor_table_def set_poll_interval_ms_def new_monitor_def)
  let ?one = "start_slot acc slot (eng_monitors en)"
  have "sl_runner (fst ?one) \<noteq> None" using sl(2-4) by (simp add: start_slot_runner)
  moreover have "sl_name (fst ?one) = ''filesystem''" by (simp add: start_slot_frame sl(2))
  moreover have "ms_filesystem (snd ?one) = fst (filesystem_on_start (ms_filesystem (eng_monitors en)))"
    by (rule start_slot_filesystem(2) [OF sl(2-4)])
  moreover have "ms_filesystem (eng_monitors en) = fold add_watch_path (config_get_list ''filesystem.watch_paths'' [''/tmp''] cfg) new_filesystem_monitor"
    by (simp add: en(2) initialize_monitors_def Let_def)
  ultimately show ?thesis
    using en(3) sl(5) by (simp add: start_all_def sl(1) split_beta Let_def has_runner_def start_slots_filesystem)
qed

definition looked_monitor :: FilesystemMonitor where
  "looked_monitor = fst (scan_and_diff demo_env (one_file 0) (\<lambda>_. [])
     (fst (filesystem_on_start (add_watch_path ''/tmp'' (add_watch_path ''/etc'' new_filesystem_monitor)))))"

lemma looks_evaluated:
  "snd (scan_and_diff demo_env (one_file 0) (\<lambda>_. [])
     (fst (filesystem_on_start (add_watch_path ''/tmp'' (add_watch_path ''/etc'' new_filesystem_monitor))))) = []"
  "list_all routable (snd (scan_and_diff demo_env (one_file 5) (\<lambda>_. [''/tmp/a'']) looked_monitor))"
  "length (snd (scan_and_diff demo_env (one_file 5) (\<lambda>_. [''/tmp/a'']) looked_monitor)) = 2"
  by code_simp+

lemma log_is_history_until_stop_witness:
  "let (cfg, fs1, en) = (initialize plain_env [] open_fs new_config_store :: ConfigStore \<times> file_system \<times> (string, string, nat) MonitorEngine);
       as = [Start_All (\<lambda>_. True), Tick first_look (\<lambda>_. plain_clock), Tick second_look (\<lambda>_. plain_clock)]
   in \<exists>pg h. engine_run plain_env as \<lparr> pg_cfg = cfg, pg_engine = en, pg_fs = fs1, pg_world = 0 \<rparr> = Some (pg, h) \<and> length h = 2 \<and>
        storage_iterate (\<lambda>_. 0) (pg_fs pg) (en_storage (eng_router (pg_engine pg))) =
          storage_iterate (\<lambda>_. 0) fs1 (en_storage (eng_router en)) @ map persisted (map snd h)"
proof -
  obtain cfg fs1 and en :: "(string, string, nat) MonitorEngine" where i: "initialize plain_env [] open_fs new_config_store = (cfg, fs1, en)"
    by (rule prod_cases3)
  have cfg: "cfg = new_config_store" using i by (simp add: initialize_def Let_def split_beta)
  have ready: "store_file_ready cfg open_fs" by (simp add: store_file_ready_def) (simp add: open_fs_def)
  have size: "config_get_int ''storage.max_size_mb'' 0 cfg \<le> 0" unfolding cfg by code_simp
  have flt: "\<not> config_get_bool ''filter.enabled'' False cfg" unfolding cfg by code_simp
  have paths: "config_get_list ''filesystem.watch_paths'' [''/tmp''] cfg = [''/etc'', ''/tmp'']" unfolding cfg by code_simp
  let ?en1 = "fst (start_all (\<lambda>_. True) en)"
  have start: "has_runner ''filesystem'' ?en1"
      "ms_filesystem (eng_monitors ?en1) = fst (filesystem_on_start (add_watch_path ''/tmp'' (add_watch_path ''/etc'' new_filesystem_monitor)))"
    using started_filesystem [OF i, of "\<lambda>_. True"] by (simp_all add: plain_env_def paths)
  have rules: "ef_rules (en_filter (eng_router ?en1)) = []"
  proof -
    obtain rp where "eng_router ?en1 = (eng_router en)\<lparr>en_reporter := rp\<rparr>" using start_all_router by blast
    then show ?thesis using flt initialize_parts(1) [OF i] by (simp add: initialize_router_def Let_def new_event_filter_def)
  qed
  let ?as = "[Start_All (\<lambda>_. True), Tick first_look (\<lambda>_. plain_clock), Tick second_look (\<lambda>_. plain_clock)]"
  let ?pg = "\<lparr> pg_cfg = cfg, pg_engine = en, pg_fs = fs1, pg_world = 0 \<rparr>"
  let ?es = "snd (scan_and_diff demo_env (one_file 5) (\<lambda>_. [''/tmp/a'']) looked_monitor)"
  define pg1 where "pg1 = ?pg\<lparr>pg_engine := ?en1\<rparr>"
  define pg2 where "pg2 = pg1\<lparr>pg_engine := ?en1\<lparr>eng_monitors := (eng_monitors ?en1)\<lparr>ms_filesystem := looked_monitor\<rparr>\<rparr>\<rparr>"
  have no: "tick_arrivals plain_env first_look (\<lambda>_. plain_clock) ?en1 = []"
    using looks_evaluated(1) by (simp add: tick_arrivals_def Let_def first_look_def start split_beta)
  have acts: "engine_act plain_env (Start_All (\<lambda>_. True)) ?pg = Some pg1"
      "engine_act plain_env (Tick first_look (\<lambda>_. plain_clock)) pg1 = Some pg2"
    using no by (simp_all add: pg1_def pg2_def run_tick_def Let_def first_look_def start looked_monitor_def split_beta)
  have evs: "act_events plain_env (Start_All (\<lambda>_. True)) ?pg = []"
      "act_events plain_env (Tick first_look (\<lambda>_. plain_clock)) pg1 = []"
      "act_events plain_env (Tick second_look (\<lambda>_. plain_clock)) pg2 = map (Pair (storage_is_open (en_storage (eng_router ?en1)))) ?es"
    using start(1)
    by (simp_all add: act_events_def Let_def pg1_def no all_passed_simps(1))
      (simp add: pg2_def pg1_def tick_arrivals_def Let_def second_look_def split_beta has_runner_def all_passed_unfiltered rules)
  have "calm plain_env ?as ?pg"
    using looks_evaluated(2)
    by (simp only: calm.simps acts evs option.simps engine_action.simps) (simp add: list_all_iff split: option.split)
  from log_is_history_until_stop [OF i ready size this, of "\<lambda>_. 0"] obtain pg h k where
    run: "engine_run plain_env ?as ?pg = Some (pg, h)" "k = length h"
      "storage_iterate (\<lambda>_. 0) (pg_fs pg) (en_storage (eng_router (pg_engine pg))) =
        storage_iterate (\<lambda>_. 0) fs1 (en_storage (eng_router en)) @ map persisted (take k (map snd h))" by auto
  have len: "length h = 2"
    using run(1) looks_evaluated(3)
    by (simp only: engine_run.simps acts evs option.simps) (auto split: option.splits)
  have log: "storage_iterate (\<lambda>_. 0) (pg_fs pg) (en_storage (eng_router (pg_engine pg))) =
      storage_iterate (\<lambda>_. 0) fs1 (en_storage (eng_router en)) @ map persisted (map snd h)"
    using run(2,3) by simp
  show ?thesis
    unfolding i Let_def prod.case by (intro exI [of _ pg] exI [of _ h] conjI) (rule run(1), rule len, rule log)
qed

subsection \<open>The runners\<close>

text \<open>A slot of an engine that runs or not.\<close>
definition slot_ok :: "bool \<Rightarrow> MonitorSlot \<Rightarrow> bool" where
  "slot_ok running s =
     ((sl_runner s \<noteq> None \<longrightarrow> mon_running (sl_base s) \<and> running \<and> sl_available s) \<and>
      (mon_running (sl_base s) \<longrightarrow> running) \<and>
      (running \<and> sl_available s \<and> sl_name s \<noteq> ''package'' \<longrightarrow> sl_runner s \<noteq> None))"

definition slots_ok :: "ConfigStore \<Rightarrow> ('re, 'lre, 'w) MonitorEngine \<Rightarrow> bool" where
  "slots_ok cfg en =
     (map sl_name (eng_slots en) = map fst monitor_table \<and>
      map (\<lambda>s. mon_poll_interval_ms (sl_base s)) (eng_slots en) = configured_intervals cfg \<and>
      list_all (slot_ok (eng_running en)) (eng_slots en))"

lemma slot_ok_start: "slot_ok False s \<Longrightarrow> slot_ok True (fst (start_slot acc s ms))"
proof (cases "sl_available s \<and> sl_name s \<noteq> ''package''")
  case True
  assume "slot_ok False s"
  then show ?thesis
    using True by (auto simp: slot_ok_def start_slot_frame start_slot_runner) (simp add: start_slot_def split_beta mon_running_start)
next
  case False
  assume "slot_ok False s"
  then show ?thesis
    using False by (auto simp: slot_ok_def start_slot_frame) (auto simp: start_slot_def monitor_start_def slot_on_start_def split: prod.splits if_splits)
qed

lemma slot_ok_runner:
  "slot_ok b s \<Longrightarrow> if b \<and> sl_available s then sl_name s = ''package'' \<or> sl_runner s \<noteq> None else sl_runner s = None"
  by (cases "sl_runner s"; cases b; cases "sl_available s"; simp add: slot_ok_def)

lemma stop_slot_no_runner: "slot_ok b s \<Longrightarrow> sl_runner (fst (stop_slot s ms)) = None"
  by (cases "mon_running (sl_base s)") (simp_all add: slot_ok_def stop_slot_def monitor_stop_def slot_on_stop_def split_beta)

lemma slot_ok_stop: "slot_ok b s \<Longrightarrow> slot_ok False (fst (stop_slot s ms))"
  using stop_slot_no_runner [of b s ms] by (simp add: slot_ok_def [of False] stop_slot_frame)

lemma slot_ok_interval: "slot_ok b (s\<lparr>sl_base := set_poll_interval_ms i (sl_base s)\<rparr>) = slot_ok b s"
  by (simp add: slot_ok_def set_poll_interval_ms_def)

lemma start_slots_keep:
  "map sl_name (fst (start_slots acc slots ms)) = map sl_name slots"
  "map (\<lambda>s. mon_poll_interval_ms (sl_base s)) (fst (start_slots acc slots ms)) = map (\<lambda>s. mon_poll_interval_ms (sl_base s)) slots"
  "list_all (slot_ok False) slots \<Longrightarrow> list_all (slot_ok True) (fst (start_slots acc slots ms))"
  by (induction slots arbitrary: ms) (auto simp: split_beta start_slot_frame slot_ok_start)

lemma stop_slots_keep:
  "map sl_name (fst (stop_slots slots ms)) = map sl_name slots"
  "map (\<lambda>s. mon_poll_interval_ms (sl_base s)) (fst (stop_slots slots ms)) = map (\<lambda>s. mon_poll_interval_ms (sl_base s)) slots"
  "list_all (slot_ok b) slots \<Longrightarrow> list_all (slot_ok False) (fst (stop_slots slots ms))"
  by (induction slots arbitrary: ms) (auto simp: split_beta stop_slot_frame slot_ok_stop)

lemma set_intervals_keep:
  assumes "length slots = length monitor_table"
  shows "map sl_name (set_intervals cfg slots) = map sl_name slots"
    "map (\<lambda>s. mon_poll_interval_ms (sl_base s)) (set_intervals cfg slots) = configured_intervals cfg"
    "list_all (slot_ok b) slots \<Longrightarrow> list_all (slot_ok b) (set_intervals cfg slots)"
proof -
  show "map sl_name (set_intervals cfg slots) = map sl_name slots"
    by (rule nth_equalityI) (use assms in \<open>simp_all add: set_intervals_nth\<close>)
  have "length (configured_intervals cfg) = length monitor_table" by (simp add: configured_intervals_def)
  then show "map (\<lambda>s. mon_poll_interval_ms (sl_base s)) (set_intervals cfg slots) = configured_intervals cfg"
    by (intro nth_equalityI) (use assms in \<open>simp_all add: set_intervals_nth set_poll_interval_ms_def\<close>)
  show "list_all (slot_ok b) (set_intervals cfg slots)" if "list_all (slot_ok b) slots"
    using that assms by (simp add: list_all_length set_intervals_nth slot_ok_interval)
qed

lemma slots_ok_length: "slots_ok cfg en \<Longrightarrow> length (eng_slots en) = length monitor_table"
  by (metis slots_ok_def length_map)

lemma slots_ok_start: "slots_ok cfg en \<Longrightarrow> slots_ok cfg (fst (start_all acc en))"
  by (cases "eng_running en") (simp_all add: start_all_def slots_ok_def split_beta Let_def start_slots_keep)

lemma slots_ok_stop: "slots_ok cfg en \<Longrightarrow> slots_ok cfg (fst (stop_all en))"
  by (auto simp: stop_all_def slots_ok_def split_beta Let_def stop_slots_keep)

lemma slots_ok_reload: "slots_ok cfg en \<Longrightarrow> reload_config fs (cfg, en) = (cfg1, en1) \<Longrightarrow> slots_ok cfg1 en1"
  using slots_ok_length [of cfg en]
  by (auto simp: reload_config_def slots_ok_def Let_def set_intervals_keep split: if_splits)

lemma slots_ok_frame:
  "slots_ok cfg (en\<lparr>eng_watcher := w\<rparr>) = slots_ok cfg en"
  "slots_ok cfg (en\<lparr>eng_router := r, eng_monitors := ms\<rparr>) = slots_ok cfg en"
  by (simp_all add: slots_ok_def)

lemma slots_ok_act:
  assumes "slots_ok (pg_cfg pg) (pg_engine pg)" "engine_act env a pg = Some pg1"
  shows "slots_ok (pg_cfg pg1) (pg_engine pg1)"
proof (cases a)
  case (Check_Config mtime)
  obtain cfg1 en1 where r: "reload_config (pg_fs pg) (pg_cfg pg, pg_engine pg) = (cfg1, en1)" by (rule prod.exhaust)
  then show ?thesis
    using assms slots_ok_reload [OF assms(1) r]
    by (auto simp: Check_Config check_config_def watch_check_def Let_def slots_ok_frame)
next
  case (Tick scan clk)
  then show ?thesis
    using assms by (auto simp: run_tick_def Let_def slots_ok_frame split: if_splits)
qed (use assms in \<open>auto simp: slots_ok_start slots_ok_stop enable_config_watch_def disable_config_watch_def slots_ok_frame
       intro: slots_ok_reload split: prod.splits\<close>)

lemma slots_ok_run:
  "engine_run env as pg = Some (pg', h) \<Longrightarrow> slots_ok (pg_cfg pg) (pg_engine pg) \<Longrightarrow> slots_ok (pg_cfg pg') (pg_engine pg')"
  by (induction as arbitrary: pg h) (auto split: option.splits dest: slots_ok_act)

lemma slots_ok_initial:
  assumes "initialize env path fs cfg0 = (cfg, fs1, en)"
  shows "slots_ok cfg en"
proof -
  have en: "eng_slots en = set_intervals cfg (new_slots (ee_available env))" "\<not> eng_running en"
    using initialize_parts(4,6) [OF assms] by (simp_all add: initialize_monitors_def Let_def)
  have "length (new_slots (ee_available env)) = length monitor_table" "map sl_name (new_slots (ee_available env)) = map fst monitor_table"
    "list_all (slot_ok False) (new_slots (ee_available env))"
    by (auto simp: new_slots_def list_all_iff slot_ok_def new_monitor_def)
  then show ?thesis using en(2) by (simp add: slots_ok_def en(1) set_intervals_keep)
qed

text \<open>C4: the engine stays well formed: after any run of an initialised engine, whatever has happened in it, it
  has its fourteen monitors in their order, with the intervals of the configuration as it is now; a
  stopped engine has no runner; in a running one every available monitor has one, except perhaps the
  package monitor, whose start can fail, and no other monitor has.\<close>
theorem engine_stays_well_formed:
  fixes en :: "('re, 'lre, 'w) MonitorEngine"
  assumes "initialize env path fs cfg0 = (cfg, fs1, en)"
    and "engine_run env as \<lparr> pg_cfg = cfg, pg_engine = en, pg_fs = fs1, pg_world = w \<rparr> = Some (pg, h)"
  shows "monitors (pg_engine pg) = [''filesystem'', ''process'', ''network'', ''system_config'', ''user_activity'', ''service'',
       ''file_integrity'', ''usb_device'', ''disk_space'', ''system_load'', ''log'', ''port'', ''package'', ''environment''] \<and>
     map (\<lambda>s. mon_poll_interval_ms (sl_base s)) (eng_slots (pg_engine pg)) = configured_intervals (pg_cfg pg) \<and>
     list_all (\<lambda>s. if eng_running (pg_engine pg) \<and> sl_available s then sl_name s = ''package'' \<or> sl_runner s \<noteq> None else sl_runner s = None)
       (eng_slots (pg_engine pg))"
proof -
  have "slots_ok (pg_cfg pg) (pg_engine pg)" using slots_ok_run [OF assms(2)] slots_ok_initial [OF assms(1)] by simp
  then have ok: "monitors (pg_engine pg) = map fst monitor_table"
      "map (\<lambda>s. mon_poll_interval_ms (sl_base s)) (eng_slots (pg_engine pg)) = configured_intervals (pg_cfg pg)"
      "list_all (slot_ok (eng_running (pg_engine pg))) (eng_slots (pg_engine pg))"
    by (simp_all add: slots_ok_def monitors_def)
  from ok(3) have "list_all (\<lambda>s. if eng_running (pg_engine pg) \<and> sl_available s then sl_name s = ''package'' \<or> sl_runner s \<noteq> None else sl_runner s = None)
       (eng_slots (pg_engine pg))"
    by (rule list.pred_mono_strong) (rule slot_ok_runner)
  then show ?thesis using ok(1,2) by (simp add: monitor_table_def)
qed

lemma engine_stays_well_formed_witness:
  "let (cfg, fs1, en) = (initialize plain_env [] open_fs new_config_store :: ConfigStore \<times> file_system \<times> (string, string, nat) MonitorEngine);
       pg = \<lparr> pg_cfg = cfg, pg_engine = en, pg_fs = fs1, pg_world = 0 \<rparr>
   in \<exists>pg' h. engine_run plain_env [Start_All (\<lambda>_. False), Stop_All, Start_All (\<lambda>_. True), Stop_All] pg = Some (pg', h) \<and>
        length (monitors (pg_engine pg')) = 14 \<and> list_all (\<lambda>s. sl_runner s = None) (eng_slots (pg_engine pg'))"
proof -
  obtain cfg fs1 and en :: "(string, string, nat) MonitorEngine" where i: "initialize plain_env [] open_fs new_config_store = (cfg, fs1, en)"
    by (rule prod_cases3)
  let ?pg = "\<lparr> pg_cfg = cfg, pg_engine = en, pg_fs = fs1, pg_world = 0 \<rparr>"
  have "\<not> eng_running (fst (stop_all en'))" for en' :: "(string, string, nat) MonitorEngine"
    by (simp add: stop_all_def split_beta Let_def)
  then obtain pg' h where run: "engine_run plain_env [Start_All (\<lambda>_. False), Stop_All, Start_All (\<lambda>_. True), Stop_All] ?pg = Some (pg', h)"
      "\<not> eng_running (pg_engine pg')" by auto
  from engine_stays_well_formed [OF i run(1)] run(2) have
    "length (monitors (pg_engine pg')) = 14" "list_all (\<lambda>s. sl_runner s = None) (eng_slots (pg_engine pg'))" by simp_all
  with run(1) show ?thesis unfolding i Let_def prod.case by blast
qed

end
