(* ===== verification/Alert_Threads.thy ===== *)
theory Alert_Threads
  imports Alert_Manager
begin

text \<open>
  One iteration of the rule loop of \<open>alert/alert_manager.cpp\<close>, taken apart: \<open>process_event\<close> gives its mutex up
  between recording the event, testing the threshold, testing the cooldown and raising the alert, and
  monitors run on threads of their own.  A thread is the event it processes with its clock and
  the phase it is in.  Uninterrupted, the phases are the iteration of theory \<open>Alert_Manager\<close>; two
  threads in the same rule can both pass the test of the cooldown before either has raised its alert.
\<close>

datatype rule_phase = MatchRule | TrackEvent | TestThreshold | TestCooldown | TriggerAlert | is_RuleDone: RuleDone

fun rule_phase_step ::
    "'re regex_lib \<Rightarrow> 're AlertRule \<Rightarrow> alert_clock \<Rightarrow> Event \<Rightarrow> rule_phase \<Rightarrow> ('re, 'w) AlertManager \<times> 'w \<Rightarrow>
     (rule_phase \<times> ('re, 'w) AlertManager \<times> 'w) option" where
  "rule_phase_step rx rule c e MatchRule st =
     Some (if ar_enabled rule \<and> alert_matches_rule rx rule e then TrackEvent else RuleDone, st)"
| "rule_phase_step rx rule c e TrackEvent (am, w) =
     (let n = ar_name rule; events = omap_get [] (am_rule_events am) n @ [ev_timestamp e]
      in Some (TestThreshold, (am\<lparr>am_rule_events := omap_update n events (am_rule_events am)\<rparr>, w)))"
| "rule_phase_step rx rule c e TestThreshold (am, w) =
     (let n = ar_name rule;
          cutoff = ac_threshold c - of_ms (ar_threshold_window_ms rule);
          kept = filter (\<lambda>t. \<not> t < cutoff) (omap_get [] (am_rule_events am) n)
      in Some (if int (length kept) \<ge> ar_threshold_count rule then TestCooldown else RuleDone,
               (am\<lparr>am_rule_events := omap_update n kept (am_rule_events am)\<rparr>, w)))"
| "rule_phase_step rx rule c e TestCooldown (am, w) =
     Some (if is_in_cooldown (ac_cooldown c) (ar_name rule) am then RuleDone else TriggerAlert, (am, w))"
| "rule_phase_step rx rule c e TriggerAlert st = map_option (Pair RuleDone) (trigger_alert (ac_alert c) rule e st)"
| "rule_phase_step rx rule c e RuleDone st = Some (RuleDone, st)"

lemma omap_update_twice: "omap_update k v (omap_update k v' m) = omap_update k v m"
  by (induction k v m rule: omap_update.induct) auto

text \<open>A thread that nobody interrupts.\<close>
fun rule_phases ::
    "nat \<Rightarrow> 're regex_lib \<Rightarrow> 're AlertRule \<Rightarrow> alert_clock \<Rightarrow> Event \<Rightarrow> rule_phase \<times> ('re, 'w) AlertManager \<times> 'w \<Rightarrow>
     (rule_phase \<times> ('re, 'w) AlertManager \<times> 'w) option" where
  "rule_phases 0 rx rule c e p = Some p"
| "rule_phases (Suc n) rx rule c e p = Option.bind (rule_phase_step rx rule c e (fst p) (snd p)) (rule_phases n rx rule c e)"

lemma rule_phases_none: "rule_phases 0 rx rule c e = Some"
  by (simp add: fun_eq_iff)

lemma alert_process_rule_phases:
  "rule_phases 5 rx rule c e (MatchRule, (am, w)) = map_option (Pair RuleDone) (alert_process_rule rx c e rule (am, w))"
  by (simp add: numeral_eq_Suc rule_phases_none alert_process_rule_def Let_def omap_update_twice split: option.split)

subsection \<open>The race\<close>

record rule_thread =
  rt_clock :: alert_clock
  rt_event :: Event
  rt_phase :: rule_phase

definition rule_turn ::
    "'re regex_lib \<Rightarrow> 're AlertRule \<Rightarrow> nat \<Rightarrow> rule_thread list \<times> ('re, 'w) AlertManager \<times> 'w \<Rightarrow>
     (rule_thread list \<times> ('re, 'w) AlertManager \<times> 'w) option" where
  "rule_turn rx rule t = (\<lambda>(ths, st).
     map_option (\<lambda>(ph, st1). (ths[t := (ths ! t)\<lparr>rt_phase := ph\<rparr>], st1))
       (rule_phase_step rx rule (rt_clock (ths ! t)) (rt_event (ths ! t)) (rt_phase (ths ! t)) st))"

fun rule_turns ::
    "'re regex_lib \<Rightarrow> 're AlertRule \<Rightarrow> nat list \<Rightarrow> rule_thread list \<times> ('re, 'w) AlertManager \<times> 'w \<Rightarrow>
     (rule_thread list \<times> ('re, 'w) AlertManager \<times> 'w) option" where
  "rule_turns rx rule [] p = Some p"
| "rule_turns rx rule (t # ts) p = Option.bind (rule_turn rx rule t p) (rule_turns rx rule ts)"

text \<open>Both threads test the cooldown, then both raise: the rule has two alerts at any two times, however long
  its cooldown is.\<close>
lemma cooldown_can_be_raced:
  fixes am :: "('re, 'w) AlertManager"
  assumes "ar_enabled rule" "alert_matches_rule rx rule e1" "alert_matches_rule rx rule e2" "ar_threshold_count rule \<le> 1"
    and "brace_free e1" "brace_free e2" "map_of (am_last_triggered am) (ar_name rule) = None"
    and "\<not> ev_timestamp e1 < ac_threshold c1 - of_ms (ar_threshold_window_ms rule)"
    and "\<not> ev_timestamp e2 < ac_threshold c2 - of_ms (ar_threshold_window_ms rule)"
    and "length (am_alerts am) + 2 \<le> kMaxAlerts"
  shows "\<exists>ths am' w' a1 a2.
     rule_turns rx rule [0, 0, 0, 0, 1, 1, 1, 1, 0, 1]
       ([\<lparr> rt_clock = c1, rt_event = e1, rt_phase = MatchRule \<rparr>, \<lparr> rt_clock = c2, rt_event = e2, rt_phase = MatchRule \<rparr>], (am, w)) =
       Some (ths, (am', w')) \<and>
     map rt_phase ths = [RuleDone, RuleDone] \<and> am_alerts am' = am_alerts am @ [a1, a2] \<and>
     al_rule_name a1 = ar_name rule \<and> al_rule_name a2 = ar_name rule \<and>
     al_timestamp a1 = ac_alert c1 \<and> al_timestamp a2 = ac_alert c2 \<and> al_trigger_event a1 = e1 \<and> al_trigger_event a2 = e2"
proof -
  obtain m1 where m1: "format_message (ar_message_template rule) e1 rule = Some m1" using format_message_defined [OF assms(5)] by blast
  obtain m2 where m2: "format_message (ar_message_template rule) e2 rule = Some m2" using format_message_defined [OF assms(6)] by blast
  show ?thesis
    using assms
    by (auto simp: rule_turn_def Let_def is_in_cooldown_def trigger_alert_def m1 m2 push_alert_def push_bounded_eq)
qed

end
