(* ===== verification/Platform.thy ===== *)
theory Platform
  imports Cpp_String
begin

text \<open>
  \<open>platform/platform_detection.h\<close> and \<open>platform/platform_detection.cpp\<close>: the platform the program was
  compiled for, which is the argument \<open>t\<close> of the predicates, and the queries of host and user on Unix.
  \<open>gethostname\<close>, \<open>getpwuid\<close>, \<open>getenv\<close> and \<open>uname\<close> are parameters; both names are copied into buffers of 256
  bytes and read back up to the first zero byte.
\<close>

datatype PlatformType = Linux | macOS | Windows | Android | iOS | ChromeOS | FydeOS | UnixLike | UnknownPlatform

fun platform_to_string :: "PlatformType \<Rightarrow> string" where
  "platform_to_string Linux = ''Linux''"
| "platform_to_string macOS = ''macOS''"
| "platform_to_string Windows = ''Windows''"
| "platform_to_string Android = ''Android''"
| "platform_to_string iOS = ''iOS''"
| "platform_to_string ChromeOS = ''ChromeOS''"
| "platform_to_string FydeOS = ''FydeOS''"
| "platform_to_string UnixLike = ''Unix''"
| "platform_to_string UnknownPlatform = ''Unknown''"

definition is_windows :: "PlatformType \<Rightarrow> bool" where
  "is_windows t = (t = Windows)"

definition is_unix :: "PlatformType \<Rightarrow> bool" where
  "is_unix t = (t = Linux \<or> t = macOS \<or> t = UnixLike \<or> t = Android \<or> t = iOS \<or> t = ChromeOS \<or> t = FydeOS)"

definition is_mobile :: "PlatformType \<Rightarrow> bool" where
  "is_mobile t = (t = Android \<or> t = iOS)"

definition has_native_filesystem_watcher :: "PlatformType \<Rightarrow> bool" where
  "has_native_filesystem_watcher t = (t = Linux \<or> t = macOS \<or> t = Windows \<or> t = ChromeOS \<or> t = FydeOS)"

definition has_native_process_monitor :: "PlatformType \<Rightarrow> bool" where
  "has_native_process_monitor t = (t = Linux \<or> t = macOS \<or> t = Windows \<or> t = ChromeOS \<or> t = FydeOS)"

definition has_native_user_monitor :: "PlatformType \<Rightarrow> bool" where
  "has_native_user_monitor t = (t = Linux \<or> t = macOS \<or> t = UnixLike \<or> t = ChromeOS \<or> t = FydeOS)"

definition has_native_service_monitor :: "PlatformType \<Rightarrow> bool" where
  "has_native_service_monitor t = (t = Linux \<or> t = macOS \<or> t = Windows \<or> t = ChromeOS \<or> t = FydeOS)"

text \<open>\<open>std::string(buffer)\<close>\<close>
definition c_string :: "string \<Rightarrow> string" where
  "c_string s = takeWhile (\<lambda>c. c \<noteq> CHR 0x00) s"

text \<open>\<open>std::strncpy(buffer, s, sizeof(buffer) - 1)\<close> into a buffer of 256 zero bytes.\<close>
definition in_buffer :: "string \<Rightarrow> string" where
  "in_buffer s = take 255 (c_string s)"

text \<open>The content of the buffer after \<open>gethostname\<close>, or \<open>None\<close> for its failure.\<close>
definition hostname :: "string option \<Rightarrow> string" where
  "hostname res = (case res of Some s \<Rightarrow> c_string (take 256 s) | None \<Rightarrow> in_buffer ''unknown'')"

text \<open>The name in the entry of \<open>getpwuid\<close> and the variable \<open>USER\<close>.\<close>
definition username :: "string option \<Rightarrow> string option \<Rightarrow> string" where
  "username pw_name user_env =
     (case pw_name of
        Some s \<Rightarrow> in_buffer s
      | None \<Rightarrow> (case user_env of Some s \<Rightarrow> in_buffer s | None \<Rightarrow> []))"

text \<open>The release of \<open>uname\<close>.\<close>
definition platform_version :: "string option \<Rightarrow> string" where
  "platform_version release = (case release of Some s \<Rightarrow> c_string s | None \<Rightarrow> [])"

lemma platform_to_string_inj: "platform_to_string s = platform_to_string t \<longleftrightarrow> s = t"
  by (cases s; cases t) simp_all

lemma windows_or_unix: "is_windows t \<or> is_unix t \<longleftrightarrow> t \<noteq> UnknownPlatform"
  by (cases t) (simp_all add: is_windows_def is_unix_def)

lemma not_windows_and_unix: "\<not> (is_windows t \<and> is_unix t)"
  by (cases t) (simp_all add: is_windows_def is_unix_def)

lemma mobile_is_unix: "is_mobile t \<Longrightarrow> is_unix t"
  by (auto simp: is_mobile_def is_unix_def)

text \<open>A long user name is cut, so two users of one machine can have the same name in the events.\<close>
lemma long_names_collide: "username (Some (replicate 255 CHR ''a'' @ ''b'')) e = username (Some (replicate 255 CHR ''a'' @ ''c'')) e"
  by (simp add: username_def in_buffer_def c_string_def takeWhile_append)

end
