(* ===== verification/Updater.thy ===== *)
theory Updater
  imports Cpp_String
begin

text \<open>
  \<open>updater/updater.cpp\<close>, compiled with remote reporting and without the nlohmann library: the version
  comparison, the search for a string in a JSON text, the check for an update and the prompt.  The HTTP
  answers (the empty text unless the status is 200) are a parameter, and so are the line the user
  types and how the child process that runs \<open>git pull\<close> ends.
\<close>

record UpdateInfo =
  up_available :: bool
  up_current_version :: string
  up_latest_version :: string
  up_release_url :: string
  up_error :: string

definition new_update_info :: UpdateInfo where
  "new_update_info =
     \<lparr> up_available = False, up_current_version = [], up_latest_version = [], up_release_url = [], up_error = [] \<rparr>"

subsection \<open>Reading the answer\<close>

text \<open>The loop up to the closing quote; a backslash takes the next character as it is.\<close>
fun quoted_text :: "string \<Rightarrow> string" where
  "quoted_text [] = []"
| "quoted_text [c] = (if c = dquote then [] else [c])"
| "quoted_text (c # d # s) =
     (if c = dquote then [] else if c = backslash then d # quoted_text s else c # quoted_text (d # s))"

definition extract_json_string :: "string \<Rightarrow> string \<Rightarrow> string" where
  "extract_json_string json_str key =
     (let search = [dquote] @ key @ [dquote] in
      case find_str search json_str of
        None \<Rightarrow> []
      | Some pos \<Rightarrow>
          (case dropWhile (\<lambda>c. c = CHR '' '' \<or> c = CHR '':'' \<or> c = tab) (drop (pos + length search) json_str) of
             [] \<Rightarrow> []
           | c # s \<Rightarrow> if c \<noteq> dquote then [] else quoted_text s))"

subsection \<open>Versions\<close>

definition strip_v :: "string \<Rightarrow> string" where
  "strip_v s = (if s \<noteq> [] \<and> hd s = CHR ''v'' then tl s else s)"

definition version_parts :: "string \<Rightarrow> int list" where
  "version_parts s = map (\<lambda>token. case stoi token of Some n \<Rightarrow> n | None \<Rightarrow> 0) (getline_split (CHR ''.'') (strip_v s))"

text \<open>The loop at index \<open>i\<close> with \<open>k\<close> rounds left.\<close>
fun compare_from :: "int list \<Rightarrow> int list \<Rightarrow> nat \<Rightarrow> nat \<Rightarrow> int" where
  "compare_from p q i 0 = 0"
| "compare_from p q i (Suc k) =
     (let a = (if i < length p then p ! i else 0); b = (if i < length q then q ! i else 0)
      in if a > b then 1 else if a < b then - 1 else compare_from p q (Suc i) k)"

definition compare_versions :: "string \<Rightarrow> string \<Rightarrow> int" where
  "compare_versions v1 v2 =
     (let p = version_parts v1; q = version_parts v2 in compare_from p q 0 (max (length p) (length q)))"

definition releases_url :: string where
  "releases_url = ''https://api.github.com/repos/diaoyunxi/change-of-system/releases/latest''"

definition tags_url :: string where
  "tags_url = ''https://api.github.com/repos/diaoyunxi/change-of-system/tags''"

definition check_for_update :: "(string \<Rightarrow> string) \<Rightarrow> string \<Rightarrow> UpdateInfo" where
  "check_for_update http_get current_version =
     (let info = new_update_info\<lparr>up_current_version := current_version\<rparr>;
          response = http_get releases_url;
          tag = extract_json_string response ''tag_name''
      in if response \<noteq> [] \<and> tag \<noteq> []
         then info\<lparr>up_latest_version := tag, up_release_url := extract_json_string response ''html_url'',
                   up_available := (compare_versions tag current_version > 0)\<rparr>
         else (let response2 = http_get tags_url; tag2 = extract_json_string response2 ''name''
               in if response2 \<noteq> [] \<and> tag2 \<noteq> []
                  then info\<lparr>up_latest_version := tag2,
                            up_release_url := ''https://github.com/diaoyunxi/change-of-system/releases/tag/'' @ tag2,
                            up_available := (compare_versions tag2 current_version > 0)\<rparr>
                  else info))"

subsection \<open>The prompt\<close>

text \<open>\<open>fork\<close> fails, or the child is killed after sixty seconds, or it ends with an exit code (\<open>None\<close> for a signal).\<close>
datatype child = ForkFailed | TimedOut | Ended "int option"

definition prompt_update :: "UpdateInfo \<Rightarrow> string \<Rightarrow> child \<Rightarrow> string" where
  "prompt_update info choice pull =
     (if \<not> up_available info
      then (if up_error info \<noteq> [] then ''[Updater] '' @ up_error info @ [nl] else [])
      else
        [nl] @ replicate 45 (CHR ''='') @ [nl] @ ''  '' @ [CHR 0xE5, CHR 0x8F, CHR 0x91, CHR 0xE7, CHR 0x8E, CHR 0xB0, CHR 0xE6, CHR 0x96, CHR 0xB0, CHR 0xE7, CHR 0x89, CHR 0x88, CHR 0xE6, CHR 0x9C, CHR 0xAC, CHR 0xEF, CHR 0xBC, CHR 0x81] @ [nl] @
        ''  '' @ [CHR 0xE5, CHR 0xBD, CHR 0x93, CHR 0xE5, CHR 0x89, CHR 0x8D, CHR 0xE7, CHR 0x89, CHR 0x88, CHR 0xE6, CHR 0x9C, CHR 0xAC] @ '': v'' @ up_current_version info @ [nl] @
        ''  '' @ [CHR 0xE6, CHR 0x9C, CHR 0x80, CHR 0xE6, CHR 0x96, CHR 0xB0, CHR 0xE7, CHR 0x89, CHR 0x88, CHR 0xE6, CHR 0x9C, CHR 0xAC] @ '': '' @ up_latest_version info @ [nl] @
        replicate 45 (CHR ''='') @ [nl] @
        [CHR 0xE6, CHR 0x9B, CHR 0xB4, CHR 0xE6, CHR 0x96, CHR 0xB0, CHR 0xE8, CHR 0xAF, CHR 0xA6, CHR 0xE6, CHR 0x83, CHR 0x85] @ '': '' @ up_release_url info @ [nl] @ [CHR 0xE6, CHR 0x98, CHR 0xAF, CHR 0xE5, CHR 0x90, CHR 0xA6, CHR 0xE7, CHR 0xAB, CHR 0x8B, CHR 0xE5, CHR 0x8D, CHR 0xB3, CHR 0xE6, CHR 0x9B, CHR 0xB4, CHR 0xE6, CHR 0x96, CHR 0xB0, CHR 0xEF, CHR 0xBC, CHR 0x9F] @ ''(y/N): '' @
        (if choice = ''y'' \<or> choice = ''Y''
         then [CHR 0xE6, CHR 0xAD, CHR 0xA3, CHR 0xE5, CHR 0x9C, CHR 0xA8, CHR 0xE6, CHR 0x9B, CHR 0xB4, CHR 0xE6, CHR 0x96, CHR 0xB0] @ ''...'' @ [nl] @
              (case pull of
                 ForkFailed \<Rightarrow> [CHR 0xE5, CHR 0x88, CHR 0x9B, CHR 0xE5, CHR 0xBB, CHR 0xBA, CHR 0xE5, CHR 0xAD, CHR 0x90, CHR 0xE8, CHR 0xBF, CHR 0x9B, CHR 0xE7, CHR 0xA8, CHR 0x8B, CHR 0xE5, CHR 0xA4, CHR 0xB1, CHR 0xE8, CHR 0xB4, CHR 0xA5, CHR 0xEF, CHR 0xBC, CHR 0x8C, CHR 0xE8, CHR 0xAF, CHR 0xB7, CHR 0xE6, CHR 0x89, CHR 0x8B, CHR 0xE5, CHR 0x8A, CHR 0xA8, CHR 0xE8, CHR 0xAE, CHR 0xBF, CHR 0xE9, CHR 0x97, CHR 0xAE] @ '':'' @ [nl] @ ''  '' @ up_release_url info @ [nl]
               | TimedOut \<Rightarrow> [CHR 0xE6, CHR 0x9B, CHR 0xB4, CHR 0xE6, CHR 0x96, CHR 0xB0, CHR 0xE8, CHR 0xB6, CHR 0x85, CHR 0xE6, CHR 0x97, CHR 0xB6, CHR 0xEF, CHR 0xBC, CHR 0x88] @ ''60'' @ [CHR 0xE7, CHR 0xA7, CHR 0x92, CHR 0xEF, CHR 0xBC, CHR 0x89, CHR 0xEF, CHR 0xBC, CHR 0x8C, CHR 0xE8, CHR 0xAF, CHR 0xB7, CHR 0xE6, CHR 0x89, CHR 0x8B, CHR 0xE5, CHR 0x8A, CHR 0xA8, CHR 0xE8, CHR 0xAE, CHR 0xBF, CHR 0xE9, CHR 0x97, CHR 0xAE] @ '':'' @ [nl] @ ''  '' @ up_release_url info @ [nl]
               | Ended status \<Rightarrow>
                   if status = Some 0 then [CHR 0xE6, CHR 0x9B, CHR 0xB4, CHR 0xE6, CHR 0x96, CHR 0xB0, CHR 0xE6, CHR 0x88, CHR 0x90, CHR 0xE5, CHR 0x8A, CHR 0x9F, CHR 0xEF, CHR 0xBC, CHR 0x81, CHR 0xE8, CHR 0xAF, CHR 0xB7, CHR 0xE9, CHR 0x87, CHR 0x8D, CHR 0xE6, CHR 0x96, CHR 0xB0, CHR 0xE7, CHR 0xBC, CHR 0x96, CHR 0xE8, CHR 0xAF, CHR 0x91, CHR 0xE5, CHR 0xB9, CHR 0xB6, CHR 0xE8, CHR 0xBF, CHR 0x90, CHR 0xE8, CHR 0xA1, CHR 0x8C, CHR 0xE7, CHR 0xA8, CHR 0x8B, CHR 0xE5, CHR 0xBA, CHR 0x8F, CHR 0xE3, CHR 0x80, CHR 0x82] @ [nl]
                   else [CHR 0xE8, CHR 0x87, CHR 0xAA, CHR 0xE5, CHR 0x8A, CHR 0xA8, CHR 0xE6, CHR 0x9B, CHR 0xB4, CHR 0xE6, CHR 0x96, CHR 0xB0, CHR 0xE5, CHR 0xA4, CHR 0xB1, CHR 0xE8, CHR 0xB4, CHR 0xA5, CHR 0xEF, CHR 0xBC, CHR 0x8C, CHR 0xE8, CHR 0xAF, CHR 0xB7, CHR 0xE6, CHR 0x89, CHR 0x8B, CHR 0xE5, CHR 0x8A, CHR 0xA8, CHR 0xE8, CHR 0xAE, CHR 0xBF, CHR 0xE9, CHR 0x97, CHR 0xAE] @ '':'' @ [nl] @ ''  '' @ up_release_url info @ [nl])
         else []))"

subsection \<open>The order of versions\<close>

text \<open>The parts continued with zeros.\<close>
definition part :: "string \<Rightarrow> nat \<Rightarrow> int" where
  "part v i = (if i < length (version_parts v) then version_parts v ! i else 0)"

fun first_sign :: "(nat \<Rightarrow> int) \<Rightarrow> nat \<Rightarrow> nat \<Rightarrow> int" where
  "first_sign f i 0 = 0"
| "first_sign f i (Suc k) = (if f i \<noteq> 0 then sgn (f i) else first_sign f (Suc i) k)"

lemma compare_from_sign:
  "compare_from p q i k = first_sign (\<lambda>j. (if j < length p then p ! j else 0) - (if j < length q then q ! j else 0)) i k"
  by (induction k arbitrary: i) (auto simp: Let_def)

lemma first_sign_zero: "(\<And>j. i \<le> j \<Longrightarrow> j < i + k \<Longrightarrow> f j = 0) \<Longrightarrow> first_sign f i k = 0"
  by (induction k arbitrary: i) auto

lemma first_sign_at:
  "i \<le> j \<Longrightarrow> j < i + k \<Longrightarrow> f j \<noteq> 0 \<Longrightarrow> (\<And>m. i \<le> m \<Longrightarrow> m < j \<Longrightarrow> f m = 0) \<Longrightarrow> first_sign f i k = sgn (f j)"
proof (induction k arbitrary: i)
  case (Suc k)
  show ?case
  proof (cases "i = j")
    case False
    then have "f i = 0" using Suc.prems by simp
    moreover have "first_sign f (Suc i) k = sgn (f j)" by (rule Suc.IH) (use Suc.prems False in auto)
    ultimately show ?thesis by simp
  qed (use Suc.prems in simp)
qed simp

lemma compare_versions_sign:
  "compare_versions v w = first_sign (\<lambda>j. part v j - part w j) 0 (max (length (version_parts v)) (length (version_parts w)))"
  by (simp add: compare_versions_def Let_def compare_from_sign part_def)

lemma part_beyond: "length (version_parts v) \<le> j \<Longrightarrow> part v j = 0"
  by (simp add: part_def)

lemma compare_versions_at:
  assumes d: "part v j \<noteq> part w j" and eq: "\<And>m. m < j \<Longrightarrow> part v m = part w m"
  shows "compare_versions v w = sgn (part v j - part w j)"
proof -
  have "j < max (length (version_parts v)) (length (version_parts w))"
  proof (rule ccontr)
    assume "\<not> j < max (length (version_parts v)) (length (version_parts w))"
    then have "part v j = 0" "part w j = 0" by (auto intro: part_beyond)
    with d show False by simp
  qed
  then show ?thesis unfolding compare_versions_sign by (intro first_sign_at) (use assms in auto)
qed

lemma compare_versions_same: "part v = part w \<Longrightarrow> compare_versions v w = 0"
  unfolding compare_versions_sign by (rule first_sign_zero) simp

lemma first_difference:
  fixes f g :: "nat \<Rightarrow> int"
  assumes "f \<noteq> g"
  shows "f (LEAST i. f i \<noteq> g i) \<noteq> g (LEAST i. f i \<noteq> g i)" "m < (LEAST i. f i \<noteq> g i) \<Longrightarrow> f m = g m"
proof -
  obtain k where "f k \<noteq> g k" using assms by (auto simp: fun_eq_iff)
  then show "f (LEAST i. f i \<noteq> g i) \<noteq> g (LEAST i. f i \<noteq> g i)" by (rule LeastI)
  show "m < (LEAST i. f i \<noteq> g i) \<Longrightarrow> f m = g m" using not_less_Least by blast
qed

lemma compare_versions_first:
  "part v \<noteq> part w \<Longrightarrow>
   compare_versions v w = sgn (part v (LEAST i. part v i \<noteq> part w i) - part w (LEAST i. part v i \<noteq> part w i))"
  by (rule compare_versions_at) (fact first_difference)+

text \<open>versions are compared by their first part that differs, where a missing part counts as zero.\<close>
theorem compare_versions_first_difference:
  "compare_versions v w =
     (if part v = part w then 0 else sgn (part v (LEAST i. part v i \<noteq> part w i) - part w (LEAST i. part v i \<noteq> part w i)))"
  by (rule if_split [THEN iffD2]) (use compare_versions_same compare_versions_first in blast)

text \<open>The comparison is a total preorder: swapping the versions swaps the sign, and newer is transitive.\<close>
lemma compare_versions_swap: "compare_versions w v = - compare_versions v w"
proof (cases "part v = part w")
  case True
  then show ?thesis by (simp add: compare_versions_same)
next
  case False
  define j where "j = (LEAST i. part v i \<noteq> part w i)"
  note j = first_difference [OF False, folded j_def]
  have "compare_versions v w = sgn (part v j - part w j)" by (rule compare_versions_at) (use j in auto)
  moreover have "compare_versions w v = sgn (part w j - part v j)" by (rule compare_versions_at) (use j in auto)
  ultimately show ?thesis using sgn_minus [of "part v j - part w j"] by simp
qed

lemma newer_iff:
  "compare_versions v w > 0 \<longleftrightarrow> (\<exists>j. part v j > part w j \<and> (\<forall>m < j. part v m = part w m))"
proof
  assume pos: "compare_versions v w > 0"
  then have ne: "part v \<noteq> part w" using compare_versions_same [of v w] by auto
  define j where "j = (LEAST i. part v i \<noteq> part w i)"
  note j = first_difference [OF ne, folded j_def]
  have "compare_versions v w = sgn (part v j - part w j)" by (rule compare_versions_at) (use j in auto)
  with pos have "part v j > part w j" by simp
  with j(2) show "\<exists>j. part v j > part w j \<and> (\<forall>m < j. part v m = part w m)" by blast
next
  assume "\<exists>j. part v j > part w j \<and> (\<forall>m < j. part v m = part w m)"
  then obtain j where j: "part v j > part w j" "\<forall>m < j. part v m = part w m" by blast
  have "compare_versions v w = sgn (part v j - part w j)" by (rule compare_versions_at) (use j in auto)
  with j(1) show "compare_versions v w > 0" by simp
qed

lemma compare_versions_trans:
  assumes "compare_versions u v > 0" "compare_versions v w > 0"
  shows "compare_versions u w > 0"
proof -
  obtain i where i: "part u i > part v i" "\<forall>m < i. part u m = part v m" using assms(1) newer_iff by blast
  obtain j where j: "part v j > part w j" "\<forall>m < j. part v m = part w m" using assms(2) newer_iff by blast
  have "part u (min i j) > part w (min i j)"
    using i j by (cases i j rule: linorder_cases) auto
  moreover have "\<forall>m < min i j. part u m = part w m" using i(2) j(2) by simp
  ultimately show ?thesis using newer_iff by blast
qed

text \<open>What follows the digits of a part is ignored: a release is not newer than its release candidate.\<close>
lemma prerelease_equals_release: "compare_versions ''v2.0.0'' ''2.0.0-rc1'' = 0"
  by code_simp

text \<open>An update is offered exactly if the answer names a version that is newer than the current one.\<close>
lemma update_offered_iff:
  "up_available (check_for_update get v) \<longleftrightarrow>
   up_latest_version (check_for_update get v) \<noteq> [] \<and> compare_versions (up_latest_version (check_for_update get v)) v > 0"
  by (simp add: check_for_update_def new_update_info_def Let_def)

end
