(* ===== verification/Other_Platforms.thy ===== *)
theory Other_Platforms
  imports Platform Port_Monitor Package_Monitor Service_Monitor Disk_Space_Monitor Usb_Device_Monitor
    System_Load_Monitor File_Integrity_Monitor Log_Monitor Updater "HOL-Library.Word"
begin

text \<open>
  The branches of the conditional compilation that the Linux theories leave out, for macOS and Windows, and the
  selection itself: which platform a build is for, and which branch it takes.  What a system call, a child process or
  the curl library answers is a parameter.  Each branch fills the same records as the Linux one, so the comparisons
  of the other theories apply to its results.
\<close>

unbundle bit_operations_syntax

section \<open>The platform of a build\<close>

text \<open>\<open>defd\<close> tells which macros are defined.\<close>
definition platform_current :: "(string \<Rightarrow> bool) \<Rightarrow> PlatformType" where
  "platform_current defd =
     (if defd ''COS_PLATFORM_ANDROID'' then Android
      else if defd ''COS_PLATFORM_IOS'' then iOS
      else if defd ''COS_PLATFORM_CHROMEOS'' then ChromeOS
      else if defd ''COS_PLATFORM_FYDEOS'' then FydeOS
      else if defd ''COS_PLATFORM_LINUX'' then Linux
      else if defd ''COS_PLATFORM_MACOS'' then macOS
      else if defd ''COS_PLATFORM_WINDOWS'' then Windows
      else if defd ''COS_PLATFORM_UNIX'' then UnixLike
      else UnknownPlatform)"

definition platform_name :: "(string \<Rightarrow> bool) \<Rightarrow> string" where
  "platform_name defd = platform_to_string (platform_current defd)"

text \<open>The answers of \<open>uname\<close>, \<open>sysctlbyname\<close> and \<open>GetVersionEx\<close>, \<open>None\<close> for a failure.\<close>
definition compiled_version :: "(string \<Rightarrow> bool) \<Rightarrow> string option \<Rightarrow> string option \<Rightarrow> (nat \<times> nat) option \<Rightarrow> string" where
  "compiled_version defd release osrelease win =
     (if defd ''COS_PLATFORM_LINUX'' \<or> defd ''COS_PLATFORM_UNIX'' \<or> defd ''COS_PLATFORM_ANDROID''
      then platform_version release
      else if defd ''COS_PLATFORM_MACOS'' \<or> defd ''COS_PLATFORM_IOS''
      then (case osrelease of Some s \<Rightarrow> c_string s | None \<Rightarrow> [])
      else if defd ''COS_PLATFORM_WINDOWS''
      then (case win of Some (major, minor) \<Rightarrow> nat_str major @ ''.'' @ nat_str minor | None \<Rightarrow> [])
      else ''0.0'')"

definition architecture :: "(string \<Rightarrow> bool) \<Rightarrow> string" where
  "architecture defd =
     (if defd ''__x86_64__'' \<or> defd ''_M_X64'' then ''x86_64''
      else if defd ''__aarch64__'' \<or> defd ''_M_ARM64'' then ''aarch64''
      else if defd ''__arm__'' \<or> defd ''_M_ARM'' then ''arm''
      else if defd ''__i386__'' \<or> defd ''_M_IX86'' then ''i386''
      else ''unknown'')"

text \<open>The buffer after \<open>GetUserNameA\<close>.\<close>
definition username_windows :: "string option \<Rightarrow> string" where
  "username_windows res = (case res of Some s \<Rightarrow> c_string (take 256 s) | None \<Rightarrow> in_buffer ''unknown'')"

text \<open>\<open>cmake/DetectPlatform.cmake\<close>: the macros of a build, from \<open>CMAKE_SYSTEM_NAME\<close> and the variables \<open>ANDROID\<close>, \<open>IOS\<close>
  and \<open>UNIX\<close>.\<close>
definition detect_platform :: "string \<Rightarrow> bool \<Rightarrow> bool \<Rightarrow> bool \<Rightarrow> string list" where
  "detect_platform system android ios unix =
     (if system = ''Linux'' then ''COS_PLATFORM_LINUX'' # (if android then [''COS_PLATFORM_ANDROID''] else [])
      else if system = ''Darwin'' then ''COS_PLATFORM_MACOS'' # (if ios then [''COS_PLATFORM_IOS''] else [])
      else if system = ''Windows'' then [''COS_PLATFORM_WINDOWS'']
      else if system = ''ChromeOS'' then [''COS_PLATFORM_CHROMEOS'']
      else if system = ''FydeOS'' then [''COS_PLATFORM_FYDEOS'']
      else if unix then [''COS_PLATFORM_UNIX'']
      else [])"

text \<open>A build sees the platform it was configured for.\<close>
lemma configured_platform:
  "platform_current (\<lambda>x. x \<in> set (detect_platform system android ios unix)) =
     (if system = ''Linux'' then (if android then Android else Linux)
      else if system = ''Darwin'' then (if ios then iOS else macOS)
      else if system = ''Windows'' then Windows
      else if system = ''ChromeOS'' then ChromeOS
      else if system = ''FydeOS'' then FydeOS
      else if unix then UnixLike else UnknownPlatform)"
  by (simp add: platform_current_def detect_platform_def)

text \<open>The version is asked for on every platform that has a name, except the two that are built with a macro of their
  own: ChromeOS and FydeOS always report \<open>0.0\<close>.\<close>
lemma chromeos_version_unknown:
  assumes "system \<in> {''ChromeOS'', ''FydeOS''}"
  shows "compiled_version (\<lambda>x. x \<in> set (detect_platform system android ios unix)) release osrelease win = ''0.0''"
  using assms by (auto simp: compiled_version_def detect_platform_def)

section \<open>Ports: the output of \<open>netstat\<close>\<close>

text \<open>A watched port in a line: the first occurrence of a dot and the number, not followed by another digit.\<close>
definition netstat_port :: "string \<Rightarrow> int \<Rightarrow> PortInfo option" where
  "netstat_port line port =
     (let needle = ''.'' @ int_str port in
      case find_str needle line of
        None \<Rightarrow> None
      | Some pos \<Rightarrow>
          (let after = pos + length needle in
           if after \<ge> length line \<or> \<not> isdigit (line ! after)
           then Some \<lparr> po_port = port, po_protocol = ''TCP'',
                       po_state = (if contains line ''LISTEN'' then ''LISTEN'' else ''OTHER''),
                       po_process = ''unknown'', po_address = ''*'' \<rparr>
           else None))"

definition netstat_line :: "int list \<Rightarrow> string \<Rightarrow> (int, PortInfo) omap \<Rightarrow> (int, PortInfo) omap" where
  "netstat_line watch line result =
     fold (\<lambda>p m. omap_update (po_port p) p m) (List.map_filter (netstat_port line) watch) result"

text \<open>The output of the child process, \<open>None\<close> if it cannot be started.\<close>
definition snapshot_ports_netstat :: "int list \<Rightarrow> string option \<Rightarrow> (int, PortInfo) omap" where
  "snapshot_ports_netstat watch out =
     (case out of None \<Rightarrow> [] | Some s \<Rightarrow> fold (\<lambda>piece. netstat_line watch (c_string piece)) (fgets_pieces s) [])"

lemma netstat_port_port: "netstat_port line port = Some p \<Longrightarrow> po_port p = port"
  by (auto simp: netstat_port_def Let_def split: option.splits if_splits)

lemma netstat_line_keys:
  assumes "fst ` set result \<subseteq> set watch"
  shows "fst ` set (netstat_line watch line result) \<subseteq> set watch"
proof -
  have "fst ` set (fold (\<lambda>p m. omap_update (po_port p) p m) ps m) \<subseteq> po_port ` set ps \<union> fst ` set m"
    for ps and m :: "(int, PortInfo) omap"
  proof (induction ps arbitrary: m)
    case (Cons p ps)
    show ?case using Cons.IH [of "omap_update (po_port p) p m"] by auto
  qed simp
  moreover have "po_port ` set (List.map_filter (netstat_port line) watch) \<subseteq> set watch"
    by (auto simp: map_filter_def dest: netstat_port_port)
  ultimately show ?thesis using assms unfolding netstat_line_def by blast
qed

text \<open>Only watched ports are in a snapshot.\<close>
lemma netstat_watched: "fst ` set (snapshot_ports_netstat watch out) \<subseteq> set watch"
proof -
  have "fst ` set (fold (\<lambda>piece. netstat_line watch (c_string piece)) ps m) \<subseteq> set watch"
    if "fst ` set m \<subseteq> set watch" for ps m
    using that
  proof (induction ps arbitrary: m)
    case (Cons p ps)
    show ?case using Cons.IH [OF netstat_line_keys [OF Cons.prems]] by simp
  qed simp
  then show ?thesis by (cases out) (simp_all add: snapshot_ports_netstat_def)
qed

lemma netstat_port_at:
  assumes "int_str port = s" "find_str (''.'' @ s) line = Some pos"
  shows "map_option po_port (netstat_port line port) =
    (if pos + Suc (length s) \<ge> length line \<or> \<not> isdigit (line ! (pos + Suc (length s))) then Some port else None)"
  using assms by (simp add: netstat_port_def Let_def)

lemma netstat_port_absent:
  assumes "int_str port = s" "find_str (''.'' @ s) line = None"
  shows "netstat_port line port = None"
  using assms by (simp add: netstat_port_def)

text \<open>The number may stand anywhere in the line: an octet of an address, or the port of the other side, counts as a
  local port in use.  Here a connection from local port 51000 opens the ports 80 and 443.\<close>
lemma foreign_port_taken_for_local:
  "map fst (netstat_line [80, 443, 8080] ''tcp4 192.168.80.5.51000 10.0.0.7.443 ESTABLISHED'' []) = [80, 443]"
proof -
  let ?l = "''tcp4 192.168.80.5.51000 10.0.0.7.443 ESTABLISHED''"
  have i: "int_str 80 = ''80''" "int_str 443 = ''443''" "int_str 8080 = ''8080''"
    by (simp_all add: int_str_def nat_str.simps digit_char_def)
  have f: "find_str (''.'' @ ''80'') ?l = Some 12" "find_str (''.'' @ ''443'') ?l = Some 32"
    "find_str (''.'' @ ''8080'') ?l = None" by code_simp+
  have d: "\<not> isdigit (?l ! (12 + Suc (length ''80'')))" "\<not> isdigit (?l ! (32 + Suc (length ''443'')))" by code_simp+
  obtain a b where "netstat_port ?l 80 = Some a" "po_port a = 80" "netstat_port ?l 443 = Some b" "po_port b = 443"
    using netstat_port_at [OF i(1) f(1)] netstat_port_at [OF i(2) f(2)] d by (auto simp only: if_True if_False simp_thms map_option_eq_Some)
  then show ?thesis using netstat_port_absent [OF i(3) f(3)] by (simp only: netstat_line_def map_filter_simps fold_simps) simp
qed

text \<open>Only the first occurrence is looked at: a longer number before it hides a listening port.\<close>
lemma listening_port_hidden: "netstat_line [22] ''tcp4 192.168.225.1.22 *.* LISTEN'' [] = []"
proof -
  let ?l = "''tcp4 192.168.225.1.22 *.* LISTEN''"
  have i: "int_str 22 = ''22''" by (simp add: int_str_def nat_str.simps digit_char_def)
  have f: "find_str (''.'' @ ''22'') ?l = Some 12" by code_simp
  have d: "isdigit (?l ! (12 + Suc (length ''22'')))" "\<not> length ?l \<le> 12 + Suc (length ''22'')" by code_simp+
  have "netstat_port ?l 22 = None" using netstat_port_at [OF i f] d by (simp only: if_False simp_thms map_option_is_None)
  then show ?thesis by (simp add: netstat_line_def map_filter_simps)
qed

section \<open>Services: the plists of launchd\<close>

definition launchd_service :: "dir_entry \<Rightarrow> ServiceInfo option" where
  "launchd_service d =
     (if \<not> de_is_regular d \<or> \<not> contains (de_filename d) ''.plist'' then None else Some (new_service (de_filename d)))"

definition launchd_snapshot :: "(string \<Rightarrow> dir_entry list option) \<Rightarrow> ServiceInfo list" where
  "launchd_snapshot listing =
     (case listing ''/Library/LaunchDaemons'' of None \<Rightarrow> [] | Some ds \<Rightarrow> List.map_filter launchd_service ds)"

lemma fold_services_value:
  "map_of (fold (\<lambda>s m. omap_update (si_name s) s m) ss m) n = Some s \<Longrightarrow> s \<in> set ss \<or> map_of m n = Some s"
proof (induction ss arbitrary: m)
  case (Cons x ss)
  then show ?case using Cons.IH [of "omap_update (si_name x) x m"] by (auto split: if_splits)
qed simp

lemma launchd_states: "map_of (service_map (launchd_snapshot listing)) n = Some s \<Longrightarrow> si_state s = StateUnknown"
  using fold_services_value [of "launchd_snapshot listing" "[]" n s]
  by (auto simp: service_map_def launchd_snapshot_def launchd_service_def new_service_def map_filter_def
        split: option.splits if_splits)

text \<open>The state is always unknown, so the monitor reports a plist file when it appears and nothing else ever: no
  service of macOS is seen to start, to stop or to fail.\<close>
lemma launchd_changes_unseen:
  assumes "service_map (launchd_snapshot before) = sm_previous m" "map_of (sm_previous m) n \<noteq> None"
  shows "n \<notin> ev_target ` set (snd (service_diff env (service_map (launchd_snapshot listing)) m))"
proof (cases "sm_first_scan m")
  case False
  from assms obtain old where "map_of (sm_previous m) n = Some old" "si_state old = StateUnknown"
    using launchd_states by (metis option.exhaust)
  then show ?thesis
    using launchd_states by (auto simp: service_diff_targets [OF False service_map_sorted])
qed (simp add: service_diff_def)

section \<open>Disks\<close>

subsection \<open>macOS\<close>

text \<open>The loop over the mount table; the watched paths play no part in it.\<close>
definition scan_disk_macos :: "double_ops \<Rightarrow> mount_entry list option \<Rightarrow> (string, DiskInfo) omap" where
  "scan_disk_macos ops mounts =
     (case mounts of
        None \<Rightarrow> []
      | Some ms \<Rightarrow> fold (\<lambda>i d. omap_update (di_mount_point i) i d)
                     (List.map_filter (disk_info ops)
                       (filter (\<lambda>mnt. me_type mnt \<notin> {''devfs'', ''autofs'', ''nfs''}) ms)) [])"

subsection \<open>Windows\<close>

text \<open>A string of the buffer that \<open>GetLogicalDriveStringsA\<close> fills, with the answer of \<open>GetDiskFreeSpaceExA\<close> for it: the
  total and the free bytes.\<close>
record logical_drive =
  ld_drive :: string
  ld_space :: "(64 word \<times> 64 word) option"

definition drive_listed :: "string list \<Rightarrow> string \<Rightarrow> bool" where
  "drive_listed watch drive = (watch = [] \<or> list_ex (\<lambda>p. drive = p \<or> take 2 drive = take 2 p) watch)"

definition drive_info :: "double_ops \<Rightarrow> logical_drive \<Rightarrow> DiskInfo option" where
  "drive_info ops d =
     (case ld_space d of
        None \<Rightarrow> None
      | Some (bytes, free) \<Rightarrow>
          Some \<lparr> di_mount_point = ld_drive d, di_device = ld_drive d, di_total_bytes = sint bytes,
                 di_used_bytes = sint (bytes - free), di_free_bytes = sint free,
                 di_usage_percent = (if sint bytes > 0 then do_percent ops (sint (bytes - free)) (sint bytes) else Fin 0) \<rparr>)"

text \<open>\<open>None\<close> if the drives cannot be listed; the list ends with the empty string.\<close>
definition scan_disk_windows ::
    "double_ops \<Rightarrow> logical_drive list option \<Rightarrow> DiskSpaceMonitor \<Rightarrow> (string, DiskInfo) omap" where
  "scan_disk_windows ops drives m =
     (case drives of
        None \<Rightarrow> []
      | Some ds \<Rightarrow> fold (\<lambda>i d. omap_update (di_mount_point i) i d)
          (List.map_filter (drive_info ops)
            (filter (\<lambda>d. drive_listed (dsm_watch_paths m) (ld_drive d)) (takeWhile (\<lambda>d. ld_drive d \<noteq> []) ds))) [])"

lemma fold_disks_keys:
  "fst ` set (fold (\<lambda>i d. omap_update (di_mount_point i) i d) is d) = di_mount_point ` set is \<union> fst ` set d"
proof (induction "is" arbitrary: d)
  case (Cons i "is")
  show ?case using Cons.IH [of "omap_update (di_mount_point i) i d"] by auto
qed simp

text \<open>The watched paths select the mounts on Linux and the drives on Windows.\<close>
lemma linux_disks_watched:
  assumes "dsm_watch_paths m \<noteq> []"
  shows "fst ` set (scan_disk_space ops mounts m) \<subseteq> set (dsm_watch_paths m)"
proof (cases mounts)
  case (Some ms)
  have "di_mount_point ` set (List.map_filter (disk_info ops) (filter (disk_listed m) ms)) \<subseteq> set (dsm_watch_paths m)"
    using assms by (auto simp: map_filter_def disk_info_def disk_listed_def Let_def split: option.splits)
  then show ?thesis by (simp add: scan_disk_space_def Some fold_disks_keys)
qed (simp add: scan_disk_space_def)

lemma windows_disks_watched:
  "\<forall>d \<in> fst ` set (scan_disk_windows ops drives m). drive_listed (dsm_watch_paths m) d"
proof (cases drives)
  case (Some ds)
  have "\<forall>d \<in> di_mount_point ` set (List.map_filter (drive_info ops)
      (filter (\<lambda>d. drive_listed (dsm_watch_paths m) (ld_drive d)) (takeWhile (\<lambda>d. ld_drive d \<noteq> []) ds))).
      drive_listed (dsm_watch_paths m) d"
    by (auto simp: map_filter_def drive_info_def split: option.splits)
  then show ?thesis by (simp add: scan_disk_windows_def Some fold_disks_keys)
qed (simp add: scan_disk_windows_def)

text \<open>On macOS every mount is watched, whatever the configuration says.\<close>
lemma macos_watches_all:
  assumes "mounts = Some ms" "mnt \<in> set ms" "me_stat mnt \<noteq> None" "me_type mnt \<notin> {''devfs'', ''autofs'', ''nfs''}"
  shows "me_dir mnt \<in> fst ` set (scan_disk_macos ops mounts)"
proof -
  let ?ms = "filter (\<lambda>mnt. me_type mnt \<notin> {''devfs'', ''autofs'', ''nfs''}) ms"
  obtain i where i: "disk_info ops mnt = Some i" "di_mount_point i = me_dir mnt"
    using assms(3) by (auto simp: disk_info_def Let_def)
  then have "i \<in> set (List.map_filter (disk_info ops) ?ms)" using assms(2,4) by (force simp: map_filter_def)
  then have "me_dir mnt \<in> di_mount_point ` set (List.map_filter (disk_info ops) ?ms)" using i(2) by force
  then show ?thesis by (simp add: scan_disk_macos_def assms(1) fold_disks_keys)
qed

text \<open>Drive letters are compared as they are written.\<close>
lemma drive_letter_case: "\<not> drive_listed [''c:''] ''C:/''"
  by code_simp

section \<open>USB devices\<close>

text \<open>A device of \<open>SetupDiEnumDeviceInfo\<close>: its identifier, and the two properties if they can be read.\<close>
record setup_device =
  sd_device_id :: string
  sd_desc :: "string option"
  sd_mfg :: "string option"

definition usb_info_windows :: "setup_device \<Rightarrow> UsbDeviceInfo" where
  "usb_info_windows d =
     (let known = (\<lambda>v. case v of None \<Rightarrow> ''Unknown'' | Some s \<Rightarrow> if s = [] then ''Unknown'' else s) in
      \<lparr> ud_device_id = sd_device_id d, ud_vendor = known (sd_mfg d), ud_product = known (sd_desc d), ud_serial = [],
        ud_mount_point = [], ud_size_bytes = 0 \<rparr>)"

definition scan_usb_windows :: "setup_device list option \<Rightarrow> (string, UsbDeviceInfo) omap" where
  "scan_usb_windows devs =
     (case devs of
        None \<Rightarrow> []
      | Some ds \<Rightarrow> fold (\<lambda>d m. omap_update (sd_device_id d) (usb_info_windows d) m) ds [])"

text \<open>The output of \<open>system_profiler\<close> is read into a text that nothing uses.\<close>
definition usb_output_macos :: "string option \<Rightarrow> string" where
  "usb_output_macos out = (case out of None \<Rightarrow> [] | Some s \<Rightarrow> concat (map c_string (fgets_pieces s)))"

definition scan_usb_macos :: "string option \<Rightarrow> (string, UsbDeviceInfo) omap" where
  "scan_usb_macos out = (let result = usb_output_macos out in [])"

lemma windows_usb_keys:
  "fst ` set (scan_usb_windows (Some ds)) = sd_device_id ` set ds"
proof -
  have "fst ` set (fold (\<lambda>d m. omap_update (sd_device_id d) (usb_info_windows d) m) ds m) = sd_device_id ` set ds \<union> fst ` set m"
    for m :: "(string, UsbDeviceInfo) omap"
  proof (induction ds arbitrary: m)
    case (Cons d ds)
    show ?case using Cons.IH [of "omap_update (sd_device_id d) (usb_info_windows d) m"] by auto
  qed simp
  then show ?thesis by (simp add: scan_usb_windows_def)
qed

text \<open>No device is ever reported on macOS, in any number of scans.\<close>
lemma macos_reports_no_usb:
  "concat (snd (fold (\<lambda>(stamp, out) (m, ess). let (m1, es) = usb_diff stamp (scan_usb_macos out) m in (m1, es # ess))
     scans (new_usb_monitor, []))) = []"
proof -
  have "concat (snd (fold (\<lambda>(stamp, out) (m, ess). let (m1, es) = usb_diff stamp (scan_usb_macos out) m in (m1, es # ess))
      scans (m, ess))) = []" if "udm_previous_devices m = []" "concat ess = []" for m ess
    using that
  proof (induction scans arbitrary: m ess)
    case (Cons sc scans)
    obtain stamp out where sc: "sc = (stamp, out)" by fastforce
    obtain m1 es where d: "usb_diff stamp (scan_usb_macos out) m = (m1, es)" by fastforce
    then have "udm_previous_devices m1 = []" "es = []"
      using Cons.prems(1) by (auto simp: usb_diff_def scan_usb_macos_def map_diff_def split: if_splits)
    then show ?case using Cons.IH [of m1 "es # ess"] Cons.prems(2) by (simp add: sc d)
  qed simp
  from this [of new_usb_monitor "[]"] show ?thesis by (simp only: new_usb_monitor_def UsbDeviceMonitor.simps concat.simps simp_thms)
qed

section \<open>System load\<close>

subsection \<open>Windows\<close>

text \<open>\<open>mem\<close> is the answer of \<open>GlobalMemoryStatusEx\<close>: the load in percent, the total and the available bytes.  The static
  query is open from the first call for which \<open>PdhOpenQuery\<close> succeeds (\<open>opens\<close>); \<open>counter\<close> is the value of the counter
  and \<open>div100\<close> the division by a hundred, which rounds.\<close>
definition get_system_load_windows ::
    "(double \<Rightarrow> double) \<Rightarrow> (nat \<times> 64 word \<times> 64 word) option \<Rightarrow> bool \<Rightarrow> double \<Rightarrow> bool \<Rightarrow> SystemLoadInfo \<times> bool" where
  "get_system_load_windows div100 mem opens counter cpu_query =
     (let info = (case mem of
                    None \<Rightarrow> new_load_info
                  | Some (percent, phys, avail) \<Rightarrow>
                      new_load_info\<lparr>sl_memory_usage_percent := Fin (of_nat percent), sl_total_memory := sint phys,
                                   sl_used_memory := sint (phys - avail)\<rparr>);
          info1 = (if cpu_query then info\<lparr>sl_cpu_usage_percent := counter\<rparr> else info);
          load = div100 (sl_cpu_usage_percent info1)
      in (info1\<lparr>sl_load_1min := load, sl_load_5min := load, sl_load_15min := load\<rparr>, cpu_query \<or> opens))"

text \<open>The load is a fraction of one processor there, so the threshold on the load, five by default, is out of its reach:
  only the threshold on the processor counts.\<close>
lemma windows_load_threshold_unreachable:
  assumes "\<And>c. dle c (Fin 100) \<Longrightarrow> dle (div100 c) (Fin 1)" "dle counter (Fin 100)" "dlt (Fin 1) (slm_load_threshold m)"
  shows "load_is_high m (fst (get_system_load_windows div100 mem opens counter q)) \<longleftrightarrow>
    dle (slm_cpu_threshold m) (if q then counter else Fin 0)"
proof -
  let ?i = "fst (get_system_load_windows div100 mem opens counter q)"
  have i: "sl_cpu_usage_percent ?i = (if q then counter else Fin 0)" "sl_load_1min ?i = div100 (if q then counter else Fin 0)"
    by (auto simp: get_system_load_windows_def new_load_info_def Let_def split: option.split)
  have "dle (sl_load_1min ?i) (Fin 1)" using assms(1) assms(2) by (simp add: i)
  then have "\<not> dle (slm_load_threshold m) (sl_load_1min ?i)"
    using assms(3) by (auto simp: dle_def dlt_def split: double.splits)
  then show ?thesis by (simp only: load_is_high_def i simp_thms)
qed

subsection \<open>macOS\<close>

text \<open>The structure \<open>sysinfo\<close> fills.\<close>
record sys_info =
  sy_loads :: "64 word \<times> 64 word \<times> 64 word"
  sy_totalram :: "64 word"
  sy_freeram :: "64 word"
  sy_mem_unit :: "32 word"

text \<open>\<open>scaled\<close> divides by two to the power \<open>SI_LOAD_SHIFT\<close>; \<open>top_out\<close> is the output of the child process \<open>top\<close>, of which one
  string of at most 63 characters is read, and \<open>None\<close> if it cannot be started.\<close>
definition top_cpu :: "(string \<Rightarrow> double option) \<Rightarrow> string option \<Rightarrow> double" where
  "top_cpu stod out =
     (case out of
        None \<Rightarrow> Fin 0
      | Some s \<Rightarrow>
          (case fgets_pieces s of
             [] \<Rightarrow> Fin 0
           | piece # _ \<Rightarrow> (case stod (c_string (take 63 piece)) of None \<Rightarrow> Fin 0 | Some v \<Rightarrow> v)))"

definition get_system_load_macos ::
    "double_ops \<Rightarrow> (64 word \<Rightarrow> double) \<Rightarrow> (string \<Rightarrow> double option) \<Rightarrow> sys_info option \<Rightarrow> string option \<Rightarrow> SystemLoadInfo" where
  "get_system_load_macos ops scaled stod si top_out =
     (let info = (case si of
            None \<Rightarrow> new_load_info
          | Some y \<Rightarrow>
              (let (a, b, c) = sy_loads y; used = sy_totalram y - sy_freeram y; unit = ucast (sy_mem_unit y) in
               \<lparr> sl_load_1min = scaled a, sl_load_5min = scaled b, sl_load_15min = scaled c, sl_cpu_usage_percent = Fin 0,
                 sl_total_memory = sint (sy_totalram y * unit), sl_used_memory = sint (used * unit),
                 sl_memory_usage_percent =
                   (if sy_totalram y > 0 then do_percent ops (uint used) (uint (sy_totalram y)) else Fin 0) \<rparr>))
      in info\<lparr>sl_cpu_usage_percent := top_cpu stod top_out\<rparr>)"

text \<open>A number that cannot be read, or no output at all, leaves the usage at zero.\<close>
lemma top_cpu_unreadable:
  "top_cpu stod None = Fin 0" "top_cpu stod (Some []) = Fin 0"
  "(\<And>s. stod s = None) \<Longrightarrow> top_cpu stod out = Fin 0"
  by (auto simp: top_cpu_def fgets_pieces.simps split: option.split list.split)

section \<open>The hash of a file\<close>

text \<open>The three versions of \<open>compute_hash\<close> read the file in the same way.  The context of the digest belongs to the
  library; CommonCrypto and OpenSSL report no failure, each of three calls of the Windows interface can.\<close>
definition hash_text :: "nat list \<Rightarrow> string" where
  "hash_text digest = concat (map hex_byte (take 32 digest))"

definition compute_hash_unix :: "'ctx \<Rightarrow> ('ctx \<Rightarrow> string \<Rightarrow> 'ctx) \<Rightarrow> ('ctx \<Rightarrow> nat list) \<Rightarrow> string option \<Rightarrow> string" where
  "compute_hash_unix init update final file =
     (case file of None \<Rightarrow> [] | Some content \<Rightarrow> hash_text (final (digest_blocks update init content)))"

record bcrypt_calls =
  bc_open_provider :: bool
  bc_create_hash :: bool
  bc_get_length :: bool

definition compute_hash_windows ::
    "bcrypt_calls \<Rightarrow> 'ctx \<Rightarrow> ('ctx \<Rightarrow> string \<Rightarrow> 'ctx) \<Rightarrow> ('ctx \<Rightarrow> nat list) \<Rightarrow> string option \<Rightarrow> string" where
  "compute_hash_windows bc init update final file =
     (case file of
        None \<Rightarrow> []
      | Some content \<Rightarrow>
          (if \<not> bc_open_provider bc then []
           else if \<not> bc_create_hash bc then []
           else (let ctx = digest_blocks update init content in
                 if \<not> bc_get_length bc then [] else hash_text (final ctx))))"

text \<open>\<open>get_file_size\<close> and \<open>get_file_mtime\<close>: zero where the library throws.  The clocks of the file system and of the
  system are in nanoseconds on Linux; the conversion drops what is below a millisecond.\<close>
definition integrity_file_size :: "u64 option \<Rightarrow> u64" where
  "integrity_file_size res = (case res of None \<Rightarrow> 0 | Some s \<Rightarrow> s)"

definition integrity_file_mtime :: "int option \<Rightarrow> int \<Rightarrow> int \<Rightarrow> u64" where
  "integrity_file_mtime ftime file_now system_now =
     (case ftime of
        None \<Rightarrow> 0
      | Some t \<Rightarrow> (let ns = t - file_now + system_now in of_int (sgn ns * (\<bar>ns\<bar> div 1000000))))"

lemma hash_text_length: "length digest = 32 \<Longrightarrow> length (hash_text digest) = 64"
  by (simp add: hash_text_def length_concat hex_byte_def comp_def sum_list_triv)

text \<open>Where no call fails, the platforms agree, and both hash the content as a whole.\<close>
lemma hash_of_the_content:
  assumes "\<And>ctx a b. update (update ctx a) b = update ctx (a @ b)"
  shows "compute_hash_unix init update final (Some content) = hash_text (final (update init content))"
    and "bc_open_provider bc \<and> bc_create_hash bc \<and> bc_get_length bc \<Longrightarrow>
      compute_hash_windows bc init update final file = compute_hash_unix init update final file"
  using digest_blocks_whole [OF assms]
  by (auto simp: compute_hash_unix_def compute_hash_windows_def split: option.split)

text \<open>The probe of a file the monitor takes is what these functions give.\<close>
lemma probe_of_file:
  "compute_hash \<lparr> ip_exists = True, ip_digest = map_option (\<lambda>c. final (digest_blocks update init c)) file, ip_size = sz,
     ip_mtime = mt \<rparr> = compute_hash_unix init update final file"
  by (simp add: compute_hash_def compute_hash_unix_def hash_text_def split: option.split)

section \<open>What \<open>stat\<close> says of a log file\<close>

record stat_result =
  st_mode :: "32 word"
  st_size :: u64
  st_ino :: u64

definition file_exists_and_readable :: "stat_result option \<Rightarrow> bool" where
  "file_exists_and_readable st = (case st of None \<Rightarrow> False | Some s \<Rightarrow> st_mode s AND 0x100 \<noteq> 0)"

definition log_file_size :: "stat_result option \<Rightarrow> u64" where
  "log_file_size st = (case st of None \<Rightarrow> 0 | Some s \<Rightarrow> st_size s)"

definition log_file_inode :: "stat_result option \<Rightarrow> u64" where
  "log_file_inode st = (case st of None \<Rightarrow> 0 | Some s \<Rightarrow> st_ino s)"

text \<open>The bit is the one of the owner: a log of mode 0600 passes for every user, and one of mode 0044, which others may
  read, for none.\<close>
lemma readable_is_the_owners_bit:
  "file_exists_and_readable (Some \<lparr> st_mode = 0x8180, st_size = n, st_ino = i \<rparr>)"
  "\<not> file_exists_and_readable (Some \<lparr> st_mode = 0x8024, st_size = n, st_ino = i \<rparr>)"
  by (simp_all add: file_exists_and_readable_def)

section \<open>The requests of the updater\<close>

text \<open>The function libcurl calls with each part of the answer.\<close>
definition write_callback :: "string \<Rightarrow> u64 \<Rightarrow> u64 \<Rightarrow> string \<Rightarrow> string \<times> u64" where
  "write_callback contents sz nmemb response =
     (let total_size = sz * nmemb in (response @ take (unat total_size) contents, total_size))"

text \<open>What a transfer does: the parts it delivers, each with size 1 as libcurl documents, whether it succeeds, and the
  status.\<close>
record curl_transfer =
  ct_parts :: "string list"
  ct_ok :: bool
  ct_http_code :: int

definition http_get :: "curl_transfer option \<Rightarrow> string" where
  "http_get transfer =
     (case transfer of
        None \<Rightarrow> []
      | Some c \<Rightarrow>
          (let response = fold (\<lambda>part r. fst (write_callback part 1 (of_nat (length part)) r)) (ct_parts c) [] in
           if ct_ok c \<and> ct_http_code c \<noteq> 200 then []
           else if \<not> ct_ok c then [] else response))"

lemma http_get_body:
  assumes "\<And>p. p \<in> set (ct_parts c) \<Longrightarrow> length p < 2 ^ 64"
  shows "http_get (Some c) = (if ct_ok c \<and> ct_http_code c = 200 then concat (ct_parts c) else [])"
proof -
  have "fold (\<lambda>part r. fst (write_callback part 1 (of_nat (length part)) r)) ps r = r @ concat ps"
    if "\<And>p. p \<in> set ps \<Longrightarrow> length p < 2 ^ 64" for ps r
    using that
  proof (induction ps arbitrary: r)
    case (Cons p ps)
    have "unat (of_nat (length p) :: u64) = length p"
      using Cons.prems [of p] by (simp add: unat_of_nat take_bit_nat_eq_self)
    then show ?case using Cons.IH Cons.prems by (simp add: write_callback_def Let_def)
  qed simp
  from this [OF assms] show ?thesis by (simp add: http_get_def Let_def)
qed

text \<open>Without an answer of status 200 to either request, no update is announced, and no error either.\<close>
lemma failed_requests_are_silent:
  assumes "\<And>url c. answer url = Some c \<Longrightarrow> \<not> (ct_ok c \<and> ct_http_code c = 200)"
  shows "check_for_update (\<lambda>url. http_get (answer url)) v = new_update_info\<lparr>up_current_version := v\<rparr>"
proof -
  have "http_get (answer url) = []" for url
    using assms by (cases "answer url") (auto simp: http_get_def Let_def)
  then show ?thesis by (simp add: check_for_update_def Let_def)
qed

end
