(* ===== verification/Json_Parser.thy ===== *)
theory Json_Parser
  imports Json_Text Cpp_Double
begin

text \<open>
  The JSON parser of \<open>snapshot_diff/snapshot_diff.cpp\<close>.  The position in the text is the rest of the
  text.  \<open>std::stod\<close> is a parameter.  A value that is parsed without an error carries the fields of its
  type only, so \<open>JsonValue\<close> is a datatype.  The recursion has a fuel argument; it is shown
  that the fuel \<open>parse_json\<close> starts with never runs out.  A text nested so deep that the stack of the
  program overflows is not modelled.

  The inductive predicate \<open>value_text\<close> is the reference: the texts of a value by the grammar of RFC 8259,
  with white space between the tokens and every escape of the grammar in the strings.
\<close>

datatype JsonValue =
    JNull | JBool bool | JNumber double | JString string
  | JArray "JsonValue list" | JObject "(string \<times> JsonValue) list"

definition is_object :: "JsonValue \<Rightarrow> bool" where
  "is_object v = (case v of JObject _ \<Rightarrow> True | _ \<Rightarrow> False)"

definition is_array :: "JsonValue \<Rightarrow> bool" where
  "is_array v = (case v of JArray _ \<Rightarrow> True | _ \<Rightarrow> False)"

definition is_string :: "JsonValue \<Rightarrow> bool" where
  "is_string v = (case v of JString _ \<Rightarrow> True | _ \<Rightarrow> False)"

definition is_number :: "JsonValue \<Rightarrow> bool" where
  "is_number v = (case v of JNumber _ \<Rightarrow> True | _ \<Rightarrow> False)"

definition json_find :: "string \<Rightarrow> JsonValue \<Rightarrow> JsonValue option" where
  "json_find key v = (case v of JObject m \<Rightarrow> map_of m key | _ \<Rightarrow> None)"

subsection \<open>The parser\<close>

datatype json_error = OutOfFuel | Syntax string

definition json_ws :: "char \<Rightarrow> bool" where
  "json_ws c = (c = CHR '' '' \<or> c = tab \<or> c = nl \<or> c = cr)"

definition skip_ws :: "string \<Rightarrow> string" where
  "skip_ws s = dropWhile json_ws s"

definition escaped_char :: "char \<Rightarrow> char" where
  "escaped_char e =
     (if e = CHR ''b'' then CHR 0x08 else if e = CHR ''f'' then CHR 0x0C else if e = CHR ''n'' then nl
      else if e = CHR ''r'' then cr else if e = CHR ''t'' then tab else e)"

fun parse_string_body :: "string \<Rightarrow> string \<Rightarrow> json_error + (string \<times> string)" where
  "parse_string_body out [] = Inl (Syntax ''unterminated string'')"
| "parse_string_body out (c # s) =
     (if c = dquote then Inr (out, s)
      else if c = backslash then
        (case s of
           [] \<Rightarrow> Inl (Syntax ''bad escape'')
         | e # s1 \<Rightarrow>
             (if e = CHR ''u'' then
                (case s1 of
                   _ # _ # _ # _ # s2 \<Rightarrow> parse_string_body (out @ ''?'') s2
                 | _ \<Rightarrow> Inl (Syntax (''bad '' @ [backslash] @ ''u'')))
              else parse_string_body (out @ [escaped_char e]) s1))
      else parse_string_body (out @ [c]) s)"

definition parse_string :: "string \<Rightarrow> json_error + (string \<times> string)" where
  "parse_string s =
     (case s of
        [] \<Rightarrow> Inl (Syntax ''expected string'')
      | c # s1 \<Rightarrow> if c \<noteq> dquote then Inl (Syntax ''expected string'') else parse_string_body [] s1)"

definition number_char :: "char \<Rightarrow> bool" where
  "number_char c = (isdigit c \<or> c = CHR ''.'' \<or> c = CHR ''e'' \<or> c = CHR ''E'' \<or> c = CHR ''+'' \<or> c = CHR ''-'')"

text \<open>The minus sign is among the characters of the loop, so the test for a leading one adds nothing.\<close>
definition parse_number :: "(string \<Rightarrow> double option) \<Rightarrow> string \<Rightarrow> json_error + (JsonValue \<times> string)" where
  "parse_number stod s =
     (let (sign, s1) = (case s of c # r \<Rightarrow> if c = CHR ''-'' then ([c], r) else ([], s) | [] \<Rightarrow> ([], s));
          lit = sign @ takeWhile number_char s1
      in case stod lit of
           None \<Rightarrow> Inl (Syntax (''bad number: '' @ lit))
         | Some d \<Rightarrow> Inr (JNumber d, dropWhile number_char s1))"

definition parse_bool :: "string \<Rightarrow> json_error + (JsonValue \<times> string)" where
  "parse_bool s =
     (if take 4 s = ''true'' then Inr (JBool True, drop 4 s)
      else if take 5 s = ''false'' then Inr (JBool False, drop 5 s)
      else Inl (Syntax ''bad bool''))"

definition parse_null :: "string \<Rightarrow> json_error + (JsonValue \<times> string)" where
  "parse_null s = (if take 4 s = ''null'' then Inr (JNull, drop 4 s) else Inl (Syntax ''bad null''))"

fun parse_value :: "(string \<Rightarrow> double option) \<Rightarrow> nat \<Rightarrow> string \<Rightarrow> json_error + (JsonValue \<times> string)"
  and parse_members :: "(string \<Rightarrow> double option) \<Rightarrow> nat \<Rightarrow> string \<Rightarrow> (string \<times> JsonValue) list \<Rightarrow> json_error + (JsonValue \<times> string)"
  and parse_elements :: "(string \<Rightarrow> double option) \<Rightarrow> nat \<Rightarrow> string \<Rightarrow> JsonValue list \<Rightarrow> json_error + (JsonValue \<times> string)"
where
  "parse_value stod 0 s = Inl OutOfFuel"
| "parse_value stod (Suc n) s =
     (case skip_ws s of
        [] \<Rightarrow> Inl (Syntax ''unexpected end'')
      | c # r \<Rightarrow>
          if c = CHR ''{'' then
            (case skip_ws r of
               d # r1 \<Rightarrow> if d = CHR ''}'' then Inr (JObject [], r1) else parse_members stod n (d # r1) []
             | [] \<Rightarrow> parse_members stod n [] [])
          else if c = CHR ''['' then
            (case skip_ws r of
               d # r1 \<Rightarrow> if d = CHR '']'' then Inr (JArray [], r1) else parse_elements stod n (d # r1) []
             | [] \<Rightarrow> parse_elements stod n [] [])
          else if c = dquote then
            (case parse_string (c # r) of Inl e \<Rightarrow> Inl e | Inr (x, r1) \<Rightarrow> Inr (JString x, r1))
          else if c = CHR ''t'' \<or> c = CHR ''f'' then parse_bool (c # r)
          else if c = CHR ''n'' then parse_null (c # r)
          else if c = CHR ''-'' \<or> isdigit c then parse_number stod (c # r)
          else Inl (Syntax (''unexpected char '' @ [CHR 0x27, c, CHR 0x27])))"
| "parse_members stod 0 s m = Inl OutOfFuel"
| "parse_members stod (Suc n) s m =
     (case parse_string (skip_ws s) of
        Inl e \<Rightarrow> Inl e
      | Inr (key, r) \<Rightarrow>
          (case skip_ws r of
             [] \<Rightarrow> Inl (Syntax (''expected '' @ [CHR 0x27, CHR '':'', CHR 0x27]))
           | c # r1 \<Rightarrow>
               if c \<noteq> CHR '':'' then Inl (Syntax (''expected '' @ [CHR 0x27, CHR '':'', CHR 0x27]))
               else case parse_value stod n r1 of
                      Inl e \<Rightarrow> Inl e
                    | Inr (v, r2) \<Rightarrow>
                        (case skip_ws r2 of
                           [] \<Rightarrow> Inl (Syntax ''unterminated object'')
                         | d # r3 \<Rightarrow>
                             if d = CHR '','' then parse_members stod n r3 (omap_update key v m)
                             else if d = CHR ''}'' then Inr (JObject (omap_update key v m), r3)
                             else Inl (Syntax (''expected '' @ [CHR 0x27, CHR '','', CHR 0x27] @ '' or '' @ [CHR 0x27, CHR ''}'', CHR 0x27])))))"
| "parse_elements stod 0 s vs = Inl OutOfFuel"
| "parse_elements stod (Suc n) s vs =
     (case parse_value stod n s of
        Inl e \<Rightarrow> Inl e
      | Inr (v, r) \<Rightarrow>
          (case skip_ws r of
             [] \<Rightarrow> Inl (Syntax ''unterminated array'')
           | d # r1 \<Rightarrow>
               if d = CHR '','' then parse_elements stod n r1 (vs @ [v])
               else if d = CHR '']'' then Inr (JArray (vs @ [v]), r1)
               else Inl (Syntax (''expected '' @ [CHR 0x27, CHR '','', CHR 0x27] @ '' or '' @ [CHR 0x27, CHR '']'', CHR 0x27]))))"

text \<open>\<open>parse\<close>: what follows the value is not looked at.\<close>
definition parse_json :: "(string \<Rightarrow> double option) \<Rightarrow> string \<Rightarrow> json_error + JsonValue" where
  "parse_json stod text =
     (case parse_value stod (2 * length text + 2) (skip_ws text) of Inl e \<Rightarrow> Inl e | Inr (v, _) \<Rightarrow> Inr v)"

subsection \<open>The parser returns\<close>

lemma skip_ws_length: "length (skip_ws s) \<le> length s"
  by (simp add: skip_ws_def length_dropWhile_le)

lemma skip_ws_Cons: "skip_ws s = c # r \<Longrightarrow> length r < length s"
  using skip_ws_length [of s] by simp

lemma parse_string_body_result:
  "case parse_string_body out s of Inl e \<Rightarrow> e \<noteq> OutOfFuel | Inr (x, r) \<Rightarrow> length r < length s"
proof (induction "length s" arbitrary: out s rule: less_induct)
  case less
  have shorter: "case parse_string_body out' s' of Inl e \<Rightarrow> e \<noteq> OutOfFuel | Inr (x, r) \<Rightarrow> length r < length s"
    if "length s' < length s" for out' s'
    using less [OF that, of out'] that by (auto split: sum.splits)
  show ?case
  proof (cases s)
    case (Cons c s1)
    consider "c = dquote" | "c = backslash" "s1 = []" | e s2 where "c = backslash" "s1 = e # s2" "e \<noteq> CHR ''u''"
      | s2 where "c = backslash" "s1 = CHR ''u'' # s2" | "c \<noteq> dquote" "c \<noteq> backslash"
      by (cases s1) auto
    then show ?thesis
    proof cases
      case (3 e s2)
      then show ?thesis using shorter [of s2 "out @ [escaped_char e]"] Cons by simp
    next
      case (4 s2)
      then show ?thesis using shorter [of "drop 4 s2" "out @ ''?''"] Cons
        by (simp split: list.split) (auto split: list.splits simp: numeral_eq_Suc)
    next
      case 5
      then show ?thesis using shorter [of s1 "out @ [c]"] Cons by simp
    qed (simp_all add: Cons)
  qed simp
qed

text \<open>A result that leaves less than \<open>l\<close> characters, or an error other than lack of fuel if there was enough.\<close>
definition parsed_ok :: "bool \<Rightarrow> nat \<Rightarrow> json_error + ('v \<times> string) \<Rightarrow> bool" where
  "parsed_ok enough l res = (case res of Inl e \<Rightarrow> enough \<longrightarrow> e \<noteq> OutOfFuel | Inr (v, r) \<Rightarrow> length r < l)"

lemma parsed_ok_simps [simp]:
  "parsed_ok enough l (Inl (Syntax e))" "parsed_ok enough l (Inl OutOfFuel) \<longleftrightarrow> \<not> enough"
  "parsed_ok enough l (Inr (v, r)) \<longleftrightarrow> length r < l"
  by (simp_all add: parsed_ok_def)

lemma parsed_ok_mono:
  "parsed_ok enough l res \<Longrightarrow> (enough' \<Longrightarrow> enough) \<Longrightarrow> l \<le> l' \<Longrightarrow> parsed_ok enough' l' res"
  by (auto simp: parsed_ok_def split: sum.splits)

lemma parsed_ok_cases:
  assumes "parsed_ok enough l res"
  obtains "res = Inl OutOfFuel" "\<not> enough" | e where "res = Inl (Syntax e)" | v r where "res = Inr (v, r)" "length r < l"
  using assms by (cases res) (auto simp: parsed_ok_def intro: json_error.exhaust)

lemma parse_string_ok: "parsed_ok True (length s) (parse_string s)"
proof (cases s)
  case (Cons c r)
  show ?thesis
  proof (cases "parse_string_body [] r")
    case (Inl e)
    then show ?thesis using parse_string_body_result [of r "[]", unfolded Inl] by (simp add: Cons parse_string_def parsed_ok_def)
  next
    case (Inr p)
    then show ?thesis using parse_string_body_result [of r "[]", unfolded Inr]
      by (simp add: Cons parse_string_def parsed_ok_def split: prod.splits)
  qed
qed (simp add: parse_string_def)

lemma parsed_ok_map:
  "parsed_ok enough l res \<Longrightarrow> parsed_ok enough l (case res of Inl e \<Rightarrow> Inl e | Inr (x, r) \<Rightarrow> Inr (f x, r))"
  by (auto simp: parsed_ok_def split: sum.splits)

lemma parse_scalar_ok: "parsed_ok k (length s) (parse_bool s)" "parsed_ok k (length s) (parse_null s)"
proof -
  have "4 \<le> length s" if "take 4 s = t" "length t = 4" for t using arg_cong [OF that(1), of length] that(2) by simp
  moreover have "5 \<le> length s" if "take 5 s = t" "length t = 5" for t using arg_cong [OF that(1), of length] that(2) by simp
  ultimately show "parsed_ok k (length s) (parse_bool s)" "parsed_ok k (length s) (parse_null s)"
    by (fastforce simp: parse_bool_def parse_null_def)+
qed

lemma parse_number_ok:
  assumes "c = CHR ''-'' \<or> isdigit c"
  shows "parsed_ok k (length (c # s)) (parse_number stod (c # s))"
  using assms length_dropWhile_le [of number_char s]
  by (auto simp: parse_number_def number_char_def Let_def split: option.splits)

lemma parse_result:
  "parsed_ok (2 * length s + 1 \<le> n) (length s) (parse_value stod n s)"
  "parsed_ok (2 * length s + 2 \<le> n) (length s) (parse_members stod n s m)"
  "parsed_ok (2 * length s + 2 \<le> n) (length s) (parse_elements stod n s vs)"
proof (induction n arbitrary: s m vs)
  case (Suc n)
  {
    case 1
    show ?case
    proof (cases "skip_ws s")
      case (Cons c r)
      have l: "length r < length s" by (rule skip_ws_Cons [OF Cons])
      have r: "length (skip_ws r) \<le> length r" by (rule skip_ws_length)
      have members: "parsed_ok (2 * length s + 1 \<le> Suc n) (length s) (parse_members stod n (skip_ws r) [])"
        by (rule parsed_ok_mono [OF Suc.IH(2)]) (use l r in auto)
      have elements: "parsed_ok (2 * length s + 1 \<le> Suc n) (length s) (parse_elements stod n (skip_ws r) [])"
        by (rule parsed_ok_mono [OF Suc.IH(3)]) (use l r in auto)
      have string: "parsed_ok (2 * length s + 1 \<le> Suc n) (length s)
          (case parse_string (c # r) of Inl e \<Rightarrow> Inl e | Inr (x, r1) \<Rightarrow> Inr (JString x, r1))"
        by (rule parsed_ok_map, rule parsed_ok_mono [OF parse_string_ok]) (use l in auto)
      have scalar: "parsed_ok (2 * length s + 1 \<le> Suc n) (length s) (parse_bool (c # r))"
          "parsed_ok (2 * length s + 1 \<le> Suc n) (length s) (parse_null (c # r))"
        by (rule parsed_ok_mono [OF parse_scalar_ok(1) [where k = True]], use l in auto)
          (rule parsed_ok_mono [OF parse_scalar_ok(2) [where k = True]], use l in auto)
      have number: "parsed_ok (2 * length s + 1 \<le> Suc n) (length s) (parse_number stod (c # r))"
        if "c = CHR ''-'' \<or> isdigit c"
        by (rule parsed_ok_mono [OF parse_number_ok [OF that, where k = True]]) (use l in auto)
      consider "c = CHR ''{''" | "c = CHR ''[''" | "c = dquote" | "c \<notin> {CHR ''{'', CHR ''['', dquote}" by blast
      then show ?thesis
      proof cases
        case 1
        then show ?thesis using members r l \<open>skip_ws s = c # r\<close> by (cases "skip_ws r") simp_all
      next
        case 2
        then show ?thesis using elements r l \<open>skip_ws s = c # r\<close> by (cases "skip_ws r") simp_all
      next
        case 3
        then show ?thesis using string Cons by simp
      next
        case 4
        then show ?thesis using scalar number Cons by (cases "c = CHR ''n''") simp_all
      qed
    qed simp
  next
    case 2
    note ws = skip_ws_length [of s]
    from parse_string_ok [of "skip_ws s"] show ?case
    proof (cases rule: parsed_ok_cases)
      case (3 key r)
      show ?thesis
      proof (cases "skip_ws r")
        case (Cons c r1)
        have l1: "length r1 < length r" by (rule skip_ws_Cons [OF Cons])
        show ?thesis
        proof (cases "c = CHR '':''")
          case True
          from Suc.IH(1) [of r1] show ?thesis
          proof (cases rule: parsed_ok_cases)
            case (3 v r2)
            show ?thesis
            proof (cases "skip_ws r2")
              case (Cons d r3)
              have l3: "length r3 < length r2" by (rule skip_ws_Cons [OF Cons])
              have "parsed_ok (2 * length s + 2 \<le> Suc n) (length s) (parse_members stod n r3 (omap_update key v m))"
                by (rule parsed_ok_mono [OF Suc.IH(2)]) (use l1 l3 3 \<open>length r < length (skip_ws s)\<close> ws in auto)
              then show ?thesis using l1 l3 3 \<open>length r < length (skip_ws s)\<close> ws
                \<open>parse_string (skip_ws s) = Inr (key, r)\<close> \<open>skip_ws r = c # r1\<close> Cons True by simp
            qed (use 3 \<open>parse_string (skip_ws s) = Inr (key, r)\<close> \<open>skip_ws r = c # r1\<close> True in simp)
          qed (use \<open>parse_string (skip_ws s) = Inr (key, r)\<close> \<open>length r < length (skip_ws s)\<close> ws l1 Cons True in simp_all)
        qed (use 3 Cons in simp)
      qed (use 3 in simp)
    qed simp_all
  next
    case 3
    from Suc.IH(1) [of s] show ?case
    proof (cases rule: parsed_ok_cases)
      case (3 v r)
      show ?thesis
      proof (cases "skip_ws r")
        case (Cons d r1)
        have l1: "length r1 < length r" by (rule skip_ws_Cons [OF Cons])
        have "parsed_ok (2 * length s + 2 \<le> Suc n) (length s) (parse_elements stod n r1 (vs @ [v]))"
          by (rule parsed_ok_mono [OF Suc.IH(3)]) (use l1 3 in auto)
        then show ?thesis using l1 3 Cons by simp
      qed (use 3 in simp)
    qed simp_all
  }
qed simp_all

text \<open>C36: the parser returns, with a value or one of its errors, on every text: the recursion never goes deeper
  than the bound it starts with.\<close>
theorem parse_returns: "parse_json stod input \<noteq> Inl OutOfFuel"
  using parse_result(1) [of "skip_ws input" "2 * length input + 2" stod] skip_ws_length [of input]
  by (auto simp: parse_json_def elim!: parsed_ok_cases)

subsection \<open>Objects are sorted\<close>

fun json_wf :: "JsonValue \<Rightarrow> bool" where
  "json_wf (JArray vs) = list_all json_wf vs"
| "json_wf (JObject m) = (omap_sorted m \<and> list_all (\<lambda>p. json_wf (snd p)) m)"
| "json_wf v = True"

lemma omap_update_values: "list_all (\<lambda>p. P (snd p)) m \<Longrightarrow> P v \<Longrightarrow> list_all (\<lambda>p. P (snd p)) (omap_update k v m)"
  by (induction k v m rule: omap_update.induct) auto

definition result_wf :: "json_error + (JsonValue \<times> string) \<Rightarrow> bool" where
  "result_wf res = (case res of Inl e \<Rightarrow> True | Inr (v, r) \<Rightarrow> json_wf v)"

lemma result_wf_simps [simp]: "result_wf (Inl e)" "result_wf (Inr (v, r)) \<longleftrightarrow> json_wf v"
  by (simp_all add: result_wf_def)

lemma parse_scalar_wf: "result_wf (parse_bool s)" "result_wf (parse_null s)" "result_wf (parse_number stod s)"
  by (simp_all add: parse_bool_def parse_null_def parse_number_def Let_def split: option.split prod.split)

lemma parse_wf:
  "result_wf (parse_value stod n s)"
  "json_wf (JObject m) \<Longrightarrow> result_wf (parse_members stod n s m)"
  "json_wf (JArray vs) \<Longrightarrow> result_wf (parse_elements stod n s vs)"
proof (induction n arbitrary: s m vs)
  case (Suc n)
  {
    case 1
    show ?case
    proof (cases "skip_ws s")
      case (Cons c r)
      have members: "result_wf (parse_members stod n (skip_ws r) [])"
        and elements: "result_wf (parse_elements stod n (skip_ws r) [])" using Suc.IH by simp_all
      have string: "result_wf (case parse_string (c # r) of Inl e \<Rightarrow> Inl e | Inr (x, r1) \<Rightarrow> Inr (JString x, r1))"
        by (simp split: sum.split prod.split)
      consider "c = CHR ''{''" | "c = CHR ''[''" | "c = dquote" | "c \<notin> {CHR ''{'', CHR ''['', dquote}" by blast
      then show ?thesis
      proof cases
        case 1
        then show ?thesis using members Cons by (cases "skip_ws r") simp_all
      next
        case 2
        then show ?thesis using elements Cons by (cases "skip_ws r") simp_all
      next
        case 3
        then show ?thesis using string Cons by simp
      next
        case 4
        then show ?thesis using Cons parse_scalar_wf by simp
      qed
    qed simp
  next
    case 2
    have step: "json_wf v \<Longrightarrow> json_wf (JObject (omap_update key v m))" for key v
      using 2 by (simp add: omap_update_values)
    show ?case
    proof (cases "parse_string (skip_ws s)")
      case (Inr p)
      obtain key r where p: "p = (key, r)" by (rule prod.exhaust)
      show ?thesis
      proof (cases "skip_ws r")
        case (Cons c r1)
        show ?thesis
        proof (cases "parse_value stod n r1")
          case v: (Inr q)
          obtain v r2 where q: "q = (v, r2)" by (rule prod.exhaust)
          have "json_wf v" using Suc.IH(1) [of r1] by (simp add: v q)
          then have o: "json_wf (JObject (omap_update key v m))" by (rule step)
          with Suc.IH(2) [OF o] show ?thesis by (simp add: Inr p Cons v q split: list.split)
        qed (simp add: Inr p Cons)
      qed (simp add: Inr p)
    qed simp
  next
    case 3
    show ?case
    proof (cases "parse_value stod n s")
      case v: (Inr q)
      obtain v r where q: "q = (v, r)" by (rule prod.exhaust)
      have "json_wf v" using Suc.IH(1) [of s] by (simp add: v q)
      then have o: "json_wf (JArray (vs @ [v]))" using 3 by simp
      with Suc.IH(3) [OF o] show ?thesis by (simp add: v q split: list.split)
    qed simp
  }
qed simp_all

lemma parse_json_wf: "parse_json stod s = Inr v \<Longrightarrow> json_wf v"
  using parse_wf(1) [of stod "2 * length s + 2" "skip_ws s"]
  by (auto simp: parse_json_def result_wf_def split: sum.splits)

lemma json_find_wf: "json_wf v \<Longrightarrow> json_find k v = Some w \<Longrightarrow> json_wf w"
  by (auto simp: json_find_def list_all_iff split: JsonValue.splits dest!: map_of_SomeD)

subsection \<open>The grammar\<close>

definition json_space :: "string \<Rightarrow> bool" where
  "json_space s = list_all json_ws s"

text \<open>What is left of a character that was written with \<open>\u%04x\<close>: the parser does not decode it.\<close>
definition seen_char :: "bool \<Rightarrow> char \<Rightarrow> char" where
  "seen_char short c =
     (if c < CHR 0x20 \<and> c \<notin> {nl, cr, tab} \<and> \<not> (short \<and> c \<in> {CHR 0x08, CHR 0x0C}) then CHR ''?'' else c)"

definition json_literal :: "bool \<Rightarrow> string \<Rightarrow> string" where
  "json_literal short x = [dquote] @ json_escape_with short x @ [dquote]"

text \<open>A character of a string as the grammar has it: itself, one of the eight short escapes, or \<open>\u\<close> and four
  hexadecimal digits.\<close>
datatype json_char = Unescaped char | Escaped char | CodePoint char char char char

definition json_char_ok :: "json_char \<Rightarrow> bool" where
  "json_char_ok i =
     (case i of
        Unescaped c \<Rightarrow> \<not> c < CHR 0x20 \<and> c \<noteq> dquote \<and> c \<noteq> backslash
      | Escaped e \<Rightarrow> unescape_char e \<noteq> None
      | CodePoint a b c d \<Rightarrow> list_all (\<lambda>h. hex_val h \<noteq> None) [a, b, c, d])"

definition char_text :: "json_char \<Rightarrow> string" where
  "char_text i =
     (case i of
        Unescaped c \<Rightarrow> [c]
      | Escaped e \<Rightarrow> [backslash, e]
      | CodePoint a b c d \<Rightarrow> [backslash, CHR ''u'', a, b, c, d])"

text \<open>What the parser takes it for.  The short escapes have the meaning of the grammar; a code point is not decoded but
  replaced by a question mark.\<close>
definition char_read :: "json_char \<Rightarrow> char" where
  "char_read i =
     (case i of Unescaped c \<Rightarrow> c | Escaped e \<Rightarrow> the (unescape_char e) | CodePoint a b c d \<Rightarrow> CHR ''?'')"

definition string_text :: "json_char list \<Rightarrow> string" where
  "string_text is = [dquote] @ concat (map char_text is) @ [dquote]"

text \<open>Numbers: here any characters of numbers, of which those of the grammar are a part.\<close>
definition number_literal :: "string \<Rightarrow> bool" where
  "number_literal s = (s \<noteq> [] \<and> list_all number_char s \<and> (hd s = CHR ''-'' \<or> isdigit (hd s)))"

inductive value_text :: "(string \<Rightarrow> double option) \<Rightarrow> JsonValue \<Rightarrow> string \<Rightarrow> bool"
  and json_elements :: "(string \<Rightarrow> double option) \<Rightarrow> JsonValue list \<Rightarrow> string \<Rightarrow> bool"
  and json_members :: "(string \<Rightarrow> double option) \<Rightarrow> (string \<times> JsonValue) list \<Rightarrow> string \<Rightarrow> bool"
  for stod
where
  text_null: "value_text stod JNull ''null''"
| text_true: "value_text stod (JBool True) ''true''"
| text_false: "value_text stod (JBool False) ''false''"
| text_number: "number_literal s \<Longrightarrow> stod s = Some d \<Longrightarrow> value_text stod (JNumber d) s"
| text_chars: "list_all json_char_ok is \<Longrightarrow> value_text stod (JString (map char_read is)) (string_text is)"
| text_no_elements: "json_space a \<Longrightarrow> value_text stod (JArray []) (''['' @ a @ '']'')"
| text_array: "json_elements stod vs s \<Longrightarrow> value_text stod (JArray vs) (''['' @ s @ '']'')"
| text_no_members: "json_space a \<Longrightarrow> value_text stod (JObject []) (''{'' @ a @ ''}'')"
| text_object: "json_members stod kvs s \<Longrightarrow> value_text stod (JObject (omap_of kvs)) (''{'' @ s @ ''}'')"
| elements_last: "json_space a \<Longrightarrow> value_text stod v t \<Longrightarrow> json_space b \<Longrightarrow> json_elements stod [v] (a @ t @ b)"
| elements_more: "json_space a \<Longrightarrow> value_text stod v t \<Longrightarrow> json_space b \<Longrightarrow> json_elements stod vs u \<Longrightarrow>
    json_elements stod (v # vs) (a @ t @ b @ '','' @ u)"
| members_end: "json_space a \<Longrightarrow> json_space b \<Longrightarrow> json_space c \<Longrightarrow> value_text stod v t \<Longrightarrow> json_space d \<Longrightarrow>
    list_all json_char_ok k \<Longrightarrow> json_members stod [(map char_read k, v)] (a @ string_text k @ b @ '':'' @ c @ t @ d)"
| members_sep: "json_space a \<Longrightarrow> json_space b \<Longrightarrow> json_space c \<Longrightarrow> value_text stod v t \<Longrightarrow> json_space d \<Longrightarrow>
    json_members stod kvs u \<Longrightarrow> list_all json_char_ok k \<Longrightarrow>
    json_members stod ((map char_read k, v) # kvs) (a @ string_text k @ b @ '':'' @ c @ t @ d @ '','' @ u)"

definition rfc_digits :: "string \<Rightarrow> bool" where
  "rfc_digits ds = (ds \<noteq> [] \<and> list_all isdigit ds)"

text \<open>The numbers of RFC 8259: sign, integer part, fraction, exponent.\<close>
definition rfc_number :: "string \<Rightarrow> bool" where
  "rfc_number s =
     (\<exists>sign ip frac expo. s = sign @ ip @ frac @ expo \<and> sign \<in> {[], ''-''} \<and>
        (ip = ''0'' \<or> rfc_digits ip \<and> hd ip \<noteq> CHR ''0'') \<and>
        (frac = [] \<or> (\<exists>ds. frac = ''.'' @ ds \<and> rfc_digits ds)) \<and>
        (expo = [] \<or> (\<exists>e sg ds. expo = e # sg @ ds \<and> e \<in> {CHR ''e'', CHR ''E''} \<and> sg \<in> {[], ''+'', ''-''} \<and> rfc_digits ds)))"

lemma rfc_number_literal:
  assumes "rfc_number s"
  shows "number_literal s"
proof -
  obtain sign ip frac expo where s: "s = sign @ ip @ frac @ expo" "sign \<in> {[], ''-''}" "ip = ''0'' \<or> rfc_digits ip"
      "frac = [] \<or> (\<exists>ds. frac = ''.'' @ ds \<and> rfc_digits ds)"
      "expo = [] \<or> (\<exists>e sg ds. expo = e # sg @ ds \<and> e \<in> {CHR ''e'', CHR ''E''} \<and> sg \<in> {[], ''+'', ''-''} \<and> rfc_digits ds)"
    using assms unfolding rfc_number_def by blast
  have d: "list_all number_char ds" if "rfc_digits ds" for ds
    using that by (auto simp: rfc_digits_def list_all_iff number_char_def)
  have sign: "list_all number_char sign" using s(2) by (auto simp: number_char_def)
  obtain c r where ip: "ip = c # r" "isdigit c" "list_all number_char ip"
    using s(3) d [of ip] by (cases ip) (auto simp: rfc_digits_def isdigit_def number_char_def)
  have frac: "list_all number_char frac" using s(4) d by (auto simp: number_char_def)
  have expo: "list_all number_char expo" using s(5) d by (auto simp: number_char_def)
  have "hd s = CHR ''-'' \<or> isdigit (hd s)" using s(1,2) ip by auto
  then show ?thesis using s(1) sign ip frac expo by (auto simp: number_literal_def)
qed

text \<open>The escaping of the program writes strings of the grammar.\<close>
definition written_char :: "bool \<Rightarrow> char \<Rightarrow> json_char" where
  "written_char short c =
     (if c = dquote \<or> c = backslash then Escaped c
      else if short \<and> c = CHR 0x08 then Escaped (CHR ''b'')
      else if short \<and> c = CHR 0x0C then Escaped (CHR ''f'')
      else if c = nl then Escaped (CHR ''n'')
      else if c = cr then Escaped (CHR ''r'')
      else if c = tab then Escaped (CHR ''t'')
      else if c < CHR 0x20 then (case hex4 c of [h, i, j, k] \<Rightarrow> CodePoint h i j k | _ \<Rightarrow> Unescaped c)
      else Unescaped c)"

lemma hex_digit_read: "n < 16 \<Longrightarrow> hex_val (hex_digit n) \<noteq> None"
  using hex_digit_val [of n] by simp

lemma written_char_ok: "json_char_ok (written_char short c)"
  and written_char_text: "char_text (written_char short c) = json_escape_char short c"
  and written_char_read: "char_read (written_char short c) = seen_char short c"
proof -
  have small: "of_char c div 16 < (16 :: nat)" "of_char c mod 16 < (16 :: nat)"
    using of_char_lt [of c] by (auto simp: div_less_iff_less_mult)
  have zero: "hex_val (CHR ''0'') \<noteq> None" by (simp add: hex_val_def)
  show "json_char_ok (written_char short c)"
    using hex_digit_read [OF small(1)] hex_digit_read [OF small(2)] zero
    by (simp add: written_char_def json_char_ok_def unescape_char_def hex4_def Let_def)
  show "char_text (written_char short c) = json_escape_char short c"
    by (simp add: written_char_def char_text_def json_escape_char_def hex4_def Let_def)
  show "char_read (written_char short c) = seen_char short c"
    by (auto simp: written_char_def char_read_def seen_char_def unescape_char_def hex4_def Let_def)
qed

lemma json_literal_text: "json_literal short x = string_text (map (written_char short) x)"
  by (simp add: json_literal_def string_text_def json_escape_with_def o_def written_char_text)

lemma written_chars: "list_all json_char_ok (map (written_char short) x)" "map char_read (map (written_char short) x) = map (seen_char short) x"
  by (simp_all add: list_all_iff written_char_ok written_char_read)

lemma text_string: "value_text stod (JString (map (seen_char short) x)) (json_literal short x)"
  using text_chars [OF written_chars(1), of stod short x] by (simp only: written_chars(2) json_literal_text)

lemma members_last:
  "json_space a \<Longrightarrow> json_space b \<Longrightarrow> json_space c \<Longrightarrow> value_text stod v t \<Longrightarrow> json_space d \<Longrightarrow>
    json_members stod [(map (seen_char short) k, v)] (a @ json_literal short k @ b @ '':'' @ c @ t @ d)"
  using members_end [OF _ _ _ _ _ written_chars(1), of a b c stod v t d short k]
  by (simp only: written_chars(2) json_literal_text)

lemma members_more:
  "json_space a \<Longrightarrow> json_space b \<Longrightarrow> json_space c \<Longrightarrow> value_text stod v t \<Longrightarrow> json_space d \<Longrightarrow> json_members stod kvs u \<Longrightarrow>
    json_members stod ((map (seen_char short) k, v) # kvs) (a @ json_literal short k @ b @ '':'' @ c @ t @ d @ '','' @ u)"
  using members_sep [OF _ _ _ _ _ _ written_chars(1), of a b c stod v t d kvs u short k]
  by (simp only: written_chars(2) json_literal_text)

lemma escaped_char_unescape: "unescape_char e = Some c \<Longrightarrow> e \<noteq> CHR ''u'' \<and> escaped_char e = c"
  by (auto simp: unescape_char_def escaped_char_def split: if_splits)

lemma parse_char:
  assumes "json_char_ok i"
  shows "parse_string_body out (char_text i @ s) = parse_string_body (out @ [char_read i]) s"
proof (cases i)
  case (Escaped e)
  then obtain c where c: "unescape_char e = Some c" using assms by (auto simp: json_char_ok_def)
  show ?thesis using escaped_char_unescape [OF c] by (simp add: Escaped char_text_def char_read_def c)
qed (use assms in \<open>simp_all add: json_char_ok_def char_text_def char_read_def\<close>)

lemma parse_chars:
  "list_all json_char_ok is \<Longrightarrow> parse_string_body out (concat (map char_text is) @ dquote # s) = Inr (out @ map char_read is, s)"
  by (induction "is" arbitrary: out) (simp_all add: parse_char)

lemma parse_literal: "list_all json_char_ok is \<Longrightarrow> parse_string (string_text is @ s) = Inr (map char_read is, s)"
  by (simp add: parse_string_def string_text_def parse_chars)

lemma skip_space: "json_space a \<Longrightarrow> skip_ws (a @ s) = skip_ws s"
  by (simp add: skip_ws_def json_space_def list_all_iff dropWhile_append)

lemma skip_ws_idem [simp]: "skip_ws (skip_ws s) = skip_ws s"
  by (induction s) (simp_all add: skip_ws_def)

lemma skip_stop [simp]: "\<not> json_ws c \<Longrightarrow> skip_ws (c # s) = c # s"
  by (simp add: skip_ws_def)

lemma parse_skips:
  "parse_value stod n (skip_ws s) = parse_value stod n s"
  "parse_elements stod n (skip_ws s) vs = parse_elements stod n s vs"
  "parse_members stod n (skip_ws s) m = parse_members stod n s m"
proof -
  show v: "parse_value stod n (skip_ws s) = parse_value stod n s" for n by (cases n) simp_all
  show "parse_elements stod n (skip_ws s) vs = parse_elements stod n s vs" by (cases n) (simp_all add: v)
  show "parse_members stod n (skip_ws s) m = parse_members stod n s m" by (cases n) simp_all
qed

text \<open>The first character of the text of a value.\<close>
definition value_start :: "char \<Rightarrow> bool" where
  "value_start c = (c \<in> {CHR ''n'', CHR ''t'', CHR ''f'', CHR ''-'', dquote, CHR ''['', CHR ''{''} \<or> isdigit c)"

lemma value_startD: "value_start c \<Longrightarrow> \<not> json_ws c \<and> c \<noteq> CHR '']'' \<and> c \<noteq> CHR ''}''"
  by (auto simp: value_start_def json_ws_def isdigit_def)

lemma value_text_start: "value_text stod v s \<Longrightarrow> \<exists>c r. s = c # r \<and> value_start c"
proof (induction rule: value_text.cases)
  case (text_number s d)
  then show ?case by (cases s) (auto simp: number_literal_def value_start_def)
qed (auto simp: value_start_def string_text_def)

lemma skip_literal [simp]: "skip_ws (string_text is @ s) = string_text is @ s"
  by (simp add: string_text_def json_ws_def)

text \<open>What may follow a number for the number to end there.\<close>
definition number_end :: "string \<Rightarrow> bool" where
  "number_end s = (case s of [] \<Rightarrow> True | c # r \<Rightarrow> \<not> number_char c)"

lemma number_end_space: "json_space a \<Longrightarrow> number_end s \<Longrightarrow> number_end (a @ s)"
  by (cases a) (auto simp: number_end_def json_space_def json_ws_def number_char_def isdigit_def)

lemma number_end_sep [simp]:
  "number_end (CHR '','' # s)" "number_end (CHR '']'' # s)" "number_end (CHR ''}'' # s)" "number_end []"
  by (simp_all add: number_end_def number_char_def isdigit_def)

lemma parse_number_literal:
  assumes "number_literal s" "stod s = Some d" "number_end rest"
  shows "parse_number stod (s @ rest) = Inr (JNumber d, rest)"
proof -
  have "takeWhile number_char (t @ rest) = t" "dropWhile number_char (t @ rest) = rest" if "list_all number_char t" for t
    using that assms(3)
    by (induction t) (auto simp: number_end_def split: list.splits)
  with assms(1,2) show ?thesis
    by (cases s) (auto simp: parse_number_def number_literal_def)
qed

lemma parse_text:
  "value_text stod v s \<Longrightarrow> number_end rest \<Longrightarrow> 2 * length s + 1 \<le> n \<Longrightarrow>
     parse_value stod n (s @ rest) = Inr (v, rest)"
  "json_elements stod vs s \<Longrightarrow> 2 * length s + 2 \<le> n \<Longrightarrow>
     parse_elements stod n (s @ CHR '']'' # rest) acc = Inr (JArray (acc @ vs), rest) \<and>
     (\<exists>c r. skip_ws (s @ CHR '']'' # rest) = c # r \<and> c \<noteq> CHR '']'')"
  "json_members stod kvs s \<Longrightarrow> 2 * length s + 2 \<le> n \<Longrightarrow>
     parse_members stod n (s @ CHR ''}'' # rest) m = Inr (JObject (fold (\<lambda>(k, v). omap_update k v) kvs m), rest) \<and>
     (\<exists>c r. skip_ws (s @ CHR ''}'' # rest) = c # r \<and> c \<noteq> CHR ''}'')"
proof (induction arbitrary: n rest and n rest acc and n rest m rule: value_text_json_elements_json_members.inducts)
  case text_null
  then show ?case by (cases n) (simp_all add: json_ws_def parse_null_def)
next
  case text_true
  then show ?case by (cases n) (simp_all add: json_ws_def parse_bool_def)
next
  case text_false
  then show ?case by (cases n) (simp_all add: json_ws_def parse_bool_def)
next
  case (text_number s d)
  obtain c r where c: "s = c # r" "c = CHR ''-'' \<or> isdigit c"
    using text_number(1) by (cases s) (auto simp: number_literal_def)
  have "c \<notin> {CHR ''{'', CHR ''['', dquote, CHR ''t'', CHR ''f'', CHR ''n''}" "\<not> json_ws c"
    using c(2) by (auto simp: isdigit_def json_ws_def)
  then show ?case using parse_number_literal [of s stod d rest] text_number c
    by (cases n) auto
next
  case (text_chars cs)
  then show ?case using parse_literal [of cs rest] by (cases n) (simp_all add: string_text_def json_ws_def)
next
  case (text_no_elements a)
  then show ?case
    using skip_space [of a "CHR '']'' # rest"] by (cases n) (simp_all add: json_ws_def)
next
  case (text_array vs s)
  then obtain k where n: "n = Suc k" "2 * length s + 2 \<le> k" by (cases n) auto
  from text_array(2) [OF n(2), of rest "[]"] obtain c r where
    p: "parse_elements stod k (s @ CHR '']'' # rest) [] = Inr (JArray vs, rest)"
      "skip_ws (s @ CHR '']'' # rest) = c # r" "c \<noteq> CHR '']''" by auto
  have "parse_elements stod k (c # r) [] = Inr (JArray vs, rest)"
    using p(1) parse_skips(2) [of stod k "s @ CHR '']'' # rest" "[]"] by (simp add: p(2))
  with p(2,3) show ?case by (simp add: n json_ws_def)
next
  case (text_no_members a)
  then show ?case
    using skip_space [of a "CHR ''}'' # rest"] by (cases n) (simp_all add: json_ws_def)
next
  case (text_object kvs s)
  then obtain k where n: "n = Suc k" "2 * length s + 2 \<le> k" by (cases n) auto
  from text_object(2) [OF n(2), of rest "[]"] obtain c r where
    p: "parse_members stod k (s @ CHR ''}'' # rest) [] = Inr (JObject (omap_of kvs), rest)"
      "skip_ws (s @ CHR ''}'' # rest) = c # r" "c \<noteq> CHR ''}''" by (auto simp: omap_of_def)
  have "parse_members stod k (c # r) [] = Inr (JObject (omap_of kvs), rest)"
    using p(1) parse_skips(3) [of stod k "s @ CHR ''}'' # rest" "[]"] by (simp add: p(2))
  with p(2,3) show ?case by (simp add: n json_ws_def)
next
  case (elements_last a v t b)
  then obtain k where n: "n = Suc k" "2 * length t + 1 \<le> k" by (cases n) auto
  have "parse_value stod k (t @ b @ CHR '']'' # rest) = Inr (v, b @ CHR '']'' # rest)"
    by (rule elements_last.IH(2)) (use elements_last n number_end_space in simp_all)
  then have "parse_value stod k (a @ t @ b @ CHR '']'' # rest) = Inr (v, b @ CHR '']'' # rest)"
    using parse_skips(1) [of stod k "a @ t @ b @ CHR '']'' # rest"] parse_skips(1) [of stod k "t @ b @ CHR '']'' # rest"]
    by (simp add: skip_space [OF elements_last.hyps(1)])
  then show ?case
    using value_text_start [OF elements_last.IH(1)] skip_space [OF elements_last.hyps(2)] skip_space [OF elements_last.hyps(1)]
    by (auto simp: n json_ws_def dest: value_startD)
next
  case (elements_more a v t b vs u)
  then obtain k where n: "n = Suc k" "2 * length t + 1 \<le> k" "2 * length u + 2 \<le> k" by (cases n) auto
  let ?r = "CHR '','' # u @ CHR '']'' # rest"
  have "parse_value stod k (t @ b @ ?r) = Inr (v, b @ ?r)"
    by (rule elements_more.IH(2)) (use elements_more n number_end_space in simp_all)
  then have "parse_value stod k (a @ t @ b @ ?r) = Inr (v, b @ ?r)"
    using parse_skips(1) [of stod k "a @ t @ b @ ?r"] parse_skips(1) [of stod k "t @ b @ ?r"]
    by (simp add: skip_space [OF elements_more.hyps(1)])
  then show ?case
    using value_text_start [OF elements_more.IH(1)] skip_space [OF elements_more.hyps(2)] skip_space [OF elements_more.hyps(1)]
      elements_more.IH(4) [OF n(3), of rest "acc @ [v]"]
    by (auto simp: n json_ws_def dest: value_startD)
next
  case (members_end a b c v t d key)
  then obtain k where n: "n = Suc k" "2 * length t + 1 \<le> k" by (cases n) auto
  let ?r = "CHR ''}'' # rest"
  have "parse_value stod k (t @ d @ ?r) = Inr (v, d @ ?r)"
    by (rule members_end.IH(2)) (use members_end n number_end_space in simp_all)
  then have "parse_value stod k (c @ t @ d @ ?r) = Inr (v, d @ ?r)"
    using parse_skips(1) [of stod k "c @ t @ d @ ?r"] parse_skips(1) [of stod k "t @ d @ ?r"]
    by (simp add: skip_space [OF members_end.hyps(3)])
  then show ?case
    using skip_space [OF members_end.hyps(1)] skip_space [OF members_end.hyps(2)] skip_space [OF members_end.hyps(4)]
    by (simp add: n parse_literal [OF members_end.hyps(5)] json_ws_def) (simp add: string_text_def)
next
  case (members_sep a b c v t d kvs u key)
  then obtain k where n: "n = Suc k" "2 * length t + 1 \<le> k" "2 * length u + 2 \<le> k" by (cases n) auto
  let ?r = "CHR '','' # u @ CHR ''}'' # rest"
  have "parse_value stod k (t @ d @ ?r) = Inr (v, d @ ?r)"
    by (rule members_sep.IH(2)) (use members_sep n number_end_space in simp_all)
  then have "parse_value stod k (c @ t @ d @ ?r) = Inr (v, d @ ?r)"
    using parse_skips(1) [of stod k "c @ t @ d @ ?r"] parse_skips(1) [of stod k "t @ d @ ?r"]
    by (simp add: skip_space [OF members_sep.hyps(3)])
  then show ?case
    using skip_space [OF members_sep.hyps(1)] skip_space [OF members_sep.hyps(2)] skip_space [OF members_sep.hyps(4)]
      members_sep.IH(4) [OF n(3), of rest "omap_update (map char_read key) v m"]
    by (simp add: n parse_literal [OF members_sep.hyps(5)] json_ws_def) (simp add: string_text_def)
qed

lemma parse_grammar_rest:
  assumes "value_text stod v s" "json_space a" "number_end rest"
  shows "parse_value stod (2 * length (a @ s @ rest) + 2) (skip_ws (a @ s @ rest)) = Inr (v, rest)"
proof -
  obtain c r where c: "s = c # r" "value_start c" using value_text_start [OF assms(1)] by blast
  then have "skip_ws (a @ s @ rest) = s @ rest" using value_startD [OF c(2)] by (simp add: skip_space [OF assms(2)])
  moreover have "parse_value stod (2 * length (a @ s @ rest) + 2) (s @ rest) = Inr (v, rest)"
    by (rule parse_text(1) [OF assms(1,3)]) simp
  ultimately show ?thesis by (simp only:)
qed

lemma parse_grammar:
  assumes "value_text stod v s" "json_space a" "number_end rest"
  shows "parse_json stod (a @ s @ rest) = Inr v"
  using parse_grammar_rest [OF assms] by (simp only: parse_json_def sum.case prod.case)

text \<open>C15: the parser reads every text of the grammar of JSON (with every number \<open>stod\<close> can read) as the value it
  stands for, whatever the white space between the tokens, and stops right behind it, whatever follows
  (unless that could continue a number).  Strings come back with their short escapes decoded, but every
  escaped code point has become a question mark; of two members with one name the later one counts.\<close>
theorem parse_reads_grammar:
  assumes "value_text stod v s" "json_space a" "number_end rest"
  shows "parse_value stod (2 * length (a @ s @ rest) + 2) (skip_ws (a @ s @ rest)) = Inr (v, rest) \<and>
    parse_json stod (a @ s @ rest) = Inr v"
  using parse_grammar_rest [OF assms] parse_grammar [OF assms] by blast

subsection \<open>Texts put together with separators\<close>

text \<open>A value, or a member with its name, with white space around it.\<close>
definition json_item :: "(string \<Rightarrow> double option) \<Rightarrow> JsonValue \<Rightarrow> string \<Rightarrow> bool" where
  "json_item stod v t = (\<exists>a u b. t = a @ u @ b \<and> json_space a \<and> json_space b \<and> value_text stod v u)"

definition member_text :: "(string \<Rightarrow> double option) \<Rightarrow> string \<times> JsonValue \<Rightarrow> string \<Rightarrow> bool" where
  "member_text stod p t =
     (\<exists>short x a b c u d. t = a @ json_literal short x @ b @ '':'' @ c @ u @ d \<and> fst p = map (seen_char short) x \<and>
        json_space a \<and> json_space b \<and> json_space c \<and> json_space d \<and> value_text stod (snd p) u)"

lemma json_space_simps [simp]:
  "json_space []" "json_space (c # s) \<longleftrightarrow> json_ws c \<and> json_space s" "json_space (a @ b) \<longleftrightarrow> json_space a \<and> json_space b"
  "json_ws CHR '' ''" "json_ws nl"
  by (auto simp: json_space_def json_ws_def)

lemma json_itemI: "value_text stod v t \<Longrightarrow> json_item stod v t"
  unfolding json_item_def by (intro exI [of _ "[]"] exI [of _ t]) simp

lemma member_textI:
  assumes "value_text stod v u" "json_space a" "json_space c" "json_space d" "k = map (seen_char short) x"
  shows "member_text stod (k, v) (a @ json_literal short x @ '':'' @ c @ u @ d)"
  unfolding member_text_def
  by (intro exI [of _ short] exI [of _ x] exI [of _ a] exI [of _ "[]"] exI [of _ c] exI [of _ u] exI [of _ d]) (simp add: assms)

lemma json_item_pad: "json_item stod v t \<Longrightarrow> json_space a \<Longrightarrow> json_item stod v (a @ t)"
  unfolding json_item_def by (metis append.assoc json_space_simps(3))

lemma elements_join:
  "list_all2 (json_item stod) vs ts \<Longrightarrow> vs \<noteq> [] \<Longrightarrow> json_elements stod vs (join_with '','' ts)"
proof (induction vs ts rule: list_all2_induct)
  case (Cons v vs t ts)
  obtain a u b where t: "t = a @ u @ b" "json_space a" "json_space b" "value_text stod v u"
    using Cons.hyps(1) by (auto simp: json_item_def)
  show ?case
  proof (cases ts)
    case Nil
    then show ?thesis using Cons.hyps(2) elements_last [OF t(2,4,3)] by (simp add: t(1))
  next
    case (Cons t1 ts1)
    have "vs \<noteq> []" using Cons \<open>list_all2 (json_item stod) vs ts\<close> by auto
    from elements_more [OF t(2,4,3) Cons.IH [OF this]] show ?thesis by (simp add: t(1) Cons)
  qed
qed simp

lemma members_join:
  "list_all2 (member_text stod) kvs ts \<Longrightarrow> kvs \<noteq> [] \<Longrightarrow> json_members stod kvs (join_with '','' ts)"
proof (induction kvs ts rule: list_all2_induct)
  case (Cons p kvs t ts)
  obtain short x a b c u d where t: "t = a @ json_literal short x @ b @ '':'' @ c @ u @ d" "fst p = map (seen_char short) x"
      "json_space a" "json_space b" "json_space c" "json_space d" "value_text stod (snd p) u"
    using Cons.hyps(1) by (auto simp: member_text_def)
  have p: "p = (map (seen_char short) x, snd p)" using t(2) by (simp add: prod_eq_iff)
  show ?case
  proof (cases ts)
    case Nil
    then show ?thesis using Cons.hyps(2) members_last [OF t(3,4,5,7,6), of short x] p by (simp add: t(1))
  next
    case (Cons t1 ts1)
    have "kvs \<noteq> []" using Cons \<open>list_all2 (member_text stod) kvs ts\<close> by auto
    from members_more [OF t(3,4,5,7,6) Cons.IH [OF this], of short x] p show ?thesis by (simp add: t(1) Cons)
  qed
qed simp

lemma array_join:
  assumes "list_all2 (json_item stod) vs ts"
  shows "value_text stod (JArray vs) (''['' @ join_with '','' ts @ '']'')"
proof (cases "vs = []")
  case True
  then show ?thesis using assms text_no_elements [of "[]" stod] by simp
next
  case False
  from text_array [OF elements_join [OF assms False]] show ?thesis .
qed

lemma object_join:
  assumes "list_all2 (member_text stod) kvs ts"
  shows "value_text stod (JObject (omap_of kvs)) (''{'' @ join_with '','' ts @ ''}'')"
proof (cases "kvs = []")
  case True
  then show ?thesis using assms text_no_members [of "[]" stod] by (simp add: omap_of_def)
next
  case False
  from text_object [OF members_join [OF assms False]] show ?thesis .
qed

lemma member_text_pad_right:
  assumes "member_text stod p t" "json_space e"
  shows "member_text stod p (t @ e)"
proof -
  obtain short x a b c u d where t: "t = a @ json_literal short x @ b @ '':'' @ c @ u @ d" "fst p = map (seen_char short) x"
      "json_space a" "json_space b" "json_space c" "json_space d" "value_text stod (snd p) u"
    using assms(1) unfolding member_text_def by blast
  show ?thesis
    unfolding member_text_def
    by (intro exI [of _ short] exI [of _ x] exI [of _ a] exI [of _ b] exI [of _ c] exI [of _ u] exI [of _ "d @ e"])
      (simp add: t assms(2))
qed

lemma json_item_pad_right: "json_item stod v t \<Longrightarrow> json_space e \<Longrightarrow> json_item stod v (t @ e)"
  unfolding json_item_def by (metis append.assoc json_space_simps(3))

lemma join_snoc: "join_with d (ts @ [t @ e]) = join_with d (ts @ [t]) @ e"
proof (induction ts)
  case (Cons u ts)
  then show ?case by (cases ts) simp_all
qed simp

text \<open>White space before the closing bracket.\<close>
lemma object_join_space:
  assumes "list_all2 (member_text stod) kvs ts" "json_space e"
  shows "value_text stod (JObject (omap_of kvs)) (''{'' @ join_with '','' ts @ e @ ''}'')"
proof (cases ts rule: rev_cases)
  case Nil
  then show ?thesis using assms text_no_members [of e stod] by (simp add: omap_of_def)
next
  case (snoc us u)
  then obtain ps p where "kvs = ps @ [p]" "list_all2 (member_text stod) ps us" "member_text stod p u"
    using assms(1) by (auto simp: list_all2_append2 list_all2_Cons2)
  then have "list_all2 (member_text stod) kvs (us @ [u @ e])"
    using assms(2) by (simp add: list_all2_appendI member_text_pad_right)
  from object_join [OF this] show ?thesis by (simp add: snoc join_snoc)
qed

lemma array_join_space:
  assumes "list_all2 (json_item stod) vs ts" "json_space e"
  shows "value_text stod (JArray vs) (''['' @ join_with '','' ts @ e @ '']'')"
proof (cases ts rule: rev_cases)
  case Nil
  then show ?thesis using assms text_no_elements [of e stod] by simp
next
  case (snoc us u)
  then obtain ps p where "vs = ps @ [p]" "list_all2 (json_item stod) ps us" "json_item stod p u"
    using assms(1) by (auto simp: list_all2_append2 list_all2_Cons2)
  then have "list_all2 (json_item stod) vs (us @ [u @ e])"
    using assms(2) by (simp add: list_all2_appendI json_item_pad_right)
  from array_join [OF this] show ?thesis by (simp add: snoc join_snoc)
qed

lemma join_sep: "join_with ('','' @ w) (t # ts) = join_with '','' (t # map (\<lambda>u. w @ u) ts)"
proof (induction ts arbitrary: t)
  case (Cons u ts)
  show ?case
  proof (cases ts)
    case (Cons v vs)
    then show ?thesis using Cons.IH [of u] by (cases vs) simp_all
  qed simp
qed simp

lemma join_append: "xs \<noteq> [] \<Longrightarrow> ys \<noteq> [] \<Longrightarrow> join_with d (xs @ ys) = join_with d xs @ d @ join_with d ys"
proof (induction xs)
  case (Cons x xs)
  then show ?case by (cases xs; cases ys) simp_all
qed simp

lemma join_prefix: "join_with d ((a @ t) # ts) = a @ join_with d (t # ts)"
  by (cases ts) simp_all

lemma member_text_pad:
  assumes "member_text stod p t" "json_space e"
  shows "member_text stod p (e @ t)"
proof -
  obtain short x a b c u d where t: "t = a @ json_literal short x @ b @ '':'' @ c @ u @ d" "fst p = map (seen_char short) x"
      "json_space a" "json_space b" "json_space c" "json_space d" "value_text stod (snd p) u"
    using assms(1) unfolding member_text_def by blast
  show ?thesis
    unfolding member_text_def
    by (intro exI [of _ short] exI [of _ x] exI [of _ "e @ a"] exI [of _ b] exI [of _ c] exI [of _ u] exI [of _ d])
      (simp add: t assms(2))
qed

text \<open>White space after the opening bracket, after the separators and before the closing bracket.\<close>
lemma object_join_pads:
  assumes "list_all2 (member_text stod) kvs ts" "json_space a" "json_space w" "json_space e"
  shows "value_text stod (JObject (omap_of kvs)) (''{'' @ a @ join_with ('','' @ w) ts @ e @ ''}'')"
proof (cases ts)
  case Nil
  then show ?thesis using assms text_no_members [of "a @ e" stod] by (simp add: omap_of_def)
next
  case (Cons t us)
  then have "list_all2 (member_text stod) kvs ((a @ t) # map (\<lambda>u. w @ u) us)"
    using assms list_all2_mono [of "member_text stod" _ us "\<lambda>x y. member_text stod x (w @ y)"]
    by (auto simp: list_all2_Cons2 list_all2_map2 member_text_pad)
  from object_join_space [OF this assms(4)] show ?thesis by (simp add: Cons join_sep [of w, simplified] join_prefix)
qed

lemma array_join_pads:
  assumes "list_all2 (json_item stod) vs ts" "json_space a" "json_space w" "json_space e"
  shows "value_text stod (JArray vs) (''['' @ a @ join_with ('','' @ w) ts @ e @ '']'')"
proof (cases ts)
  case Nil
  then show ?thesis using assms text_no_elements [of "a @ e" stod] by simp
next
  case (Cons t us)
  then have "list_all2 (json_item stod) vs ((a @ t) # map (\<lambda>u. w @ u) us)"
    using assms list_all2_mono [of "json_item stod" _ us "\<lambda>x y. json_item stod x (w @ y)"]
    by (auto simp: list_all2_Cons2 list_all2_map2 json_item_pad)
  from array_join_space [OF this assms(4)] show ?thesis by (simp add: Cons join_sep [of w, simplified] join_prefix)
qed

lemma number_nat_str: "number_literal (nat_str n)"
proof -
  have "list_all isdigit (nat_str n)" using nat_str_digits by (auto simp: list_all_iff)
  then have "isdigit (hd (nat_str n))" "list_all number_char (nat_str n)"
    by (cases "nat_str n"; auto simp: list_all_iff number_char_def)+
  then show ?thesis by (simp add: number_literal_def)
qed

definition int_stod :: "string \<Rightarrow> double option" where
  "int_stod s = map_option (\<lambda>i. Fin (of_int i)) (stoi s)"

text \<open>The text \<open>{"a\n": [true, "\u0041b"]}\<close>: its string is read as \<open>?b\<close>, not as \<open>Ab\<close>.\<close>
lemma parse_reads_grammar_witness:
  "parse_json int_stod
     ('' {'' @ string_text [Unescaped (CHR ''a''), Escaped (CHR ''n'')] @ '': [true, '' @
        string_text [CodePoint (CHR ''0'') (CHR ''0'') (CHR ''4'') (CHR ''1''), Unescaped (CHR ''b'')] @ '']} rest'') =
   Inr (JObject [(''a'' @ [nl], JArray [JBool True, JString ''?b''])])"
proof -
  let ?k = "[Unescaped (CHR ''a''), Escaped (CHR ''n'')]"
  let ?u = "[CodePoint (CHR ''0'') (CHR ''0'') (CHR ''4'') (CHR ''1''), Unescaped (CHR ''b'')]"
  have ok: "list_all json_char_ok ?k" "list_all json_char_ok ?u" by code_simp+
  have read: "map char_read ?k = ''a'' @ [nl]" "map char_read ?u = ''?b''"
    by (simp_all add: char_read_def unescape_char_def)
  have sp: "json_space []" "json_space '' ''" by (simp_all add: json_space_def json_ws_def)
  have "json_elements int_stod [JString ''?b''] ('' '' @ string_text ?u @ [])"
    using elements_last [OF sp(2) text_chars [OF ok(2)] sp(1), of int_stod] by (simp only: read(2))
  from elements_more [OF sp(1) text_true sp(1) this] text_array
  have arr: "value_text int_stod (JArray [JBool True, JString ''?b'']) (''['' @ ([] @ ''true'' @ [] @ '','' @ '' '' @ string_text ?u @ []) @ '']'')"
    by blast
  have "json_members int_stod [(''a'' @ [nl], JArray [JBool True, JString ''?b''])]
      ([] @ string_text ?k @ [] @ '':'' @ '' '' @ (''['' @ ([] @ ''true'' @ [] @ '','' @ '' '' @ string_text ?u @ []) @ '']'') @ [])"
    using members_end [OF sp(1) sp(1) sp(2) arr sp(1) ok(1)] by (simp only: read(1))
  from text_object [OF this]
  have doc: "value_text int_stod (JObject [(''a'' @ [nl], JArray [JBool True, JString ''?b''])])
      (''{'' @ string_text ?k @ '': [true, '' @ string_text ?u @ '']}'')" by (simp add: omap_of_def)
  from parse_reads_grammar [OF doc sp(2), of "'' rest''"] show ?thesis
    by (simp add: number_end_def number_char_def isdigit_def)
qed

end
