(* ===== verification/Snapshot_Diff.thy ===== *)
theory Snapshot_Diff
  imports Json_Parser File_System
begin

text \<open>
  \<open>snapshot_diff/snapshot_diff.cpp\<close>: the comparison of two snapshot files.  The output of a stream for a
  \<open>double\<close> (six significant digits) is the parameter \<open>nt\<close>; \<open>run\<close> returns the exit code and what is written
  to the standard output and to the standard error.
\<close>

record DiffOptions =
  do_path_a :: string
  do_path_b :: string
  do_json :: bool
  do_verbose :: bool

definition kMaxFileSize :: int where
  "kMaxFileSize = 100 * 1024 * 1024"

definition read_file :: "file_system \<Rightarrow> string \<Rightarrow> string option" where
  "read_file fs path =
     (case fs_files fs path of
        None \<Rightarrow> None
      | Some c \<Rightarrow> if int (length c) > kMaxFileSize then None else Some c)"

definition json_escape_str :: "string \<Rightarrow> string" where
  "json_escape_str s = json_escape_with False s"

definition scalar_to_string :: "(double \<Rightarrow> string) \<Rightarrow> JsonValue \<Rightarrow> string" where
  "scalar_to_string nt v =
     (case v of
        JString s \<Rightarrow> s | JNumber d \<Rightarrow> nt d | JBool b \<Rightarrow> (if b then ''true'' else ''false'') | JNull \<Rightarrow> ''null''
      | _ \<Rightarrow> ''<complex>'')"

definition field_text :: "(double \<Rightarrow> string) \<Rightarrow> (string \<times> JsonValue) list \<Rightarrow> string \<Rightarrow> string" where
  "field_text nt obj k = (case map_of obj k of None \<Rightarrow> [] | Some v \<Rightarrow> scalar_to_string nt v)"

definition extract_key :: "(double \<Rightarrow> string) \<Rightarrow> (string \<times> JsonValue) list \<Rightarrow> string" where
  "extract_key nt obj =
     (let get = field_text nt obj in
      if get ''pid'' \<noteq> [] then ''pid:'' @ get ''pid''
      else if get ''port'' \<noteq> [] then ''port:'' @ get ''protocol'' @ '':'' @ get ''address'' @ '':'' @ get ''port''
      else if get ''device'' \<noteq> [] \<or> get ''mount_point'' \<noteq> []
      then ''disk:'' @ get ''mount_point'' @ ''('' @ get ''device'' @ '')''
      else if get ''local_address'' \<noteq> [] \<or> get ''remote_address'' \<noteq> []
      then ''conn:'' @ get ''local_address'' @ ''->'' @ get ''remote_address''
      else if get ''name'' \<noteq> [] then ''name:'' @ get ''name''
      else concat (map (\<lambda>(k, v). if is_string v \<or> is_number v then k @ ''='' @ scalar_to_string nt v @ '';'' else []) obj))"

text \<open>\<open>emplace\<close> keeps the first object with a key.\<close>
definition index_array :: "(double \<Rightarrow> string) \<Rightarrow> JsonValue \<Rightarrow> (string, (string \<times> JsonValue) list) omap" where
  "index_array nt arr =
     (case arr of
        JArray items \<Rightarrow>
          fold (\<lambda>item out.
            case item of
              JObject obj \<Rightarrow>
                (let k = extract_key nt obj
                 in if k = [] \<or> map_of out k \<noteq> None then out else omap_update k obj out)
            | _ \<Rightarrow> out) items []
      | _ \<Rightarrow> [])"

definition is_scalar :: "JsonValue \<Rightarrow> bool" where
  "is_scalar v = (\<not> is_object v \<and> \<not> is_array v)"

definition diff_fields ::
    "(double \<Rightarrow> string) \<Rightarrow> (string \<times> JsonValue) list \<Rightarrow> (string \<times> JsonValue) list \<Rightarrow> string list" where
  "diff_fields nt a b =
     concat (map (\<lambda>(k, va).
        case map_of b k of
          None \<Rightarrow> [k @ '' (removed)'']
        | Some vb \<Rightarrow>
            if is_scalar va \<and> scalar_to_string nt va \<noteq> scalar_to_string nt vb
            then [k @ '': '' @ scalar_to_string nt va @ '' -> '' @ scalar_to_string nt vb] else []) a) @
     concat (map (\<lambda>(k, vb). if map_of a k = None then [k @ '' (added: '' @ scalar_to_string nt vb @ '')''] else []) b)"

record SectionDiff =
  sd_added :: "string list"
  sd_removed :: "string list"
  sd_changed :: "(string \<times> string) list"

definition diff_array_section :: "(double \<Rightarrow> string) \<Rightarrow> JsonValue \<Rightarrow> JsonValue \<Rightarrow> SectionDiff" where
  "diff_array_section nt a b =
     (let idx_a = index_array nt a; idx_b = index_array nt b in
      \<lparr> sd_added = map fst (filter (\<lambda>(k, vb). map_of idx_a k = None) idx_b),
        sd_removed = map fst (filter (\<lambda>(k, va). map_of idx_b k = None) idx_a),
        sd_changed = concat (map (\<lambda>(k, va).
          case map_of idx_b k of
            None \<Rightarrow> []
          | Some vb \<Rightarrow>
              (let fields = diff_fields nt va vb
               in if fields = [] then [] else [(k, join_with ''; '' fields)])) idx_a) \<rparr>)"

definition diff_object_section :: "(double \<Rightarrow> string) \<Rightarrow> JsonValue \<Rightarrow> JsonValue \<Rightarrow> (string \<times> string) list" where
  "diff_object_section nt a b =
     (case (a, b) of
        (JObject oa, JObject ob) \<Rightarrow> map (\<lambda>f. (''(field)'', f)) (diff_fields nt oa ob)
      | _ \<Rightarrow> [])"

definition extract_snapshot :: "JsonValue \<Rightarrow> JsonValue option" where
  "extract_snapshot doc = json_find ''snapshot'' doc"

definition extract_sections :: "JsonValue option \<Rightarrow> JsonValue option" where
  "extract_sections snap = Option.bind snap (json_find ''sections'')"

definition extract_meta_field :: "JsonValue option \<Rightarrow> string \<Rightarrow> JsonValue option" where
  "extract_meta_field snap key = Option.bind snap (json_find key)"

subsection \<open>The comparison\<close>

record SectionResult =
  dr_name :: string
  dr_is_array :: bool
  dr_array_diff :: SectionDiff
  dr_obj_diff :: "(string \<times> string) list"

definition no_section_diff :: SectionDiff where
  "no_section_diff = \<lparr> sd_added = [], sd_removed = [], sd_changed = [] \<rparr>"

definition diff_sections :: "(string \<times> bool) list" where
  "diff_sections =
     [(''system'', False), (''disks'', True), (''processes'', True), (''connections'', True),
      (''listening_ports'', True), (''environment'', False)]"

text \<open>The loop over the sections: the results, and whether one of them set \<open>any_diff\<close>.\<close>
fun diff_loop :: "(double \<Rightarrow> string) \<Rightarrow> JsonValue \<Rightarrow> JsonValue \<Rightarrow> (string \<times> bool) list \<Rightarrow> SectionResult list \<times> bool" where
  "diff_loop nt secs_a secs_b [] = ([], False)"
| "diff_loop nt secs_a secs_b ((name, arr) # rest) =
     (let (rs, differs) = diff_loop nt secs_a secs_b rest;
          r = \<lparr> dr_name = name, dr_is_array = arr, dr_array_diff = no_section_diff, dr_obj_diff = [] \<rparr>
      in case (json_find name secs_a, json_find name secs_b) of
           (None, None) \<Rightarrow> (rs, differs)
         | (None, Some vb) \<Rightarrow> (r\<lparr>dr_obj_diff := [(''(section)'', ''added in B'')]\<rparr> # rs, True)
         | (Some va, None) \<Rightarrow> (r\<lparr>dr_obj_diff := [(''(section)'', ''removed in B'')]\<rparr> # rs, True)
         | (Some va, Some vb) \<Rightarrow>
             if arr
             then (let d = diff_array_section nt va vb
                   in (r\<lparr>dr_array_diff := d\<rparr> # rs, sd_added d \<noteq> [] \<or> sd_removed d \<noteq> [] \<or> sd_changed d \<noteq> [] \<or> differs))
             else (let d = diff_object_section nt va vb in (r\<lparr>dr_obj_diff := d\<rparr> # rs, d \<noteq> [] \<or> differs)))"

definition meta_keys :: "string list" where
  "meta_keys = [''host'', ''platform'', ''architecture'', ''user'', ''uptime_seconds'']"

definition meta_diff :: "(double \<Rightarrow> string) \<Rightarrow> JsonValue option \<Rightarrow> JsonValue option \<Rightarrow> string \<Rightarrow> (string \<times> string) list" where
  "meta_diff nt snap_a snap_b k =
     (case (extract_meta_field snap_a k, extract_meta_field snap_b k) of
        (Some va, Some vb) \<Rightarrow>
          if scalar_to_string nt va \<noteq> scalar_to_string nt vb
          then [(k, scalar_to_string nt va @ '' -> '' @ scalar_to_string nt vb)] else []
      | (Some va, None) \<Rightarrow> [(k, ''removed'')]
      | (None, Some vb) \<Rightarrow> [(k, ''added: '' @ scalar_to_string nt vb)]
      | (None, None) \<Rightarrow> [])"

definition meta_diffs :: "(double \<Rightarrow> string) \<Rightarrow> JsonValue option \<Rightarrow> JsonValue option \<Rightarrow> (string \<times> string) list" where
  "meta_diffs nt snap_a snap_b = concat (map (meta_diff nt snap_a snap_b) meta_keys)"

definition snapshot_ts :: "(double \<Rightarrow> string) \<Rightarrow> JsonValue option \<Rightarrow> string" where
  "snapshot_ts nt snap =
     (case extract_meta_field snap ''timestamp'' of Some v \<Rightarrow> scalar_to_string nt v | None \<Rightarrow> ''?'')"

subsection \<open>The reports\<close>

definition dq :: "string \<Rightarrow> string" where
  "dq s = [dquote] @ s @ [dquote]"

definition change_object :: "string \<Rightarrow> string \<times> string \<Rightarrow> string" where
  "change_object key p =
     ''{'' @ dq key @ '':'' @ dq (json_escape_str (fst p)) @ '','' @ dq ''change'' @ '':'' @ dq (json_escape_str (snd p)) @ ''}''"

definition json_array_body :: "bool \<Rightarrow> SectionDiff \<Rightarrow> string" where
  "json_array_body verbose d =
     dq ''added'' @ '':'' @ nat_str (length (sd_added d)) @ '','' @
     dq ''removed'' @ '':'' @ nat_str (length (sd_removed d)) @ '','' @
     dq ''changed'' @ '':'' @ nat_str (length (sd_changed d)) @
     (if verbose
      then '','' @ dq ''added_items'' @ '':['' @ join_with '','' (map (\<lambda>k. dq (json_escape_str k)) (sd_added d)) @
           ''],'' @ dq ''removed_items'' @ '':['' @ join_with '','' (map (\<lambda>k. dq (json_escape_str k)) (sd_removed d)) @
           ''],'' @ dq ''changed_items'' @ '':['' @ join_with '','' (map (change_object ''key'') (sd_changed d)) @ '']''
      else [])"

definition json_object_body :: "bool \<Rightarrow> (string \<times> string) list \<Rightarrow> string" where
  "json_object_body verbose d =
     dq ''changed'' @ '':'' @ nat_str (length d) @
     (if verbose then '','' @ dq ''items'' @ '':['' @ join_with '','' (map (change_object ''field'') d) @ '']'' else [])"

definition json_section :: "bool \<Rightarrow> SectionResult \<Rightarrow> string" where
  "json_section verbose r =
     [nl] @ ''    '' @ dq (dr_name r) @ '': {'' @
     (if dr_is_array r then json_array_body verbose (dr_array_diff r) else json_object_body verbose (dr_obj_diff r)) @ ''}''"

definition json_report ::
    "bool \<Rightarrow> string \<Rightarrow> string \<Rightarrow> bool \<Rightarrow> (string \<times> string) list \<Rightarrow> SectionResult list \<Rightarrow> string" where
  "json_report verbose ts_a ts_b any_diff metas results =
     ''{'' @ [nl] @
     ''  '' @ dq ''snapshot_a'' @ '': '' @ dq (json_escape_str ts_a) @ '','' @ [nl] @
     ''  '' @ dq ''snapshot_b'' @ '': '' @ dq (json_escape_str ts_b) @ '','' @ [nl] @
     ''  '' @ dq ''has_differences'' @ '': '' @ (if any_diff then ''true'' else ''false'') @ '','' @ [nl] @
     ''  '' @ dq ''metadata'' @ '': ['' @ join_with '', '' (map (change_object ''field'') metas) @ ''],'' @ [nl] @
     ''  '' @ dq ''sections'' @ '': {'' @ join_with '','' (map (json_section verbose) results) @
     [nl] @ ''  }'' @ [nl] @ ''}'' @ [nl]"

definition text_rule :: "char \<Rightarrow> string" where
  "text_rule c = replicate 62 c @ [nl]"

definition text_section :: "bool \<Rightarrow> SectionResult \<Rightarrow> string" where
  "text_section verbose r =
     '' ['' @ dr_name r @ '']'' @ [nl] @
     (if dr_is_array r then
        (let d = dr_array_diff r in
         ''   '' @ [CHR 0xE6, CHR 0x96, CHR 0xB0, CHR 0xE5, CHR 0xA2, CHR 0x9E] @ '': '' @ nat_str (length (sd_added d)) @ ''  '' @ [CHR 0xE7, CHR 0xA7, CHR 0xBB, CHR 0xE9, CHR 0x99, CHR 0xA4] @ '': '' @ nat_str (length (sd_removed d)) @
         ''  '' @ [CHR 0xE5, CHR 0x8F, CHR 0x98, CHR 0xE6, CHR 0x9B, CHR 0xB4] @ '': '' @ nat_str (length (sd_changed d)) @ [nl] @
         (if verbose
          then concat (map (\<lambda>k. ''     + '' @ k @ [nl]) (sd_added d)) @
               concat (map (\<lambda>k. ''     - '' @ k @ [nl]) (sd_removed d)) @
               concat (map (\<lambda>(k, desc). ''     ~ '' @ k @ ''  ('' @ desc @ '')'' @ [nl]) (sd_changed d))
          else []))
      else
        ''   '' @ [CHR 0xE5, CHR 0x8F, CHR 0x98, CHR 0xE6, CHR 0x9B, CHR 0xB4, CHR 0xE5, CHR 0xAD, CHR 0x97, CHR 0xE6, CHR 0xAE, CHR 0xB5, CHR 0xE6, CHR 0x95, CHR 0xB0] @ '': '' @ nat_str (length (dr_obj_diff r)) @ [nl] @
        (if verbose then concat (map (\<lambda>(k, desc). ''     ~ '' @ desc @ [nl]) (dr_obj_diff r)) else []))"

definition text_report ::
    "DiffOptions \<Rightarrow> string \<Rightarrow> string \<Rightarrow> bool \<Rightarrow> (string \<times> string) list \<Rightarrow> SectionResult list \<Rightarrow> string" where
  "text_report opts ts_a ts_b any_diff metas results =
     text_rule (CHR ''='') @ '' change-of-system '' @ [CHR 0xE5, CHR 0xBF, CHR 0xAB, CHR 0xE7, CHR 0x85, CHR 0xA7, CHR 0xE5, CHR 0xB7, CHR 0xAE, CHR 0xE5, CHR 0xBC, CHR 0x82, CHR 0xE5, CHR 0xAF, CHR 0xB9, CHR 0xE6, CHR 0xAF, CHR 0x94] @ [nl] @ text_rule (CHR ''='') @
     '' '' @ [CHR 0xE5, CHR 0xBF, CHR 0xAB, CHR 0xE7, CHR 0x85, CHR 0xA7] @ '' A: '' @ do_path_a opts @ ''  ('' @ ts_a @ '')'' @ [nl] @
     '' '' @ [CHR 0xE5, CHR 0xBF, CHR 0xAB, CHR 0xE7, CHR 0x85, CHR 0xA7] @ '' B: '' @ do_path_b opts @ ''  ('' @ ts_b @ '')'' @ [nl] @
     text_rule (CHR ''-'') @
     (if metas = [] then []
      else '' '' @ [CHR 0xE5, CHR 0x85, CHR 0x83, CHR 0xE6, CHR 0x95, CHR 0xB0, CHR 0xE6, CHR 0x8D, CHR 0xAE, CHR 0xE5, CHR 0x8F, CHR 0x98, CHR 0xE6, CHR 0x9B, CHR 0xB4] @ '':'' @ [nl] @ concat (map (\<lambda>(k, v). ''   '' @ k @ '': '' @ v @ [nl]) metas) @ text_rule (CHR ''-'')) @
     (if results = [] then '' '' @ [CHR 0xE6, CHR 0x9C, CHR 0xAA, CHR 0xE5, CHR 0x8F, CHR 0x91, CHR 0xE7, CHR 0x8E, CHR 0xB0, CHR 0xE4, CHR 0xBB, CHR 0xBB, CHR 0xE4, CHR 0xBD, CHR 0x95, CHR 0xE5, CHR 0x8F, CHR 0xAF, CHR 0xE6, CHR 0xAF, CHR 0x94, CHR 0xE8, CHR 0xBE, CHR 0x83, CHR 0xE7, CHR 0x9A, CHR 0x84] @ '' section'' @ [CHR 0xE3, CHR 0x80, CHR 0x82] @ [nl] else []) @
     concat (map (text_section (do_verbose opts)) results) @
     text_rule (CHR ''-'') @
     '' '' @ [CHR 0xE7, CHR 0xBB, CHR 0x93, CHR 0xE8, CHR 0xAE, CHR 0xBA] @ '': '' @ (if any_diff then [CHR 0xE5, CHR 0xAD, CHR 0x98, CHR 0xE5, CHR 0x9C, CHR 0xA8, CHR 0xE5, CHR 0xB7, CHR 0xAE, CHR 0xE5, CHR 0xBC, CHR 0x82] else [CHR 0xE6, CHR 0x97, CHR 0xA0, CHR 0xE5, CHR 0xB7, CHR 0xAE, CHR 0xE5, CHR 0xBC, CHR 0x82]) @ [nl] @
     text_rule (CHR ''='')"

definition error_text :: string where
  "error_text = [CHR 0xE9, CHR 0x94, CHR 0x99, CHR 0xE8, CHR 0xAF, CHR 0xAF] @ '': ''"

definition unreadable :: "file_system \<Rightarrow> string \<Rightarrow> string \<Rightarrow> string" where
  "unreadable fs which path =
     error_text @ [CHR 0xE6, CHR 0x97, CHR 0xA0, CHR 0xE6, CHR 0xB3, CHR 0x95, CHR 0xE8, CHR 0xAF, CHR 0xBB, CHR 0xE5, CHR 0x8F, CHR 0x96, CHR 0xE5, CHR 0xBF, CHR 0xAB, CHR 0xE7, CHR 0x85, CHR 0xA7] @ '' '' @ which @ '': '' @ path @
     (case fs_files fs path of
        Some c \<Rightarrow>
          if int (length c) > kMaxFileSize
          then [CHR 0xEF, CHR 0xBC, CHR 0x88, CHR 0xE6, CHR 0x96, CHR 0x87, CHR 0xE4, CHR 0xBB, CHR 0xB6, CHR 0xE8, CHR 0xBF, CHR 0x87, CHR 0xE5, CHR 0xA4, CHR 0xA7] @ '': '' @ int_str (int (length c) div (1024 * 1024)) @ ''MB'' @ [CHR 0xEF, CHR 0xBC, CHR 0x8C, CHR 0xE4, CHR 0xB8, CHR 0x8A, CHR 0xE9, CHR 0x99, CHR 0x90] @ '' '' @
               int_str (kMaxFileSize div (1024 * 1024)) @ ''MB'' @ [CHR 0xEF, CHR 0xBC, CHR 0x89]
          else []
      | None \<Rightarrow> []) @ [nl]"

definition parse_failure :: "string \<Rightarrow> json_error \<Rightarrow> string" where
  "parse_failure which e =
     error_text @ [CHR 0xE5, CHR 0xBF, CHR 0xAB, CHR 0xE7, CHR 0x85, CHR 0xA7] @ '' '' @ which @ '' JSON '' @ [CHR 0xE8, CHR 0xA7, CHR 0xA3, CHR 0xE6, CHR 0x9E, CHR 0x90, CHR 0xE5, CHR 0xA4, CHR 0xB1, CHR 0xE8, CHR 0xB4, CHR 0xA5] @ '': '' @ (case e of Syntax m \<Rightarrow> m | OutOfFuel \<Rightarrow> []) @ [nl]"

definition diff_output ::
    "(double \<Rightarrow> string) \<Rightarrow> DiffOptions \<Rightarrow> JsonValue option \<Rightarrow> JsonValue option \<Rightarrow> JsonValue \<Rightarrow> JsonValue \<Rightarrow> int \<times> string \<times> string" where
  "diff_output nt opts snap_a snap_b secs_a secs_b =
     (let ts_a = snapshot_ts nt snap_a;
          ts_b = snapshot_ts nt snap_b;
          (results, differs) = diff_loop nt secs_a secs_b diff_sections;
          metas = meta_diffs nt snap_a snap_b;
          any_diff = (differs \<or> metas \<noteq> [])
      in (if any_diff then 1 else 0,
          if do_json opts then json_report (do_verbose opts) ts_a ts_b any_diff metas results
          else text_report opts ts_a ts_b any_diff metas results,
          []))"

definition diff_run ::
    "(string \<Rightarrow> double option) \<Rightarrow> (double \<Rightarrow> string) \<Rightarrow> file_system \<Rightarrow> DiffOptions \<Rightarrow> int \<times> string \<times> string" where
  "diff_run stod nt fs opts =
     (if do_path_a opts = [] \<or> do_path_b opts = []
      then (2, [], error_text @ [CHR 0xE9, CHR 0x9C, CHR 0x80, CHR 0xE8, CHR 0xA6, CHR 0x81, CHR 0xE4, CHR 0xB8, CHR 0xA4, CHR 0xE4, CHR 0xB8, CHR 0xAA, CHR 0xE5, CHR 0xBF, CHR 0xAB, CHR 0xE7, CHR 0x85, CHR 0xA7, CHR 0xE6, CHR 0x96, CHR 0x87, CHR 0xE4, CHR 0xBB, CHR 0xB6, CHR 0xE8, CHR 0xB7, CHR 0xAF, CHR 0xE5, CHR 0xBE, CHR 0x84] @ [nl])
      else case read_file fs (do_path_a opts) of
        None \<Rightarrow> (2, [], unreadable fs ''A'' (do_path_a opts))
      | Some text_a \<Rightarrow>
      (case read_file fs (do_path_b opts) of
        None \<Rightarrow> (2, [], unreadable fs ''B'' (do_path_b opts))
      | Some text_b \<Rightarrow>
      (case parse_json stod text_a of
        Inl e \<Rightarrow> (2, [], parse_failure ''A'' e)
      | Inr root_a \<Rightarrow>
      (case parse_json stod text_b of
        Inl e \<Rightarrow> (2, [], parse_failure ''B'' e)
      | Inr root_b \<Rightarrow>
          (let snap_a = extract_snapshot root_a; snap_b = extract_snapshot root_b in
           if snap_a = None \<or> snap_b = None
           then (2, [], error_text @ [CHR 0xE5, CHR 0xBF, CHR 0xAB, CHR 0xE7, CHR 0x85, CHR 0xA7, CHR 0xE7, CHR 0xBC, CHR 0xBA, CHR 0xE5, CHR 0xB0, CHR 0x91] @ '' '' @ [CHR 0x27] @ ''snapshot'' @ [CHR 0x27] @ '' '' @ [CHR 0xE9, CHR 0xA1, CHR 0xB6, CHR 0xE5, CHR 0xB1, CHR 0x82, CHR 0xE5, CHR 0xAF, CHR 0xB9, CHR 0xE8, CHR 0xB1, CHR 0xA1] @ [nl])
           else case (extract_sections snap_a, extract_sections snap_b) of
                  (Some secs_a, Some secs_b) \<Rightarrow> diff_output nt opts snap_a snap_b secs_a secs_b
                | _ \<Rightarrow> (2, [], error_text @ [CHR 0xE5, CHR 0xBF, CHR 0xAB, CHR 0xE7, CHR 0x85, CHR 0xA7, CHR 0xE7, CHR 0xBC, CHR 0xBA, CHR 0xE5, CHR 0xB0, CHR 0x91] @ '' '' @ [CHR 0x27] @ ''sections'' @ [CHR 0x27] @ '' '' @ [CHR 0xE5, CHR 0xAD, CHR 0x97, CHR 0xE6, CHR 0xAE, CHR 0xB5] @ [nl]))))))"

subsection \<open>What a difference is\<close>

text \<open>Two objects agree if they have the same fields and every scalar field of the first has the text of the
  second's; a field that is an array or an object in the first agrees with anything.\<close>
definition fields_agree :: "(double \<Rightarrow> string) \<Rightarrow> JsonValue option \<Rightarrow> JsonValue option \<Rightarrow> bool" where
  "fields_agree nt va vb =
     (case (va, vb) of
        (None, None) \<Rightarrow> True
      | (Some x, Some y) \<Rightarrow> \<not> is_scalar x \<or> scalar_to_string nt x = scalar_to_string nt y
      | _ \<Rightarrow> False)"

definition objects_agree :: "(double \<Rightarrow> string) \<Rightarrow> (string \<times> JsonValue) list \<Rightarrow> (string \<times> JsonValue) list \<Rightarrow> bool" where
  "objects_agree nt a b = (\<forall>k. fields_agree nt (map_of a k) (map_of b k))"

definition entries_agree :: "(double \<Rightarrow> string) \<Rightarrow> (string \<times> JsonValue) list option \<Rightarrow> (string \<times> JsonValue) list option \<Rightarrow> bool" where
  "entries_agree nt ea eb =
     (case (ea, eb) of (None, None) \<Rightarrow> True | (Some oa, Some ob) \<Rightarrow> objects_agree nt oa ob | _ \<Rightarrow> False)"

definition sections_agree :: "(double \<Rightarrow> string) \<Rightarrow> bool \<Rightarrow> JsonValue option \<Rightarrow> JsonValue option \<Rightarrow> bool" where
  "sections_agree nt arr sa sb =
     (case (sa, sb) of
        (None, None) \<Rightarrow> True
      | (Some va, Some vb) \<Rightarrow>
          if arr then (\<forall>k. entries_agree nt (map_of (index_array nt va) k) (map_of (index_array nt vb) k))
          else (case (va, vb) of (JObject oa, JObject ob) \<Rightarrow> objects_agree nt oa ob | _ \<Rightarrow> True)
      | _ \<Rightarrow> False)"

lemma omap_sorted_lookup: "omap_sorted m \<Longrightarrow> (k, v) \<in> set m \<longleftrightarrow> map_of m k = Some v"
  by (simp add: omap_sorted_distinct)

lemma concat_map_Nil: "concat (map f xs) = [] \<longleftrightarrow> (\<forall>x \<in> set xs. f x = [])"
  by (induction xs) auto

lemma omap_all:
  assumes "omap_sorted m"
  shows "(\<forall>p \<in> set m. P (fst p) (snd p)) \<longleftrightarrow> (\<forall>k v. map_of m k = Some v \<longrightarrow> P k v)"
  using omap_sorted_lookup [OF assms] by (metis fst_conv snd_conv prod.collapse)

lemma diff_fields_nil_iff:
  assumes "omap_sorted a" "omap_sorted b"
  shows "diff_fields nt a b = [] \<longleftrightarrow> objects_agree nt a b"
proof -
  let ?P = "\<lambda>k va. \<exists>vb. map_of b k = Some vb \<and> (\<not> is_scalar va \<or> scalar_to_string nt va = scalar_to_string nt vb)"
  let ?Q = "\<lambda>k (vb :: JsonValue). map_of a k \<noteq> None"
  let ?f = "\<lambda>k va. case map_of b k of None \<Rightarrow> [k @ '' (removed)'']
    | Some vb \<Rightarrow> if is_scalar va \<and> scalar_to_string nt va \<noteq> scalar_to_string nt vb
                then [k @ '': '' @ scalar_to_string nt va @ '' -> '' @ scalar_to_string nt vb] else []"
  have f: "?f k va = [] \<longleftrightarrow> ?P k va" for k va by (cases "map_of b k") simp_all
  have "diff_fields nt a b = [] \<longleftrightarrow> (\<forall>p \<in> set a. ?f (fst p) (snd p) = []) \<and> (\<forall>p \<in> set b. ?Q (fst p) (snd p))"
    unfolding diff_fields_def append_is_Nil_conv concat_map_Nil split_beta by simp
  also have "\<dots> \<longleftrightarrow> (\<forall>p \<in> set a. ?P (fst p) (snd p)) \<and> (\<forall>p \<in> set b. ?Q (fst p) (snd p))"
    unfolding f ..
  also have "\<dots> \<longleftrightarrow> (\<forall>k va. map_of a k = Some va \<longrightarrow> ?P k va) \<and> (\<forall>k vb. map_of b k = Some vb \<longrightarrow> ?Q k vb)"
    unfolding omap_all [OF assms(1), of ?P] omap_all [OF assms(2), of ?Q] by (rule refl)
  also have "\<dots> \<longleftrightarrow> (\<forall>k. fields_agree nt (map_of a k) (map_of b k))"
  proof -
    have "fields_agree nt (map_of a k) (map_of b k) \<longleftrightarrow>
        (\<forall>va. map_of a k = Some va \<longrightarrow> ?P k va) \<and> (\<forall>vb. map_of b k = Some vb \<longrightarrow> ?Q k vb)" for k
      by (cases "map_of a k"; cases "map_of b k") (simp_all add: fields_agree_def)
    then show ?thesis by blast
  qed
  finally show ?thesis by (simp add: objects_agree_def)
qed

lemma index_array_wf:
  assumes "json_wf arr"
  shows "omap_sorted (index_array nt arr) \<and> (\<forall>k obj. map_of (index_array nt arr) k = Some obj \<longrightarrow> omap_sorted obj)"
proof (cases arr)
  case (JArray items)
  have "omap_sorted (fold f items out) \<and> (\<forall>k obj. map_of (fold f items out) k = Some obj \<longrightarrow> omap_sorted obj)"
    if "list_all json_wf items" "omap_sorted out" "\<forall>k obj. map_of out k = Some obj \<longrightarrow> omap_sorted obj"
      and f: "f = (\<lambda>item out. case item of
          JObject obj \<Rightarrow> (let k = extract_key nt obj in if k = [] \<or> map_of out k \<noteq> None then out else omap_update k obj out)
        | _ \<Rightarrow> out)" for items out f
    using that(1-3)
  proof (induction items arbitrary: out)
    case (Cons item items)
    have "omap_sorted (f item out) \<and> (\<forall>k obj. map_of (f item out) k = Some obj \<longrightarrow> omap_sorted obj)"
      using Cons.prems by (cases item) (auto simp: f Let_def)
    from Cons.IH [OF _ conjunct1 [OF this] conjunct2 [OF this]] Cons.prems(1) show ?case by simp
  qed simp
  from this [OF _ _ _ refl, of items "[]"] assms show ?thesis by (simp add: index_array_def JArray)
qed (simp_all add: index_array_def)

lemma diff_array_nil_iff:
  assumes "json_wf a" "json_wf b"
  shows "sd_added (diff_array_section nt a b) = [] \<and> sd_removed (diff_array_section nt a b) = [] \<and>
         sd_changed (diff_array_section nt a b) = [] \<longleftrightarrow>
         (\<forall>k. entries_agree nt (map_of (index_array nt a) k) (map_of (index_array nt b) k))"
proof -
  let ?a = "index_array nt a" and ?b = "index_array nt b"
  have wf: "omap_sorted ?a" "omap_sorted ?b" "\<And>k obj. map_of ?a k = Some obj \<Longrightarrow> omap_sorted obj"
    "\<And>k obj. map_of ?b k = Some obj \<Longrightarrow> omap_sorted obj"
    using index_array_wf assms by blast+
  let ?C = "\<lambda>k va. \<forall>vb. map_of ?b k = Some vb \<longrightarrow> objects_agree nt va vb"
  have "sd_added (diff_array_section nt a b) = [] \<longleftrightarrow> (\<forall>p \<in> set ?b. map_of ?a (fst p) \<noteq> None)"
    by (auto simp: diff_array_section_def Let_def split_beta filter_empty_conv)
  also have "\<dots> \<longleftrightarrow> (\<forall>k vb. map_of ?b k = Some vb \<longrightarrow> map_of ?a k \<noteq> None)"
    by (rule omap_all [OF wf(2), of "\<lambda>k v. map_of ?a k \<noteq> None"])
  finally have added: "sd_added (diff_array_section nt a b) = [] \<longleftrightarrow> (\<forall>k vb. map_of ?b k = Some vb \<longrightarrow> map_of ?a k \<noteq> None)" .
  have "sd_removed (diff_array_section nt a b) = [] \<longleftrightarrow> (\<forall>p \<in> set ?a. map_of ?b (fst p) \<noteq> None)"
    by (auto simp: diff_array_section_def Let_def split_beta filter_empty_conv)
  also have "\<dots> \<longleftrightarrow> (\<forall>k va. map_of ?a k = Some va \<longrightarrow> map_of ?b k \<noteq> None)"
    by (rule omap_all [OF wf(1), of "\<lambda>k v. map_of ?b k \<noteq> None"])
  finally have removed: "sd_removed (diff_array_section nt a b) = [] \<longleftrightarrow> (\<forall>k va. map_of ?a k = Some va \<longrightarrow> map_of ?b k \<noteq> None)" .
  have "sd_changed (diff_array_section nt a b) = [] \<longleftrightarrow>
      (\<forall>p \<in> set ?a. \<forall>vb. map_of ?b (fst p) = Some vb \<longrightarrow> diff_fields nt (snd p) vb = [])"
    by (auto simp: diff_array_section_def Let_def split_beta split: option.splits if_splits)
  also have "\<dots> \<longleftrightarrow> (\<forall>k va. map_of ?a k = Some va \<longrightarrow> (\<forall>vb. map_of ?b k = Some vb \<longrightarrow> diff_fields nt va vb = []))"
    by (rule omap_all [OF wf(1), of "\<lambda>k va. \<forall>vb. map_of ?b k = Some vb \<longrightarrow> diff_fields nt va vb = []"])
  also have "\<dots> \<longleftrightarrow> (\<forall>k va. map_of ?a k = Some va \<longrightarrow> ?C k va)"
    using diff_fields_nil_iff wf(3,4) by blast
  finally have changed: "sd_changed (diff_array_section nt a b) = [] \<longleftrightarrow> (\<forall>k va. map_of ?a k = Some va \<longrightarrow> ?C k va)" .
  have "entries_agree nt (map_of ?a k) (map_of ?b k) \<longleftrightarrow>
      (\<forall>vb. map_of ?b k = Some vb \<longrightarrow> map_of ?a k \<noteq> None) \<and> (\<forall>va. map_of ?a k = Some va \<longrightarrow> map_of ?b k \<noteq> None) \<and>
      (\<forall>va. map_of ?a k = Some va \<longrightarrow> ?C k va)" for k
    by (cases "map_of ?a k"; cases "map_of ?b k") (simp_all add: entries_agree_def)
  then show ?thesis unfolding added removed changed by blast
qed

lemma diff_object_nil_iff:
  assumes "json_wf a" "json_wf b"
  shows "diff_object_section nt a b = [] \<longleftrightarrow> (case (a, b) of (JObject oa, JObject ob) \<Rightarrow> objects_agree nt oa ob | _ \<Rightarrow> True)"
  using assms by (cases a; cases b) (simp_all add: diff_object_section_def diff_fields_nil_iff)

lemma diff_loop_agree:
  assumes "json_wf a" "json_wf b"
  shows "snd (diff_loop nt a b secs) = (\<not> list_all (\<lambda>(name, arr). sections_agree nt arr (json_find name a) (json_find name b)) secs)"
proof (induction secs)
  case (Cons s secs)
  obtain name arr where s: "s = (name, arr)" by (rule prod.exhaust)
  have wf: "json_wf va" if "json_find name a = Some va \<or> json_find name b = Some va" for va
    using that json_find_wf assms by blast
  show ?case
  proof (cases "json_find name a")
    case None
    then show ?thesis using Cons by (simp add: s sections_agree_def split_beta Let_def split: option.split)
  next
    case a: (Some va)
    show ?thesis
    proof (cases "json_find name b")
      case None
      then show ?thesis using Cons a by (simp add: s sections_agree_def split_beta Let_def)
    next
      case (Some vb)
      then show ?thesis
        using Cons a diff_array_nil_iff [of va vb nt] diff_object_nil_iff [of va vb nt] wf
        by (auto simp: s sections_agree_def split_beta Let_def)
    qed
  qed
qed simp

text \<open>The snapshot and its sections in the file at a path, if it can be read and parsed and has both.\<close>
definition load_snapshot :: "(string \<Rightarrow> double option) \<Rightarrow> file_system \<Rightarrow> string \<Rightarrow> (JsonValue \<times> JsonValue) option" where
  "load_snapshot stod fs path =
     Option.bind (read_file fs path) (\<lambda>c.
       case parse_json stod c of
         Inl e \<Rightarrow> None
       | Inr doc \<Rightarrow> Option.bind (extract_snapshot doc) (\<lambda>snap. map_option (\<lambda>secs. (snap, secs)) (json_find ''sections'' snap)))"

lemma load_snapshot_Some:
  assumes "load_snapshot stod fs path = Some (snap, secs)"
  obtains c doc where "read_file fs path = Some c" "parse_json stod c = Inr doc" "extract_snapshot doc = Some snap"
    "json_find ''sections'' snap = Some secs"
proof -
  obtain c where c: "read_file fs path = Some c"
    using assms by (cases "read_file fs path") (simp_all add: load_snapshot_def)
  with assms show ?thesis
    by (cases "parse_json stod c") (auto simp: load_snapshot_def bind_eq_Some_conv intro: that)
qed

lemma load_snapshot_wf: "load_snapshot stod fs path = Some (snap, secs) \<Longrightarrow> json_wf snap \<and> json_wf secs"
  by (elim load_snapshot_Some) (metis json_find_wf parse_json_wf extract_snapshot_def)

lemma meta_diff_nil_iff:
  "meta_diff nt sa sb k = [] \<longleftrightarrow>
   map_option (scalar_to_string nt) (extract_meta_field sa k) = map_option (scalar_to_string nt) (extract_meta_field sb k)"
  by (auto simp: meta_diff_def split: option.split)

text \<open>The exit code through the two loaded snapshots.\<close>
lemma diff_run_code:
  "fst (diff_run stod nt fs opts) =
     (if do_path_a opts = [] \<or> do_path_b opts = [] then 2
      else case (load_snapshot stod fs (do_path_a opts), load_snapshot stod fs (do_path_b opts)) of
        (Some (sa, ca), Some (sb, cb)) \<Rightarrow>
          if list_all (\<lambda>(name, arr). sections_agree nt arr (json_find name ca) (json_find name cb)) diff_sections \<and>
             list_all (\<lambda>k. map_option (scalar_to_string nt) (json_find k sa) = map_option (scalar_to_string nt) (json_find k sb)) meta_keys
          then 0 else 1
      | _ \<Rightarrow> 2)"
proof (cases "load_snapshot stod fs (do_path_a opts) \<noteq> None \<and> load_snapshot stod fs (do_path_b opts) \<noteq> None")
  case True
  then obtain sa ca sb cb where l: "load_snapshot stod fs (do_path_a opts) = Some (sa, ca)"
      "load_snapshot stod fs (do_path_b opts) = Some (sb, cb)" by auto
  have wf: "json_wf ca" "json_wf cb" using l load_snapshot_wf by blast+
  from load_snapshot_Some [OF l(1)] obtain ta da where p: "read_file fs (do_path_a opts) = Some ta" "parse_json stod ta = Inr da"
    "extract_snapshot da = Some sa" "json_find ''sections'' sa = Some ca" .
  from load_snapshot_Some [OF l(2)] obtain tb db where q: "read_file fs (do_path_b opts) = Some tb" "parse_json stod tb = Inr db"
    "extract_snapshot db = Some sb" "json_find ''sections'' sb = Some cb" .
  have metas: "meta_diffs nt (Some sa) (Some sb) = [] \<longleftrightarrow>
      list_all (\<lambda>k. map_option (scalar_to_string nt) (json_find k sa) = map_option (scalar_to_string nt) (json_find k sb)) meta_keys"
    by (simp add: meta_diffs_def meta_diff_nil_iff extract_meta_field_def list_all_iff)
  show ?thesis
    using diff_loop_agree [OF wf, of nt diff_sections] metas
    by (simp add: diff_run_def p q l extract_sections_def diff_output_def Let_def split_beta)
next
  case False
  then show ?thesis
    by (auto simp: diff_run_def load_snapshot_def extract_sections_def bind_eq_None_conv Let_def
        split: option.splits sum.splits)
qed

text \<open>C14: the exit code of the comparison is 2 exactly if a path is missing or one of the files cannot be read
  and parsed or has no snapshot with sections; otherwise it is 0 if all six sections agree (absent from
  both, or with the same keys and with objects that agree field by field) and the five metadata fields
  have the same text, and 1 if not.\<close>
theorem diff_exit_code:
  "fst (diff_run stod nt fs opts) =
     (if do_path_a opts = [] \<or> do_path_b opts = [] then 2
      else case (load_snapshot stod fs (do_path_a opts), load_snapshot stod fs (do_path_b opts)) of
        (Some (sa, ca), Some (sb, cb)) \<Rightarrow>
          if list_all (\<lambda>(name, arr). sections_agree nt arr (json_find name ca) (json_find name cb)) diff_sections \<and>
             list_all (\<lambda>k. map_option (scalar_to_string nt) (json_find k sa) = map_option (scalar_to_string nt) (json_find k sb)) meta_keys
          then 0 else 1
      | _ \<Rightarrow> 2)"
  by (rule diff_run_code)

subsection \<open>The JSON report is a JSON text\<close>

definition plain_text :: "string \<Rightarrow> bool" where
  "plain_text x = list_all (\<lambda>c. c \<noteq> dquote \<and> c \<noteq> backslash \<and> \<not> c < CHR 0x20) x"

definition seen :: "string \<Rightarrow> JsonValue" where
  "seen x = JString (map (seen_char False) x)"

definition counted :: "(string \<Rightarrow> double option) \<Rightarrow> nat \<Rightarrow> JsonValue" where
  "counted stod n = JNumber (the (stod (nat_str n)))"

definition change_value :: "string \<Rightarrow> string \<times> string \<Rightarrow> JsonValue" where
  "change_value key p = JObject (omap_of [(key, seen (fst p)), (''change'', seen (snd p))])"

definition section_value :: "(string \<Rightarrow> double option) \<Rightarrow> bool \<Rightarrow> SectionResult \<Rightarrow> JsonValue" where
  "section_value stod verbose r =
     JObject (omap_of
       (if dr_is_array r
        then (let d = dr_array_diff r in
          [(''added'', counted stod (length (sd_added d))), (''removed'', counted stod (length (sd_removed d))),
           (''changed'', counted stod (length (sd_changed d)))] @
          (if verbose
           then [(''added_items'', JArray (map seen (sd_added d))), (''removed_items'', JArray (map seen (sd_removed d))),
                 (''changed_items'', JArray (map (change_value ''key'') (sd_changed d)))] else []))
        else [(''changed'', counted stod (length (dr_obj_diff r)))] @
          (if verbose then [(''items'', JArray (map (change_value ''field'') (dr_obj_diff r)))] else [])))"

definition report_value ::
    "(string \<Rightarrow> double option) \<Rightarrow> bool \<Rightarrow> string \<Rightarrow> string \<Rightarrow> bool \<Rightarrow> (string \<times> string) list \<Rightarrow> SectionResult list \<Rightarrow> JsonValue" where
  "report_value stod verbose ts_a ts_b any_diff metas results =
     JObject (omap_of
       [(''snapshot_a'', seen ts_a), (''snapshot_b'', seen ts_b), (''has_differences'', JBool any_diff),
        (''metadata'', JArray (map (change_value ''field'') metas)),
        (''sections'', JObject (omap_of (map (\<lambda>r. (dr_name r, section_value stod verbose r)) results)))])"

lemma dq_escape: "dq (json_escape_str x) = json_literal False x"
  by (simp add: dq_def json_escape_str_def json_literal_def)

lemma dq_plain: "plain_text x \<Longrightarrow> dq x = json_literal False x"
  by (simp add: dq_def json_literal_def plain_text_def json_escape_plain list_all_iff)

lemma seen_plain: "plain_text x \<Longrightarrow> map (seen_char False) x = x"
  by (induction x) (auto simp: plain_text_def seen_char_def)

lemma member_plain:
  assumes "plain_text k" "value_text stod v u" "json_space a" "json_space c" "json_space d"
  shows "member_text stod (k, v) (a @ dq k @ '':'' @ c @ u @ d)"
  unfolding dq_plain [OF assms(1)] by (rule member_textI) (simp_all add: assms seen_plain)

lemma member_tight: "plain_text k \<Longrightarrow> value_text stod v u \<Longrightarrow> member_text stod (k, v) (dq k @ CHR '':'' # u)"
  using member_plain [of k stod v u "[]" "[]" "[]"] by simp

lemma plain_names [simp]:
  "plain_text ''change''" "plain_text ''key''" "plain_text ''field''" "plain_text ''added''" "plain_text ''removed''"
  "plain_text ''changed''" "plain_text ''added_items''" "plain_text ''removed_items''" "plain_text ''changed_items''"
  "plain_text ''items''" "plain_text ''snapshot_a''" "plain_text ''snapshot_b''" "plain_text ''has_differences''"
  "plain_text ''metadata''" "plain_text ''sections''"
  by (simp_all add: plain_text_def)

lemma seen_text: "value_text stod (seen x) (dq (json_escape_str x))"
  unfolding seen_def dq_escape by (rule text_string)

lemma counted_text: "stod (nat_str n) \<noteq> None \<Longrightarrow> value_text stod (counted stod n) (nat_str n)"
  unfolding counted_def by (rule text_number [OF number_nat_str]) auto

lemma change_text:
  assumes "plain_text key"
  shows "value_text stod (change_value key p) (change_object key p)"
proof -
  have "value_text stod (change_value key p)
      (''{'' @ join_with '','' [[] @ dq key @ '':'' @ [] @ dq (json_escape_str (fst p)) @ [],
                              [] @ dq ''change'' @ '':'' @ [] @ dq (json_escape_str (snd p)) @ []] @ ''}'')"
    unfolding change_value_def
    by (rule object_join) (intro list.rel_intros member_plain; simp add: assms seen_text)
  then show ?thesis by (simp add: change_object_def)
qed

lemma list_text:
  assumes "\<And>x. value_text stod (f x) (g x)"
  shows "value_text stod (JArray (map f xs)) (''['' @ join_with '','' (map g xs) @ '']'')"
  by (rule array_join) (simp add: list_all2_map1 list_all2_map2 list_all2_same assms json_itemI)

lemma list_text_spaced:
  assumes "\<And>x. value_text stod (f x) (g x)"
  shows "value_text stod (JArray (map f xs)) (''['' @ join_with '', '' (map g xs) @ '']'')"
  using array_join_pads [of stod "map f xs" "map g xs" "[]" "'' ''" "[]"]
  by (simp add: list_all2_map1 list_all2_map2 list_all2_same assms json_itemI)

lemma section_text:
  assumes "\<And>n. stod (nat_str n) \<noteq> None"
  shows "value_text stod (section_value stod verbose r)
    (''{'' @ (if dr_is_array r then json_array_body verbose (dr_array_diff r) else json_object_body verbose (dr_obj_diff r)) @ ''}'')"
proof -
  let ?m = "\<lambda>k u. dq k @ '':'' @ u"
  let ?d = "dr_array_diff r"
  let ?arr = "''['' @ join_with '','' (map (\<lambda>k. dq (json_escape_str k)) (sd_added ?d)) @ '']''"
  let ?arr2 = "''['' @ join_with '','' (map (\<lambda>k. dq (json_escape_str k)) (sd_removed ?d)) @ '']''"
  let ?arr3 = "''['' @ join_with '','' (map (change_object ''key'') (sd_changed ?d)) @ '']''"
  let ?obj = "''['' @ join_with '','' (map (change_object ''field'') (dr_obj_diff r)) @ '']''"
  define ts where "ts =
    (if dr_is_array r
     then [?m ''added'' (nat_str (length (sd_added ?d))), ?m ''removed'' (nat_str (length (sd_removed ?d))),
           ?m ''changed'' (nat_str (length (sd_changed ?d)))] @
          (if verbose then [?m ''added_items'' ?arr, ?m ''removed_items'' ?arr2, ?m ''changed_items'' ?arr3] else [])
     else [?m ''changed'' (nat_str (length (dr_obj_diff r)))] @ (if verbose then [?m ''items'' ?obj] else []))"
  note texts = counted_text [of stod, OF assms] list_text [of stod seen, OF seen_text] list_text [of stod "change_value k" for k, OF change_text]
  have "value_text stod (section_value stod verbose r) (''{'' @ join_with '','' ts @ ''}'')"
    unfolding section_value_def
  proof (rule object_join)
    show "list_all2 (member_text stod)
       (if dr_is_array r
        then (let d = dr_array_diff r in
          [(''added'', counted stod (length (sd_added d))), (''removed'', counted stod (length (sd_removed d))),
           (''changed'', counted stod (length (sd_changed d)))] @
          (if verbose
           then [(''added_items'', JArray (map seen (sd_added d))), (''removed_items'', JArray (map seen (sd_removed d))),
                 (''changed_items'', JArray (map (change_value ''key'') (sd_changed d)))] else []))
        else [(''changed'', counted stod (length (dr_obj_diff r)))] @
          (if verbose then [(''items'', JArray (map (change_value ''field'') (dr_obj_diff r)))] else [])) ts"
      by (cases "dr_is_array r"; cases verbose; simp only: ts_def if_True if_False Let_def append_Cons append_Nil append_Nil2;
          intro list.rel_intros member_tight texts [unfolded append_Cons append_Nil]; simp)
  qed
  moreover have "join_with '','' ts =
      (if dr_is_array r then json_array_body verbose ?d else json_object_body verbose (dr_obj_diff r))"
    by (simp add: ts_def json_array_body_def json_object_body_def)
  ultimately show ?thesis by simp
qed

lemma report_text:
  assumes "\<And>n. stod (nat_str n) \<noteq> None" "list_all (\<lambda>r. plain_text (dr_name r)) results"
  shows "\<exists>s. json_report verbose ts_a ts_b any_diff metas results = s @ [nl] \<and>
     value_text stod (report_value stod verbose ts_a ts_b any_diff metas results) s"
proof -
  let ?m = "\<lambda>k u. ([nl] @ ''  '') @ dq k @ '':'' @ '' '' @ u @ []"
  let ?body = "\<lambda>r. ''{'' @ (if dr_is_array r then json_array_body verbose (dr_array_diff r)
                        else json_object_body verbose (dr_obj_diff r)) @ ''}''"
  let ?secs = "''{'' @ join_with '','' (map (json_section verbose) results) @ ([nl] @ ''  '') @ ''}''"
  let ?ts = "[?m ''snapshot_a'' (dq (json_escape_str ts_a)), ?m ''snapshot_b'' (dq (json_escape_str ts_b)),
     ?m ''has_differences'' (if any_diff then ''true'' else ''false''),
     ?m ''metadata'' (''['' @ join_with '', '' (map (change_object ''field'') metas) @ '']''),
     ?m ''sections'' ?secs]"
  have "list_all2 (member_text stod) (map (\<lambda>r. (dr_name r, section_value stod verbose r)) results) (map (json_section verbose) results)"
    unfolding list_all2_map1 list_all2_map2
  proof (rule list.rel_refl_strong)
    fix r assume "r \<in> set results"
    then have "plain_text (dr_name r)" using assms(2) by (simp add: list_all_iff)
    from member_plain [OF this section_text [of stod verbose r, OF assms(1)], of "[nl] @ ''    ''" "'' ''" "[]"]
    show "member_text stod (dr_name r, section_value stod verbose r) (json_section verbose r)"
      by (simp add: json_section_def)
  qed
  from object_join_space [OF this, of "[nl] @ ''  ''"]
  have secs: "value_text stod (JObject (omap_of (map (\<lambda>r. (dr_name r, section_value stod verbose r)) results))) ?secs"
    by simp
  have bool: "value_text stod (JBool any_diff) (if any_diff then ''true'' else ''false'')"
    by (cases any_diff) (auto intro: text_true text_false)
  have "value_text stod (report_value stod verbose ts_a ts_b any_diff metas results) (''{'' @ join_with '','' ?ts @ [nl] @ ''}'')"
    unfolding report_value_def
    by (rule object_join_space)
      ((intro list.rel_intros member_plain seen_text bool secs list_text_spaced change_text; simp)+, simp)
  moreover have "json_report verbose ts_a ts_b any_diff metas results = (''{'' @ join_with '','' ?ts @ [nl] @ ''}'') @ [nl]"
    by (simp add: json_report_def)
  ultimately show ?thesis by blast
qed

lemma diff_loop_names: "list_all (\<lambda>r. P (dr_name r)) (fst (diff_loop nt a b secs))" if "list_all (\<lambda>s. P (fst s)) secs"
  using that
proof (induction secs)
  case (Cons s secs)
  obtain name arr where s: "s = (name, arr)" by (rule prod.exhaust)
  with Cons show ?case
    by (simp add: split_beta Let_def split: option.split)
qed simp

text \<open>a comparison that succeeds with \<open>--json\<close> writes a JSON text, which the program's own parser reads
  back: it says whether there are differences as the exit code does, and has an entry for every section
  in one of the snapshots.  All that is asked of \<open>std::stod\<close> is that it reads the decimal numbers.\<close>
theorem diff_report_is_json:
  assumes "\<And>n. stod (nat_str n) \<noteq> None" "do_json opts" "diff_run stod nt fs opts = (code, out, err)" "code \<noteq> 2"
  shows "\<exists>v. parse_json stod out = Inr v \<and> json_find ''has_differences'' v = Some (JBool (code = 1)) \<and> err = []"
proof -
  obtain snap_a snap_b secs_a secs_b where run: "diff_output nt opts snap_a snap_b secs_a secs_b = (code, out, err)"
    using assms(3,4)
    by (auto simp: diff_run_def Let_def split: if_splits option.splits sum.splits)
  obtain results differs where l: "diff_loop nt secs_a secs_b diff_sections = (results, differs)" by (rule prod.exhaust)
  define any where "any = (differs \<or> meta_diffs nt snap_a snap_b \<noteq> [])"
  let ?v = "report_value stod (do_verbose opts) (snapshot_ts nt snap_a) (snapshot_ts nt snap_b) any (meta_diffs nt snap_a snap_b) results"
  have out: "code = (if any then 1 else 0)" "err = []"
     "out = json_report (do_verbose opts) (snapshot_ts nt snap_a) (snapshot_ts nt snap_b) any (meta_diffs nt snap_a snap_b) results"
    using run assms(2) by (simp_all add: diff_output_def l Let_def any_def)
  have "list_all (\<lambda>s. plain_text (fst s)) diff_sections" by (simp add: diff_sections_def plain_text_def)
  from diff_loop_names [OF this, of nt secs_a secs_b, unfolded l fst_conv]
  have "list_all (\<lambda>r. plain_text (dr_name r)) results" .
  from report_text [of stod results, OF assms(1) this] obtain s where s: "out = s @ [nl]" "value_text stod ?v s"
    unfolding out(3) by blast
  have "parse_json stod out = Inr ?v"
    using parse_grammar [OF s(2), of "[]" "[nl]"] s(1) by (simp add: number_end_def number_char_def isdigit_def)
  moreover have "json_find ''has_differences'' ?v = Some (JBool any)"
    by (simp add: report_value_def json_find_def map_of_omap_of)
  ultimately show ?thesis using out by auto
qed

text \<open>The comparison is not symmetric: an array in the first snapshot agrees with anything, a scalar does not.\<close>
lemma comparison_not_symmetric:
  "diff_fields nt [(''k'', JArray [])] [(''k'', JString ''x'')] = []"
  "diff_fields nt [(''k'', JString ''x'')] [(''k'', JArray [])] \<noteq> []"
  by (simp_all add: diff_fields_def is_scalar_def is_object_def is_array_def scalar_to_string_def)

text \<open>Two processes whose identifiers have the same six significant digits share a key, and the second is
  never compared.\<close>
lemma rounded_pids_collide:
  assumes "nt p = nt q" "nt p \<noteq> []"
  shows "index_array nt (JArray [JObject [(''pid'', JNumber p)], JObject ((''pid'', JNumber q) # rest)]) =
    [(''pid:'' @ nt p, [(''pid'', JNumber p)])]"
  using assms by (simp add: index_array_def extract_key_def field_text_def scalar_to_string_def Let_def)

definition two_snapshots :: file_system where
  "two_snapshots = \<lparr> fs_files =
     [''a'' \<mapsto> ''{'' @ dq ''snapshot'' @ '':{'' @ dq ''sections'' @ '':{}}}'',
      ''b'' \<mapsto> ''{'' @ dq ''snapshot'' @ '':{'' @ dq ''host'' @ '':'' @ dq ''h'' @ '','' @ dq ''sections'' @ '':{}}}''],
     fs_can_write = (\<lambda>_. True), fs_can_rename = (\<lambda>_ _. True), fs_can_remove = (\<lambda>_. True) \<rparr>"

lemma diff_report_is_json_witness:
  "\<exists>out v. diff_run (\<lambda>_. Some (Fin 0)) (\<lambda>_. ''0'') two_snapshots
       \<lparr> do_path_a = ''a'', do_path_b = ''b'', do_json = True, do_verbose = True \<rparr> = (1, out, []) \<and>
     parse_json (\<lambda>_. Some (Fin 0)) out = Inr v \<and> json_find ''has_differences'' v = Some (JBool True)"
proof -
  let ?o = "\<lparr> do_path_a = ''a'', do_path_b = ''b'', do_json = True, do_verbose = True \<rparr>"
  let ?stod = "\<lambda>_. Some (Fin 0)"
  obtain code out err where r: "diff_run ?stod (\<lambda>_. ''0'') two_snapshots ?o = (code, out, err)" by (metis prod.exhaust)
  have "fst (diff_run ?stod (\<lambda>_. ''0'') two_snapshots ?o) = 1"
    by code_simp
  then have "code = 1" by (simp add: r)
  with diff_report_is_json [OF _ _ r] show ?thesis by (auto simp: r)
qed

end
