(* ===== verification/Snapshot_Generator.thy ===== *)
theory Snapshot_Generator
  imports Snapshot_Diff System_Load_Monitor Cpp_Time
begin

text \<open>
  \<open>snapshot/snapshot_generator.cpp\<close>, Linux: the one-shot snapshot of the system as a JSON text, and writing it
  to a file.  What the operating system answers is the record \<open>snapshot_env\<close>; the output of a stream for
  a \<open>double\<close>, the arithmetic that rounds and the order \<open>std::sort\<close> gives to processes of the same size are
  parameters.  A row of an object is written on a line of its own, rows are separated by a comma.
\<close>

record SnapshotConfig =
  sc_output_path :: string
  sc_include_processes :: bool
  sc_include_network :: bool
  sc_include_ports :: bool
  sc_include_disk :: bool
  sc_include_load :: bool
  sc_include_environment :: bool
  sc_max_processes :: int

record ProcEntry =
  pr_pid :: int
  pr_name :: string
  pr_user :: string
  pr_memory_bytes :: int
  pr_ppid :: int
  pr_command_line :: string

text \<open>A directory entry of \<open>/proc\<close> with the contents of the two files the source opens.\<close>
record proc_dir =
  pd_is_directory :: bool
  pd_filename :: string
  pd_status :: "string option"
  pd_cmdline :: "string option"

record snapshot_env =
  se_now :: timestamp
  se_now_ms :: timestamp
  se_hostname :: string
  se_platform :: string
  se_version :: string
  se_architecture :: string
  se_user :: string
  se_sysinfo :: "int option"
  se_uptime_file :: "double option"
  se_read :: "string \<Rightarrow> string option"
  se_doubles :: "string \<Rightarrow> double \<times> double \<times> double"
  se_statvfs :: "string \<Rightarrow> (64 word \<times> 64 word \<times> 64 word) option"
  se_proc :: "proc_dir list"
  se_getenv :: "string \<Rightarrow> string option"
  se_ops :: double_ops
  se_text :: "double \<Rightarrow> string"
  se_sort :: "ProcEntry list \<Rightarrow> ProcEntry list"

subsection \<open>Layout\<close>

definition snapshot_escape :: "string \<Rightarrow> string" where
  "snapshot_escape s = json_escape_with True s"

definition row :: "string \<Rightarrow> string \<times> string \<Rightarrow> string" where
  "row indent p = indent @ dq (fst p) @ '': '' @ snd p"

definition rows :: "string \<Rightarrow> (string \<times> string) list \<Rightarrow> string" where
  "rows indent ps = join_with ('','' @ [nl]) (map (row indent) ps)"

definition escaped :: "string \<Rightarrow> string" where
  "escaped s = dq (snapshot_escape s)"

definition indent8 :: string where
  "indent8 = ''        ''"

definition indent10 :: string where
  "indent10 = ''          ''"

text \<open>An element of a list of objects.\<close>
definition element :: "(string \<times> string) list \<Rightarrow> string" where
  "element ps = indent8 @ ''{'' @ [nl] @ rows indent10 ps @ [nl] @ indent8 @ ''}''"

definition list_section :: "string \<Rightarrow> (string \<times> string) list list \<Rightarrow> string" where
  "list_section name es =
     ''      '' @ dq name @ '': ['' @ [nl] @ join_with ('','' @ [nl]) (map element es) @ [nl] @ ''      ]''"

subsection \<open>Metadata and load\<close>

definition format_iso8601 :: "timestamp \<Rightarrow> string" where
  "format_iso8601 ts = strftime_iso (gmtime (to_time_t ts)) @ ''Z''"

definition uptime_seconds :: "snapshot_env \<Rightarrow> int" where
  "uptime_seconds env =
     (case se_sysinfo env of
        Some up \<Rightarrow> up
      | None \<Rightarrow> (case se_uptime_file env of Some up \<Rightarrow> do_to_int (se_ops env) up | None \<Rightarrow> 0))"

definition metadata_rows :: "snapshot_env \<Rightarrow> (string \<times> string) list" where
  "metadata_rows env =
       [(''timestamp'', dq (format_iso8601 (se_now env))),
        (''timestamp_unix_ms'', int_str (to_unix_ms (se_now_ms env))),
        (''host'', escaped (se_hostname env)), (''platform'', escaped (se_platform env)),
        (''platform_version'', escaped (se_version env)), (''architecture'', escaped (se_architecture env)),
        (''user'', escaped (se_user env)), (''uptime_seconds'', int_str (uptime_seconds env))]"

definition capture_metadata :: "snapshot_env \<Rightarrow> string" where
  "capture_metadata env = rows ''    '' (metadata_rows env)"

record meminfo =
  mi_total :: int
  mi_free :: int
  mi_available :: int
  mi_buffers :: int
  mi_cached :: int
  mi_swap_total :: int
  mi_swap_free :: int

definition meminfo_line :: "string \<Rightarrow> meminfo \<Rightarrow> meminfo" where
  "meminfo_line line m =
     (let label = nth_token 0 (ws_tokens line);
          val = hd (extract_ints [0] (after_label line)) * 1024
      in if label = ''MemTotal:'' then m\<lparr>mi_total := val\<rparr>
         else if label = ''MemFree:'' then m\<lparr>mi_free := val\<rparr>
         else if label = ''MemAvailable:'' then m\<lparr>mi_available := val\<rparr>
         else if label = ''Buffers:'' then m\<lparr>mi_buffers := val\<rparr>
         else if label = ''Cached:'' then m\<lparr>mi_cached := val\<rparr>
         else if label = ''SwapTotal:'' then m\<lparr>mi_swap_total := val\<rparr>
         else if label = ''SwapFree:'' then m\<lparr>mi_swap_free := val\<rparr>
         else m)"

definition read_meminfo :: "string option \<Rightarrow> meminfo" where
  "read_meminfo content =
     (let m = fold meminfo_line (case content of None \<Rightarrow> [] | Some c \<Rightarrow> getlines c)
                \<lparr> mi_total = 0, mi_free = 0, mi_available = 0, mi_buffers = 0, mi_cached = 0, mi_swap_total = 0, mi_swap_free = 0 \<rparr>
      in if mi_available m = 0 \<and> mi_total m > 0 then m\<lparr>mi_available := mi_free m + mi_buffers m + mi_cached m\<rparr> else m)"

definition system_rows :: "snapshot_env \<Rightarrow> (string \<times> string) list" where
  "system_rows env =
     (let ops = se_ops env; nt = se_text env;
          (load1, load5, load15) =
            (case se_read env ''/proc/loadavg'' of None \<Rightarrow> (Fin 0, Fin 0, Fin 0) | Some c \<Rightarrow> se_doubles env c);
          m = read_meminfo (se_read env ''/proc/meminfo'');
          used = mi_total m - mi_available m;
          swap_used = mi_swap_total m - mi_swap_free m;
          mem_usage = (if mi_total m > 0 then do_percent ops used (mi_total m) else Fin 0);
          swap_usage = (if mi_swap_total m > 0 then do_percent ops swap_used (mi_swap_total m) else Fin 0)
      in [(''load_1min'', nt load1), (''load_5min'', nt load5), (''load_15min'', nt load15),
          (''memory_total_bytes'', int_str (mi_total m)), (''memory_available_bytes'', int_str (mi_available m)),
          (''memory_used_bytes'', int_str used), (''memory_usage_percent'', nt mem_usage),
          (''swap_total_bytes'', int_str (mi_swap_total m)), (''swap_used_bytes'', int_str swap_used),
          (''swap_usage_percent'', nt swap_usage)])"

definition capture_system_load :: "snapshot_env \<Rightarrow> string" where
  "capture_system_load env =
     ''      '' @ dq ''system'' @ '': {'' @ [nl] @ rows indent8 (system_rows env) @ [nl] @ ''      }''"

subsection \<open>Disks\<close>

definition snapshot_pseudo :: "string list" where
  "snapshot_pseudo =
     [''proc'', ''sysfs'', ''devtmpfs'', ''tmpfs'', ''devpts'', ''cgroup'', ''cgroup2'', ''mqueue'', ''securityfs'',
      ''debugfs'', ''tracefs'', ''fusectl'', ''configfs'', ''pstore'', ''bpf'', ''hugetlbfs'', ''rpc_pipefs'', ''autofs'',
      ''binfmt_misc'', ''fuse.gvfsd-fuse'', ''fuse.snapfuse'', ''squashfs'', ''overlay'']"

definition mount_of_line :: "string \<Rightarrow> (string \<times> string) option" where
  "mount_of_line line =
     (let ts = ws_tokens line; device = nth_token 0 ts; mount = nth_token 1 ts; fstype = nth_token 2 ts
      in if device = [] \<or> mount = [] then None
         else if fstype \<in> set snapshot_pseudo then None
         else if starts_with mount ''/snap/'' then None
         else Some (device, mount))"

text \<open>The products are unsigned and wrap; the results are stored as signed 64-bit values.\<close>
definition disk_rows :: "snapshot_env \<Rightarrow> string \<times> string \<Rightarrow> (string \<times> string) list option" where
  "disk_rows env p =
     (case se_statvfs env (snd p) of
        None \<Rightarrow> None
      | Some (frsize, blocks, bavail) \<Rightarrow>
          (let total = sint (blocks * frsize); free = sint (bavail * frsize);
               used = sint (blocks * frsize - bavail * frsize);
               usage = (if total > 0 then do_percent (se_ops env) used total else Fin 0)
           in Some [(''device'', escaped (fst p)), (''mount_point'', escaped (snd p)), (''total_bytes'', int_str total),
                    (''used_bytes'', int_str used), (''free_bytes'', int_str free), (''usage_percent'', se_text env usage)]))"

definition disk_entries :: "snapshot_env \<Rightarrow> (string \<times> string) list list" where
  "disk_entries env =
     (let mounts = List.map_filter mount_of_line (case se_read env ''/proc/mounts'' of None \<Rightarrow> [] | Some c \<Rightarrow> getlines c)
      in List.map_filter (disk_rows env) mounts)"

definition capture_disk_usage :: "snapshot_env \<Rightarrow> string" where
  "capture_disk_usage env = list_section ''disks'' (disk_entries env)"

subsection \<open>Processes\<close>

definition read_uid :: "string \<Rightarrow> int" where
  "read_uid s =
     (if dropWhile isspace s = [] then - 1
      else case strtol_prefix s of
             None \<Rightarrow> 0
           | Some (v, _) \<Rightarrow> max (- 2147483648) (min v 2147483647))"

definition status_line :: "string \<Rightarrow> ProcEntry \<Rightarrow> ProcEntry" where
  "status_line line p =
     (if starts_with line ''Name:'' then p\<lparr>pr_name := dropWhile (\<lambda>c. c = tab \<or> c = CHR '' '') (drop 5 line)\<rparr>
      else if starts_with line ''PPid:'' then (case stoll (drop 5 line) of Some v \<Rightarrow> p\<lparr>pr_ppid := v\<rparr> | None \<Rightarrow> p)
      else if starts_with line ''Uid:'' then p\<lparr>pr_user := ''uid='' @ int_str (read_uid (drop 4 line))\<rparr>
      else if starts_with line ''VmRSS:'' then p\<lparr>pr_memory_bytes := hd (extract_ints [0] (drop 6 line)) * 1024\<rparr>
      else p)"

definition clean_cmdline :: "string \<Rightarrow> string" where
  "clean_cmdline c =
     rev (dropWhile (\<lambda>c. c = CHR '' '') (rev (map (\<lambda>c. if c = CHR 0x00 then CHR '' '' else c) c)))"

definition proc_entry_of :: "proc_dir \<Rightarrow> ProcEntry option" where
  "proc_entry_of d =
     (if \<not> pd_is_directory d then None
      else if pd_filename d = [] \<or> \<not> list_all isdigit (pd_filename d) then None
      else case stoll (pd_filename d) of
             None \<Rightarrow> None
           | Some pid \<Rightarrow>
               (let p0 = \<lparr> pr_pid = pid, pr_name = [], pr_user = [], pr_memory_bytes = 0, pr_ppid = 0, pr_command_line = [] \<rparr>;
                    p1 = (case pd_status d of None \<Rightarrow> p0 | Some c \<Rightarrow> fold status_line (getlines c) p0);
                    p2 = (case pd_cmdline d of None \<Rightarrow> p1 | Some c \<Rightarrow> p1\<lparr>pr_command_line := clean_cmdline c\<rparr>)
                in if pr_name p2 = [] \<and> pr_command_line p2 = [] then None else Some p2))"

definition process_rows :: "ProcEntry \<Rightarrow> (string \<times> string) list" where
  "process_rows p =
     [(''pid'', int_str (pr_pid p)), (''ppid'', int_str (pr_ppid p)), (''name'', escaped (pr_name p)),
      (''user'', escaped (pr_user p)), (''memory_bytes'', int_str (pr_memory_bytes p)),
      (''command_line'', escaped (pr_command_line p))]"

definition shown_processes :: "snapshot_env \<Rightarrow> int \<Rightarrow> ProcEntry list" where
  "shown_processes env max_count =
     (let procs = se_sort env (List.map_filter proc_entry_of (se_proc env))
      in if max_count > 0 \<and> int (length procs) > max_count then take (nat max_count) procs else procs)"

definition capture_processes :: "snapshot_env \<Rightarrow> int \<Rightarrow> string" where
  "capture_processes env max_count = list_section ''processes'' (map process_rows (shown_processes env max_count))"

subsection \<open>Connections and ports\<close>

definition read_proc_net :: "string option \<Rightarrow> string list list" where
  "read_proc_net content =
     (case content of None \<Rightarrow> [] | Some c \<Rightarrow> filter (\<lambda>ts. ts \<noteq> []) (map ws_tokens (drop 1 (getlines c))))"

text \<open>\<open>std::stoul(s, nullptr, 16)\<close>\<close>
definition stoul16 :: "string \<Rightarrow> int option" where
  "stoul16 s =
     (let s1 = dropWhile isspace s;
          neg = (s1 \<noteq> [] \<and> hd s1 = CHR ''-'');
          s2 = (if s1 \<noteq> [] \<and> (hd s1 = CHR ''-'' \<or> hd s1 = CHR ''+'') then tl s1 else s1);
          s3 = (if length s2 > 2 \<and> s2 ! 0 = CHR ''0'' \<and> (s2 ! 1 = CHR ''x'' \<or> s2 ! 1 = CHR ''X'') \<and>
                   hex_val (s2 ! 2) \<noteq> None then drop 2 s2 else s2);
          ds = takeWhile (\<lambda>c. hex_val c \<noteq> None) s3;
          v = foldl (\<lambda>n c. 16 * n + int (the (hex_val c))) 0 ds
      in if ds = [] \<or> v \<ge> 2 ^ 64 then None else Some (if neg then (- v) mod 2 ^ 64 else v))"

definition hex_ip_to_string :: "string \<Rightarrow> string" where
  "hex_ip_to_string hex =
     (if length hex \<noteq> 8 then hex
      else case stoul16 hex of
             None \<Rightarrow> hex
           | Some v \<Rightarrow>
               (let b = (\<lambda>i. int_str (v div 2 ^ (8 * i) mod 256))
                in b 0 @ ''.'' @ b 1 @ ''.'' @ b 2 @ ''.'' @ b 3))"

definition hex_port_to_string :: "string \<Rightarrow> string" where
  "hex_port_to_string hex = (case stoul16 hex of None \<Rightarrow> hex | Some v \<Rightarrow> int_str (v mod 2 ^ 32))"

definition before_colon :: "string \<Rightarrow> string option" where
  "before_colon s = map_option (\<lambda>i. take i s) (find_str '':'' s)"

definition after_colon :: "string \<Rightarrow> string option" where
  "after_colon s = map_option (\<lambda>i. drop (i + 1) s) (find_str '':'' s)"

definition connection_rows :: "string \<Rightarrow> string list \<Rightarrow> (string \<times> string) list option" where
  "connection_rows proto ts =
     (if length ts < 4 then None
      else case (before_colon (ts ! 1), after_colon (ts ! 1)) of
             (Some ip, Some port) \<Rightarrow>
               (let remote_ip = (case before_colon (ts ! 2) of Some r \<Rightarrow> hex_ip_to_string r | None \<Rightarrow> []);
                    remote_port = (case after_colon (ts ! 2) of Some r \<Rightarrow> hex_port_to_string r | None \<Rightarrow> [])
                in Some [(''protocol'', escaped (drop 10 proto)),
                         (''local_address'', dq (hex_ip_to_string ip @ '':'' @ hex_port_to_string port)),
                         (''remote_address'', dq (remote_ip @ '':'' @ remote_port)), (''state'', escaped (ts ! 3))])
           | _ \<Rightarrow> None)"

definition connection_entries :: "snapshot_env \<Rightarrow> (string \<times> string) list list" where
  "connection_entries env =
       (concat (map (\<lambda>proto. List.map_filter (connection_rows proto) (read_proc_net (se_read env proto)))
          [''/proc/net/tcp'', ''/proc/net/udp'', ''/proc/net/tcp6'', ''/proc/net/udp6'']))"

definition capture_network :: "snapshot_env \<Rightarrow> string" where
  "capture_network env = list_section ''connections'' (connection_entries env)"

definition listens :: "string \<Rightarrow> string list \<Rightarrow> bool" where
  "listens proto ts =
     (if contains proto ''tcp'' then ts ! 3 = ''0A'' else ts ! 2 = ''00000000:0000'' \<or> contains (ts ! 2) '':0000'')"

definition port_rows :: "string \<Rightarrow> string list \<Rightarrow> (string \<times> string) list option" where
  "port_rows proto ts =
     (if length ts < 4 then None
      else if \<not> listens proto ts then None
      else case (before_colon (ts ! 1), after_colon (ts ! 1)) of
             (Some ip, Some port) \<Rightarrow>
               Some [(''protocol'', escaped (drop 10 proto)), (''address'', dq (hex_ip_to_string ip)),
                     (''port'', hex_port_to_string port)]
           | _ \<Rightarrow> None)"

definition port_entries :: "snapshot_env \<Rightarrow> (string \<times> string) list list" where
  "port_entries env =
       (concat (map (\<lambda>proto. List.map_filter (port_rows proto) (read_proc_net (se_read env proto)))
          [''/proc/net/tcp'', ''/proc/net/tcp6'', ''/proc/net/udp'', ''/proc/net/udp6'']))"

definition capture_ports :: "snapshot_env \<Rightarrow> string" where
  "capture_ports env = list_section ''listening_ports'' (port_entries env)"

subsection \<open>Environment\<close>

definition snapshot_vars :: "string list" where
  "snapshot_vars =
     [''PATH'', ''HOME'', ''USER'', ''LOGNAME'', ''SHELL'', ''TERM'', ''LANG'', ''LC_ALL'', ''HOSTNAME'', ''PWD'',
      ''LD_LIBRARY_PATH'', ''LD_PRELOAD'']"

definition masked :: "string \<Rightarrow> string \<Rightarrow> string" where
  "masked var val =
     (if var \<in> {''LD_PRELOAD'', ''LD_LIBRARY_PATH''} \<and> length val > 8 then take 8 val @ ''***'' else val)"

definition environment_rows :: "snapshot_env \<Rightarrow> (string \<times> string) list" where
  "environment_rows env =
     List.map_filter (\<lambda>v. map_option (\<lambda>val. (v, escaped (masked v val))) (se_getenv env v)) snapshot_vars"

definition capture_environment :: "snapshot_env \<Rightarrow> string" where
  "capture_environment env =
     ''      '' @ dq ''environment'' @ '': {'' @ [nl] @ rows indent8 (environment_rows env) @ [nl] @ ''      }''"

subsection \<open>The file\<close>

definition snapshot_sections :: "snapshot_env \<Rightarrow> SnapshotConfig \<Rightarrow> string list" where
  "snapshot_sections env config =
     (if sc_include_load config then [capture_system_load env] else []) @
     (if sc_include_disk config then [capture_disk_usage env] else []) @
     (if sc_include_processes config then [capture_processes env (sc_max_processes config)] else []) @
     (if sc_include_network config then [capture_network env] else []) @
     (if sc_include_ports config then [capture_ports env] else []) @
     (if sc_include_environment config then [capture_environment env] else [])"

text \<open>Each section on lines of its own, with a comma after all but the last.\<close>
fun section_lines :: "string list \<Rightarrow> string" where
  "section_lines [] = []"
| "section_lines [s] = s @ [nl]"
| "section_lines (s # ss) = s @ '','' @ [nl] @ section_lines ss"

definition snapshot_text :: "snapshot_env \<Rightarrow> SnapshotConfig \<Rightarrow> string" where
  "snapshot_text env config =
     ''{'' @ [nl] @ ''  '' @ dq ''snapshot'' @ '': {'' @ [nl] @ capture_metadata env @ '','' @ [nl] @
     ''    '' @ dq ''sections'' @ '': {'' @ [nl] @ section_lines (snapshot_sections env config) @
     ''    }'' @ [nl] @ ''  }'' @ [nl] @ ''}'' @ [nl]"

text \<open>The result, the text on the standard output and the file system.\<close>
definition snapshot_generate :: "snapshot_env \<Rightarrow> SnapshotConfig \<Rightarrow> file_system \<Rightarrow> bool \<times> string \<times> file_system" where
  "snapshot_generate env config fs =
     (let out = snapshot_text env config in
      if sc_output_path config = [] then (True, out, fs)
      else (let (fs1, f) = open_trunc (sc_output_path config) fs
            in if st_fail f then (False, [], fs1) else (True, [], stream_write out fs1 f)))"

subsection \<open>The text is a JSON text\<close>

definition is_json :: "(string \<Rightarrow> double option) \<Rightarrow> string \<Rightarrow> bool" where
  "is_json stod t = (\<exists>v. value_text stod v t)"

text \<open>The value a text is read as.\<close>
definition read_as :: "(string \<Rightarrow> double option) \<Rightarrow> string \<Rightarrow> JsonValue" where
  "read_as stod t = (case parse_json stod t of Inr v \<Rightarrow> v | Inl _ \<Rightarrow> JNull)"

definition row_value :: "(string \<Rightarrow> double option) \<Rightarrow> string \<times> string \<Rightarrow> string \<times> JsonValue" where
  "row_value stod p = (fst p, read_as stod (snd p))"

definition row_object :: "(string \<Rightarrow> double option) \<Rightarrow> (string \<times> string) list \<Rightarrow> JsonValue" where
  "row_object stod ps = JObject (omap_of (map (row_value stod) ps))"

definition rows_ok :: "(string \<Rightarrow> double option) \<Rightarrow> (string \<times> string) list \<Rightarrow> bool" where
  "rows_ok stod ps = list_all (\<lambda>p. plain_text (fst p) \<and> is_json stod (snd p)) ps"

lemma read_as_text: "value_text stod v t \<Longrightarrow> read_as stod t = v"
  using parse_grammar [of stod v t "[]" "[]"] by (simp add: read_as_def)

lemma is_json_read: "is_json stod t \<longleftrightarrow> value_text stod (read_as stod t) t"
  by (auto simp: is_json_def read_as_text)

lemma row_member:
  assumes "plain_text k" "value_text stod v t" "json_space ind"
  shows "member_text stod (k, v) (row ind (k, t))"
  using member_plain [OF assms, of "'' ''" "[]"] by (simp add: row_def)

lemma row_members:
  "rows_ok stod ps \<Longrightarrow> json_space ind \<Longrightarrow> list_all2 (member_text stod) (map (row_value stod) ps) (map (row ind) ps)"
proof (induction ps)
  case (Cons p ps)
  then have "plain_text (fst p)" "value_text stod (read_as stod (snd p)) (snd p)" by (simp_all add: rows_ok_def is_json_read)
  from row_member [OF this Cons.prems(2)] Cons show ?case by (simp add: row_value_def rows_ok_def)
qed simp

lemma object_rows_text:
  assumes "rows_ok stod ps" "json_space ind" "json_space e"
  shows "value_text stod (row_object stod ps) (''{'' @ [nl] @ rows ind ps @ [nl] @ e @ ''}'')"
  using object_join_pads [OF row_members [OF assms(1,2)], of "[nl]" "[nl]" "[nl] @ e"] assms(3)
  by (simp add: row_object_def rows_def)

lemma indents [simp]: "json_space indent8" "json_space indent10"
  by (simp_all add: indent8_def indent10_def)

lemma list_section_member:
  assumes "list_all (rows_ok stod) es" "plain_text name"
  shows "member_text stod (name, JArray (map (row_object stod) es)) (list_section name es)"
proof -
  have "list_all2 (json_item stod) (map (row_object stod) es) (map element es)"
    using assms(1)
  proof (induction es)
    case (Cons ps es)
    then have "json_item stod (row_object stod ps) (element ps)"
      unfolding element_def by (intro json_item_pad json_itemI object_rows_text) simp_all
    with Cons show ?case by simp
  qed simp
  from array_join_pads [OF this, of "[nl]" "[nl]" "[nl] @ ''      ''"]
  have "value_text stod (JArray (map (row_object stod) es))
      (''['' @ [nl] @ join_with ('','' @ [nl]) (map element es) @ ([nl] @ ''      '') @ '']'')"
    by simp
  from member_plain [OF assms(2) this, of "''      ''" "'' ''" "[]"] show ?thesis
    by (simp add: list_section_def)
qed

lemma object_section_member:
  assumes "rows_ok stod ps" "plain_text name"
  shows "member_text stod (name, row_object stod ps) (''      '' @ dq name @ '': {'' @ [nl] @ rows indent8 ps @ [nl] @ ''      }'')"
  using member_plain [OF assms(2) object_rows_text [OF assms(1), of indent8 "''      ''"], of "''      ''" "'' ''" "[]"] by simp

lemma section_lines_eq: "section_lines ss = join_with ('','' @ [nl]) ss @ (if ss = [] then [] else [nl])"
  by (induction ss rule: section_lines.induct) simp_all

lemma plain_text_simps [simp]:
  "plain_text []" "plain_text (c # s) \<longleftrightarrow> c \<noteq> dquote \<and> c \<noteq> backslash \<and> \<not> c < CHR 0x20 \<and> plain_text s"
  "plain_text (s @ t) \<longleftrightarrow> plain_text s \<and> plain_text t"
  by (auto simp: plain_text_def)

lemma plain_text_part: "plain_text s \<Longrightarrow> plain_text (take n s)" "plain_text s \<Longrightarrow> plain_text (drop n s)"
  by (auto simp: plain_text_def list_all_iff dest: in_set_takeD in_set_dropD)

lemma digit_plain: "isdigit c \<Longrightarrow> plain_text [c]"
  by (auto simp: isdigit_def dest: le_less_trans)

lemma plain_nat_str [simp]: "plain_text (nat_str n)"
  using nat_str_digits [of _ n] digit_plain by (auto simp: plain_text_def list_all_iff)

lemma plain_int_str [simp]: "plain_text (int_str i)"
  by (simp add: int_str_def)

lemma plain_iso: "plain_text (format_iso8601 ts)"
  by (simp add: format_iso8601_def strftime_iso_def pad2_def pad4_def)

lemma plain_hex_ip: "plain_text h \<Longrightarrow> plain_text (hex_ip_to_string h)"
  by (simp add: hex_ip_to_string_def Let_def split: option.split)

lemma plain_hex_port: "plain_text h \<Longrightarrow> plain_text (hex_port_to_string h)"
  by (simp add: hex_port_to_string_def split: option.split)

lemma plain_colon: "plain_text s \<Longrightarrow> before_colon s = Some t \<Longrightarrow> plain_text t"
  "plain_text s \<Longrightarrow> after_colon s = Some t \<Longrightarrow> plain_text t"
  by (auto simp: before_colon_def after_colon_def plain_text_part)

text \<open>What the answers of the system have to be like, as documented.  The library prints every number that is neither
  too small nor too large as a number, and \<open>std::stod\<close>, which throws beyond the range of \<open>double\<close>, reads it and
  every integer of less than a hundred bits.  The load averages are such numbers, a percentage of two
  integers is one, clocks and \<open>long\<close> values have 64 bits, and sorting permutes.\<close>
definition printable :: "rat \<Rightarrow> bool" where
  "printable x = (x = 0 \<or> 1 / 2 ^ 1000 \<le> \<bar>x\<bar> \<and> \<bar>x\<bar> \<le> 2 ^ 1000)"

definition numbers_ok :: "(string \<Rightarrow> double option) \<Rightarrow> snapshot_env \<Rightarrow> bool" where
  "numbers_ok stod env =
     ((\<forall>i. \<bar>i\<bar> < 2 ^ 100 \<longrightarrow> stod (int_str i) \<noteq> None) \<and>
      (\<forall>x. printable x \<longrightarrow> number_literal (se_text env (Fin x)) \<and> stod (se_text env (Fin x)) \<noteq> None) \<and>
      (\<forall>c. se_read env ''/proc/loadavg'' = Some c \<longrightarrow>
         (\<exists>x y z. se_doubles env c = (Fin x, Fin y, Fin z) \<and> printable x \<and> printable y \<and> printable z)) \<and>
      (\<forall>a b. \<bar>a\<bar> < 2 ^ 80 \<and> 0 < b \<and> b < 2 ^ 80 \<longrightarrow> (\<exists>x. do_percent (se_ops env) a b = Fin x \<and> printable x)) \<and>
      in_int64 (se_now_ms env) \<and> (\<forall>up. se_sysinfo env = Some up \<longrightarrow> in_int64 up) \<and>
      (\<forall>d. in_int64 (do_to_int (se_ops env) d)) \<and> (\<forall>ps. set (se_sort env ps) = set ps))"

text \<open>The tables of connections have addresses without quotes, backslashes and control characters and a
  hexadecimal local port.\<close>
definition net_row_ok :: "string list \<Rightarrow> bool" where
  "net_row_ok ts =
     (length ts \<ge> 4 \<longrightarrow> plain_text (ts ! 1) \<and> plain_text (ts ! 2) \<and>
        (case after_colon (ts ! 1) of None \<Rightarrow> True | Some port \<Rightarrow> stoul16 port \<noteq> None))"

definition net_tables :: "string list" where
  "net_tables = [''/proc/net/tcp'', ''/proc/net/udp'', ''/proc/net/tcp6'', ''/proc/net/udp6'']"

definition snapshot_env_ok :: "(string \<Rightarrow> double option) \<Rightarrow> snapshot_env \<Rightarrow> bool" where
  "snapshot_env_ok stod env =
     (numbers_ok stod env \<and> list_all (\<lambda>p. list_all net_row_ok (read_proc_net (se_read env p))) net_tables)"

text \<open>The integers of a snapshot are in range: below 80 bits.\<close>
definition small :: "int \<Rightarrow> bool" where
  "small i = (\<bar>i\<bar> < 2 ^ 80)"

lemma small_int64: "in_int64 i \<Longrightarrow> small i"
  by (simp add: in_int64_def small_def abs_less_iff)

lemma small_diff: "\<bar>a\<bar> \<le> 2 ^ 76 \<Longrightarrow> \<bar>b\<bar> \<le> 2 ^ 76 \<Longrightarrow> small (a - b)"
  by (simp add: small_def)

lemma sint_bound: "\<bar>sint w\<bar> \<le> 2 ^ 63" for w :: "64 word"
  using sint_range_size [of w] by (simp add: word_size abs_le_iff)

lemma small_sint: "small (sint w)" for w :: "64 word"
  using sint_bound [of w] by (simp add: small_def)

lemma small_unix_ms:
  assumes "in_int64 t"
  shows "small (to_unix_ms t)"
proof -
  have "\<bar>t\<bar> \<le> 2 ^ 63" using assms by (simp add: in_int64_def abs_le_iff)
  moreover have "\<bar>t\<bar> div 1000000 \<le> \<bar>t\<bar> div 1" by (rule zdiv_mono2) simp_all
  moreover have "\<bar>tdiv t 1000000\<bar> = \<bar>t\<bar> div 1000000" if "t \<noteq> 0"
    using that by (auto simp: tdiv_def abs_mult pos_imp_zdiv_nonneg_iff)
  moreover have "tdiv t 1000000 = 0" if "t = 0" using that by (simp add: tdiv_def)
  ultimately show ?thesis by (cases "t = 0") (simp_all add: to_unix_ms_def small_def)
qed

lemma extract_int_bound: "\<bar>hd (extract_ints [0] s)\<bar> \<le> 2 ^ 63"
  by (auto simp: in_int64_def split: option.split)

definition meminfo_bounded :: "meminfo \<Rightarrow> bool" where
  "meminfo_bounded m = list_all (\<lambda>i. \<bar>i\<bar> \<le> 2 ^ 73)
     [mi_total m, mi_free m, mi_available m, mi_buffers m, mi_cached m, mi_swap_total m, mi_swap_free m]"

lemma meminfo_line_bounded: "meminfo_bounded m \<Longrightarrow> meminfo_bounded (meminfo_line l m)"
proof -
  define v where "v = hd (extract_ints [0] (after_label l)) * 1024"
  have "\<bar>v\<bar> \<le> 2 ^ 73" using extract_int_bound [of "after_label l"] by (simp add: v_def abs_mult)
  then show "meminfo_bounded m \<Longrightarrow> meminfo_bounded (meminfo_line l m)"
    by (simp add: meminfo_line_def meminfo_bounded_def Let_def v_def [symmetric] del: extract_ints.simps)
qed

lemma read_meminfo_bounds:
  "\<bar>mi_total (read_meminfo c)\<bar> \<le> 2 ^ 76" "\<bar>mi_available (read_meminfo c)\<bar> \<le> 2 ^ 76"
  "\<bar>mi_swap_total (read_meminfo c)\<bar> \<le> 2 ^ 76" "\<bar>mi_swap_free (read_meminfo c)\<bar> \<le> 2 ^ 76"
proof -
  have "meminfo_bounded (fold meminfo_line ls m)" if "meminfo_bounded m" for ls m
    using that by (induction ls arbitrary: m) (simp_all add: meminfo_line_bounded)
  then have "meminfo_bounded (fold meminfo_line ls
      \<lparr> mi_total = 0, mi_free = 0, mi_available = 0, mi_buffers = 0, mi_cached = 0, mi_swap_total = 0, mi_swap_free = 0 \<rparr>)" for ls
    by (simp add: meminfo_bounded_def)
  from this [of "case c of None \<Rightarrow> [] | Some c \<Rightarrow> getlines c"]
  show "\<bar>mi_total (read_meminfo c)\<bar> \<le> 2 ^ 76" "\<bar>mi_available (read_meminfo c)\<bar> \<le> 2 ^ 76"
    "\<bar>mi_swap_total (read_meminfo c)\<bar> \<le> 2 ^ 76" "\<bar>mi_swap_free (read_meminfo c)\<bar> \<le> 2 ^ 76"
    by (auto simp: read_meminfo_def meminfo_bounded_def Let_def)
qed

definition entry_small :: "ProcEntry \<Rightarrow> bool" where
  "entry_small p = (small (pr_pid p) \<and> small (pr_ppid p) \<and> small (pr_memory_bytes p))"

lemma stoll_small: "stoll s = Some v \<Longrightarrow> small v"
  by (auto simp: stoll_def small_int64 split: option.splits if_splits)

lemma status_line_small: "entry_small p \<Longrightarrow> entry_small (status_line l p)"
proof -
  have "small (hd (extract_ints [0] s) * 1024)" for s using extract_int_bound [of s] by (simp add: small_def)
  then show "entry_small p \<Longrightarrow> entry_small (status_line l p)"
    by (auto simp: status_line_def entry_small_def dest: stoll_small split: option.split simp del: extract_ints.simps)
qed

lemma proc_entry_small: "proc_entry_of d = Some p \<Longrightarrow> entry_small p"
proof -
  have "entry_small (fold status_line ls p)" if "entry_small p" for ls p
    using that by (induction ls arbitrary: p) (simp_all add: status_line_small)
  moreover have "small 0" by (simp add: small_def)
  ultimately have f: "entry_small (fold status_line ls \<lparr> pr_pid = pid, pr_name = [], pr_user = [], pr_memory_bytes = 0, pr_ppid = 0, pr_command_line = [] \<rparr>)"
    if "small pid" for ls pid using that by (simp add: entry_small_def)
  assume "proc_entry_of d = Some p"
  then show ?thesis using f [of _ "[]"] f
    by (auto simp: proc_entry_of_def Let_def entry_small_def dest!: stoll_small split: option.splits if_splits)
qed

lemma shown_processes_small:
  assumes "numbers_ok stod env" "p \<in> set (shown_processes env n)"
  shows "entry_small p"
proof -
  have "p \<in> set (se_sort env (List.map_filter proc_entry_of (se_proc env)))"
    using assms(2) by (auto simp: shown_processes_def Let_def dest: in_set_takeD split: if_splits)
  then have "p \<in> set (List.map_filter proc_entry_of (se_proc env))" using assms(1) by (simp add: numbers_ok_def)
  then show ?thesis using proc_entry_small by (auto simp: List.map_filter_def)
qed

lemma number_int_str: "number_literal (int_str i)"
  using number_nat_str by (simp add: int_str_def number_literal_def number_char_def)

lemma json_pieces:
  assumes "numbers_ok stod env"
  shows "small i \<Longrightarrow> is_json stod (int_str i)" "printable x \<Longrightarrow> is_json stod (se_text env (Fin x))" "is_json stod (escaped s)"
    and "plain_text t \<Longrightarrow> is_json stod (dq t)"
proof -
  have num: "is_json stod t" if "number_literal t" "stod t \<noteq> None" for t
    using that text_number [of t stod] by (auto simp: is_json_def)
  show "is_json stod (int_str i)" if "small i"
  proof (rule num [OF number_int_str])
    have "(2 :: int) ^ 80 < 2 ^ 100" by simp
    with that have "\<bar>i\<bar> < 2 ^ 100" unfolding small_def by linarith
    then show "stod (int_str i) \<noteq> None" using assms by (simp add: numbers_ok_def)
  qed
  show "is_json stod (se_text env (Fin x))" if "printable x" using assms num that by (simp add: numbers_ok_def)
  show "is_json stod (escaped s)"
    using text_string [of stod True s] by (auto simp: is_json_def escaped_def snapshot_escape_def dq_def json_literal_def)
  show "is_json stod (dq t)" if "plain_text t"
    using text_string [of stod False t] that by (auto simp: is_json_def dq_plain)
qed

lemma zero_printable [simp]: "printable 0"
  by (simp add: printable_def)

lemma percent_pieces:
  assumes "numbers_ok stod env" "small u" "small t"
  shows "is_json stod (se_text env (if t > 0 then do_percent (se_ops env) u t else Fin 0))"
proof (cases "t > 0")
  case True
  then have "t < 2 ^ 80" using assms(3) by (simp add: small_def)
  then obtain x where "do_percent (se_ops env) u t = Fin x" "printable x"
    using assms(1,2) True unfolding numbers_ok_def small_def by blast
  then show ?thesis using json_pieces(2) [OF assms(1)] True by simp
qed (simp add: json_pieces(2) [OF assms(1)])

lemma map_filter_all: "(\<And>x y. x \<in> set xs \<Longrightarrow> f x = Some y \<Longrightarrow> P y) \<Longrightarrow> list_all P (List.map_filter f xs)"
  by (auto simp: list_all_iff List.map_filter_def)

lemma disk_rows_ok: "numbers_ok stod env \<Longrightarrow> disk_rows env p = Some ps \<Longrightarrow> rows_ok stod ps"
proof -
  assume ok: "numbers_ok stod env" and ps: "disk_rows env p = Some ps"
  show "rows_ok stod ps"
    using ps by (auto simp: disk_rows_def rows_ok_def Let_def json_pieces [OF ok] small_sint percent_pieces [OF ok small_sint small_sint]
        simp del: of_int_sint split: option.splits)
qed

lemma process_rows_ok: "numbers_ok stod env \<Longrightarrow> entry_small p \<Longrightarrow> rows_ok stod (process_rows p)"
  by (simp add: process_rows_def rows_ok_def json_pieces entry_small_def)

lemma connection_rows_ok:
  assumes "numbers_ok stod env" "net_row_ok ts" "connection_rows proto ts = Some ps"
  shows "rows_ok stod ps"
proof -
  obtain ip port rip rport where c: "before_colon (ts ! 1) = Some ip" "after_colon (ts ! 1) = Some port" "length ts \<ge> 4"
      "rip = (case before_colon (ts ! 2) of Some r \<Rightarrow> hex_ip_to_string r | None \<Rightarrow> [])"
      "rport = (case after_colon (ts ! 2) of Some r \<Rightarrow> hex_port_to_string r | None \<Rightarrow> [])"
      "ps = [(''protocol'', escaped (drop 10 proto)), (''local_address'', dq (hex_ip_to_string ip @ '':'' @ hex_port_to_string port)),
             (''remote_address'', dq (rip @ '':'' @ rport)), (''state'', escaped (ts ! 3))]"
    using assms(3) by (auto simp: connection_rows_def Let_def split: option.splits if_splits)
  have t: "plain_text (ts ! 1)" "plain_text (ts ! 2)" using assms(2) c(3) by (auto simp: net_row_ok_def)
  have "plain_text rip" "plain_text rport"
    using plain_colon [OF t(2)] plain_hex_ip plain_hex_port by (auto simp: c(4,5) split: option.split)
  moreover have "plain_text (hex_ip_to_string ip)" "plain_text (hex_port_to_string port)"
    using plain_colon [OF t(1)] plain_hex_ip plain_hex_port c(1,2) by blast+
  ultimately show ?thesis
    using json_pieces [OF assms(1)] by (simp add: c(6) rows_ok_def)
qed

lemma small_port: "small (v mod 4294967296)"
  by (simp add: small_def abs_of_nonneg pos_mod_bound [THEN less_trans])

lemma port_rows_ok:
  assumes "numbers_ok stod env" "net_row_ok ts" "port_rows proto ts = Some ps"
  shows "rows_ok stod ps"
proof -
  obtain ip port where c: "before_colon (ts ! 1) = Some ip" "after_colon (ts ! 1) = Some port" "length ts \<ge> 4"
      "ps = [(''protocol'', escaped (drop 10 proto)), (''address'', dq (hex_ip_to_string ip)), (''port'', hex_port_to_string port)]"
    using assms(3) by (auto simp: port_rows_def split: option.splits if_splits)
  then have "plain_text ip" "stoul16 port \<noteq> None"
    using assms(2) plain_colon(1) by (auto simp: net_row_ok_def)
  then show ?thesis
    using c(4) json_pieces [OF assms(1)] plain_hex_ip by (auto simp: rows_ok_def hex_port_to_string_def small_port)
qed

lemma system_rows_ok:
  assumes "numbers_ok stod env"
  shows "rows_ok stod (system_rows env)"
proof -
  obtain x y z where l: "(case se_read env ''/proc/loadavg'' of None \<Rightarrow> (Fin 0, Fin 0, Fin 0) | Some c \<Rightarrow> se_doubles env c)
      = (Fin x, Fin y, Fin z)" "printable x" "printable y" "printable z"
  proof (cases "se_read env ''/proc/loadavg''")
    case (Some c)
    obtain x y z where "se_doubles env c = (Fin x, Fin y, Fin z)" "printable x" "printable y" "printable z"
      using assms Some unfolding numbers_ok_def by blast
    then show ?thesis using Some by (intro that [of x y z]) simp_all
  qed (use that [of 0 0 0] in simp)
  let ?m = "read_meminfo (se_read env ''/proc/meminfo'')"
  note b = read_meminfo_bounds [of "se_read env ''/proc/meminfo''"]
  have sm: "small (mi_total ?m)" "small (mi_available ?m)" "small (mi_swap_total ?m)"
    "small (mi_total ?m - mi_available ?m)" "small (mi_swap_total ?m - mi_swap_free ?m)"
    using b small_diff [OF b(1,2)] small_diff [OF b(3,4)] by (simp_all add: small_def)
  show ?thesis
    unfolding system_rows_def Let_def l prod.case
    by (simp add: rows_ok_def json_pieces [OF assms] l sm percent_pieces [OF assms sm(4,1)] percent_pieces [OF assms sm(5,3)])
qed

lemma environment_rows_ok:
  assumes "numbers_ok stod env"
  shows "rows_ok stod (environment_rows env)"
  unfolding rows_ok_def environment_rows_def
proof (rule map_filter_all)
  fix v p assume "v \<in> set snapshot_vars" "map_option (\<lambda>val. (v, escaped (masked v val))) (se_getenv env v) = Some p"
  moreover have "list_all plain_text snapshot_vars" by (simp add: snapshot_vars_def)
  ultimately show "plain_text (fst p) \<and> is_json stod (snd p)"
    using json_pieces(3) [OF assms] by (auto simp: list_all_iff)
qed

lemma net_rows_ok:
  assumes "snapshot_env_ok stod env" "set protos \<subseteq> set net_tables"
    and "\<And>proto ts ps. net_row_ok ts \<Longrightarrow> f proto ts = Some ps \<Longrightarrow> rows_ok stod ps"
  shows "list_all (rows_ok stod) (concat (map (\<lambda>proto. List.map_filter (f proto) (read_proc_net (se_read env proto))) protos))"
proof -
  have "list_all (rows_ok stod) (List.map_filter (f proto) (read_proc_net (se_read env proto)))" if "proto \<in> set protos" for proto
    using assms(1,2) that by (intro map_filter_all assms(3)) (auto simp: snapshot_env_ok_def list_all_iff)
  then show ?thesis by (auto simp: list_all_iff)
qed

lemma entries_ok:
  assumes "snapshot_env_ok stod env"
  shows "list_all (rows_ok stod) (disk_entries env)"
    and "list_all (rows_ok stod) (map process_rows (shown_processes env n))"
    and "list_all (rows_ok stod) (connection_entries env)"
    and "list_all (rows_ok stod) (port_entries env)"
proof -
  have ok: "numbers_ok stod env" using assms by (simp add: snapshot_env_ok_def)
  show "list_all (rows_ok stod) (disk_entries env)"
    unfolding disk_entries_def Let_def by (rule map_filter_all) (rule disk_rows_ok [OF ok])
  show "list_all (rows_ok stod) (map process_rows (shown_processes env n))"
    using process_rows_ok [OF ok] shown_processes_small [OF ok] by (auto simp: list_all_iff)
  show "list_all (rows_ok stod) (connection_entries env)"
    unfolding connection_entries_def by (rule net_rows_ok [OF assms _ connection_rows_ok [OF ok]]) (simp add: net_tables_def)
  show "list_all (rows_ok stod) (port_entries env)"
    unfolding port_entries_def by (rule net_rows_ok [OF assms _ port_rows_ok [OF ok]]) (simp add: net_tables_def)
qed

lemma small_uptime: "numbers_ok stod env \<Longrightarrow> small (uptime_seconds env)"
  using small_int64 [of 0]
  by (auto simp: uptime_seconds_def numbers_ok_def in_int64_def intro!: small_int64 split: option.split)

lemma metadata_rows_ok: "numbers_ok stod env \<Longrightarrow> rows_ok stod (metadata_rows env)"
proof -
  assume ok: "numbers_ok stod env"
  then have "in_int64 (se_now_ms env)" by (simp add: numbers_ok_def)
  then show ?thesis using ok by (simp add: metadata_rows_def rows_ok_def json_pieces [OF ok] plain_iso small_uptime small_unix_ms)
qed

text \<open>What the snapshot says: the value its text stands for, section by section.\<close>
definition section_values :: "(string \<Rightarrow> double option) \<Rightarrow> snapshot_env \<Rightarrow> SnapshotConfig \<Rightarrow> (string \<times> JsonValue) list" where
  "section_values stod env config =
     (if sc_include_load config then [(''system'', row_object stod (system_rows env))] else []) @
     (if sc_include_disk config then [(''disks'', JArray (map (row_object stod) (disk_entries env)))] else []) @
     (if sc_include_processes config
      then [(''processes'', JArray (map (\<lambda>p. row_object stod (process_rows p)) (shown_processes env (sc_max_processes config))))]
      else []) @
     (if sc_include_network config then [(''connections'', JArray (map (row_object stod) (connection_entries env)))] else []) @
     (if sc_include_ports config then [(''listening_ports'', JArray (map (row_object stod) (port_entries env)))] else []) @
     (if sc_include_environment config then [(''environment'', row_object stod (environment_rows env))] else [])"

definition snapshot_body :: "(string \<Rightarrow> double option) \<Rightarrow> snapshot_env \<Rightarrow> SnapshotConfig \<Rightarrow> JsonValue" where
  "snapshot_body stod env config =
     JObject (omap_of (map (row_value stod) (metadata_rows env) @ [(''sections'', JObject (omap_of (section_values stod env config)))]))"

lemma sections_members:
  assumes "snapshot_env_ok stod env"
  shows "list_all2 (member_text stod) (section_values stod env config) (snapshot_sections env config)"
proof -
  have ok: "numbers_ok stod env" using assms by (simp add: snapshot_env_ok_def)
  have "member_text stod (''system'', row_object stod (system_rows env)) (capture_system_load env)"
    unfolding capture_system_load_def by (rule object_section_member [OF system_rows_ok [OF ok]]) simp
  moreover have "member_text stod (''environment'', row_object stod (environment_rows env)) (capture_environment env)"
    unfolding capture_environment_def by (rule object_section_member [OF environment_rows_ok [OF ok]]) simp
  moreover have "member_text stod (''disks'', JArray (map (row_object stod) (disk_entries env))) (capture_disk_usage env)"
    unfolding capture_disk_usage_def by (rule list_section_member [OF entries_ok(1) [OF assms]]) simp
  moreover have "member_text stod (''processes'', JArray (map (\<lambda>p. row_object stod (process_rows p)) (shown_processes env n)))
      (capture_processes env n)" for n
    using list_section_member [OF entries_ok(2) [OF assms, of n], of "''processes''"]
    by (simp add: capture_processes_def o_def)
  moreover have "member_text stod (''connections'', JArray (map (row_object stod) (connection_entries env))) (capture_network env)"
    unfolding capture_network_def by (rule list_section_member [OF entries_ok(3) [OF assms]]) simp
  moreover have "member_text stod (''listening_ports'', JArray (map (row_object stod) (port_entries env))) (capture_ports env)"
    unfolding capture_ports_def by (rule list_section_member [OF entries_ok(4) [OF assms]]) simp
  ultimately show ?thesis by (simp add: section_values_def snapshot_sections_def)
qed

lemma snapshot_parses:
  assumes "snapshot_env_ok stod env"
  shows "parse_json stod (snapshot_text env config) = Inr (JObject [(''snapshot'', snapshot_body stod env config)])"
proof -
  let ?ss = "snapshot_sections env config"
  let ?meta = "metadata_rows env"
  let ?secs = "''{'' @ [nl] @ join_with ('','' @ [nl]) ?ss @ ((if ?ss = [] then [] else [nl]) @ ''    '') @ ''}''"
  let ?rows = "?meta @ [(''sections'', ?secs)]"
  let ?snap = "''{'' @ [nl] @ join_with ('','' @ [nl]) (map (row ''    '') ?rows) @ ([nl] @ ''  '') @ ''}''"
  let ?doc = "''{'' @ [nl] @ join_with ('','' @ [nl]) (map (row ''  '') [(''snapshot'', ?snap)]) @ [nl] @ ''}''"
  from object_join_pads [OF sections_members [OF assms, of config], of "[nl]" "[nl]" "(if ?ss = [] then [] else [nl]) @ ''    ''"]
  have secs: "value_text stod (JObject (omap_of (section_values stod env config))) ?secs" by simp
  have m: "list_all2 (member_text stod) (map (row_value stod) ?meta) (map (row ''    '') ?meta)"
    by (rule row_members [OF metadata_rows_ok]) (use assms in \<open>simp_all add: snapshot_env_ok_def\<close>)
  have "list_all2 (member_text stod)
      (map (row_value stod) ?meta @ [(''sections'', JObject (omap_of (section_values stod env config)))]) (map (row ''    '') ?rows)"
    unfolding map_append by (rule list_all2_appendI [OF m]) (use row_member [OF _ secs, of "''sections''" "''    ''"] in simp)
  from object_join_pads [OF this, of "[nl]" "[nl]" "[nl] @ ''  ''"]
  have snap: "value_text stod (snapshot_body stod env config) ?snap" by (simp add: snapshot_body_def)
  have "list_all2 (member_text stod) [(''snapshot'', snapshot_body stod env config)] (map (row ''  '') [(''snapshot'', ?snap)])"
    using row_member [OF _ snap, of "''snapshot''" "''  ''"] by simp
  from object_join_pads [OF this, of "[nl]" "[nl]" "[nl]"]
  have doc: "value_text stod (JObject [(''snapshot'', snapshot_body stod env config)]) ?doc" by (simp add: omap_of_def)
  have "snapshot_text env config = [] @ ?doc @ [nl]"
    by (simp add: snapshot_text_def capture_metadata_def rows_def row_def section_lines_eq join_append metadata_rows_def)
  then show ?thesis
    using parse_grammar [OF doc, of "[]" "[nl]"] by (simp add: number_end_def number_char_def isdigit_def)
qed

lemma read_escaped: "read_as stod (escaped x) = JString (map (seen_char True) x)"
  using text_string [of stod True x] read_as_text by (simp add: escaped_def snapshot_escape_def dq_def json_literal_def)

lemma read_int:
  assumes "numbers_ok stod env" "\<bar>i\<bar> < 2 ^ 100"
  shows "read_as stod (int_str i) = JNumber (the (stod (int_str i)))"
proof -
  obtain d where "stod (int_str i) = Some d" using assms unfolding numbers_ok_def by blast
  from read_as_text [OF text_number [of "int_str i" stod, OF number_int_str this]] this show ?thesis by simp
qed

lemma read_uptime:
  assumes "numbers_ok stod env"
  shows "read_as stod (int_str (uptime_seconds env)) = JNumber (the (stod (int_str (uptime_seconds env))))"
proof (rule read_int [OF assms])
  have "(2 :: int) ^ 80 < 2 ^ 100" by simp
  with small_uptime [OF assms] show "\<bar>uptime_seconds env\<bar> < 2 ^ 100" unfolding small_def by linarith
qed

text \<open>C8: whatever the system answers (in the documented formats: numbers the library can print and read, and
  addresses and hexadecimal ports in the tables of connections) and whatever sections are asked for, the
  snapshot is a JSON text, and the program's own parser reads it as what it was made from: an object
  \<open>snapshot\<close> with the eight metadata fields and the sections asked for, each with its rows in order; the
  texts in it are read back up to control characters without a short escape, the integers as \<open>stod\<close>
  reads them.\<close>
theorem snapshot_text_loads:
  assumes "snapshot_env_ok stod env"
  shows "parse_json stod (snapshot_text env config) =
      Inr (JObject [(''snapshot'',
        JObject (omap_of (map (row_value stod) (metadata_rows env) @
          [(''sections'', JObject (omap_of (section_values stod env config)))])))]) \<and>
    read_as stod (escaped x) = JString (map (seen_char True) x) \<and>
    (\<bar>i\<bar> < 2 ^ 100 \<longrightarrow> read_as stod (int_str i) = JNumber (the (stod (int_str i))))"
  using snapshot_parses [OF assms] read_escaped read_int [of stod env i] assms by (simp add: snapshot_body_def snapshot_env_ok_def)

subsection \<open>Written and compared\<close>

lemma generate_written:
  assumes "snapshot_generate env conf fs = (True, [], fs1)"
  shows "sc_output_path conf \<noteq> [] \<and> fs_files fs1 = (fs_files fs)(sc_output_path conf \<mapsto> snapshot_text env conf)"
  using assms
  by (auto simp: snapshot_generate_def snapshot_text_def open_trunc_def Let_def split: if_splits)

lemma sections_distinct: "distinct (map fst (section_values stod env config))"
  by (simp add: section_values_def)

lemma loaded_snapshot:
  assumes "snapshot_env_ok stod env" "read_file fs path = Some (snapshot_text env config)"
  shows "load_snapshot stod fs path = Some (snapshot_body stod env config, JObject (omap_of (section_values stod env config)))"
  using snapshot_parses [OF assms(1)]
  by (simp add: load_snapshot_def assms(2) extract_snapshot_def json_find_def snapshot_body_def map_of_omap_of)

lemma loaded_section:
  "json_find name (JObject (omap_of (section_values stod env config))) = map_of (section_values stod env config) name"
  by (simp add: json_find_def map_of_omap_of map_of_rev_distinct sections_distinct)

text \<open>The metadata the comparison looks at.\<close>
definition metadata_agree :: "(string \<Rightarrow> double option) \<Rightarrow> (double \<Rightarrow> string) \<Rightarrow> snapshot_env \<Rightarrow> snapshot_env \<Rightarrow> bool" where
  "metadata_agree stod nt env_a env_b =
     (map (seen_char True) (se_hostname env_a) = map (seen_char True) (se_hostname env_b) \<and>
      map (seen_char True) (se_platform env_a) = map (seen_char True) (se_platform env_b) \<and>
      map (seen_char True) (se_architecture env_a) = map (seen_char True) (se_architecture env_b) \<and>
      map (seen_char True) (se_user env_a) = map (seen_char True) (se_user env_b) \<and>
      nt (the (stod (int_str (uptime_seconds env_a)))) = nt (the (stod (int_str (uptime_seconds env_b)))))"

lemma list_all_map_eq: "list_all (\<lambda>k. f k = g k) ks \<longleftrightarrow> map f ks = map g ks"
  by (induction ks) auto

lemma metadata_compared:
  assumes "snapshot_env_ok stod env_a" "snapshot_env_ok stod env_b"
  shows "list_all (\<lambda>k. map_option (scalar_to_string nt) (json_find k (snapshot_body stod env_a conf_a)) =
      map_option (scalar_to_string nt) (json_find k (snapshot_body stod env_b conf_b))) meta_keys \<longleftrightarrow>
    metadata_agree stod nt env_a env_b"
proof -
  have "map (\<lambda>k. map_option (scalar_to_string nt) (json_find k (snapshot_body stod env conf))) meta_keys =
      map Some [map (seen_char True) (se_hostname env), map (seen_char True) (se_platform env),
        map (seen_char True) (se_architecture env), map (seen_char True) (se_user env),
        nt (the (stod (int_str (uptime_seconds env))))]"
    if "snapshot_env_ok stod env" for env conf
    using read_uptime [of stod env] that
    by (simp add: meta_keys_def json_find_def snapshot_body_def map_of_omap_of metadata_rows_def row_value_def
        read_escaped scalar_to_string_def snapshot_env_ok_def)
  note meta = this [OF assms(1), of conf_a] this [OF assms(2), of conf_b]
  show ?thesis unfolding list_all_map_eq meta by (simp add: metadata_agree_def)
qed

text \<open>What the snapshot shows of a variable.\<close>
definition shown_variable :: "snapshot_env \<Rightarrow> string \<Rightarrow> string option" where
  "shown_variable env v = map_option (\<lambda>val. map (seen_char True) (masked v val)) (se_getenv env v)"

lemma environment_lookup:
  "map_of (omap_of (map (row_value stod) (environment_rows env))) v =
    (if v \<in> set snapshot_vars then map_option JString (shown_variable env v) else None)"
proof -
  let ?f = "\<lambda>v. map_option (\<lambda>val. (v, escaped (masked v val))) (se_getenv env v)"
  have keys: "map fst (List.map_filter ?f vs) = filter (\<lambda>v. se_getenv env v \<noteq> None) vs" for vs
    by (induction vs) (auto simp: List.map_filter_simps)
  have "distinct snapshot_vars" by (simp add: snapshot_vars_def)
  then have "distinct (map fst (map (row_value stod) (environment_rows env)))"
    using keys [of snapshot_vars] by (simp add: environment_rows_def o_def row_value_def)
  then have rev: "map_of (omap_of (map (row_value stod) (environment_rows env))) v = map_of (map (row_value stod) (environment_rows env)) v"
    by (simp add: map_of_omap_of map_of_rev_distinct del: map_map)
  have "map_of (map (row_value stod) (List.map_filter ?f vs)) v =
      (if v \<in> set vs then map_option JString (shown_variable env v) else None)" for vs
    by (induction vs)
      (auto simp: List.map_filter_simps row_value_def shown_variable_def read_escaped split: option.split)
  then show ?thesis unfolding rev unfolding environment_rows_def .
qed

lemma environment_compared:
  "sections_agree nt False (Some (row_object stod (environment_rows env_a))) (Some (row_object stod (environment_rows env_b))) \<longleftrightarrow>
    list_all (\<lambda>v. shown_variable env_a v = shown_variable env_b v) snapshot_vars"
proof -
  have "fields_agree nt (map_option JString x) (map_option JString y) \<longleftrightarrow> x = y" for x y :: "string option"
    by (cases x; cases y) (simp_all add: fields_agree_def is_scalar_def is_object_def is_array_def scalar_to_string_def)
  then show ?thesis
    by (auto simp: sections_agree_def row_object_def objects_agree_def environment_lookup list_all_iff) (auto simp: fields_agree_def)
qed

text \<open>A masked variable is shown by its first eight characters: what follows can change unseen.\<close>
lemma masked_change_unseen:
  assumes "v = ''LD_PRELOAD'' \<or> v = ''LD_LIBRARY_PATH''" "length p = 8" "x \<noteq> []" "y \<noteq> []"
    and "se_getenv env_a v = Some (p @ x)" "se_getenv env_b v = Some (p @ y)"
  shows "shown_variable env_a v = shown_variable env_b v"
  using assms by (auto simp: shown_variable_def masked_def)

text \<open>C35: two snapshots that the generator has written to different files can always be compared (as long as
  the files are not above the size limit of 100 MB), and the exit code is 0 exactly if what was captured
  agrees: the host, platform, architecture, user and time since the boot, and every section, where a
  section only one of them has is a difference.  The section of the environment agrees exactly if every
  variable is shown alike.\<close>
theorem written_snapshots_compare:
  assumes "snapshot_env_ok stod env_a" "snapshot_env_ok stod env_b"
    and "snapshot_generate env_a conf_a fs = (True, [], fs1)" "snapshot_generate env_b conf_b fs1 = (True, [], fs2)"
    and "sc_output_path conf_a \<noteq> sc_output_path conf_b"
    and "int (length (snapshot_text env_a conf_a)) \<le> kMaxFileSize" "int (length (snapshot_text env_b conf_b)) \<le> kMaxFileSize"
    and "do_path_a opts = sc_output_path conf_a" "do_path_b opts = sc_output_path conf_b"
  shows "fst (diff_run stod nt fs2 opts) =
      (if metadata_agree stod nt env_a env_b \<and>
          list_all (\<lambda>(name, arr). sections_agree nt arr (map_of (section_values stod env_a conf_a) name)
            (map_of (section_values stod env_b conf_b) name)) diff_sections
       then 0 else 1) \<and>
    (sections_agree nt False (Some (row_object stod (environment_rows env_a))) (Some (row_object stod (environment_rows env_b))) \<longleftrightarrow>
     list_all (\<lambda>v. shown_variable env_a v = shown_variable env_b v) snapshot_vars)"
proof -
  note a = generate_written [OF assms(3)] and b = generate_written [OF assms(4)]
  have "read_file fs2 (do_path_a opts) = Some (snapshot_text env_a conf_a)" "read_file fs2 (do_path_b opts) = Some (snapshot_text env_b conf_b)"
    using a b assms(5-9) by (simp_all add: read_file_def)
  note loaded = loaded_snapshot [OF assms(1) this(1)] loaded_snapshot [OF assms(2) this(2)]
  have "do_path_a opts \<noteq> []" "do_path_b opts \<noteq> []" using a b assms(8,9) by simp_all
  then show ?thesis
    by (simp add: diff_run_code loaded loaded_section metadata_compared [OF assms(1,2)] environment_compared
        split del: if_split) (simp add: conj_commute)
qed

definition quiet_env :: snapshot_env where
  "quiet_env =
     \<lparr> se_now = 0, se_now_ms = 0, se_hostname = ''h'', se_platform = ''Linux'', se_version = ''6'', se_architecture = ''x86'',
       se_user = ''u'', se_sysinfo = Some 7, se_uptime_file = None, se_read = (\<lambda>_. None),
       se_doubles = (\<lambda>_. (Fin 0, Fin 0, Fin 0)), se_statvfs = (\<lambda>_. None), se_proc = [], se_getenv = (\<lambda>_. None),
       se_ops = \<lparr> do_percent = (\<lambda>_ _. Fin 0), do_abs_diff = (\<lambda>_ _. Fin 0), do_to_string = (\<lambda>_. ''0''), do_to_int = (\<lambda>_. 0) \<rparr>,
       se_text = (\<lambda>_. ''0''), se_sort = (\<lambda>ps. ps) \<rparr>"

definition quiet_config :: "string \<Rightarrow> SnapshotConfig" where
  "quiet_config path =
     \<lparr> sc_output_path = path, sc_include_processes = True, sc_include_network = False, sc_include_ports = True,
       sc_include_disk = True, sc_include_load = False, sc_include_environment = True, sc_max_processes = 50 \<rparr>"

text \<open>A machine whose files are as they usually are: processor flags, a mount point with an escaped blank, a port that
  listens.  Its library reads integers up to a thousand bits and refuses the others.\<close>
definition wide_stod :: "string \<Rightarrow> double option" where
  "wide_stod s =
     (case strtol_prefix s of
        None \<Rightarrow> None
      | Some (v, rest) \<Rightarrow> if \<bar>v\<bar> \<le> 2 ^ 1000 then Some (Fin (of_int v)) else None)"

definition busy_files :: "(string \<times> string) list" where
  "busy_files =
     [(''/proc/loadavg'', ''0.50 1.00 2.00 1/99 4711'' @ [nl]),
      (''/proc/cpuinfo'', ''model name : x86'' @ [nl] @ ''flags : fpu vme de pse'' @ [nl]),
      (''/proc/meminfo'', ''MemTotal: 8000 kB'' @ [nl] @ ''MemAvailable: 6000 kB'' @ [nl]),
      (''/proc/mounts'', ''/dev/sdb1 /media/my'' @ [backslash] @ ''040disk ext4 rw 0 0'' @ [nl]),
      (''/proc/net/tcp'', ''  sl  local_address rem_address st'' @ [nl] @ ''   0: 0100007F:0016 00000000:0000 0A'' @ [nl])]"

definition busy_env :: snapshot_env where
  "busy_env = quiet_env
     \<lparr> se_read := map_of busy_files, se_doubles := (\<lambda>_. (Fin (1 / 2), Fin 1, Fin 2)), se_statvfs := (\<lambda>_. Some (4096, 1000, 250)),
       se_proc := [\<lparr> pd_is_directory = True, pd_filename = ''42'', pd_status = Some (''Name: init'' @ [nl]), pd_cmdline = None \<rparr>],
       se_ops := \<lparr> do_percent = (\<lambda>a b. Fin (of_int (100 * a div b))), do_abs_diff = (\<lambda>_ _. Fin 0), do_to_string = (\<lambda>_. ''0''),
                   do_to_int = (\<lambda>_. 0) \<rparr>,
       se_text := (\<lambda>d. case d of Fin x \<Rightarrow> int_str \<lfloor>x\<rfloor> | _ \<Rightarrow> ''nan'') \<rparr>"

definition full_config :: SnapshotConfig where
  "full_config =
     \<lparr> sc_output_path = [], sc_include_processes = True, sc_include_network = True, sc_include_ports = True,
       sc_include_disk = True, sc_include_load = True, sc_include_environment = True, sc_max_processes = 50 \<rparr>"

lemma wide_stod_int: "\<bar>i\<bar> \<le> 2 ^ 1000 \<Longrightarrow> wide_stod (int_str i) = Some (Fin (of_int i))"
  using strtol_prefix_int [of "[]" i] by (simp add: wide_stod_def)

lemma whole_percent_printable:
  assumes "\<bar>a\<bar> < 2 ^ 80" "0 < b"
  shows "printable (of_int (100 * a div b))"
proof (cases "100 * a div b = 0")
  case False
  define q where "q = 100 * a div b"
  have "\<bar>q\<bar> \<le> \<bar>100 * a\<bar>"
  proof (cases "0 \<le> a")
    case True
    then show ?thesis using zdiv_mono2 [of "100 * a" 1 b] assms(2) by (simp add: q_def pos_imp_zdiv_nonneg_iff)
  next
    case False
    then have "100 * a div 1 \<le> q" unfolding q_def using assms(2) by (intro zdiv_mono2_neg) simp_all
    moreover have "q \<le> 0" unfolding q_def using False assms(2) by (intro div_nonpos_pos_le0) simp_all
    ultimately show ?thesis using False by simp
  qed
  also have "\<dots> \<le> 2 ^ 1000" using assms(1) by simp
  finally have "\<bar>rat_of_int q\<bar> \<le> 2 ^ 1000" by (metis of_int_abs of_int_le_iff of_int_numeral of_int_power)
  moreover have "1 \<le> \<bar>q\<bar>" using False by (simp add: q_def)
  then have "1 \<le> \<bar>rat_of_int q\<bar>" by (metis of_int_1_le_iff of_int_abs)
  then have "1 / 2 ^ 1000 \<le> \<bar>rat_of_int q\<bar>" by (rule order_trans [rotated]) simp
  ultimately show ?thesis by (simp add: printable_def q_def [symmetric])
qed (simp add: printable_def)

lemma printable_floor: "printable x \<Longrightarrow> \<bar>\<lfloor>x\<rfloor>\<bar> \<le> 2 ^ 1000"
proof -
  assume "printable x"
  then have "\<bar>x\<bar> \<le> 2 ^ 1000" by (auto simp: printable_def)
  then have "- (2 ^ 1000) \<le> x" "x \<le> 2 ^ 1000" by linarith+
  then have "- (2 ^ 1000) \<le> \<lfloor>x\<rfloor>" "\<lfloor>x\<rfloor> \<le> 2 ^ 1000"
    by (simp add: le_floor_iff) (use \<open>x \<le> 2 ^ 1000\<close> floor_mono [of x "2 ^ 1000"] in simp)
  then show ?thesis unfolding abs_le_iff by linarith
qed

lemma wide_stod_ok: "\<forall>i. \<bar>i\<bar> < 2 ^ 100 \<longrightarrow> wide_stod (int_str i) \<noteq> None"
proof (intro allI impI)
  fix i :: int
  assume "\<bar>i\<bar> < 2 ^ 100"
  then have "\<bar>i\<bar> \<le> 2 ^ 1000" by (rule order_trans [OF less_imp_le]) simp
  then show "wide_stod (int_str i) \<noteq> None" by (simp add: wide_stod_int)
qed

lemma busy_numbers_ok: "numbers_ok wide_stod busy_env"
proof -
  have x: "\<forall>x. printable x \<longrightarrow> number_literal (se_text busy_env (Fin x)) \<and> wide_stod (se_text busy_env (Fin x)) \<noteq> None"
    using printable_floor wide_stod_int number_int_str by (simp add: busy_env_def)
  have "printable (1 / 2)" "printable 1" "printable 2" by (simp_all add: printable_def)
  then have load: "\<forall>c. se_read busy_env ''/proc/loadavg'' = Some c \<longrightarrow>
      (\<exists>x y z. se_doubles busy_env c = (Fin x, Fin y, Fin z) \<and> printable x \<and> printable y \<and> printable z)"
    unfolding busy_env_def by (intro allI impI exI [of _ "1 / 2"] exI [of _ 1] exI [of _ 2]) simp
  have p: "\<forall>a b. \<bar>a\<bar> < 2 ^ 80 \<and> 0 < b \<and> b < 2 ^ 80 \<longrightarrow> (\<exists>x. do_percent (se_ops busy_env) a b = Fin x \<and> printable x)"
    using whole_percent_printable by (simp add: busy_env_def)
  show ?thesis
    unfolding numbers_ok_def
    by (intro conjI wide_stod_ok x p load) (simp_all add: busy_env_def quiet_env_def in_int64_def)
qed

lemma quiet_numbers_ok: "numbers_ok wide_stod quiet_env"
proof -
  have "number_literal ''0''" "wide_stod ''0'' \<noteq> None" by code_simp+
  then have x: "\<forall>x. printable x \<longrightarrow> number_literal (se_text quiet_env (Fin x)) \<and> wide_stod (se_text quiet_env (Fin x)) \<noteq> None"
    by (simp add: quiet_env_def)
  show ?thesis
    unfolding numbers_ok_def
    by (intro conjI wide_stod_ok x) (simp_all add: quiet_env_def in_int64_def printable_def)
qed

lemma busy_env_ok: "snapshot_env_ok wide_stod busy_env"
proof -
  have "list_all (\<lambda>p. list_all net_row_ok (read_proc_net (map_of busy_files p))) net_tables" by code_simp
  then show ?thesis using busy_numbers_ok by (simp add: snapshot_env_ok_def busy_env_def)
qed

lemma quiet_env_ok: "snapshot_env_ok wide_stod quiet_env"
proof -
  have "list_all (\<lambda>p. list_all net_row_ok (read_proc_net None)) net_tables" by (simp add: net_tables_def read_proc_net_def)
  then show ?thesis using quiet_numbers_ok by (simp add: snapshot_env_ok_def quiet_env_def)
qed

lemma snapshot_text_loads_witness:
  "parse_json wide_stod (snapshot_text busy_env full_config) =
      Inr (JObject [(''snapshot'',
        JObject (omap_of (map (row_value wide_stod) (metadata_rows busy_env) @
          [(''sections'', JObject (omap_of (section_values wide_stod busy_env full_config)))])))]) \<and>
    read_as wide_stod (escaped ''h'') = JString ''h'' \<and> read_as wide_stod (int_str 7) = JNumber (Fin 7)"
  using snapshot_text_loads [OF busy_env_ok, of full_config "''h''" 7] wide_stod_int [of 7] by (simp add: seen_char_def)

lemma sections_agree_refl: "sections_agree nt arr s s"
proof -
  have "objects_agree nt obj obj" for obj by (simp add: objects_agree_def fields_agree_def split: option.split)
  then show ?thesis by (simp add: sections_agree_def entries_agree_def split: option.split JsonValue.split)
qed

lemma written_snapshots_compare_witness:
  "\<exists>fs1 fs2. snapshot_generate quiet_env (quiet_config ''a'') two_snapshots = (True, [], fs1) \<and>
     snapshot_generate quiet_env (quiet_config ''b'') fs1 = (True, [], fs2) \<and>
     fst (diff_run wide_stod (\<lambda>_. ''0'') fs2
       \<lparr> do_path_a = ''a'', do_path_b = ''b'', do_json = False, do_verbose = True \<rparr>) = 0"
proof -
  have gen: "\<exists>fs'. snapshot_generate quiet_env (quiet_config p) fs = (True, [], fs') \<and> fs_can_write fs' = fs_can_write fs"
    if "fs_can_write fs p" "p \<noteq> []" for p fs
    using that by (auto simp: snapshot_generate_def quiet_config_def open_trunc_def Let_def)
  obtain fs1 where 1: "snapshot_generate quiet_env (quiet_config ''a'') two_snapshots = (True, [], fs1)"
      "fs_can_write fs1 = fs_can_write two_snapshots"
    using gen [of two_snapshots "''a''"] by (auto simp: two_snapshots_def)
  obtain fs2 where 2: "snapshot_generate quiet_env (quiet_config ''b'') fs1 = (True, [], fs2)"
    using gen [of fs1 "''b''"] 1(2) by (auto simp: two_snapshots_def)
  have len: "int (length (snapshot_text quiet_env (quiet_config p))) \<le> kMaxFileSize" for p
  proof -
    have "snapshot_text quiet_env (quiet_config p) = snapshot_text quiet_env (quiet_config [])"
      by (simp add: snapshot_text_def snapshot_sections_def quiet_config_def)
    moreover have "int (length (snapshot_text quiet_env (quiet_config []))) \<le> kMaxFileSize" by code_simp
    ultimately show ?thesis by simp
  qed
  let ?opts = "\<lparr> do_path_a = ''a'', do_path_b = ''b'', do_json = False, do_verbose = True \<rparr>"
  have "section_values wide_stod quiet_env (quiet_config ''b'') = section_values wide_stod quiet_env (quiet_config ''a'')"
    by (simp add: section_values_def quiet_config_def)
  moreover have "metadata_agree wide_stod (\<lambda>_. ''0'') quiet_env quiet_env" by (simp add: metadata_agree_def)
  ultimately have "fst (diff_run wide_stod (\<lambda>_. ''0'') fs2 ?opts) = 0"
    using written_snapshots_compare [OF quiet_env_ok quiet_env_ok 1(1) 2 _ len len, of ?opts "\<lambda>_. ''0''"]
    by (simp add: quiet_config_def sections_agree_refl split_beta list_all_iff)
  with 1(1) 2 show ?thesis by blast
qed

end
