(* ===== verification/System_Info.thy ===== *)
theory System_Info
  imports Snapshot_Generator Tail_Watcher
begin

text \<open>
  \<open>info/system_info.h\<close> and \<open>info/system_info.cpp\<close>, Linux: the summary of the machine as JSON or as text.  The
  answers of the system are those of theory \<open>Snapshot_Generator\<close>, with the local time, the number of
  processors and the library's numbers beside them: \<open>in_stod\<close>, the two-digit format \<open>in_fixed2\<close>, the
  conversion \<open>in_double\<close> of an integer to the nearest \<open>double\<close> (halving and doubling are exact), and \<open>in_fill\<close>
  for \<open>static_cast<int>(pct / 100.0 * 30 + 0.5)\<close>.
\<close>

record InfoOptions =
  io_color :: bool
  io_json :: bool

record info_env =
  in_sys :: snapshot_env
  in_local_time :: string
  in_nproc :: int
  in_stod :: "string \<Rightarrow> double option"
  in_fixed2 :: "double \<Rightarrow> string"
  in_double :: "int \<Rightarrow> rat"
  in_fill :: "double \<Rightarrow> int"

subsection \<open>Reading the system\<close>

definition info_lines :: "info_env \<Rightarrow> string \<Rightarrow> string list" where
  "info_lines env path = (case se_read (in_sys env) path of None \<Rightarrow> [] | Some c \<Rightarrow> getlines c)"

definition info_trim :: "string \<Rightarrow> string" where
  "info_trim s = rev (dropWhile isspace (rev (dropWhile isspace s)))"

definition info_escape :: "string \<Rightarrow> string" where
  "info_escape s = json_escape_with False s"

text \<open>A loop over the lines that returns at the first one \<open>f\<close> accepts.\<close>
definition first_match :: "('a \<Rightarrow> 'b option) \<Rightarrow> 'b \<Rightarrow> 'a list \<Rightarrow> 'b" where
  "first_match f d xs = (case List.map_filter f xs of [] \<Rightarrow> d | y # ys \<Rightarrow> y)"

definition cpu_model_name :: "info_env \<Rightarrow> string" where
  "cpu_model_name env =
     first_match (\<lambda>line. if starts_with line ''model name'' then map_option info_trim (after_colon line) else None)
       ''unknown'' (info_lines env ''/proc/cpuinfo'')"

definition cpu_count :: "info_env \<Rightarrow> int" where
  "cpu_count env = (if in_nproc env > 0 then in_nproc env else 1)"

definition frequency_of_line :: "info_env \<Rightarrow> string \<Rightarrow> string option" where
  "frequency_of_line env line =
     (if starts_with line ''cpu MHz'' then
        (case after_colon line of
           None \<Rightarrow> None
         | Some s \<Rightarrow>
             (let mhz = (case in_stod env (info_trim s) of Some d \<Rightarrow> d | None \<Rightarrow> Fin 0)
              in if dlt (Fin 0) mhz then Some (in_fixed2 env mhz @ '' MHz'') else None))
      else None)"

definition cpu_frequency :: "info_env \<Rightarrow> string" where
  "cpu_frequency env = first_match (frequency_of_line env) ''unknown'' (info_lines env ''/proc/cpuinfo'')"

definition strip_line_end :: "string \<Rightarrow> string" where
  "strip_line_end s = rev (dropWhile (\<lambda>c. c = nl \<or> c = cr) (rev s))"

definition kernel_version :: "info_env \<Rightarrow> string" where
  "kernel_version env =
     (case info_lines env ''/proc/sys/kernel/osrelease'' of [] \<Rightarrow> se_version (in_sys env) | s # _ \<Rightarrow> strip_line_end s)"

definition unquoted :: "string \<Rightarrow> string" where
  "unquoted v = (if length v \<ge> 2 \<and> hd v = dquote \<and> last v = dquote then butlast (tl v) else v)"

definition os_pretty_name :: "info_env \<Rightarrow> string" where
  "os_pretty_name env =
     first_match (\<lambda>line. if starts_with line ''PRETTY_NAME='' then Some (unquoted (drop 12 line)) else None)
       (se_platform (in_sys env)) (info_lines env ''/etc/os-release'')"

definition uptime_human :: "info_env \<Rightarrow> string" where
  "uptime_human env =
     (case se_sysinfo (in_sys env) of
        None \<Rightarrow> ''unknown''
      | Some up \<Rightarrow>
          int_str (tdiv up 86400) @ ''d '' @ int_str (tdiv (tmod up 86400) 3600) @ ''h '' @
          int_str (tdiv (tmod up 3600) 60) @ ''m '' @ int_str (tmod up 60) @ ''s'')"

definition load_averages :: "info_env \<Rightarrow> double \<times> double \<times> double" where
  "load_averages env =
     (case se_read (in_sys env) ''/proc/loadavg'' of None \<Rightarrow> (Fin 0, Fin 0, Fin 0) | Some c \<Rightarrow> se_doubles (in_sys env) c)"

definition loadavg_str :: "info_env \<Rightarrow> string" where
  "loadavg_str env =
     (let (l1, l5, l15) = load_averages env; nt = se_text (in_sys env) in nt l1 @ '' '' @ nt l5 @ '' '' @ nt l15)"

record MemInfo =
  mf_total :: int
  mf_available :: int
  mf_used :: int
  mf_usage_percent :: double

record mem_scan =
  mn_total :: int
  mn_available :: int
  mn_free :: int
  mn_buffers :: int
  mn_cached :: int

definition mem_scan_line :: "string \<Rightarrow> mem_scan \<Rightarrow> mem_scan" where
  "mem_scan_line line m =
     (let label = nth_token 0 (ws_tokens line);
          val = hd (extract_ints [0] (after_label line)) * 1024
      in if label = ''MemTotal:'' then m\<lparr>mn_total := val\<rparr>
         else if label = ''MemFree:'' then m\<lparr>mn_free := val\<rparr>
         else if label = ''MemAvailable:'' then m\<lparr>mn_available := val\<rparr>
         else if label = ''Buffers:'' then m\<lparr>mn_buffers := val\<rparr>
         else if label = ''Cached:'' then m\<lparr>mn_cached := val\<rparr>
         else m)"

definition info_meminfo :: "info_env \<Rightarrow> MemInfo" where
  "info_meminfo env =
     (let m = fold mem_scan_line (info_lines env ''/proc/meminfo'')
                \<lparr> mn_total = 0, mn_available = 0, mn_free = 0, mn_buffers = 0, mn_cached = 0 \<rparr>;
          available = (if mn_available m = 0 \<and> mn_total m > 0 then mn_free m + mn_buffers m + mn_cached m else mn_available m);
          used = mn_total m - available
      in \<lparr> mf_total = mn_total m, mf_available = available, mf_used = used,
           mf_usage_percent = (if mn_total m > 0 then do_percent (se_ops (in_sys env)) used (mn_total m) else Fin 0) \<rparr>)"

text \<open>The loop of \<open>format_bytes\<close>, over the units that are left.\<close>
fun scale_bytes :: "rat \<Rightarrow> string list \<Rightarrow> rat \<times> string" where
  "scale_bytes v [] = (v, [])"
| "scale_bytes v [u] = (v, u)"
| "scale_bytes v (u # w # us) = (if v \<ge> 1024 then scale_bytes (v / 1024) (w # us) else (v, u))"

definition format_bytes :: "info_env \<Rightarrow> int \<Rightarrow> string" where
  "format_bytes env b =
     (let (v, unit_name) = scale_bytes (in_double env b) [''B'', ''KB'', ''MB'', ''GB'', ''TB'', ''PB'']
      in in_fixed2 env (Fin v) @ '' '' @ unit_name)"

record InfoDisk =
  id_device :: string
  id_mount :: string
  id_total :: int
  id_used :: int
  id_free :: int
  id_usage_percent :: double

definition info_mount_of_line :: "string \<Rightarrow> (string \<times> string) option" where
  "info_mount_of_line line =
     (let ts = ws_tokens line; device = nth_token 0 ts; mount = nth_token 1 ts; fstype = nth_token 2 ts
      in if device = [] \<or> mount = [] then None
         else if fstype \<in> set snapshot_pseudo then None
         else if starts_with mount ''/snap/'' then None
         else Some (device, mount))"

text \<open>The products wrap at 64 bits and are stored as signed values.\<close>
definition info_disk :: "info_env \<Rightarrow> string \<times> string \<Rightarrow> InfoDisk option" where
  "info_disk env p =
     (case se_statvfs (in_sys env) (snd p) of
        None \<Rightarrow> None
      | Some (frsize, blocks, bavail) \<Rightarrow>
          (let total = sint (blocks * frsize); free = sint (bavail * frsize); used = total - free
           in Some \<lparr> id_device = fst p, id_mount = snd p, id_total = total, id_used = used, id_free = free,
                     id_usage_percent = (if total > 0 then do_percent (se_ops (in_sys env)) used total else Fin 0) \<rparr>))"

definition read_disks :: "info_env \<Rightarrow> InfoDisk list" where
  "read_disks env =
     List.map_filter (info_disk env) (List.map_filter info_mount_of_line (info_lines env ''/proc/mounts''))"

definition listening_port_count :: "info_env \<Rightarrow> nat" where
  "listening_port_count env =
     sum_list (map (\<lambda>proto. length (filter (\<lambda>line. nth_token 3 (ws_tokens line) = ''0A'') (drop 1 (info_lines env proto))))
       [''/proc/net/tcp'', ''/proc/net/tcp6''])"

definition process_count :: "info_env \<Rightarrow> nat" where
  "process_count env =
     length (filter (\<lambda>d. pd_is_directory d \<and> pd_filename d \<noteq> [] \<and> list_all isdigit (pd_filename d)) (se_proc (in_sys env)))"

subsection \<open>JSON output\<close>

definition info_string :: "string \<Rightarrow> string" where
  "info_string s = dq (info_escape s)"

definition nested :: "string \<Rightarrow> (string \<times> string) list \<Rightarrow> string" where
  "nested indent ps = ''{'' @ [nl] @ rows (indent @ ''  '') ps @ [nl] @ indent @ ''}''"

definition info_disk_rows :: "info_env \<Rightarrow> InfoDisk \<Rightarrow> (string \<times> string) list" where
  "info_disk_rows env d =
     [(''device'', info_string (id_device d)), (''mount_point'', info_string (id_mount d)), (''total_bytes'', int_str (id_total d)),
      (''used_bytes'', int_str (id_used d)), (''free_bytes'', int_str (id_free d)),
      (''usage_percent'', se_text (in_sys env) (id_usage_percent d))]"

definition info_disks_json :: "info_env \<Rightarrow> string" where
  "info_disks_json env =
     (let disks = read_disks env
      in ''['' @ [nl] @ join_with ('','' @ [nl]) (map (\<lambda>d. ''    '' @ nested ''    '' (info_disk_rows env d)) disks) @
         (if disks = [] then [] else [nl]) @ ''  ]'')"

definition info_rows :: "info_env \<Rightarrow> (string \<times> string) list" where
  "info_rows env =
     (let sys = in_sys env; nt = se_text sys; mem = info_meminfo env; (l1, l5, l15) = load_averages env
      in [(''timestamp'', info_string (in_local_time env)), (''host'', info_string (se_hostname sys)),
          (''user'', info_string (se_user sys)), (''platform'', info_string (se_platform sys)),
          (''os'', info_string (os_pretty_name env)), (''kernel'', info_string (kernel_version env)),
          (''architecture'', info_string (se_architecture sys)), (''uptime'', info_string (uptime_human env)),
          (''cpu'', nested ''  ''
             [(''model'', info_string (cpu_model_name env)), (''cores'', int_str (cpu_count env)),
              (''frequency'', info_string (cpu_frequency env))]),
          (''load'', nested ''  '' [(''load_1min'', nt l1), (''load_5min'', nt l5), (''load_15min'', nt l15)]),
          (''memory'', nested ''  ''
             [(''total_bytes'', int_str (mf_total mem)), (''used_bytes'', int_str (mf_used mem)),
              (''available_bytes'', int_str (mf_available mem)), (''usage_percent'', nt (mf_usage_percent mem))]),
          (''disks'', info_disks_json env),
          (''process_count'', nat_str (process_count env)), (''listening_ports'', nat_str (listening_port_count env))])"

definition info_json :: "info_env \<Rightarrow> string" where
  "info_json env = ''{'' @ [nl] @ rows ''  '' (info_rows env) @ [nl] @ ''}'' @ [nl]"

subsection \<open>Text output\<close>

definition color_for_usage :: "double \<Rightarrow> string" where
  "color_for_usage pct =
     (if dle (Fin 95) pct then ansi ''31'' else if dle (Fin 80) pct then ansi ''33'' else ansi ''32'')"

definition print_bar :: "info_env \<Rightarrow> double \<Rightarrow> string" where
  "print_bar env pct =
     (let width = 30; filled = min (in_fill env pct) width
      in ''['' @ replicate (nat filled) (CHR ''#'') @ replicate (nat (width - max 0 filled)) (CHR ''-'') @
         (if filled < 0 then replicate (nat (- filled)) (CHR ''-'') else []) @ ''] '' @ se_text (in_sys env) pct @ ''%'')"

definition colored :: "bool \<Rightarrow> string \<Rightarrow> string" where
  "colored color code = (if color then ansi code else [])"

definition title_line :: "bool \<Rightarrow> string \<Rightarrow> string" where
  "title_line color s = colored color ''36'' @ s @ colored color ''0'' @ [nl]"

definition info_line :: "bool \<Rightarrow> string \<Rightarrow> string \<Rightarrow> string" where
  "info_line color label val =
     colored color ''34'' @ label @ colored color ''0'' @ colored color ''1'' @ val @ colored color ''0'' @ [nl]"

definition usage_bar :: "info_env \<Rightarrow> bool \<Rightarrow> string \<Rightarrow> double \<Rightarrow> string" where
  "usage_bar env color indent pct =
     (if color then indent @ color_for_usage pct else []) @ print_bar env pct @ colored color ''0'' @ [nl]"

definition disk_text :: "info_env \<Rightarrow> bool \<Rightarrow> InfoDisk \<Rightarrow> string" where
  "disk_text env color d =
     colored color ''34'' @ ''  '' @ id_mount d @ colored color ''0'' @ ''  ['' @ id_device d @ '']'' @ [nl] @
     (''    '' @ [CHR 0xE6, CHR 0x80, CHR 0xBB, CHR 0xE9, CHR 0x87, CHR 0x8F] @ '': '') @ format_bytes env (id_total d) @ (''  '' @ [CHR 0xE5, CHR 0xB7, CHR 0xB2, CHR 0xE7, CHR 0x94, CHR 0xA8] @ '': '') @ format_bytes env (id_used d) @
     (''  '' @ [CHR 0xE5, CHR 0x8F, CHR 0xAF, CHR 0xE7, CHR 0x94, CHR 0xA8] @ '': '') @ format_bytes env (id_free d) @ [nl] @ usage_bar env color ''    '' (id_usage_percent d)"

definition info_rule :: "char \<Rightarrow> string" where
  "info_rule c = replicate 62 c"

definition memory_text :: "info_env \<Rightarrow> bool \<Rightarrow> string" where
  "memory_text env color =
     (let mem = info_meminfo env
      in title_line color (''  '' @ [CHR 0xE5, CHR 0x86, CHR 0x85, CHR 0xE5, CHR 0xAD, CHR 0x98]) @
         info_line color (''  '' @ [CHR 0xE6, CHR 0x80, CHR 0xBB, CHR 0xE9, CHR 0x87, CHR 0x8F] @ '':        '') (format_bytes env (mf_total mem)) @
         colored color ''34'' @ (''  '' @ [CHR 0xE5, CHR 0xB7, CHR 0xB2, CHR 0xE7, CHR 0x94, CHR 0xA8] @ '':        '') @ colored color ''0'' @ format_bytes env (mf_used mem) @ ''  ('' @
         (if color then color_for_usage (mf_usage_percent mem) else []) @ format_bytes env (mf_available mem) @ ('' '' @ [CHR 0xE5, CHR 0x8F, CHR 0xAF, CHR 0xE7, CHR 0x94, CHR 0xA8] @ '')'') @
         colored color ''0'' @ [nl] @ usage_bar env color ''  '' (mf_usage_percent mem))"

definition info_text :: "info_env \<Rightarrow> bool \<Rightarrow> string" where
  "info_text env color =
     (let sys = in_sys env; disks = read_disks env; thin = title_line color (info_rule (CHR ''-''))
      in title_line color (info_rule (CHR ''='')) @ title_line color (''  change-of-system  '' @ [CHR 0xE7, CHR 0xB3, CHR 0xBB, CHR 0xE7, CHR 0xBB, CHR 0x9F, CHR 0xE4, CHR 0xBF, CHR 0xA1, CHR 0xE6, CHR 0x81, CHR 0xAF, CHR 0xE6, CHR 0xA6, CHR 0x82, CHR 0xE8, CHR 0xA7, CHR 0x88]) @
         title_line color (info_rule (CHR ''='')) @
         info_line color (''  '' @ [CHR 0xE6, CHR 0x97, CHR 0xB6, CHR 0xE9, CHR 0x97, CHR 0xB4] @ '':        '') (in_local_time env) @ info_line color (''  '' @ [CHR 0xE4, CHR 0xB8, CHR 0xBB, CHR 0xE6, CHR 0x9C, CHR 0xBA, CHR 0xE5, CHR 0x90, CHR 0x8D] @ '':      '') (se_hostname sys) @
         info_line color (''  '' @ [CHR 0xE5, CHR 0xBD, CHR 0x93, CHR 0xE5, CHR 0x89, CHR 0x8D, CHR 0xE7, CHR 0x94, CHR 0xA8, CHR 0xE6, CHR 0x88, CHR 0xB7] @ '':    '') (se_user sys) @ info_line color (''  '' @ [CHR 0xE6, CHR 0x93, CHR 0x8D, CHR 0xE4, CHR 0xBD, CHR 0x9C, CHR 0xE7, CHR 0xB3, CHR 0xBB, CHR 0xE7, CHR 0xBB, CHR 0x9F] @ '':    '') (os_pretty_name env) @
         info_line color (''  '' @ [CHR 0xE5, CHR 0x86, CHR 0x85, CHR 0xE6, CHR 0xA0, CHR 0xB8, CHR 0xE7, CHR 0x89, CHR 0x88, CHR 0xE6, CHR 0x9C, CHR 0xAC] @ '':    '') (kernel_version env) @
         info_line color (''  '' @ [CHR 0xE5, CHR 0xB9, CHR 0xB3, CHR 0xE5, CHR 0x8F, CHR 0xB0] @ ''/'' @ [CHR 0xE6, CHR 0x9E, CHR 0xB6, CHR 0xE6, CHR 0x9E, CHR 0x84] @ '':   '') (se_platform sys @ '' / '' @ se_architecture sys) @
         info_line color (''  '' @ [CHR 0xE8, CHR 0xBF, CHR 0x90, CHR 0xE8, CHR 0xA1, CHR 0x8C, CHR 0xE6, CHR 0x97, CHR 0xB6, CHR 0xE9, CHR 0x97, CHR 0xB4] @ '':    '') (uptime_human env) @
         thin @ title_line color ''  CPU'' @
         info_line color (''  '' @ [CHR 0xE5, CHR 0x9E, CHR 0x8B, CHR 0xE5, CHR 0x8F, CHR 0xB7] @ '':        '') (cpu_model_name env) @ info_line color (''  '' @ [CHR 0xE6, CHR 0xA0, CHR 0xB8, CHR 0xE5, CHR 0xBF, CHR 0x83, CHR 0xE6, CHR 0x95, CHR 0xB0] @ '':      '') (int_str (cpu_count env)) @
         info_line color (''  '' @ [CHR 0xE5, CHR 0xBD, CHR 0x93, CHR 0xE5, CHR 0x89, CHR 0x8D, CHR 0xE9, CHR 0xA2, CHR 0x91, CHR 0xE7, CHR 0x8E, CHR 0x87] @ '':    '') (cpu_frequency env) @
         thin @ title_line color (''  '' @ [CHR 0xE7, CHR 0xB3, CHR 0xBB, CHR 0xE7, CHR 0xBB, CHR 0x9F, CHR 0xE8, CHR 0xB4, CHR 0x9F, CHR 0xE8, CHR 0xBD, CHR 0xBD]) @ info_line color (''  1/5/15 '' @ [CHR 0xE5, CHR 0x88, CHR 0x86, CHR 0xE9, CHR 0x92, CHR 0x9F] @ '': '') (loadavg_str env) @
         thin @ memory_text env color @
         thin @ title_line color (''  '' @ [CHR 0xE7, CHR 0xA3, CHR 0x81, CHR 0xE7, CHR 0x9B, CHR 0x98]) @
         (if disks = [] then (''  ('' @ [CHR 0xE6, CHR 0x97, CHR 0xA0, CHR 0xE5, CHR 0x8F, CHR 0xAF, CHR 0xE7, CHR 0x94, CHR 0xA8, CHR 0xE7, CHR 0xA3, CHR 0x81, CHR 0xE7, CHR 0x9B, CHR 0x98, CHR 0xE4, CHR 0xBF, CHR 0xA1, CHR 0xE6, CHR 0x81, CHR 0xAF] @ '')'') @ [nl] else []) @ concat (map (disk_text env color) disks) @
         thin @ title_line color (''  '' @ [CHR 0xE6, CHR 0xA6, CHR 0x82, CHR 0xE8, CHR 0xA6, CHR 0x81]) @
         info_line color (''  '' @ [CHR 0xE8, CHR 0xBF, CHR 0x9B, CHR 0xE7, CHR 0xA8, CHR 0x8B, CHR 0xE6, CHR 0x95, CHR 0xB0] @ '':      '') (nat_str (process_count env)) @
         info_line color (''  '' @ [CHR 0xE7, CHR 0x9B, CHR 0x91, CHR 0xE5, CHR 0x90, CHR 0xAC, CHR 0xE7, CHR 0xAB, CHR 0xAF, CHR 0xE5, CHR 0x8F, CHR 0xA3, CHR 0xE6, CHR 0x95, CHR 0xB0] @ '':  '') (nat_str (listening_port_count env)) @
         title_line color (info_rule (CHR ''='')))"

text \<open>The exit code and the text on the standard output.\<close>
definition info_run :: "info_env \<Rightarrow> InfoOptions \<Rightarrow> int \<times> string" where
  "info_run env opts = (0, if io_json opts then info_json env else info_text env (io_color opts))"

subsection \<open>Facts\<close>

text \<open>The loop of \<open>format_bytes\<close> stops below 1024 of its unit, except in the largest one.\<close>
lemma scale_bytes_unit:
  "us \<noteq> [] \<Longrightarrow> \<exists>i < length us. scale_bytes v us = (v / 1024 ^ i, us ! i) \<and> (i + 1 < length us \<longrightarrow> v / 1024 ^ i < 1024) \<and>
     (0 < i \<longrightarrow> 1 \<le> v / 1024 ^ i)"
proof (induction v us rule: scale_bytes.induct)
  case (3 v u w us)
  show ?case
  proof (cases "v \<ge> 1024")
    case True
    with 3 obtain i where i: "i < length (w # us)" "scale_bytes (v / 1024) (w # us) = (v / 1024 / 1024 ^ i, (w # us) ! i)"
        "i + 1 < length (w # us) \<longrightarrow> v / 1024 / 1024 ^ i < 1024" "0 < i \<longrightarrow> 1 \<le> v / 1024 / 1024 ^ i" by auto
    then show ?thesis using True by (intro exI [of _ "Suc i"]) (cases i, auto)
  qed (intro exI [of _ 0], simp)
qed (intro exI [of _ 0], simp)+

text \<open>The bar has thirty marks, unless the usage is negative, as it is where the kernel reports more memory as
  available than there is.\<close>
lemma print_bar_width:
  assumes "0 \<le> in_fill env pct"
  shows "\<exists>k \<le> 30. print_bar env pct =
    ''['' @ replicate k (CHR ''#'') @ replicate (30 - k) (CHR ''-'') @ ''] '' @ se_text (in_sys env) pct @ ''%''"
  using assms
  by (intro exI [of _ "nat (min (in_fill env pct) 30)"]) (auto simp: print_bar_def Let_def nat_diff_distrib' min_def)

lemma negative_bar_overflows:
  "in_fill env pct < 0 \<Longrightarrow> print_bar env pct =
     ''['' @ replicate (30 + nat (- in_fill env pct)) (CHR ''-'') @ ''] '' @ se_text (in_sys env) pct @ ''%''"
  by (simp add: print_bar_def Let_def replicate_add)

lemma json_space_blanks [simp]: "json_space s \<Longrightarrow> json_space (s @ ''  '')"
  by (simp add: json_space_def)

lemma nested_json: "rows_ok stod ps \<Longrightarrow> json_space indent \<Longrightarrow> is_json stod (nested indent ps)"
  unfolding nested_def is_json_def using object_rows_text [of stod ps "indent @ ''  ''" indent] by auto

text \<open>The counts are those of a machine, and the numbers the library's (\<open>numbers_ok\<close>).  Of the files
  only \<open>/proc/loadavg\<close> has to be what it should be.\<close>
definition info_env_ok :: "(string \<Rightarrow> double option) \<Rightarrow> info_env \<Rightarrow> bool" where
  "info_env_ok stod env =
     (numbers_ok stod (in_sys env) \<and> in_int64 (in_nproc env) \<and> in_int64 (int (process_count env)) \<and>
      in_int64 (int (listening_port_count env)))"

lemma info_counts_small:
  assumes "info_env_ok stod env"
  shows "small (cpu_count env)" "small (int (process_count env))" "small (int (listening_port_count env))"
  using assms small_int64 by (auto simp: info_env_ok_def cpu_count_def) (simp add: small_def)

lemma info_numbers: "info_env_ok stod env \<Longrightarrow> numbers_ok stod (in_sys env)"
  by (simp add: info_env_ok_def)

lemma info_pieces:
  assumes "info_env_ok stod env"
  shows "is_json stod (info_string s)" "small i \<Longrightarrow> is_json stod (int_str i)" "small (int n) \<Longrightarrow> is_json stod (nat_str n)"
    "printable x \<Longrightarrow> is_json stod (se_text (in_sys env) (Fin x))"
proof -
  show "is_json stod (info_string s)"
    using text_string [of stod False s] by (auto simp: is_json_def info_string_def info_escape_def dq_def json_literal_def)
  show "small i \<Longrightarrow> is_json stod (int_str i)" "printable x \<Longrightarrow> is_json stod (se_text (in_sys env) (Fin x))"
    using json_pieces [OF info_numbers [OF assms]] by blast+
  show "small (int n) \<Longrightarrow> is_json stod (nat_str n)"
    using json_pieces(1) [OF info_numbers [OF assms], of "int n"] by (simp add: int_str_def)
qed

lemmas percent_json = percent_pieces [OF info_numbers]

lemma load_averages_finite:
  assumes "info_env_ok stod env"
  obtains x y z where "load_averages env = (Fin x, Fin y, Fin z)" "printable x" "printable y" "printable z"
proof (cases "se_read (in_sys env) ''/proc/loadavg''")
  case (Some c)
  obtain x y z where "se_doubles (in_sys env) c = (Fin x, Fin y, Fin z)" "printable x" "printable y" "printable z"
    using info_numbers [OF assms] Some unfolding numbers_ok_def by blast
  then show ?thesis using Some that [of x y z] by (simp add: load_averages_def)
qed (use that [of 0 0 0] in \<open>simp add: load_averages_def\<close>)

lemma small_sint_diff: "small (sint a - sint b)" for a b :: "64 word"
  by (rule small_diff) (use sint_bound [of a] sint_bound [of b] in simp_all)

lemma info_disk_rows_ok:
  assumes "info_env_ok stod env" "d \<in> set (read_disks env)"
  shows "rows_ok stod (info_disk_rows env d)"
proof -
  obtain p where "info_disk env p = Some d" using assms(2) by (auto simp: read_disks_def List.map_filter_def)
  then show ?thesis
    using info_pieces [OF assms(1)] percent_json [OF assms(1)] small_sint
    by (auto simp: info_disk_def info_disk_rows_def rows_ok_def Let_def small_sint_diff simp del: of_int_sint split: option.splits)
qed

text \<open>What is read from \<open>/proc/meminfo\<close> fits.\<close>
definition mem_scan_bounded :: "mem_scan \<Rightarrow> bool" where
  "mem_scan_bounded m = list_all (\<lambda>i. \<bar>i\<bar> \<le> 2 ^ 73) [mn_total m, mn_available m, mn_free m, mn_buffers m, mn_cached m]"

lemma mem_scan_line_bounded: "mem_scan_bounded m \<Longrightarrow> mem_scan_bounded (mem_scan_line l m)"
proof -
  define v where "v = hd (extract_ints [0] (after_label l)) * 1024"
  have "\<bar>v\<bar> \<le> 2 ^ 73" using extract_int_bound [of "after_label l"] by (simp add: v_def abs_mult)
  then show "mem_scan_bounded m \<Longrightarrow> mem_scan_bounded (mem_scan_line l m)"
    by (simp add: mem_scan_line_def mem_scan_bounded_def Let_def v_def [symmetric] del: extract_ints.simps)
qed

lemma info_meminfo_small:
  "small (mf_total (info_meminfo env))" "small (mf_available (info_meminfo env))" "small (mf_used (info_meminfo env))"
proof -
  define m where "m = fold mem_scan_line (info_lines env ''/proc/meminfo'')
    \<lparr> mn_total = 0, mn_available = 0, mn_free = 0, mn_buffers = 0, mn_cached = 0 \<rparr>"
  have "mem_scan_bounded (fold mem_scan_line ls m)" if "mem_scan_bounded m" for ls m
    using that by (induction ls arbitrary: m) (simp_all add: mem_scan_line_bounded)
  then have "mem_scan_bounded m" by (simp add: m_def mem_scan_bounded_def)
  then have b: "\<bar>mn_total m\<bar> \<le> 2 ^ 73" "\<bar>mn_available m\<bar> \<le> 2 ^ 73" "\<bar>mn_free m\<bar> \<le> 2 ^ 73" "\<bar>mn_buffers m\<bar> \<le> 2 ^ 73"
      "\<bar>mn_cached m\<bar> \<le> 2 ^ 73" by (simp_all add: mem_scan_bounded_def)
  define a where "a = (if mn_available m = 0 \<and> mn_total m > 0 then mn_free m + mn_buffers m + mn_cached m else mn_available m)"
  have a: "\<bar>a\<bar> \<le> 2 ^ 76" "\<bar>mn_total m\<bar> \<le> 2 ^ 76" using b by (auto simp: a_def)
  moreover have "info_meminfo env = \<lparr> mf_total = mn_total m, mf_available = a, mf_used = mn_total m - a,
      mf_usage_percent = (if mn_total m > 0 then do_percent (se_ops (in_sys env)) (mn_total m - a) (mn_total m) else Fin 0) \<rparr>"
    unfolding info_meminfo_def m_def [symmetric] Let_def a_def [symmetric] by (rule refl)
  ultimately show "small (mf_total (info_meminfo env))" "small (mf_available (info_meminfo env))" "small (mf_used (info_meminfo env))"
    using small_diff [OF a(2,1)] by (simp_all add: small_def)
qed

lemma info_memory_percent:
  "mf_usage_percent (info_meminfo env) =
     (if mf_total (info_meminfo env) > 0
      then do_percent (se_ops (in_sys env)) (mf_used (info_meminfo env)) (mf_total (info_meminfo env)) else Fin 0)"
  by (simp add: info_meminfo_def Let_def)

lemma info_disks_text:
  assumes "info_env_ok stod env"
  shows "value_text stod (JArray (map (\<lambda>d. row_object stod (info_disk_rows env d)) (read_disks env))) (info_disks_json env)"
proof -
  have "list_all2 (json_item stod) (map (\<lambda>d. row_object stod (info_disk_rows env d)) ds)
      (map (\<lambda>d. ''    '' @ nested ''    '' (info_disk_rows env d)) ds)"
    if "set ds \<subseteq> set (read_disks env)" for ds
    using that
  proof (induction ds)
    case (Cons d ds)
    have "value_text stod (row_object stod (info_disk_rows env d)) (nested ''    '' (info_disk_rows env d))"
      unfolding nested_def using Cons.prems info_disk_rows_ok [OF assms] by (intro object_rows_text) simp_all
    then have "json_item stod (row_object stod (info_disk_rows env d)) (''    '' @ nested ''    '' (info_disk_rows env d))"
      by (intro json_item_pad json_itemI) simp_all
    with Cons show ?case by simp
  qed simp
  from array_join_pads [OF this [OF order_refl], of "[nl]" "[nl]" "(if read_disks env = [] then [] else [nl]) @ ''  ''"]
  show ?thesis by (simp add: info_disks_json_def Let_def)
qed

lemma info_disks_are_json: "info_env_ok stod env \<Longrightarrow> is_json stod (info_disks_json env)"
  unfolding is_json_def by (intro exI) (rule info_disks_text)

lemma info_rows_ok:
  assumes "info_env_ok stod env"
  shows "rows_ok stod (info_rows env)"
proof -
  obtain x y z where l: "load_averages env = (Fin x, Fin y, Fin z)" "printable x" "printable y" "printable z"
    using load_averages_finite [OF assms] .
  have "is_json stod (nested ''  '' ps)" if "rows_ok stod ps" for ps using nested_json [OF that] by simp
  moreover have "is_json stod (se_text (in_sys env) (mf_usage_percent (info_meminfo env)))"
    unfolding info_memory_percent by (rule percent_json [OF assms]) (rule info_meminfo_small)+
  ultimately show ?thesis
    using info_pieces [OF assms] info_disks_are_json [OF assms]
    by (simp add: info_rows_def Let_def l rows_ok_def info_meminfo_small info_counts_small [OF assms])
qed

text \<open>C39: whatever is in the files the summary is made of (only the load averages have to be numbers that are not
  beyond the range of a \<open>double\<close>), and as long as the library prints and reads its numbers as documented, the
  JSON output is a text the program's own parser reads, as an object with the fourteen fields
  and what was collected for each.\<close>
theorem info_json_loads:
  assumes "info_env_ok stod env"
  shows "parse_json stod (snd (info_run env \<lparr> io_color = color, io_json = True \<rparr>)) = Inr (row_object stod (info_rows env)) \<and>
    map fst (info_rows env) = [''timestamp'', ''host'', ''user'', ''platform'', ''os'', ''kernel'', ''architecture'', ''uptime'', ''cpu'',
      ''load'', ''memory'', ''disks'', ''process_count'', ''listening_ports''] \<and>
    map_of (info_rows env) ''disks'' = Some (info_disks_json env) \<and>
    read_as stod (info_disks_json env) = JArray (map (\<lambda>d. row_object stod (info_disk_rows env d)) (read_disks env)) \<and>
    read_as stod (info_string x) = JString (map (seen_char False) x)"
proof -
  have doc: "value_text stod (row_object stod (info_rows env)) (''{'' @ [nl] @ rows ''  '' (info_rows env) @ [nl] @ [] @ ''}'')"
    by (rule object_rows_text [OF info_rows_ok [OF assms]]) simp_all
  have "parse_json stod ([] @ (''{'' @ [nl] @ rows ''  '' (info_rows env) @ [nl] @ [] @ ''}'') @ [nl]) = Inr (row_object stod (info_rows env))"
    by (rule parse_grammar [OF doc]) (simp_all add: number_end_def number_char_def isdigit_def)
  moreover have "read_as stod (info_string x) = JString (map (seen_char False) x)"
    using text_string [of stod False x] read_as_text by (simp add: info_string_def info_escape_def dq_def json_literal_def)
  moreover have "map fst (info_rows env) = [''timestamp'', ''host'', ''user'', ''platform'', ''os'', ''kernel'', ''architecture'', ''uptime'', ''cpu'',
      ''load'', ''memory'', ''disks'', ''process_count'', ''listening_ports'']" "map_of (info_rows env) ''disks'' = Some (info_disks_json env)"
    by (simp_all add: info_rows_def Let_def split_beta)
  ultimately show ?thesis using read_as_text [OF info_disks_text [OF assms]] by (simp add: info_run_def info_json_def)
qed

definition quiet_info :: info_env where
  "quiet_info =
     \<lparr> in_sys = quiet_env, in_local_time = ''t'', in_nproc = 0, in_stod = (\<lambda>_. None), in_fixed2 = (\<lambda>_. ''0.00''),
       in_double = rat_of_int, in_fill = (\<lambda>_. 0) \<rparr>"

definition busy_info :: info_env where
  "busy_info = quiet_info \<lparr> in_sys := busy_env, in_nproc := 8 \<rparr>"

lemma busy_info_ok: "info_env_ok wide_stod busy_info"
proof -
  have "process_count busy_info = 1" by (simp add: process_count_def busy_info_def busy_env_def isdigit_def)
  moreover have "length (info_lines busy_info ''/proc/net/tcp'') = 2" "info_lines busy_info ''/proc/net/tcp6'' = []" by code_simp+
  then have "listening_port_count busy_info \<le> 2"
    by (simp add: listening_port_count_def) (rule order_trans [OF length_filter_le], simp)
  ultimately show ?thesis using busy_numbers_ok by (simp add: info_env_ok_def in_int64_def) (simp add: busy_info_def)
qed

lemma info_json_loads_witness:
  "parse_json wide_stod (snd (info_run busy_info \<lparr> io_color = False, io_json = True \<rparr>)) =
     Inr (row_object wide_stod (info_rows busy_info)) \<and>
   length (read_disks busy_info) = 1"
proof -
  have "length (read_disks busy_info) = 1" by code_simp
  then show ?thesis using info_json_loads [OF busy_info_ok, of False "[]"] by simp
qed

end
