(* ===== verification/Command_Line.thy ===== *)
theory Command_Line
  imports Event_Query Tail_Watcher System_Info
begin

text \<open>
  \<open>main.cpp\<close>, first part: the arguments of the command line (without the program's name), whether they ask
  for a mode that skips the check for an update, and the mode the program then runs in.  The messages about
  invalid numbers are not part of the result.
\<close>

record ParsedArgs =
  pa_config_path :: string
  pa_export_path :: string
  pa_report_path :: string
  pa_pid_file :: string
  pa_snapshot_path :: string
  pa_snapshot_mode :: bool
  pa_diagnose_path :: string
  pa_diagnose_mode :: bool
  pa_query_mode :: bool
  pa_query_keyword :: string
  pa_query_opts :: QueryOptions
  pa_reload_config :: bool
  pa_daemon_mode :: bool
  pa_tail_mode :: bool
  pa_tail_opts :: TailOptions
  pa_validate_config_mode :: bool
  pa_validate_config_path :: string
  pa_snapshot_diff_mode :: bool
  pa_snapshot_diff_opts :: DiffOptions
  pa_info_mode :: bool
  pa_info_opts :: InfoOptions
  pa_show_help :: bool
  pa_show_version :: bool
  pa_parse_error :: bool

definition default_args :: ParsedArgs where
  "default_args =
     \<lparr> pa_config_path = [], pa_export_path = [], pa_report_path = [], pa_pid_file = ''/var/run/change-of-system.pid'',
       pa_snapshot_path = [], pa_snapshot_mode = False, pa_diagnose_path = [], pa_diagnose_mode = False,
       pa_query_mode = False, pa_query_keyword = [],
       pa_query_opts = \<lparr> qo_keyword = [], qo_category = [], qo_source = [], qo_from_unix_ms = 0, qo_to_unix_ms = 0,
         qo_limit = 50, qo_offset = 0, qo_json_output = False \<rparr>,
       pa_reload_config = False, pa_daemon_mode = False, pa_tail_mode = False,
       pa_tail_opts = \<lparr> to_category_filter = [], to_source_filter = [], to_keyword_filter = [], to_color = False,
         to_json = False, to_initial_recent = 0 \<rparr>,
       pa_validate_config_mode = False, pa_validate_config_path = [], pa_snapshot_diff_mode = False,
       pa_snapshot_diff_opts = \<lparr> do_path_a = [], do_path_b = [], do_json = False, do_verbose = False \<rparr>,
       pa_info_mode = False, pa_info_opts = \<lparr> io_color = False, io_json = False \<rparr>,
       pa_show_help = False, pa_show_version = False, pa_parse_error = False \<rparr>"

subsection \<open>Parsing\<close>

text \<open>The new arguments and the number of values taken from \<open>rest\<close>.\<close>
type_synonym arg_step = "string list \<Rightarrow> ParsedArgs \<Rightarrow> ParsedArgs \<times> nat"

definition flag :: "(ParsedArgs \<Rightarrow> ParsedArgs) \<Rightarrow> arg_step" where
  "flag f rest a = (f a, 0)"

text \<open>An option whose value is missing is ignored.\<close>
definition with_value :: "(string \<Rightarrow> ParsedArgs \<Rightarrow> ParsedArgs) \<Rightarrow> arg_step" where
  "with_value f rest a = (case rest of [] \<Rightarrow> (a, 0) | v # _ \<Rightarrow> (f v a, 1))"

definition with_number :: "(string \<Rightarrow> int option) \<Rightarrow> (int \<Rightarrow> ParsedArgs \<Rightarrow> ParsedArgs) \<Rightarrow> arg_step" where
  "with_number conv f rest a =
     (case rest of
        [] \<Rightarrow> (a, 0)
      | v # _ \<Rightarrow> ((case conv v of Some n \<Rightarrow> f n a | None \<Rightarrow> a\<lparr>pa_parse_error := True\<rparr>), 1))"

text \<open>An optional value is taken if it does not start with a dash.\<close>
definition takes_value :: "string list \<Rightarrow> bool" where
  "takes_value rest = (case rest of [] \<Rightarrow> False | v # _ \<Rightarrow> v = [] \<or> hd v \<noteq> CHR ''-'')"

definition with_optional :: "(string \<Rightarrow> ParsedArgs \<Rightarrow> ParsedArgs) \<Rightarrow> arg_step" where
  "with_optional f rest a = (if takes_value rest then (f (hd rest) a, 1) else (a, 0))"

definition set_query :: "(QueryOptions \<Rightarrow> QueryOptions) \<Rightarrow> ParsedArgs \<Rightarrow> ParsedArgs" where
  "set_query f a = a\<lparr>pa_query_opts := f (pa_query_opts a)\<rparr>"

definition set_tail :: "(TailOptions \<Rightarrow> TailOptions) \<Rightarrow> ParsedArgs \<Rightarrow> ParsedArgs" where
  "set_tail f a = a\<lparr>pa_tail_opts := f (pa_tail_opts a)\<rparr>"

definition set_diff :: "(DiffOptions \<Rightarrow> DiffOptions) \<Rightarrow> ParsedArgs \<Rightarrow> ParsedArgs" where
  "set_diff f a = a\<lparr>pa_snapshot_diff_opts := f (pa_snapshot_diff_opts a)\<rparr>"

definition set_info :: "(InfoOptions \<Rightarrow> InfoOptions) \<Rightarrow> ParsedArgs \<Rightarrow> ParsedArgs" where
  "set_info f a = a\<lparr>pa_info_mode := True, pa_info_opts := f (pa_info_opts a)\<rparr>"

text \<open>\<open>--snapshot-diff\<close> takes up to two values: the first free one is \<open>path_a\<close>.\<close>
definition diff_paths :: arg_step where
  "diff_paths rest a =
     (let a1 = a\<lparr>pa_snapshot_diff_mode := True\<rparr>
      in if takes_value rest
         then (let a2 = set_diff (\<lambda>d. d\<lparr>do_path_a := hd rest\<rparr>) a1
               in if takes_value (tl rest) then (set_diff (\<lambda>d. d\<lparr>do_path_b := hd (tl rest)\<rparr>) a2, 2) else (a2, 1))
         else (a1, 0))"

definition info_section :: "string \<Rightarrow> ParsedArgs \<Rightarrow> ParsedArgs" where
  "info_section s =
     set_info (if s = ''json'' then (\<lambda>i. i\<lparr>io_json := True\<rparr>) else if s = ''color'' then (\<lambda>i. i\<lparr>io_color := True\<rparr>) else (\<lambda>i. i))"

definition step_general :: "string \<Rightarrow> arg_step option" where
  "step_general arg =
     (if arg = ''-h'' \<or> arg = ''--help'' then Some (flag (\<lambda>a. a\<lparr>pa_show_help := True\<rparr>))
      else if arg = ''-V'' \<or> arg = ''--version'' then Some (flag (\<lambda>a. a\<lparr>pa_show_version := True\<rparr>))
      else if arg = ''-c'' \<or> arg = ''--config'' then Some (with_value (\<lambda>v a. a\<lparr>pa_config_path := v\<rparr>))
      else if arg = ''-d'' \<or> arg = ''--daemon'' then Some (flag (\<lambda>a. a\<lparr>pa_daemon_mode := True\<rparr>))
      else if arg = ''--pid-file'' then Some (with_value (\<lambda>v a. a\<lparr>pa_pid_file := v\<rparr>))
      else if arg = ''--export'' then Some (with_value (\<lambda>v a. a\<lparr>pa_export_path := v\<rparr>))
      else if arg = ''--report'' then Some (with_value (\<lambda>v a. a\<lparr>pa_report_path := v\<rparr>))
      else if arg = ''--reload-config'' then Some (flag (\<lambda>a. a\<lparr>pa_reload_config := True\<rparr>))
      else if arg = ''--snapshot''
      then Some (\<lambda>rest a. with_optional (\<lambda>v a. a\<lparr>pa_snapshot_path := v\<rparr>) rest (a\<lparr>pa_snapshot_mode := True\<rparr>))
      else if arg = ''--diagnose''
      then Some (\<lambda>rest a. with_optional (\<lambda>v a. a\<lparr>pa_diagnose_path := v\<rparr>) rest (a\<lparr>pa_diagnose_mode := True\<rparr>))
      else None)"

definition step_query :: "string \<Rightarrow> arg_step option" where
  "step_query arg =
     (if arg = ''--query''
      then Some (\<lambda>rest a. with_optional (\<lambda>v a. a\<lparr>pa_query_keyword := v\<rparr>) rest (a\<lparr>pa_query_mode := True\<rparr>))
      else if arg = ''--query-category'' then Some (with_value (\<lambda>v. set_query (\<lambda>q. q\<lparr>qo_category := v\<rparr>)))
      else if arg = ''--query-source'' then Some (with_value (\<lambda>v. set_query (\<lambda>q. q\<lparr>qo_source := v\<rparr>)))
      else if arg = ''--query-from'' then Some (with_number stoll (\<lambda>n. set_query (\<lambda>q. q\<lparr>qo_from_unix_ms := n\<rparr>)))
      else if arg = ''--query-to'' then Some (with_number stoll (\<lambda>n. set_query (\<lambda>q. q\<lparr>qo_to_unix_ms := n\<rparr>)))
      else if arg = ''--query-limit'' then Some (with_number stoi (\<lambda>n. set_query (\<lambda>q. q\<lparr>qo_limit := n\<rparr>)))
      else if arg = ''--query-offset'' then Some (with_number stoi (\<lambda>n. set_query (\<lambda>q. q\<lparr>qo_offset := n\<rparr>)))
      else if arg = ''--query-json'' then Some (flag (set_query (\<lambda>q. q\<lparr>qo_json_output := True\<rparr>)))
      else None)"

definition step_tail :: "string \<Rightarrow> arg_step option" where
  "step_tail arg =
     (if arg = ''--tail'' then Some (flag (\<lambda>a. a\<lparr>pa_tail_mode := True\<rparr>))
      else if arg = ''--tail-category'' then Some (with_value (\<lambda>v. set_tail (\<lambda>t. t\<lparr>to_category_filter := v\<rparr>)))
      else if arg = ''--tail-source'' then Some (with_value (\<lambda>v. set_tail (\<lambda>t. t\<lparr>to_source_filter := v\<rparr>)))
      else if arg = ''--tail-keyword'' then Some (with_value (\<lambda>v. set_tail (\<lambda>t. t\<lparr>to_keyword_filter := v\<rparr>)))
      else if arg = ''--tail-recent'' then Some (with_number stoi (\<lambda>n. set_tail (\<lambda>t. t\<lparr>to_initial_recent := n\<rparr>)))
      else if arg = ''--tail-color'' then Some (flag (set_tail (\<lambda>t. t\<lparr>to_color := True\<rparr>)))
      else if arg = ''--tail-json'' then Some (flag (set_tail (\<lambda>t. t\<lparr>to_json := True\<rparr>)))
      else None)"

definition step_tools :: "string \<Rightarrow> arg_step option" where
  "step_tools arg =
     (if arg = ''--validate-config''
      then Some (\<lambda>rest a. with_optional (\<lambda>v a. a\<lparr>pa_validate_config_path := v\<rparr>) rest (a\<lparr>pa_validate_config_mode := True\<rparr>))
      else if arg = ''--snapshot-diff'' then Some diff_paths
      else if arg = ''--snapshot-diff-json'' then Some (flag (set_diff (\<lambda>d. d\<lparr>do_json := True\<rparr>)))
      else if arg = ''--snapshot-diff-verbose'' then Some (flag (set_diff (\<lambda>d. d\<lparr>do_verbose := True\<rparr>)))
      else if arg = ''--info'' then Some (\<lambda>rest a. with_optional info_section rest (a\<lparr>pa_info_mode := True\<rparr>))
      else if arg = ''--info-json'' then Some (flag (set_info (\<lambda>i. i\<lparr>io_json := True\<rparr>)))
      else if arg = ''--info-color'' then Some (flag (set_info (\<lambda>i. i\<lparr>io_color := True\<rparr>)))
      else None)"

text \<open>An argument no branch knows is ignored.\<close>
definition parse_step :: "string \<Rightarrow> arg_step" where
  "parse_step arg rest a =
     (case step_general arg of
        Some f \<Rightarrow> f rest a
      | None \<Rightarrow>
          (case step_query arg of
             Some f \<Rightarrow> f rest a
           | None \<Rightarrow>
               (case step_tail arg of
                  Some f \<Rightarrow> f rest a
                | None \<Rightarrow> (case step_tools arg of Some f \<Rightarrow> f rest a | None \<Rightarrow> (a, 0)))))"

function parse_from :: "string list \<Rightarrow> ParsedArgs \<Rightarrow> ParsedArgs" where
  "parse_from [] a = a"
| "parse_from (arg # rest) a = parse_from (drop (snd (parse_step arg rest a)) rest) (fst (parse_step arg rest a))"
  by pat_completeness auto
termination by (relation "measure (\<lambda>(args, _). length args)") auto

definition parse_args :: "string list \<Rightarrow> ParsedArgs" where
  "parse_args args = parse_from args default_args"

definition is_one_shot_mode :: "string list \<Rightarrow> bool" where
  "is_one_shot_mode args =
     list_ex (\<lambda>a. a \<in> {''-V'', ''--version'', ''-h'', ''--help'', ''--snapshot'', ''--diagnose'', ''--query'', ''--export'',
       ''--report'', ''--reload-config'', ''--validate-config'', ''--snapshot-diff'', ''--info''}) args"

subsection \<open>Reading back\<close>

text \<open>A piece of a command line and its effect: it takes its values whatever follows, as long as that starts
  with a dash.\<close>
definition dash_led :: "string list \<Rightarrow> bool" where
  "dash_led rest = (case rest of [] \<Rightarrow> True | v # _ \<Rightarrow> v \<noteq> [] \<and> hd v = CHR ''-'')"

type_synonym piece = "string list \<times> (ParsedArgs \<Rightarrow> ParsedArgs)"

definition piece_ok :: "piece \<Rightarrow> bool" where
  "piece_ok p = ((\<forall>rest a. dash_led rest \<longrightarrow> parse_from (fst p @ rest) a = parse_from rest (snd p a)) \<and>
     (\<forall>rest. dash_led rest \<longrightarrow> dash_led (fst p @ rest)))"

lemma parse_pieces: "list_all piece_ok ps \<Longrightarrow> parse_from (concat (map fst ps)) a = fold snd ps a"
proof (induction ps arbitrary: a)
  case (Cons p ps)
  have led: "dash_led (concat (map fst qs))" if "list_all piece_ok qs" for qs
    using that by (induction qs) (auto simp: piece_ok_def, simp add: dash_led_def)
  have "piece_ok p" "list_all piece_ok ps" using Cons.prems by simp_all
  moreover from this(2) have "parse_from (concat (map fst ps)) (snd p a) = fold snd ps (snd p a)" by (rule Cons.IH)
  ultimately show ?case using led [of ps] by (simp add: piece_ok_def [of p])
qed simp

lemma takes_no_option: "dash_led rest \<Longrightarrow> \<not> takes_value rest"
  by (auto simp: dash_led_def takes_value_def split: list.splits)

lemmas step_defs = parse_step_def step_general_def step_query_def step_tail_def step_tools_def flag_def with_value_def
  with_number_def with_optional_def diff_paths_def

lemma piece_okI:
  assumes "opt \<noteq> []" "hd opt = CHR ''-''"
    and "\<And>rest a. dash_led rest \<Longrightarrow> parse_step opt (vs @ rest) a = (f a, length vs)"
  shows "piece_ok (opt # vs, f)"
  using assms by (auto simp: piece_ok_def dash_led_def)

lemma piece_skip: "(\<And>a. f a = a) \<Longrightarrow> piece_ok ([], f)"
  by (simp add: piece_ok_def)

text \<open>A flag, an option with a value, one with a number, and one that switches a mode on and may have a value.\<close>
definition flag_piece :: "string \<Rightarrow> bool \<Rightarrow> (bool \<Rightarrow> ParsedArgs \<Rightarrow> ParsedArgs) \<Rightarrow> piece" where
  "flag_piece opt b f = (if b then [opt] else [], f b)"

definition mode_piece :: "string \<Rightarrow> bool \<Rightarrow> string \<Rightarrow> (bool \<Rightarrow> string \<Rightarrow> ParsedArgs \<Rightarrow> ParsedArgs) \<Rightarrow> piece" where
  "mode_piece opt b v f = (if b then [opt, v] else [], f b v)"

lemma flag_piece_ok:
  assumes "opt \<noteq> []" "hd opt = CHR ''-''" "\<And>rest a. parse_step opt rest a = (f True a, 0)" "\<And>a. f False a = a"
  shows "piece_ok (flag_piece opt b f)"
  using assms piece_okI [of opt "[]" "f True"] piece_skip [of "f False"] by (cases b) (simp_all add: flag_piece_def)

lemma mode_piece_ok:
  assumes "opt \<noteq> []" "hd opt = CHR ''-''" "\<And>rest a. parse_step opt (v # rest) a = (f True v a, 1)" "\<And>a. f False v a = a"
  shows "piece_ok (mode_piece opt b v f)"
  using assms piece_okI [of opt "[v]" "f True v"] piece_skip [of "f False v"] by (cases b) (simp_all add: mode_piece_def)

lemma value_piece_ok:
  assumes "opt \<noteq> []" "hd opt = CHR ''-''" "\<And>rest a. parse_step opt (v # rest) a = (f a, 1)"
  shows "piece_ok ([opt, v], f)"
  using assms piece_okI [of opt "[v]" f] by simp

definition args_pieces :: "ParsedArgs \<Rightarrow> piece list" where
  "args_pieces x =
     (let q = pa_query_opts x; t = pa_tail_opts x; d = pa_snapshot_diff_opts x; i = pa_info_opts x
      in [flag_piece ''--help'' (pa_show_help x) (\<lambda>b a. a\<lparr>pa_show_help := pa_show_help a \<or> b\<rparr>),
          flag_piece ''--version'' (pa_show_version x) (\<lambda>b a. a\<lparr>pa_show_version := pa_show_version a \<or> b\<rparr>),
          ([''--config'', pa_config_path x], \<lambda>a. a\<lparr>pa_config_path := pa_config_path x\<rparr>),
          flag_piece ''--daemon'' (pa_daemon_mode x) (\<lambda>b a. a\<lparr>pa_daemon_mode := pa_daemon_mode a \<or> b\<rparr>),
          ([''--pid-file'', pa_pid_file x], \<lambda>a. a\<lparr>pa_pid_file := pa_pid_file x\<rparr>),
          ([''--export'', pa_export_path x], \<lambda>a. a\<lparr>pa_export_path := pa_export_path x\<rparr>),
          ([''--report'', pa_report_path x], \<lambda>a. a\<lparr>pa_report_path := pa_report_path x\<rparr>),
          flag_piece ''--reload-config'' (pa_reload_config x) (\<lambda>b a. a\<lparr>pa_reload_config := pa_reload_config a \<or> b\<rparr>),
          mode_piece ''--snapshot'' (pa_snapshot_mode x) (pa_snapshot_path x)
            (\<lambda>b v a. a\<lparr>pa_snapshot_mode := pa_snapshot_mode a \<or> b, pa_snapshot_path := (if b then v else pa_snapshot_path a)\<rparr>),
          mode_piece ''--diagnose'' (pa_diagnose_mode x) (pa_diagnose_path x)
            (\<lambda>b v a. a\<lparr>pa_diagnose_mode := pa_diagnose_mode a \<or> b, pa_diagnose_path := (if b then v else pa_diagnose_path a)\<rparr>),
          mode_piece ''--query'' (pa_query_mode x) (pa_query_keyword x)
            (\<lambda>b v a. a\<lparr>pa_query_mode := pa_query_mode a \<or> b, pa_query_keyword := (if b then v else pa_query_keyword a)\<rparr>),
          ([''--query-category'', qo_category q], set_query (\<lambda>o1. o1\<lparr>qo_category := qo_category q\<rparr>)),
          ([''--query-source'', qo_source q], set_query (\<lambda>o1. o1\<lparr>qo_source := qo_source q\<rparr>)),
          ([''--query-from'', int_str (qo_from_unix_ms q)], set_query (\<lambda>o1. o1\<lparr>qo_from_unix_ms := qo_from_unix_ms q\<rparr>)),
          ([''--query-to'', int_str (qo_to_unix_ms q)], set_query (\<lambda>o1. o1\<lparr>qo_to_unix_ms := qo_to_unix_ms q\<rparr>)),
          ([''--query-limit'', int_str (qo_limit q)], set_query (\<lambda>o1. o1\<lparr>qo_limit := qo_limit q\<rparr>)),
          ([''--query-offset'', int_str (qo_offset q)], set_query (\<lambda>o1. o1\<lparr>qo_offset := qo_offset q\<rparr>)),
          flag_piece ''--query-json'' (qo_json_output q) (\<lambda>b. set_query (\<lambda>o1. o1\<lparr>qo_json_output := qo_json_output o1 \<or> b\<rparr>)),
          flag_piece ''--tail'' (pa_tail_mode x) (\<lambda>b a. a\<lparr>pa_tail_mode := pa_tail_mode a \<or> b\<rparr>),
          ([''--tail-category'', to_category_filter t], set_tail (\<lambda>o1. o1\<lparr>to_category_filter := to_category_filter t\<rparr>)),
          ([''--tail-source'', to_source_filter t], set_tail (\<lambda>o1. o1\<lparr>to_source_filter := to_source_filter t\<rparr>)),
          ([''--tail-keyword'', to_keyword_filter t], set_tail (\<lambda>o1. o1\<lparr>to_keyword_filter := to_keyword_filter t\<rparr>)),
          ([''--tail-recent'', int_str (to_initial_recent t)], set_tail (\<lambda>o1. o1\<lparr>to_initial_recent := to_initial_recent t\<rparr>)),
          flag_piece ''--tail-color'' (to_color t) (\<lambda>b. set_tail (\<lambda>o1. o1\<lparr>to_color := to_color o1 \<or> b\<rparr>)),
          flag_piece ''--tail-json'' (to_json t) (\<lambda>b. set_tail (\<lambda>o1. o1\<lparr>to_json := to_json o1 \<or> b\<rparr>)),
          mode_piece ''--validate-config'' (pa_validate_config_mode x) (pa_validate_config_path x)
            (\<lambda>b v a. a\<lparr>pa_validate_config_mode := pa_validate_config_mode a \<or> b,
                        pa_validate_config_path := (if b then v else pa_validate_config_path a)\<rparr>),
          (if pa_snapshot_diff_mode x then [''--snapshot-diff'', do_path_a d, do_path_b d] else [],
           \<lambda>a. if pa_snapshot_diff_mode x
               then a\<lparr>pa_snapshot_diff_mode := True,
                      pa_snapshot_diff_opts := (pa_snapshot_diff_opts a)\<lparr>do_path_a := do_path_a d, do_path_b := do_path_b d\<rparr>\<rparr>
               else a),
          flag_piece ''--snapshot-diff-json'' (do_json d) (\<lambda>b. set_diff (\<lambda>o1. o1\<lparr>do_json := do_json o1 \<or> b\<rparr>)),
          flag_piece ''--snapshot-diff-verbose'' (do_verbose d) (\<lambda>b. set_diff (\<lambda>o1. o1\<lparr>do_verbose := do_verbose o1 \<or> b\<rparr>)),
          flag_piece ''--info'' (pa_info_mode x) (\<lambda>b a. a\<lparr>pa_info_mode := pa_info_mode a \<or> b\<rparr>),
          flag_piece ''--info-json'' (io_json i)
            (\<lambda>b a. a\<lparr>pa_info_mode := pa_info_mode a \<or> b, pa_info_opts := (pa_info_opts a)\<lparr>io_json := io_json (pa_info_opts a) \<or> b\<rparr>\<rparr>),
          flag_piece ''--info-color'' (io_color i)
            (\<lambda>b a. a\<lparr>pa_info_mode := pa_info_mode a \<or> b, pa_info_opts := (pa_info_opts a)\<lparr>io_color := io_color (pa_info_opts a) \<or> b\<rparr>\<rparr>)])"

text \<open>The command line that sets every option.\<close>
definition print_args :: "ParsedArgs \<Rightarrow> string list" where
  "print_args x = concat (map fst (args_pieces x))"

definition no_dash :: "string \<Rightarrow> bool" where
  "no_dash v = (v = [] \<or> hd v \<noteq> CHR ''-'')"

text \<open>The settings a command line can express.\<close>
definition args_ok :: "ParsedArgs \<Rightarrow> bool" where
  "args_ok x =
     (\<not> pa_parse_error x \<and> qo_keyword (pa_query_opts x) = [] \<and>
      (pa_snapshot_mode x \<or> pa_snapshot_path x = []) \<and> no_dash (pa_snapshot_path x) \<and>
      (pa_diagnose_mode x \<or> pa_diagnose_path x = []) \<and> no_dash (pa_diagnose_path x) \<and>
      (pa_query_mode x \<or> pa_query_keyword x = []) \<and> no_dash (pa_query_keyword x) \<and>
      (pa_validate_config_mode x \<or> pa_validate_config_path x = []) \<and> no_dash (pa_validate_config_path x) \<and>
      (pa_snapshot_diff_mode x \<or> do_path_a (pa_snapshot_diff_opts x) = [] \<and> do_path_b (pa_snapshot_diff_opts x) = []) \<and>
      no_dash (do_path_a (pa_snapshot_diff_opts x)) \<and> no_dash (do_path_b (pa_snapshot_diff_opts x)) \<and>
      (pa_info_mode x \<or> \<not> io_json (pa_info_opts x) \<and> \<not> io_color (pa_info_opts x)) \<and>
      in_int64 (qo_from_unix_ms (pa_query_opts x)) \<and> in_int64 (qo_to_unix_ms (pa_query_opts x)) \<and>
      in_int32 (qo_limit (pa_query_opts x)) \<and> in_int32 (qo_offset (pa_query_opts x)) \<and>
      in_int32 (to_initial_recent (pa_tail_opts x)))"

lemma info_piece_ok: "piece_ok (flag_piece ''--info'' b (\<lambda>b a. a\<lparr>pa_info_mode := pa_info_mode a \<or> b\<rparr>))"
proof (cases b)
  case True
  have "piece_ok ([''--info''], \<lambda>a. a\<lparr>pa_info_mode := pa_info_mode a \<or> True\<rparr>)"
    by (rule piece_okI) (simp_all add: step_defs takes_no_option)
  with True show ?thesis by (simp add: flag_piece_def)
qed (simp add: flag_piece_def piece_skip)

lemma diff_piece_ok:
  "no_dash (do_path_a d) \<Longrightarrow> no_dash (do_path_b d) \<Longrightarrow>
   piece_ok (if b then [''--snapshot-diff'', do_path_a d, do_path_b d] else [],
     \<lambda>a. if b then a\<lparr>pa_snapshot_diff_mode := True,
                pa_snapshot_diff_opts := (pa_snapshot_diff_opts a)\<lparr>do_path_a := do_path_a d, do_path_b := do_path_b d\<rparr>\<rparr> else a)"
proof (cases b)
  case True
  assume "no_dash (do_path_a d)" "no_dash (do_path_b d)"
  then have "piece_ok ([''--snapshot-diff'', do_path_a d, do_path_b d], \<lambda>a. a\<lparr>pa_snapshot_diff_mode := True,
      pa_snapshot_diff_opts := (pa_snapshot_diff_opts a)\<lparr>do_path_a := do_path_a d, do_path_b := do_path_b d\<rparr>\<rparr>)"
    by (intro piece_okI) (simp_all add: step_defs takes_value_def no_dash_def set_diff_def Let_def)
  with True show ?thesis by simp
qed (simp add: piece_skip)

lemma args_pieces_ok:
  assumes "args_ok x"
  shows "list_all piece_ok (args_pieces x)"
proof -
  have a: "no_dash (pa_snapshot_path x)" "no_dash (pa_diagnose_path x)" "no_dash (pa_query_keyword x)"
      "no_dash (pa_validate_config_path x)" "no_dash (do_path_a (pa_snapshot_diff_opts x))"
      "no_dash (do_path_b (pa_snapshot_diff_opts x))" "in_int64 (qo_from_unix_ms (pa_query_opts x))"
      "in_int64 (qo_to_unix_ms (pa_query_opts x))" "in_int32 (qo_limit (pa_query_opts x))"
      "in_int32 (qo_offset (pa_query_opts x))" "in_int32 (to_initial_recent (pa_tail_opts x))"
    using assms by (simp_all add: args_ok_def)
  have optional: "takes_value (v # rest) = no_dash v" for v rest by (simp add: takes_value_def no_dash_def)
  show ?thesis
    unfolding args_pieces_def Let_def list.pred_inject
    by (intro conjI TrueI flag_piece_ok mode_piece_ok value_piece_ok info_piece_ok diff_piece_ok a)
       (simp_all add: step_defs optional a set_query_def set_tail_def set_diff_def set_info_def stoll_int_str stoi_int_str)
qed

text \<open>C13: every setting the command line can express is read back from the command line that sets every option:
  each option is recognised, takes exactly its own values, and changes nothing else.\<close>
theorem parse_args_round_trip:
  assumes "args_ok x"
  shows "parse_args (print_args x) = x"
proof -
  have "parse_args (print_args x) = fold snd (args_pieces x) default_args"
    unfolding parse_args_def print_args_def by (rule parse_pieces [OF args_pieces_ok [OF assms]])
  also have "\<dots> = x"
    using assms
    by (cases x) (auto simp: args_pieces_def args_ok_def default_args_def flag_piece_def mode_piece_def set_query_def set_tail_def
        set_diff_def Let_def)
  finally show ?thesis .
qed

definition sample_args :: ParsedArgs where
  "sample_args =
     default_args\<lparr>pa_config_path := ''a.ini'', pa_query_mode := True, pa_query_keyword := ''ssh'', pa_snapshot_mode := True,
       pa_query_opts := (pa_query_opts default_args)\<lparr>qo_limit := - 3, qo_json_output := True\<rparr>,
       pa_tail_opts := (pa_tail_opts default_args)\<lparr>to_source_filter := ''--x''\<rparr>\<rparr>"

lemma parse_args_round_trip_witness: "parse_args (print_args sample_args) = sample_args"
  by (rule parse_args_round_trip)
     (simp add: args_ok_def sample_args_def default_args_def no_dash_def in_int32_def in_int64_def)

subsection \<open>The mode\<close>

datatype main_mode =
    ShowHelp | ShowVersion | BadArguments | ValidateConfig string | CompareSnapshots DiffOptions | ShowInfo InfoOptions
  | CaptureSnapshot | RunDiagnosis | RunQuery | Serve

definition validate_path :: "ParsedArgs \<Rightarrow> string" where
  "validate_path args =
     (if pa_validate_config_path args \<noteq> [] then pa_validate_config_path args
      else if pa_config_path args \<noteq> [] then pa_config_path args else ''config.ini'')"

definition main_mode_of :: "ParsedArgs \<Rightarrow> main_mode" where
  "main_mode_of args =
     (if pa_show_help args then ShowHelp
      else if pa_show_version args then ShowVersion
      else if pa_parse_error args then BadArguments
      else if pa_validate_config_mode args then ValidateConfig (validate_path args)
      else if pa_snapshot_diff_mode args then CompareSnapshots (pa_snapshot_diff_opts args)
      else if pa_info_mode args then ShowInfo (pa_info_opts args)
      else if pa_snapshot_mode args then CaptureSnapshot
      else if pa_diagnose_mode args then RunDiagnosis
      else if pa_query_mode args then RunQuery
      else Serve)"

subsection \<open>Facts\<close>

text \<open>Help is shown although a number is wrong, and wins over every other mode.\<close>
lemma help_wins: "pa_show_help args \<Longrightarrow> main_mode_of args = ShowHelp"
  by (simp add: main_mode_of_def)

text \<open>A mistyped option, and a value without its option, are dropped without a word.\<close>
lemma unknown_arguments_ignored: "parse_args [''--qurey'', ''ssh'', ''--config''] = default_args"
  by (simp add: parse_args_def step_defs)

text \<open>A value that is missing swallows the option that follows.\<close>
lemma option_taken_as_value: "main_mode_of (parse_args [''--config'', ''--snapshot'']) = Serve"
  by (simp add: parse_args_def step_defs main_mode_of_def default_args_def)

text \<open>The two short forms of the information mode, and the comparison options, wait for the update prompt.\<close>
lemma prompt_before_info_json: "\<not> is_one_shot_mode [''--info-json''] \<and> main_mode_of (parse_args [''--info-json'']) = ShowInfo \<lparr> io_color = False, io_json = True \<rparr>"
  by (simp add: is_one_shot_mode_def parse_args_def step_defs main_mode_of_def default_args_def set_info_def)

text \<open>The test looks at values too: a value that is spelled like an option suppresses the check for updates.\<close>
lemma value_suppresses_update_check:
  "is_one_shot_mode [''--tail'', ''--tail-keyword'', ''--report''] \<and> main_mode_of (parse_args [''--tail'', ''--tail-keyword'', ''--report'']) = Serve"
  by (simp add: is_one_shot_mode_def parse_args_def step_defs main_mode_of_def default_args_def set_tail_def)

end
