(* ===== verification/Diagnostic_Runner.thy ===== *)
theory Diagnostic_Runner
  imports Engine_Lifecycle Platform
begin

text \<open>
  \<open>diagnostic/diagnostic_runner.h\<close> and \<open>diagnostic/diagnostic_runner.cpp\<close>: the self-test of an initialised
  engine.  \<open>monitor_available\<close>, \<open>monitor_native\<close> and \<open>monitor_description\<close> are the overrides of the fourteen
  monitors.  \<open>initialize\<close> creates every part of the engine, so the null tests of the source are true here.
\<close>

record DiagnosticResult =
  dr_total :: int
  dr_available :: int
  dr_unavailable :: int
  dr_storage_ok :: bool
  dr_reporter_ok :: bool
  dr_alert_ok :: bool
  dr_filter_ok :: bool
  dr_stats_ok :: bool
  dr_security_ok :: bool
  dr_webhook_ok :: bool

text \<open>What the report says of the machine.\<close>
record host_info =
  hi_platform :: string
  hi_architecture :: string
  hi_hostname :: string
  hi_username :: string
  hi_version :: string

subsection \<open>The overrides of the monitors\<close>

definition monitor_available :: "PlatformType \<Rightarrow> string \<Rightarrow> bool" where
  "monitor_available t name =
     (if name = ''process'' then has_native_process_monitor t
      else if name = ''network'' then is_unix t \<or> is_windows t
      else if name = ''user_activity'' then has_native_user_monitor t
      else if name = ''service'' then has_native_service_monitor t
      else True)"

text \<open>Port, package and environment monitor do not override the default of the base class.\<close>
definition monitor_native :: "PlatformType \<Rightarrow> bool \<Rightarrow> string \<Rightarrow> bool" where
  "monitor_native t use_native name =
     (if name = ''filesystem'' then has_native_filesystem_watcher t \<and> use_native
      else name = ''port'' \<or> name = ''package'' \<or> name = ''environment'')"

definition monitor_descriptions :: "(string \<times> string) list" where
  "monitor_descriptions =
     [(''filesystem'', ''Monitors filesystem changes (create/modify/delete/move/permission).''),
      (''process'', ''Monitors process lifecycle and resource usage.''),
      (''network'', ''Monitors network connections and bandwidth.''),
      (''system_config'', ''Monitors system-wide configuration changes.''),
      (''user_activity'', ''Monitors user login/logout activity.''),
      (''service'', ''Monitors system service state changes.''),
      (''file_integrity'', ''Monitors file integrity using SHA-256 hashing.''),
      (''usb_device'', ''Monitors USB device insertion and removal events.''),
      (''disk_space'', ''Monitors disk space usage and alerts on high usage.''),
      (''system_load'', ''Monitors system load averages and CPU/memory usage.''),
      (''log'', ''Monitors log files for pattern matches and anomalies.''),
      (''port'', ''Monitor open ports and listening services''),
      (''package'', ''Monitor package installations, updates, and removals''),
      (''environment'', ''Monitor environment variable changes'')]"

definition monitor_description :: "string \<Rightarrow> string" where
  "monitor_description name = (case map_of monitor_descriptions name of Some d \<Rightarrow> d | None \<Rightarrow> [])"

subsection \<open>The report\<close>

definition status_str :: "bool \<Rightarrow> string" where
  "status_str ok = (if ok then ''OK'' else ''FAIL'')"

definition yes_no :: "bool \<Rightarrow> string" where
  "yes_no b = (if b then ''yes'' else ''no'')"

text \<open>\<open>%-22s\<close> of \<open>snprintf\<close>\<close>
definition pad_right :: "nat \<Rightarrow> string \<Rightarrow> string" where
  "pad_right n s = s @ replicate (n - length s) (CHR '' '')"

text \<open>\<open>snprintf\<close> into a buffer of \<open>n\<close> bytes cuts the text.\<close>
definition snprintf :: "nat \<Rightarrow> string \<Rightarrow> string" where
  "snprintf n s = take (n - 1) s"

definition monitor_lines :: "PlatformType \<Rightarrow> MonitorSlot \<Rightarrow> string" where
  "monitor_lines t slot =
     snprintf 256 (''  '' @ pad_right 22 (sl_name slot) @ ''  ['' @ status_str (sl_available slot) @ '']  interval='' @
       int_str (mon_poll_interval_ms (sl_base slot)) @ ''ms  native='' @
       yes_no (monitor_native t (mon_use_native (sl_base slot)) (sl_name slot)) @ [nl]) @
     ''    '' @ monitor_description (sl_name slot) @ [nl]"

definition double_rule :: string where
  "double_rule = replicate 62 (CHR ''='') @ [nl]"

definition dash_rule :: string where
  "dash_rule = replicate 62 (CHR ''-'') @ [nl]"

definition diagnose ::
    "PlatformType \<Rightarrow> ('re, 'lre, 'w) MonitorEngine \<Rightarrow> DiagnosticResult" where
  "diagnose t en =
     \<lparr> dr_total = int (length (eng_slots en)),
       dr_available = int (length (filter sl_available (eng_slots en))),
       dr_unavailable = int (length (filter (\<lambda>slot. \<not> sl_available slot) (eng_slots en))),
       dr_storage_ok = storage_is_open (en_storage (eng_router en)),
       dr_reporter_ok = True, dr_alert_ok = True, dr_filter_ok = True, dr_stats_ok = True, dr_security_ok = True,
       dr_webhook_ok = True \<rparr>"

definition diagnostic_text :: "PlatformType \<Rightarrow> host_info \<Rightarrow> ('re, 'lre, 'w) MonitorEngine \<Rightarrow> string" where
  "diagnostic_text t host en =
     (let r = diagnose t en; sto = en_storage (eng_router en)
      in double_rule @ '' change-of-system diagnostic report'' @ [nl] @ double_rule @
         '' Platform       : '' @ hi_platform host @ '' ('' @ hi_architecture host @ '')'' @ [nl] @
         '' Host           : '' @ hi_hostname host @ [nl] @
         '' User           : '' @ hi_username host @ [nl] @
         '' OS version     : '' @ hi_version host @ [nl] @
         dash_rule @ '' Monitor availability:'' @ [nl] @ dash_rule @
         concat (map (monitor_lines t) (eng_slots en)) @
         dash_rule @ '' Sub-system status:'' @ [nl] @ dash_rule @
         snprintf 128 (''  '' @ pad_right 22 ''storage'' @ ''  ['' @ status_str (dr_storage_ok r) @ '']  events='' @
           int_str (storage_count sto) @ [nl]) @
         ''  reporter            ['' @ status_str (dr_reporter_ok r) @ '']  enabled='' @
           yes_no (rp_enabled (en_reporter (eng_router en))) @ [nl] @
         ''  alert_manager       ['' @ status_str (dr_alert_ok r) @ '']'' @ [nl] @
         ''  event_filter        ['' @ status_str (dr_filter_ok r) @ '']'' @ [nl] @
         ''  statistics         ['' @ status_str (dr_stats_ok r) @ '']'' @ [nl] @
         ''  security_auditor    ['' @ status_str (dr_security_ok r) @ '']'' @ [nl] @
         ''  webhook_notifier    ['' @ status_str (dr_webhook_ok r) @ '']'' @ [nl] @
         dash_rule @
         snprintf 256 ('' Summary: '' @ int_str (dr_available r) @ ''/'' @ int_str (dr_total r) @ '' monitors available, '' @
           int_str (dr_unavailable r) @ '' unavailable'' @ [nl]) @
         double_rule)"

text \<open>The result, the text on the standard output and the file system.\<close>
definition diagnostic_run ::
    "PlatformType \<Rightarrow> host_info \<Rightarrow> string \<Rightarrow> file_system \<Rightarrow> ('re, 'lre, 'w) MonitorEngine \<Rightarrow>
     DiagnosticResult \<times> string \<times> file_system" where
  "diagnostic_run t host output_path fs en =
     (let report = diagnostic_text t host en
      in if output_path = [] then (diagnose t en, report, fs)
         else (let (fs1, f) = open_trunc output_path fs
               in if st_fail f then (diagnose t en, report, fs1) else (diagnose t en, [], stream_write report fs1 f)))"

subsection \<open>Facts\<close>

lemma pad_right_length: "length (pad_right n s) = max n (length s)"
  by (simp add: pad_right_def)

lemma native_of_polling_monitors: "monitor_native t b ''port'' \<and> monitor_native t b ''package'' \<and> monitor_native t b ''environment''"
  by (simp add: monitor_native_def)

lemma availability_partition:
  "dr_available (diagnose t en) + dr_unavailable (diagnose t en) = dr_total (diagnose t en)"
  using sum_length_filter_compl [of sl_available "eng_slots en"] by (simp add: diagnose_def)

lemma unavailable_none_iff: "dr_unavailable (diagnose t en) = 0 \<longleftrightarrow> list_all sl_available (eng_slots en)"
  by (simp add: diagnose_def filter_empty_conv list_all_iff)

lemma initialize_slots:
  fixes en :: "('re, 'lre, 'w) MonitorEngine"
  assumes "initialize env path fs cfg0 = (cfg, fs1, en)"
  shows "map sl_name (eng_slots en) = map fst monitor_table" (is ?names)
    "map sl_available (eng_slots en) = map (\<lambda>row. ee_available env (fst row)) monitor_table" (is ?available)
    "en_storage (eng_router en) = snd (initialize_storage cfg fs)" (is ?storage)
proof -
  have "eng_slots en = fst (initialize_monitors env cfg) \<and> eng_router en = initialize_router env cfg (snd (initialize_storage cfg fs))"
    using assms by (auto simp: initialize_def Let_def split_beta split: if_splits)
  then have en: "eng_slots en = set_intervals cfg (new_slots (ee_available env))"
      "eng_router en = initialize_router env cfg (snd (initialize_storage cfg fs))"
    by (simp_all add: initialize_monitors_def Let_def)
  show ?names ?available
    by (simp_all add: en set_intervals_def new_slots_def monitor_table_def)
  show ?storage by (simp add: en initialize_router_def Let_def)
qed

lemma initialize_storage_opens:
  "storage_is_open (snd (initialize_storage cfg fs)) \<longleftrightarrow>
   fs_can_write fs (config_get ''storage.database_path'' ''change-of-system.log'' cfg)"
  by (simp add: initialize_storage_def storage_open_def open_append_def new_storage_def storage_is_open_def Let_def
      split_beta configure_rotation_def closed_stream_def stream_is_open_def)

text \<open>the self-test of an initialised engine lists the fourteen monitors, counts the available and the
  unavailable ones, and reports the storage as failed exactly if its file cannot be opened; every other
  part is always reported as good.\<close>
theorem diagnose_initialised:
  fixes en :: "('re, 'lre, 'w) MonitorEngine"
  assumes "initialize env path fs cfg0 = (cfg, fs1, en)"
  shows "diagnose t en =
     \<lparr> dr_total = 14,
       dr_available = int (length (filter (\<lambda>row. ee_available env (fst row)) monitor_table)),
       dr_unavailable = int (length (filter (\<lambda>row. \<not> ee_available env (fst row)) monitor_table)),
       dr_storage_ok = fs_can_write fs (config_get ''storage.database_path'' ''change-of-system.log'' cfg),
       dr_reporter_ok = True, dr_alert_ok = True, dr_filter_ok = True, dr_stats_ok = True, dr_security_ok = True,
       dr_webhook_ok = True \<rparr>"
proof -
  note slots = initialize_slots [OF assms]
  have "length (filter P (map sl_available (eng_slots en))) = length (filter (\<lambda>slot. P (sl_available slot)) (eng_slots en))" for P
    by (simp add: filter_map o_def)
  then have count: "length (filter (\<lambda>slot. P (sl_available slot)) (eng_slots en)) =
      length (filter (\<lambda>row. P (ee_available env (fst row))) monitor_table)" for P
    by (simp add: slots(2) filter_map o_def)
  have "length (map sl_name (eng_slots en)) = 14" by (simp add: slots(1) monitor_table_def)
  then show ?thesis
    using count [of "\<lambda>b. b"] count [of Not] by (simp add: diagnose_def slots(3) initialize_storage_opens)
qed

lemma diagnose_initialised_witness:
  "let (cfg, fs1, en) = (initialize plain_env [] open_fs new_config_store :: ConfigStore \<times> file_system \<times> (string, string, nat) MonitorEngine)
   in dr_available (diagnose Linux en) = 14 \<and> dr_storage_ok (diagnose Linux en)"
proof -
  obtain cfg fs1 and en :: "(string, string, nat) MonitorEngine" where i: "initialize plain_env [] open_fs new_config_store = (cfg, fs1, en)"
    by (rule prod_cases3)
  show ?thesis
    using diagnose_initialised [OF i, of Linux] by (simp add: i) (simp add: plain_env_def monitor_table_def open_fs_def)
qed

text \<open>On Linux, macOS, ChromeOS and FydeOS every monitor is available; on Android and iOS three are not.\<close>
lemma all_available_iff:
  "list_all (\<lambda>row. monitor_available t (fst row)) monitor_table \<longleftrightarrow> t \<in> {Linux, macOS, ChromeOS, FydeOS}"
  by (cases t) (simp_all add: monitor_table_def monitor_available_def has_native_process_monitor_def is_unix_def
      is_windows_def has_native_user_monitor_def has_native_service_monitor_def)

lemma unavailable_on_phones:
  "is_mobile t \<Longrightarrow>
   map fst (filter (\<lambda>row. \<not> monitor_available t (fst row)) monitor_table) = [''process'', ''user_activity'', ''service'']"
  by (auto simp: is_mobile_def monitor_table_def monitor_available_def has_native_process_monitor_def is_unix_def
      is_windows_def has_native_user_monitor_def has_native_service_monitor_def)

end
