(* ===== verification/Report_Generator.thy ===== *)
theory Report_Generator
  imports Monitor_Engine
begin

text \<open>
  \<open>report/report_generator.h\<close> and \<open>report/report_generator.cpp\<close>, and \<open>MonitorEngine::generate_report\<close>.
  \<open>fmt\<close> is the formatting of a time stamp in local time, \<open>rate\<close> that of a rate with two digits, \<open>srt\<close> the
  sorting of the statistics, and the three clock readings are those of \<open>now\<close> and of the statistics.  A
  call that never returns or that throws is an \<open>Inl\<close>, as in theory \<open>Statistics\<close>.
\<close>

record ReportConfig =
  rpc_title :: string
  rpc_output_path :: string
  rpc_period_hours :: int
  rpc_include_summary :: bool
  rpc_include_statistics :: bool
  rpc_include_recent_events :: bool
  rpc_max_recent_events :: int

definition default_report_config :: ReportConfig where
  "default_report_config =
     \<lparr> rpc_title = ''System Change Report'', rpc_output_path = ''report.txt'', rpc_period_hours = 24,
       rpc_include_summary = True, rpc_include_statistics = True, rpc_include_recent_events = True,
       rpc_max_recent_events = 50 \<rparr>"

record report_env =
  rpe_fmt :: "timestamp \<Rightarrow> string"
  rpe_rate :: "rat \<Rightarrow> string"
  rpe_sort :: "ranking \<Rightarrow> ranking"
  rpe_now :: timestamp
  rpe_now1 :: timestamp
  rpe_now2 :: timestamp

text \<open>A duration in seconds.\<close>
definition report_format_duration :: "int \<Rightarrow> string" where
  "report_format_duration d =
     (let hours = tdiv d 3600; minutes = tdiv (d - hours * 3600) 60; seconds = d - hours * 3600 - minutes * 60
      in (if hours > 0 then int_str hours @ ''h '' else []) @
         (if minutes > 0 \<or> hours > 0 then int_str minutes @ ''m '' else []) @ int_str seconds @ ''s'')"

definition category_counts :: "Event list \<Rightarrow> (string, int) omap" where
  "category_counts events =
     fold (\<lambda>e m. omap_update (category_name (ev_category e)) (omap_get 0 m (category_name (ev_category e)) + 1) m) events []"

definition summary_section :: "report_env \<Rightarrow> Event list \<Rightarrow> string" where
  "summary_section env events =
     ''=== SUMMARY ==='' @ [nl, nl] @
     (if events = [] then ''No events recorded in this period.'' @ [nl, nl]
      else
        (let first_time = ev_timestamp (hd events); last_time = ev_timestamp (last events)
         in ''Total Events: '' @ nat_str (length events) @ [nl] @ ''Events by Category:'' @ [nl] @
            concat (map (\<lambda>(c, n). ''  - '' @ c @ '': '' @ int_str n @ [nl]) (category_counts events)) @ [nl] @
            ''Time Range: '' @ rpe_fmt env first_time @ '' to '' @ rpe_fmt env last_time @ [nl] @
            ''Duration: '' @ report_format_duration (tdiv (last_time - first_time) 1000000000) @ [nl, nl]))"

definition ranking_lines :: "string \<Rightarrow> ranking \<Rightarrow> string" where
  "ranking_lines title r =
     (if r = [] then []
      else title @ [nl] @ concat (map (\<lambda>(s, n). ''  '' @ s @ '': '' @ word_str n @ '' events'' @ [nl]) (take 10 r)) @ [nl])"

definition statistics_section :: "report_env \<Rightarrow> StatisticsCollector option \<Rightarrow> stats_error + string" where
  "statistics_section env stats =
     (case stats of
        None \<Rightarrow> Inr (''=== STATISTICS ==='' @ [nl, nl] @ ''Statistics not available.'' @ [nl, nl])
      | Some s \<Rightarrow>
          sum_bind (get_stats (rpe_sort env) (rpe_now1 env) (rpe_now2 env) s) (\<lambda>summary.
            Inr (''=== STATISTICS ==='' @ [nl, nl] @
                 ''Total Events Recorded: '' @ word_str (es_total_events summary) @ [nl] @
                 ''Events per Second: '' @ rpe_rate env (es_events_per_second summary) @ [nl] @
                 ''Events per Minute: '' @ rpe_rate env (es_events_per_minute summary) @ [nl, nl] @
                 ranking_lines ''Top Sources:'' (es_top_sources summary) @
                 ranking_lines ''Top Targets:'' (es_top_targets summary))))"

definition event_entry :: "report_env \<Rightarrow> Event \<Rightarrow> string" where
  "event_entry env e =
     ''['' @ rpe_fmt env (ev_timestamp e) @ ''] '' @ category_name (ev_category e) @ '' | '' @ type_name (ev_type e) @ [nl] @
     ''  Source: '' @ ev_source e @ [nl] @ ''  Target: '' @ ev_target e @ [nl] @ ''  Summary: '' @ ev_summary e @ [nl] @
     (if ev_attributes e = [] then []
      else ''  Attributes:'' @ [nl] @
           concat (map (\<lambda>(k, v). ''    '' @ k @ '': '' @ v @ [nl]) (ev_attributes e))) @ [nl]"

definition events_section :: "report_env \<Rightarrow> Event list \<Rightarrow> string" where
  "events_section env events =
     ''=== RECENT EVENTS ==='' @ [nl, nl] @
     (if events = [] then ''No events to display.'' @ [nl, nl] else concat (map (event_entry env) events))"

text \<open>\<open>static_cast<size_t>\<close> of an \<open>int\<close>, which has 32 bits.\<close>
definition to_size :: "int \<Rightarrow> nat" where
  "to_size n = (if n < 0 then nat (2 ^ 64 + n) else nat n)"

definition events_to_show :: "ReportConfig \<Rightarrow> Event list \<Rightarrow> Event list" where
  "events_to_show config events =
     (if length events > to_size (rpc_max_recent_events config) then take (to_size (rpc_max_recent_events config)) events
      else events)"

definition report_rule :: string where
  "report_rule = replicate 40 (CHR ''='') @ [nl]"

definition report_body :: "report_env \<Rightarrow> ReportConfig \<Rightarrow> Event list \<Rightarrow> string \<Rightarrow> string" where
  "report_body env config events statistics =
     report_rule @ ''  '' @ rpc_title config @ [nl] @ report_rule @
     ''Generated: '' @ rpe_fmt env (rpe_now env) @ [nl, nl] @
     (if rpc_include_summary config then summary_section env events else []) @ statistics @
     (if rpc_include_recent_events config then events_section env (events_to_show config events) else []) @
     report_rule @ ''End of Report'' @ [nl] @ report_rule"

definition generate_text_report ::
    "report_env \<Rightarrow> StatisticsCollector option \<Rightarrow> ReportConfig \<Rightarrow> Event list \<Rightarrow> file_system \<Rightarrow> stats_error + (file_system \<times> bool)" where
  "generate_text_report env stats config events fs =
     (let (fs1, f) = open_trunc (rpc_output_path config) fs
      in if st_fail f then Inr (fs1, False)
         else sum_bind (if rpc_include_statistics config then statistics_section env stats else Inr [])
                (\<lambda>statistics. Inr (stream_write (report_body env config events statistics) fs1 f, True)))"

text \<open>\<open>ReportGenerator::generate\<close>\<close>
definition report_generate ::
    "report_env \<Rightarrow> StatisticsCollector option \<Rightarrow> ReportConfig \<Rightarrow> file_system \<Rightarrow> stats_error + (file_system \<times> bool)" where
  "report_generate env stats config fs = generate_text_report env stats config [] fs"

definition engine_generate_report ::
    "report_env \<Rightarrow> ReportConfig \<Rightarrow> file_system \<Rightarrow> ('re, 'w) Router \<Rightarrow> (stats_error + (file_system \<times> bool)) option" where
  "engine_generate_report env config fs en =
     map_option (\<lambda>events. generate_text_report env (Some (en_statistics en)) config events fs)
       (recent_events (rpc_max_recent_events config) en)"

subsection \<open>Durations\<close>

text \<open>The three numbers of a duration, with the units that are printed.\<close>
lemma report_format_duration_parts:
  assumes "0 \<le> d"
  obtains h m s where "d = h * 3600 + m * 60 + s" "0 \<le> h" "0 \<le> m" "m < 60" "0 \<le> s" "s < 60"
    "report_format_duration d = (if h > 0 then int_str h @ ''h '' else []) @
       (if m > 0 \<or> h > 0 then int_str m @ ''m '' else []) @ int_str s @ ''s''"
proof
  show "d = d div 3600 * 3600 + d mod 3600 div 60 * 60 + d mod 3600 mod 60" by simp
  have "d - d div 3600 * 3600 = d mod 3600" by (simp add: minus_div_mult_eq_mod)
  moreover have "d mod 3600 - d mod 3600 div 60 * 60 = d mod 3600 mod 60" by (simp add: minus_div_mult_eq_mod)
  ultimately show "report_format_duration d = (if d div 3600 > 0 then int_str (d div 3600) @ ''h '' else []) @
       (if d mod 3600 div 60 > 0 \<or> d div 3600 > 0 then int_str (d mod 3600 div 60) @ ''m '' else []) @
       int_str (d mod 3600 mod 60) @ ''s''"
    using assms by (simp add: report_format_duration_def tdiv_nonneg Let_def)
qed (use assms in \<open>auto simp: pos_imp_zdiv_nonneg_iff\<close>)

text \<open>A clock that is set back prints a negative number of seconds.\<close>
lemma negative_duration: "report_format_duration (- 5) = ''-5s''"
  by code_simp

subsection \<open>The summary\<close>

lemma category_counts_sorted: "omap_sorted (category_counts events)"
proof -
  have "omap_sorted m \<Longrightarrow> omap_sorted (fold (\<lambda>e m. omap_update (category_name (ev_category e))
      (omap_get 0 m (category_name (ev_category e)) + 1) m) events m)" for m :: "(string, int) omap"
    by (induction events arbitrary: m) simp_all
  then show ?thesis by (simp add: category_counts_def)
qed

lemma category_counts_get:
  "omap_get 0 (category_counts events) k = int (length (filter (\<lambda>e. category_name (ev_category e) = k) events))"
proof -
  have "omap_get 0 (fold (\<lambda>e m. omap_update (category_name (ev_category e))
      (omap_get 0 m (category_name (ev_category e)) + 1) m) events m) k =
    omap_get 0 m k + int (length (filter (\<lambda>e. category_name (ev_category e) = k) events))" for m :: "(string, int) omap"
    by (induction events arbitrary: m) auto
  then show ?thesis by (simp add: category_counts_def)
qed

lemma category_counts_total: "omap_total (category_counts events) = int (length events)"
proof -
  have "omap_sorted m \<Longrightarrow> omap_total (fold (\<lambda>e m. omap_update (category_name (ev_category e))
      (omap_get 0 m (category_name (ev_category e)) + 1) m) events m) = omap_total m + int (length events)"
    for m :: "(string, int) omap"
    by (induction events arbitrary: m) (simp_all add: omap_total_incr)
  then show ?thesis by (simp add: category_counts_def)
qed

subsection \<open>The file\<close>

lemma statistics_section_never: "statistics_section env (Some s) \<noteq> Inr t"
  using get_stats_never_returns [of "rpe_sort env" "rpe_now1 env" "rpe_now2 env" s]
  by (cases "get_stats (rpe_sort env) (rpe_now1 env) (rpe_now2 env) s") (auto simp: statistics_section_def)

lemma events_to_show_recent:
  assumes "recent_events (rpc_max_recent_events config) en = Some events"
  shows "events_to_show config events = events"
  using assms by (auto simp: recent_events_def events_to_show_def to_size_def Let_def split: if_splits)

lemma recent_events_newest:
  "recent_events limit en = (if limit < 0 then None else Some (drop (length (en_recent en) - nat limit) (en_recent en)))"
  by (auto simp: recent_events_def Let_def nat_diff_distrib' max_def)

text \<open>The content of a report without the statistics.\<close>
definition plain_report :: "report_env \<Rightarrow> ReportConfig \<Rightarrow> Event list \<Rightarrow> string" where
  "plain_report env config events =
     report_rule @ ''  '' @ rpc_title config @ [nl] @ report_rule @
     ''Generated: '' @ rpe_fmt env (rpe_now env) @ [nl, nl] @
     (if rpc_include_summary config then summary_section env events else []) @
     (if rpc_include_recent_events config then events_section env events else []) @
     report_rule @ ''End of Report'' @ [nl] @ report_rule"

text \<open>The collector knows the five categories, as it does from its construction on.\<close>
definition counts_categories :: "StatisticsCollector \<Rightarrow> bool" where
  "counts_categories s =
     list_all (\<lambda>c. map_of (stc_category_counts s) c \<noteq> None) [Filesystem, Process, Network, SystemConfig, UnknownCategory]"

lemma statistics_section_fails:
  "statistics_section env (Some s) = Inl (if counts_categories s then Deadlock else OutOfRange)"
  by (auto simp: statistics_section_def get_stats_def counts_categories_def map_at_def lock_guard_def top_sources_def Let_def
      split: option.split)

lemma recording_keeps_categories:
  "sum_bind (stats_run ins (new_statistics t1 t2)) (\<lambda>s. Inr (counts_categories s)) = Inr True"
proof -
  obtain s where s: "stats_run ins (new_statistics t1 t2) = Inr s"
      "dom (map_of (stc_category_counts (new_statistics t1 t2))) \<subseteq> dom (map_of (stc_category_counts s))"
    using stats_run_counts [OF stats_wf_new, of ins t1 t2] by blast
  then show ?thesis by (auto simp: counts_categories_def new_statistics_categories domIff subset_iff)
qed

text \<open>C37: what becomes of a report of the engine.  With a negative number of events it throws; if the file cannot
  be opened it returns \<open>false\<close>; with the statistics, which the default configuration asks for, it never
  returns, for the mutex is locked twice (or throws, had the collector lost a category, which recording
  does not do); and without them it returns \<open>true\<close>, and the file holds the summary of the newest events, as
  many as asked for, and these events in order.\<close>
theorem report_outcomes:
  "engine_generate_report env config fs en =
     (if rpc_max_recent_events config < 0 then None
      else if \<not> fs_can_write fs (rpc_output_path config) then Some (Inr (fs, False))
      else if rpc_include_statistics config
      then Some (Inl (if counts_categories (en_statistics en) then Deadlock else OutOfRange))
      else Some (Inr (set_file (rpc_output_path config)
                        (Some (plain_report env config
                          (drop (length (en_recent en) - nat (rpc_max_recent_events config)) (en_recent en)))) fs, True))) \<and>
   rpc_include_statistics default_report_config \<and>
   sum_bind (stats_run ins (new_statistics t1 t2)) (\<lambda>s. Inr (counts_categories s)) = Inr True"
proof (intro conjI)
  let ?es = "drop (length (en_recent en) - nat (rpc_max_recent_events config)) (en_recent en)"
  have body: "report_body env config ?es [] = plain_report env config ?es" if "\<not> rpc_max_recent_events config < 0"
    using events_to_show_recent [of config en ?es] that by (simp add: recent_events_newest report_body_def plain_report_def)
  show "engine_generate_report env config fs en =
     (if rpc_max_recent_events config < 0 then None
      else if \<not> fs_can_write fs (rpc_output_path config) then Some (Inr (fs, False))
      else if rpc_include_statistics config
      then Some (Inl (if counts_categories (en_statistics en) then Deadlock else OutOfRange))
      else Some (Inr (set_file (rpc_output_path config) (Some (plain_report env config ?es)) fs, True)))"
    using body
    by (simp add: engine_generate_report_def recent_events_newest generate_text_report_def open_trunc_def Let_def
        set_file_def statistics_section_fails)
  show "rpc_include_statistics default_report_config" by (simp add: default_report_config_def)
qed (rule recording_keeps_categories)

end
