(* ===== verification/Daemon.thy ===== *)
theory Daemon
  imports File_System
begin

text \<open>
  \<open>utils/daemon.h\<close> and \<open>utils/daemon.cpp\<close>: the change into a daemon and the file with the process id.  The
  results of \<open>fork\<close>, \<open>setsid\<close>, \<open>chdir\<close> and of opening \<open>/dev/null\<close> are parameters.  A process has a
  working directory, against which relative paths are resolved, a file mode mask and its standard
  streams.  The machine has files (theory \<open>File_System\<close>, by absolute path) and directories.
\<close>

datatype fork_result = ForkError | InParent | InChild

datatype std_streams = Inherited | ToNull | AllClosed

record process =
  px_pid :: int
  px_cwd :: string
  px_umask :: nat
  px_streams :: std_streams

datatype daemon_result = ExitSuccess | DaemonFailed process | Daemonized process

record daemon_env =
  de_fork1 :: fork_result
  de_setsid :: bool
  de_fork2 :: fork_result
  de_child_pid :: int
  de_chdir :: bool
  de_devnull :: bool

definition daemonize :: "daemon_env \<Rightarrow> process \<Rightarrow> daemon_result" where
  "daemonize env p =
     (case de_fork1 env of
        ForkError \<Rightarrow> DaemonFailed p
      | InParent \<Rightarrow> ExitSuccess
      | InChild \<Rightarrow>
          if \<not> de_setsid env then DaemonFailed p
          else (case de_fork2 env of
                  ForkError \<Rightarrow> DaemonFailed p
                | InParent \<Rightarrow> ExitSuccess
                | InChild \<Rightarrow>
                    Daemonized (p\<lparr>px_pid := de_child_pid env, px_umask := 0x3F,
                                  px_cwd := (if de_chdir env then ''/'' else px_cwd p),
                                  px_streams := (if de_devnull env then ToNull else AllClosed)\<rparr>)))"

record machine =
  ma_fs :: file_system
  ma_dirs :: "string list"
  ma_can_mkdir :: "string \<Rightarrow> bool"

text \<open>A relative path is resolved against the working directory; an empty one names nothing.\<close>
definition resolve :: "process \<Rightarrow> string \<Rightarrow> string" where
  "resolve p path =
     (if path = [] \<or> hd path = CHR ''/'' then path
      else if px_cwd p \<noteq> [] \<and> last (px_cwd p) = CHR ''/'' then px_cwd p @ path else px_cwd p @ ''/'' @ path)"

text \<open>\<open>stat\<close>: absent, a directory, or something else.\<close>
definition stat_dir :: "process \<Rightarrow> string \<Rightarrow> machine \<Rightarrow> bool option" where
  "stat_dir p path m =
     (if path = [] then None
      else if resolve p path \<in> set (ma_dirs m) then Some True
      else if fs_files (ma_fs m) (resolve p path) \<noteq> None then Some False else None)"

definition mkdir :: "process \<Rightarrow> string \<Rightarrow> machine \<Rightarrow> machine \<times> bool" where
  "mkdir p path m =
     (if path = [] \<or> stat_dir p path m \<noteq> None \<or> \<not> ma_can_mkdir m (resolve p path) then (m, False)
      else (m\<lparr>ma_dirs := resolve p path # ma_dirs m\<rparr>, True))"

text \<open>\<open>substr(0, find_last_of('/'))\<close>, \<open>None\<close> when there is no slash.\<close>
definition directory_part :: "string \<Rightarrow> string option" where
  "directory_part path =
     (if CHR ''/'' \<in> set path then Some (rev (tl (dropWhile (\<lambda>c. c \<noteq> CHR ''/'') (rev path)))) else None)"

definition create_pid_directory :: "process \<Rightarrow> string \<Rightarrow> machine \<Rightarrow> machine \<times> bool" where
  "create_pid_directory p pid_file m =
     (case directory_part pid_file of
        None \<Rightarrow> (m, True)
      | Some dir_path \<Rightarrow>
          (case stat_dir p dir_path m of
             Some is_dir \<Rightarrow> (m, is_dir)
           | None \<Rightarrow> mkdir p dir_path m))"

definition write_pid_file :: "process \<Rightarrow> string \<Rightarrow> machine \<Rightarrow> machine \<times> bool" where
  "write_pid_file p pid_file m =
     (let (m1, ok) = create_pid_directory p pid_file m
      in if \<not> ok then (m1, False)
         else (let (fs1, f) = open_trunc (resolve p pid_file) (ma_fs m1)
               in if \<not> stream_is_open f then (m1\<lparr>ma_fs := fs1\<rparr>, False)
                  else (m1\<lparr>ma_fs := stream_write (int_str (px_pid p) @ [nl]) fs1 f\<rparr>, True)))"

definition remove_pid_file :: "process \<Rightarrow> string \<Rightarrow> machine \<Rightarrow> machine" where
  "remove_pid_file p pid_file m = m\<lparr>ma_fs := fs_remove (resolve p pid_file) (ma_fs m)\<rparr>"

text \<open>\<open>file >> pid\<close> for an \<open>int\<close>: without any character it leaves the variable as it was (\<open>before\<close>, here an
  uninitialised one), without digits it stores 0, beyond the range it stores the bound.\<close>
definition read_int :: "int \<Rightarrow> string \<Rightarrow> int" where
  "read_int before s =
     (if dropWhile isspace s = [] then before
      else case strtol_prefix s of
             None \<Rightarrow> 0
           | Some (v, _) \<Rightarrow> max (- 2147483648) (min 2147483647 v))"

definition get_running_pid :: "int \<Rightarrow> process \<Rightarrow> string \<Rightarrow> machine \<Rightarrow> int" where
  "get_running_pid garbage p pid_file m =
     (case fs_files (ma_fs m) (resolve p pid_file) of None \<Rightarrow> - 1 | Some s \<Rightarrow> read_int garbage s)"

text \<open>\<open>kill_ok pid\<close>: \<open>kill(pid, 0)\<close> succeeds.\<close>
definition is_already_running :: "(int \<Rightarrow> bool) \<Rightarrow> int \<Rightarrow> process \<Rightarrow> string \<Rightarrow> machine \<Rightarrow> bool" where
  "is_already_running kill_ok garbage p pid_file m =
     (let pid = get_running_pid garbage p pid_file m in if pid \<le> 0 then False else kill_ok pid)"

subsection \<open>Facts\<close>

lemma read_int_str: "in_int32 n \<Longrightarrow> read_int before (int_str n @ [nl]) = n"
proof -
  assume n: "in_int32 n"
  obtain c s where cs: "int_str n = c # s" by (cases "int_str n") auto
  have "c = CHR ''-'' \<or> isdigit c" using cs int_str_chars [of c n] by simp
  then have "\<not> isspace c" using isdigit_not_space by (auto simp: isspace_def)
  moreover have "strtol_prefix (int_str n @ [nl]) = Some (n, [nl])" by (rule strtol_prefix_int) (simp add: isdigit_def)
  ultimately show ?thesis using n cs by (auto simp: read_int_def in_int32_def)
qed

lemma write_pid_file_written:
  assumes "write_pid_file p path m = (m', True)"
  shows "fs_files (ma_fs m') (resolve p path) = Some (int_str (px_pid p) @ [nl])"
  using assms
  by (auto simp: write_pid_file_def open_trunc_def stream_is_open_def Let_def split: prod.splits if_splits)

lemma resolve_absolute: "hd path = CHR ''/'' \<Longrightarrow> path \<noteq> [] \<Longrightarrow> resolve p path = path"
  by (simp add: resolve_def)

lemma absolute_path_same: "path \<noteq> [] \<Longrightarrow> hd path = CHR ''/'' \<Longrightarrow> resolve p path = resolve q path"
  by (simp add: resolve_absolute)

text \<open>C38: after a daemon has written its process id to an absolute path, every process, whatever its
  working directory, reads this id back from the file, and finds the daemon running exactly as long as
  a signal can be sent to it.\<close>
theorem pid_file_round_trip:
  assumes "write_pid_file p path m = (m', True)" "path \<noteq> []" "hd path = CHR ''/''" "0 < px_pid p" "in_int32 (px_pid p)"
  shows "get_running_pid garbage q path m' = px_pid p \<and>
         is_already_running kill_ok garbage q path m' = kill_ok (px_pid p)"
  using write_pid_file_written [OF assms(1)] assms(2-5)
  by (simp add: is_already_running_def get_running_pid_def resolve_absolute read_int_str)

definition daemon_machine :: machine where
  "daemon_machine =
     \<lparr> ma_fs = \<lparr> fs_files = Map.empty, fs_can_write = (\<lambda>_. True), fs_can_rename = (\<lambda>_ _. True), fs_can_remove = (\<lambda>_. True) \<rparr>,
       ma_dirs = [''/var''], ma_can_mkdir = (\<lambda>_. True) \<rparr>"

definition shell_process :: process where
  "shell_process = \<lparr> px_pid = 100, px_cwd = ''/home'', px_umask = 0x12, px_streams = Inherited \<rparr>"

definition all_well :: daemon_env where
  "all_well = \<lparr> de_fork1 = InChild, de_setsid = True, de_fork2 = InChild, de_child_pid = 102, de_chdir = True, de_devnull = True \<rparr>"

lemma pid_file_round_trip_witness:
  "get_running_pid 7 shell_process ''/var/run/c.pid'' (fst (write_pid_file (shell_process\<lparr>px_pid := 102\<rparr>) ''/var/run/c.pid'' daemon_machine)) = 102"
proof -
  obtain m' ok where w: "write_pid_file (shell_process\<lparr>px_pid := 102\<rparr>) ''/var/run/c.pid'' daemon_machine = (m', ok)" by (rule prod.exhaust)
  have "snd (write_pid_file (shell_process\<lparr>px_pid := 102\<rparr>) ''/var/run/c.pid'' daemon_machine)" by code_simp
  with w have "ok" by simp
  with pid_file_round_trip [of "shell_process\<lparr>px_pid := 102\<rparr>" "''/var/run/c.pid''" daemon_machine m' 7 shell_process] w
  show ?thesis by (simp add: shell_process_def in_int32_def)
qed

text \<open>A process id file in the root directory is refused: the directory part is the empty path.\<close>
lemma pid_file_in_root_fails: "snd (write_pid_file p ''/cos.pid'' m) = False"
  by (simp add: write_pid_file_def create_pid_directory_def directory_part_def stat_dir_def mkdir_def Let_def split_beta)

text \<open>Only the last directory is created.\<close>
lemma nested_directory_fails:
  "ma_can_mkdir m = (\<lambda>d. d = ''/run'') \<Longrightarrow> ma_dirs m = [] \<Longrightarrow> fs_files (ma_fs m) = Map.empty \<Longrightarrow>
   snd (write_pid_file p ''/run/cos/x.pid'' m) = False"
  by (simp add: write_pid_file_def create_pid_directory_def directory_part_def stat_dir_def mkdir_def resolve_def Let_def split_beta)

text \<open>A relative path is looked up in the directory the daemon is started from, but written below \<open>/\<close>.\<close>
lemma relative_pid_file_not_found:
  "is_already_running (\<lambda>_. True) garbage shell_process ''c.pid''
     (case daemonize all_well shell_process of
        Daemonized q \<Rightarrow> fst (write_pid_file q ''c.pid'' daemon_machine) | _ \<Rightarrow> daemon_machine) = False"
  by (simp add: daemonize_def all_well_def shell_process_def daemon_machine_def write_pid_file_def create_pid_directory_def
      directory_part_def open_trunc_def stream_is_open_def resolve_def is_already_running_def get_running_pid_def
      stream_write_def)

text \<open>An empty file leaves the process id uninitialised.\<close>
lemma empty_pid_file: "fs_files (ma_fs m) (resolve p path) = Some [] \<Longrightarrow> get_running_pid garbage p path m = garbage"
  by (simp add: get_running_pid_def read_int_def)

end
