(* ===== verification/Main_Program.thy ===== *)
theory Main_Program
  imports Command_Line Config_Validator Diagnostic_Runner Report_Generator Daemon Updater
begin

text \<open>
  \<open>main.cpp\<close>, second part: what \<open>main\<close> does with the parsed arguments.  Outcomes are the exit code, the text
  on the standard output, that on the standard error (without the log and the messages about invalid
  numbers) and the file system.  \<open>main\<close> runs the one-shot modes to their end; otherwise it becomes a daemon if
  it is asked to, and serves: it starts the engine, handles the requests of the command line, and then
  loops until a signal stops it.

  From the start of the first monitor to the end of the last, their threads route events while \<open>main\<close> goes
  on.  A run comes with a \<open>schedule\<close>: what happened in the background before each statement, and the turns of
  the loop, of which some find the flag of \<open>SIGHUP\<close> set.  The standard output is the world of the
  listeners; a statement's text, and the line of an event, are written in one piece, although nothing in
  the source keeps the pieces of two threads apart.  A daemon whose \<open>/dev/null\<close> cannot be opened, so that files
  opened later take the place of its streams, is treated like one whose streams lead nowhere.
\<close>

record ('re, 'lre) main_env =
  mn_prog :: string
  mn_version :: string
  mn_platform :: PlatformType
  mn_host :: host_info
  mn_engine :: "('re, 'lre) engine_env"
  mn_snapshot :: snapshot_env
  mn_info :: info_env
  mn_report :: report_env
  mn_http_get :: "string \<Rightarrow> string"
  mn_choice :: string
  mn_pull :: child
  mn_stod :: "string \<Rightarrow> double option"
  mn_double_text :: "double \<Rightarrow> string"
  mn_local_time :: "timestamp \<Rightarrow> string"
  mn_sort :: "Event list \<Rightarrow> Event list"
  mn_query_clock :: "nat \<Rightarrow> timestamp"
  mn_process :: process
  mn_kill_ok :: "int \<Rightarrow> bool"
  mn_garbage :: int
  mn_daemon :: daemon_env

subsection \<open>The one-shot modes\<close>

definition usage_options :: string where
  "usage_options =
     ''Options:'' @ [nl] @
     ''  -c, --config <path>       Path to configuration file'' @ [nl] @
     ''  -d, --daemon              Run as daemon (background)'' @ [nl] @
     ''  --pid-file <path>         PID file path (default: /var/run/change-of-system.pid)'' @ [nl] @
     ''  --no-daemon               Run in the foreground (default)'' @ [nl] @
     ''  --export <path>           Export events to file (CSV or JSON)'' @ [nl] @
     ''  --report <path>           Generate report to file'' @ [nl] @
     ''  --reload-config           Reload configuration file'' @ [nl] @
     ''  --snapshot [path]         Capture a one-shot system state snapshot and exit.'' @ [nl] @
     ''                            If path is omitted or '' @ [CHR 0x27] @ ''-'' @ [CHR 0x27] @ '' writes JSON to stdout.'' @ [nl] @
     ''  --diagnose [path]         Run a self-test of monitors and sub-systems, then exit.'' @ [nl] @
     ''                            If path is omitted writes the report to stdout.'' @ [nl] @
     ''  --query [keyword]         Query stored events and print to stdout.'' @ [nl] @
     ''  --query-category <name>   Filter query by category (filesystem/process/...)'' @ [nl] @
     ''  --query-source <substr>   Filter query by source substring'' @ [nl] @
     ''  --query-from <unix_ms>    Query events at or after this timestamp (ms)'' @ [nl] @
     ''  --query-to <unix_ms>      Query events at or before this timestamp (ms)'' @ [nl] @
     ''  --query-limit <n>         Max events to print (default 50, 0 = unlimited)'' @ [nl] @
     ''  --query-offset <n>        Skip first N matches (default 0)'' @ [nl] @
     ''  --query-json              Output query results as JSON'' @ [nl] @
     ''  --tail                    Live event stream (like tail -f). Starts monitors and'' @ [nl] @
     ''                            prints events as they occur. Press Ctrl+C to stop.'' @ [nl] @
     ''  --tail-category <name>    Filter tail events by category'' @ [nl] @
     ''  --tail-source <substr>    Filter tail events by source substring'' @ [nl] @
     ''  --tail-keyword <substr>   Filter tail events by keyword (summary/target/source)'' @ [nl] @
     ''  --tail-recent <n>         Print last N events before live streaming (default 0)'' @ [nl] @
     ''  --tail-color              Enable ANSI color output for tail mode'' @ [nl] @
     ''  --tail-json               Output tail events as one JSON object per line'' @ [nl] @
     ''  --validate-config [path]  Validate config file and exit. If path omitted uses'' @ [nl] @
     ''                            the value from -c/--config (or config.ini).'' @ [nl] @
     ''                            Exits with 0 if OK, 1 if errors found.'' @ [nl] @
     ''  --snapshot-diff <a> <b>   Compare two snapshot JSON files and print the diff.'' @ [nl] @
     ''                            Exits 0 = identical, 1 = differences, 2 = error.'' @ [nl] @
     ''  --snapshot-diff-json      Output snapshot diff as JSON'' @ [nl] @
     ''  --snapshot-diff-verbose   Show detailed per-item changes in the diff'' @ [nl] @
     ''  --info [section]          Print a quick system info summary and exit.'' @ [nl] @
     ''                            Optional section: '' @ [CHR 0x27] @ ''json'' @ [CHR 0x27] @ '' for JSON output, '' @ [CHR 0x27] @ ''color'' @ [CHR 0x27] @ [nl] @
     ''                            for colored output, or omit for plain text.'' @ [nl] @
     ''  -V, --version             Show version information and exit'' @ [nl] @
     ''  -h, --help                Show this help message'' @ [nl] @
     [nl]"

definition print_usage :: "string \<Rightarrow> string \<Rightarrow> string" where
  "print_usage prog platform_name =
     ''Usage: '' @ prog @ '' [options]'' @ [nl] @ usage_options @ ''Platform: '' @ platform_name @ [nl]"

definition snapshot_config :: "ParsedArgs \<Rightarrow> ConfigStore \<Rightarrow> SnapshotConfig" where
  "snapshot_config args cfg =
     \<lparr> sc_output_path = (if pa_snapshot_path args = [] \<or> pa_snapshot_path args = ''-'' then [] else pa_snapshot_path args),
       sc_include_processes = config_get_bool ''snapshot.include_processes'' True cfg,
       sc_include_network = config_get_bool ''snapshot.include_network'' True cfg,
       sc_include_ports = config_get_bool ''snapshot.include_ports'' True cfg,
       sc_include_disk = config_get_bool ''snapshot.include_disk'' True cfg,
       sc_include_load = config_get_bool ''snapshot.include_load'' True cfg,
       sc_include_environment = config_get_bool ''snapshot.include_environment'' True cfg,
       sc_max_processes = config_get_int ''snapshot.max_processes'' 50 cfg \<rparr>"

type_synonym main_result = "int \<times> string \<times> string \<times> file_system"

definition main_capture :: "('re, 'lre) main_env \<Rightarrow> ParsedArgs \<Rightarrow> file_system \<Rightarrow> ConfigStore \<Rightarrow> main_result" where
  "main_capture env args fs cfg0 =
     (let (cfg, fs1, en) =
        (initialize (mn_engine env) (pa_config_path args) fs cfg0 :: ConfigStore \<times> file_system \<times> ('re, 'lre, string) MonitorEngine);
          (ok, out, fs2) = snapshot_generate (mn_snapshot env) (snapshot_config args cfg) fs1
      in if ok then (0, out, [], fs2) else (1, out, ''Failed to capture snapshot'' @ [nl], fs2))"

definition main_diagnose :: "('re, 'lre) main_env \<Rightarrow> ParsedArgs \<Rightarrow> file_system \<Rightarrow> ConfigStore \<Rightarrow> main_result" where
  "main_diagnose env args fs cfg0 =
     (let (cfg, fs1, en) =
        (initialize (mn_engine env) (pa_config_path args) fs cfg0 :: ConfigStore \<times> file_system \<times> ('re, 'lre, string) MonitorEngine);
          (res, out, fs2) = diagnostic_run (mn_platform env) (mn_host env) (pa_diagnose_path args) fs1 en
      in (if dr_unavailable res > 0 then 2 else 0, out, [], fs2))"

definition main_query :: "('re, 'lre) main_env \<Rightarrow> ParsedArgs \<Rightarrow> file_system \<Rightarrow> ConfigStore \<Rightarrow> main_result" where
  "main_query env args fs cfg0 =
     (let (cfg, fs1, en) =
        (initialize (mn_engine env) (pa_config_path args) fs cfg0 :: ConfigStore \<times> file_system \<times> ('re, 'lre, string) MonitorEngine);
          (out, n) = query_run (mn_local_time env) (mn_sort env) (mn_query_clock env)
            ((pa_query_opts args)\<lparr>qo_keyword := pa_query_keyword args\<rparr>) fs1 (en_storage (eng_router en))
      in (0, out, [], fs1))"

definition main_validate :: "('re, 'lre) main_env \<Rightarrow> string \<Rightarrow> file_system \<Rightarrow> main_result" where
  "main_validate env path fs =
     (let (out, errors) = print_report (config_validate (mn_stod env) (mn_double_text env) path fs) path
      in (if errors > 0 then 1 else 0, out, [], fs))"

text \<open>\<open>None\<close> if \<open>main\<close> goes on to serve.\<close>
definition main_one_shot :: "('re, 'lre) main_env \<Rightarrow> ParsedArgs \<Rightarrow> file_system \<Rightarrow> ConfigStore \<Rightarrow> main_result option" where
  "main_one_shot env args fs cfg0 =
     (case main_mode_of args of
        ShowHelp \<Rightarrow> Some (0, print_usage (mn_prog env) (platform_to_string (mn_platform env)), [], fs)
      | ShowVersion \<Rightarrow> Some (0, ''change-of-system v'' @ mn_version env @ [nl], [], fs)
      | BadArguments \<Rightarrow> Some (1, [], [], fs)
      | ValidateConfig path \<Rightarrow> Some (main_validate env path fs)
      | CompareSnapshots opts \<Rightarrow>
          (let (code, out, err) = diff_run (mn_stod env) (mn_double_text env) fs opts in Some (code, out, err, fs))
      | ShowInfo opts \<Rightarrow> (let (code, out) = info_run (mn_info env) opts in Some (code, out, [], fs))
      | CaptureSnapshot \<Rightarrow> Some (main_capture env args fs cfg0)
      | RunDiagnosis \<Rightarrow> Some (main_diagnose env args fs cfg0)
      | RunQuery \<Rightarrow> Some (main_query env args fs cfg0)
      | Serve \<Rightarrow> None)"

text \<open>What precedes the modes: the check for an update.\<close>
definition main_update :: "('re, 'lre) main_env \<Rightarrow> string list \<Rightarrow> string" where
  "main_update env argv =
     (if is_one_shot_mode argv then []
      else prompt_update (check_for_update (mn_http_get env) (mn_version env)) (mn_choice env) (mn_pull env))"

subsection \<open>Serving\<close>

text \<open>What a process sees of the files: paths that are not absolute begin at its working directory.\<close>
definition process_view :: "process \<Rightarrow> file_system \<Rightarrow> file_system" where
  "process_view p fs =
     \<lparr> fs_files = (\<lambda>x. fs_files fs (resolve p x)), fs_can_write = (\<lambda>x. fs_can_write fs (resolve p x)),
       fs_can_rename = (\<lambda>x y. fs_can_rename fs (resolve p x) (resolve p y)), fs_can_remove = (\<lambda>x. fs_can_remove fs (resolve p x)) \<rparr>"

text \<open>The daemon part: refused, an exit of a parent or after an error, or a process that goes on; with what has
  been written to the standard output.\<close>
datatype daemon_start = Exits int string machine | GoesOn process string machine

definition start_daemon :: "('re, 'lre) main_env \<Rightarrow> ParsedArgs \<Rightarrow> machine \<Rightarrow> daemon_start" where
  "start_daemon env args m =
     (let out = ''Starting in daemon mode...'' @ [nl]
      in if \<not> pa_daemon_mode args then GoesOn (mn_process env) [] m
         else if is_already_running (mn_kill_ok env) (mn_garbage env) (mn_process env) (pa_pid_file args) m then Exits 1 [] m
         else (case daemonize (mn_daemon env) (mn_process env) of
                 ExitSuccess \<Rightarrow> Exits 0 out m
               | DaemonFailed q \<Rightarrow> Exits 1 out m
               | Daemonized q \<Rightarrow>
                   (let (m1, ok) = write_pid_file q (pa_pid_file args) m in if ok then GoesOn q out m1 else Exits 1 out m1)))"

definition event_line :: "Event \<Rightarrow> string" where
  "event_line e =
     ''[EVENT] '' @ category_name (ev_category e) @ '' | '' @ type_name (ev_type e) @ '' | '' @ ev_target e @ '' | '' @
     ev_summary e @ [nl]"

text \<open>\<open>sv_note\<close> is the message about the request just handled, which is printed next.\<close>
record ('re, 'lre) serving =
  sv_cfg :: ConfigStore
  sv_fs :: file_system
  sv_engine :: "('re, 'lre, string) MonitorEngine"
  sv_out :: string
  sv_note :: string

definition say :: "string \<Rightarrow> ('re, 'lre) serving \<Rightarrow> ('re, 'lre) serving" where
  "say s sv = sv\<lparr>sv_out := sv_out sv @ s\<rparr>"

subsubsection \<open>In the background\<close>

text \<open>What happens between two statements of \<open>main\<close>: the threads of the monitors route events, the watcher
  reloads the configuration, and other programs change files.\<close>
datatype background =
    Arrivals "(route_clock \<times> Event) list"
  | WatcherReload
  | FileChanged string "string option"

definition serve_arrivals ::
    "('re, 'lre) main_env \<Rightarrow> (route_clock \<times> Event) list \<Rightarrow> ('re, 'lre) serving \<Rightarrow> ('re, 'lre) serving option" where
  "serve_arrivals env ins sv =
     map_option (\<lambda>(r, fs, out). sv\<lparr>sv_engine := (sv_engine sv)\<lparr>eng_router := r\<rparr>, sv_fs := fs, sv_out := out\<rparr>)
       (route_all (ee_regex (mn_engine env)) ins (eng_router (sv_engine sv), sv_fs sv, sv_out sv))"

definition serve_reload :: "('re, 'lre) serving \<Rightarrow> ('re, 'lre) serving" where
  "serve_reload sv =
     (let (cfg, en) = reload_config (sv_fs sv) (sv_cfg sv, sv_engine sv) in sv\<lparr>sv_cfg := cfg, sv_engine := en\<rparr>)"

fun serve_background :: "('re, 'lre) main_env \<Rightarrow> background list \<Rightarrow> ('re, 'lre) serving \<Rightarrow> ('re, 'lre) serving option" where
  "serve_background env [] sv = Some sv"
| "serve_background env (Arrivals ins # bs) sv = Option.bind (serve_arrivals env ins sv) (serve_background env bs)"
| "serve_background env (WatcherReload # bs) sv =
     serve_background env bs (if cw_watching (eng_watcher (sv_engine sv)) then serve_reload sv else sv)"
| "serve_background env (FileChanged p c # bs) sv = serve_background env bs (sv\<lparr>sv_fs := set_file p c (sv_fs sv)\<rparr>)"

text \<open>A part of \<open>main\<close> is the list of its statements that write or act; the \<open>i\<close>-th list of \<open>bss\<close> is what happens
  before the \<open>i\<close>-th of them.  \<open>None\<close> if a statement or the background never returns.\<close>
type_synonym ('re, 'lre) statement = "('re, 'lre) serving \<Rightarrow> ('re, 'lre) serving option"

fun run_statements ::
    "('re, 'lre) main_env \<Rightarrow> ('re, 'lre) statement list \<Rightarrow> background list list \<Rightarrow> ('re, 'lre) serving \<Rightarrow>
     ('re, 'lre) serving option" where
  "run_statements env [] bss sv = Some sv"
| "run_statements env (f # fs) bss sv =
     Option.bind (serve_background env (case bss of [] \<Rightarrow> [] | bs # _ \<Rightarrow> bs) sv) (\<lambda>sv1.
       Option.bind (f sv1) (run_statements env fs (tl bss)))"

definition announce :: "string \<Rightarrow> ('re, 'lre) statement" where
  "announce s sv = Some (say s sv)"

definition tell_note :: "('re, 'lre) statement" where
  "tell_note sv = Some ((say (sv_note sv) sv)\<lparr>sv_note := []\<rparr>)"

subsubsection \<open>Start\<close>

text \<open>\<open>initialize\<close> and the listener that prints.\<close>
definition serve_initialize :: "('re, 'lre) main_env \<Rightarrow> ParsedArgs \<Rightarrow> file_system \<Rightarrow> ConfigStore \<Rightarrow> ('re, 'lre) serving" where
  "serve_initialize env args fs cfg0 =
     (let (cfg, fs1, en) = initialize (mn_engine env) (pa_config_path args) fs cfg0
      in \<lparr> sv_cfg = cfg, sv_fs = fs1,
           sv_engine = (if pa_tail_mode args then en
                        else en\<lparr>eng_router := engine_on_event (\<lambda>e out. out @ event_line e) (eng_router en)\<rparr>),
           sv_out = [], sv_note = [] \<rparr>)"

text \<open>\<open>start_all\<close> in two statements, for the monitors that have started emit events while the others and the
  reporter are still to be started.  It succeeds for a new engine, so its failure branch is not taken.\<close>
definition start_monitors :: "(string \<Rightarrow> bool) \<Rightarrow> ('re, 'lre, 'w) MonitorEngine \<Rightarrow> ('re, 'lre, 'w) MonitorEngine" where
  "start_monitors access_ok en =
     (let (slots, ms) = start_slots access_ok (eng_slots en) (eng_monitors en)
      in en\<lparr>eng_running := True, eng_slots := slots, eng_monitors := ms\<rparr>)"

definition start_reporter :: "('re, 'lre, 'w) MonitorEngine \<Rightarrow> ('re, 'lre, 'w) MonitorEngine" where
  "start_reporter en = (let r = eng_router en in en\<lparr>eng_router := r\<lparr>en_reporter := reporter_start (en_reporter r)\<rparr>\<rparr>)"

lemma start_all_in_two: "\<not> eng_running en \<Longrightarrow> start_all acc en = (start_reporter (start_monitors acc en), True)"
  by (simp add: start_all_def start_monitors_def start_reporter_def Let_def split: prod.split)

definition on_engine ::
    "(('re, 'lre, string) MonitorEngine \<Rightarrow> ('re, 'lre, string) MonitorEngine) \<Rightarrow> ('re, 'lre) statement" where
  "on_engine f sv = Some (sv\<lparr>sv_engine := f (sv_engine sv)\<rparr>)"

definition start_statements :: "('re, 'lre) main_env \<Rightarrow> ('re, 'lre) statement list" where
  "start_statements env =
     [on_engine (start_monitors (ee_access (mn_engine env))),
      on_engine start_reporter,
      announce (''change-of-system started on '' @ hi_platform (mn_host env) @ '' ('' @ hi_architecture (mn_host env) @ '')'' @ [nl]),
      announce (''Host: '' @ hi_hostname (mn_host env) @ '' | User: '' @ hi_username (mn_host env) @ [nl]),
      announce (''Press Ctrl+C to stop...'' @ [nl])]"

subsubsection \<open>Requests\<close>

text \<open>The format goes by what follows the last dot.\<close>
definition export_format :: "string \<Rightarrow> ExportFormat" where
  "export_format path =
     (if CHR ''.'' \<in> set path \<and> rev (takeWhile (\<lambda>c. c \<noteq> CHR ''.'') (rev path)) = ''json'' then JSON else CSV)"

definition serve_export :: "('re, 'lre) main_env \<Rightarrow> ParsedArgs \<Rightarrow> ('re, 'lre) statement" where
  "serve_export env args sv =
     map_option (\<lambda>(fs, ok).
         sv\<lparr>sv_fs := fs, sv_note := (if ok then ''Events exported to '' @ pa_export_path args @ [nl] else [])\<rparr>)
       (engine_export_events (mn_local_time env) (pa_export_path args) (export_format (pa_export_path args)) (sv_fs sv)
         (eng_router (sv_engine sv)))"

definition report_request :: "string \<Rightarrow> ReportConfig" where
  "report_request path = default_report_config\<lparr>rpc_output_path := path\<rparr>"

definition serve_report :: "('re, 'lre) main_env \<Rightarrow> ParsedArgs \<Rightarrow> ('re, 'lre) statement" where
  "serve_report env args sv =
     (case engine_generate_report (mn_report env) (report_request (pa_report_path args)) (sv_fs sv) (eng_router (sv_engine sv)) of
        Some (Inr (fs, ok)) \<Rightarrow>
          Some (sv\<lparr>sv_fs := fs, sv_note := (if ok then ''Report generated: '' @ pa_report_path args @ [nl] else [])\<rparr>)
      | _ \<Rightarrow> None)"

definition reload_statements :: "('re, 'lre) statement list" where
  "reload_statements = [(\<lambda>sv. Some (serve_reload sv)), announce (''Configuration reloaded'' @ [nl])]"

definition request_statements :: "('re, 'lre) main_env \<Rightarrow> ParsedArgs \<Rightarrow> ('re, 'lre) statement list" where
  "request_statements env args =
     (if pa_export_path args = [] then [] else [serve_export env args, tell_note]) @
     (if pa_report_path args = [] then [] else [serve_report env args, tell_note]) @
     (if pa_reload_config args then reload_statements else [])"

subsubsection \<open>The loop and the end\<close>

text \<open>A turn of the loop that only waits, and one that finds the flag of \<open>SIGHUP\<close>.\<close>
datatype turn = Waits "background list" | HangupSignal "background list list"

fun serve_loop :: "('re, 'lre) main_env \<Rightarrow> turn list \<Rightarrow> ('re, 'lre) statement" where
  "serve_loop env [] sv = Some sv"
| "serve_loop env (Waits bs # ts) sv = Option.bind (serve_background env bs sv) (serve_loop env ts)"
| "serve_loop env (HangupSignal bss # ts) sv =
     Option.bind
       (run_statements env (announce ([nl] @ ''Reloading configuration (SIGHUP received)...'' @ [nl]) # reload_statements) bss sv)
       (serve_loop env ts)"

text \<open>\<open>stop_all\<close> in two statements: until all monitors have joined their threads, they emit events.\<close>
definition stop_monitors :: "('re, 'lre, 'w) MonitorEngine \<Rightarrow> ('re, 'lre, 'w) MonitorEngine" where
  "stop_monitors en =
     (let (slots, ms) = stop_slots (eng_slots en) (eng_monitors en)
      in en\<lparr>eng_running := False, eng_slots := slots, eng_monitors := ms\<rparr>)"

definition stop_services :: "('re, 'lre, 'w) MonitorEngine \<Rightarrow> ('re, 'lre, 'w) MonitorEngine" where
  "stop_services en =
     (let r = eng_router en
      in en\<lparr>eng_watcher := stop_watching (eng_watcher en),
            eng_router := r\<lparr>en_reporter := fst (reporter_stop (en_reporter r)), en_storage := storage_close (en_storage r)\<rparr>\<rparr>)"

lemma stop_all_in_two: "eng_running en \<Longrightarrow> stop_all en = (stop_services (stop_monitors en), True)"
  by (simp add: stop_all_def stop_monitors_def stop_services_def Let_def split: prod.split)

definition stop_statements :: "('re, 'lre) statement list" where
  "stop_statements = [announce ([nl] @ ''Shutting down...'' @ [nl]), on_engine stop_monitors]"

text \<open>What is left when no monitor runs any more.\<close>
definition serve_end :: "ParsedArgs \<Rightarrow> ('re, 'lre) serving \<Rightarrow> ('re, 'lre) serving" where
  "serve_end args sv =
     say (''Stopped cleanly. Goodbye.'' @ [nl])
       (sv\<lparr>sv_engine := stop_services (sv_engine sv),
           sv_fs := (if pa_daemon_mode args then fs_remove (pa_pid_file args) (sv_fs sv) else sv_fs sv)\<rparr>)"

text \<open>What happens around \<open>main\<close>, part by part.\<close>
record schedule =
  sd_start :: "background list list"
  sd_requests :: "background list list"
  sd_turns :: "turn list"
  sd_stop :: "background list list"

text \<open>A run without \<open>--tail\<close>, until \<open>SIGINT\<close> or \<open>SIGTERM\<close> ends the loop.  The exit code is 0.\<close>
definition serve ::
    "('re, 'lre) main_env \<Rightarrow> ParsedArgs \<Rightarrow> file_system \<Rightarrow> ConfigStore \<Rightarrow> schedule \<Rightarrow> ('re, 'lre) serving option" where
  "serve env args fs cfg0 sd =
     Option.bind (run_statements env (start_statements env) (sd_start sd) (serve_initialize env args fs cfg0)) (\<lambda>sv1.
     Option.bind (run_statements env (request_statements env args) (sd_requests sd) sv1) (\<lambda>sv2.
     Option.bind (serve_loop env (sd_turns sd) sv2) (\<lambda>sv3.
     map_option (serve_end args) (run_statements env stop_statements (sd_stop sd) sv3))))"

text \<open>With \<open>--tail\<close> the stream of events takes the place of the rest; \<open>live\<close> are the events delivered to it.\<close>
definition serve_tail ::
    "('re, 'lre) main_env \<Rightarrow> ParsedArgs \<Rightarrow> file_system \<Rightarrow> ConfigStore \<Rightarrow> schedule \<Rightarrow> Event list \<Rightarrow>
     (int \<times> string \<times> file_system) option" where
  "serve_tail env args fs cfg0 sd live =
     map_option (\<lambda>sv.
        (let (out, code) = tail_run (mn_local_time env) (pa_tail_opts args)
               (\<lambda>n. case recent_events n (eng_router (sv_engine sv)) of Some es \<Rightarrow> es | None \<Rightarrow> []) live
         in (code, sv_out sv @ out, sv_fs sv)))
       (run_statements env (start_statements env) (sd_start sd) (serve_initialize env args fs cfg0))"

text \<open>\<open>main\<close> as a whole: the exit code, the text on the standard output, which leads nowhere once the process is a
  daemon, and the files as the process sees them; \<open>None\<close> if it never ends.\<close>
definition main_run ::
    "('re, 'lre) main_env \<Rightarrow> string list \<Rightarrow> machine \<Rightarrow> ConfigStore \<Rightarrow> schedule \<Rightarrow> Event list \<Rightarrow> (int \<times> string \<times> file_system) option" where
  "main_run env argv m cfg0 sd live =
     (let update = main_update env argv; args = parse_args argv
      in case main_one_shot env args (process_view (mn_process env) (ma_fs m)) cfg0 of
           Some (code, out, err, fs1) \<Rightarrow> Some (code, update @ out, fs1)
         | None \<Rightarrow>
             (case start_daemon env args m of
                Exits code out m1 \<Rightarrow> Some (code, update @ out, process_view (mn_process env) (ma_fs m1))
              | GoesOn q out m1 \<Rightarrow>
                  map_option (\<lambda>(code, served, fs1). (code, update @ out @ (if px_streams q = Inherited then served else []), fs1))
                    (if pa_tail_mode args then serve_tail env args (process_view q (ma_fs m1)) cfg0 sd live
                     else map_option (\<lambda>sv. (0, sv_out sv, sv_fs sv)) (serve env args (process_view q (ma_fs m1)) cfg0 sd))))"

text \<open>In the view of the daemon, removing its file is \<open>remove_pid_file\<close>.\<close>
lemma removed_in_view:
  "fs_files (process_view q (ma_fs (remove_pid_file q path m))) path = fs_files (fs_remove path (process_view q (ma_fs m))) path"
  by (simp add: process_view_def remove_pid_file_def fs_remove_def)

subsection \<open>Exit codes\<close>

lemma open_append_permissions [simp]: "fs_can_write (fst (open_append p fs f)) = fs_can_write fs"
  by simp

lemma initialize_permissions: "initialize env path fs cfg0 = (cfg, fs1, en) \<Longrightarrow> fs_can_write fs1 = fs_can_write fs"
proof -
  assume i: "initialize env path fs cfg0 = (cfg, fs1, en)"
  have "fs1 = fst (initialize_storage cfg fs)"
    using i by (auto simp: initialize_def Let_def split_beta split: if_splits)
  moreover have "fs_can_write (fst (storage_open p fs s)) = fs_can_write fs" for p s
    using permissions_frame(4) [of p fs "sto_file s"] by (simp add: storage_open_def Let_def split_beta)
  ultimately show ?thesis by (simp add: initialize_storage_def Let_def split_beta)
qed

lemma snapshot_generate_ok:
  "fst (snapshot_generate env c fs) \<longleftrightarrow> sc_output_path c = [] \<or> fs_can_write fs (sc_output_path c)"
  by (auto simp: snapshot_generate_def open_trunc_def Let_def)

lemma diagnostic_run_result [simp]: "fst (diagnostic_run t host path fs en) = diagnose t en"
  by (simp add: diagnostic_run_def Let_def split_beta)

lemma capture_code:
  "fst (main_capture env args fs cfg0) =
     (if pa_snapshot_path args = [] \<or> pa_snapshot_path args = ''-'' \<or> fs_can_write fs (pa_snapshot_path args) then 0 else 1)"
proof -
  obtain cfg fs1 and en :: "('a, 'b, string) MonitorEngine" where i: "initialize (mn_engine env) (pa_config_path args) fs cfg0 = (cfg, fs1, en)"
    by (rule prod_cases3)
  obtain ok out fs2 where g: "snapshot_generate (mn_snapshot env) (snapshot_config args cfg) fs1 = (ok, out, fs2)" by (rule prod_cases3)
  have "ok = (pa_snapshot_path args = [] \<or> pa_snapshot_path args = ''-'' \<or> fs_can_write fs (pa_snapshot_path args))"
    using snapshot_generate_ok [of "mn_snapshot env" "snapshot_config args cfg" fs1, unfolded g fst_conv] initialize_permissions [OF i]
    by (simp add: snapshot_config_def)
  then show ?thesis by (simp add: main_capture_def i g)
qed

lemma diagnose_code:
  "fst (main_diagnose env args fs cfg0) = (if list_all (\<lambda>row. ee_available (mn_engine env) (fst row)) monitor_table then 0 else 2)"
proof -
  obtain cfg fs1 and en :: "('a, 'b, string) MonitorEngine" where i: "initialize (mn_engine env) (pa_config_path args) fs cfg0 = (cfg, fs1, en)"
    by (rule prod_cases3)
  have "map sl_available (eng_slots en) = map (\<lambda>row. ee_available (mn_engine env) (fst row)) monitor_table" by (rule initialize_slots(2) [OF i])
  then have "list_all (\<lambda>b. b) (map sl_available (eng_slots en)) = list_all (\<lambda>b. b) (map (\<lambda>row. ee_available (mn_engine env) (fst row)) monitor_table)"
    by simp
  then have "list_all sl_available (eng_slots en) = list_all (\<lambda>row. ee_available (mn_engine env) (fst row)) monitor_table"
    by (simp add: list.pred_map o_def)
  moreover have "dr_unavailable (diagnose t en) > 0 \<longleftrightarrow> \<not> list_all sl_available (eng_slots en)" for t
    using unavailable_none_iff [of t en] by (simp add: diagnose_def)
  moreover obtain res out fs2 where r: "diagnostic_run (mn_platform env) (mn_host env) (pa_diagnose_path args) fs1 en = (res, out, fs2)"
    by (rule prod_cases3)
  ultimately show ?thesis
    using diagnostic_run_result [of "mn_platform env" "mn_host env" "pa_diagnose_path args" fs1 en]
    by (simp add: main_diagnose_def i r)
qed

lemma one_shot_code:
  "map_option fst (main_one_shot env args fs cfg0) =
     (case main_mode_of args of
        ShowHelp \<Rightarrow> Some 0
      | ShowVersion \<Rightarrow> Some 0
      | BadArguments \<Rightarrow> Some 1
      | ValidateConfig path \<Rightarrow>
          Some (if vr_error_count (config_validate (mn_stod env) (mn_double_text env) path fs) > 0 then 1 else 0)
      | CompareSnapshots opts \<Rightarrow> Some (fst (diff_run (mn_stod env) (mn_double_text env) fs opts))
      | ShowInfo opts \<Rightarrow> Some 0
      | CaptureSnapshot \<Rightarrow>
          Some (if pa_snapshot_path args = [] \<or> pa_snapshot_path args = ''-'' \<or> fs_can_write fs (pa_snapshot_path args) then 0 else 1)
      | RunDiagnosis \<Rightarrow> Some (if list_all (\<lambda>row. ee_available (mn_engine env) (fst row)) monitor_table then 0 else 2)
      | RunQuery \<Rightarrow> Some 0
      | Serve \<Rightarrow> None)"
proof (cases "main_mode_of args")
  case CaptureSnapshot
  then show ?thesis by (simp add: main_one_shot_def capture_code)
next
  case RunDiagnosis
  then show ?thesis by (simp add: main_one_shot_def diagnose_code)
next
  case RunQuery
  then show ?thesis by (simp add: main_one_shot_def main_query_def split_beta Let_def)
next
  case (ValidateConfig path)
  then show ?thesis by (simp add: main_one_shot_def main_validate_def print_report_def)
next
  case (CompareSnapshots opts)
  then show ?thesis by (simp add: main_one_shot_def split_beta Let_def)
next
  case (ShowInfo opts)
  then show ?thesis by (simp add: main_one_shot_def info_run_def)
qed (simp_all add: main_one_shot_def)

lemma tail_run_code: "snd (tail_run fmt opts recent live) = 0"
  unfolding tail_run_def Let_def by (simp only: snd_conv)

text \<open>The outcomes of \<open>daemonize\<close>.\<close>
definition daemonize_fails :: "daemon_env \<Rightarrow> bool" where
  "daemonize_fails d =
     (de_fork1 d = ForkError \<or> de_fork1 d = InChild \<and> (\<not> de_setsid d \<or> de_fork2 d = ForkError))"

definition daemonize_parent :: "daemon_env \<Rightarrow> bool" where
  "daemonize_parent d = (de_fork1 d = InParent \<or> de_fork1 d = InChild \<and> de_setsid d \<and> de_fork2 d = InParent)"

definition daemon_process :: "daemon_env \<Rightarrow> process \<Rightarrow> process" where
  "daemon_process d p =
     p\<lparr>px_pid := de_child_pid d, px_umask := 0x3F, px_cwd := (if de_chdir d then ''/'' else px_cwd p),
       px_streams := (if de_devnull d then ToNull else AllClosed)\<rparr>"

lemma daemonize_outcome:
  "(if daemonize_fails d then daemonize d p = DaemonFailed p
    else if daemonize_parent d then daemonize d p = ExitSuccess
    else daemonize d p = Daemonized (daemon_process d p))"
  by (simp add: daemonize_def daemonize_fails_def daemonize_parent_def daemon_process_def split: fork_result.split)

text \<open>C11: the exit code of every run, in every mode: the validation fails exactly if it found an error, the
  comparison and the information give their own code, the snapshot fails exactly if its file cannot be
  written, and the self-test fails exactly if a monitor is not available, whatever state the storage is
  in.  A query always succeeds.  A daemon is refused, with 1, if another one runs, if a \<open>fork\<close> or \<open>setsid\<close>
  fails, or if its process id cannot be written; both parents exit with 0; and what serves, in the
  foreground or as a daemon, gives 0 if it ends.\<close>
theorem main_exit_code:
  "map_option fst (main_run env argv m cfg0 sd live) =
     (let args = parse_args argv; p = mn_process env; d = mn_daemon env; fs = process_view p (ma_fs m);
          served = (\<lambda>q m1. map_option (\<lambda>_. 0)
            (if pa_tail_mode args
             then run_statements env (start_statements env) (sd_start sd) (serve_initialize env args (process_view q (ma_fs m1)) cfg0)
             else serve env args (process_view q (ma_fs m1)) cfg0 sd))
      in case main_mode_of args of
        ShowHelp \<Rightarrow> Some 0
      | ShowVersion \<Rightarrow> Some 0
      | BadArguments \<Rightarrow> Some 1
      | ValidateConfig path \<Rightarrow>
          Some (if vr_error_count (config_validate (mn_stod env) (mn_double_text env) path fs) > 0 then 1 else 0)
      | CompareSnapshots opts \<Rightarrow> Some (fst (diff_run (mn_stod env) (mn_double_text env) fs opts))
      | ShowInfo opts \<Rightarrow> Some 0
      | CaptureSnapshot \<Rightarrow>
          Some (if pa_snapshot_path args = [] \<or> pa_snapshot_path args = ''-'' \<or> fs_can_write fs (pa_snapshot_path args) then 0 else 1)
      | RunDiagnosis \<Rightarrow> Some (if list_all (\<lambda>row. ee_available (mn_engine env) (fst row)) monitor_table then 0 else 2)
      | RunQuery \<Rightarrow> Some 0
      | Serve \<Rightarrow>
          (if \<not> pa_daemon_mode args then served p m
           else if is_already_running (mn_kill_ok env) (mn_garbage env) p (pa_pid_file args) m then Some 1
           else if daemonize_fails d then Some 1
           else if daemonize_parent d then Some 0
           else if \<not> snd (write_pid_file (daemon_process d p) (pa_pid_file args) m) then Some 1
           else served (daemon_process d p) (fst (write_pid_file (daemon_process d p) (pa_pid_file args) m))))"
proof (cases "main_one_shot env (parse_args argv) (process_view (mn_process env) (ma_fs m)) cfg0")
  case None
  then have "main_mode_of (parse_args argv) = Serve"
    using one_shot_code [of env "parse_args argv" "process_view (mn_process env) (ma_fs m)" cfg0] by (auto split: main_mode.splits)
  then show ?thesis
    using daemonize_outcome [of "mn_daemon env" "mn_process env"]
    by (simp add: main_run_def Let_def None start_daemon_def serve_tail_def option.map_comp o_def split_beta tail_run_code)
next
  case (Some r)
  have "map_option fst (main_run env argv m cfg0 sd live) =
      map_option fst (main_one_shot env (parse_args argv) (process_view (mn_process env) (ma_fs m)) cfg0)"
    by (simp add: main_run_def Let_def split_beta Some)
  moreover have "main_mode_of (parse_args argv) \<noteq> Serve"
    using one_shot_code [of env "parse_args argv" "process_view (mn_process env) (ma_fs m)" cfg0] Some by auto
  ultimately show ?thesis
    unfolding one_shot_code by (cases "main_mode_of (parse_args argv)") (simp_all add: Let_def)
qed

subsection \<open>The permissions are the environment's\<close>

lemma shift_backups_permissions: "fs_can_write (shift_backups p n fs) = fs_can_write fs"
  by (induction n arbitrary: fs) simp_all

lemma storage_insert_permissions: "fs_can_write (fst (storage_insert e (fs, s))) = fs_can_write fs"
proof -
  have "fs_can_write (fst (maybe_rotate_locked fs1 s1)) = fs_can_write fs1" for fs1 s1
    using permissions_frame(4) shift_backups_permissions
    by (auto simp: maybe_rotate_locked_def Let_def split_beta)
  then show ?thesis by (simp add: storage_insert_def Let_def)
qed

lemma route_event_permissions:
  "deliver (route_event rx rc e (en, fs, w)) = Some (en', fs', w') \<Longrightarrow> fs_can_write fs' = fs_can_write fs"
  using storage_insert_permissions
  by (auto simp: deliver_def route_event_def Let_def split_beta split: if_splits sum.splits option.splits)

lemma route_all_permissions:
  "route_all rx ins (en, fs, w) = Some (en', fs', w') \<Longrightarrow> fs_can_write fs' = fs_can_write fs"
proof (induction ins arbitrary: en fs w)
  case (Cons i ins)
  obtain rc e where i: "i = (rc, e)" by (rule prod.exhaust)
  obtain en1 fs1 w1 where s: "deliver (route_event rx rc e (en, fs, w)) = Some (en1, fs1, w1)"
      "route_all rx ins (en1, fs1, w1) = Some (en', fs', w')"
    using Cons.prems by (auto simp: i bind_eq_Some_conv)
  show ?case using Cons.IH [OF s(2)] route_event_permissions [OF s(1)] by simp
qed simp

lemma export_permissions: "export_events fmt es path f fs = (fs', ok) \<Longrightarrow> fs_can_write fs' = fs_can_write fs"
  by (auto simp: export_events_def export_to_csv_def export_to_json_def export_text_def open_trunc_def Let_def
      split: ExportFormat.splits if_splits)

lemma serve_initialize_permissions: "fs_can_write (sv_fs (serve_initialize env args fs cfg0)) = fs_can_write fs"
proof -
  obtain cfg fs1 and en :: "('a, 'b, string) MonitorEngine" where i: "initialize (mn_engine env) (pa_config_path args) fs cfg0 = (cfg, fs1, en)"
    by (rule prod_cases3)
  show ?thesis using initialize_permissions [OF i] by (simp add: serve_initialize_def i split_beta Let_def)
qed

text \<open>A step of the run that leaves the permissions as they are.\<close>
definition keeps_permissions :: "('re, 'lre) statement \<Rightarrow> bool" where
  "keeps_permissions f = (\<forall>sv sv'. f sv = Some sv' \<longrightarrow> fs_can_write (sv_fs sv') = fs_can_write (sv_fs sv))"

lemma arrivals_permissions: "serve_arrivals env ins sv = Some sv' \<Longrightarrow> fs_can_write (sv_fs sv') = fs_can_write (sv_fs sv)"
  by (auto simp: serve_arrivals_def dest: route_all_permissions)

lemma reload_same_files [simp]: "sv_fs (serve_reload sv) = sv_fs sv"
  by (simp add: serve_reload_def split: prod.split)

lemma background_permissions: "serve_background env bs sv = Some sv' \<Longrightarrow> fs_can_write (sv_fs sv') = fs_can_write (sv_fs sv)"
proof (induction env bs sv rule: serve_background.induct)
  case (2 env ins bs sv)
  then show ?case using arrivals_permissions by (fastforce simp: bind_eq_Some_conv)
qed (simp_all split: if_splits)

lemma statements_permissions:
  "list_all keeps_permissions fs \<Longrightarrow> run_statements env fs bss sv = Some sv' \<Longrightarrow> fs_can_write (sv_fs sv') = fs_can_write (sv_fs sv)"
proof (induction env fs bss sv rule: run_statements.induct)
  case (2 env f fs bss sv)
  let ?bs = "case bss of [] \<Rightarrow> [] | bs # _ \<Rightarrow> bs"
  obtain sv1 sv2 where s: "serve_background env ?bs sv = Some sv1" "f sv1 = Some sv2" "run_statements env fs (tl bss) sv2 = Some sv'"
    using "2.prems"(2) by (auto simp: bind_eq_Some_conv)
  have "fs_can_write (sv_fs sv2) = fs_can_write (sv_fs sv1)" using "2.prems"(1) s(2) by (auto simp: keeps_permissions_def)
  with "2.IH" [OF s(1,2)] "2.prems"(1) s(3) background_permissions [OF s(1)] show ?case by simp
qed simp

lemma statement_permissions:
  "keeps_permissions (announce s)" "keeps_permissions tell_note" "keeps_permissions (on_engine g)" "keeps_permissions (serve_export env args)"
  by (auto simp: keeps_permissions_def announce_def tell_note_def on_engine_def say_def serve_export_def engine_export_events_def
      split: if_splits dest: export_permissions)

lemma run_statements_append:
  "run_statements env (fs @ gs) bss sv = Option.bind (run_statements env fs bss sv) (run_statements env gs (drop (length fs) bss))"
proof (induction fs arbitrary: bss sv)
  case (Cons f fs)
  have "run_statements env (fs @ gs) (tl bss) =
      (\<lambda>sv. Option.bind (run_statements env fs (tl bss) sv) (run_statements env gs (drop (length (f # fs)) bss)))"
    by (rule ext) (simp add: Cons.IH drop_Suc)
  then show ?case by simp
qed simp

subsection \<open>A report is never finished\<close>

lemma generate_report_never:
  assumes "fs_can_write fs (rpc_output_path config)" "rpc_include_statistics config"
  shows "engine_generate_report env config fs en \<noteq> Some (Inr res)"
proof -
  have "generate_text_report env (Some st) config es fs \<noteq> Inr res" for st es
    using assms statistics_section_never [of env st]
    by (cases "statistics_section env (Some st)") (auto simp: generate_text_report_def open_trunc_def Let_def)
  then show ?thesis by (auto simp: engine_generate_report_def)
qed

lemma serve_report_never:
  assumes "fs_can_write (sv_fs sv) (pa_report_path args)"
  shows "serve_report env args sv = None"
proof -
  have "engine_generate_report (mn_report env) (report_request (pa_report_path args)) (sv_fs sv) en \<noteq> Some (Inr res)"
    for en :: "('a, string) Router" and res
    using assms by (intro generate_report_never) (simp_all add: report_request_def default_report_config_def)
  then show ?thesis by (auto simp: serve_report_def split: option.split sum.split)
qed

text \<open>with \<open>--report\<close> and a file that can be written the program hangs before its loop, whatever the events,
  the configuration and the other options: it never reaches the point where it looks for a signal, so
  neither \<open>SIGINT\<close> nor \<open>SIGTERM\<close> stops it.\<close>
theorem report_request_never_returns:
  assumes "pa_report_path args \<noteq> []" "fs_can_write fs (pa_report_path args)"
  shows "serve env args fs cfg0 sd = None"
proof (rule ccontr)
  let ?before = "if pa_export_path args = [] then [] else [serve_export env args, tell_note]"
  assume "serve env args fs cfg0 sd \<noteq> None"
  then obtain sv1 sv2 where s: "run_statements env (start_statements env) (sd_start sd) (serve_initialize env args fs cfg0) = Some sv1"
      "run_statements env (?before @ serve_report env args # tell_note # (if pa_reload_config args then reload_statements else []))
        (sd_requests sd) sv1 = Some sv2"
    using assms(1) by (auto simp: serve_def request_statements_def bind_eq_None_conv)
  then obtain sv3 sv4 bs where t: "run_statements env ?before (sd_requests sd) sv1 = Some sv3" "serve_background env bs sv3 = Some sv4"
      "serve_report env args sv4 \<noteq> None"
    unfolding run_statements_append by (auto simp: bind_eq_Some_conv)
  have "list_all keeps_permissions (start_statements env)" "list_all keeps_permissions ?before"
    by (simp_all add: start_statements_def statement_permissions)
  then have "fs_can_write (sv_fs sv4) (pa_report_path args)"
    using statements_permissions [OF _ s(1)] statements_permissions [OF _ t(1)] background_permissions [OF t(2)]
      serve_initialize_permissions [of env args fs cfg0] assms(2) by simp
  then have "serve_report env args sv4 = None" by (rule serve_report_never)
  with t(3) show False by simp
qed

definition plain_host :: host_info where
  "plain_host = \<lparr> hi_platform = ''Linux'', hi_architecture = ''x86_64'', hi_hostname = ''h'', hi_username = ''u'', hi_version = ''6'' \<rparr>"

definition plain_report_env :: report_env where
  "plain_report_env =
     \<lparr> rpe_fmt = (\<lambda>_. ''t''), rpe_rate = (\<lambda>_. ''0.00''), rpe_sort = (\<lambda>r. r), rpe_now = 0, rpe_now1 = 0, rpe_now2 = 0 \<rparr>"

definition plain_main :: "(string, string) main_env" where
  "plain_main =
     \<lparr> mn_prog = ''cos'', mn_version = ''0.5.0'', mn_platform = Linux, mn_host = plain_host, mn_engine = plain_env,
       mn_snapshot = quiet_env, mn_info = quiet_info, mn_report = plain_report_env, mn_http_get = (\<lambda>_. []), mn_choice = [],
       mn_pull = ForkFailed, mn_stod = (\<lambda>_. None), mn_double_text = (\<lambda>_. ''0''), mn_local_time = (\<lambda>_. ''t''),
       mn_sort = (\<lambda>es. es), mn_query_clock = (\<lambda>_. 0),
       mn_process = shell_process, mn_kill_ok = (\<lambda>_. False), mn_garbage = 0, mn_daemon = all_well \<rparr>"

lemma report_request_never_returns_witness:
  "serve plain_main (parse_args [''--report'', ''r.txt'']) open_fs new_config_store
     \<lparr> sd_start = [], sd_requests = [], sd_turns = [HangupSignal []], sd_stop = [] \<rparr> = None"
  by (rule report_request_never_returns) (simp_all add: parse_args_def step_defs default_args_def open_fs_def)

subsection \<open>Every event is printed\<close>

text \<open>What the filter lets through of a list of arrivals, and of what happens in the background.\<close>
definition passed_events :: "'re regex_lib \<Rightarrow> FilterRule list \<Rightarrow> (route_clock \<times> Event) list \<Rightarrow> Event list" where
  "passed_events rx rules ins = concat (map (\<lambda>(rc, e). passed rx rules e) ins)"

fun passed_background :: "'re regex_lib \<Rightarrow> FilterRule list \<Rightarrow> background list \<Rightarrow> Event list" where
  "passed_background rx rules [] = []"
| "passed_background rx rules (Arrivals ins # bs) = passed_events rx rules ins @ passed_background rx rules bs"
| "passed_background rx rules (WatcherReload # bs) = passed_background rx rules bs"
| "passed_background rx rules (FileChanged p c # bs) = passed_background rx rules bs"

definition event_lines :: "Event list \<Rightarrow> string" where
  "event_lines es = concat (map event_line es)"

text \<open>The texts of \<open>main\<close>, each behind the lines of the events that came before it.\<close>
fun merged :: "'re regex_lib \<Rightarrow> FilterRule list \<Rightarrow> background list list \<Rightarrow> string list \<Rightarrow> string" where
  "merged rx rules bss [] = []"
| "merged rx rules bss (t # ts) =
     event_lines (passed_background rx rules (case bss of [] \<Rightarrow> [] | bs # _ \<Rightarrow> bs)) @ t @ merged rx rules (tl bss) ts"

definition reload_texts :: "string list" where
  "reload_texts = [[], ''Configuration reloaded'' @ [nl]]"

fun turns_text :: "'re regex_lib \<Rightarrow> FilterRule list \<Rightarrow> turn list \<Rightarrow> string" where
  "turns_text rx rules [] = []"
| "turns_text rx rules (Waits bs # ts) = event_lines (passed_background rx rules bs) @ turns_text rx rules ts"
| "turns_text rx rules (HangupSignal bss # ts) =
     merged rx rules bss (([nl] @ ''Reloading configuration (SIGHUP received)...'' @ [nl]) # reload_texts) @ turns_text rx rules ts"

definition started_texts :: "('re, 'lre) main_env \<Rightarrow> string list" where
  "started_texts env =
     [[], [],
      ''change-of-system started on '' @ hi_platform (mn_host env) @ '' ('' @ hi_architecture (mn_host env) @ '')'' @ [nl],
      ''Host: '' @ hi_hostname (mn_host env) @ '' | User: '' @ hi_username (mn_host env) @ [nl],
      ''Press Ctrl+C to stop...'' @ [nl]]"

text \<open>What the background may do: the events that pass have no braces and fit in a line of the log, and nobody else
  writes the log.\<close>
fun background_ok :: "'re regex_lib \<Rightarrow> FilterRule list \<Rightarrow> string \<Rightarrow> background \<Rightarrow> bool" where
  "background_ok rx rules logf (Arrivals ins) = list_all routable (passed_events rx rules ins)"
| "background_ok rx rules logf WatcherReload = True"
| "background_ok rx rules logf (FileChanged p c) = (p \<noteq> logf)"

definition turn_background :: "turn \<Rightarrow> background list" where
  "turn_background t = (case t of Waits bs \<Rightarrow> bs | HangupSignal bss \<Rightarrow> concat bss)"

definition schedule_ok :: "'re regex_lib \<Rightarrow> FilterRule list \<Rightarrow> string \<Rightarrow> schedule \<Rightarrow> bool" where
  "schedule_ok rx rules logf sd =
     (list_all (list_all (background_ok rx rules logf)) (sd_start sd) \<and>
      list_all (list_all (background_ok rx rules logf)) (sd_requests sd) \<and>
      list_all (\<lambda>t. list_all (background_ok rx rules logf) (turn_background t)) (sd_turns sd) \<and>
      list_all (list_all (background_ok rx rules logf)) (sd_stop sd))"

lemma passed_events_simps [simp]:
  "passed_events rx rules [] = []"
  "passed_events rx rules ((rc, e) # ins) = passed rx rules e @ passed_events rx rules ins"
  by (simp_all add: passed_events_def)

lemma event_lines_append [simp]: "event_lines [] = []" "event_lines (es @ es') = event_lines es @ event_lines es'"
  by (simp_all add: event_lines_def)

lemma passed_events_all: "passed_events rx (ef_rules (en_filter en)) ins = all_passed rx en ins"
  by (simp add: passed_events_def all_passed_def)

lemma storage_insert_path: "sto_path (snd (storage_insert e (fs, s))) = sto_path s"
  by (auto simp: storage_insert_def maybe_rotate_locked_def Let_def split_beta)

lemma route_event_path:
  "deliver (route_event rx rc e (en, fs, w)) = Some (en', fs', w') \<Longrightarrow> sto_path (en_storage en') = sto_path (en_storage en)"
  using storage_insert_path
  by (auto simp: deliver_def route_event_def Let_def split_beta split: if_splits sum.splits option.splits)

lemma route_all_path:
  "route_all rx ins (en, fs, w) = Some (en', fs', w') \<Longrightarrow> sto_path (en_storage en') = sto_path (en_storage en)"
proof (induction ins arbitrary: en fs w)
  case (Cons i ins)
  obtain rc e where i: "i = (rc, e)" by (rule prod.exhaust)
  obtain en1 fs1 w1 where s: "deliver (route_event rx rc e (en, fs, w)) = Some (en1, fs1, w1)"
      "route_all rx ins (en1, fs1, w1) = Some (en', fs', w')"
    using Cons.prems by (auto simp: i bind_eq_Some_conv)
  show ?case using Cons.IH [OF s(2)] route_event_path [OF s(1)] by simp
qed simp

lemma route_all_keeps:
  assumes "engine_ok en fs" "list_all routable (passed_events rx (ef_rules (en_filter en)) ins)"
  shows "\<exists>en' fs'. route_all rx ins (en, fs, w) =
      Some (en', fs', fold (\<lambda>e. fold (\<lambda>cb. cb e) (en_callbacks en)) (passed_events rx (ef_rules (en_filter en)) ins) w) \<and>
    engine_ok en' fs' \<and> ef_rules (en_filter en') = ef_rules (en_filter en) \<and> en_callbacks en' = en_callbacks en"
  using route_all_ok [OF assms(1), of rx ins w "\<lambda>_. 0"] assms(2)
  by (auto simp: passed_events_all routed_ok_def list_all_iff routable_def)

definition printer :: "Event \<Rightarrow> string \<Rightarrow> string" where
  "printer = (\<lambda>e out. out @ event_line e)"

definition serving_ok :: "FilterRule list \<Rightarrow> string \<Rightarrow> ('re, 'lre) serving \<Rightarrow> bool" where
  "serving_ok rules logf sv =
     (engine_ok (eng_router (sv_engine sv)) (sv_fs sv) \<and> ef_rules (en_filter (eng_router (sv_engine sv))) = rules \<and>
      en_callbacks (eng_router (sv_engine sv)) = [printer] \<and> sto_path (en_storage (eng_router (sv_engine sv))) = logf)"

lemma fold_printer: "fold (\<lambda>e. fold (\<lambda>cb. cb e) [printer]) es w = w @ event_lines es"
  by (induction es arbitrary: w) (simp_all add: printer_def event_lines_def)

lemma arrivals_printed:
  assumes "serving_ok rules logf sv" "list_all routable (passed_events (ee_regex (mn_engine env)) rules ins)"
  shows "\<exists>sv'. serve_arrivals env ins sv = Some sv' \<and> serving_ok rules logf sv' \<and>
    sv_out sv' = sv_out sv @ event_lines (passed_events (ee_regex (mn_engine env)) rules ins)"
proof -
  let ?r = "eng_router (sv_engine sv)"
  have ok: "engine_ok ?r (sv_fs sv)" "ef_rules (en_filter ?r) = rules" "en_callbacks ?r = [printer]" "sto_path (en_storage ?r) = logf"
    using assms(1) by (simp_all add: serving_ok_def)
  from route_all_keeps [OF ok(1), of "ee_regex (mn_engine env)" ins "sv_out sv", unfolded ok(2,3) fold_printer] assms(2)
  show ?thesis using route_all_path ok(4) by (fastforce simp: serve_arrivals_def serving_ok_def)
qed

lemma serve_reload_keeps: "serving_ok rules logf sv \<Longrightarrow> serving_ok rules logf (serve_reload sv) \<and> sv_out (serve_reload sv) = sv_out sv"
  by (auto simp: serve_reload_def reload_config_def serving_ok_def Let_def split: prod.split)

lemma file_changed_keeps:
  "serving_ok rules logf sv \<Longrightarrow> p \<noteq> logf \<Longrightarrow> serving_ok rules logf (sv\<lparr>sv_fs := set_file p c (sv_fs sv)\<rparr>)"
  by (auto simp: serving_ok_def engine_ok_def keeping_store_def storage_inv_def storage_ready_def stored_lines_def)

lemma background_printed:
  assumes "serving_ok rules logf sv" "list_all (background_ok (ee_regex (mn_engine env)) rules logf) bs"
  shows "\<exists>sv'. serve_background env bs sv = Some sv' \<and> serving_ok rules logf sv' \<and>
    sv_out sv' = sv_out sv @ event_lines (passed_background (ee_regex (mn_engine env)) rules bs)"
  using assms
proof (induction env bs sv rule: serve_background.induct)
  case (2 env ins bs sv)
  then obtain sv1 where a: "serve_arrivals env ins sv = Some sv1" "serving_ok rules logf sv1"
      "sv_out sv1 = sv_out sv @ event_lines (passed_events (ee_regex (mn_engine env)) rules ins)"
    using arrivals_printed [of rules logf sv env ins] by auto
  from "2.IH" [OF a(1,2)] "2.prems" show ?case by (auto simp: a)
next
  case (3 env bs sv)
  then show ?case using serve_reload_keeps [of rules logf sv] by (auto split: if_splits)
next
  case (4 env p c bs sv)
  then show ?case using file_changed_keeps [of rules logf sv p c] by auto
qed simp

text \<open>A statement that succeeds, keeps this, and prints a text.\<close>
definition prints :: "FilterRule list \<Rightarrow> string \<Rightarrow> ('re, 'lre) statement \<Rightarrow> string \<Rightarrow> bool" where
  "prints rules logf f t =
     (\<forall>sv. serving_ok rules logf sv \<longrightarrow> (\<exists>sv'. f sv = Some sv' \<and> serving_ok rules logf sv' \<and> sv_out sv' = sv_out sv @ t))"

lemma statements_printed:
  assumes "list_all2 (prints rules logf) fs ts" "serving_ok rules logf sv"
    and "list_all (list_all (background_ok (ee_regex (mn_engine env)) rules logf)) bss"
  shows "\<exists>sv'. run_statements env fs bss sv = Some sv' \<and> serving_ok rules logf sv' \<and>
    sv_out sv' = sv_out sv @ merged (ee_regex (mn_engine env)) rules bss ts"
  using assms
proof (induction fs ts arbitrary: bss sv rule: list_all2_induct)
  case (Cons f fs t ts)
  let ?bs = "case bss of [] \<Rightarrow> [] | bs # _ \<Rightarrow> bs"
  have "list_all (background_ok (ee_regex (mn_engine env)) rules logf) ?bs" using Cons.prems(2) by (cases bss) simp_all
  then obtain sv1 where b: "serve_background env ?bs sv = Some sv1" "serving_ok rules logf sv1"
      "sv_out sv1 = sv_out sv @ event_lines (passed_background (ee_regex (mn_engine env)) rules ?bs)"
    using background_printed [OF Cons.prems(1), of env ?bs] by auto
  obtain sv2 where f: "f sv1 = Some sv2" "serving_ok rules logf sv2" "sv_out sv2 = sv_out sv1 @ t"
    using Cons.hyps(1) b(2) by (auto simp: prints_def)
  have "list_all (list_all (background_ok (ee_regex (mn_engine env)) rules logf)) (tl bss)" using Cons.prems(2) by (cases bss) simp_all
  from Cons.IH [OF f(2) this] show ?case by (auto simp: b f)
qed simp

lemma say_prints: "serving_ok rules logf sv \<Longrightarrow> serving_ok rules logf (say s sv) \<and> sv_out (say s sv) = sv_out sv @ s"
  by (simp add: say_def serving_ok_def)

lemma statement_prints:
  "prints rules logf (announce s) s" "prints rules logf (\<lambda>sv. Some (serve_reload sv)) []"
  "prints rules logf (on_engine (start_monitors acc)) []" "prints rules logf (on_engine start_reporter) []"
  "prints rules logf (on_engine stop_monitors) []"
proof -
  show "prints rules logf (announce s) s" using say_prints by (auto simp: prints_def announce_def)
  show "prints rules logf (\<lambda>sv. Some (serve_reload sv)) []" using serve_reload_keeps by (auto simp: prints_def)
  show "prints rules logf (on_engine (start_monitors acc)) []" "prints rules logf (on_engine stop_monitors) []"
    by (auto simp: prints_def on_engine_def serving_ok_def start_monitors_def stop_monitors_def split: prod.split)
  show "prints rules logf (on_engine start_reporter) []"
    by (auto simp: prints_def on_engine_def serving_ok_def start_reporter_def engine_ok_def quiet_engine_def Let_def)
qed

lemma reload_prints: "list_all2 (prints rules logf) reload_statements reload_texts"
  by (simp add: reload_statements_def reload_texts_def statement_prints)

lemma loop_printed:
  assumes "serving_ok rules logf sv" "list_all (\<lambda>t. list_all (background_ok (ee_regex (mn_engine env)) rules logf) (turn_background t)) ts"
  shows "\<exists>sv'. serve_loop env ts sv = Some sv' \<and> serving_ok rules logf sv' \<and>
    sv_out sv' = sv_out sv @ turns_text (ee_regex (mn_engine env)) rules ts"
  using assms
proof (induction env ts sv rule: serve_loop.induct)
  case (2 env bs ts sv)
  then obtain sv1 where a: "serve_background env bs sv = Some sv1" "serving_ok rules logf sv1"
      "sv_out sv1 = sv_out sv @ event_lines (passed_background (ee_regex (mn_engine env)) rules bs)"
    using background_printed [of rules logf sv env bs] by (auto simp: turn_background_def)
  from "2.IH" [OF a(1,2)] "2.prems" show ?case by (auto simp: a)
next
  case (3 env bss ts sv)
  let ?hello = "[nl] @ ''Reloading configuration (SIGHUP received)...'' @ [nl]"
  have "list_all2 (prints rules logf) (announce ?hello # reload_statements) (?hello # reload_texts)"
    using reload_prints by (simp add: statement_prints del: append.simps)
  moreover have "list_all (list_all (background_ok (ee_regex (mn_engine env)) rules logf)) bss"
    using "3.prems"(2) by (auto simp: turn_background_def list_all_iff)
  ultimately obtain sv1 where a: "run_statements env (announce ?hello # reload_statements) bss sv = Some sv1" "serving_ok rules logf sv1"
      "sv_out sv1 = sv_out sv @ merged (ee_regex (mn_engine env)) rules bss (?hello # reload_texts)"
    using statements_printed [OF _ "3.prems"(1)] by blast
  have "list_all (\<lambda>t. list_all (background_ok (ee_regex (mn_engine env)) rules logf) (turn_background t)) ts" using "3.prems"(2) by simp
  from "3.IH" [OF a(1,2) this] a(3) show ?case
    unfolding serve_loop.simps turns_text.simps a(1) Option.bind.bind_lunit by auto
qed simp

text \<open>The rules of the filter that a configuration installs, and the log it names.\<close>
definition installed_rules :: "('re, 'lre) main_env \<Rightarrow> ConfigStore \<Rightarrow> FilterRule list" where
  "installed_rules env cfg =
     ef_rules (en_filter (initialize_router (mn_engine env) cfg new_storage :: ('re, string) Router))"

definition log_path :: "ConfigStore \<Rightarrow> string" where
  "log_path cfg = config_get ''storage.database_path'' ''change-of-system.log'' cfg"

lemma serve_initialize_ok:
  assumes "\<not> pa_tail_mode args" "cfg = (if pa_config_path args \<noteq> [] then config_load (pa_config_path args) fs cfg0 else cfg0)"
    and "store_file_ready cfg fs" "config_get_int ''storage.max_size_mb'' 0 cfg \<le> 0"
  shows "serving_ok (installed_rules env cfg) (log_path cfg) (serve_initialize env args fs cfg0)"
    and "sv_out (serve_initialize env args fs cfg0) = []"
proof -
  obtain cfg' fs1 and en :: "('a, 'b, string) MonitorEngine" where i: "initialize (mn_engine env) (pa_config_path args) fs cfg0 = (cfg', fs1, en)"
    by (rule prod_cases3)
  have e: "cfg' = cfg" "eng_router en = initialize_router (mn_engine env) cfg (snd (initialize_storage cfg fs))"
      "fs1 = fst (initialize_storage cfg fs)"
    using i by (auto simp: initialize_def Let_def split_beta assms(2))
  let ?r = "initialize_router (mn_engine env) cfg (snd (initialize_storage cfg fs)) :: ('a, string) Router"
  have "engine_ok ?r fs1"
    using initialize_router_ok [of fs1 "snd (initialize_storage cfg fs)" "mn_engine env" cfg] initialize_storage_ok [OF assms(3,4)] by (simp add: e(3))
  then have "engine_ok (?r\<lparr>en_callbacks := [printer]\<rparr>) fs1" by (simp add: engine_ok_def quiet_engine_def)
  moreover have "ef_rules (en_filter ?r) = installed_rules env cfg" "en_callbacks ?r = []" "en_storage ?r = snd (initialize_storage cfg fs)"
    by (simp_all add: installed_rules_def initialize_router_def Let_def)
  moreover have "sto_path (snd (initialize_storage cfg fs)) = log_path cfg"
    using assms(4) by (simp add: initialize_storage_def log_path_def storage_open_def Let_def split_beta)
  ultimately show "serving_ok (installed_rules env cfg) (log_path cfg) (serve_initialize env args fs cfg0)"
    using assms(1) by (simp add: serve_initialize_def i e(1,2) engine_on_event_def serving_ok_def printer_def [symmetric])
  show "sv_out (serve_initialize env args fs cfg0) = []" by (simp add: serve_initialize_def i)
qed


definition plain_schedule :: schedule where
  "plain_schedule =
     \<lparr> sd_start = [[], [Arrivals [(plain_clock, sample_event)]], []], sd_requests = [],
       sd_turns = [Waits [FileChanged ''/home/note'' (Some [])], HangupSignal [[], [Arrivals [(plain_clock, sample_event)]]]],
       sd_stop = [[], [Arrivals [(plain_clock, sample_event)]]] \<rparr>"


end
