(* ===== verification/Main_Window.thy ===== *)
theory Main_Window
  imports Engine_Lifecycle Platform
begin

text \<open>
  \<open>gui/main_window.h\<close> and \<open>gui/main_window.cpp\<close>: the window of the graphical program.  Of the widgets the
  model keeps what the program can change and the user can see: the texts of the header, the button and the
  status line, the rows of the list, and whether the timer runs.  \<open>QString::fromStdString\<close> and the text of a
  local time are parameters; texts are UTF-8 bytes.  The engine is \<open>None\<close> until its first \<open>initialize\<close>.
\<close>

record ('re, 'lre) gui_env =
  ge_engine :: "('re, 'lre) engine_env"
  ge_text :: "string \<Rightarrow> string"
  ge_date :: "int \<Rightarrow> string"
  ge_platform :: PlatformType
  ge_architecture :: string
  ge_hostname :: string
  ge_username :: string

record ('re, 'lre) MainWindow =
  mw_engine :: "('re, 'lre, unit) MonitorEngine option"
  mw_header :: string
  mw_toggle_button :: string
  mw_event_list :: "string list"
  mw_status_label :: string
  mw_timer_interval :: int
  mw_timer_active :: bool
  mw_monitoring :: bool

text \<open>The window with the two parts of the world it changes: the configuration store and the files.\<close>
record ('re, 'lre) gui_state =
  gs_window :: "('re, 'lre) MainWindow"
  gs_config :: ConfigStore
  gs_fs :: file_system

text \<open>The constructor with \<open>setup_ui\<close>\<close>
definition new_main_window :: "('re, 'lre) gui_env \<Rightarrow> ('re, 'lre) MainWindow" where
  "new_main_window env =
     \<lparr> mw_engine = None,
       mw_header = ge_text env (''Platform: '' @ platform_to_string (ge_platform env) @ '' ('' @ ge_architecture env @
         '')   |   Host: '' @ ge_hostname env @ ''   |   User: '' @ ge_username env),
       mw_toggle_button = ''Start Monitoring'', mw_event_list = [], mw_status_label = ''Idle'',
       mw_timer_interval = 750, mw_timer_active = False, mw_monitoring = False \<rparr>"

definition status_text :: "bool \<Rightarrow> nat \<Rightarrow> string" where
  "status_text monitoring rows =
     (if monitoring then ''Monitoring '' else ''Idle '') @ [CHR 0xE2, CHR 0x80, CHR 0x94] @ '' '' @ nat_str rows @ '' events displayed''"

definition update_status :: "('re, 'lre) MainWindow \<Rightarrow> ('re, 'lre) MainWindow" where
  "update_status w = w\<lparr>mw_status_label := status_text (mw_monitoring w) (length (mw_event_list w))\<rparr>"

text \<open>\<open>initialize\<close> on an engine that may have been initialised before: every component is created anew, the
  recent events and the listeners stay.  It always returns true, so the warning box never opens.\<close>
definition initialize_again ::
    "('re, 'lre) engine_env \<Rightarrow> ('re, 'lre, unit) MonitorEngine option \<Rightarrow> file_system \<Rightarrow> ConfigStore \<Rightarrow>
     ConfigStore \<times> file_system \<times> ('re, 'lre, unit) MonitorEngine" where
  "initialize_again env old fs cfg0 =
     (let (cfg, fs1, en) = initialize env [] fs cfg0
      in (cfg, fs1,
          case old of
            None \<Rightarrow> en
          | Some en0 \<Rightarrow>
              en\<lparr>eng_running := eng_running en0,
                 eng_router := (eng_router en)\<lparr>en_recent := en_recent (eng_router en0),
                                               en_callbacks := en_callbacks (eng_router en0)\<rparr>\<rparr>))"

definition toggle_monitoring :: "('re, 'lre) gui_env \<Rightarrow> ('re, 'lre) gui_state \<Rightarrow> ('re, 'lre) gui_state" where
  "toggle_monitoring env s =
     (let w = gs_window s
      in if \<not> mw_monitoring w
         then (let (cfg, fs1, en) = initialize_again (ge_engine env) (mw_engine w) (gs_fs s) (gs_config s);
                   en1 = fst (start_all (ee_access (ge_engine env)) en)
               in s\<lparr>gs_config := cfg, gs_fs := fs1,
                    gs_window := update_status (w\<lparr>mw_engine := Some en1, mw_toggle_button := ''Stop Monitoring'',
                                                 mw_timer_active := True, mw_monitoring := True\<rparr>)\<rparr>)
         else s\<lparr>gs_window := update_status (w\<lparr>mw_engine := map_option (\<lambda>en. fst (stop_all en)) (mw_engine w),
                                              mw_timer_active := False, mw_toggle_button := ''Start Monitoring'',
                                              mw_monitoring := False\<rparr>)\<rparr>)"

definition event_row :: "('re, 'lre) gui_env \<Rightarrow> Event \<Rightarrow> string" where
  "event_row env e =
     ''['' @ ge_date env (to_unix_ms (ev_timestamp e)) @ ''] ['' @ ge_text env (category_name (ev_category e)) @
     ''] ['' @ ge_text env (type_name (ev_type e)) @ ''] '' @ ge_text env (ev_summary e)"

text \<open>\<open>while (event_list_->count() > 1000) delete event_list_->takeItem(0)\<close>\<close>
fun trim_rows :: "string list \<Rightarrow> string list" where
  "trim_rows rows = (if length rows > 1000 then trim_rows (tl rows) else rows)"

declare trim_rows.simps [simp del]

text \<open>The recent events of an engine that has not been initialised are empty.\<close>
definition gui_recent :: "int \<Rightarrow> ('re, 'lre) MainWindow \<Rightarrow> Event list" where
  "gui_recent limit w =
     (case mw_engine w of
        None \<Rightarrow> []
      | Some en \<Rightarrow> (case recent_events limit (eng_router en) of Some es \<Rightarrow> es | None \<Rightarrow> []))"

definition refresh_events :: "('re, 'lre) gui_env \<Rightarrow> ('re, 'lre) MainWindow \<Rightarrow> ('re, 'lre) MainWindow" where
  "refresh_events env w = update_status (w\<lparr>mw_event_list := trim_rows (map (event_row env) (gui_recent 500 w))\<rparr>)"

definition clear_events :: "('re, 'lre) MainWindow \<Rightarrow> ('re, 'lre) MainWindow" where
  "clear_events w = w\<lparr>mw_event_list := []\<rparr>"

text \<open>The destructor\<close>
definition close_window :: "('re, 'lre) MainWindow \<Rightarrow> ('re, 'lre) MainWindow" where
  "close_window w =
     (case mw_engine w of
        Some en \<Rightarrow> if eng_running en then w\<lparr>mw_engine := Some (fst (stop_all en))\<rparr> else w
      | None \<Rightarrow> w)"

subsection \<open>A session\<close>

text \<open>What happens to the window: a click on one of the buttons, 750 ms passing, and the monitors' threads
  delivering events, which they do while the engine runs.\<close>
datatype gui_action = ClickToggle | ClickClear | TimerElapsed | Delivered "(route_clock \<times> Event) list"

fun gui_step :: "('re, 'lre) gui_env \<Rightarrow> gui_action \<Rightarrow> ('re, 'lre) gui_state \<Rightarrow> ('re, 'lre) gui_state option" where
  "gui_step env ClickToggle s = Some (toggle_monitoring env s)"
| "gui_step env ClickClear s = Some (s\<lparr>gs_window := clear_events (gs_window s)\<rparr>)"
| "gui_step env TimerElapsed s =
     Some (if mw_timer_active (gs_window s) then s\<lparr>gs_window := refresh_events env (gs_window s)\<rparr> else s)"
| "gui_step env (Delivered ins) s =
     (case mw_engine (gs_window s) of
        None \<Rightarrow> Some s
      | Some en \<Rightarrow>
          if eng_running en
          then map_option (\<lambda>(r, fs, _). s\<lparr>gs_window := (gs_window s)\<lparr>mw_engine := Some (en\<lparr>eng_router := r\<rparr>)\<rparr>, gs_fs := fs\<rparr>)
                 (route_all (ee_regex (ge_engine env)) ins (eng_router en, gs_fs s, ()))
          else Some s)"

definition gui_start :: "('re, 'lre) gui_env \<Rightarrow> file_system \<Rightarrow> ConfigStore \<Rightarrow> ('re, 'lre) gui_state" where
  "gui_start env fs cfg = \<lparr> gs_window = new_main_window env, gs_config = cfg, gs_fs = fs \<rparr>"

text \<open>The states a session can reach.\<close>
inductive gui_reaches :: "('re, 'lre) gui_env \<Rightarrow> ('re, 'lre) gui_state \<Rightarrow> ('re, 'lre) gui_state \<Rightarrow> bool"
  for env s0 where
  start: "gui_reaches env s0 s0"
| step: "gui_reaches env s0 s \<Longrightarrow> gui_step env a s = Some s' \<Longrightarrow> gui_reaches env s0 s'"

inductive_cases gui_reachesE: "gui_reaches env s0 s"

subsection \<open>Lemmas\<close>

lemma trim_rows_short: "length rows \<le> 1000 \<Longrightarrow> trim_rows rows = rows"
  by (simp add: trim_rows.simps)

lemma recent_events_short:
  "recent_events limit en = Some es \<Longrightarrow> length es \<le> nat limit"
  by (auto simp: recent_events_def Let_def split: if_splits)

lemma recent_500: "recent_events 500 en = Some (drop (length (en_recent en) - 500) (en_recent en))"
  by (auto simp: recent_events_def Let_def nat_diff_distrib' max_def)

lemma gui_recent_short: "length (gui_recent 500 w) \<le> 500"
  using recent_events_short [of 500] by (fastforce simp: gui_recent_def split: option.split)

text \<open>The loop that bounds the list never runs: the engine is asked for 500 events.\<close>
lemma refresh_rows: "mw_event_list (refresh_events env w) = map (event_row env) (gui_recent 500 w)"
  using gui_recent_short [of w] by (simp add: refresh_events_def update_status_def trim_rows_short)

lemma gui_recent_update [simp]:
  "gui_recent n (w\<lparr>mw_event_list := rows\<rparr>) = gui_recent n w" "gui_recent n (w\<lparr>mw_status_label := st\<rparr>) = gui_recent n w"
  by (simp_all add: gui_recent_def)

text \<open>Clearing does not last: the next refresh shows the same events again.\<close>
lemma clear_undone: "refresh_events env (clear_events w) = refresh_events env w"
  by (simp add: refresh_events_def clear_events_def)

text \<open>The status line is not updated when the list is cleared.\<close>
lemma clear_keeps_status: "mw_status_label (clear_events w) = mw_status_label w"
  by (simp add: clear_events_def)

lemma start_all_running: "eng_running (fst (start_all acc en))"
  by (auto simp: start_all_def Let_def split: prod.split)

lemma stop_all_running: "\<not> eng_running (fst (stop_all en))"
  by (auto simp: stop_all_def Let_def split: prod.split)

definition engine_runs :: "('re, 'lre) MainWindow \<Rightarrow> bool" where
  "engine_runs w = (case mw_engine w of Some en \<Rightarrow> eng_running en | None \<Rightarrow> False)"

text \<open>The parts of the window agree on whether the system is monitored.\<close>
definition in_step :: "('re, 'lre) MainWindow \<Rightarrow> bool" where
  "in_step w =
     (engine_runs w = mw_monitoring w \<and> mw_timer_active w = mw_monitoring w \<and>
      mw_toggle_button w = (if mw_monitoring w then ''Stop Monitoring'' else ''Start Monitoring'') \<and>
      length (mw_event_list w) \<le> 500)"

lemma toggle_in_step: "in_step (gs_window s) \<Longrightarrow> in_step (gs_window (toggle_monitoring env s))"
  by (auto simp: in_step_def engine_runs_def toggle_monitoring_def update_status_def Let_def start_all_running stop_all_running
      split: prod.split option.split)

lemma refresh_in_step: "in_step w \<Longrightarrow> in_step (refresh_events env w)"
  using gui_recent_short [of w] by (simp add: in_step_def refresh_rows) (simp add: refresh_events_def update_status_def engine_runs_def)

lemma clear_in_step: "in_step w \<Longrightarrow> in_step (clear_events w)"
  by (simp add: in_step_def engine_runs_def clear_events_def)

lemma gui_step_in_step:
  assumes "gui_step env a s = Some s'" "in_step (gs_window s)"
  shows "in_step (gs_window s')"
proof (cases a)
  case (Delivered ins)
  then show ?thesis using assms
    by (auto simp: in_step_def engine_runs_def split: option.splits if_splits prod.splits)
qed (use assms in \<open>auto simp: toggle_in_step refresh_in_step clear_in_step\<close>)

lemma new_main_window_in_step: "in_step (new_main_window env)"
  by (simp add: in_step_def engine_runs_def new_main_window_def)

lemma reaches_in_step: "gui_reaches env (gui_start env fs cfg) s \<Longrightarrow> in_step (gs_window s)"
  by (induction rule: gui_reaches.induct) (simp_all add: gui_start_def new_main_window_in_step gui_step_in_step)

text \<open>C40: in every state a session of the window can reach, with any clicks, ticks of the timer and events in
  any order, the button, the timer and the engine agree on whether the system is monitored, the list has
  at most 500 rows, and a refresh shows exactly the newest 500 events of the engine, whatever the list
  held before and whether or not it had been cleared.\<close>
theorem window_in_step:
  assumes "gui_reaches env (gui_start env fs cfg) s"
  shows "engine_runs (gs_window s) = mw_monitoring (gs_window s) \<and>
    mw_timer_active (gs_window s) = mw_monitoring (gs_window s) \<and>
    mw_toggle_button (gs_window s) = (if mw_monitoring (gs_window s) then ''Stop Monitoring'' else ''Start Monitoring'') \<and>
    length (mw_event_list (gs_window s)) \<le> 500 \<and>
    mw_event_list (refresh_events env (gs_window s)) =
      (case mw_engine (gs_window s) of
         None \<Rightarrow> []
       | Some en \<Rightarrow> map (event_row env) (drop (length (en_recent (eng_router en)) - 500) (en_recent (eng_router en)))) \<and>
    refresh_events env (clear_events (gs_window s)) = refresh_events env (gs_window s)"
proof -
  have "mw_event_list (refresh_events env (gs_window s)) =
      (case mw_engine (gs_window s) of
         None \<Rightarrow> []
       | Some en \<Rightarrow> map (event_row env) (drop (length (en_recent (eng_router en)) - 500) (en_recent (eng_router en))))"
    by (simp add: refresh_rows gui_recent_def recent_500 split: option.split)
  then show ?thesis using reaches_in_step [OF assms] by (simp add: in_step_def clear_undone)
qed

definition plain_gui :: "(string, string) gui_env" where
  "plain_gui =
     \<lparr> ge_engine = plain_env, ge_text = (\<lambda>s. s), ge_date = (\<lambda>_. ''2026-01-01 00:00:00''), ge_platform = Linux,
       ge_architecture = ''x86_64'', ge_hostname = ''host'', ge_username = ''user'' \<rparr>"

lemma window_in_step_witness:
  "let s0 = gui_start plain_gui open_fs new_config_store; s = toggle_monitoring plain_gui s0
   in gui_reaches plain_gui s0 s \<and> mw_monitoring (gs_window s) \<and> engine_runs (gs_window s) \<and> mw_timer_active (gs_window s) \<and>
      mw_toggle_button (gs_window s) = ''Stop Monitoring''"
proof -
  define s0 where "s0 = gui_start plain_gui open_fs new_config_store"
  have r: "gui_reaches plain_gui s0 (toggle_monitoring plain_gui s0)"
    by (rule gui_reaches.step [OF gui_reaches.start, where a = ClickToggle]) simp
  have "mw_monitoring (gs_window (toggle_monitoring plain_gui s0))"
    by (simp add: s0_def gui_start_def toggle_monitoring_def new_main_window_def update_status_def Let_def split: prod.split)
  then show ?thesis using r window_in_step [OF r [unfolded s0_def]] by (simp add: s0_def)
qed

end
