(* ===== verification/Logger.thy ===== *)
theory Logger
  imports File_System
begin

text \<open>
  \<open>utils/logger.h\<close>: the logger, its file and the standard error output.  The state is the logger with the
  file system and the text written to \<open>stderr\<close> so far; the text of the local time is a parameter.  The
  other theories leave the log out: no result of the program depends on it.
\<close>

datatype LogLevel = Debug | Info | Warn | Error

record Logger =
  lg_file :: ofstream
  lg_console_enabled :: bool

definition new_logger :: Logger where
  "new_logger = \<lparr> lg_file = closed_stream, lg_console_enabled = True \<rparr>"

definition set_log_file :: "string \<Rightarrow> Logger \<times> file_system \<times> string \<Rightarrow> Logger \<times> file_system \<times> string" where
  "set_log_file path = (\<lambda>(lg, fs, err).
     (let f = (if stream_is_open (lg_file lg) then close_stream (lg_file lg) else lg_file lg);
          (fs1, f1) = open_append path fs f
      in (lg\<lparr>lg_file := f1\<rparr>, fs1, err)))"

definition set_console_enabled :: "bool \<Rightarrow> Logger \<Rightarrow> Logger" where
  "set_console_enabled enabled lg = lg\<lparr>lg_console_enabled := enabled\<rparr>"

definition level_str :: "LogLevel \<Rightarrow> string" where
  "level_str level = (case level of Debug \<Rightarrow> ''DEBUG'' | Info \<Rightarrow> ''INFO'' | Warn \<Rightarrow> ''WARN'' | Error \<Rightarrow> ''ERROR'')"

definition log_line :: "string \<Rightarrow> LogLevel \<Rightarrow> string \<Rightarrow> string" where
  "log_line date level message = ''['' @ date @ ''] ['' @ level_str level @ ''] '' @ message @ [nl]"

text \<open>\<open>fprintf\<close> with \<open>%s\<close> prints up to the first NUL, the stream writes everything.\<close>
definition log_message ::
    "string \<Rightarrow> LogLevel \<Rightarrow> string \<Rightarrow> Logger \<times> file_system \<times> string \<Rightarrow> Logger \<times> file_system \<times> string" where
  "log_message date level message = (\<lambda>(lg, fs, err).
     (let full = log_line date level message
      in (lg,
          if stream_is_open (lg_file lg) then stream_write full fs (lg_file lg) else fs,
          if lg_console_enabled lg then err @ takeWhile (\<lambda>c. c \<noteq> CHR 0x00) full else err)))"

lemma level_str_inj: "level_str a = level_str b \<longleftrightarrow> a = b"
  by (cases a; cases b) (simp_all add: level_str_def)

lemma log_messages_append:
  assumes "lg_file lg = \<lparr> st_path = Some path, st_fail = False \<rparr>" "fs_files fs path = Some content"
  shows "\<exists>fs1 err1. fold (\<lambda>(date, level, msg). log_message date level msg) ms (lg, fs, err) = (lg, fs1, err1) \<and>
    fs_files fs1 path = Some (content @ concat (map (\<lambda>(date, level, msg). log_line date level msg) ms)) \<and>
    (\<forall>p. p \<noteq> path \<longrightarrow> fs_files fs1 p = fs_files fs p)"
  using assms(2)
proof (induction ms arbitrary: fs err content)
  case (Cons m ms)
  obtain date level msg where m: "m = (date, level, msg)" by (cases m)
  let ?fs = "set_file path (Some (content @ log_line date level msg)) fs"
  obtain err' where step: "log_message date level msg (lg, fs, err) = (lg, ?fs, err')"
    using Cons.prems by (simp add: log_message_def Let_def assms(1))
  have "fs_files ?fs path = Some (content @ log_line date level msg)" by simp
  from Cons.IH [OF this, of err'] show ?case by (auto simp: m step)
qed simp

text \<open>Once its file is open the logger appends one line per message to it, in order, behind what the file held,
  and touches no other file, whether or not the console is enabled.\<close>
theorem log_file_holds_messages:
  assumes "fs_can_write fs path"
  shows "\<exists>lg1 fs1 err1.
    fold (\<lambda>(date, level, msg). log_message date level msg) ms (set_log_file path (lg, fs, err)) = (lg1, fs1, err1) \<and>
    fs_files fs1 path =
      Some ((case fs_files fs path of None \<Rightarrow> [] | Some c \<Rightarrow> c) @ concat (map (\<lambda>(date, level, msg). log_line date level msg) ms)) \<and>
    (\<forall>p. p \<noteq> path \<longrightarrow> fs_files fs1 p = fs_files fs p)"
proof -
  let ?f = "if stream_is_open (lg_file lg) then close_stream (lg_file lg) else lg_file lg"
  have "\<not> stream_is_open ?f" by simp
  from open_append_closed [OF this assms]
  have o: "set_log_file path (lg, fs, err) =
      (lg\<lparr>lg_file := \<lparr> st_path = Some path, st_fail = False \<rparr>\<rparr>,
       if fs_files fs path = None then set_file path (Some []) fs else fs, err)"
    by (simp add: set_log_file_def)
  show ?thesis
    using log_messages_append
      [of "lg\<lparr>lg_file := \<lparr> st_path = Some path, st_fail = False \<rparr>\<rparr>" path
          "if fs_files fs path = None then set_file path (Some []) fs else fs" _ ms err]
    by (fastforce simp: o split: option.split)
qed

text \<open>A file that cannot be opened is silently not written.\<close>
lemma log_file_refused:
  assumes "\<not> fs_can_write fs path"
  shows "fst (snd (log_message date level msg (set_log_file path (new_logger, fs, err)))) = fs"
  using assms by (simp add: set_log_file_def log_message_def new_logger_def open_append_def closed_stream_def stream_is_open_def)

end
