(* ===== verification/Spec2Isabelle.thy ===== *)
theory Spec2Isabelle
  imports Storage Alert_Manager Event_Filter Security_Auditor Statistics
    Webhook Event_Exporter Event_Query Reporter Tail_Watcher
    Config_Validator Periodic_Runner Filesystem_Monitor Process_Monitor
    Network_Monitor Port_Monitor Environment_Monitor Package_Monitor User_Activity_Monitor
    File_Integrity_Monitor System_Config_Monitor Usb_Device_Monitor Service_Monitor Disk_Space_Monitor
    System_Load_Monitor Log_Monitor Monitor_Engine Config_Watcher Detection_Gaps Engine_Lifecycle
    Engine_Threads Engine_Run Alert_Threads Other_Platforms
    Snapshot_Generator Main_Program Main_Window Logger
begin

text \<open>
  \<^bold>\<open>A model of change-of-system\<close>, the system change monitor under \<open>src/\<close> (C++17, namespace \<open>changeos\<close>).

  \<^bold>\<open>The program.\<close>  Fourteen \<^emph>\<open>monitors\<close> (\<open>monitor/\<close>) poll the system on threads of their own
  (\<open>utils/periodic_runner.h\<close>), compare what they see with what they saw before and emit \<^emph>\<open>events\<close>
  (\<open>core/event\<close>).  The \<^emph>\<open>engine\<close> (\<open>core/monitor_engine\<close>) takes every event through the filter, the
  statistics, the alert manager, the security auditor (both of which may send webhooks), the file
  storage and the reporter to a cache of recent events and to the listeners.  The \<^emph>\<open>tools\<close> look at the
  store, the cache or the system: query, export, report, live view, diagnosis, snapshot and snapshot
  comparison, system information, validation of the configuration, update.  \<open>main.cpp\<close> and the window
  in \<open>gui/\<close> drive all of it.

  \<^bold>\<open>Which theory models what.\<close>  One theory per component, in the order of the imports; every definition has
  the name of its function in the source, or that name behind the component's (\<open>storage_open\<close> for
  \<open>FileStorage::open\<close>) where it would clash.

  \<^item> \<open>Prelude\<close>, \<open>Cpp_Map\<close>, \<open>Cpp_String\<close>, \<open>Cpp_Time\<close>, \<open>Cpp_Double\<close>, \<open>File_System\<close>: what the source uses of
    the language and its library.  \<open>std::map\<close> is a sorted association list, \<open>std::string\<close> a list of
    bytes, \<open>stoi\<close> and its relatives options, time points nanoseconds, doubles rationals, infinities and NaN,
    whose rounding operations are parameters; files are a map from paths to
    contents with the permissions of the environment, so that every error branch is reachable.
  \<^item> \<open>Interfaces\<close>, \<open>Cpp_Map\<close>, \<open>Monitor\<close>, \<open>Storage\<close>: the contracts several components share, as locales:
    \<open>map_ops\<close> (a sorted map), \<open>bounded_log\<close> (a history that drops its oldest entries; alerts, security
    events, webhook results, recent events), \<open>named_registry\<close> (rules and webhooks by name),
    \<open>snapshot_monitor\<close> (a monitor that compares consecutive scans: replaying its events over a run gives
    the last scan) and \<open>event_store\<close> (what the engine needs of a storage).  Each is interpreted on the
    definitions of the components that provide it.
  \<^item> \<open>Core_Event\<close>; \<open>Storage\<close>; \<open>Alert_Manager\<close>; \<open>Event_Filter\<close>; \<open>Security_Auditor\<close>; \<open>Statistics\<close>;
    \<open>Webhook\<close>; \<open>Reporter\<close>; \<open>Event_Exporter\<close>; \<open>Event_Query\<close>; \<open>Tail_Watcher\<close>; \<open>Config_Store\<close>;
    \<open>Config_Validator\<close>; \<open>Config_Watcher\<close>; \<open>Periodic_Runner\<close>; \<open>Logger\<close>: the files of the same names.
  \<^item> \<open>Monitor\<close> (the base class) and \<open>Filesystem_\<close>, \<open>Process_\<close>, \<open>Network_\<close>, \<open>Port_\<close>, \<open>Environment_\<close>,
    \<open>Package_\<close>, \<open>User_Activity_\<close>, \<open>File_Integrity_\<close>, \<open>System_Config_\<close>, \<open>Usb_Device_\<close>, \<open>Service_\<close>,
    \<open>Disk_Space_\<close>, \<open>System_Load_\<close>, \<open>Log_Monitor\<close>: \<open>monitor/\<close>.
  \<^item> \<open>Monitor_Engine\<close> (routing) and \<open>Engine_Lifecycle\<close> (initialise, start, stop, reload):
    \<open>core/monitor_engine\<close>.  \<open>Engine_Run\<close>: the engine with its fourteen monitors under any sequence of
    actions, ticks and configuration edits.  \<open>Engine_Threads\<close>: many threads in the routing at once, stage
    by stage; \<open>Alert_Threads\<close>: the same for the locks of the alert rules.  \<open>Detection_Gaps\<close>: which events
    of which monitors the auditor can react to.
  \<^item> \<open>Json_Text\<close>, \<open>Json_Parser\<close>, \<open>Snapshot_Diff\<close>, \<open>Snapshot_Generator\<close>: \<open>snapshot_diff/\<close>, \<open>snapshot/\<close> and the
    escaping the writers of JSON share.
  \<^item> \<open>Platform\<close>, \<open>System_Info\<close>, \<open>Report_Generator\<close>, \<open>Diagnostic_Runner\<close>, \<open>Updater\<close>, \<open>Daemon\<close>: the directories
    \<open>platform/\<close>, \<open>info/\<close>, \<open>report/\<close>, \<open>diagnostic/\<close>, \<open>updater/\<close> and \<open>utils/daemon.cpp\<close>.
  \<^item> \<open>Command_Line\<close> and \<open>Main_Program\<close>: \<open>main.cpp\<close>; \<open>Main_Window\<close>: \<open>gui/\<close>.
  \<^item> \<open>Other_Platforms\<close>: the choice of the platform and the branches for macOS and Windows; every other
    theory takes the Linux branch.

  \<^bold>\<open>How state and effects appear.\<close>  A class is a record of its members; an operation takes the record (and
  the file system, the output, the listeners' world where it touches them) and returns the new one.
  Exceptions, failed calls and early returns are values of sums or options.  A call that never returns
  (a mutex locked twice, a replacement loop without end) is a value too: \<open>Deadlock\<close> in the statistics,
  \<open>None\<close> or \<open>Hangs\<close> on the way through the engine, so that returning is something to prove.  The
  threads of the periodic runner, of the reporter, of the routing and of the alert rules are step
  relations over all interleavings, with invariants by rule induction: a step is what the source does
  under one lock.  Elsewhere the lock is held for the whole operation, which is one step, and what happens over
  time is the list of the steps.  A run of \<open>main\<close> comes with a schedule: the events that are routed, the reloads
  of the watcher and the changes of files before each of its statements, from the start of the first
  monitor to the end of the last, and the turns of its loop.

  \<^bold>\<open>What the lemmas show.\<close>  For the data: the formats are read back (stored lines, CSV, configuration, JSON,
  pid file, command line).  For the components with state: invariants kept by every operation (counters,
  rotation, rule lists, histories, cooldowns) and the exact effect of an event or an action in terms of
  the state before it.  For the monitors: the events of a run account for the difference between its
  first and its last scan.  For the engine: all views of the events agree when
  one thread routes them, and each thread's events reach every view in their order when several do; it stays well formed under every
  sequence of actions, and the log holds the events of all ticks up to the stop; and
  (in this theory, from the configuration through monitor, engine and storage to the disk) the stored log
  rebuilds the state of the watched trees, and a configuration the validator accepts gives an engine that
  can run.  For the tools: what is
  printed or written is exactly what the state holds, the exit codes mean what they say, and what
  one part writes another part reads (snapshots and their comparison, the JSON texts).  Where the code
  does not do what it means to, the lemma states what it does.

  \<^bold>\<open>Bounds and recursion.\<close>  Integers stay at their width where the code depends on it: 64-bit counters are
  words, conversions from text check the range of \<open>int\<close> and \<open>long long\<close>, the cast of a negative limit to
  \<open>size_t\<close> wraps.  The recursive JSON parser runs on fuel \<open>2 * length + 2\<close>; \<open>parse_returns\<close> proves that this is
  enough for every text, so that the bound is not part of any statement about it.  The replacement
  loops of the alert messages are \<open>partial_function (option)\<close>, with theorems on when they return and on when they
  do not.  Every other loop is structural or has its measure.

  \<^bold>\<open>Parameters.\<close>  Outside the repository and so arguments of the model: \<open>std::regex\<close> (compile and search),
  libcurl and OpenSSL (the outcome of each request, digests and HMACs), the clocks and the local time,
  the rounding and printing of doubles, \<open>std::sort\<close> (any sorted permutation), the answers of system calls
  and the texts of the proc files, the children and signals of the daemon, Qt's conversion of texts.
  What a theorem needs of them is a hypothesis, satisfied by the concrete functions of its witness:
  \<open>numbers_ok\<close>, for instance, asks \<open>stod\<close> to read integers of up to a hundred bits, and the library to print
  and read doubles that neither over- nor underflow.

  \<^bold>\<open>Not modelled.\<close>  The branches of other platforms that only repeat a parameter of the Linux model (the
  Windows and macOS forms of a system call whose answer is an argument anyway).  The transport of libcurl,
  and native file system events, which no class implements.  The layout and style of the
  widgets.  Data races: members that the source reads without a lock have one value at a time here.
  Exceptions of the allocator.  The log, apart from the logger itself.
\<close>

subsection \<open>From the scan to the disk\<close>

lemma started_engine_ok:
  fixes en :: "('re, 'lre, 'w) MonitorEngine"
  assumes "initialize env path fs cfg0 = (cfg, fs1, en)" "store_file_ready cfg fs"
    and "config_get_int ''storage.max_size_mb'' 0 cfg \<le> 0"
  shows "engine_ok (eng_router (fst (start_all acc en))) fs1"
    and "en_storage (eng_router (fst (start_all acc en))) = en_storage (eng_router en)"
    and "\<not> config_get_bool ''filter.enabled'' False cfg \<Longrightarrow> ef_rules (en_filter (eng_router (fst (start_all acc en)))) = []"
proof -
  note parts = initialize_parts [OF assms(1)]
  have ok: "engine_ok (eng_router en) fs1"
    unfolding parts(1,2) by (rule initialize_router_ok) (use initialize_storage_ok [OF assms(2,3)] in simp)
  have r: "eng_router (fst (start_all acc en)) = eng_router en \<or>
      eng_router (fst (start_all acc en)) = (eng_router en)\<lparr>en_reporter := reporter_start (en_reporter (eng_router en))\<rparr>"
    by (auto simp: start_all_def Let_def split: prod.split)
  then show "engine_ok (eng_router (fst (start_all acc en))) fs1"
    using ok by (auto simp: engine_ok_def quiet_engine_def)
  show "en_storage (eng_router (fst (start_all acc en))) = en_storage (eng_router en)" using r by auto
  show "ef_rules (en_filter (eng_router (fst (start_all acc en)))) = []" if "\<not> config_get_bool ''filter.enabled'' False cfg"
    using r that by (auto simp: parts(1) initialize_router_def Let_def new_event_filter_def)
qed

lemma file_effect_persisted [simp]: "file_effect (persisted e) = file_effect e"
  by (rule ext) (simp add: file_effect_def persisted_def split: EventType.split)

lemma fold_persisted: "fold file_effect (map persisted es) S = fold file_effect es S"
  by (induction es arbitrary: S) simp_all


lemma initial_filesystem_monitor:
  fixes en :: "('re, 'lre, 'w) MonitorEngine"
  assumes "initialize env path fs cfg0 = (cfg, fs1, en)"
  shows "ms_filesystem (eng_monitors en) =
    fold add_watch_path (config_get_list ''filesystem.watch_paths'' [''/tmp''] cfg) new_filesystem_monitor"
  using initialize_parts(3) [OF assms] assms by (auto simp: initialize_def initialize_monitors_def Let_def split_beta)

definition etc_monitor :: FilesystemMonitor where
  "etc_monitor = add_watch_path ''/tmp'' (add_watch_path ''/etc'' new_filesystem_monitor)"


subsection \<open>From the check of the configuration to the running engine\<close>

lemma initial_slots:
  "map (\<lambda>s. mon_poll_interval_ms (sl_base s)) (fst (initialize_monitors env cfg)) = configured_intervals cfg"
  "map sl_runner (fst (initialize_monitors env cfg)) = replicate 14 None"
  by (simp_all add: initialize_monitors_def Let_def set_intervals_def new_slots_def configured_intervals_def
      set_poll_interval_ms_def monitor_table_def numeral_eq_Suc)

lemma monitor_table_checked:
  "list_all (\<lambda>(_, key, default_ms). key \<in> set interval_keys \<and> 0 \<le> default_ms) monitor_table"
  by code_simp

lemma accepted_intervals_configured:
  assumes "error_free stod c" "fs_files fs path = Some c" "i \<in> set (configured_intervals (config_load path fs new_config_store))"
  shows "0 \<le> i"
  using assms(3) monitor_table_checked accepted_interval [OF assms(1,2)]
  by (fastforce simp: configured_intervals_def list_all_iff)

lemma initial_webhooks:
  "wn_webhooks (en_webhooks (initialize_router env cfg sto :: ('re, 'w) Router)) =
     (if config_get_bool ''webhook.enabled'' False cfg \<and> config_get ''webhook.url'' [] cfg \<noteq> [] then [default_webhook cfg] else [])"
  by (simp add: initialize_router_def Let_def add_webhook_def new_webhook_notifier_def)

text \<open>A monitor with a non-negative interval, whose runner, if it has one, sleeps a non-negative time.\<close>
definition waits :: "MonitorSlot \<Rightarrow> bool" where
  "waits s = (0 \<le> mon_poll_interval_ms (sl_base s) \<and> pred_option (\<lambda>i. 0 \<le> i) (sl_runner s))"

lemma start_slot_waits: "waits s \<Longrightarrow> waits (fst (start_slot acc s ms))"
  by (auto simp: waits_def start_slot_def monitor_start_def slot_on_start_def split: prod.split if_splits)

lemma start_slots_wait: "list_all waits slots \<Longrightarrow> list_all waits (fst (start_slots acc slots ms))"
  by (induction slots arbitrary: ms) (auto simp: start_slot_waits split_beta)

lemma start_all_waits: "list_all waits (eng_slots en) \<Longrightarrow> list_all waits (eng_slots (fst (start_all acc en)))"
  using start_slots_wait [of "eng_slots en" acc "eng_monitors en"] by (simp add: start_all_def split_beta Let_def)

lemma initial_slots_wait:
  assumes "\<And>i. i \<in> set (configured_intervals cfg) \<Longrightarrow> 0 \<le> i"
  shows "list_all waits (fst (initialize_monitors env cfg))"
proof -
  let ?slots = "fst (initialize_monitors env cfg)"
  have "list_all (\<lambda>i. 0 \<le> i) (map (\<lambda>s. mon_poll_interval_ms (sl_base s)) ?slots)"
    "list_all (pred_option (\<lambda>i. 0 \<le> i)) (map sl_runner ?slots)"
    unfolding initial_slots using assms by (simp_all add: list_all_iff)
  then show ?thesis by (simp add: list_all_iff waits_def)
qed

text \<open>C10: a configuration that \<open>validate\<close> accepts cannot misconfigure the engine: whatever the file, the
  environment and the number parser, once the check finds no error, every monitor of the engine that
  \<open>initialize\<close> builds from the file has a non-negative interval, after \<open>start_all\<close> every runner sleeps
  a non-negative time, and a webhook the engine has is enabled, posts to a web address and has a
  non-negative timeout.  Keys the file leaves out take the defaults of the
  store or of the engine, which the check does not see, and values are unescaped only after it.\<close>
theorem accepted_configuration_runs:
  fixes en :: "('re, 'lre, 'w) MonitorEngine"
  assumes "vr_ok (config_validate stod dstr path fs)" "path \<noteq> []"
    and "initialize env path fs new_config_store = (cfg, fs1, en)"
  shows "list_all waits (eng_slots en) \<and> list_all waits (eng_slots (fst (start_all acc en))) \<and>
     list_all (\<lambda>w. wc_enabled w \<and> is_web_url (wc_url w) \<and> 0 \<le> wc_timeout_ms w) (wn_webhooks (en_webhooks (eng_router en)))"
proof -
  obtain c where c: "fs_files fs path = Some c" "error_free stod c" using assms(1) config_accepted by blast
  have cfg: "cfg = config_load path fs new_config_store" using initialize_parts(3) [OF assms(3)] assms(2) by simp
  have "list_all waits (eng_slots en)"
    unfolding initialize_parts(4) [OF assms(3)] cfg
    by (rule initial_slots_wait) (rule accepted_intervals_configured [OF c(2,1)])
  moreover have "0 \<le> config_get_int ''webhook.timeout_ms'' 5000 cfg"
    unfolding cfg by (rule accepted_interval [OF c(2,1)]) (simp_all add: interval_keys_def)
  then have "list_all (\<lambda>w. wc_enabled w \<and> is_web_url (wc_url w) \<and> 0 \<le> wc_timeout_ms w) (wn_webhooks (en_webhooks (eng_router en)))"
    using accepted_webhook [OF c(2,1)]
    by (simp add: initialize_parts(1) [OF assms(3)] initial_webhooks cfg default_webhook_def)
  ultimately show ?thesis by (simp add: start_all_waits)
qed

lemma accepted_configuration_runs_witness:
  "let en = snd (snd (initialize plain_env ''c.ini'' good_fs new_config_store)) :: (string, string, nat) MonitorEngine
   in list_all waits (eng_slots (fst (start_all (\<lambda>_. True) en))) \<and>
      map wc_url (wn_webhooks (en_webhooks (eng_router en))) = [''https://h/x''] \<and>
      list_all (\<lambda>w. is_web_url (wc_url w)) (wn_webhooks (en_webhooks (eng_router en)))"
proof -
  obtain cfg fs1 and en :: "(string, string, nat) MonitorEngine"
    where i: "initialize plain_env ''c.ini'' good_fs new_config_store = (cfg, fs1, en)" by (rule prod_cases3)
  have content: "fs_files good_fs ''c.ini'' = Some (unlines good_lines)" by (simp add: good_fs_def)
  have cfg: "cfg = config_load ''c.ini'' good_fs new_config_store" using initialize_parts(3) [OF i] by simp
  have "cfg_unescape ''on'' = ''on''" "cfg_unescape ''https://h/x'' = ''https://h/x''" "truthy ''on''" by code_simp+
  then have "config_get ''webhook.url'' [] cfg = ''https://h/x''" "config_get_bool ''webhook.enabled'' False cfg"
    unfolding cfg
    by (simp_all add: config_get_bool_def config_get_def omap_get_def loaded_setting [OF content] good_settings_read
        good_settings_def truthy_def Let_def)
  then have "map wc_url (wn_webhooks (en_webhooks (eng_router en))) = [''https://h/x'']"
    by (simp add: initialize_parts(1) [OF i] initial_webhooks default_webhook_def)
  then show ?thesis
    using accepted_configuration_runs [OF good_config _ i, of "\<lambda>_. True"] by (simp add: i list_all_iff)
qed

text \<open>The check compares the thresholds of the disk monitor only if the file sets both: a warning
  threshold above the default of the critical one is accepted, and the engine runs with the two inverted.\<close>
definition high_warning :: "string list" where
  "high_warning = [''disk_space.warning_threshold = 99'']"

definition high_warning_fs :: file_system where
  "high_warning_fs = writable_fs\<lparr>fs_files := [''c.ini'' \<mapsto> unlines high_warning]\<rparr>"

definition stod_99 :: "string \<Rightarrow> double option" where
  "stod_99 s = (if s = ''99'' then Some (Fin 99) else None)"

lemma inverted_thresholds_accepted:
  "let disk = ms_disk_space (eng_monitors (snd (snd (initialize (plain_env\<lparr>ee_stod := stod_99\<rparr>) ''c.ini'' high_warning_fs new_config_store
       :: ConfigStore \<times> file_system \<times> (string, string, nat) MonitorEngine))))
   in vr_ok (config_validate stod_99 (\<lambda>_. []) ''c.ini'' high_warning_fs) \<and>
      dsm_warning_threshold disk = Fin 99 \<and> dsm_critical_threshold disk = Fin 95"
proof -
  let ?c = "unlines high_warning"
  have content: "fs_files high_warning_fs ''c.ini'' = Some ?c" by (simp add: high_warning_fs_def)
  have lines: "getlines ?c = high_warning" by (rule getlines_unlines) (simp add: high_warning_def)
  have "fold set_line high_warning [] = [(''disk_space.warning_threshold'', ''99'')]" by code_simp
  then have settings: "file_settings ?c = [(''disk_space.warning_threshold'', ''99'')]" by (simp add: file_settings_def lines)
  have "list_all (\<lambda>l. classify l \<noteq> Malformed) high_warning" by code_simp
  moreover have "\<not> bad_setting stod_99 (''disk_space.warning_threshold'', ''99'')" by code_simp
  ultimately have "vr_ok (config_validate stod_99 (\<lambda>_. []) ''c.ini'' high_warning_fs)"
    by (simp add: config_accepted content error_free_def lines settings bad_thresholds_def negative_interval_def
        bad_webhook_def interval_keys_def list_all_iff)
  moreover have "cfg_unescape ''99'' = ''99''" by code_simp
  moreover have "map_of (cs_values new_config_store) ''disk_space.critical_threshold'' = None" by code_simp
  ultimately show ?thesis
    by (simp add: initialize_def initialize_monitors_def Let_def split_beta config_get_double_def config_get_def omap_get_def
        loaded_setting [OF content] settings stod_99_def new_disk_monitor_def)
qed

end
